(* ===== verification/Utf8.thy ===== *)
theory Utf8 imports Prelude "HOL-Library.Char_ord" "HOL-Library.List_Lexorder" begin

text \<open>
  Rust strings. A \<open>str\<close> is its sequence of UTF-8 bytes, here a HOL \<open>string\<close> (a \<open>char\<close> is one
  byte), so \<open>len\<close>, byte offsets, slices and byte comparisons are those of the code. Code points
  are natural numbers; \<open>utf8\<close> encodes them, \<open>chars\<close> decodes as \<open>str::chars\<close> does, and
  \<open>str_get\<close> is \<open>str::get\<close> with its character-boundary checks. A text literal beyond ASCII is
  written as the encoding of its code points.
\<close>

section \<open>Bytes and code points\<close>

abbreviation byte :: "char \<Rightarrow> nat" where
  "byte c \<equiv> of_char c"

definition scalar :: "nat \<Rightarrow> bool" where
  "scalar c \<longleftrightarrow> c < 0xD800 \<or> (0xE000 \<le> c \<and> c < 0x110000)"

definition encode_scalar :: "nat \<Rightarrow> nat list" where
  "encode_scalar c =
     (if c < 0x80 then [c]
      else if c < 0x800 then [0xC0 + c div 64, 0x80 + c mod 64]
      else if c < 0x10000 then [0xE0 + c div 4096, 0x80 + c div 64 mod 64, 0x80 + c mod 64]
      else [0xF0 + c div 262144, 0x80 + c div 4096 mod 64, 0x80 + c div 64 mod 64, 0x80 + c mod 64])"

definition utf8 :: "nat list \<Rightarrow> string" where
  "utf8 cs = map char_of (concat (map encode_scalar cs))"

fun decode :: "nat list \<Rightarrow> nat list" where
  "decode [] = []"
| "decode (a # bs) =
     (if a < 0x80 then a # decode bs
      else if a < 0xE0 then
        (case bs of b # r \<Rightarrow> ((a - 0xC0) * 64 + (b - 0x80)) # decode r | [] \<Rightarrow> [0xFFFD])
      else if a < 0xF0 then
        (case bs of b # c # r \<Rightarrow> ((a - 0xE0) * 4096 + (b - 0x80) * 64 + (c - 0x80)) # decode r
         | _ \<Rightarrow> [0xFFFD])
      else
        (case bs of b # c # d # r \<Rightarrow>
           ((a - 0xF0) * 262144 + (b - 0x80) * 4096 + (c - 0x80) * 64 + (d - 0x80)) # decode r
         | _ \<Rightarrow> [0xFFFD]))"

definition chars :: "string \<Rightarrow> nat list" where
  "chars s = decode (map byte s)"

definition valid_utf8 :: "string \<Rightarrow> bool" where
  "valid_utf8 s \<longleftrightarrow> list_all scalar (chars s) \<and> utf8 (chars s) = s"

lemma scalar_cases:
  assumes "scalar c"
  obtains "c < 0x80" | "0x80 \<le> c" "c < 0x800" | "0x800 \<le> c" "c < 0x10000"
    | "0x10000 \<le> c" "c < 0x110000"
  using assms by (cases "c < 0x80"; cases "c < 0x800"; cases "c < 0x10000") (auto simp: scalar_def)

lemma encode_scalar_bytes: "scalar c \<Longrightarrow> b \<in> set (encode_scalar c) \<Longrightarrow> b < 256"
  by (auto simp: scalar_def encode_scalar_def split: if_splits)

lemma split_base64_3: "(c::nat) div 4096 * 4096 + c div 64 mod 64 * 64 + c mod 64 = c"
proof -
  have "c div 4096 = c div 64 div 64" using div_mult2_eq[of c 64 64] by simp
  then show ?thesis
    using div_mult_mod_eq[of c 64] div_mult_mod_eq[of "c div 64" 64] by linarith
qed

lemma split_base64_4:
  "(c::nat) div 262144 * 262144 + c div 4096 mod 64 * 4096 + c div 64 mod 64 * 64 + c mod 64 = c"
proof -
  have "c div 262144 = c div 4096 div 64" using div_mult2_eq[of c 4096 64] by simp
  then show ?thesis
    using split_base64_3[of c] div_mult_mod_eq[of "c div 4096" 64] by linarith
qed

lemma decode_encode_one:
  assumes "scalar c" shows "decode (encode_scalar c @ bs) = c # decode bs"
proof -
  from assms show ?thesis
  proof (cases rule: scalar_cases)
    case 3
    then have "encode_scalar c = [0xE0 + c div 4096, 0x80 + c div 64 mod 64, 0x80 + c mod 64]"
      and "c div 4096 < 16" by (simp_all add: encode_scalar_def)
    then show ?thesis using split_base64_3[of c] by simp
  next
    case 4
    then have "encode_scalar c =
      [0xF0 + c div 262144, 0x80 + c div 4096 mod 64, 0x80 + c div 64 mod 64, 0x80 + c mod 64]"
      by (simp add: encode_scalar_def)
    then show ?thesis using split_base64_4[of c] by simp
  qed (auto simp: encode_scalar_def)
qed

lemma decode_encode: "list_all scalar cs \<Longrightarrow> decode (concat (map encode_scalar cs)) = cs"
  by (induction cs) (auto simp: decode_encode_one)

lemma map_byte_char_of: "(\<And>b. b \<in> set bs \<Longrightarrow> b < 256) \<Longrightarrow> map byte (map char_of bs) = bs"
  by (induction bs) auto

lemma chars_utf8 [simp]:
  assumes "list_all scalar cs" shows "chars (utf8 cs) = cs"
proof -
  have "map byte (utf8 cs) = concat (map encode_scalar cs)"
    unfolding utf8_def using assms
    by (intro map_byte_char_of) (auto simp: list_all_iff dest: encode_scalar_bytes)
  then show ?thesis using assms by (simp add: chars_def decode_encode)
qed

lemma valid_utf8_utf8 [simp]: "list_all scalar cs \<Longrightarrow> valid_utf8 (utf8 cs)"
  by (simp add: valid_utf8_def)

lemma utf8_append [simp]: "utf8 (xs @ ys) = utf8 xs @ utf8 ys"
  by (simp add: utf8_def)

lemma utf8_simps [simp]: "utf8 [] = []" "utf8 (c # cs) = map char_of (encode_scalar c) @ utf8 cs"
  by (simp_all add: utf8_def)

section \<open>Character classes\<close>

text \<open>\<open>char::is_control\<close> (category Cc) and \<open>char::is_whitespace\<close> (property White\_Space).\<close>

definition is_control :: "nat \<Rightarrow> bool" where
  "is_control c \<longleftrightarrow> c < 0x20 \<or> (0x7F \<le> c \<and> c < 0xA0)"

definition is_whitespace :: "nat \<Rightarrow> bool" where
  "is_whitespace c \<longleftrightarrow> (9 \<le> c \<and> c \<le> 13) \<or> c = 0x20 \<or> c = 0x85 \<or> c = 0xA0 \<or> c = 0x1680
     \<or> (0x2000 \<le> c \<and> c \<le> 0x200A) \<or> c = 0x2028 \<or> c = 0x2029 \<or> c = 0x202F \<or> c = 0x205F \<or> c = 0x3000"

definition is_ascii_digit :: "char \<Rightarrow> bool" where
  "is_ascii_digit b \<longleftrightarrow> 48 \<le> byte b \<and> byte b \<le> 57"

definition is_ascii_lower :: "char \<Rightarrow> bool" where
  "is_ascii_lower b \<longleftrightarrow> 97 \<le> byte b \<and> byte b \<le> 122"

definition is_ascii_upper :: "char \<Rightarrow> bool" where
  "is_ascii_upper b \<longleftrightarrow> 65 \<le> byte b \<and> byte b \<le> 90"

definition is_ascii_alnum :: "char \<Rightarrow> bool" where
  "is_ascii_alnum b \<longleftrightarrow> is_ascii_digit b \<or> is_ascii_lower b \<or> is_ascii_upper b"

text \<open>The range \<open>b'0'..=b'9' | b'a'..=b'f'\<close> the code writes out for lower-case hexadecimal.\<close>

definition is_lower_hex :: "char \<Rightarrow> bool" where
  "is_lower_hex b \<longleftrightarrow> is_ascii_digit b \<or> (97 \<le> byte b \<and> byte b \<le> 102)"

text \<open>\<open>trim\_matches\<close> with a predicate, and \<open>trim\<close>.\<close>

definition str_trim_matches :: "(nat \<Rightarrow> bool) \<Rightarrow> string \<Rightarrow> string" where
  "str_trim_matches P s = utf8 (rev (dropWhile P (rev (dropWhile P (chars s)))))"

definition str_trim :: "string \<Rightarrow> string" where
  "str_trim s = str_trim_matches is_whitespace s"

definition count_char :: "nat \<Rightarrow> string \<Rightarrow> nat" where
  "count_char c s = length (filter (\<lambda>d. d = c) (chars s))"

definition has_control :: "string \<Rightarrow> bool" where
  "has_control s \<longleftrightarrow> list_ex is_control (chars s)"

section \<open>Boundaries and slices\<close>

definition is_char_boundary :: "string \<Rightarrow> nat \<Rightarrow> bool" where
  "is_char_boundary s i \<longleftrightarrow>
     i = 0 \<or> (if i < length s then \<not> (0x80 \<le> byte (s ! i) \<and> byte (s ! i) < 0xC0) else i = length s)"

definition str_get :: "string \<Rightarrow> nat \<Rightarrow> nat \<Rightarrow> string option" where
  "str_get s a b =
     (if a \<le> b \<and> is_char_boundary s a \<and> is_char_boundary s b
      then Some (take (b - a) (drop a s)) else None)"

abbreviation str_from :: "string \<Rightarrow> nat \<Rightarrow> string option" where
  "str_from s a \<equiv> str_get s a (length s)"

lemma boundary_le: "is_char_boundary s i \<Longrightarrow> i \<le> length s"
  by (auto simp: is_char_boundary_def split: if_splits)

lemma boundary_ends [simp]: "is_char_boundary s 0" "is_char_boundary s (length s)"
  by (auto simp: is_char_boundary_def)

lemma str_get_Some_iff:
  "str_get s a b = Some v \<longleftrightarrow>
     a \<le> b \<and> is_char_boundary s a \<and> is_char_boundary s b \<and> v = take (b - a) (drop a s)"
  by (auto simp: str_get_def)

lemma str_get_length: "str_get s a b = Some v \<Longrightarrow> length v = b - a"
  by (auto simp: str_get_Some_iff dest: boundary_le)

lemma str_get_append:
  assumes "str_get s a b = Some u" and "str_get s b c = Some v"
  shows "str_get s a c = Some (u @ v)"
proof -
  have "a \<le> b" "b \<le> c" using assms by (auto simp: str_get_Some_iff)
  then have "take (c - a) (drop a s) = take (b - a) (drop a s) @ take (c - b) (drop b s)"
    using take_add[of "b - a" "c - b" "drop a s"] by simp
  then show ?thesis using assms by (auto simp: str_get_Some_iff)
qed

lemma str_get_whole: "str_get s 0 (length s) = Some s"
  by (simp add: str_get_def)

lemma str_get_empty: "is_char_boundary s a \<Longrightarrow> str_get s a a = Some []"
  by (simp add: str_get_def)

text \<open>\<open>char\_indices\<close>: every code point with its byte offset.\<close>

fun indices_from :: "nat \<Rightarrow> nat list \<Rightarrow> (nat \<times> nat) list" where
  "indices_from i [] = []"
| "indices_from i (c # cs) = (i, c) # indices_from (i + length (encode_scalar c)) cs"

definition char_indices :: "string \<Rightarrow> (nat \<times> nat) list" where
  "char_indices s = indices_from 0 (chars s)"

text \<open>
  Within valid UTF-8 a boundary is never further back than three bytes: the loop
  \<open>while !is\_char\_boundary(end) \{ end -= 1 \}\<close> stops.
\<close>

fun floor_boundary :: "string \<Rightarrow> nat \<Rightarrow> nat" where
  "floor_boundary s 0 = 0"
| "floor_boundary s (Suc i) = (if is_char_boundary s (Suc i) then Suc i else floor_boundary s i)"

lemma floor_boundary_boundary [simp]: "is_char_boundary s (floor_boundary s i)"
  by (induction i) auto

lemma floor_boundary_le: "floor_boundary s i \<le> i"
  by (induction i) (auto simp: le_SucI)

lemma floor_boundary_ge: "is_char_boundary s j \<Longrightarrow> j \<le> i \<Longrightarrow> j \<le> floor_boundary s i"
  by (induction i) (auto simp: le_Suc_eq)

lemma floor_boundary_id: "is_char_boundary s i \<Longrightarrow> floor_boundary s i = i"
  by (cases i) auto

definition continuation :: "char \<Rightarrow> bool" where
  "continuation b \<longleftrightarrow> 0x80 \<le> byte b \<and> byte b < 0xC0"

lemma encode_scalar_shape:
  assumes "scalar c"
  obtains x xs where "map char_of (encode_scalar c) = x # xs" "\<not> continuation x"
    "list_all continuation xs" "length xs \<le> 3"
proof -
  have mod: "n mod 64 < 64" for n :: nat by simp
  have c: "continuation (char_of (0x80 + n mod 64 :: nat))" for n :: nat
    using mod[of n] by (simp add: continuation_def)
  from assms show thesis
  proof (cases rule: scalar_cases)
    case 1 then show thesis by (intro that[of _ "[]"]) (auto simp: encode_scalar_def continuation_def)
  next
    case 2
    then have "\<not> continuation (char_of (0xC0 + c div 64))"
      by (simp add: continuation_def)
    with 2 c show thesis by (intro that) (auto simp: encode_scalar_def)
  next
    case 3
    then have "\<not> continuation (char_of (0xE0 + c div 4096))"
      by (simp add: continuation_def)
    with 3 c show thesis by (intro that) (auto simp: encode_scalar_def)
  next
    case 4
    then have "\<not> continuation (char_of (0xF0 + c div 262144))"
      by (simp add: continuation_def)
    with 4 c show thesis by (intro that) (auto simp: encode_scalar_def)
  qed
qed

lemma boundary_iff:
  "is_char_boundary s i \<longleftrightarrow> i = 0 \<or> i = length s \<or> (i < length s \<and> \<not> continuation (s ! i))"
  by (auto simp: is_char_boundary_def continuation_def)

lemma boundary_append_left:
  "is_char_boundary v i \<Longrightarrow> i > 0 \<Longrightarrow> is_char_boundary (u @ v) (length u + i)"
  by (auto simp: boundary_iff nth_append)

lemma utf8_step_boundary:
  assumes "list_all scalar cs" and "i < length (utf8 cs)"
  shows "\<exists>j. i < j \<and> j \<le> i + 4 \<and> is_char_boundary (utf8 cs) j"
  using assms
proof (induction cs arbitrary: i)
  case Nil then show ?case by simp
next
  case (Cons c cs)
  then have sc: "scalar c" and scs: "list_all scalar cs" by auto
  define u :: string where "u = map char_of (encode_scalar c)"
  from sc obtain x xs where shape: "u = x # xs" "length xs \<le> 3"
    unfolding u_def by (rule encode_scalar_shape)
  have next_ok: "is_char_boundary (u @ utf8 cs) (length u)"
  proof (cases cs)
    case (Cons d ds)
    with scs have "scalar d" by simp
    then obtain y ys where "map char_of (encode_scalar d) = y # ys" "\<not> continuation y"
      by (rule encode_scalar_shape)
    with Cons show ?thesis by (simp add: boundary_iff nth_append)
  qed (simp add: boundary_iff)
  show ?case
  proof (cases "i < length u")
    case True
    with shape next_ok show ?thesis by (intro exI[of _ "length u"]) (auto simp: u_def)
  next
    case False
    with Cons.prems(2) have "i - length u < length (utf8 cs)" by (simp add: u_def)
    from Cons.IH[OF scs this] obtain j where j: "i - length u < j" "j \<le> i - length u + 4"
      "is_char_boundary (utf8 cs) j" by blast
    with boundary_append_left[of "utf8 cs" j u] False show ?thesis
      by (intro exI[of _ "length u + j"]) (auto simp: u_def)
  qed
qed

lemma boundary_progress:
  assumes "valid_utf8 s" and "i < length s"
  shows "\<exists>j. i < j \<and> j \<le> i + 4 \<and> is_char_boundary s j"
  using utf8_step_boundary[of "chars s" i] assms by (simp add: valid_utf8_def)

lemma floor_boundary_close:
  assumes "valid_utf8 s" and "i \<le> length s"
  shows "i - 3 \<le> floor_boundary s i"
proof (cases "4 \<le> i")
  case True
  then have "i - 4 < length s" using assms(2) by linarith
  then obtain j where "i - 4 < j" "j \<le> i - 4 + 4" "is_char_boundary s j"
    using boundary_progress[OF assms(1)] by blast
  then show ?thesis using floor_boundary_ge[of s j i] True by simp
qed simp

text \<open>Behind a single-byte character is a boundary.\<close>

lemma encode_scalar_high: "scalar c \<Longrightarrow> 0x80 \<le> c \<Longrightarrow> b \<in> set (encode_scalar c) \<Longrightarrow> 0x80 \<le> b"
  by (auto simp: scalar_def encode_scalar_def split: if_splits)

lemma boundary_after_char:
  assumes "list_all scalar cs"
  shows "is_char_boundary (u @ utf8 cs) (length u)"
proof (cases cs)
  case (Cons d ds)
  with assms have "scalar d" by simp
  then obtain y ys where "map char_of (encode_scalar d) = y # ys" "\<not> continuation y"
    by (rule encode_scalar_shape)
  with Cons show ?thesis by (simp add: boundary_iff nth_append)
qed (simp add: boundary_iff)

lemma utf8_after_ascii:
  "list_all scalar cs \<Longrightarrow> i < length (utf8 cs) \<Longrightarrow> byte (utf8 cs ! i) < 0x80 \<Longrightarrow> is_char_boundary (utf8 cs) (Suc i)"
proof (induction cs arbitrary: i)
  case (Cons c cs)
  define u :: string where "u = map char_of (encode_scalar c)"
  have eq: "utf8 (c # cs) = u @ utf8 cs" by (simp add: u_def)
  show ?case
  proof (cases "i < length u")
    case True
    have "c < 0x80"
    proof (rule ccontr)
      assume "\<not> c < 0x80"
      moreover have "byte (u ! i) \<in> set (encode_scalar c)"
        using True Cons.prems(1) encode_scalar_bytes[of c "encode_scalar c ! i"] by (simp add: u_def)
      ultimately have "0x80 \<le> byte (u ! i)"
        using encode_scalar_high[of c "byte (u ! i)"] Cons.prems(1) by simp
      moreover have "utf8 (c # cs) ! i = u ! i" unfolding eq using True by (rule nth_append_left)
      ultimately show False using Cons.prems(3) by simp
    qed
    then have "length u = Suc 0" by (simp add: u_def encode_scalar_def)
    then show ?thesis using boundary_after_char[of cs u] Cons.prems(1) True unfolding eq by simp
  next
    case False
    then have "utf8 (c # cs) ! i = utf8 cs ! (i - length u)" unfolding eq by (simp add: nth_append)
    moreover have "i - length u < length (utf8 cs)" using Cons.prems(2) False unfolding eq by simp
    ultimately have "is_char_boundary (utf8 cs) (Suc (i - length u))"
      using Cons.IH[of "i - length u"] Cons.prems(1,3) by simp
    then show ?thesis using boundary_append_left[of "utf8 cs" "Suc (i - length u)" u] False
      unfolding eq by (simp add: Suc_diff_le)
  qed
qed simp

lemma boundary_after_ascii:
  "valid_utf8 s \<Longrightarrow> i < length s \<Longrightarrow> byte (s ! i) < 0x80 \<Longrightarrow> is_char_boundary s (Suc i)"
  using utf8_after_ascii[of "chars s" i] by (simp add: valid_utf8_def)

section \<open>Searching\<close>

text \<open>
  \<open>str::contains\<close> is the library's \<open>sublist\<close>; \<open>match\_indices\<close> finds non-overlapping
  occurrences from left to right.
\<close>

abbreviation contains_str :: "string \<Rightarrow> string \<Rightarrow> bool" where
  "contains_str s p \<equiv> sublist p s"

fun matches_at :: "string \<Rightarrow> nat \<Rightarrow> nat \<Rightarrow> string \<Rightarrow> nat list" where
  "matches_at p k i [] = []"
| "matches_at p k i (c # t) =
     (if k > 0 then matches_at p (k - 1) (Suc i) t
      else if prefix p (c # t) then i # matches_at p (length p - 1) (Suc i) t
      else matches_at p 0 (Suc i) t)"

definition match_indices :: "string \<Rightarrow> string \<Rightarrow> nat list" where
  "match_indices s p =
     (if p = [] then filter (is_char_boundary s) [0..<Suc (length s)] else matches_at p 0 0 s)"

lemma matches_at_sound:
  "j \<in> set (matches_at p k i s) \<Longrightarrow> i \<le> j \<and> j < i + length s \<and> prefix p (drop (j - i) s)"
proof (induction p k i s rule: matches_at.induct)
  case (2 p k i c t)
  then consider "j = i" "prefix p (c # t)" | k' where "j \<in> set (matches_at p k' (Suc i) t)"
      "Suc i \<le> j \<and> j < Suc i + length t \<and> prefix p (drop (j - Suc i) t)"
    by (auto split: if_splits)
  then show ?case
  proof cases
    case 2
    then have "j - i = Suc (j - Suc i)" by arith
    with 2 show ?thesis by simp
  qed auto
qed simp

lemma matches_at_complete: "p \<noteq> [] \<Longrightarrow> sublist p s \<Longrightarrow> matches_at p 0 i s \<noteq> []"
proof (induction s arbitrary: i)
  case (Cons c t)
  then show ?case by (cases "prefix p (c # t)") (auto simp: sublist_Cons_right)
qed simp

lemma match_indices_get:
  assumes "j \<in> set (match_indices s p)" "p \<noteq> []"
  shows "j + length p \<le> length s" "take (length p) (drop j s) = p"
proof -
  have "prefix p (drop j s)" "j < length s"
    using assms matches_at_sound[of j p 0 0 s] by (auto simp: match_indices_def)
  then obtain z where z: "drop j s = p @ z" by (auto simp: prefix_def)
  then have "length (drop j s) = length p + length z" by simp
  with \<open>j < length s\<close> show "j + length p \<le> length s" by simp
  from z show "take (length p) (drop j s) = p" by simp
qed

lemma contains_iff_match: "p \<noteq> [] \<Longrightarrow> contains_str s p \<longleftrightarrow> match_indices s p \<noteq> []"
proof
  assume p: "p \<noteq> []" and "match_indices s p \<noteq> []"
  then obtain j where "j \<in> set (match_indices s p)" by (meson last_in_set)
  with p match_indices_get have "take (length p) (drop j s) = p" by blast
  then show "sublist p s" by (metis sublist_take sublist_drop sublist_order.order_trans)
qed (simp add: match_indices_def matches_at_complete)

lemma str_get_sublist: "str_get s a b = Some v \<Longrightarrow> contains_str s v"
  by (auto simp: str_get_Some_iff intro: sublist_order.order_trans[OF sublist_take sublist_drop])

section \<open>Prefixes, suffixes, numbers and bytes\<close>

definition strip_prefix :: "string \<Rightarrow> string \<Rightarrow> string option" where
  "strip_prefix s p = (if prefix p s then Some (drop (length p) s) else None)"

definition strip_suffix :: "string \<Rightarrow> string \<Rightarrow> string option" where
  "strip_suffix s p = (if suffix p s then Some (take (length s - length p) s) else None)"

text \<open>\<open>split\_once\<close> at a single ASCII character.\<close>

fun split_once :: "char \<Rightarrow> string \<Rightarrow> (string \<times> string) option" where
  "split_once c [] = None"
| "split_once c (b # bs) =
     (if b = c then Some ([], bs)
      else (case split_once c bs of None \<Rightarrow> None | Some (l, r) \<Rightarrow> Some (b # l, r)))"

lemma split_once_append: "c \<notin> set l \<Longrightarrow> split_once c (l @ c # r) = Some (l, r)"
  by (induction l) auto

lemma split_once_Some: "split_once c s = Some (l, r) \<Longrightarrow> s = l @ c # r \<and> c \<notin> set l"
  by (induction s arbitrary: l) (auto split: if_splits option.splits)

text \<open>Decimal rendering of an unsigned integer, and its big-endian and little-endian bytes.\<close>

fun decimal :: "nat \<Rightarrow> string" where
  "decimal n = (if n < 10 then [char_of (48 + n)] else decimal (n div 10) @ [char_of (48 + n mod 10)])"

declare decimal.simps [simp del]

lemma decimal_digits: "list_all is_ascii_digit (decimal n)"
proof (induction n rule: decimal.induct)
  case (1 n)
  have digit: "m < 10 \<Longrightarrow> is_ascii_digit (char_of (48 + m))" for m :: nat
    by (simp add: is_ascii_digit_def)
  from 1 show ?case by (cases "n < 10") (auto simp: decimal.simps[of n] intro: digit)
qed

lemma decimal_nonempty [simp]: "decimal n \<noteq> []"
  by (subst decimal.simps) simp

fun le_bytes :: "nat \<Rightarrow> nat \<Rightarrow> string" where
  "le_bytes 0 n = []"
| "le_bytes (Suc k) n = char_of (n mod 256) # le_bytes k (n div 256)"

definition be_bytes :: "nat \<Rightarrow> nat \<Rightarrow> string" where
  "be_bytes k n = rev (le_bytes k n)"

fun from_le :: "string \<Rightarrow> nat" where
  "from_le [] = 0"
| "from_le (b # bs) = byte b + 256 * from_le bs"

lemma le_bytes_length [simp]: "length (le_bytes k n) = k"
  by (induction k arbitrary: n) auto

lemma from_le_bytes: "from_le (le_bytes k n) = n mod 256 ^ k"
proof (induction k arbitrary: n)
  case (Suc k)
  have "n mod 256 + 256 * (n div 256 mod 256 ^ k) = n mod (256 * 256 ^ k)"
    by (simp add: mod_mult2_eq)
  with Suc show ?case by simp
qed simp

text \<open>\<open>str::parse\<close> into an unsigned integer below a bound: digits with an optional plus sign.\<close>

definition parse_unsigned :: "nat \<Rightarrow> string \<Rightarrow> nat option" where
  "parse_unsigned bound s =
     (let d = (case s of c # r \<Rightarrow> if c = CHR ''+'' then r else s | [] \<Rightarrow> s);
          n = foldl (\<lambda>a c. 10 * a + (byte c - 48)) 0 d
      in if d \<noteq> [] \<and> list_all is_ascii_digit d \<and> n < bound then Some n else None)"

lemma foldl_decimal: "foldl (\<lambda>a c. 10 * a + (byte c - 48)) 0 (decimal n) = n"
proof (induction n rule: decimal.induct)
  case (1 n)
  show ?case
  proof (cases "n < 10")
    case False
    with 1 have "foldl (\<lambda>a c. 10 * a + (byte c - 48)) 0 (decimal n) = 10 * (n div 10) + n mod 10"
      by (subst decimal.simps) simp
    then show ?thesis by simp
  qed (subst decimal.simps, simp)
qed

lemma parse_decimal: "n < bound \<Longrightarrow> parse_unsigned bound (decimal n) = Some n"
proof -
  assume n: "n < bound"
  obtain c r where cr: "decimal n = c # r" by (cases "decimal n") auto
  then have "is_ascii_digit c" using decimal_digits[of n] by simp
  then have "c \<noteq> CHR ''+''" by (auto simp: is_ascii_digit_def)
  with cr n decimal_digits[of n] foldl_decimal[of n] show ?thesis
    by (simp add: parse_unsigned_def)
qed


text \<open>\<open>split\<close> at an ASCII character, and \<open>rfind\<close>: the offset of the last occurrence.\<close>

fun str_split :: "char \<Rightarrow> string \<Rightarrow> string list" where
  "str_split c [] = [[]]"
| "str_split c (b # bs) =
     (if b = c then [] # str_split c bs
      else (case str_split c bs of [] \<Rightarrow> [[b]] | w # ws \<Rightarrow> (b # w) # ws))"

definition str_rfind :: "string \<Rightarrow> string \<Rightarrow> nat option" where
  "str_rfind s p = find (\<lambda>i. prefix p (drop i s)) (rev [0..<Suc (length s)])"

lemma str_split_nonempty [simp]: "str_split c s \<noteq> []"
  by (induction s) (auto split: list.split)

lemma str_split_no_sep: "c \<notin> set s \<Longrightarrow> str_split c s = [s]"
  by (induction s) auto

lemma str_split_append: "c \<notin> set s \<Longrightarrow> str_split c (s @ c # t) = s # str_split c t"
  by (induction s) auto

lemma str_split_concat: "concat (map (\<lambda>w. w @ [c]) (str_split c s)) = s @ [c]"
  by (induction s) (auto split: list.splits)

lemma valid_utf8_append: "valid_utf8 a \<Longrightarrow> valid_utf8 b \<Longrightarrow> valid_utf8 (a @ b)"
proof -
  assume "valid_utf8 a" "valid_utf8 b"
  then have "a @ b = utf8 (chars a @ chars b)" "list_all scalar (chars a @ chars b)"
    by (auto simp: valid_utf8_def)
  then show ?thesis by (metis valid_utf8_utf8)
qed

lemma valid_utf8_ascii: "list_all (\<lambda>c. byte c < 0x80) a \<Longrightarrow> valid_utf8 a"
proof -
  assume "list_all (\<lambda>c. byte c < 0x80) a"
  then have "a = utf8 (map byte a)" "list_all scalar (map byte a)"
    by (induction a) (auto simp: encode_scalar_def scalar_def)
  then show ?thesis by (metis valid_utf8_utf8)
qed

end
