(* ===== verification/Ordered_Map.thy ===== *)
theory Ordered_Map imports Utf8 "HOL-Library.Product_Lexorder" begin

text \<open>
  Ordered maps and sets. \<open>BTreeMap\<close>, \<open>BTreeSet\<close> and a SQLite table with a primary key are
  association lists sorted by key, iterated in key order. The locale states the contract a
  client of such a table relies on; the association list satisfies it.
\<close>

section \<open>The contract of a keyed table\<close>

locale keyed_table =
  fixes empty :: "'m"
    and lookup :: "'m \<Rightarrow> 'k \<Rightarrow> 'v option"
    and upsert :: "'k \<Rightarrow> 'v \<Rightarrow> 'm \<Rightarrow> 'm"
    and delete :: "'k \<Rightarrow> 'm \<Rightarrow> 'm"
    and wf :: "'m \<Rightarrow> bool"
  assumes lookup_empty: "lookup empty k = None"
    and lookup_upsert: "lookup (upsert k v m) k' = (if k' = k then Some v else lookup m k')"
    and lookup_delete: "lookup (delete k m) k' = (if k' = k then None else lookup m k')"
    and wf_empty: "wf empty"
    and wf_upsert: "wf m \<Longrightarrow> wf (upsert k v m)"
    and wf_delete: "wf m \<Longrightarrow> wf (delete k m)"
begin

definition upsert_all :: "('k \<times> 'v) list \<Rightarrow> 'm \<Rightarrow> 'm" where
  "upsert_all kvs m = fold (\<lambda>(k, v). upsert k v) kvs m"

lemma lookup_upsert_all:
  "lookup (upsert_all kvs m) k = (case map_of (rev kvs) k of Some v \<Rightarrow> Some v | None \<Rightarrow> lookup m k)"
  by (induction kvs arbitrary: m)
    (auto simp: upsert_all_def lookup_upsert map_add_def split: option.splits)

lemma lookup_upsert_all_other: "k \<notin> fst ` set kvs \<Longrightarrow> lookup (upsert_all kvs m) k = lookup m k"
  by (auto simp: lookup_upsert_all split: option.splits dest!: map_of_SomeD) force

lemma wf_upsert_all: "wf m \<Longrightarrow> wf (upsert_all kvs m)"
  unfolding upsert_all_def by (induction kvs arbitrary: m) (auto intro: wf_upsert)

end

section \<open>Sorted association lists\<close>

type_synonym ('k, 'v) omap = "('k \<times> 'v) list"

abbreviation om_get :: "('k, 'v) omap \<Rightarrow> 'k \<Rightarrow> 'v option" where
  "om_get \<equiv> map_of"

abbreviation om_keys :: "('k, 'v) omap \<Rightarrow> 'k list" where
  "om_keys m \<equiv> map fst m"

abbreviation om_values :: "('k, 'v) omap \<Rightarrow> 'v list" where
  "om_values m \<equiv> map snd m"

fun om_put :: "'k::linorder \<Rightarrow> 'v \<Rightarrow> ('k, 'v) omap \<Rightarrow> ('k, 'v) omap" where
  "om_put k v [] = [(k, v)]"
| "om_put k v (e # m) =
     (if fst e < k then e # om_put k v m else if fst e = k then (k, v) # m else (k, v) # e # m)"

definition om_remove :: "'k \<Rightarrow> ('k, 'v) omap \<Rightarrow> ('k, 'v) omap" where
  "om_remove k m = filter (\<lambda>e. fst e \<noteq> k) m"

definition om_wf :: "('k::linorder, 'v) omap \<Rightarrow> bool" where
  "om_wf m \<longleftrightarrow> sorted_wrt (<) (om_keys m)"

text \<open>\<open>entry(k).or\_default().push(v)\<close>.\<close>

definition om_push :: "'k::linorder \<Rightarrow> 'v \<Rightarrow> ('k, 'v list) omap \<Rightarrow> ('k, 'v list) omap" where
  "om_push k v m = om_put k (case om_get m k of None \<Rightarrow> [v] | Some vs \<Rightarrow> vs @ [v]) m"

text \<open>\<open>iter().collect::<BTreeSet<\_>>()\<close>, as the list its iteration gives.\<close>

definition btree_set :: "'a::linorder list \<Rightarrow> 'a list" where
  "btree_set xs = sort (remdups xs)"

lemma map_of_om_put [simp]: "om_get (om_put k v m) = (om_get m)(k \<mapsto> v)"
  by (induction m) (auto simp: fun_eq_iff)

lemma map_of_om_remove [simp]: "om_get (om_remove k m) = (om_get m)(k := None)"
  unfolding om_remove_def by (induction m) (auto simp: fun_eq_iff)

lemma om_put_keys [simp]: "fst ` set (om_put k v m) = insert k (fst ` set m)"
  by (induction m) auto

lemma om_remove_keys [simp]: "fst ` set (om_remove k m) = fst ` set m - {k}"
  by (auto simp: om_remove_def)

lemma om_wf_put [simp]: "om_wf m \<Longrightarrow> om_wf (om_put k v m)"
  unfolding om_wf_def
proof (induction m)
  case (Cons e m)
  then show ?case by (auto simp flip: image_set)
qed simp

lemma om_wf_remove [simp]: "om_wf m \<Longrightarrow> om_wf (om_remove k m)"
  by (auto simp: om_wf_def om_remove_def sorted_wrt_map sorted_wrt_filter)

lemma om_wf_Nil [simp]: "om_wf []"
  by (simp add: om_wf_def)

lemma om_wf_distinct: "om_wf m \<Longrightarrow> distinct (om_keys m)"
  by (simp add: om_wf_def strict_sorted_iff)

lemma om_wf_get_iff: "om_wf m \<Longrightarrow> om_get m k = Some v \<longleftrightarrow> (k, v) \<in> set m"
  by (simp add: om_wf_distinct)

interpretation om: keyed_table "[]" om_get om_put om_remove om_wf
  by unfold_locales auto

lemma om_push_get:
  "om_get (om_push k v m) k' =
     (if k' = k then Some (case om_get m k of None \<Rightarrow> [v] | Some vs \<Rightarrow> vs @ [v]) else om_get m k')"
  by (simp add: om_push_def)

lemma om_wf_push [simp]: "om_wf m \<Longrightarrow> om_wf (om_push k v m)"
  by (simp add: om_push_def)

lemma btree_set_set [simp]: "set (btree_set xs) = set xs"
  by (simp add: btree_set_def)

lemma btree_set_length: "length (btree_set xs) = card (set xs)"
  by (simp add: btree_set_def length_remdups_card_conv)

lemma btree_set_distinct [simp]: "distinct (btree_set xs)"
  by (simp add: btree_set_def)

lemma btree_set_Nil_iff [simp]: "btree_set xs = [] \<longleftrightarrow> xs = []"
  by (metis btree_set_set set_empty)

lemma btree_set_single: "length (btree_set xs) = 1 \<Longrightarrow> x \<in> set xs \<Longrightarrow> btree_set xs = [x]"
  by (cases "btree_set xs") (auto simp flip: btree_set_set[of xs])

section \<open>Grouping by key\<close>

text \<open>The loop that pushes every element under its key into an ordered map.\<close>

definition group_by_key :: "('a \<Rightarrow> 'k::linorder) \<Rightarrow> 'a list \<Rightarrow> ('k, 'a list) omap" where
  "group_by_key key xs = fold (\<lambda>x m. om_push (key x) x m) xs []"

lemma fold_push_get:
  "om_get (fold (\<lambda>x m. om_push (key x) (val x) m) xs m) k =
     (case (om_get m k, map val (filter (\<lambda>x. key x = k) xs)) of
        (None, []) \<Rightarrow> None
      | (None, ys) \<Rightarrow> Some ys
      | (Some vs, ys) \<Rightarrow> Some (vs @ ys))"
  by (induction xs arbitrary: m) (auto simp: om_push_get split: option.splits list.splits)

lemma fold_push_wf: "om_wf m \<Longrightarrow> om_wf (fold (\<lambda>x m. om_push (key x) (val x) m) xs m)"
  by (induction xs arbitrary: m) auto

lemma fold_if_filter: "fold (\<lambda>x m. if P x then f x m else m) xs m = fold f (filter P xs) m"
  by (induction xs arbitrary: m) auto

lemma group_by_key_get:
  "om_get (group_by_key key xs) k =
     (case filter (\<lambda>x. key x = k) xs of [] \<Rightarrow> None | ys \<Rightarrow> Some ys)"
  using fold_push_get[of key "\<lambda>x. x" xs "[]" k] by (simp add: group_by_key_def split: list.split)

lemma group_by_key_wf [simp]: "om_wf (group_by_key key xs)"
proof -
  have "om_wf m \<Longrightarrow> om_wf (fold (\<lambda>x m. om_push (key x) x m) xs m)" for m
    by (induction xs arbitrary: m) auto
  then show ?thesis by (simp add: group_by_key_def)
qed

lemma group_by_key_entry:
  assumes "(k, ys) \<in> set (group_by_key key xs)"
  shows "ys = filter (\<lambda>x. key x = k) xs" and "ys \<noteq> []"
  using assms group_by_key_get[of key xs k]
  by (auto simp: om_wf_get_iff[OF group_by_key_wf, symmetric] split: list.splits)

lemma group_by_key_member:
  assumes "x \<in> set xs"
  shows "(key x, filter (\<lambda>y. key y = key x) xs) \<in> set (group_by_key key xs)"
proof -
  from assms have "filter (\<lambda>y. key y = key x) xs \<noteq> []" by (auto simp: filter_empty_conv)
  then show ?thesis
    by (auto simp: om_wf_get_iff[OF group_by_key_wf, symmetric] group_by_key_get split: list.splits)
qed

lemma group_by_key_sorted: "sorted_wrt (<) (om_keys (group_by_key key xs))"
  using group_by_key_wf by (simp add: om_wf_def)

end
