(* ===== verification/Entity.thy ===== *)
theory Entity imports Ordered_Map begin

text \<open>
  The entity kinds the redaction works on (\<open>privacy/src/vnext.rs\<close>), their wire names and the
  aliases' stems (\<open>privacy-text/src/lib.rs\<close>), the error codes of the text bridge, the canonical
  form of sensitive text (\<open>privacy/src/lib.rs\<close>), and the identifiers derived from a hash: opaque
  hashes, finding identifiers and stable aliases.
\<close>

section \<open>Entity types\<close>

datatype entity_type =
    PersonName | OrganizationName | CaseNumber | IdentityNumber | PassportNumber | PhoneNumber
  | LandlineNumber | BankAccount | EmailAddress | Address | OrganizationCode
  | BusinessLicenseNumber | VehiclePlate | IpAddress | SocialAccount | PaymentAccount
  | AccountName | ContractNumber | TrackingNumber | PropertyCertificateNumber | Custom

text \<open>The derived \<open>Ord\<close>: declaration order.\<close>

fun entity_rank :: "entity_type \<Rightarrow> nat" where
  "entity_rank PersonName = 0" | "entity_rank OrganizationName = 1"
| "entity_rank CaseNumber = 2" | "entity_rank IdentityNumber = 3"
| "entity_rank PassportNumber = 4" | "entity_rank PhoneNumber = 5"
| "entity_rank LandlineNumber = 6" | "entity_rank BankAccount = 7"
| "entity_rank EmailAddress = 8" | "entity_rank Address = 9"
| "entity_rank OrganizationCode = 10" | "entity_rank BusinessLicenseNumber = 11"
| "entity_rank VehiclePlate = 12" | "entity_rank IpAddress = 13"
| "entity_rank SocialAccount = 14" | "entity_rank PaymentAccount = 15"
| "entity_rank AccountName = 16" | "entity_rank ContractNumber = 17"
| "entity_rank TrackingNumber = 18" | "entity_rank PropertyCertificateNumber = 19"
| "entity_rank Custom = 20"

lemma entity_rank_inj: "entity_rank a = entity_rank b \<longleftrightarrow> a = b"
  by (cases a; cases b) simp_all

instantiation entity_type :: linorder
begin

definition less_eq_entity_type :: "entity_type \<Rightarrow> entity_type \<Rightarrow> bool" where
  "less_eq_entity_type a b \<longleftrightarrow> entity_rank a \<le> entity_rank b"

definition less_entity_type :: "entity_type \<Rightarrow> entity_type \<Rightarrow> bool" where
  "less_entity_type a b \<longleftrightarrow> entity_rank a < entity_rank b"

instance
  by standard (auto simp: less_eq_entity_type_def less_entity_type_def entity_rank_inj
    simp flip: entity_rank_inj)

end

datatype text_error =
    InvalidInput | InvalidNamespace | InputRejected | IncompleteDocx | CorruptDocx | UnsafeDocx
  | InvalidTextEncoding | UnsupportedTextEncoding | UnsupportedExportFormat | CloudFindingAbsent
  | AnalysisFailed | TooManyFindings | ResultNeedsReview | ResidualRisk
  | ExportVerificationFailed | EvidenceVerificationFailed

fun text_error_code :: "text_error \<Rightarrow> string" where
  "text_error_code InvalidInput = ''privacy_text_invalid_input''"
| "text_error_code InvalidNamespace = ''privacy_text_invalid_namespace''"
| "text_error_code InputRejected = ''privacy_text_input_rejected''"
| "text_error_code IncompleteDocx = ''docx_extraction_incomplete''"
| "text_error_code CorruptDocx = ''docx_corrupt_or_encrypted''"
| "text_error_code UnsafeDocx = ''docx_unsafe_package''"
| "text_error_code InvalidTextEncoding = ''privacy_text_invalid_text_encoding''"
| "text_error_code UnsupportedTextEncoding = ''privacy_text_unsupported_text_encoding''"
| "text_error_code UnsupportedExportFormat = ''privacy_text_unsupported_export_format''"
| "text_error_code CloudFindingAbsent = ''privacy_text_cloud_finding_absent''"
| "text_error_code AnalysisFailed = ''privacy_text_analysis_failed''"
| "text_error_code TooManyFindings = ''privacy_text_too_many_findings''"
| "text_error_code ResultNeedsReview = ''privacy_text_result_needs_review''"
| "text_error_code ResidualRisk = ''privacy_text_residual_risk''"
| "text_error_code ExportVerificationFailed = ''privacy_text_export_verification_failed''"
| "text_error_code EvidenceVerificationFailed = ''privacy_text_evidence_verification_failed''"

fun entity_kind :: "entity_type \<Rightarrow> string" where
  "entity_kind PersonName = ''person_name''"
| "entity_kind OrganizationName = ''organization_name''"
| "entity_kind CaseNumber = ''case_number''"
| "entity_kind IdentityNumber = ''identity_number''"
| "entity_kind PassportNumber = ''passport_number''"
| "entity_kind PhoneNumber = ''phone_number''"
| "entity_kind LandlineNumber = ''landline_number''"
| "entity_kind BankAccount = ''bank_account''"
| "entity_kind EmailAddress = ''email_address''"
| "entity_kind Address = ''address''"
| "entity_kind OrganizationCode = ''organization_code''"
| "entity_kind BusinessLicenseNumber = ''business_license_number''"
| "entity_kind VehiclePlate = ''vehicle_plate''"
| "entity_kind IpAddress = ''ip_address''"
| "entity_kind SocialAccount = ''social_account''"
| "entity_kind PaymentAccount = ''payment_account''"
| "entity_kind AccountName = ''account_name''"
| "entity_kind ContractNumber = ''contract_number''"
| "entity_kind TrackingNumber = ''tracking_number''"
| "entity_kind PropertyCertificateNumber = ''property_certificate_number''"
| "entity_kind Custom = ''custom''"

fun entity_alias_stem :: "entity_type \<Rightarrow> string" where
  "entity_alias_stem PersonName = ''PERSON''"
| "entity_alias_stem OrganizationName = ''ORG''"
| "entity_alias_stem CaseNumber = ''CASE''"
| "entity_alias_stem IdentityNumber = ''ID''"
| "entity_alias_stem PassportNumber = ''PASSPORT''"
| "entity_alias_stem PhoneNumber = ''PHONE''"
| "entity_alias_stem LandlineNumber = ''PHONE''"
| "entity_alias_stem BankAccount = ''ACCOUNT''"
| "entity_alias_stem PaymentAccount = ''ACCOUNT''"
| "entity_alias_stem EmailAddress = ''EMAIL''"
| "entity_alias_stem Address = ''ADDRESS''"
| "entity_alias_stem OrganizationCode = ''ORGCODE''"
| "entity_alias_stem BusinessLicenseNumber = ''ORGCODE''"
| "entity_alias_stem VehiclePlate = ''PLATE''"
| "entity_alias_stem IpAddress = ''IP''"
| "entity_alias_stem SocialAccount = ''SOCIAL''"
| "entity_alias_stem AccountName = ''ACCOUNTNAME''"
| "entity_alias_stem ContractNumber = ''CONTRACT''"
| "entity_alias_stem TrackingNumber = ''TRACKING''"
| "entity_alias_stem PropertyCertificateNumber = ''PROPERTY''"
| "entity_alias_stem Custom = ''CUSTOM''"

definition parse_entity_kind :: "string \<Rightarrow> text_error + entity_type" where
  "parse_entity_kind v =
     (if v = ''person_name'' \<or> v = ''person'' then Inr PersonName
      else if v = ''organization_name'' \<or> v = ''organization'' then Inr OrganizationName
      else if v = ''case_number'' then Inr CaseNumber
      else if v = ''identity_number'' \<or> v = ''id_card'' then Inr IdentityNumber
      else if v = ''passport_number'' then Inr PassportNumber
      else if v = ''phone_number'' \<or> v = ''phone'' then Inr PhoneNumber
      else if v = ''landline_number'' then Inr LandlineNumber
      else if v = ''bank_account'' then Inr BankAccount
      else if v = ''email_address'' \<or> v = ''email'' then Inr EmailAddress
      else if v = ''address'' then Inr Address
      else if v = ''organization_code'' then Inr OrganizationCode
      else if v = ''business_license_number'' then Inr BusinessLicenseNumber
      else if v = ''vehicle_plate'' then Inr VehiclePlate
      else if v = ''ip_address'' then Inr IpAddress
      else if v = ''social_account'' then Inr SocialAccount
      else if v = ''payment_account'' then Inr PaymentAccount
      else if v = ''account_name'' then Inr AccountName
      else if v = ''contract_number'' then Inr ContractNumber
      else if v = ''tracking_number'' then Inr TrackingNumber
      else if v = ''property_certificate_number'' then Inr PropertyCertificateNumber
      else if v = ''custom'' then Inr Custom
      else Inl InvalidInput)"

lemma parse_entity_kind_label [simp]: "parse_entity_kind (entity_kind k) = Inr k"
  by (cases k) (simp_all add: parse_entity_kind_def)

lemma entity_kind_inj [simp]: "entity_kind a = entity_kind b \<longleftrightarrow> a = b"
  by (metis parse_entity_kind_label sum.inject(2))

end
