(* ===== verification/Alias.thy ===== *)
theory Alias imports Entity begin

text \<open>
  Values derived from SHA-256 (\<open>privacy/src/receipt.rs\<close>, \<open>privacy-text/src/lib.rs\<close>): the hex
  digest, length-prefixed opaque hashes, finding identifiers and stable aliases, and the
  syntactic checks the code applies to them. The digest itself is the parameter \<open>D\<close>, a function
  from bytes to bytes; that it returns 32 bytes is the hypothesis \<open>digest32 D\<close>.
\<close>

definition digest32 :: "(string \<Rightarrow> string) \<Rightarrow> bool" where
  "digest32 D \<longleftrightarrow> (\<forall>x. length (D x) = 32)"

section \<open>Hexadecimal digests\<close>

definition hex_nibble :: "nat \<Rightarrow> char" where
  "hex_nibble n = (if n < 10 then char_of (48 + n) else char_of (87 + n))"

definition hex :: "string \<Rightarrow> string" where
  "hex bs = concat (map (\<lambda>b. [hex_nibble (byte b div 16), hex_nibble (byte b mod 16)]) bs)"

definition sha256_hex :: "(string \<Rightarrow> string) \<Rightarrow> string \<Rightarrow> string" where
  "sha256_hex D bs = hex (D bs)"

definition valid_sha256 :: "string \<Rightarrow> bool" where
  "valid_sha256 v \<longleftrightarrow> length v = 64 \<and> list_all is_lower_hex v"

lemma hex_nibble_lower_hex: "n < 16 \<Longrightarrow> is_lower_hex (hex_nibble n)"
  by (auto simp: is_lower_hex_def is_ascii_digit_def hex_nibble_def)

lemma hex_length [simp]: "length (hex bs) = 2 * length bs"
  by (induction bs) (auto simp: hex_def)

lemma hex_lower_hex [simp]: "list_all is_lower_hex (hex bs)"
proof (induction bs)
  case (Cons b bs)
  have "byte b < 256" by simp
  then have "byte b div 16 < 16" "byte b mod 16 < 16" by (auto simp: less_mult_imp_div_less)
  with Cons show ?case by (simp add: hex_def hex_nibble_lower_hex)
qed (simp add: hex_def)

lemma sha256_hex_length: "digest32 D \<Longrightarrow> length (sha256_hex D x) = 64"
  by (simp add: sha256_hex_def digest32_def)

lemma sha256_hex_lower_hex [simp]: "list_all is_lower_hex (sha256_hex D x)"
  by (simp add: sha256_hex_def)

lemma valid_sha256_hex [simp]: "digest32 D \<Longrightarrow> valid_sha256 (sha256_hex D x)"
  by (simp add: valid_sha256_def sha256_hex_length)

section \<open>The canonical form of sensitive text\<close>

definition fold_full_width_ascii :: "nat \<Rightarrow> nat" where
  "fold_full_width_ascii c =
     (if c = 0x3000 then 0x20
      else if 0xFF01 \<le> c \<and> c \<le> 0xFF5E then c - 0xFEE0
      else c)"

definition is_ignored_format_character :: "nat \<Rightarrow> bool" where
  "is_ignored_format_character c \<longleftrightarrow>
     c = 0x00AD \<or> c = 0x034F \<or> c = 0x061C \<or> c = 0x180E
     \<or> (0x200B \<le> c \<and> c \<le> 0x200F) \<or> (0x202A \<le> c \<and> c \<le> 0x202E)
     \<or> (0x2060 \<le> c \<and> c \<le> 0x2064) \<or> (0x2066 \<le> c \<and> c \<le> 0x206F)
     \<or> (0xFE00 \<le> c \<and> c \<le> 0xFE0F) \<or> c = 0xFEFF"

definition normalize_sensitive_text :: "string \<Rightarrow> string" where
  "normalize_sensitive_text s =
     utf8 (map fold_full_width_ascii (filter (\<lambda>c. \<not> is_ignored_format_character c) (chars s)))"

lemma fold_full_width_scalar: "scalar c \<Longrightarrow> scalar (fold_full_width_ascii c)"
  by (auto simp: scalar_def fold_full_width_ascii_def)

lemma fold_full_width_idem [simp]:
  "fold_full_width_ascii (fold_full_width_ascii c) = fold_full_width_ascii c"
  by (auto simp: fold_full_width_ascii_def)

lemma fold_full_width_ignored:
  "\<not> is_ignored_format_character c \<Longrightarrow> \<not> is_ignored_format_character (fold_full_width_ascii c)"
proof -
  assume c: "\<not> is_ignored_format_character c"
  have small: "n < 0x7F \<Longrightarrow> \<not> is_ignored_format_character n" for n
    by (simp add: is_ignored_format_character_def)
  have "fold_full_width_ascii c = c \<or> fold_full_width_ascii c < 0x7F"
    by (auto simp: fold_full_width_ascii_def)
  with c small show ?thesis by metis
qed

lemma chars_normalize:
  assumes "list_all scalar (chars s)"
  shows "chars (normalize_sensitive_text s) =
    map fold_full_width_ascii (filter (\<lambda>c. \<not> is_ignored_format_character c) (chars s))"
  unfolding normalize_sensitive_text_def
  by (rule chars_utf8) (use assms in \<open>auto simp: list_all_iff intro: fold_full_width_scalar\<close>)

lemma normalize_idem:
  assumes "list_all scalar (chars s)"
  shows "normalize_sensitive_text (normalize_sensitive_text s) = normalize_sensitive_text s"
proof -
  let ?cs = "map fold_full_width_ascii (filter (\<lambda>c. \<not> is_ignored_format_character c) (chars s))"
  have "filter (\<lambda>c. \<not> is_ignored_format_character c) ?cs = ?cs"
    by (rule filter_True) (auto dest: fold_full_width_ignored)
  then show ?thesis
    by (simp add: normalize_sensitive_text_def[of "normalize_sensitive_text s"]
      chars_normalize[OF assms] comp_def)
      (simp add: normalize_sensitive_text_def)
qed

section \<open>Opaque hashes, finding identifiers and aliases\<close>

definition opaque_hash :: "(string \<Rightarrow> string) \<Rightarrow> string list \<Rightarrow> string" where
  "opaque_hash D parts = sha256_hex D (concat (map (\<lambda>p. be_bytes 8 (length p) @ p) parts))"

definition finding_id :: "(string \<Rightarrow> string) \<Rightarrow> string \<Rightarrow> nat \<Rightarrow> nat \<Rightarrow> entity_type \<Rightarrow> string \<Rightarrow> string" where
  "finding_id D namespace start stop kind v =
     ''fnd_'' @ take 32 (opaque_hash D
       [''privacy-text-finding-v1'', namespace, decimal start @ '':'' @ decimal stop,
        entity_kind kind, normalize_sensitive_text v])"

definition alias_token :: "string \<Rightarrow> string" where
  "alias_token hex_digest =
     map (\<lambda>b. if is_ascii_digit b then char_of (byte CHR ''a'' + (byte b - byte CHR ''0''))
               else if 97 \<le> byte b \<and> byte b \<le> 102 then char_of (byte CHR ''k'' + (byte b - byte CHR ''a''))
               else CHR ''z'')
       (take 10 hex_digest)"

definition stable_alias :: "(string \<Rightarrow> string) \<Rightarrow> string \<Rightarrow> entity_type \<Rightarrow> string \<Rightarrow> string" where
  "stable_alias D namespace kind v =
     ''['' @ entity_alias_stem kind @ ''_'' @ alias_token (opaque_hash D
       [''privacy-text-alias-v1'', namespace, entity_kind kind, normalize_sensitive_text v]) @ '']''"

definition is_alias_placeholder :: "string \<Rightarrow> bool" where
  "is_alias_placeholder v =
     (case Option.bind (strip_prefix v ''['') (\<lambda>w. strip_suffix w '']'') of
        None \<Rightarrow> False
      | Some inner \<Rightarrow>
          (case split_once CHR ''_'' inner of
             None \<Rightarrow> False
           | Some (kind, rest) \<Rightarrow>
               kind \<noteq> [] \<and> list_all is_ascii_upper kind \<and> 8 \<le> length rest
               \<and> list_all is_ascii_lower rest))"

definition valid_finding_id :: "string \<Rightarrow> bool" where
  "valid_finding_id v \<longleftrightarrow>
     length v = 36 \<and> prefix ''fnd_'' v \<and> list_all is_lower_hex (drop 4 v)"

definition safe_term :: "string \<Rightarrow> bool" where
  "safe_term v \<longleftrightarrow> v \<noteq> [] \<and> length v \<le> 512 \<and> list_all (\<lambda>c. \<not> is_control c \<and> c \<noteq> 0) (chars v)"

definition validate_alias :: "string \<Rightarrow> text_error + unit" where
  "validate_alias v = ensure
     (\<not> (length v < 4 \<or> 128 < length v \<or> \<not> prefix ''['' v \<or> \<not> suffix '']'' v
         \<or> contains_str v ''..'' \<or> has_control v)) InvalidInput"

lemma opaque_hash_lower_hex [simp]: "list_all is_lower_hex (opaque_hash D ps)"
  by (simp add: opaque_hash_def)

lemma opaque_hash_length: "digest32 D \<Longrightarrow> length (opaque_hash D ps) = 64"
  by (simp add: opaque_hash_def sha256_hex_length)

lemma finding_id_valid: "digest32 D \<Longrightarrow> valid_finding_id (finding_id D ns a b k v)"
  by (simp add: valid_finding_id_def finding_id_def opaque_hash_length list_all_take)

lemma alias_token_lower:
  assumes "list_all is_lower_hex h" shows "list_all is_ascii_lower (alias_token h)"
  using assms
  by (auto simp: alias_token_def list_all_iff is_lower_hex_def is_ascii_lower_def is_ascii_digit_def
    dest!: in_set_takeD)

lemma alias_token_length: "length h = 64 \<Longrightarrow> length (alias_token h) = 10"
  by (simp add: alias_token_def)

lemma entity_alias_stem_upper: "list_all is_ascii_upper (entity_alias_stem k)"
  by (cases k) (simp_all add: is_ascii_upper_def)

lemma entity_alias_stem_length: "entity_alias_stem k \<noteq> []" "length (entity_alias_stem k) \<le> 11"
  by (cases k; simp)+

lemma decode_ascii: "list_all (\<lambda>n. n < 0x80) ns \<Longrightarrow> decode ns = ns"
  by (induction ns) auto

lemma chars_ascii: "list_all (\<lambda>c. byte c < 0x80) s \<Longrightarrow> chars s = map byte s"
  unfolding chars_def by (rule decode_ascii) (auto simp: list_all_iff)

lemma stable_alias_shape:
  assumes "digest32 D"
  obtains tok where "stable_alias D ns k v = ''['' @ entity_alias_stem k @ ''_'' @ tok @ '']''"
    "length tok = 10" "list_all is_ascii_lower tok"
  unfolding stable_alias_def
  using alias_token_lower[OF opaque_hash_lower_hex] alias_token_length[OF opaque_hash_length[OF assms]]
  by blast

lemma stable_alias_placeholder:
  assumes "digest32 D" shows "is_alias_placeholder (stable_alias D ns k v)"
proof -
  obtain tok where tok: "stable_alias D ns k v = ''['' @ entity_alias_stem k @ ''_'' @ tok @ '']''"
    "length tok = 10" "list_all is_ascii_lower tok" by (rule stable_alias_shape[OF assms])
  have "CHR ''_'' \<notin> set (entity_alias_stem k)" by (cases k) simp_all
  then have "split_once CHR ''_'' (entity_alias_stem k @ ''_'' @ tok) = Some (entity_alias_stem k, tok)"
    using split_once_append by simp
  moreover have "strip_prefix (stable_alias D ns k v) ''['' = Some (entity_alias_stem k @ ''_'' @ tok @ '']'')"
    by (simp add: tok strip_prefix_def)
  moreover have "strip_suffix (entity_alias_stem k @ ''_'' @ tok @ '']'') '']''
      = Some (entity_alias_stem k @ ''_'' @ tok)"
    by (simp add: strip_suffix_def suffix_def)
  ultimately show ?thesis
    using tok entity_alias_stem_length entity_alias_stem_upper
    by (simp add: is_alias_placeholder_def)
qed

lemma stable_alias_valid:
  assumes "digest32 D" shows "validate_alias (stable_alias D ns k v) = Inr ()"
proof -
  obtain tok where tok: "stable_alias D ns k v = ''['' @ entity_alias_stem k @ ''_'' @ tok @ '']''"
    "length tok = 10" "list_all is_ascii_lower tok" by (rule stable_alias_shape[OF assms])
  have plain: "c \<noteq> CHR ''.'' \<and> byte c < 0x80 \<and> \<not> is_control (byte c)"
    if "c \<in> set (stable_alias D ns k v)" for c
  proof -
    have "is_ascii_upper c \<Longrightarrow> ?thesis" "is_ascii_lower c \<Longrightarrow> ?thesis"
      by (auto simp: is_ascii_upper_def is_ascii_lower_def is_control_def)
    moreover have "c = CHR ''['' \<or> c = CHR '']'' \<or> c = CHR ''_'' \<or> is_ascii_upper c \<or> is_ascii_lower c"
      using that tok(3) entity_alias_stem_upper[of k] by (auto simp: tok(1) list_all_iff)
    ultimately show ?thesis by (auto simp: is_control_def)
  qed
  have "\<not> contains_str (stable_alias D ns k v) ''..''"
    using plain set_mono_sublist[of "''..''" "stable_alias D ns k v"] by auto
  moreover have "\<not> has_control (stable_alias D ns k v)"
  proof -
    have "chars (stable_alias D ns k v) = map byte (stable_alias D ns k v)"
      using plain by (intro chars_ascii) (simp add: list_all_iff)
    then show ?thesis using plain by (auto simp: has_control_def list_ex_iff)
  qed
  moreover have "length (entity_alias_stem k) \<le> 11" by (rule entity_alias_stem_length)
  ultimately show ?thesis
    using tok(2) by (simp add: validate_alias_def) (simp add: tok(1) suffix_def)
qed

end
