(* ===== verification/Replacement.thy ===== *)
theory Replacement imports Alias begin

text \<open>
  The replacement pass and its evidence (\<open>privacy-text/src/lib.rs\<close>): findings, recorded
  replacements, \<open>apply_replacements\<close>, and the two verifiers that check a stored analysis
  against the output text and against the original source.
\<close>

section \<open>Data\<close>

definition MAX_FINDINGS :: nat where "MAX_FINDINGS = 100000"

record ai_finding =
  ai_text :: string
  ai_kind :: string
  ai_start :: nat
  ai_end :: nat
  ai_confidence_ppm :: "u32 option"

record finding =
  f_id :: string
  f_text :: string
  f_kind :: string
  f_alias :: "string option"
  f_source :: string
  f_resolved :: bool
  f_dismissed :: bool

record replacement =
  r_finding_id :: string
  r_source_start :: nat
  r_source_end :: nat
  r_output_start :: nat
  r_output_end :: nat
  r_alias :: string

record analysis =
  a_text :: string
  a_findings :: "finding list"
  a_ai_findings :: "ai_finding list option"
  a_replacements :: "replacement list"
  a_needs_review :: bool
  a_source_sha256 :: string
  a_output_sha256 :: string

record group =
  g_start :: nat
  g_end :: nat
  g_finding :: finding
  g_replace :: bool

section \<open>The replacement pass\<close>

fun apply_loop :: "string \<Rightarrow> group list \<Rightarrow> string \<Rightarrow> replacement list \<Rightarrow> nat
    \<Rightarrow> text_error + string \<times> replacement list" where
  "apply_loop text [] output reps cursor =
     and_then (ok_or (str_from text cursor) AnalysisFailed) (\<lambda>rest. Inr (output @ rest, reps))"
| "apply_loop text (g # gs) output reps cursor =
     (if g_start g < cursor \<or> g_end g < g_start g then Inl AnalysisFailed
      else and_then (ok_or (str_get text cursor (g_start g)) AnalysisFailed) (\<lambda>kept.
        let output' = output @ kept in
        if g_replace g then
          and_then (ok_or (f_alias (g_finding g)) AnalysisFailed) (\<lambda>alias.
            apply_loop text gs (output' @ alias)
              (reps @ [\<lparr>r_finding_id = f_id (g_finding g), r_source_start = g_start g,
                 r_source_end = g_end g, r_output_start = length output',
                 r_output_end = length (output' @ alias), r_alias = alias\<rparr>])
              (g_end g))
        else
          and_then (ok_or (str_get text (g_start g) (g_end g)) AnalysisFailed) (\<lambda>v.
            apply_loop text gs (output' @ v) reps (g_end g))))"

definition apply_replacements :: "string \<Rightarrow> group list \<Rightarrow> text_error + string \<times> replacement list" where
  "apply_replacements text groups = apply_loop text (filter g_replace groups) [] [] 0"

section \<open>Evidence\<close>

definition expected_findings :: "finding list \<Rightarrow> (string, finding) omap" where
  "expected_findings fs =
     fold (\<lambda>f m. om_put (f_id f) f m) (filter (\<lambda>f. f_resolved f \<and> \<not> f_dismissed f) fs) []"

fun verify_output_loop :: "string \<Rightarrow> (string, finding) omap \<Rightarrow> replacement list \<Rightarrow> nat \<Rightarrow> nat
    \<Rightarrow> string list \<Rightarrow> text_error + string list" where
  "verify_output_loop output expected [] prev_source prev_output seen = Inr seen"
| "verify_output_loop output expected (r # rs) prev_source prev_output seen =
     (if r_finding_id r \<in> set seen
         \<or> r_source_start r > r_source_end r
         \<or> r_source_end r - r_source_start r = 0
         \<or> r_output_start r < prev_output
         \<or> r_source_start r < prev_source
      then Inl EvidenceVerificationFailed
      else and_then (ok_or (om_get expected (r_finding_id r)) EvidenceVerificationFailed) (\<lambda>f.
        and_then (ok_or (f_alias f) EvidenceVerificationFailed) (\<lambda>alias.
          if alias \<noteq> r_alias r
             \<or> str_get output (r_output_start r) (r_output_end r) \<noteq> Some (r_alias r)
          then Inl EvidenceVerificationFailed
          else verify_output_loop output expected rs (r_source_end r) (r_output_end r)
                 (r_finding_id r # seen))))"

definition verify_output_replacement_evidence ::
  "string \<Rightarrow> finding list \<Rightarrow> replacement list \<Rightarrow> text_error + unit" where
  "verify_output_replacement_evidence output findings reps =
     (if length findings > MAX_FINDINGS \<or> length reps > MAX_FINDINGS then Inl TooManyFindings
      else let expected = expected_findings findings in
        if length expected \<noteq> length reps then Inl EvidenceVerificationFailed
        else and_then (verify_output_loop output expected reps 0 0 []) (\<lambda>seen.
          if length seen \<noteq> length expected then Inl EvidenceVerificationFailed else Inr ()))"

fun verify_source_loop :: "string \<Rightarrow> (string, finding) omap \<Rightarrow> replacement list \<Rightarrow> string \<Rightarrow> nat
    \<Rightarrow> text_error + string" where
  "verify_source_loop source fs [] rebuilt cursor =
     and_then (ok_or (str_from source cursor) EvidenceVerificationFailed) (\<lambda>rest. Inr (rebuilt @ rest))"
| "verify_source_loop source fs (r # rs) rebuilt cursor =
     and_then (ok_or (om_get fs (r_finding_id r)) EvidenceVerificationFailed) (\<lambda>f.
     and_then (ok_or (str_get source (r_source_start r) (r_source_end r)) EvidenceVerificationFailed) (\<lambda>v.
       if v \<noteq> f_text f then Inl EvidenceVerificationFailed
       else and_then (ok_or (str_get source cursor (r_source_start r)) EvidenceVerificationFailed) (\<lambda>kept.
         verify_source_loop source fs rs (rebuilt @ kept @ r_alias r) (r_source_end r))))"

definition verify_source_replacement_evidence ::
  "string \<Rightarrow> string \<Rightarrow> finding list \<Rightarrow> replacement list \<Rightarrow> text_error + unit" where
  "verify_source_replacement_evidence source output findings reps =
     and_then (verify_source_loop source (fold (\<lambda>f m. om_put (f_id f) f m) findings []) reps [] 0)
       (\<lambda>rebuilt. if rebuilt \<noteq> output then Inl EvidenceVerificationFailed else Inr ())"

definition verify_analysis_source :: "(string \<Rightarrow> string) \<Rightarrow> string \<Rightarrow> analysis \<Rightarrow> text_error + unit" where
  "verify_analysis_source D source a =
     (if \<not> valid_sha256 (a_source_sha256 a) \<or> sha256_hex D source \<noteq> a_source_sha256 a
      then Inl EvidenceVerificationFailed
      else and_then (verify_output_replacement_evidence (a_text a) (a_findings a) (a_replacements a)) (\<lambda>_.
        verify_source_replacement_evidence source (a_text a) (a_findings a) (a_replacements a)))"

section \<open>The reference: splicing aliases into the source\<close>

text \<open>
  The specification both sides are measured against: the source with each listed range replaced
  by its alias and every byte outside the ranges kept.
\<close>

fun spliced :: "string \<Rightarrow> (nat \<times> nat \<times> string) list \<Rightarrow> nat \<Rightarrow> string" where
  "spliced text [] c = drop c text"
| "spliced text ((a, b, v) # rs) c = take (a - c) (drop c text) @ v @ spliced text rs b"

text \<open>Ranges in order, inside the text, at character boundaries, not overlapping.\<close>

fun ranges_ok :: "string \<Rightarrow> (nat \<times> nat \<times> string) list \<Rightarrow> nat \<Rightarrow> bool" where
  "ranges_ok text [] c \<longleftrightarrow> is_char_boundary text c"
| "ranges_ok text ((a, b, v) # rs) c \<longleftrightarrow>
     c \<le> a \<and> a \<le> b \<and> is_char_boundary text c \<and> is_char_boundary text a \<and> ranges_ok text rs b"

definition replacement_ranges :: "replacement list \<Rightarrow> (nat \<times> nat \<times> string) list" where
  "replacement_ranges rs = map (\<lambda>r. (r_source_start r, r_source_end r, r_alias r)) rs"

definition group_ranges :: "group list \<Rightarrow> (nat \<times> nat \<times> string) list" where
  "group_ranges gs = map (\<lambda>g. (g_start g, g_end g, the (f_alias (g_finding g)))) (filter g_replace gs)"

lemma ranges_ok_boundary: "ranges_ok text rs c \<Longrightarrow> is_char_boundary text c"
  by (cases rs) auto

lemma replacement_ranges_simps [simp]:
  "replacement_ranges [] = []"
  "replacement_ranges (r # rs) = (r_source_start r, r_source_end r, r_alias r) # replacement_ranges rs"
  "replacement_ranges (rs @ ss) = replacement_ranges rs @ replacement_ranges ss"
  by (simp_all add: replacement_ranges_def)

text \<open>Success of the verifier says exactly that the output is the splice.\<close>

lemma verify_source_loop_Inr:
  "verify_source_loop source fs reps rebuilt c = Inr out \<Longrightarrow>
     out = rebuilt @ spliced source (replacement_ranges reps) c
     \<and> ranges_ok source (replacement_ranges reps) c
     \<and> (\<forall>r\<in>set reps. \<exists>f. om_get fs (r_finding_id r) = Some f
          \<and> str_get source (r_source_start r) (r_source_end r) = Some (f_text f))"
proof (induction reps arbitrary: rebuilt c)
  case Nil
  then show ?case by (auto simp: str_get_Some_iff)
next
  case (Cons r reps)
  then show ?case by (force simp: str_get_Some_iff split: if_splits)
qed

lemma verify_source_loop_complete:
  assumes "ranges_ok source (replacement_ranges reps) c"
    and "\<And>r. r \<in> set reps \<Longrightarrow> \<exists>f. om_get fs (r_finding_id r) = Some f
          \<and> str_get source (r_source_start r) (r_source_end r) = Some (f_text f)"
  shows "verify_source_loop source fs reps rebuilt c =
    Inr (rebuilt @ spliced source (replacement_ranges reps) c)"
  using assms
proof (induction reps arbitrary: rebuilt c)
  case Nil
  then show ?case by (auto simp: str_get_Some_iff dest: boundary_le)
next
  case (Cons r reps)
  obtain f where f: "om_get fs (r_finding_id r) = Some f"
    "str_get source (r_source_start r) (r_source_end r) = Some (f_text f)"
    using Cons.prems(2) by force
  moreover have "str_get source c (r_source_start r)
      = Some (take (r_source_start r - c) (drop c source))"
    using Cons.prems(1) by (simp add: str_get_Some_iff)
  ultimately show ?case using Cons by simp
qed

section \<open>What the replacement pass computes\<close>

text \<open>
  The loop appends to its accumulators: its result is the splice of the replaced groups, and
  the replacements it records are in the order of the groups with the output offsets at which
  the aliases stand.
\<close>

fun recorded :: "string \<Rightarrow> group list \<Rightarrow> nat \<Rightarrow> nat \<Rightarrow> replacement list" where
  "recorded text [] n c = []"
| "recorded text (g # gs) n c =
     (let m = n + (g_start g - c); v = the (f_alias (g_finding g)) in
      \<lparr>r_finding_id = f_id (g_finding g), r_source_start = g_start g, r_source_end = g_end g,
       r_output_start = m, r_output_end = m + length v, r_alias = v\<rparr>
      # recorded text gs (m + length v) (g_end g))"

lemma apply_loop_Inr:
  assumes "apply_loop text gs acc reps c = Inr (out, reps')"
    and "list_all g_replace gs"
  shows "out = acc @ spliced text (group_ranges gs) c
    \<and> reps' = reps @ recorded text gs (length acc) c
    \<and> ranges_ok text (group_ranges gs) c
    \<and> (\<forall>g\<in>set gs. f_alias (g_finding g) \<noteq> None)"
  using assms
proof (induction gs arbitrary: acc reps c)
  case Nil
  then show ?case by (auto simp: str_get_Some_iff group_ranges_def)
next
  case (Cons g gs)
  from Cons.prems obtain kept v where steps:
    "\<not> g_start g < c" "\<not> g_end g < g_start g"
    "str_get text c (g_start g) = Some kept" "f_alias (g_finding g) = Some v"
    "apply_loop text gs (acc @ kept @ v)
       (reps @ [\<lparr>r_finding_id = f_id (g_finding g), r_source_start = g_start g,
          r_source_end = g_end g, r_output_start = length (acc @ kept),
          r_output_end = length (acc @ kept @ v), r_alias = v\<rparr>]) (g_end g) = Inr (out, reps')"
    by (auto split: if_splits simp: Let_def add.assoc)
  have kept: "kept = take (g_start g - c) (drop c text)" "length kept = g_start g - c"
    "is_char_boundary text c" "is_char_boundary text (g_start g)"
    using steps(3) by (auto simp: str_get_Some_iff dest: boundary_le)
  have rng: "group_ranges (g # gs) = (g_start g, g_end g, v) # group_ranges gs"
    using Cons.prems(2) steps(4) by (simp add: group_ranges_def)
  have rec: "recorded text (g # gs) (length acc) c =
      \<lparr>r_finding_id = f_id (g_finding g), r_source_start = g_start g,
        r_source_end = g_end g, r_output_start = length (acc @ kept),
        r_output_end = length (acc @ kept @ v), r_alias = v\<rparr>
      # recorded text gs (length (acc @ kept @ v)) (g_end g)"
    using steps(4) kept(2) by (simp add: Let_def add.assoc)
  have spl: "spliced text (group_ranges (g # gs)) c = kept @ v @ spliced text (group_ranges gs) (g_end g)"
    by (simp add: rng kept(1))
  have all: "list_all g_replace gs" using Cons.prems(2) by simp
  note IH = Cons.IH[OF steps(5) all]
  have "ranges_ok text (group_ranges (g # gs)) c" using IH steps(1,2) kept(3,4) by (simp add: rng)
  moreover have "out = acc @ spliced text (group_ranges (g # gs)) c"
    using IH by (simp only: spl append.assoc)
  moreover have "reps' = reps @ recorded text (g # gs) (length acc) c"
    using IH unfolding rec by (simp only: append.assoc append.simps)
  moreover have "\<forall>h\<in>set (g # gs). f_alias (g_finding h) \<noteq> None" using IH steps(4) by simp
  ultimately show ?case by blast
qed

lemma apply_loop_ok:
  assumes "ranges_ok text (group_ranges gs) c" and "list_all g_replace gs"
    and "\<forall>g\<in>set gs. f_alias (g_finding g) \<noteq> None"
  shows "\<exists>out reps'. apply_loop text gs acc reps c = Inr (out, reps')"
  using assms
proof (induction gs arbitrary: acc reps c)
  case Nil
  then show ?case by (auto simp: str_get_def group_ranges_def dest: boundary_le)
next
  case (Cons g gs)
  then obtain v where v: "f_alias (g_finding g) = Some v" by auto
  have "str_get text c (g_start g) = Some (take (g_start g - c) (drop c text))"
    using Cons.prems by (auto simp: str_get_Some_iff group_ranges_def)
  moreover have "ranges_ok text (group_ranges gs) (g_end g)" "\<not> g_start g < c" "\<not> g_end g < g_start g"
    using Cons.prems by (auto simp: group_ranges_def)
  ultimately show ?case using Cons v by (simp add: Let_def)
qed

lemma recorded_ranges:
  "list_all g_replace gs \<Longrightarrow> replacement_ranges (recorded text gs n c) = group_ranges gs"
  by (induction gs arbitrary: n c) (auto simp: group_ranges_def Let_def)

lemma recorded_ids: "map r_finding_id (recorded text gs n c) = map (f_id \<circ> g_finding) gs"
  by (induction gs arbitrary: n c) (auto simp: Let_def)

lemma recorded_length [simp]: "length (recorded text gs n c) = length gs"
  by (induction gs arbitrary: n c) (auto simp: Let_def)

lemma recorded_member:
  "r \<in> set (recorded text gs n c) \<Longrightarrow> \<exists>g\<in>set gs. r_finding_id r = f_id (g_finding g)
     \<and> r_source_start r = g_start g \<and> r_source_end r = g_end g \<and> r_alias r = the (f_alias (g_finding g))"
  by (induction gs arbitrary: n c) (auto simp: Let_def)

section \<open>Lookups by finding identifier\<close>

lemma fold_put_findings_get:
  "distinct (map f_id fs) \<Longrightarrow>
     om_get (fold (\<lambda>f m. om_put (f_id f) f m) fs m) i =
       (case find (\<lambda>f. f_id f = i) fs of Some f \<Rightarrow> Some f | None \<Rightarrow> om_get m i)"
proof (induction fs arbitrary: m)
  case (Cons f fs)
  have "f_id f = i \<Longrightarrow> find (\<lambda>f. f_id f = i) fs = None"
    using Cons.prems by (auto simp: find_None_iff image_iff)
  with Cons show ?case by (auto split: option.split)
qed simp

lemma find_by_id:
  "distinct (map f_id fs) \<Longrightarrow> f \<in> set fs \<Longrightarrow> find (\<lambda>g. f_id g = f_id f) fs = Some f"
  by (induction fs) force+

lemma fold_put_findings_wf: "om_wf m \<Longrightarrow> om_wf (fold (\<lambda>f m. om_put (f_id f) f m) fs m)"
  by (induction fs arbitrary: m) auto

lemma fold_put_findings_keys:
  "fst ` set (fold (\<lambda>f m. om_put (f_id f) f m) fs m) = f_id ` set fs \<union> fst ` set m"
  by (induction fs arbitrary: m) auto

lemma expected_findings_wf [simp]: "om_wf (expected_findings fs)"
  by (simp add: expected_findings_def fold_put_findings_wf)

lemma om_length: "om_wf m \<Longrightarrow> length m = card (fst ` set m)"
  by (metis distinct_card length_map om_wf_distinct set_map)

lemma expected_findings_length:
  "length (expected_findings fs) = card (f_id ` {f \<in> set fs. f_resolved f \<and> \<not> f_dismissed f})"
  by (simp add: om_length) (simp add: expected_findings_def fold_put_findings_keys)

lemma expected_findings_get:
  assumes "distinct (map f_id fs)" and "f \<in> set fs" and "f_resolved f" and "\<not> f_dismissed f"
  shows "om_get (expected_findings fs) (f_id f) = Some f"
proof -
  let ?E = "filter (\<lambda>f. f_resolved f \<and> \<not> f_dismissed f) fs"
  have d: "distinct (map f_id ?E)" using assms(1) by (simp add: distinct_map_filter)
  then have "find (\<lambda>g. f_id g = f_id f) ?E = Some f" using assms by (intro find_by_id) auto
  then show ?thesis using d by (simp add: expected_findings_def fold_put_findings_get)
qed

section \<open>The recorded evidence verifies\<close>

text \<open>
  An alias that may be spliced in: not empty and starting with a character of its own, which
  \<open>validate\_alias\<close> guarantees by asking for a leading bracket.
\<close>

definition alias_ok :: "string \<Rightarrow> bool" where
  "alias_ok v \<longleftrightarrow> v \<noteq> [] \<and> \<not> continuation (hd v)"

definition proper_group :: "group \<Rightarrow> bool" where
  "proper_group g \<longleftrightarrow> g_start g < g_end g \<and> (\<exists>v. f_alias (g_finding g) = Some v \<and> alias_ok v)"

lemma spliced_head:
  assumes "ranges_ok text rs b" and "0 < b" and "\<forall>(a, b, v)\<in>set rs. alias_ok v"
  shows "spliced text rs b = [] \<or> \<not> continuation (hd (spliced text rs b))"
proof -
  have bnd: "is_char_boundary text b" using assms(1) by (rule ranges_ok_boundary)
  have at: "b < length text \<Longrightarrow> \<not> continuation (text ! b)"
    using bnd assms(2) by (auto simp: boundary_iff)
  show ?thesis
  proof (cases rs)
    case Nil
    with at show ?thesis by (cases "b < length text") (auto simp: hd_drop_conv_nth)
  next
    case (Cons e rs')
    obtain a b' v where e: "e = (a, b', v)" by (cases e)
    from assms Cons e have "b \<le> a" "a \<le> length text" "alias_ok v"
      by (auto dest: boundary_le)
    with at Cons e show ?thesis
      by (cases "a = b") (auto simp: alias_ok_def hd_drop_conv_nth)
  qed
qed

lemma group_ranges_aliases:
  "list_all proper_group gs \<Longrightarrow> \<forall>(a, b, v)\<in>set (group_ranges gs). alias_ok v"
  by (auto simp: group_ranges_def list_all_iff proper_group_def)

lemma recorded_output:
  assumes "list_all g_replace gs" "list_all proper_group gs"
    and "ranges_ok text (group_ranges gs) c" "r \<in> set (recorded text gs (length acc) c)"
  shows "str_get (acc @ spliced text (group_ranges gs) c) (r_output_start r) (r_output_end r)
    = Some (r_alias r)"
  using assms
proof (induction gs arbitrary: acc c)
  case (Cons g gs)
  obtain v where v: "f_alias (g_finding g) = Some v" "alias_ok v"
    using Cons.prems(2) by (auto simp: proper_group_def)
  let ?kept = "take (g_start g - c) (drop c text)"
  let ?tail = "spliced text (group_ranges gs) (g_end g)"
  have rng: "group_ranges (g # gs) = (g_start g, g_end g, v) # group_ranges gs"
    using Cons.prems(1) v by (simp add: group_ranges_def)
  have ok: "c \<le> g_start g" "is_char_boundary text (g_start g)"
    "ranges_ok text (group_ranges gs) (g_end g)"
    using Cons.prems(3) by (auto simp: rng)
  then have len: "length ?kept = g_start g - c" by (auto dest: boundary_le)
  have tail: "?tail = [] \<or> \<not> continuation (hd ?tail)"
  proof (rule spliced_head[OF ok(3)])
    show "0 < g_end g" using Cons.prems(2) by (auto simp: proper_group_def)
    show "\<forall>(a, b, v)\<in>set (group_ranges gs). alias_ok v"
      using Cons.prems(2) by (intro group_ranges_aliases) simp
  qed
  show ?case
  proof (cases "r \<in> set (recorded text gs (length (acc @ ?kept @ v)) (g_end g))")
    case True
    then show ?thesis using Cons.IH[of "g_end g" "acc @ ?kept @ v"] Cons.prems ok(3) by (simp add: rng)
  next
    case False
    then have r: "r_output_start r = length (acc @ ?kept)" "r_output_end r = length (acc @ ?kept @ v)"
      "r_alias r = v"
      using Cons.prems(4) v len by (auto simp: Let_def add.assoc)
    have "is_char_boundary (acc @ ?kept @ v @ ?tail) (length (acc @ ?kept))"
      using v(2) by (auto simp: boundary_iff nth_append alias_ok_def hd_conv_nth)
    moreover have "is_char_boundary (acc @ ?kept @ v @ ?tail) (length (acc @ ?kept @ v))"
      using tail by (auto simp: boundary_iff nth_append hd_conv_nth)
    ultimately show ?thesis by (simp add: rng r str_get_Some_iff)
  qed
qed simp

lemma verify_output_loop_recorded:
  assumes "list_all proper_group gs" "ranges_ok text (group_ranges gs) c" "list_all g_replace gs"
    and "\<And>r. r \<in> set (recorded text gs n c) \<Longrightarrow>
        str_get out (r_output_start r) (r_output_end r) = Some (r_alias r)"
    and "\<And>g. g \<in> set gs \<Longrightarrow> om_get expected (f_id (g_finding g)) = Some (g_finding g)"
    and "distinct (map (f_id \<circ> g_finding) gs)" "set seen \<inter> (f_id \<circ> g_finding) ` set gs = {}"
    and "ps \<le> c" "po \<le> n"
  shows "verify_output_loop out expected (recorded text gs n c) ps po seen =
    Inr (rev (map (f_id \<circ> g_finding) gs) @ seen)"
  using assms
proof (induction gs arbitrary: n c ps po seen)
  case (Cons g gs)
  obtain v where v: "f_alias (g_finding g) = Some v" "g_start g < g_end g"
    using Cons.prems(1) by (auto simp: proper_group_def)
  have rng: "group_ranges (g # gs) = (g_start g, g_end g, v) # group_ranges gs"
    using Cons.prems(3) v by (simp add: group_ranges_def)
  let ?n = "n + (g_start g - c) + length v"
  have IH: "verify_output_loop out expected (recorded text gs ?n (g_end g)) (g_end g) ?n
      (f_id (g_finding g) # seen) = Inr (rev (map (f_id \<circ> g_finding) gs) @ f_id (g_finding g) # seen)"
  proof (rule Cons.IH)
    show "\<And>r. r \<in> set (recorded text gs ?n (g_end g)) \<Longrightarrow>
        str_get out (r_output_start r) (r_output_end r) = Some (r_alias r)"
      using Cons.prems(4) v by (simp add: Let_def)
  qed (use Cons.prems in \<open>auto simp: rng\<close>)
  from Cons.prems(4)[of "hd (recorded text (g # gs) n c)"] v
  have "str_get out (n + (g_start g - c)) ?n = Some v" by (simp add: Let_def)
  moreover have "om_get expected (f_id (g_finding g)) = Some (g_finding g)"
    by (rule Cons.prems(5)) simp
  moreover have "f_id (g_finding g) \<notin> set seen" "ps \<le> g_start g" "po \<le> n + (g_start g - c)"
    using Cons.prems(2,7-9) by (auto simp: rng)
  ultimately show ?case using v IH by (simp add: Let_def)
qed simp

text \<open>
  The whole pass: when the groups to be replaced are proper, in order and carry distinct
  identifiers, the pass succeeds and both verifiers accept what it recorded.
\<close>

lemma apply_replacements_spec:
  assumes "apply_replacements text groups = Inr (out, reps)"
  shows "out = spliced text (group_ranges groups) 0"
    and "replacement_ranges reps = group_ranges groups"
    and "ranges_ok text (group_ranges groups) 0"
    and "reps = recorded text (filter g_replace groups) 0 0"
proof -
  have rep: "list_all g_replace (filter g_replace groups)" by (simp add: list_all_iff)
  have gr: "group_ranges (filter g_replace groups) = group_ranges groups"
    by (simp add: group_ranges_def)
  from apply_loop_Inr[OF assms[unfolded apply_replacements_def] rep]
  show "out = spliced text (group_ranges groups) 0"
    "reps = recorded text (filter g_replace groups) 0 0"
    "ranges_ok text (group_ranges groups) 0"
    by (simp_all add: gr)
  then show "replacement_ranges reps = group_ranges groups"
    using recorded_ranges[OF rep] by (simp add: gr)
qed

lemma evidence_complete:
  assumes run: "apply_replacements text groups = Inr (out, reps)"
    and proper: "list_all proper_group (filter g_replace groups)"
    and dist: "distinct (map (f_id \<circ> g_finding) groups)"
    and mark: "\<And>g. g \<in> set groups \<Longrightarrow> g_replace g \<longleftrightarrow> f_resolved (g_finding g) \<and> \<not> f_dismissed (g_finding g)"
    and slice: "\<And>g. g \<in> set groups \<Longrightarrow> str_get text (g_start g) (g_end g) = Some (f_text (g_finding g))"
    and bound: "length groups \<le> MAX_FINDINGS"
  shows "verify_output_replacement_evidence out (map g_finding groups) reps = Inr ()"
    and "verify_source_replacement_evidence text out (map g_finding groups) reps = Inr ()"
proof -
  let ?gs = "filter g_replace groups"
  let ?fs = "map g_finding groups"
  note spec = apply_replacements_spec[OF run]
  have rep: "list_all g_replace ?gs" by (simp add: list_all_iff)
  have gr: "group_ranges ?gs = group_ranges groups" by (simp add: group_ranges_def)
  have dfs: "distinct (map f_id ?fs)" using dist by (simp add: comp_def)
  have dgs: "distinct (map (f_id \<circ> g_finding) ?gs)" using dist by (simp add: distinct_map_filter)
  have expect: "om_get (expected_findings ?fs) (f_id (g_finding g)) = Some (g_finding g)"
    if "g \<in> set ?gs" for g
    using that mark by (intro expected_findings_get[OF dfs]) auto
  have "{f \<in> set ?fs. f_resolved f \<and> \<not> f_dismissed f} = g_finding ` set ?gs"
    using mark by auto
  then have len: "length (expected_findings ?fs) = length reps"
    using distinct_card[OF dgs] by (simp add: expected_findings_length spec(4) image_image comp_def)
  have loop: "verify_output_loop out (expected_findings ?fs) (recorded text ?gs 0 0) 0 0 [] =
      Inr (rev (map (f_id \<circ> g_finding) ?gs) @ [])"
  proof (rule verify_output_loop_recorded[OF proper _ rep])
    show "ranges_ok text (group_ranges ?gs) 0" using spec(3) gr by simp
    show "\<And>r. r \<in> set (recorded text ?gs 0 0) \<Longrightarrow>
        str_get out (r_output_start r) (r_output_end r) = Some (r_alias r)"
      using recorded_output[OF rep proper, of "text" 0 _ "[]"] spec gr by simp
  qed (use expect dgs in auto)
  have small: "length ?gs \<le> MAX_FINDINGS" using bound le_trans length_filter_le by blast
  show "verify_output_replacement_evidence out ?fs reps = Inr ()"
    using loop len small bound
    by (simp add: verify_output_replacement_evidence_def Let_def spec(4))
  have "verify_source_loop text (fold (\<lambda>f m. om_put (f_id f) f m) ?fs []) reps [] 0 =
      Inr ([] @ spliced text (replacement_ranges reps) 0)"
  proof (rule verify_source_loop_complete)
    show "ranges_ok text (replacement_ranges reps) 0" by (simp add: spec(2,3))
    fix r assume "r \<in> set reps"
    then obtain g where g: "g \<in> set groups" "r_finding_id r = f_id (g_finding g)"
      "r_source_start r = g_start g" "r_source_end r = g_end g"
      using recorded_member[of r "text" ?gs 0 0] by (auto simp: spec(4))
    have "find (\<lambda>f. f_id f = f_id (g_finding g)) ?fs = Some (g_finding g)"
      using g(1) by (intro find_by_id[OF dfs]) auto
    then show "\<exists>f. om_get (fold (\<lambda>f m. om_put (f_id f) f m) ?fs []) (r_finding_id r) = Some f
        \<and> str_get text (r_source_start r) (r_source_end r) = Some (f_text f)"
      using g slice by (simp add: fold_put_findings_get[OF dfs])
  qed
  then show "verify_source_replacement_evidence text out ?fs reps = Inr ()"
    by (simp add: verify_source_replacement_evidence_def spec(1,2))
qed

end
