(* ===== verification/Json.thy ===== *)
theory Json imports Ordered_Map begin

text \<open>
  Canonical JSON (\<open>privacy/src/vnext.rs\<close>): the writer whose bytes are hashed and signed, and the
  strict reader that refuses duplicate keys, floating-point numbers and control characters
  before typed deserialization. The rendering of a string literal is \<open>serde\_json::to\_string\<close>,
  the parameter \<open>Q\<close>; what the development relies on is that it is a self-delimiting literal.
\<close>

section \<open>Values\<close>

datatype vnext_error =
    InvalidOpaqueId | InvalidSha256 | ConfidenceOutOfRange | DuplicateJsonKey
  | FloatingPointNotAllowed | ControlCharacterNotAllowed | InvalidJson | InvalidSchema
  | InvalidManifest | InvalidRiskEvaluation

text \<open>
  A \<open>Value\<close>. A number is an integer of the \<open>i64\<close> or \<open>u64\<close> range or a float; an object
  lists its members, in key order once it is a \<open>Map\<close>, in reading order in the parser's input.
\<close>

datatype json = JNull | JBool bool | JInt int | JFloat | JStr string | JArr "json list"
  | JObj "(string \<times> json) list"

definition reject_control_chars :: "string \<Rightarrow> vnext_error + unit" where
  "reject_control_chars v = (if has_control v then Inl ControlCharacterNotAllowed else Inr ())"

definition str_join :: "string \<Rightarrow> string list \<Rightarrow> string" where
  "str_join sep parts = (case parts of [] \<Rightarrow> [] | p # ps \<Rightarrow> p @ concat (map (\<lambda>q. sep @ q) ps))"

definition integer_text :: "int \<Rightarrow> string" where
  "integer_text n = (if n < 0 then CHR ''-'' # decimal (nat (- n)) else decimal (nat n))"

section \<open>The canonical writer\<close>

lemma and_then_cong [fundef_cong]:
  "r = r' \<Longrightarrow> (\<And>a. r' = Inr a \<Longrightarrow> f a = g a) \<Longrightarrow> and_then r f = and_then r' g"
  by (cases r) auto

lemma try_map_cong [fundef_cong]:
  "xs = ys \<Longrightarrow> (\<And>x. x \<in> set ys \<Longrightarrow> f x = g x) \<Longrightarrow> try_map f xs = try_map g ys"
  by (induction ys arbitrary: xs) auto

fun write_canonical :: "(string \<Rightarrow> string) \<Rightarrow> json \<Rightarrow> vnext_error + string" where
  "write_canonical Q JNull = Inr ''null''"
| "write_canonical Q (JBool b) = Inr (if b then ''true'' else ''false'')"
| "write_canonical Q (JInt n) = Inr (integer_text n)"
| "write_canonical Q JFloat = Inl FloatingPointNotAllowed"
| "write_canonical Q (JStr s) = and_then (reject_control_chars s) (\<lambda>_. Inr (Q s))"
| "write_canonical Q (JArr vs) =
     and_then (try_map (write_canonical Q) vs) (\<lambda>ps. Inr (''['' @ str_join '','' ps @ '']''))"
| "write_canonical Q (JObj kvs) =
     and_then (try_map (\<lambda>(k, v). and_then (reject_control_chars k) (\<lambda>_.
         and_then (write_canonical Q v) (\<lambda>t. Inr (Q k @ '':'' @ t)))) (sort_key fst kvs))
       (\<lambda>ps. Inr (''{'' @ str_join '','' ps @ ''}''))"

definition canonical_json_v1 :: "(string \<Rightarrow> string) \<Rightarrow> json \<Rightarrow> vnext_error + string" where
  "canonical_json_v1 Q v = write_canonical Q v"

section \<open>The strict reader\<close>

text \<open>
  The input is the value the JSON parser visits, members in reading order. Errors are the
  messages the visitor raises; \<open>classify\_json\_error\<close> recovers their class from the message.
\<close>

fun strict_value :: "json \<Rightarrow> string + json"
  and strict_members :: "(string \<times> json) list \<Rightarrow> string list \<Rightarrow> string + (string \<times> json) list"
  and strict_items :: "json list \<Rightarrow> string + json list" where
  "strict_value JNull = Inr JNull"
| "strict_value (JBool b) = Inr (JBool b)"
| "strict_value (JInt n) = Inr (JInt n)"
| "strict_value JFloat = Inl ''floating-point JSON value is not allowed''"
| "strict_value (JStr s) =
     (if has_control s then Inl ''control character is not allowed'' else Inr (JStr s))"
| "strict_value (JArr vs) = and_then (strict_items vs) (\<lambda>ws. Inr (JArr ws))"
| "strict_value (JObj kvs) = and_then (strict_members kvs []) (\<lambda>ms. Inr (JObj (sort_key fst ms)))"
| "strict_items [] = Inr []"
| "strict_items (v # vs) =
     and_then (strict_value v) (\<lambda>w. and_then (strict_items vs) (\<lambda>ws. Inr (w # ws)))"
| "strict_members [] seen = Inr []"
| "strict_members ((k, v) # kvs) seen =
     (if has_control k then Inl ''control character is not allowed''
      else if k \<in> set seen then Inl ''duplicate JSON key''
      else and_then (strict_value v) (\<lambda>w.
        and_then (strict_members kvs (k # seen)) (\<lambda>ms. Inr ((k, w) # ms))))"

definition classify_json_error :: "string \<Rightarrow> vnext_error" where
  "classify_json_error e =
     (if contains_str e ''duplicate JSON key'' then DuplicateJsonKey
      else if contains_str e ''floating-point'' then FloatingPointNotAllowed
      else if contains_str e ''control character'' then ControlCharacterNotAllowed
      else InvalidJson)"

text \<open>
  \<open>strict\_json\_v1\_from\_slice\<close> with the parser \<open>parse\<close> (its error is a message) and the typed
  deserializer \<open>typed\<close> of the target structure.
\<close>

definition strict_json_v1_from_slice ::
  "(string \<Rightarrow> string + json) \<Rightarrow> (json \<Rightarrow> 'a option) \<Rightarrow> string \<Rightarrow> vnext_error + 'a" where
  "strict_json_v1_from_slice parse typed bytes =
     and_then (map_err classify_json_error (and_then (parse bytes) strict_value))
       (\<lambda>v. ok_or (typed v) InvalidSchema)"

section \<open>Well-formed values\<close>

text \<open>What a \<open>Value\<close> in memory is: object keys strictly increasing; and what the writer accepts.\<close>

fun json_wf :: "json \<Rightarrow> bool" where
  "json_wf (JArr vs) \<longleftrightarrow> list_all json_wf vs"
| "json_wf (JObj kvs) \<longleftrightarrow> sorted_wrt (<) (map fst kvs) \<and> list_all (\<lambda>(k, v). json_wf v) kvs"
| "json_wf _ \<longleftrightarrow> True"

fun json_clean :: "json \<Rightarrow> bool" where
  "json_clean JFloat \<longleftrightarrow> False"
| "json_clean (JStr s) \<longleftrightarrow> \<not> has_control s"
| "json_clean (JArr vs) \<longleftrightarrow> list_all json_clean vs"
| "json_clean (JObj kvs) \<longleftrightarrow> list_all (\<lambda>(k, v). \<not> has_control k \<and> json_clean v) kvs"
| "json_clean _ \<longleftrightarrow> True"

lemma sort_key_strict:
  "sorted_wrt (<) (map fst kvs) \<Longrightarrow> sort_key fst kvs = (kvs :: ('k::linorder \<times> 'v) list)"
  by (rule sort_key_id_if_sorted) (simp add: strict_sorted_iff)

lemma try_map_ok_iff: "(\<exists>ys. try_map f xs = Inr ys) \<longleftrightarrow> (\<forall>x\<in>set xs. \<exists>y. f x = Inr y)"
  by (induction xs) auto

lemma canonical_total_iff: "(\<exists>t. write_canonical Q v = Inr t) \<longleftrightarrow> json_clean v"
proof (induction v rule: json_clean.induct)
  case (2 s) then show ?case by (auto simp: reject_control_chars_def)
next
  case (3 vs) then show ?case using try_map_ok_iff[of "write_canonical Q" vs] by (auto simp: list_all_iff)
next
  case (4 kvs)
  let ?f = "\<lambda>(k, v). and_then (reject_control_chars k) (\<lambda>_.
         and_then (write_canonical Q v) (\<lambda>t. Inr (Q k @ '':'' @ t)))"
  have "(\<exists>y. ?f (k, v) = Inr y) \<longleftrightarrow> \<not> has_control k \<and> json_clean v" if "(k, v) \<in> set kvs" for k v
    using 4[OF that refl] by (auto simp: reject_control_chars_def)
  then show ?case using try_map_ok_iff[of ?f "sort_key fst kvs"] by (fastforce simp: list_all_iff)
qed auto

text \<open>A value the strict reader accepts is well formed and canonical.\<close>

lemma strict_members_keys:
  "strict_members kvs seen = Inr ms \<Longrightarrow>
     map fst ms = map fst kvs \<and> distinct (map fst ms) \<and> set (map fst ms) \<inter> set seen = {}"
proof (induction kvs arbitrary: seen ms)
  case (Cons e kvs)
  obtain k v where e: "e = (k, v)" by (cases e)
  from Cons.prems obtain w ms' where w: "k \<notin> set seen" "strict_members kvs (k # seen) = Inr ms'"
    "ms = (k, w) # ms'" by (auto simp: e split: if_splits)
  from Cons.IH[OF w(2)] w show ?case by (auto simp: e simp del: set_map)
qed simp

lemma strict_value_clean:
  "strict_value v = Inr w \<Longrightarrow> json_wf w \<and> json_clean w"
  "strict_members kvs seen = Inr ms \<Longrightarrow>
     list_all (\<lambda>(k, v). \<not> has_control k \<and> json_wf v \<and> json_clean v) ms"
  "strict_items vs = Inr ws \<Longrightarrow> list_all (\<lambda>v. json_wf v \<and> json_clean v) ws"
proof (induction v and kvs seen and vs arbitrary: w and ms and ws
    rule: strict_value_strict_members_strict_items.induct)
  case (7 kvs)
  then obtain ms where ms: "strict_members kvs [] = Inr ms" "w = JObj (sort_key fst ms)" by auto
  with 7 have "list_all (\<lambda>(k, v). \<not> has_control k \<and> json_wf v \<and> json_clean v) ms" by blast
  moreover have "sorted_wrt (<) (map fst (sort_key fst ms))"
    using strict_members_keys[OF ms(1)]
    by (auto simp: strict_sorted_iff distinct_map intro: inj_on_subset)
  ultimately show ?case by (auto simp: ms(2) list_all_iff)
next
  case (11 k v kvs seen)
  then obtain w ms' where w: "\<not> has_control k" "k \<notin> set seen" "strict_value v = Inr w"
    "strict_members kvs (k # seen) = Inr ms'" "ms = (k, w) # ms'" by (auto split: if_splits)
  then have "json_wf w \<and> json_clean w" using 11(1) by blast
  moreover have "list_all (\<lambda>(k, v). \<not> has_control k \<and> json_wf v \<and> json_clean v) ms'"
    using 11(2) w by blast
  ultimately show ?case using w by simp
qed (auto simp: list_all_iff split: if_splits)

section \<open>The canonical form determines the value\<close>

definition quoting :: "(string \<Rightarrow> string) \<Rightarrow> bool" where
  "quoting Q \<longleftrightarrow> (\<forall>s. \<exists>r. Q s = CHR 0x22 # r) \<and> (\<forall>s t u v. Q s @ u = Q t @ v \<longrightarrow> s = t \<and> u = v)"

text \<open>The literal of a text without control characters: quotes and backslashes are escaped.\<close>

fun json_escape :: "string \<Rightarrow> string" where
  "json_escape [] = []"
| "json_escape (c # s) =
     (if c = CHR 0x22 \<or> c = CHR 0x5C then CHR 0x5C # c # json_escape s else c # json_escape s)"

definition json_quote :: "string \<Rightarrow> string" where
  "json_quote s = CHR 0x22 # json_escape s @ [CHR 0x22]"

lemma json_escape_inj:
  "json_escape s @ CHR 0x22 # u = json_escape t @ CHR 0x22 # v \<Longrightarrow> s = t \<and> u = v"
proof (induction s arbitrary: t)
  case Nil then show ?case by (cases t) (simp_all split: if_splits)
next
  case (Cons a s) then show ?case by (cases t) (simp_all split: if_splits)
qed

lemma json_quote_quoting: "quoting json_quote"
  unfolding quoting_def json_quote_def
  by (intro conjI allI impI) (simp_all, (drule json_escape_inj, simp)+)

lemma quoting_head: "quoting Q \<Longrightarrow> \<exists>r. Q s = CHR 0x22 # r"
  unfolding quoting_def by blast

lemma quoting_inj: "quoting Q \<Longrightarrow> Q s @ u = Q t @ v \<Longrightarrow> s = t \<and> u = v"
  unfolding quoting_def by blast

definition token_end :: "string \<Rightarrow> bool" where
  "token_end s \<longleftrightarrow> (case s of [] \<Rightarrow> True | c # _ \<Rightarrow> \<not> is_ascii_digit c)"

lemma digits_then_end:
  assumes "list_all is_ascii_digit a" "list_all is_ascii_digit b" "a @ s = b @ t"
    "token_end s" "token_end t"
  shows "a = b \<and> s = t"
proof -
  have tw: "takeWhile is_ascii_digit (x @ z) = x" if "list_all is_ascii_digit x" "token_end z" for x z
    using that by (induction x) (auto simp: token_end_def split: list.splits)
  from tw[of a s] tw[of b t] assms have "a = b" by metis
  with assms show ?thesis by simp
qed

lemma decimal_inj: "decimal m = decimal n \<longleftrightarrow> m = n"
  by (metis foldl_decimal)

lemma decimal_head: "\<exists>c r. decimal n = c # r \<and> is_ascii_digit c"
  using decimal_digits[of n] by (cases "decimal n") auto

lemma integer_text_inj:
  assumes "integer_text m @ s = integer_text n @ t" "token_end s" "token_end t"
  shows "m = n \<and> s = t"
proof -
  have minus: "\<not> is_ascii_digit CHR ''-''" by (simp add: is_ascii_digit_def)
  obtain c r where c: "decimal (nat m) = c # r" "is_ascii_digit c" using decimal_head by blast
  obtain d q where d: "decimal (nat n) = d # q" "is_ascii_digit d" using decimal_head by blast
  have sign: "m < 0 \<longleftrightarrow> n < 0" using assms(1) minus c d by (auto simp: integer_text_def split: if_splits)
  show ?thesis
  proof (cases "m < 0")
    case True
    with sign assms digits_then_end[of "decimal (nat (- m))" "decimal (nat (- n))" s t]
    show ?thesis by (simp add: integer_text_def decimal_digits decimal_inj eq_nat_nat_iff)
  next
    case False
    with sign assms digits_then_end[of "decimal (nat m)" "decimal (nat n)" s t]
    show ?thesis by (simp add: integer_text_def decimal_digits decimal_inj eq_nat_nat_iff)
  qed
qed


text \<open>Every rendering starts with a character of its own class, never a delimiter.\<close>

definition value_head :: "string \<Rightarrow> bool" where
  "value_head p \<longleftrightarrow> (\<exists>c r. p = c # r \<and> c \<noteq> CHR '']'' \<and> c \<noteq> CHR ''}'' \<and> c \<noteq> CHR '','')"

lemma write_canonical_head: "quoting Q \<Longrightarrow> write_canonical Q v = Inr p \<Longrightarrow> value_head p"
proof (induction v)
  case (JInt n)
  have m: "integer_text n = p" using JInt by simp
  show ?case using decimal_head[of "nat n"] m
    by (auto simp: integer_text_def value_head_def is_ascii_digit_def split: if_splits)
next
  case (JStr s)
  then have "Q s = p" by simp
  with quoting_head[OF JStr(1), of s] show ?case by (auto simp: value_head_def)
qed (simp_all add: value_head_def, auto)

text \<open>Comma-separated items up to a closing character are determined one after the other.\<close>

lemma append_single: "(@) [c] = (#) c"
  by (simp add: fun_eq_iff)

lemma items_inj:
  assumes "\<And>p u q v. p \<in> set ps \<Longrightarrow> q \<in> set qs \<Longrightarrow> token_end u \<Longrightarrow> token_end v \<Longrightarrow>
      p @ u = q @ v \<Longrightarrow> p = q \<and> u = v"
    and "str_join '','' ps @ c # s = str_join '','' qs @ c # t"
    and "list_all value_head ps" "list_all value_head qs" "c = CHR '']'' \<or> c = CHR ''}''"
  shows "ps = qs \<and> s = t"
proof -
  let ?tl = "\<lambda>ps. concat (map (\<lambda>q. '','' @ q) ps)"
  have tails: "ps = qs \<and> s = t"
    if "\<And>p u q v. p \<in> set ps \<Longrightarrow> q \<in> set qs \<Longrightarrow> token_end u \<Longrightarrow> token_end v \<Longrightarrow>
        p @ u = q @ v \<Longrightarrow> p = q \<and> u = v" "?tl ps @ c # s = ?tl qs @ c # t" for ps qs
    using that
  proof (induction ps arbitrary: qs)
    case Nil then show ?case using assms(5) by (cases qs) auto
  next
    case (Cons p ps)
    have te: "token_end (?tl xs @ c # u)" for xs u
      using assms(5) by (cases xs) (auto simp: token_end_def is_ascii_digit_def)
    from Cons.prems(2) assms(5) obtain q qs' where qs: "qs = q # qs'" by (cases qs) auto
    with Cons.prems(2) have eq: "p @ ?tl ps @ c # s = q @ ?tl qs' @ c # t" by simp
    have pq: "p = q \<and> ?tl ps @ c # s = ?tl qs' @ c # t"
      by (rule Cons.prems(1)[OF _ _ te te eq]) (simp_all add: qs)
    have "ps = qs' \<and> s = t"
      by (rule Cons.IH[OF _ conjunct2[OF pq]]) (rule Cons.prems(1), auto simp: qs)
    with pq qs show ?case by simp
  qed
  show ?thesis
  proof (cases "ps = [] \<or> qs = []")
    case True
    with assms(2-5) show ?thesis by (cases ps; cases qs) (auto simp: str_join_def value_head_def)
  next
    case False
    then obtain p ps' q qs' where "ps = p # ps'" "qs = q # qs'" by (auto simp: neq_Nil_conv)
    then have "?tl ps @ c # s = ?tl qs @ c # t" using assms(2) by (simp add: str_join_def append_single)
    then show ?thesis using tails[OF assms(1)] by blast
  qed
qed

lemma try_map_pairs:
  assumes "try_map f xs = Inr ps" "try_map f ys = Inr ps"
    and "\<And>x y p. x \<in> set xs \<Longrightarrow> y \<in> set ys \<Longrightarrow> f x = Inr p \<Longrightarrow> f y = Inr p \<Longrightarrow> x = y"
  shows "xs = ys"
  using assms
proof (induction xs arbitrary: ys ps)
  case Nil then show ?case by (cases ys) auto
next
  case (Cons x xs)
  then obtain p ps' y ys' where "ps = p # ps'" "f x = Inr p" "try_map f xs = Inr ps'"
    "ys = y # ys'" "f y = Inr p" "try_map f ys' = Inr ps'" by (cases ys) auto
  with Cons.IH[of ps' ys'] Cons.prems(3) show ?case by simp
qed

lemma try_map_member: "try_map f xs = Inr ps \<Longrightarrow> p \<in> set ps \<Longrightarrow> \<exists>x\<in>set xs. f x = Inr p"
  by (induction xs arbitrary: ps) auto


lemma member_text_inj:
  assumes Q: "quoting Q"
    and IH: "\<And>u w. token_end u \<Longrightarrow> token_end w \<Longrightarrow> p @ u = q @ w \<Longrightarrow> x = y \<and> u = w"
    and eq: "(Q k @ '':'' @ p) @ u = (Q l @ '':'' @ q) @ w" and ends: "token_end u" "token_end w"
  shows "(k, x) = (l, y) \<and> u = w"
proof -
  have "k = l \<and> CHR '':'' # p @ u = CHR '':'' # q @ w"
    by (rule quoting_inj[OF Q]) (use eq in simp)
  with IH ends show ?thesis by auto
qed

text \<open>The first character tells the constructor.\<close>

fun json_class :: "json \<Rightarrow> nat" where
  "json_class JNull = 0" | "json_class (JBool b) = 1" | "json_class (JInt n) = 2"
| "json_class JFloat = 3" | "json_class (JStr s) = 4" | "json_class (JArr vs) = 5"
| "json_class (JObj kvs) = 6"

definition char_class :: "char \<Rightarrow> nat" where
  "char_class c =
     (if c = CHR ''n'' then 0 else if c = CHR ''t'' \<or> c = CHR ''f'' then 1
      else if is_ascii_digit c \<or> c = CHR ''-'' then 2 else if c = CHR 0x22 then 4
      else if c = CHR ''['' then 5 else if c = CHR ''{'' then 6 else 3)"

lemma digit_class: "is_ascii_digit c \<Longrightarrow> char_class c = 2"
  by (auto simp: char_class_def is_ascii_digit_def)

lemma write_canonical_class:
  assumes "quoting Q" "write_canonical Q v = Inr p"
  shows "p \<noteq> [] \<and> char_class (hd p) = json_class v"
proof (cases v)
  case (JInt n)
  with assms have "p = integer_text n" by simp
  then show ?thesis using decimal_head[of "nat n"] JInt
    by (auto simp: integer_text_def digit_class) (simp_all add: char_class_def)
next
  case (JStr s)
  with assms have "p = Q s" by simp
  then show ?thesis using quoting_head[OF assms(1), of s] JStr
    by (auto simp: char_class_def is_ascii_digit_def)
qed (use assms in \<open>auto simp: char_class_def is_ascii_digit_def split: if_splits\<close>)

lemma write_canonical_prefix_inj:
  assumes Q: "quoting Q"
  shows "json_wf v \<Longrightarrow> json_wf w \<Longrightarrow> write_canonical Q v = Inr p \<Longrightarrow> write_canonical Q w = Inr q \<Longrightarrow>
    token_end s \<Longrightarrow> token_end t \<Longrightarrow> p @ s = q @ t \<Longrightarrow> v = w \<and> s = t"
proof (induction v arbitrary: w p q s t)
  case JNull
  from JNull write_canonical_class[OF Q JNull(3)] write_canonical_class[OF Q JNull(4)]
  have "json_class w = 0" by (metis hd_append2 json_class.simps(1))
  with JNull show ?case by (cases w) auto
next
  case (JBool b)
  from JBool write_canonical_class[OF Q JBool(3)] write_canonical_class[OF Q JBool(4)]
  have "json_class w = 1" by (metis hd_append2 json_class.simps(2))
  then obtain b' where "w = JBool b'" by (cases w) auto
  with JBool show ?case by (auto split: if_splits)
next
  case (JInt n)
  from JInt write_canonical_class[OF Q JInt(3)] write_canonical_class[OF Q JInt(4)]
  have "json_class w = 2" by (metis hd_append2 json_class.simps(3))
  then obtain m where "w = JInt m" by (cases w) auto
  with JInt integer_text_inj[of n s m t] show ?case by auto
next
  case JFloat
  then show ?case by simp
next
  case (JStr x)
  from JStr write_canonical_class[OF Q JStr(3)] write_canonical_class[OF Q JStr(4)]
  have "json_class w = 4" by (metis hd_append2 json_class.simps(5))
  then obtain y where "w = JStr y" by (cases w) auto
  with JStr quoting_inj[OF Q, of x s y t] show ?case by auto
next
  case (JArr vs)
  from JArr.prems write_canonical_class[OF Q JArr.prems(3)] write_canonical_class[OF Q JArr.prems(4)]
  have "json_class w = 5" by (metis hd_append2 json_class.simps(6))
  then obtain ws where w: "w = JArr ws" by (cases w) auto
  with JArr.prems obtain ps qs where ps: "try_map (write_canonical Q) vs = Inr ps"
    "try_map (write_canonical Q) ws = Inr qs"
    "p = ''['' @ str_join '','' ps @ '']''" "q = ''['' @ str_join '','' qs @ '']''" by auto
  have wf: "list_all json_wf vs" "list_all json_wf ws" using JArr.prems w by auto
  have item: "x = y \<and> a = b \<and> u = z" if "x \<in> set vs" "y \<in> set ws" "write_canonical Q x = Inr a"
      "write_canonical Q y = Inr b" "token_end u" "token_end z" "a @ u = b @ z" for x y a b u z
  proof -
    have "x = y \<and> u = z"
      by (rule JArr.IH[OF that(1) _ _ that(3-7)]) (use wf that in \<open>auto simp: list_all_iff\<close>)
    with that show ?thesis by simp
  qed
  have heads: "list_all value_head ps" "list_all value_head qs"
    using ps(1,2) write_canonical_head[OF Q] by (auto simp: list_all_iff dest: try_map_member)
  have "ps = qs \<and> s = t"
  proof (rule items_inj[OF _ _ heads])
    show "a = b \<and> u = z" if "a \<in> set ps" "b \<in> set qs" "token_end u" "token_end z" "a @ u = b @ z"
      for a u b z
      using that item try_map_member[OF ps(1)] try_map_member[OF ps(2)] by metis
    show "str_join '','' ps @ CHR '']'' # s = str_join '','' qs @ CHR '']'' # t"
      using JArr.prems(7) ps by simp
  qed simp
  moreover from this have "vs = ws"
    using item[OF _ _ _ _ JArr.prems(5) JArr.prems(5)] ps by (intro try_map_pairs[of _ vs ps ws]) auto
  ultimately show ?case by (simp add: w)
next
  case (JObj kvs)
  from JObj.prems write_canonical_class[OF Q JObj.prems(3)] write_canonical_class[OF Q JObj.prems(4)]
  have "json_class w = 6" by (metis hd_append2 json_class.simps(7))
  then obtain lvs where w: "w = JObj lvs" by (cases w) auto
  let ?m = "\<lambda>(k, v). and_then (reject_control_chars k) (\<lambda>_.
         and_then (write_canonical Q v) (\<lambda>t. Inr (Q k @ '':'' @ t)))"
  have wf: "sorted_wrt (<) (map fst kvs)" "sorted_wrt (<) (map fst lvs)"
    "\<And>k v. (k, v) \<in> set kvs \<Longrightarrow> json_wf v" "\<And>k v. (k, v) \<in> set lvs \<Longrightarrow> json_wf v"
    using JObj.prems w by (auto simp: list_all_iff)
  with JObj.prems w obtain ps qs where ps: "try_map ?m kvs = Inr ps" "try_map ?m lvs = Inr qs"
    "p = ''{'' @ str_join '','' ps @ ''}''" "q = ''{'' @ str_join '','' qs @ ''}''"
    by (auto simp: sort_key_strict)
  have member: "e = f \<and> a = b \<and> u = z" if e: "e \<in> set kvs" "f \<in> set lvs" "?m e = Inr a"
      "?m f = Inr b" "token_end u" "token_end z" "a @ u = b @ z" for e f a b u z
  proof -
    obtain k x l y where ef: "e = (k, x)" "f = (l, y)" by (cases e; cases f)
    with e obtain a' b' where ab: "write_canonical Q x = Inr a'" "a = Q k @ '':'' @ a'"
      "write_canonical Q y = Inr b'" "b = Q l @ '':'' @ b'" by auto
    have "(k, x) = (l, y) \<and> u = z"
    proof (rule member_text_inj[OF Q])
      show "(Q k @ '':'' @ a') @ u = (Q l @ '':'' @ b') @ z" using that ab by simp
      show "x = y \<and> u = z" if "token_end u" "token_end z" "a' @ u = b' @ z" for u z
        by (rule JObj.IH[OF e(1)[unfolded ef] _ _ _ ab(1,3) that])
          (use wf e ef in auto)
    qed (use that in auto)
    with ab ef show ?thesis by auto
  qed
  have head: "value_head a" if "?m e = Inr a" for e a
    using that quoting_head[OF Q, of "fst e"] by (cases e) (auto simp: value_head_def)
  have head_all: "list_all value_head rs" if r: "try_map ?m es = Inr rs" for es rs
    unfolding list_all_iff
  proof
    fix a assume "a \<in> set rs"
    from try_map_member[OF r this] obtain e where "?m e = Inr a" ..
    then show "value_head a" by (rule head)
  qed
  have heads: "list_all value_head ps" "list_all value_head qs"
    using head_all[OF ps(1)] head_all[OF ps(2)] by blast+
  have "ps = qs \<and> s = t"
  proof (rule items_inj[OF _ _ heads])
    show "a = b \<and> u = z" if "a \<in> set ps" "b \<in> set qs" "token_end u" "token_end z" "a @ u = b @ z"
      for a u b z
    proof -
      from try_map_member[OF ps(1) that(1)] obtain e where e: "e \<in> set kvs" "?m e = Inr a" ..
      from try_map_member[OF ps(2) that(2)] obtain f where f: "f \<in> set lvs" "?m f = Inr b" ..
      from member[OF e(1) f(1) e(2) f(2) that(3-5)] show ?thesis by simp
    qed
    show "str_join '','' ps @ CHR ''}'' # s = str_join '','' qs @ CHR ''}'' # t"
      using JObj.prems(7) ps by simp
  qed simp
  moreover from this have "kvs = lvs"
    using member[OF _ _ _ _ JObj.prems(5) JObj.prems(5)] ps by (intro try_map_pairs[of ?m kvs ps lvs]) auto
  ultimately show ?case by (simp add: w)
qed


section \<open>Properties\<close>

text \<open>
  C18: canonical JSON is injective. Two in-memory values with the same canonical bytes are the
  same value, so a digest over the canonical form binds every field and no two distinct claims
  share their bytes.
\<close>

theorem canonical_json_injective:
  assumes "quoting Q" "json_wf v" "json_wf w"
    and "canonical_json_v1 Q v = Inr p" "canonical_json_v1 Q w = Inr p"
  shows "v = w"
  using write_canonical_prefix_inj[OF assms(1-3), of p p "[]" "[]"] assms(4,5)
  by (simp add: canonical_json_v1_def token_end_def)

theorem canonical_json_injective_witness:
  "JObj [(''a'', JInt 1), (''b'', JArr [JStr ''x'', JNull])]
     = JObj [(''a'', JInt 1), (''b'', JArr [JStr ''x'', JNull])]"
  by (rule canonical_json_injective[where Q = json_quote
        and p = "''{'' @ json_quote ''a'' @ '':1,'' @ json_quote ''b'' @ '':['' @ json_quote ''x'' @ '',null]}''",
        OF json_quote_quoting])
    (simp_all add: canonical_json_v1_def has_control_def chars_def is_control_def
      reject_control_chars_def str_join_def integer_text_def decimal.simps, code_simp+)


definition sample_parse :: "string \<Rightarrow> string + json" where
  "sample_parse bytes =
     (if bytes = ''b2an'' then Inr (JObj [(''b'', JInt 2), (''a'', JNull)]) else Inl ''EOF'')"


end
