(* ===== verification/Residual.thy ===== *)
theory Residual imports Alias Json begin

text \<open>
  The independent residual scanner (\<open>privacy/src/residual_scan.rs\<close>): it searches a redacted text
  for anything that should no longer be there, sorts and counts its hits, and binds them in a
  report whose evidence hash covers the canonical form. A regular expression is compiled by the
  \<open>regex\<close> crate: the parameter \<open>R\<close> maps an expression to its \<open>find\_iter\<close>, a function from a
  text to byte ranges, or to \<open>None\<close> when it does not compile.
\<close>

section \<open>Data\<close>

definition INDEPENDENT_RESIDUAL_SCAN_VERSION :: string where
  "INDEPENDENT_RESIDUAL_SCAN_VERSION = ''independent-residual-scan-v2''"

definition MAX_RESIDUAL_HITS :: nat where "MAX_RESIDUAL_HITS = 100000"

datatype residual_error = ResidualInvalidInput | PatternUnavailable | HitLimitExceeded | EvidenceFailed

datatype risk_class =
    DictionarySubject | IdentityLike | LongDigitSequence | EmailLike | PhoneLike | IpLike
  | SuspectedPerson | SuspectedOrganization | AddressLike | SourceName | LocalPath | OcrConfusable
  | BrokenPlaceholder | AliasInconsistency

fun risk_rank :: "risk_class \<Rightarrow> nat" where
  "risk_rank DictionarySubject = 0" | "risk_rank IdentityLike = 1"
| "risk_rank LongDigitSequence = 2" | "risk_rank EmailLike = 3" | "risk_rank PhoneLike = 4"
| "risk_rank IpLike = 5" | "risk_rank SuspectedPerson = 6" | "risk_rank SuspectedOrganization = 7"
| "risk_rank AddressLike = 8" | "risk_rank SourceName = 9" | "risk_rank LocalPath = 10"
| "risk_rank OcrConfusable = 11" | "risk_rank BrokenPlaceholder = 12"
| "risk_rank AliasInconsistency = 13"

lemma risk_rank_inj: "risk_rank a = risk_rank b \<longleftrightarrow> a = b"
  by (cases a; cases b) simp_all

instantiation risk_class :: linorder
begin

definition less_eq_risk_class :: "risk_class \<Rightarrow> risk_class \<Rightarrow> bool" where
  "less_eq_risk_class a b \<longleftrightarrow> risk_rank a \<le> risk_rank b"

definition less_risk_class :: "risk_class \<Rightarrow> risk_class \<Rightarrow> bool" where
  "less_risk_class a b \<longleftrightarrow> risk_rank a < risk_rank b"

instance
  by standard (auto simp: less_eq_risk_class_def less_risk_class_def risk_rank_inj
    simp flip: risk_rank_inj)

end

fun risk_label :: "risk_class \<Rightarrow> string" where
  "risk_label DictionarySubject = ''dictionary_subject''"
| "risk_label IdentityLike = ''identity_like''"
| "risk_label LongDigitSequence = ''long_digit_sequence''"
| "risk_label EmailLike = ''email_like''"
| "risk_label PhoneLike = ''phone_like''"
| "risk_label IpLike = ''ip_like''"
| "risk_label SuspectedPerson = ''suspected_person''"
| "risk_label SuspectedOrganization = ''suspected_organization''"
| "risk_label AddressLike = ''address_like''"
| "risk_label SourceName = ''source_name''"
| "risk_label LocalPath = ''local_path''"
| "risk_label OcrConfusable = ''ocr_confusable''"
| "risk_label BrokenPlaceholder = ''broken_placeholder''"
| "risk_label AliasInconsistency = ''alias_inconsistency''"

record hit =
  h_page_index :: nat
  h_start :: nat
  h_end :: nat
  h_class :: risk_class
  h_entity :: "entity_type option"
  h_blocking :: bool
  h_reason :: string

record report =
  rp_schema_version :: string
  rp_passed :: bool
  rp_hits :: "hit list"
  rp_counts :: "(risk_class, u32) omap"
  rp_page_count :: nat
  rp_evidence_hash :: string

record residual_term =
  t_entity :: entity_type
  t_primary :: string
  t_variants :: "string list"
  t_alias :: string

record pattern =
  p_class :: risk_class
  p_entity :: "entity_type option"
  p_expression :: string
  p_reason :: string
  p_blocking :: bool

abbreviation backslash :: string where "backslash \<equiv> [CHR 0x5C]"
abbreviation quote_char :: string where "quote_char \<equiv> [CHR 0x22]"

definition han_tail :: "string list \<Rightarrow> string" where
  "han_tail hs = concat (map (\<lambda>h. backslash @ ''x{'' @ h @ ''}'') hs)"

definition PATTERNS :: "pattern list" where
  "PATTERNS =
    [\<lparr>p_class = IdentityLike, p_entity = Some IdentityNumber,
      p_expression = ''(?i)(?:^|[^0-9A-Z])[1-9][0-9]{16}[0-9X](?:$|[^0-9A-Z])'',
      p_reason = ''residual_identity_like'', p_blocking = True\<rparr>,
     \<lparr>p_class = LongDigitSequence, p_entity = None,
      p_expression = ''(?:^|[^0-9])[0-9](?:[ -]?[0-9]){7,24}(?:$|[^0-9])'',
      p_reason = ''residual_long_digit_sequence'', p_blocking = True\<rparr>,
     \<lparr>p_class = EmailLike, p_entity = Some EmailAddress,
      p_expression = ''(?i)[A-Z0-9._%+-]{1,64}@[A-Z0-9.-]{1,190}'' @ backslash @ ''.[A-Z]{2,24}'',
      p_reason = ''residual_email_like'', p_blocking = True\<rparr>,
     \<lparr>p_class = PhoneLike, p_entity = Some PhoneNumber,
      p_expression = ''(?:^|[^0-9])(?:1[3-9][0-9]{9}|0[0-9]{2,3}[ -]?[0-9]{7,8})(?:$|[^0-9])'',
      p_reason = ''residual_phone_like'', p_blocking = True\<rparr>,
     \<lparr>p_class = IpLike, p_entity = Some IpAddress,
      p_expression = ''(?:^|[^0-9.])[0-9]{1,3}(?:'' @ backslash @ ''.[0-9]{1,3}){3}(?:$|[^0-9.])'',
      p_reason = ''residual_ip_like'', p_blocking = True\<rparr>,
     \<lparr>p_class = LocalPath, p_entity = None,
      p_expression = ''(?i)(?:[A-Z]:['' @ backslash @ backslash @ ''/](?:[^'' @ backslash @ ''s<>:''
        @ backslash @ quote_char @ ''|?*]+['' @ backslash @ backslash
        @ ''/])+|/(?:Users|home|var|tmp)/[^'' @ backslash @ ''s]+)'',
      p_reason = ''residual_local_path'', p_blocking = True\<rparr>,
     \<lparr>p_class = SuspectedOrganization, p_entity = Some OrganizationName,
      p_expression = ''['' @ han_tail [''4e00''] @ ''-'' @ han_tail [''9fff''] @ '']{2,40}(?:''
        @ str_join ''|'' (map han_tail [[''516c'', ''53f8''], [''6cd5'', ''9662''],
            [''68c0'', ''5bdf'', ''9662''], [''5f8b'', ''5e08'', ''4e8b'', ''52a1'', ''6240''],
            [''59d4'', ''5458'', ''4f1a''], [''5c40'']]) @ '')'',
      p_reason = ''residual_suspected_organization'', p_blocking = False\<rparr>,
     \<lparr>p_class = AddressLike, p_entity = Some Address,
      p_expression = ''['' @ han_tail [''4e00''] @ ''-'' @ han_tail [''9fff''] @ ''A-Za-z0-9]{6,100}(?:''
        @ str_join ''|'' (map han_tail [[''7701''], [''5e02''], [''533a''], [''53bf''],
            [''8857'', ''9053''], [''8def''], [''8857''], [''5df7''], [''5f04''], [''53f7''],
            [''5ba4'']]) @ '')'',
      p_reason = ''residual_address_like'', p_blocking = False\<rparr>]"

section \<open>Scanning\<close>

text \<open>The loops append to the hits found so far and stop at the first error.\<close>

definition push_hit :: "nat \<Rightarrow> nat \<Rightarrow> nat \<Rightarrow> risk_class \<Rightarrow> entity_type option \<Rightarrow> bool \<Rightarrow> string \<Rightarrow> hit list
    \<Rightarrow> residual_error + hit list" where
  "push_hit page a b class entity blocking reason hits =
     (if MAX_RESIDUAL_HITS \<le> length hits \<or> b \<le> a then Inl HitLimitExceeded
      else if 2 ^ 32 \<le> a \<or> 2 ^ 32 \<le> b then Inl ResidualInvalidInput
      else Inr (hits @ [\<lparr>h_page_index = page, h_start = a, h_end = b, h_class = class,
        h_entity = entity, h_blocking = blocking, h_reason = reason\<rparr>]))"

fun try_fold :: "('a \<Rightarrow> 's \<Rightarrow> 'e + 's) \<Rightarrow> 'a list \<Rightarrow> 's \<Rightarrow> 'e + 's" where
  "try_fold f [] s = Inr s"
| "try_fold f (x # xs) s = and_then (f x s) (try_fold f xs)"

definition pattern_hits :: "string \<Rightarrow> nat \<Rightarrow> pattern \<times> (string \<Rightarrow> (nat \<times> nat) list) \<Rightarrow> hit list
    \<Rightarrow> residual_error + hit list" where
  "pattern_hits page i e =
     try_fold (\<lambda>m. push_hit i (fst m) (snd m) (p_class (fst e)) (p_entity (fst e))
       (p_blocking (fst e)) (p_reason (fst e))) (snd e page)"

definition scan_patterns :: "string \<Rightarrow> nat \<Rightarrow> (pattern \<times> (string \<Rightarrow> (nat \<times> nat) list)) list \<Rightarrow> hit list
    \<Rightarrow> residual_error + hit list" where
  "scan_patterns page i compiled = try_fold (pattern_hits page i) compiled"

definition value_hits :: "string \<Rightarrow> nat \<Rightarrow> entity_type \<Rightarrow> string \<Rightarrow> hit list \<Rightarrow> residual_error + hit list" where
  "value_hits page i entity v = try_fold (\<lambda>a. push_hit i a (a + length v) DictionarySubject
     (Some entity) True ''residual_dictionary_subject'') (match_indices page v)"

definition term_hits :: "string \<Rightarrow> nat \<Rightarrow> residual_term \<Rightarrow> hit list \<Rightarrow> residual_error + hit list" where
  "term_hits page i term hits =
     (if str_trim (t_primary term) = [] \<or> 512 < length (t_primary term)
        \<or> 32 < length (t_variants term) \<or> str_trim (t_alias term) = []
      then Inl ResidualInvalidInput
      else try_fold (value_hits page i (t_entity term)) (t_primary term # t_variants term) hits)"

definition scan_dictionary :: "string \<Rightarrow> nat \<Rightarrow> residual_term list \<Rightarrow> hit list \<Rightarrow> residual_error + hit list" where
  "scan_dictionary page i terms = try_fold (term_hits page i) terms"

definition name_leaf :: "string \<Rightarrow> string" where
  "name_leaf name = str_trim (rev (takeWhile (\<lambda>c. c \<noteq> CHR ''/'' \<and> c \<noteq> CHR 0x5C) (rev name)))"

definition name_hits :: "string \<Rightarrow> nat \<Rightarrow> string \<Rightarrow> hit list \<Rightarrow> residual_error + hit list" where
  "name_hits page i name hits =
     (let leaf = name_leaf name in
      if length leaf < 3 \<or> 512 < length leaf \<or> has_control leaf then Inr hits
      else try_fold (\<lambda>a. push_hit i a (a + length leaf) SourceName None True ''residual_source_name'')
        (match_indices page leaf) hits)"

definition scan_source_names :: "string \<Rightarrow> nat \<Rightarrow> string list \<Rightarrow> hit list \<Rightarrow> residual_error + hit list" where
  "scan_source_names page i names = try_fold (name_hits page i) names"

definition scan_placeholders :: "string \<Rightarrow> nat \<Rightarrow> residual_term list \<Rightarrow> hit list \<Rightarrow> residual_error + hit list" where
  "scan_placeholders page i terms hits =
     and_then
       (if count_char 0x5B page \<noteq> count_char 0x5D page \<or> count_char 0x3010 page \<noteq> count_char 0x3011 page
        then push_hit i 0 (min (length page) 1) BrokenPlaceholder None True
          ''placeholder_delimiter_unbalanced'' hits
        else Inr hits)
     (\<lambda>hits.
       if length (btree_set (map t_alias terms)) \<noteq> length terms
       then push_hit i 0 (min (length page) 1) AliasInconsistency None True
         ''dictionary_alias_not_unique'' hits
       else Inr hits)"

definition scan_confusables :: "string \<Rightarrow> nat \<Rightarrow> hit list \<Rightarrow> residual_error + hit list" where
  "scan_confusables page i = try_fold (\<lambda>(a, c) hits.
     if (0xFF10 \<le> c \<and> c \<le> 0xFF19) \<or> c = 0xFF38 \<or> c = 0xFF58
     then push_hit i a (a + length (encode_scalar c)) OcrConfusable None False
       ''ocr_confusable_requires_review'' hits
     else Inr hits) (char_indices page)"

definition scan_page :: "(pattern \<times> (string \<Rightarrow> (nat \<times> nat) list)) list \<Rightarrow> residual_term list \<Rightarrow> string list
    \<Rightarrow> nat \<times> string \<Rightarrow> hit list \<Rightarrow> residual_error + hit list" where
  "scan_page compiled terms names = (\<lambda>(i, page) hits.
     if 2 ^ 32 \<le> i then Inl ResidualInvalidInput
     else and_then (scan_patterns page i compiled hits) (\<lambda>hits.
       and_then (scan_dictionary page i terms hits) (\<lambda>hits.
       and_then (scan_source_names page i names hits) (\<lambda>hits.
       and_then (scan_placeholders page i terms hits) (scan_confusables page i)))))"

definition hit_key :: "hit \<Rightarrow> nat \<times> nat \<times> nat \<times> risk_class" where
  "hit_key h = (h_page_index h, h_start h, h_end h, h_class h)"

definition count_of :: "(risk_class, u32) omap \<Rightarrow> risk_class \<Rightarrow> u32" where
  "count_of m c = (case om_get m c of Some n \<Rightarrow> n | None \<Rightarrow> 0)"

definition bump_count :: "hit \<Rightarrow> (risk_class, u32) omap \<Rightarrow> (risk_class, u32) omap" where
  "bump_count h m =
     (let n = count_of m (h_class h) in om_put (h_class h) (if n = - 1 then n else n + 1) m)"

definition count_hits :: "hit list \<Rightarrow> (risk_class, u32) omap" where
  "count_hits hits = fold bump_count hits []"

definition hit_json :: "hit \<Rightarrow> json" where
  "hit_json h = JObj (sort_key fst
     [(''pageIndex'', JInt (int (h_page_index h))), (''startOffset'', JInt (int (h_start h))),
      (''endOffset'', JInt (int (h_end h))), (''riskClass'', JStr (risk_label (h_class h))),
      (''entityType'', case h_entity h of None \<Rightarrow> JNull | Some k \<Rightarrow> JStr (entity_kind k)),
      (''blocking'', JBool (h_blocking h)), (''reasonCode'', JStr (h_reason h))])"

definition report_claims :: "string \<Rightarrow> bool \<Rightarrow> hit list \<Rightarrow> (risk_class, u32) omap \<Rightarrow> nat \<Rightarrow> json" where
  "report_claims version passed hits counts pages = JObj (sort_key fst
     [(''schemaVersion'', JStr version), (''passed'', JBool passed),
      (''hits'', JArr (map hit_json hits)),
      (''counts'', JObj (sort_key fst (map (\<lambda>(c, n). (risk_label c, JInt (uint n))) counts))),
      (''scannedPageCount'', JInt (int pages))])"

definition evidence_hash :: "(string \<Rightarrow> string) \<Rightarrow> (string \<Rightarrow> string) \<Rightarrow> json \<Rightarrow> residual_error + string" where
  "evidence_hash D Q claims =
     and_then (map_err (\<lambda>_. EvidenceFailed) (canonical_json_v1 Q claims)) (\<lambda>canonical.
       let h = sha256_hex D canonical in if valid_sha256 h then Inr h else Inl EvidenceFailed)"

definition scan_independent_residuals ::
  "(string \<Rightarrow> (string \<Rightarrow> (nat \<times> nat) list) option) \<Rightarrow> (string \<Rightarrow> string) \<Rightarrow> (string \<Rightarrow> string)
    \<Rightarrow> string list \<Rightarrow> residual_term list \<Rightarrow> string list \<Rightarrow> residual_error + report" where
  "scan_independent_residuals R D Q pages terms names =
     (if pages = [] \<or> 100000 < length pages \<or> 4096 < length terms \<or> 256 < length names
      then Inl ResidualInvalidInput
      else and_then (try_map (\<lambda>p. and_then (ok_or (R (p_expression p)) PatternUnavailable)
          (\<lambda>f. Inr (p, f))) PATTERNS) (\<lambda>compiled.
        and_then (try_fold (scan_page compiled terms names) (enumerate 0 pages) []) (\<lambda>found.
        let hits = remdups_adj (sort_key hit_key found); counts = count_hits hits in
        if 2 ^ 32 \<le> length pages then Inl ResidualInvalidInput
        else let passed = list_all (\<lambda>h. \<not> h_blocking h) hits in
          and_then (evidence_hash D Q (report_claims INDEPENDENT_RESIDUAL_SCAN_VERSION passed hits
              counts (length pages))) (\<lambda>hash.
            Inr \<lparr>rp_schema_version = INDEPENDENT_RESIDUAL_SCAN_VERSION, rp_passed = passed,
              rp_hits = hits, rp_counts = counts, rp_page_count = length pages,
              rp_evidence_hash = hash\<rparr>))))"

definition report_validate :: "(string \<Rightarrow> string) \<Rightarrow> (string \<Rightarrow> string) \<Rightarrow> report \<Rightarrow> residual_error + unit" where
  "report_validate D Q r =
     (if rp_schema_version r \<noteq> INDEPENDENT_RESIDUAL_SCAN_VERSION \<or> rp_page_count r = 0
         \<or> MAX_RESIDUAL_HITS < length (rp_hits r)
         \<or> list_ex (\<lambda>h. h_end h \<le> h_start h \<or> rp_page_count r \<le> h_page_index h \<or> h_reason h = []
              \<or> 128 < length (h_reason h) \<or> has_control (h_reason h)) (rp_hits r)
      then Inl EvidenceFailed
      else if count_hits (rp_hits r) \<noteq> rp_counts r
         \<or> rp_passed r \<noteq> list_all (\<lambda>h. \<not> h_blocking h) (rp_hits r)
      then Inl EvidenceFailed
      else and_then (evidence_hash D Q (report_claims (rp_schema_version r) (rp_passed r) (rp_hits r)
          (rp_counts r) (rp_page_count r))) (\<lambda>h.
        if h \<noteq> rp_evidence_hash r then Inl EvidenceFailed else Inr ()))"

section \<open>What a scan finds\<close>

lemma try_fold_inv:
  assumes "try_fold f xs s = Inr t" and "I s"
    and "\<And>x s t. x \<in> set xs \<Longrightarrow> I s \<Longrightarrow> f x s = Inr t \<Longrightarrow> I t"
  shows "I t"
  using assms by (induction xs arbitrary: s) auto

text \<open>A step that only appends; a member of the list is processed on the way.\<close>

definition grows :: "('h list \<Rightarrow> 'e + 'h list) \<Rightarrow> bool" where
  "grows f \<longleftrightarrow> (\<forall>s t. f s = Inr t \<longrightarrow> set s \<subseteq> set t)"

lemma growsD: "grows f \<Longrightarrow> f s = Inr t \<Longrightarrow> set s \<subseteq> set t"
  by (simp add: grows_def)

lemma grows_Inr [intro!]: "grows Inr"
  by (simp add: grows_def)

lemma grows_push_hit [intro!]: "grows (push_hit i a b c e bl r)"
  by (auto simp: grows_def push_hit_def split: if_splits)

lemma grows_try_fold [intro]: "(\<And>x. x \<in> set xs \<Longrightarrow> grows (f x)) \<Longrightarrow> grows (try_fold f xs)"
  unfolding grows_def by (induction xs) (auto, blast)

lemma grows_and_then: "grows f \<Longrightarrow> grows g \<Longrightarrow> grows (\<lambda>s. and_then (f s) g)"
  unfolding grows_def and_then_Inr_iff by blast

lemma grows_if [intro]: "grows f \<Longrightarrow> grows g \<Longrightarrow> grows (\<lambda>s. if b then f s else g s)"
  by (simp add: grows_def)

lemma grows_Inl [intro!]: "grows (\<lambda>_. Inl e)"
  by (simp add: grows_def)

lemma try_fold_visits:
  assumes "try_fold f xs s = Inr t" and "x \<in> set xs" and "\<And>x. x \<in> set xs \<Longrightarrow> grows (f x)"
  shows "\<exists>u v. f x u = Inr v \<and> set v \<subseteq> set t"
  using assms
proof (induction xs arbitrary: s)
  case (Cons y xs)
  then obtain w where w: "f y s = Inr w" "try_fold f xs w = Inr t" by auto
  show ?case
  proof (cases "x = y")
    case True
    have "grows (try_fold f xs)" using Cons.prems(3) by (intro grows_try_fold) auto
    with w True show ?thesis unfolding grows_def by blast
  next
    case False
    then show ?thesis using Cons.IH[OF w(2)] Cons.prems by auto
  qed
qed simp

lemma push_hit_member:
  "push_hit i a b c e bl r s = Inr t \<Longrightarrow> \<lparr>h_page_index = i, h_start = a, h_end = b, h_class = c,
     h_entity = e, h_blocking = bl, h_reason = r\<rparr> \<in> set t"
  by (auto simp: push_hit_def split: if_splits)

text \<open>A loop of pushes over a list that is not empty leaves a hit of its kind.\<close>

lemma pushes_leave_hit:
  assumes "try_fold (\<lambda>a. push_hit i (l a) (h a) c e bl r) xs s = Inr t" and "xs \<noteq> []"
  shows "\<exists>x\<in>set t. h_blocking x = bl \<and> h_class x = c"
proof -
  from assms(2) have "hd xs \<in> set xs" by simp
  from try_fold_visits[OF assms(1) this] obtain u v where
    "push_hit i (l (hd xs)) (h (hd xs)) c e bl r u = Inr v" "set v \<subseteq> set t"
    by (auto intro: grows_push_hit)
  with push_hit_member[OF this(1)] show ?thesis by (intro bexI) auto
qed

section \<open>Every scanner appends\<close>

lemma grows_hits [intro!]:
  "grows (pattern_hits page i e)" "grows (value_hits page i k v)"
  by (auto simp: pattern_hits_def value_hits_def [abs_def] intro!: grows_try_fold)

lemma grows_term_hits [intro!]: "grows (term_hits page i m)"
  unfolding term_hits_def [abs_def] by (intro grows_if grows_try_fold) auto

lemma grows_name_hits [intro!]: "grows (name_hits page i n)"
  unfolding name_hits_def [abs_def] Let_def by (intro grows_if grows_try_fold) auto

lemma grows_scan_lists [intro!]:
  "grows (scan_patterns page i compiled)" "grows (scan_dictionary page i terms)"
  "grows (scan_source_names page i names)"
  by (auto simp: scan_patterns_def scan_dictionary_def scan_source_names_def intro!: grows_try_fold)

lemma grows_scan_placeholders [intro!]: "grows (scan_placeholders page i terms)"
  unfolding scan_placeholders_def by (intro grows_and_then grows_if) auto

lemma grows_scan_confusables [intro!]: "grows (scan_confusables page i)"
  unfolding scan_confusables_def by (auto intro!: grows_try_fold grows_if)

lemma grows_scan_page [intro!]: "grows (scan_page compiled terms names ip)"
  unfolding scan_page_def by (cases ip) (auto intro!: grows_and_then grows_if)

section \<open>A passed scan\<close>

text \<open>
  What the absence of blocking hits says of a page: no blocking pattern matches, no dictionary
  value and no usable source name occurs, brackets are balanced, and aliases are distinct.
\<close>

definition clean_page :: "(string \<Rightarrow> (string \<Rightarrow> (nat \<times> nat) list) option) \<Rightarrow> residual_term list
    \<Rightarrow> string list \<Rightarrow> string \<Rightarrow> bool" where
  "clean_page R terms names page \<longleftrightarrow>
     (\<forall>p\<in>set PATTERNS. p_blocking p \<longrightarrow> (\<exists>f. R (p_expression p) = Some f \<and> f page = []))
     \<and> (\<forall>t\<in>set terms. \<forall>v\<in>set (t_primary t # t_variants t). \<not> contains_str page v)
     \<and> (\<forall>n\<in>set names. 3 \<le> length (name_leaf n) \<longrightarrow> length (name_leaf n) \<le> 512 \<longrightarrow>
          \<not> has_control (name_leaf n) \<longrightarrow> \<not> contains_str page (name_leaf n))
     \<and> count_char 0x5B page = count_char 0x5D page \<and> count_char 0x3010 page = count_char 0x3011 page
     \<and> distinct (map t_alias terms)"

definition unblocked :: "hit list \<Rightarrow> bool" where
  "unblocked hits \<longleftrightarrow> (\<forall>h\<in>set hits. \<not> h_blocking h)"

lemma unblocked_mono: "unblocked t \<Longrightarrow> set s \<subseteq> set t \<Longrightarrow> unblocked s"
  by (auto simp: unblocked_def)

lemma contains_matches: "contains_str s p \<Longrightarrow> match_indices s p \<noteq> []"
  by (cases "p = []") (auto simp: contains_iff_match, auto simp: match_indices_def filter_empty_conv)

lemma pushes_unblocked:
  "try_fold (\<lambda>a. push_hit i (l a) (h a) c e True r) xs s = Inr t \<Longrightarrow> unblocked t \<Longrightarrow> xs = []"
  using pushes_leave_hit[of i l h c e True r xs s t] by (auto simp: unblocked_def)

lemma scan_patterns_unblocked:
  assumes "scan_patterns page i compiled s = Inr t" "unblocked t" "(p, f) \<in> set compiled" "p_blocking p"
  shows "f page = []"
proof -
  from try_fold_visits[OF assms(1)[unfolded scan_patterns_def] assms(3)] obtain u v where
    v: "pattern_hits page i (p, f) u = Inr v" "set v \<subseteq> set t" by blast
  then show ?thesis
    using pushes_unblocked[OF _ unblocked_mono[OF assms(2)]] assms(4)
    by (simp add: pattern_hits_def)
qed

lemma value_hits_unblocked:
  assumes "value_hits page i k v s = Inr t" "unblocked t" shows "\<not> contains_str page v"
  using pushes_unblocked[OF assms[unfolded value_hits_def]] contains_matches by blast

lemma scan_dictionary_unblocked:
  assumes "scan_dictionary page i terms s = Inr t" "unblocked t" "m \<in> set terms"
    "v \<in> set (t_primary m # t_variants m)"
  shows "\<not> contains_str page v"
proof -
  from try_fold_visits[OF assms(1)[unfolded scan_dictionary_def] assms(3)] obtain u w where
    w: "term_hits page i m u = Inr w" "set w \<subseteq> set t" by blast
  then have "try_fold (value_hits page i (t_entity m)) (t_primary m # t_variants m) u = Inr w"
    by (simp add: term_hits_def split: if_splits)
  from try_fold_visits[OF this assms(4)] obtain u' w' where
    "value_hits page i (t_entity m) v u' = Inr w'" "set w' \<subseteq> set w" by blast
  then show ?thesis
    using value_hits_unblocked unblocked_mono[OF assms(2)] w(2) by (meson order_trans)
qed

lemma scan_source_names_unblocked:
  assumes "scan_source_names page i names s = Inr t" "unblocked t" "n \<in> set names"
    "3 \<le> length (name_leaf n)" "length (name_leaf n) \<le> 512" "\<not> has_control (name_leaf n)"
  shows "\<not> contains_str page (name_leaf n)"
proof -
  from try_fold_visits[OF assms(1)[unfolded scan_source_names_def] assms(3)] obtain u w where
    w: "name_hits page i n u = Inr w" "set w \<subseteq> set t" by blast
  then have "try_fold (\<lambda>a. push_hit i a (a + length (name_leaf n)) SourceName None True
      ''residual_source_name'') (match_indices page (name_leaf n)) u = Inr w"
    using assms(4-6) by (simp add: name_hits_def Let_def)
  from pushes_unblocked[OF this unblocked_mono[OF assms(2) w(2)]] show ?thesis
    using contains_matches by blast
qed

lemma scan_placeholders_unblocked:
  assumes "scan_placeholders page i terms s = Inr t" "unblocked t"
  shows "count_char 0x5B page = count_char 0x5D page \<and> count_char 0x3010 page = count_char 0x3011 page
    \<and> distinct (map t_alias terms)"
proof -
  from assms(1) obtain u where u: "(if count_char 0x5B page \<noteq> count_char 0x5D page
        \<or> count_char 0x3010 page \<noteq> count_char 0x3011 page
      then push_hit i 0 (min (length page) 1) BrokenPlaceholder None True
        ''placeholder_delimiter_unbalanced'' s else Inr s) = Inr u"
    "(if length (btree_set (map t_alias terms)) \<noteq> length terms
      then push_hit i 0 (min (length page) 1) AliasInconsistency None True
        ''dictionary_alias_not_unique'' u else Inr u) = Inr t"
    by (auto simp: scan_placeholders_def)
  have "length (btree_set (map t_alias terms)) = length terms"
    using u(2) assms(2) push_hit_member[of i 0 "min (length page) 1" AliasInconsistency None True
        "''dictionary_alias_not_unique''" u t]
    by (force simp: unblocked_def split: if_splits)
  then have d: "distinct (map t_alias terms)" "u = t"
    using u(2) by (auto simp: btree_set_length intro: card_distinct)
  then show ?thesis
    using u(1) assms(2) push_hit_member[of i 0 "min (length page) 1" BrokenPlaceholder None True
        "''placeholder_delimiter_unbalanced''" s t]
    by (force simp: unblocked_def split: if_splits)
qed

lemma scan_page_unblocked:
  assumes run: "scan_page compiled terms names (i, page) s = Inr t" and un: "unblocked t"
    and comp: "\<And>p. p \<in> set PATTERNS \<Longrightarrow> \<exists>f. R (p_expression p) = Some f \<and> (p, f) \<in> set compiled"
  shows "clean_page R terms names page"
proof -
  from run obtain h1 h2 h3 h4 where h: "scan_patterns page i compiled s = Inr h1"
    "scan_dictionary page i terms h1 = Inr h2" "scan_source_names page i names h2 = Inr h3"
    "scan_placeholders page i terms h3 = Inr h4" "scan_confusables page i h4 = Inr t"
    by (auto simp: scan_page_def split: if_splits)
  have u4: "unblocked h4" using un growsD[OF grows_scan_confusables h(5)] by (rule unblocked_mono)
  have u3: "unblocked h3" using u4 growsD[OF grows_scan_placeholders h(4)] by (rule unblocked_mono)
  have u2: "unblocked h2" using u3 growsD[OF grows_scan_lists(3) h(3)] by (rule unblocked_mono)
  have u1: "unblocked h1" using u2 growsD[OF grows_scan_lists(2) h(2)] by (rule unblocked_mono)
  have "\<exists>f. R (p_expression p) = Some f \<and> f page = []" if "p \<in> set PATTERNS" "p_blocking p" for p
    using comp[OF that(1)] scan_patterns_unblocked[OF h(1) u1 _ that(2)] by blast
  then show ?thesis
    unfolding clean_page_def
    using scan_dictionary_unblocked[OF h(2) u2] scan_source_names_unblocked[OF h(3) u3]
      scan_placeholders_unblocked[OF h(4) u4] by blast
qed

lemma scan_Inr:
  assumes "scan_independent_residuals R D Q pages terms names = Inr r"
  obtains compiled found where
    "try_map (\<lambda>p. and_then (ok_or (R (p_expression p)) PatternUnavailable) (\<lambda>f. Inr (p, f))) PATTERNS
      = Inr compiled"
    "try_fold (scan_page compiled terms names) (enumerate 0 pages) [] = Inr found"
    "rp_hits r = remdups_adj (sort_key hit_key found)"
    "rp_counts r = count_hits (rp_hits r)" "rp_passed r = list_all (\<lambda>h. \<not> h_blocking h) (rp_hits r)"
    "rp_schema_version r = INDEPENDENT_RESIDUAL_SCAN_VERSION" "rp_page_count r = length pages"
    "pages \<noteq> []" "evidence_hash D Q (report_claims INDEPENDENT_RESIDUAL_SCAN_VERSION (rp_passed r)
       (rp_hits r) (rp_counts r) (rp_page_count r)) = Inr (rp_evidence_hash r)"
  using assms unfolding scan_independent_residuals_def Let_def
  by (auto simp del: try_map.simps split: if_splits)

lemma compiled_patterns:
  assumes "try_map (\<lambda>p. and_then (ok_or (R (p_expression p)) PatternUnavailable) (\<lambda>f. Inr (p, f))) ps
    = Inr compiled" and "p \<in> set ps"
  shows "\<exists>f. R (p_expression p) = Some f \<and> (p, f) \<in> set compiled"
  using assms by (induction ps arbitrary: compiled) auto

lemma scan_records_matches:
  assumes "scan_independent_residuals R D Q pages terms names = Inr r" "p \<in> set PATTERNS"
  shows "\<exists>f. R (p_expression p) = Some f \<and> (\<forall>i < length pages. \<forall>(a, b)\<in>set (f (pages ! i)).
    \<lparr>h_page_index = i, h_start = a, h_end = b, h_class = p_class p, h_entity = p_entity p,
      h_blocking = p_blocking p, h_reason = p_reason p\<rparr> \<in> set (rp_hits r))"
proof -
  from assms(1) obtain compiled found where run:
    "try_map (\<lambda>p. and_then (ok_or (R (p_expression p)) PatternUnavailable) (\<lambda>f. Inr (p, f))) PATTERNS
      = Inr compiled"
    "try_fold (scan_page compiled terms names) (enumerate 0 pages) [] = Inr found"
    "rp_hits r = remdups_adj (sort_key hit_key found)" by (rule scan_Inr)
  from compiled_patterns[OF run(1) assms(2)] obtain f where
    f: "R (p_expression p) = Some f" "(p, f) \<in> set compiled" by blast
  have "\<lparr>h_page_index = i, h_start = fst m, h_end = snd m, h_class = p_class p, h_entity = p_entity p,
      h_blocking = p_blocking p, h_reason = p_reason p\<rparr> \<in> set (rp_hits r)"
    if i: "i < length pages" and m: "m \<in> set (f (pages ! i))" for i m
  proof -
    have "(i, pages ! i) \<in> set (enumerate 0 pages)" using i by (simp add: in_set_enumerate_eq)
    from try_fold_visits[OF run(2) this grows_scan_page] obtain u v where
      v: "scan_page compiled terms names (i, pages ! i) u = Inr v" "set v \<subseteq> set found" by blast
    from v(1) obtain h1 h2 h3 h4 where h: "scan_patterns (pages ! i) i compiled u = Inr h1"
      "scan_dictionary (pages ! i) i terms h1 = Inr h2" "scan_source_names (pages ! i) i names h2 = Inr h3"
      "scan_placeholders (pages ! i) i terms h3 = Inr h4" "scan_confusables (pages ! i) i h4 = Inr v"
      by (auto simp: scan_page_def split: if_splits)
    have sub: "set h1 \<subseteq> set v"
      using growsD[OF grows_scan_lists(2) h(2)] growsD[OF grows_scan_lists(3) h(3)]
        growsD[OF grows_scan_placeholders h(4)] growsD[OF grows_scan_confusables h(5)] by blast
    from try_fold_visits[OF h(1)[unfolded scan_patterns_def] f(2)] obtain u' v' where
      v': "pattern_hits (pages ! i) i (p, f) u' = Inr v'" "set v' \<subseteq> set h1" by blast
    from try_fold_visits[OF v'(1)[unfolded pattern_hits_def], of m] m obtain x y where
      "push_hit i (fst m) (snd m) (p_class p) (p_entity p) (p_blocking p) (p_reason p) x = Inr y"
      "set y \<subseteq> set v'" by (auto intro: grows_push_hit)
    with push_hit_member[OF this(1)] v'(2) sub v(2) show ?thesis
      by (simp add: run(3)) blast
  qed
  with f(1) show ?thesis by (intro exI[of _ f]) (simp add: case_prod_beta)
qed

lemma report_hits_set:
  "rp_hits r = remdups_adj (sort_key hit_key found) \<Longrightarrow> set (rp_hits r) = set found"
  by simp

text \<open>Every recorded hit is a proper range of an existing page with a known reason.\<close>

definition hit_ok :: "nat \<Rightarrow> hit \<Rightarrow> bool" where
  "hit_ok n h \<longleftrightarrow> h_start h < h_end h \<and> h_page_index h < n \<and> h_reason h \<noteq> []
     \<and> length (h_reason h) \<le> 128 \<and> \<not> has_control (h_reason h)"

definition reason_ok :: "string \<Rightarrow> bool" where
  "reason_ok s \<longleftrightarrow> s \<noteq> [] \<and> length s \<le> 128 \<and> \<not> has_control s"

definition hits_ok :: "nat \<Rightarrow> hit list \<Rightarrow> bool" where
  "hits_ok n hits \<longleftrightarrow> length hits \<le> MAX_RESIDUAL_HITS \<and> list_all (hit_ok n) hits"

lemma push_hit_ok:
  "push_hit i a b c e bl r s = Inr t \<Longrightarrow> i < n \<Longrightarrow> reason_ok r \<Longrightarrow> hits_ok n s \<Longrightarrow> hits_ok n t"
  by (auto simp: push_hit_def hits_ok_def hit_ok_def reason_ok_def split: if_splits)

lemma pushes_ok:
  assumes "try_fold (\<lambda>a. push_hit i (l a) (h a) c e bl r) xs s = Inr t" "i < n" "reason_ok r" "hits_ok n s"
  shows "hits_ok n t"
  using assms(1,4) by (rule try_fold_inv) (rule push_hit_ok[OF _ assms(2,3)])

lemma chars_plain: "list_all (\<lambda>c. byte c < 0x80) s \<Longrightarrow> has_control s = list_ex (is_control \<circ> byte) s"
  by (simp add: has_control_def chars_ascii list_ex_iff)

lemma scanner_reasons [simp]:
  "reason_ok ''residual_dictionary_subject''" "reason_ok ''residual_source_name''"
  "reason_ok ''placeholder_delimiter_unbalanced''" "reason_ok ''dictionary_alias_not_unique''"
  "reason_ok ''ocr_confusable_requires_review''"
  by (simp_all add: reason_ok_def chars_plain is_control_def)

lemma pattern_reasons: "p \<in> set PATTERNS \<Longrightarrow> reason_ok (p_reason p)"
  by (auto simp: PATTERNS_def reason_ok_def chars_plain is_control_def)

lemma scan_page_ok:
  assumes "scan_page compiled terms names (i, page) s = Inr t" "i < n" "hits_ok n s"
    and "\<And>p f. (p, f) \<in> set compiled \<Longrightarrow> reason_ok (p_reason p)"
  shows "hits_ok n t"
proof -
  from assms(1) obtain h1 h2 h3 h4 where h: "scan_patterns page i compiled s = Inr h1"
    "scan_dictionary page i terms h1 = Inr h2" "scan_source_names page i names h2 = Inr h3"
    "scan_placeholders page i terms h3 = Inr h4" "scan_confusables page i h4 = Inr t"
    by (auto simp: scan_page_def split: if_splits)
  have h1: "hits_ok n h1"
    using h(1)[unfolded scan_patterns_def] assms(3)
  proof (rule try_fold_inv)
    fix e u v assume e: "e \<in> set compiled" "hits_ok n u" "pattern_hits page i e u = Inr v"
    then show "hits_ok n v"
      using assms(4)[of "fst e" "snd e"] by (intro pushes_ok[OF e(3)[unfolded pattern_hits_def] assms(2)]) auto
  qed
  have vh: "hits_ok n v" if "value_hits page i k w u = Inr v" "hits_ok n u" for k w u v
    by (rule pushes_ok[OF that(1)[unfolded value_hits_def] assms(2) _ that(2)]) simp
  have h2: "hits_ok n h2"
    using h(2)[unfolded scan_dictionary_def] h1
  proof (rule try_fold_inv)
    fix m u v assume "hits_ok n u" "term_hits page i m u = Inr v"
    then show "hits_ok n v"
      by (auto simp: term_hits_def simp del: try_fold.simps split: if_splits
        elim!: try_fold_inv intro: vh)
  qed
  have h3: "hits_ok n h3"
    using h(3)[unfolded scan_source_names_def] h2
  proof (rule try_fold_inv)
    fix m u v assume "hits_ok n u" "name_hits page i m u = Inr v"
    then show "hits_ok n v"
      by (auto simp: name_hits_def Let_def split: if_splits intro: pushes_ok[OF _ assms(2)])
  qed
  have h4: "hits_ok n h4"
    using h(4) h3 by (auto simp: scan_placeholders_def split: if_splits
      intro: push_hit_ok[OF _ assms(2)] push_hit_ok[OF _ assms(2) _ push_hit_ok[OF _ assms(2)]])
  show ?thesis
    using h(5)[unfolded scan_confusables_def] h4
    by (rule try_fold_inv) (auto split: if_splits prod.splits intro: push_hit_ok[OF _ assms(2)])
qed

lemma scan_hits_ok:
  assumes "scan_independent_residuals R D Q pages terms names = Inr r"
  shows "hits_ok (length pages) (rp_hits r)"
proof -
  from assms obtain compiled found where run:
    "try_map (\<lambda>p. and_then (ok_or (R (p_expression p)) PatternUnavailable) (\<lambda>f. Inr (p, f))) PATTERNS
      = Inr compiled"
    "try_fold (scan_page compiled terms names) (enumerate 0 pages) [] = Inr found"
    "rp_hits r = remdups_adj (sort_key hit_key found)"
    by (rule scan_Inr)
  have reason: "reason_ok (p_reason p)" if "(p, f) \<in> set compiled" for p f
    using try_map_member[OF run(1) that] by (auto intro: pattern_reasons)
  have "hits_ok (length pages) found"
    using run(2)
  proof (rule try_fold_inv)
    show "hits_ok (length pages) []" by (simp add: hits_ok_def)
    fix e u v assume e: "e \<in> set (enumerate 0 pages)" "hits_ok (length pages) u"
      "scan_page compiled terms names e u = Inr v"
    then have "fst e < length pages" by (simp add: in_set_enumerate_eq)
    with e(2,3) reason show "hits_ok (length pages) v"
      using scan_page_ok[of compiled terms names "fst e" "snd e" u v] by simp
  qed
  moreover have "length (rp_hits r) \<le> length found"
    by (simp add: run(3)) (metis length_sort remdups_adj_length)
  ultimately show ?thesis by (auto simp: hits_ok_def list_all_iff run(3))
qed

lemma fold_count_hits:
  assumes "\<And>c. unat (count_of m c) + length hits < 2 ^ 32"
  shows "om_get (fold bump_count hits m) c =
    (let k = length (filter (\<lambda>h. h_class h = c) hits) in
     if k = 0 then om_get m c else Some (count_of m c + of_nat k))"
  using assms
proof (induction hits arbitrary: m)
  case (Cons h hits)
  let ?n = "count_of m (h_class h)"
  have bound: "unat ?n + Suc (length hits) < 2 ^ 32" using Cons.prems[of "h_class h"] by simp
  have "(- 1 :: u32) = 4294967295" by simp
  then have "unat (- 1 :: u32) = 4294967295" by (simp only:) simp
  with bound have n: "?n \<noteq> - 1" by force
  then have un: "unat (?n + 1) = Suc (unat ?n)" using n by (metis add.commute unatSuc add_eq_0_iff)
  have m': "bump_count h m = om_put (h_class h) (?n + 1) m" using n by (simp add: bump_count_def Let_def)
  have cnt: "count_of (bump_count h m) d = (if d = h_class h then ?n + 1 else count_of m d)" for d
    by (simp add: m' count_of_def)
  have "om_get (fold bump_count hits (bump_count h m)) c =
    (let k = length (filter (\<lambda>h. h_class h = c) hits) in
     if k = 0 then om_get (bump_count h m) c else Some (count_of (bump_count h m) c + of_nat k))"
  proof (rule Cons.IH)
    show "unat (count_of (bump_count h m) d) + length hits < 2 ^ 32" for d
      using bound Cons.prems[of d] by (auto simp: cnt un)
  qed
  then show ?case by (auto simp: cnt Let_def m' count_of_def ac_simps)
qed (auto simp: Let_def)

lemma count_hits_get:
  assumes "length hits \<le> MAX_RESIDUAL_HITS"
  shows "om_get (count_hits hits) c =
    (let k = length (filter (\<lambda>h. h_class h = c) hits) in if k = 0 then None else Some (of_nat k))"
  using fold_count_hits[of "[]" hits c] assms
  by (simp add: count_hits_def MAX_RESIDUAL_HITS_def count_of_def Let_def)

lemma sorted_key_remdups_adj: "sorted (map f xs) \<Longrightarrow> sorted (map f (remdups_adj xs))"
  by (induction xs rule: remdups_adj.induct) auto

lemma evidence_hash_ok:
  assumes "digest32 D" "json_clean claims" shows "\<exists>h. evidence_hash D Q claims = Inr h"
proof -
  obtain t where "write_canonical Q claims = Inr t" using assms(2) canonical_total_iff by blast
  then show ?thesis
    using assms(1) by (simp add: evidence_hash_def canonical_json_v1_def Let_def valid_sha256_def
      sha256_hex_length)
qed

section \<open>A quiet page\<close>

text \<open>
  The other direction: a page on which no expression matches, that contains no term, no usable
  source name and no confusable character, and whose brackets and aliases are in order, is scanned
  without a hit.
\<close>

definition usable_term :: "residual_term \<Rightarrow> bool" where
  "usable_term m \<longleftrightarrow> str_trim (t_primary m) \<noteq> [] \<and> length (t_primary m) \<le> 512
     \<and> length (t_variants m) \<le> 32 \<and> str_trim (t_alias m) \<noteq> [] \<and> [] \<notin> set (t_primary m # t_variants m)"

definition confusable :: "nat \<Rightarrow> bool" where
  "confusable c \<longleftrightarrow> (0xFF10 \<le> c \<and> c \<le> 0xFF19) \<or> c = 0xFF38 \<or> c = 0xFF58"

definition quiet_page :: "(string \<Rightarrow> (string \<Rightarrow> (nat \<times> nat) list) option) \<Rightarrow> residual_term list
    \<Rightarrow> string list \<Rightarrow> string \<Rightarrow> bool" where
  "quiet_page R terms names page \<longleftrightarrow>
     (\<forall>p\<in>set PATTERNS. \<exists>f. R (p_expression p) = Some f \<and> f page = [])
     \<and> clean_page R terms names page \<and> \<not> list_ex confusable (chars page)"

lemma try_fold_id: "(\<And>x. x \<in> set xs \<Longrightarrow> f x s = Inr s) \<Longrightarrow> try_fold f xs s = Inr s"
  by (induction xs) auto

lemma no_matches: "p \<noteq> [] \<Longrightarrow> \<not> contains_str s p \<Longrightarrow> match_indices s p = []"
  using contains_iff_match by blast

lemma compile_all:
  assumes "\<And>p. p \<in> set ps \<Longrightarrow> \<exists>f. R (p_expression p) = Some f \<and> f page = []"
  shows "\<exists>compiled. try_map (\<lambda>p. and_then (ok_or (R (p_expression p)) PatternUnavailable) (\<lambda>f. Inr (p, f))) ps
    = Inr compiled \<and> (\<forall>e\<in>set compiled. snd e page = [])"
  using assms by (induction ps) force+

lemma indices_chars: "(a, c) \<in> set (indices_from i cs) \<Longrightarrow> c \<in> set cs"
  by (induction i cs rule: indices_from.induct) auto

lemma scan_page_quiet:
  assumes "quiet_page R terms names page" "list_all usable_term terms" "i < 2 ^ 32"
    and "\<forall>e\<in>set compiled. snd e page = []"
  shows "scan_page compiled terms names (i, page) s = Inr s"
proof -
  have clean: "\<And>m v. m \<in> set terms \<Longrightarrow> v \<in> set (t_primary m # t_variants m) \<Longrightarrow> \<not> contains_str page v"
    "\<And>n. n \<in> set names \<Longrightarrow> 3 \<le> length (name_leaf n) \<Longrightarrow> length (name_leaf n) \<le> 512 \<Longrightarrow>
      \<not> has_control (name_leaf n) \<Longrightarrow> \<not> contains_str page (name_leaf n)"
    "count_char 0x5B page = count_char 0x5D page" "count_char 0x3010 page = count_char 0x3011 page"
    "distinct (map t_alias terms)"
    using assms(1) unfolding quiet_page_def clean_page_def by blast+
  have "scan_patterns page i compiled s = Inr s"
    unfolding scan_patterns_def pattern_hits_def using assms(4) by (intro try_fold_id) auto
  moreover have "scan_dictionary page i terms s = Inr s"
    unfolding scan_dictionary_def
  proof (rule try_fold_id)
    fix m assume m: "m \<in> set terms"
    have "value_hits page i (t_entity m) v s = Inr s" if "v \<in> set (t_primary m # t_variants m)" for v
      using clean(1)[OF m that] no_matches[of v page] by (cases "v = []") (auto simp: value_hits_def)
    then have "try_fold (value_hits page i (t_entity m)) (t_primary m # t_variants m) s = Inr s"
      by (rule try_fold_id)
    then show "term_hits page i m s = Inr s"
      using assms(2) m by (auto simp: term_hits_def list_all_iff usable_term_def simp del: try_fold.simps)
  qed
  moreover have "scan_source_names page i names s = Inr s"
    unfolding scan_source_names_def
  proof (rule try_fold_id)
    fix n assume n: "n \<in> set names"
    show "name_hits page i n s = Inr s"
      using clean(2)[OF n] no_matches[of "name_leaf n" page]
      by (cases "name_leaf n = []") (auto simp: name_hits_def Let_def not_less)
  qed
  moreover have "scan_placeholders page i terms s = Inr s"
    using clean(3,4) distinct_card[OF clean(5)] by (simp add: scan_placeholders_def btree_set_length)
  moreover have "scan_confusables page i s = Inr s"
    unfolding scan_confusables_def
  proof (rule try_fold_id)
    fix e assume "e \<in> set (char_indices page)"
    then have "\<not> confusable (snd e)"
      using assms(1) indices_chars[of "fst e" "snd e" 0 "chars page"]
      by (auto simp: quiet_page_def list_ex_iff char_indices_def)
    then show "(case e of (a, c) \<Rightarrow> \<lambda>hits.
        if (0xFF10 \<le> c \<and> c \<le> 0xFF19) \<or> c = 0xFF38 \<or> c = 0xFF58
        then push_hit i a (a + length (encode_scalar c)) OcrConfusable None False
          ''ocr_confusable_requires_review'' hits
        else Inr hits) s = Inr s"
      by (auto simp: confusable_def case_prod_beta)
  qed
  ultimately show ?thesis using assms(3) by (simp add: scan_page_def)
qed

lemma scan_quiet:
  assumes "quiet_page R terms names page" "list_all usable_term terms" "digest32 D"
    and "length terms \<le> 4096" "length names \<le> 256"
  shows "\<exists>r. scan_independent_residuals R D Q [page] terms names = Inr r \<and> rp_hits r = [] \<and> rp_passed r"
proof -
  have "\<And>p. p \<in> set PATTERNS \<Longrightarrow> \<exists>f. R (p_expression p) = Some f \<and> f page = []"
    using assms(1) by (simp add: quiet_page_def)
  from compile_all[of PATTERNS R page, OF this] obtain compiled where c:
    "try_map (\<lambda>p. and_then (ok_or (R (p_expression p)) PatternUnavailable) (\<lambda>f. Inr (p, f))) PATTERNS
      = Inr compiled" "\<forall>e\<in>set compiled. snd e page = []" by blast
  have pg: "scan_page compiled terms names (0, page) [] = Inr []"
    by (rule scan_page_quiet[OF assms(1,2) _ c(2)]) simp
  have "\<exists>h. evidence_hash D Q (report_claims INDEPENDENT_RESIDUAL_SCAN_VERSION True [] [] 1) = Inr h"
    by (rule evidence_hash_ok[OF assms(3)])
      (simp add: report_claims_def chars_plain is_control_def INDEPENDENT_RESIDUAL_SCAN_VERSION_def)
  then show ?thesis
    using assms(4,5) pg c(1) by (auto simp: scan_independent_residuals_def count_hits_def)
qed

section \<open>A sample scan\<close>

text \<open>A digest of 32 bytes, and expressions none of which matches, for the concrete inputs.\<close>

definition sample_digest :: "string \<Rightarrow> string" where
  "sample_digest x = replicate 32 (char_of (length x mod 256))"

definition no_match :: "string \<Rightarrow> (string \<Rightarrow> (nat \<times> nat) list) option" where
  "no_match e = Some (\<lambda>_. [])"

definition sample_term :: residual_term where
  "sample_term = \<lparr>t_entity = PersonName, t_primary = ''Li'', t_variants = [''Li Si''], t_alias = ''[PERSON_a]''\<rparr>"

definition sample_scan :: "residual_error + report" where
  "sample_scan = scan_independent_residuals no_match sample_digest json_quote [''To [PERSON_a].'']
     [sample_term] [''C:/files/note'']"

lemma sample_digest32 [simp]: "digest32 sample_digest"
  by (simp add: digest32_def sample_digest_def)

lemma str_trim_plain:
  assumes "list_all (\<lambda>c. byte c < 0x80) s" "s \<noteq> []" "\<not> is_whitespace (byte (hd s))"
    "\<not> is_whitespace (byte (last s))"
  shows "str_trim s = s"
proof -
  have "dropWhile is_whitespace xs = xs" if "xs \<noteq> []" "\<not> is_whitespace (hd xs)" for xs
    using that by (cases xs) auto
  then have "str_trim s = utf8 (map byte s)"
    using assms by (simp add: str_trim_def str_trim_matches_def chars_ascii hd_map hd_rev last_map)
  also have "\<dots> = s" using assms(1) by (induction s) (auto simp: encode_scalar_def)
  finally show ?thesis .
qed

lemma sample_trims: "str_trim ''Li'' = ''Li''" "str_trim ''[PERSON_a]'' = ''[PERSON_a]''"
  by (simp_all add: str_trim_plain is_whitespace_def)

lemma sample_scan_passes: "\<exists>r. sample_scan = Inr r \<and> rp_hits r = [] \<and> rp_passed r"
  unfolding sample_scan_def
proof (rule scan_quiet)
  have "name_leaf ''C:/files/note'' = ''note''" by code_simp
  then show "quiet_page no_match [sample_term] [''C:/files/note''] ''To [PERSON_a].''"
    by (simp add: quiet_page_def clean_page_def no_match_def sample_term_def count_char_def chars_def
      confusable_def sublist_Cons_right)
  show "list_all usable_term [sample_term]" by (simp add: usable_term_def sample_term_def sample_trims)
qed simp_all

section \<open>Properties\<close>

text \<open>
  C12: a scan that passes has seen every page clean. When the report says passed, no page contains
  a dictionary value, a variant of one or a usable source name, no blocking pattern matches it, its
  placeholder brackets are balanced, and the aliases of the dictionary are distinct.
\<close>

theorem residual_pass_sound:
  assumes "scan_independent_residuals R D Q pages terms names = Inr r"
    and "rp_passed r" and "page \<in> set pages"
  shows "clean_page R terms names page"
proof -
  from assms(1) obtain compiled found where run:
    "try_map (\<lambda>p. and_then (ok_or (R (p_expression p)) PatternUnavailable) (\<lambda>f. Inr (p, f))) PATTERNS
      = Inr compiled"
    "try_fold (scan_page compiled terms names) (enumerate 0 pages) [] = Inr found"
    "rp_hits r = remdups_adj (sort_key hit_key found)"
    "rp_passed r = list_all (\<lambda>h. \<not> h_blocking h) (rp_hits r)"
    by (rule scan_Inr)
  have un: "unblocked found"
    using assms(2) by (simp add: run(3,4) unblocked_def list_all_iff)
  from assms(3) obtain i where "i < length pages" "pages ! i = page" by (auto simp: in_set_conv_nth)
  then have "(i, page) \<in> set (enumerate 0 pages)" by (simp add: in_set_enumerate_eq)
  from try_fold_visits[OF run(2) this grows_scan_page] obtain u v where
    v: "scan_page compiled terms names (i, page) u = Inr v" "set v \<subseteq> set found" by blast
  show ?thesis
    by (rule scan_page_unblocked[OF v(1) unblocked_mono[OF un v(2)]]) (rule compiled_patterns[OF run(1)])
qed

theorem residual_pass_sound_witness:
  "\<exists>r. sample_scan = Inr r \<and> clean_page no_match [sample_term] [''C:/files/note''] ''To [PERSON_a].''"
proof -
  obtain r where r: "sample_scan = Inr r" "rp_passed r"
    using sample_scan_passes by blast
  have "clean_page no_match [sample_term] [''C:/files/note''] ''To [PERSON_a].''"
    by (rule residual_pass_sound[OF r(1)[unfolded sample_scan_def] r(2)]) simp
  with r(1) show ?thesis by (intro exI conjI)
qed

text \<open>
  C32: a report proves itself. Every report the scanner returns passes its own validation; its hits
  are in order, and its counts are the numbers of hits per class, without saturating.
\<close>

theorem residual_report_validates:
  assumes "scan_independent_residuals R D Q pages terms names = Inr r"
  shows "report_validate D Q r = Inr () \<and> sorted (map hit_key (rp_hits r))
    \<and> (\<forall>c. om_get (rp_counts r) c =
        (let k = length (filter (\<lambda>h. h_class h = c) (rp_hits r)) in
         if k = 0 then None else Some (of_nat k)))"
proof -
  from assms obtain compiled found where run:
    "rp_hits r = remdups_adj (sort_key hit_key found)"
    "rp_counts r = count_hits (rp_hits r)" "rp_passed r = list_all (\<lambda>h. \<not> h_blocking h) (rp_hits r)"
    "rp_schema_version r = INDEPENDENT_RESIDUAL_SCAN_VERSION" "rp_page_count r = length pages"
    "pages \<noteq> []" "evidence_hash D Q (report_claims INDEPENDENT_RESIDUAL_SCAN_VERSION (rp_passed r)
       (rp_hits r) (rp_counts r) (rp_page_count r)) = Inr (rp_evidence_hash r)"
    by (rule scan_Inr)
  have ok: "hits_ok (length pages) (rp_hits r)" using assms by (rule scan_hits_ok)
  have "list_all (hit_ok (length pages)) (rp_hits r)" using ok by (simp add: hits_ok_def)
  then have "\<not> list_ex (\<lambda>h. h_end h \<le> h_start h \<or> rp_page_count r \<le> h_page_index h \<or> h_reason h = []
      \<or> 128 < length (h_reason h) \<or> has_control (h_reason h)) (rp_hits r)"
    unfolding list_ex_iff list_all_iff by (auto simp: hit_ok_def run(5))
  then have "report_validate D Q r = Inr ()"
    using ok run(2-7) by (simp add: report_validate_def hits_ok_def)
  moreover have "sorted (map hit_key (rp_hits r))"
    unfolding run(1) by (rule sorted_key_remdups_adj) simp
  ultimately show ?thesis using count_hits_get ok by (simp add: run(2) hits_ok_def)
qed

theorem residual_report_validates_witness:
  "\<exists>r. sample_scan = Inr r \<and> report_validate sample_digest json_quote r = Inr ()"
proof -
  obtain r where r: "sample_scan = Inr r"
    using sample_scan_passes by blast
  have "report_validate sample_digest json_quote r = Inr ()"
    by (rule conjunct1[OF residual_report_validates[OF r[unfolded sample_scan_def]]])
  with r show ?thesis by (intro exI conjI)
qed

end
