(* ===== verification/Publication.thy ===== *)
theory Publication imports Replacement Residual begin

text \<open>
  The publication boundary of a redacted text (\<open>privacy-text/src/lib.rs\<close>): what a persisted
  result must satisfy before it is read or exported. The regular expressions of the bridge are
  compiled by the \<open>regex\<close> crate, given by an engine: \<open>find\_iter\<close> and \<open>captures\_iter\<close> of an
  expression, the digest, and the JSON string literal.
\<close>

section \<open>The engine\<close>

text \<open>
  \<open>en\_captures e\<close> yields the matches of \<open>e\<close>, each a function from a group name to its range; the
  whole match is group \<open>0\<close>.
\<close>

record engine =
  en_find :: "string \<Rightarrow> (string \<Rightarrow> (nat \<times> nat) list) option"
  en_captures :: "string \<Rightarrow> (string \<Rightarrow> (string \<Rightarrow> (nat \<times> nat) option) list) option"
  en_digest :: "string \<Rightarrow> string"
  en_quote :: "string \<Rightarrow> string"

definition MAX_TEXT_BYTES :: nat where "MAX_TEXT_BYTES = 2 * 1024 * 1024"

definition CREDENTIAL_ASSIGNMENT_PATTERN :: string where
  "CREDENTIAL_ASSIGNMENT_PATTERN =
     ''(?i)(?:'' @ backslash @ ''b(?:api[_-]?key|access[_-]?key|secret(?:[_-]?key)?|auth(?:entication)?[_-]?token|(?:access|refresh|id)?[_-]?token|password|passwd|pwd)''
     @ backslash @ ''b|'' @ utf8 [0x5BC6, 0x94A5, 0x7C, 0x4EE4, 0x724C, 0x7C, 0x53E3, 0x4EE4, 0x7C, 0x5BC6, 0x7801] @ '')'' @ backslash @ ''s*[:=]'' @ backslash
     @ ''s*(?P<value>[^'' @ backslash @ ''s,;'' @ utf8 [0xFF0C, 0xFF1B, 0x3002] @ '']+)''"

definition STRUCTURED_OPAQUE_IDENTIFIER_PATTERN :: string where
  "STRUCTURED_OPAQUE_IDENTIFIER_PATTERN =
     ''[A-Z]{2,12}(?:-[A-Z]{2,12})?-'' @ backslash @ ''d+(?:[-.]'' @ backslash @ ''d+)*''"

section \<open>Regular-expression helpers\<close>

definition credential_assignment_matches :: "engine \<Rightarrow> string \<Rightarrow> (nat \<times> nat) list option" where
  "credential_assignment_matches E text =
     map_option (\<lambda>captures_iter. List.map_filter (\<lambda>captures.
         case (captures ''0'', captures ''value'') of
           (Some full, Some (a, b)) \<Rightarrow>
             if is_alias_placeholder (take (b - a) (drop a text)) then None else Some full
         | _ \<Rightarrow> None) (captures_iter text))
       (en_captures E CREDENTIAL_ASSIGNMENT_PATTERN)"

definition has_credential_residual :: "engine \<Rightarrow> string \<Rightarrow> bool" where
  "has_credential_residual E text =
     (case credential_assignment_matches E text of None \<Rightarrow> True | Some ms \<Rightarrow> ms \<noteq> [])"

definition code_alnum :: "nat \<Rightarrow> bool" where
  "code_alnum c \<longleftrightarrow> (48 \<le> c \<and> c \<le> 57) \<or> (65 \<le> c \<and> c \<le> 90) \<or> (97 \<le> c \<and> c \<le> 122)"

definition structured_identifier_has_boundaries :: "string \<Rightarrow> nat \<Rightarrow> nat \<Rightarrow> bool" where
  "structured_identifier_has_boundaries text start stop =
     ((case Option.bind (str_get text 0 start) (\<lambda>p. if p = [] then None else Some (last (chars p))) of
         None \<Rightarrow> True | Some c \<Rightarrow> \<not> code_alnum c \<and> c \<noteq> 0x5F \<and> c \<noteq> 0x5B)
      \<and> (case Option.bind (str_from text stop) (\<lambda>q. if q = [] then None else Some (hd (chars q))) of
         None \<Rightarrow> True | Some c \<Rightarrow> \<not> code_alnum c \<and> c \<noteq> 0x5F \<and> c \<noteq> 0x5D))"

definition structured_opaque_identifier_matches :: "engine \<Rightarrow> string \<Rightarrow> (nat \<times> nat) list option" where
  "structured_opaque_identifier_matches E text =
     map_option (\<lambda>find_iter.
         filter (\<lambda>(a, b). structured_identifier_has_boundaries text a b) (find_iter text))
       (en_find E STRUCTURED_OPAQUE_IDENTIFIER_PATTERN)"

section \<open>Dates that look like digit runs\<close>

definition is_iso_date :: "string \<Rightarrow> bool" where
  "is_iso_date v \<longleftrightarrow>
     length v = 10 \<and> v ! 4 = CHR ''-'' \<and> v ! 7 = CHR ''-''
     \<and> list_all is_ascii_digit (take 4 v @ take 2 (drop 5 v) @ drop 8 v)
     \<and> (let month = (byte (v ! 5) - 48) * 10 + (byte (v ! 6) - 48);
            day = (byte (v ! 8) - 48) * 10 + (byte (v ! 9) - 48)
        in 1 \<le> month \<and> month \<le> 12 \<and> 1 \<le> day \<and> day \<le> 31)"

definition ignorable_residual_hit :: "string list \<Rightarrow> hit \<Rightarrow> bool" where
  "ignorable_residual_hit pages h \<longleftrightarrow>
     h_class h = LongDigitSequence \<and> h_page_index h < length pages
     \<and> (case str_get (pages ! h_page_index h) (h_start h) (h_end h) of
          None \<Rightarrow> False
        | Some v \<Rightarrow> is_iso_date (str_trim_matches (\<lambda>c. \<not> (48 \<le> c \<and> c \<le> 57) \<and> c \<noteq> 0x2D) v))"

section \<open>Persisted findings\<close>

definition validate_finding :: "finding \<Rightarrow> text_error + unit" where
  "validate_finding f = and_then (parse_entity_kind (f_kind f)) (\<lambda>kind.
     if \<not> valid_finding_id (f_id f) \<or> \<not> safe_term (f_text f) \<or> f_source f = []
        \<or> 128 < length (f_source f) \<or> has_control (f_source f)
        \<or> (case f_alias f of None \<Rightarrow> False | Some a \<Rightarrow> \<not> is_ok (validate_alias a))
        \<or> (f_dismissed f
           \<and> (\<not> f_resolved f
              \<or> \<not> ((f_source f = ''local_ner''
                    \<and> (kind = PersonName \<or> kind = OrganizationName \<or> kind = Address))
                  \<or> (f_source f = ''ai'' \<and> kind = Custom))))
     then Inl InvalidInput else Inr ())"

fun collect_terms :: "string \<Rightarrow> finding list \<Rightarrow> (string, entity_type \<times> string) omap
    \<Rightarrow> text_error + (string, entity_type \<times> string) omap" where
  "collect_terms text [] terms = Inr terms"
| "collect_terms text (f # fs) terms =
     and_then (validate_finding f) (\<lambda>_.
       if \<not> f_resolved f then Inl ResultNeedsReview
       else if f_dismissed f then collect_terms text fs terms
       else if contains_str text (f_text f) then Inl ResidualRisk
       else and_then (parse_entity_kind (f_kind f)) (\<lambda>kind.
         and_then (ok_or (f_alias f) ResultNeedsReview) (\<lambda>alias.
           case om_get terms (f_text f) of
             Some (k, a) \<Rightarrow>
               if k \<noteq> kind \<or> a \<noteq> alias then Inl ResidualRisk else collect_terms text fs terms
           | None \<Rightarrow> collect_terms text fs (om_put (f_text f) (kind, alias) terms))))"

definition residual_terms :: "(string, entity_type \<times> string) omap \<Rightarrow> residual_term list" where
  "residual_terms terms =
     map (\<lambda>((kind, alias), values).
         \<lparr>t_entity = kind, t_primary = hd values, t_variants = tl values, t_alias = alias\<rparr>)
       (fold (\<lambda>(value, key) m. om_push key value m) terms [])"

definition blocking_residual :: "engine \<Rightarrow> string \<Rightarrow> report \<Rightarrow> bool" where
  "blocking_residual E text r \<longleftrightarrow>
     list_ex (\<lambda>h. h_blocking h \<and> \<not> ignorable_residual_hit [text] h) (rp_hits r)
     \<or> has_credential_residual E text"

definition scan_text :: "engine \<Rightarrow> string \<Rightarrow> residual_term list \<Rightarrow> text_error + unit" where
  "scan_text E text terms =
     and_then (map_err (\<lambda>_. AnalysisFailed)
       (scan_independent_residuals (en_find E) (en_digest E) (en_quote E) [text] terms []))
     (\<lambda>r. if \<not> blocking_residual E text r then Inr () else Inl ResidualRisk)"

definition validate_result :: "engine \<Rightarrow> string \<Rightarrow> finding list \<Rightarrow> text_error + unit" where
  "validate_result E text findings =
     (if MAX_TEXT_BYTES < length text \<or> CHR 0x00 \<in> set text then Inl InvalidInput
      else if MAX_FINDINGS < length findings then Inl TooManyFindings
      else and_then (collect_terms text findings []) (\<lambda>terms. scan_text E text (residual_terms terms)))"

definition validate_analysis :: "engine \<Rightarrow> analysis \<Rightarrow> text_error + unit" where
  "validate_analysis E a =
     (if \<not> valid_sha256 (a_output_sha256 a) \<or> \<not> valid_sha256 (a_source_sha256 a)
         \<or> sha256_hex (en_digest E) (a_text a) \<noteq> a_output_sha256 a
      then Inl EvidenceVerificationFailed
      else and_then (verify_output_replacement_evidence (a_text a) (a_findings a) (a_replacements a)) (\<lambda>_.
        validate_result E (a_text a) (a_findings a)))"

section \<open>Export\<close>

definition validate_document_text :: "string \<Rightarrow> text_error + unit" where
  "validate_document_text text =
     (if MAX_TEXT_BYTES < length text \<or> CHR 0x00 \<in> set text \<or> CHR 0x0D \<in> set text then Inl InvalidInput
      else if list_ex (\<lambda>c. is_control c \<and> c \<noteq> 0x0A \<and> c \<noteq> 0x09) (chars text) then Inl InvalidInput
      else Inr ())"

definition validate_export_text :: "engine \<Rightarrow> string \<Rightarrow> text_error + unit" where
  "validate_export_text E text = and_then (validate_document_text text) (\<lambda>_. scan_text E text [])"

definition escape_xml_into :: "string \<Rightarrow> string" where
  "escape_xml_into v = utf8 (concat (map (\<lambda>c.
     if c = 0x26 then map byte ''&amp;'' else if c = 0x3C then map byte ''&lt;''
     else if c = 0x3E then map byte ''&gt;'' else if c = 0x27 then map byte ''&apos;''
     else if c = 0x22 then map byte ''&quot;'' else [c]) (chars v)))"

text \<open>The paragraph of a rebuilt document: one run, a text element per line, a break between lines.\<close>

fun docx_runs :: "string list \<Rightarrow> string" where
  "docx_runs [] = []"
| "docx_runs (fragment # rest) =
     (if fragment = [] then []
      else ''<w:t xml:space='' @ quote_char @ ''preserve'' @ quote_char @ ''>''
        @ escape_xml_into fragment @ ''</w:t>'')
     @ (if rest = [] then [] else ''<w:br/>'') @ docx_runs rest"

definition docx_body :: "string \<Rightarrow> string" where
  "docx_body text = ''<w:p><w:r>'' @ docx_runs (str_split CHR 0x0A text) @ ''</w:r></w:p>''"

text \<open>
  \<open>package\<close> is the archive writer applied to the document body (it fails as a whole) and \<open>extract\<close>
  the plain-text extractor of \<open>file-ingest\<close>; \<open>format\<close> is trimmed and lower-cased by the code.
\<close>

definition ascii_lowercase :: "string \<Rightarrow> string" where
  "ascii_lowercase s = map (\<lambda>b. if is_ascii_upper b then char_of (byte b + 32) else b) s"

definition export_document :: "engine \<Rightarrow> (string \<Rightarrow> string option) \<Rightarrow> (string \<Rightarrow> string option) \<Rightarrow> string
    \<Rightarrow> string \<Rightarrow> bool \<Rightarrow> text_error + string" where
  "export_document E package extract text format redacted =
     (let f = ascii_lowercase (str_trim format) in
      if f = ''txt'' \<or> f = ''text'' \<or> f = ''md'' \<or> f = ''markdown'' then Inr text
      else if f = ''docx'' then
        and_then (ok_or (package (docx_body text)) ExportVerificationFailed) (\<lambda>bytes.
        and_then (ok_or (extract bytes) ExportVerificationFailed) (\<lambda>extracted.
          if extracted \<noteq> text then Inl ExportVerificationFailed
          else and_then (if redacted then validate_export_text E extracted
                         else validate_document_text extracted) (\<lambda>_. Inr bytes)))
      else Inl UnsupportedExportFormat)"

definition export :: "engine \<Rightarrow> (string \<Rightarrow> string option) \<Rightarrow> (string \<Rightarrow> string option) \<Rightarrow> string \<Rightarrow> string
    \<Rightarrow> text_error + string" where
  "export E package extract text format =
     and_then (validate_export_text E text) (\<lambda>_. export_document E package extract text format True)"

definition export_local_document :: "engine \<Rightarrow> (string \<Rightarrow> string option) \<Rightarrow> (string \<Rightarrow> string option)
    \<Rightarrow> string \<Rightarrow> string \<Rightarrow> text_error + string" where
  "export_local_document E package extract text format =
     and_then (validate_document_text text) (\<lambda>_. export_document E package extract text format False)"

section \<open>What the checks establish\<close>

text \<open>A finding that may stand in a published result, given the published text.\<close>

definition publishable_finding :: "string \<Rightarrow> finding \<Rightarrow> bool" where
  "publishable_finding text f \<longleftrightarrow>
     f_resolved f \<and> safe_term (f_text f) \<and> valid_finding_id (f_id f)
     \<and> (\<not> f_dismissed f \<longrightarrow> \<not> contains_str text (f_text f)
          \<and> (\<exists>a. f_alias f = Some a \<and> validate_alias a = Inr ()))
     \<and> (f_dismissed f \<longrightarrow> (\<exists>k. parse_entity_kind (f_kind f) = Inr k
          \<and> ((f_source f = ''local_ner'' \<and> k \<in> {PersonName, OrganizationName, Address})
              \<or> (f_source f = ''ai'' \<and> k = Custom))))"

lemma publishable_findingI:
  assumes "validate_finding f = Inr u" "f_resolved f"
    and "\<not> f_dismissed f \<Longrightarrow> \<not> contains_str t (f_text f) \<and> f_alias f \<noteq> None"
  shows "publishable_finding t f"
  using assms
  by (cases "f_dismissed f")
    (auto simp: validate_finding_def publishable_finding_def is_ok_def split: if_splits sum.splits)

lemma collect_terms_Inr:
  "collect_terms text fs terms = Inr terms' \<Longrightarrow> f \<in> set fs \<Longrightarrow> publishable_finding text f"
proof (induction "text" fs terms rule: collect_terms.induct)
  case (2 t g gs terms)
  from "2.prems"(1) have g: "validate_finding g = Inr ()" "f_resolved g" by (auto split: if_splits)
  then obtain kind where k: "parse_entity_kind (f_kind g) = Inr kind"
    by (auto simp: validate_finding_def)
  show ?case
  proof (cases "f_dismissed g")
    case True
    then have rest: "collect_terms t gs terms = Inr terms'" using "2.prems"(1) g by simp
    have "publishable_finding t g"
      using True g by (intro publishable_findingI) simp_all
    then show ?thesis using "2.IH"(1)[OF g(1) _ True rest] g(2) "2.prems"(2) by auto
  next
    case False
    then obtain a where a: "\<not> contains_str t (f_text g)" "f_alias g = Some a"
      using "2.prems"(1) g by (auto split: if_splits)
    then have pg: "publishable_finding t g"
      using False g by (intro publishable_findingI) auto
    show ?thesis
    proof (cases "om_get terms (f_text g)")
      case None
      then have "collect_terms t gs (om_put (f_text g) (kind, a) terms) = Inr terms'"
        using "2.prems"(1) g False a k by simp
      with "2.IH"(2)[OF g(1) _ False a(1) k _ None] pg a(2) g(2) "2.prems"(2) show ?thesis by auto
    next
      case (Some ka)
      obtain k' a' where ka: "ka = (k', a')" by (cases ka)
      then have "\<not> (k' \<noteq> kind \<or> a' \<noteq> a)" "collect_terms t gs terms = Inr terms'"
        using "2.prems"(1) g False a k Some by (auto split: if_splits)
      with "2.IH"(3)[OF g(1) _ False a(1) k _ Some] pg a(2) g(2) ka "2.prems"(2) show ?thesis by auto
    qed
  qed
qed simp

section \<open>Properties\<close>

text \<open>A matched run of digits that is only a calendar date between other characters.\<close>

definition date_run :: "string \<Rightarrow> nat \<times> nat \<Rightarrow> bool" where
  "date_run t m \<longleftrightarrow> (case str_get t (fst m) (snd m) of None \<Rightarrow> False
     | Some v \<Rightarrow> is_iso_date (str_trim_matches (\<lambda>c. \<not> (48 \<le> c \<and> c \<le> 57) \<and> c \<noteq> 0x2D) v))"

text \<open>
  C13: publication safety. A result that validates has no unresolved finding; the text of every
  finding that was not dismissed is absent from it and has a valid alias; a dismissal stands only
  for an uncorroborated local guess or a model-only custom value; no credential assignment is left,
  and a blocking pattern matches nowhere except for digit runs that are calendar dates.
\<close>

theorem validated_result_is_publishable:
  assumes "validate_result E t fs = Inr u"
  shows "(\<forall>f\<in>set fs. publishable_finding t f) \<and> \<not> has_credential_residual E t
    \<and> (\<forall>p\<in>set PATTERNS. p_blocking p \<longrightarrow> (\<exists>f. en_find E (p_expression p) = Some f
         \<and> (\<forall>m\<in>set (f t). p_class p = LongDigitSequence \<and> date_run t m)))"
proof -
  from assms obtain terms r where run: "collect_terms t fs [] = Inr terms"
    "scan_independent_residuals (en_find E) (en_digest E) (en_quote E) [t] (residual_terms terms) [] = Inr r"
    "\<not> blocking_residual E t r"
    by (auto simp: validate_result_def scan_text_def split: if_splits)
  have "\<exists>f. en_find E (p_expression p) = Some f
      \<and> (\<forall>m\<in>set (f t). p_class p = LongDigitSequence \<and> date_run t m)"
    if p: "p \<in> set PATTERNS" "p_blocking p" for p
  proof -
    from scan_records_matches[OF run(2) p(1)] obtain f where
      f: "en_find E (p_expression p) = Some f" "\<forall>m\<in>set (f t).
        \<lparr>h_page_index = 0, h_start = fst m, h_end = snd m, h_class = p_class p, h_entity = p_entity p,
          h_blocking = p_blocking p, h_reason = p_reason p\<rparr> \<in> set (rp_hits r)"
      by (auto simp: case_prod_beta)
    have "ignorable_residual_hit [t] h" if "h \<in> set (rp_hits r)" "h_blocking h" for h
      using run(3) that by (auto simp: blocking_residual_def list_ex_iff)
    with f p(2) have "\<forall>m\<in>set (f t). ignorable_residual_hit [t]
        \<lparr>h_page_index = 0, h_start = fst m, h_end = snd m, h_class = p_class p, h_entity = p_entity p,
          h_blocking = p_blocking p, h_reason = p_reason p\<rparr>" by auto
    then have "\<forall>m\<in>set (f t). p_class p = LongDigitSequence \<and> date_run t m"
      by (auto simp: ignorable_residual_hit_def date_run_def split: option.splits)
    with f(1) show ?thesis by blast
  qed
  then show ?thesis
    using collect_terms_Inr[OF run(1)] run(3) by (auto simp: blocking_residual_def)
qed

definition sample_engine :: engine where
  "sample_engine = \<lparr>en_find = no_match, en_captures = (\<lambda>_. Some (\<lambda>_. [])),
     en_digest = sample_digest, en_quote = json_quote\<rparr>"

definition sample_finding :: "string \<Rightarrow> finding" where
  "sample_finding i = \<lparr>f_id = i, f_text = ''Li'', f_kind = ''person_name'',
     f_alias = Some ''[PERSON_a]'', f_source = ''dictionary'', f_resolved = True, f_dismissed = False\<rparr>"

lemma sample_engine_simps [simp]:
  "en_find sample_engine = no_match" "en_captures sample_engine = (\<lambda>_. Some (\<lambda>_. []))"
  "en_digest sample_engine = sample_digest" "en_quote sample_engine = json_quote"
  by (simp_all add: sample_engine_def)

lemma sample_scan_text:
  assumes "quiet_page no_match terms [] t" "list_all usable_term terms" "length terms \<le> 4096"
  shows "scan_text sample_engine t terms = Inr ()"
proof -
  obtain r where "scan_independent_residuals no_match sample_digest json_quote [t] terms [] = Inr r"
    "rp_hits r = []" using scan_quiet[OF assms(1,2) sample_digest32 assms(3)] by auto
  then show ?thesis
    by (simp add: scan_text_def blocking_residual_def has_credential_residual_def
      credential_assignment_matches_def map_filter_simps)
qed

lemma sample_result_valid:
  assumes "valid_finding_id i"
  shows "validate_result sample_engine ''To [PERSON_a].'' [sample_finding i] = Inr ()"
proof -
  have al: "validate_alias ''[PERSON_a]'' = Inr ()"
    by (simp add: validate_alias_def has_control_def chars_def is_control_def suffix_def sublist_Cons_right)
  have "validate_finding (sample_finding i) = Inr ()"
    by (simp add: validate_finding_def sample_finding_def parse_entity_kind_def assms
      safe_term_def al has_control_def chars_def is_control_def)
  then have terms: "collect_terms ''To [PERSON_a].'' [sample_finding i] [] =
      Inr [(''Li'', PersonName, ''[PERSON_a]'')]"
    by (simp add: sample_finding_def parse_entity_kind_def sublist_Cons_right)
  let ?m = "\<lparr>t_entity = PersonName, t_primary = ''Li'', t_variants = [], t_alias = ''[PERSON_a]''\<rparr>"
  have "scan_text sample_engine ''To [PERSON_a].'' [?m] = Inr ()"
  proof (rule sample_scan_text)
    show "quiet_page no_match [?m] [] ''To [PERSON_a].''"
      by (simp add: quiet_page_def clean_page_def no_match_def count_char_def chars_def
        confusable_def sublist_Cons_right)
    show "list_all usable_term [?m]" by (simp add: usable_term_def sample_trims)
  qed simp
  moreover have "residual_terms [(''Li'', PersonName, ''[PERSON_a]'')] = [?m]"
    by (simp add: residual_terms_def om_push_def)
  ultimately show ?thesis
    unfolding validate_result_def terms by (simp add: MAX_TEXT_BYTES_def MAX_FINDINGS_def)
qed

definition sample_id :: string where
  "sample_id = finding_id sample_digest ''ns'' 3 5 PersonName ''Li''"

lemma sample_id_valid: "valid_finding_id sample_id"
  by (simp add: sample_id_def finding_id_valid)

theorem validated_result_is_publishable_witness:
  "publishable_finding ''To [PERSON_a].'' (sample_finding sample_id)
     \<and> \<not> has_credential_residual sample_engine ''To [PERSON_a].''"
  using validated_result_is_publishable[OF sample_result_valid[OF sample_id_valid]] by simp

text \<open>
  An exported document is the text. Exporting a redacted text either fails or yields bytes
  that are the text itself or a rebuilt document from which exactly this text is extracted, and
  the text passed the control-character check and the residual scan; a document that does not
  read back is never returned.
\<close>

theorem export_returns_the_checked_text:
  assumes "export E package extract t format = Inr bytes"
  shows "(bytes = t \<or> (package (docx_body t) = Some bytes \<and> extract bytes = Some t))
    \<and> validate_document_text t = Inr () \<and> scan_text E t [] = Inr ()"
  using assms
  by (auto simp: export_def export_document_def validate_export_text_def Let_def split: if_splits)

theorem export_returns_the_checked_text_witness:
  "scan_text sample_engine ''Dear [PERSON_a]'' [] = Inr ()"
proof -
  have "scan_text sample_engine ''Dear [PERSON_a]'' [] = Inr ()"
    by (rule sample_scan_text)
      (simp_all add: quiet_page_def clean_page_def no_match_def count_char_def chars_def confusable_def)
  moreover have "validate_document_text ''Dear [PERSON_a]'' = Inr ()"
    by (simp add: validate_document_text_def MAX_TEXT_BYTES_def chars_def is_control_def)
  moreover have "ascii_lowercase (str_trim '' DOCX'') = ''docx''" by code_simp
  ultimately have "export sample_engine Some (\<lambda>b. Some ''Dear [PERSON_a]'') ''Dear [PERSON_a]'' '' DOCX''
      = Inr (docx_body ''Dear [PERSON_a]'')"
    by (simp add: export_def export_document_def validate_export_text_def)
  from export_returns_the_checked_text[OF this] show ?thesis by simp
qed

end
