(* ===== verification/Analysis.thy ===== *)
theory Analysis imports Publication begin

text \<open>
  Detection and classification (\<open>privacy-text/src/lib.rs\<close>): candidates from every source are
  checked, merged by exact range, classified into groups, downgraded where people or ranges
  conflict, and handed to the replacement pass. The deterministic and the local detector are
  functions of the text and the namespace; everything that combines them is modelled.
\<close>

section \<open>Inputs\<close>

definition MAX_NAMESPACE_BYTES :: nat where "MAX_NAMESPACE_BYTES = 256"
definition MAX_DICTIONARY_ENTRIES :: nat where "MAX_DICTIONARY_ENTRIES = 4096"
definition MAX_CLOUD_FINDINGS :: nat where "MAX_CLOUD_FINDINGS = 4096"
definition MAX_DISMISSED_FINDINGS :: nat where "MAX_DISMISSED_FINDINGS = 100000"
definition MAX_AI_FINDINGS :: nat where "MAX_AI_FINDINGS = 8192"
definition MAX_AI_FINDING_TEXT_BYTES :: nat where "MAX_AI_FINDING_TEXT_BYTES = 16 * 1024"
definition MIN_AI_AUTOMATIC_CONFIDENCE_PPM :: u32 where "MIN_AI_AUTOMATIC_CONFIDENCE_PPM = 900000"

definition ORGANIZATION_ALIAS_PATTERN :: string where
  "ORGANIZATION_ALIAS_PATTERN =
     ''(?P<full>['' @ backslash @ ''p{Han}A-Za-z0-9'' @ utf8 [0xB7, 0xFF08, 0xFF09] @ ''()'' @ backslash @ ''- ]{2,100}?)[''
     @ utf8 [0xFF08] @ ''('' @ '']'' @ backslash @ ''s*'' @ utf8 [0x7B80, 0x79F0] @ backslash @ ''s*[:'' @ utf8 [0xFF1A] @ '']?''
     @ backslash @ ''s*(?P<short>['' @ backslash @ ''p{Han}A-Za-z0-9'' @ utf8 [0xB7, 0xFF08, 0xFF09] @ ''()'' @ backslash
     @ ''-]{1,40}?)['' @ utf8 [0xFF09] @ '')]''"

record dictionary_entry =
  d_text :: string
  d_kind :: string
  d_alias :: "string option"

record cloud_finding =
  cf_text :: string
  cf_kind :: string

text \<open>What a detector reports of a candidate, as far as the bridge reads it.\<close>

record detected =
  dc_start :: nat
  dc_end :: nat
  dc_kind :: entity_type
  dc_replacement :: "string option"
  dc_validated :: bool
  dc_automatic :: bool

record detectors =
  dt_deterministic :: "string \<Rightarrow> string \<Rightarrow> detected list option"
  dt_local_ner :: "string \<Rightarrow> string \<Rightarrow> detected list option"

record candidate =
  c_start :: nat
  c_end :: nat
  c_kind :: entity_type
  c_source :: string
  c_alias :: string
  c_deterministic :: bool
  c_automatic :: bool

definition validate_ai_finding :: "string \<Rightarrow> ai_finding \<Rightarrow> text_error + unit" where
  "validate_ai_finding text f =
     (if ai_text f = [] \<or> MAX_AI_FINDING_TEXT_BYTES < length (ai_text f) \<or> CHR 0x00 \<in> set (ai_text f)
         \<or> ai_end f \<le> ai_start f \<or> length text < ai_end f
         \<or> \<not> is_char_boundary text (ai_start f) \<or> \<not> is_char_boundary text (ai_end f)
         \<or> str_get text (ai_start f) (ai_end f) \<noteq> Some (ai_text f)
      then Inl CloudFindingAbsent
      else if (case ai_confidence_ppm f of None \<Rightarrow> False | Some c \<Rightarrow> 1000000 < c) then Inl InvalidInput
      else and_then (parse_entity_kind (ai_kind f)) (\<lambda>_. Inr ()))"

definition validate_ai_inputs :: "string \<Rightarrow> ai_finding list \<Rightarrow> text_error + unit" where
  "validate_ai_inputs text fs =
     (if MAX_AI_FINDINGS < length fs then Inl TooManyFindings else try_each (validate_ai_finding text) fs)"

definition validate_dictionary_entry :: "dictionary_entry \<Rightarrow> text_error + unit" where
  "validate_dictionary_entry e =
     (if \<not> safe_term (d_text e) then Inl InvalidInput
      else and_then (parse_entity_kind (d_kind e)) (\<lambda>_.
        case d_alias e of None \<Rightarrow> Inr () | Some a \<Rightarrow> validate_alias a))"

definition validate_cloud_finding :: "string \<Rightarrow> cloud_finding \<Rightarrow> text_error + unit" where
  "validate_cloud_finding text f =
     (if \<not> safe_term (cf_text f) \<or> \<not> contains_str text (cf_text f) then Inl CloudFindingAbsent
      else and_then (parse_entity_kind (cf_kind f)) (\<lambda>_. Inr ()))"

definition validate_inputs :: "string \<Rightarrow> string \<Rightarrow> dictionary_entry list \<Rightarrow> cloud_finding list
    \<Rightarrow> string list \<Rightarrow> text_error + unit" where
  "validate_inputs text namespace dictionary cloud dismissed =
     (if MAX_TEXT_BYTES < length text \<or> 2 ^ 32 - 1 < length text \<or> CHR 0x00 \<in> set text then Inl InvalidInput
      else if namespace = [] \<or> MAX_NAMESPACE_BYTES < length namespace \<or> str_trim namespace \<noteq> namespace
        \<or> has_control namespace then Inl InvalidNamespace
      else if MAX_DICTIONARY_ENTRIES < length dictionary \<or> MAX_CLOUD_FINDINGS < length cloud
        \<or> MAX_DISMISSED_FINDINGS < length dismissed then Inl TooManyFindings
      else and_then (try_each validate_dictionary_entry dictionary) (\<lambda>_.
        and_then (try_each (validate_cloud_finding text) cloud) (\<lambda>_.
          if list_ex (\<lambda>i. \<not> valid_finding_id i) dismissed then Inl InvalidInput else Inr ())))"

section \<open>Candidates\<close>

definition push_candidate :: "candidate \<Rightarrow> candidate list \<Rightarrow> text_error + candidate list" where
  "push_candidate c cs = (if MAX_FINDINGS \<le> length cs then Inl TooManyFindings else Inr (cs @ [c]))"

definition push_privacy_candidate :: "(string \<Rightarrow> string) \<Rightarrow> string \<Rightarrow> detected \<Rightarrow> string \<Rightarrow> bool
    \<Rightarrow> candidate list \<Rightarrow> text_error + candidate list" where
  "push_privacy_candidate D text d source deterministic cs =
     and_then (ok_or (str_get text (dc_start d) (dc_end d)) AnalysisFailed) (\<lambda>value.
       let alias = (case dc_replacement d of Some a \<Rightarrow> a
                    | None \<Rightarrow> stable_alias D ''fallback'' (dc_kind d) value) in
       and_then (validate_alias alias) (\<lambda>_.
         push_candidate \<lparr>c_start = dc_start d, c_end = dc_end d, c_kind = dc_kind d, c_source = source,
           c_alias = alias, c_deterministic = deterministic,
           c_automatic = dc_validated d \<and> dc_automatic d\<rparr> cs))"

definition is_obvious_non_person_local_ner_token :: "string \<Rightarrow> bool" where
  "is_obvious_non_person_local_ner_token v \<longleftrightarrow> v \<in> set
     [utf8 [0x7535, 0x8BDD], utf8 [0x624B, 0x673A], utf8 [0x90AE, 0x7BB1], utf8 [0x5730, 0x5740], utf8 [0x59D3, 0x540D], utf8 [0x4EBA, 0x5458], utf8 [0x8054, 0x7CFB, 0x4EBA], utf8 [0x76F8, 0x540C], utf8 [0x5747, 0x4E3A], utf8 [0x5F53, 0x6210], utf8 [0x4F5C, 0x4E3A],
      utf8 [0x9700, 0x8981], utf8 [0x5E94, 0x5F53], utf8 [0x5176, 0x4E2D], utf8 [0x53CC, 0x65B9], utf8 [0x672C, 0x6848], utf8 [0x6750, 0x6599]]"

definition looks_like_short_han_name :: "string \<Rightarrow> bool" where
  "looks_like_short_han_name v \<longleftrightarrow>
     (let cs = chars v in 2 \<le> length cs \<and> length cs \<le> 4 \<and> list_all (\<lambda>c. 0x4E00 \<le> c \<and> c \<le> 0x9FFF) cs)"

text \<open>\<open>split\_once\<close> at a character of several bytes.\<close>

definition split_once_str :: "string \<Rightarrow> string \<Rightarrow> (string \<times> string) option" where
  "split_once_str s p = (case match_indices s p of [] \<Rightarrow> None
     | i # _ \<Rightarrow> Some (take i s, drop (i + length p) s))"

definition has_non_organization_clause_syntax :: "string \<Rightarrow> bool" where
  "has_non_organization_clause_syntax v =
     (let t = str_trim v in
      if t \<noteq> [] \<and> hd (chars t) \<in> {0x4E0E, 0x548C, 0x53CA, 0x6216, 0x5411, 0x7531, 0x5728, 0x5BF9} then True
      else if list_ex (contains_str t)
        [utf8 [0x539F, 0x544A], utf8 [0x88AB, 0x544A], utf8 [0x7533, 0x8BF7, 0x4EBA], utf8 [0x88AB, 0x7533, 0x8BF7, 0x4EBA], utf8 [0x4E0A, 0x8BC9, 0x4EBA], utf8 [0x88AB, 0x4E0A, 0x8BC9, 0x4EBA], utf8 [0x627F, 0x79DF, 0x4EBA], utf8 [0x51FA, 0x79DF, 0x4EBA], utf8 [0x60A3, 0x8005],
         utf8 [0x8054, 0x7CFB, 0x4EBA], utf8 [0x6CD5, 0x5B9A, 0x4EE3, 0x8868, 0x4EBA]] then True
      else if 0x81EA \<in> set (chars t) \<and> 0x5728 \<in> set (chars t)
        \<and> list_ex (\<lambda>c. 48 \<le> c \<and> c \<le> 57) (chars t) then True
      else (case split_once_str t (utf8 [0x4E0E]) of None \<Rightarrow> False
            | Some (l, r) \<Rightarrow> r \<noteq> [] \<and> looks_like_short_han_name l))"

definition local_ner_candidate_is_semantically_plausible :: "string \<Rightarrow> detected \<Rightarrow> text_error + bool" where
  "local_ner_candidate_is_semantically_plausible text d =
     and_then (ok_or (str_get text (dc_start d) (dc_end d)) AnalysisFailed) (\<lambda>value. Inr
       (case dc_kind d of
          Address \<Rightarrow> list_ex (\<lambda>c. c \<in> {0x7701, 0x5E02, 0x533A, 0x53BF, 0x65D7, 0x4E61, 0x9547, 0x6751, 0x8857, 0x8DEF,
              0x5DF7, 0x5F04, 0x53F7, 0x680B, 0x5E62}) (chars value)
        | PersonName \<Rightarrow> \<not> is_obvious_non_person_local_ner_token value
        | OrganizationName \<Rightarrow> \<not> has_non_organization_clause_syntax value
        | _ \<Rightarrow> True))"

text \<open>All occurrences of a value as candidates of one source.\<close>

definition push_occurrences :: "string \<Rightarrow> string \<Rightarrow> entity_type \<Rightarrow> string \<Rightarrow> string \<Rightarrow> bool
    \<Rightarrow> candidate list \<Rightarrow> text_error + candidate list" where
  "push_occurrences text v kind source alias automatic =
     try_fold (\<lambda>a. push_candidate \<lparr>c_start = a, c_end = a + length v, c_kind = kind,
       c_source = source, c_alias = alias, c_deterministic = False, c_automatic = automatic\<rparr>)
       (match_indices text v)"

definition push_dictionary :: "(string \<Rightarrow> string) \<Rightarrow> string \<Rightarrow> string \<Rightarrow> dictionary_entry
    \<Rightarrow> candidate list \<Rightarrow> text_error + candidate list" where
  "push_dictionary D text namespace e cs =
     and_then (parse_entity_kind (d_kind e)) (\<lambda>kind.
       let alias = (case d_alias e of Some a \<Rightarrow> a | None \<Rightarrow> stable_alias D namespace kind (d_text e)) in
       and_then (validate_alias alias) (\<lambda>_.
         push_occurrences text (d_text e) kind ''dictionary'' alias True cs))"

definition push_cloud :: "(string \<Rightarrow> string) \<Rightarrow> string \<Rightarrow> string \<Rightarrow> cloud_finding
    \<Rightarrow> candidate list \<Rightarrow> text_error + candidate list" where
  "push_cloud D text namespace f cs =
     and_then (parse_entity_kind (cf_kind f)) (\<lambda>kind.
       push_occurrences text (cf_text f) kind ''cloud'' (stable_alias D namespace kind (cf_text f)) False cs)"

definition push_ai :: "(string \<Rightarrow> string) \<Rightarrow> string \<Rightarrow> string \<Rightarrow> ai_finding
    \<Rightarrow> candidate list \<Rightarrow> text_error + candidate list" where
  "push_ai D text namespace f cs =
     and_then (parse_entity_kind (ai_kind f)) (\<lambda>kind.
       push_occurrences text (ai_text f) kind ''ai'' (stable_alias D namespace kind (ai_text f))
         (case ai_confidence_ppm f of None \<Rightarrow> False | Some c \<Rightarrow> MIN_AI_AUTOMATIC_CONFIDENCE_PPM \<le> c) cs)"

definition push_local_ner :: "(string \<Rightarrow> string) \<Rightarrow> string \<Rightarrow> detected
    \<Rightarrow> candidate list \<Rightarrow> text_error + candidate list" where
  "push_local_ner D text d cs =
     and_then (local_ner_candidate_is_semantically_plausible text d) (\<lambda>ok.
       if ok then push_privacy_candidate D text d ''local_ner'' False cs else Inr cs)"

text \<open>A custom value found by an expression: credentials, and compact identifiers.\<close>

definition push_custom :: "(string \<Rightarrow> string) \<Rightarrow> string \<Rightarrow> string \<Rightarrow> nat \<times> nat
    \<Rightarrow> candidate list \<Rightarrow> text_error + candidate list" where
  "push_custom D text namespace m cs =
     and_then (ok_or (str_get text (fst m) (snd m)) AnalysisFailed) (\<lambda>value.
       push_candidate \<lparr>c_start = fst m, c_end = snd m, c_kind = Custom, c_source = ''deterministic'',
         c_alias = stable_alias D namespace Custom value, c_deterministic = True, c_automatic = True\<rparr> cs)"

definition push_structured :: "(string \<Rightarrow> string) \<Rightarrow> string \<Rightarrow> string \<Rightarrow> nat \<times> nat
    \<Rightarrow> candidate list \<Rightarrow> text_error + candidate list" where
  "push_structured D text namespace m cs =
     (if list_ex (\<lambda>c. c_start c = fst m \<and> c_end c = snd m \<and> c_source c \<noteq> ''local_ner'' \<and> c_kind c \<noteq> Custom) cs
      then Inr cs else push_custom D text namespace m cs)"

section \<open>Declared organization aliases\<close>

definition slice :: "string \<Rightarrow> (nat \<times> nat) option \<Rightarrow> string option" where
  "slice text r = map_option (\<lambda>(a, b). str_trim (take (b - a) (drop a text))) r"

text \<open>\<open>entry(short).or\_default().insert(full)\<close> for every usable declaration.\<close>

definition declarations :: "string \<Rightarrow> (string \<Rightarrow> (nat \<times> nat) option) list \<Rightarrow> (string, string list) omap" where
  "declarations text captures = fold (\<lambda>c m.
     case (slice text (c ''full''), slice text (c ''short'')) of
       (Some full, Some short) \<Rightarrow>
         if full \<noteq> short \<and> safe_term full \<and> safe_term short
         then om_put short (btree_set (full # (case om_get m short of None \<Rightarrow> [] | Some fs \<Rightarrow> fs))) m
         else m
     | _ \<Rightarrow> m) captures []"

text \<open>One turn of the loop over the declarations: canonical aliases and ambiguous short names.\<close>

definition organization_values :: "string \<Rightarrow> candidate list \<Rightarrow> string list" where
  "organization_values text cs = List.map_filter (\<lambda>c.
     if c_kind c = OrganizationName then str_get text (c_start c) (c_end c) else None) cs"

definition declared_dictionary_aliases :: "string \<Rightarrow> candidate list \<Rightarrow> string \<Rightarrow> string list" where
  "declared_dictionary_aliases text cs full =
     btree_set (map c_alias (filter (\<lambda>c. c_kind c = OrganizationName \<and> c_source c = ''dictionary''
       \<and> str_get text (c_start c) (c_end c) = Some full) cs))"

definition link_declaration :: "(string \<Rightarrow> string) \<Rightarrow> string \<Rightarrow> string \<Rightarrow> candidate list
    \<Rightarrow> string \<times> string list \<Rightarrow> (string, string) omap \<times> string list
    \<Rightarrow> (string, string) omap \<times> string list" where
  "link_declaration D text namespace cs = (\<lambda>(short, fulls) (canonical, ambiguous).
     if 1 < length fulls then (canonical, ambiguous @ [short])
     else (case fulls of
         [] \<Rightarrow> (canonical, ambiguous)
       | full # _ \<Rightarrow>
         if full \<notin> set (organization_values text cs) \<or> short \<notin> set (organization_values text cs)
         then (canonical, ambiguous)
         else (case (case declared_dictionary_aliases text cs full of
               [a] \<Rightarrow> Some a
             | [] \<Rightarrow> Some (stable_alias D namespace OrganizationName full)
             | _ \<Rightarrow> None) of
             None \<Rightarrow> (canonical, ambiguous)
           | Some a \<Rightarrow> (om_put short a (om_put full a canonical), ambiguous))))"

definition link_declarations :: "(string \<Rightarrow> string) \<Rightarrow> string \<Rightarrow> string \<Rightarrow> candidate list
    \<Rightarrow> (string, string list) omap \<Rightarrow> (string, string) omap \<times> string list" where
  "link_declarations D text namespace cs ds = fold (link_declaration D text namespace cs) ds ([], [])"

definition relabel :: "string \<Rightarrow> (string, string) omap \<Rightarrow> candidate \<Rightarrow> text_error + candidate" where
  "relabel text canonical c =
     (if c_kind c \<noteq> OrganizationName \<or> c_source c = ''dictionary'' then Inr c
      else and_then (ok_or (str_get text (c_start c) (c_end c)) AnalysisFailed) (\<lambda>v.
        Inr (case om_get canonical v of None \<Rightarrow> c | Some a \<Rightarrow> c\<lparr>c_alias := a\<rparr>)))"

definition apply_explicit_organization_aliases :: "engine \<Rightarrow> string \<Rightarrow> string \<Rightarrow> candidate list
    \<Rightarrow> text_error + string list \<times> candidate list" where
  "apply_explicit_organization_aliases E text namespace cs =
     and_then (ok_or (en_captures E ORGANIZATION_ALIAS_PATTERN) AnalysisFailed) (\<lambda>captures_iter.
       let ds = declarations text (captures_iter text) in
       if ds = [] then Inr ([], cs)
       else let (canonical, ambiguous) = link_declarations (en_digest E) text namespace cs ds in
         and_then (try_map (relabel text canonical) cs) (\<lambda>cs'. Inr (ambiguous, cs')))"

section \<open>Redundant local guesses\<close>

definition is_known_ner_context :: "string \<Rightarrow> bool" where
  "is_known_ner_context v \<longleftrightarrow>
     str_trim_matches (\<lambda>c. is_whitespace c \<or> c \<in> {0x3A, 0xFF1A, 0x2C, 0xFF0C, 0x3B, 0xFF1B, 0x3001, 0x28, 0xFF08, 0x29, 0xFF09}) v
     \<in> set [[], (utf8 [0x4E0E]), (utf8 [0x53CA]), (utf8 [0x548C]), (utf8 [0x6216]), (utf8 [0x7B80, 0x79F0]), (utf8 [0x5168, 0x79F0]), (utf8 [0x539F, 0x544A]), (utf8 [0x88AB, 0x544A]), (utf8 [0x7532, 0x65B9]), (utf8 [0x4E59, 0x65B9]), (utf8 [0x7533, 0x8BF7, 0x4EBA]),
         (utf8 [0x88AB, 0x7533, 0x8BF7, 0x4EBA]), (utf8 [0x8054, 0x7CFB, 0x4EBA]), (utf8 [0x6CD5, 0x5B9A, 0x4EE3, 0x8868, 0x4EBA])]"

definition local_ner_wrapper_is_safe :: "string \<Rightarrow> nat \<Rightarrow> nat \<Rightarrow> nat \<Rightarrow> nat \<Rightarrow> bool" where
  "local_ner_wrapper_is_safe text local_start local_end ai_from ai_to =
     (case str_get text local_start ai_from of None \<Rightarrow> False
      | Some before \<Rightarrow> (case str_get text ai_to local_end of None \<Rightarrow> False
        | Some behind \<Rightarrow> is_known_ner_context before \<and> is_known_ner_context behind))"

definition covers_local :: "string \<Rightarrow> candidate \<Rightarrow> nat \<times> nat \<times> entity_type \<Rightarrow> bool" where
  "covers_local text c = (\<lambda>(a, b, kind).
     if kind \<noteq> c_kind c then False
     else if a \<le> c_start c \<and> c_end c \<le> b \<and> (a < c_start c \<or> c_end c < b) then True
     else c_start c \<le> a \<and> b \<le> c_end c \<and> (c_start c < a \<or> b < c_end c)
       \<and> local_ner_wrapper_is_safe text (c_start c) (c_end c) a b)"

definition suppress_redundant_local_ner :: "string \<Rightarrow> candidate list \<Rightarrow> candidate list" where
  "suppress_redundant_local_ner text cs =
     (let ai_ranges = map (\<lambda>c. (c_start c, c_end c, c_kind c)) (filter (\<lambda>c. c_source c = ''ai'') cs)
      in filter (\<lambda>c. c_source c \<noteq> ''local_ner'' \<or> \<not> list_ex (covers_local text c) ai_ranges) cs)"

section \<open>Groups\<close>

text \<open>
  The classification of one exact range: \<open>values\<close> are its candidates. The order of the sets is the
  one their \<open>BTreeSet\<close> gives. A single dictionary alias wins over every other alias.
\<close>

definition chosen_alias :: "candidate list \<Rightarrow> string option" where
  "chosen_alias values =
     (let aliases = btree_set (map c_alias values);
          dictionary_aliases =
            btree_set (map c_alias (filter (\<lambda>c. c_source c = ''dictionary'') values))
      in if length dictionary_aliases = 1 then Some (hd dictionary_aliases)
         else if dictionary_aliases = [] \<and> length aliases = 1 then Some (hd aliases)
         else None)"

definition dismissible :: "entity_type \<Rightarrow> candidate list \<Rightarrow> bool" where
  "dismissible kind values =
     (let sources = btree_set (map c_source values);
          only_ner = (sources = [''local_ner'']);
          model_only_custom = (sources = [''ai''] \<and> kind = Custom)
      in only_ner \<or> model_only_custom)"

definition automatic_evidence :: "entity_type \<Rightarrow> candidate list \<Rightarrow> bool" where
  "automatic_evidence kind values =
     (let sources = btree_set (map c_source values);
          has_dictionary = (''dictionary'' \<in> set sources);
          has_ner = (''local_ner'' \<in> set sources);
          has_cloud = (''cloud'' \<in> set sources);
          has_automatic_ai = list_ex (\<lambda>c. c_source c = ''ai'' \<and> c_automatic c) values;
          deterministic = list_ex c_deterministic values;
          deterministic_automatic = list_all c_automatic (filter c_deterministic values)
      in has_dictionary
         \<or> (deterministic \<and> deterministic_automatic)
         \<or> (\<not> deterministic \<and> has_ner \<and> (has_cloud \<or> has_automatic_ai))
         \<or> (\<not> deterministic \<and> has_automatic_ai \<and> kind \<noteq> Custom))"

definition build_group :: "(string \<Rightarrow> string) \<Rightarrow> string \<Rightarrow> string \<Rightarrow> string list \<Rightarrow> string list
    \<Rightarrow> (nat \<times> nat) \<times> candidate list \<Rightarrow> text_error + group" where
  "build_group D text namespace dismissed_ids ambiguous = (\<lambda>((start, stop), values).
     and_then (ok_or (str_get text start stop) AnalysisFailed) (\<lambda>value.
       let kinds = btree_set (map c_kind values) in
       case kinds of
         [] \<Rightarrow> Inl AnalysisFailed
       | kind # _ \<Rightarrow>
         (let fid = finding_id D namespace start stop kind value;
              dismissed = (fid \<in> set dismissed_ids \<and> dismissible kind values);
              ambiguous_organization = (kind = OrganizationName \<and> value \<in> set ambiguous);
              automatic = (\<not> ambiguous_organization \<and> length kinds = 1
                \<and> chosen_alias values \<noteq> None \<and> automatic_evidence kind values)
          in Inr \<lparr>g_start = start, g_end = stop,
               g_finding = \<lparr>f_id = fid, f_text = value, f_kind = entity_kind kind,
                 f_alias = chosen_alias values,
                 f_source = str_join ''+'' (btree_set (map c_source values)),
                 f_resolved = automatic \<or> dismissed, f_dismissed = dismissed\<rparr>,
               g_replace = automatic\<rparr>)))"

definition unresolve :: "group \<Rightarrow> group" where
  "unresolve g = g\<lparr>g_finding := (g_finding g)\<lparr>f_resolved := False\<rparr>, g_replace := False\<rparr>"

section \<open>Repeated names of people\<close>

definition party_labels :: "(string \<times> string) list" where
  "party_labels =
    [((utf8 [0x88AB, 0x7533, 0x8BF7, 0x4EBA]), ''respondent''), ((utf8 [0x88AB, 0x4E0A, 0x8BC9, 0x4EBA]), ''appellee''), ((utf8 [0x7B2C, 0x4E09, 0x4EBA]), ''third_party''),
     ((utf8 [0x7533, 0x8BF7, 0x4EBA]), ''applicant''), ((utf8 [0x4E0A, 0x8BC9, 0x4EBA]), ''appellant''), ((utf8 [0x59D4, 0x6258, 0x4EBA]), ''principal''),
     ((utf8 [0x53D7, 0x6258, 0x4EBA]), ''agent''), ((utf8 [0x539F, 0x544A]), ''plaintiff''), ((utf8 [0x88AB, 0x544A]), ''defendant''),
     ((utf8 [0x7532, 0x65B9]), ''party_a''), ((utf8 [0x4E59, 0x65B9]), ''party_b''), ((utf8 [0x4E19, 0x65B9]), ''party_c'')]"

text \<open>\<open>max\_by\_key\<close>: the last of the maximal elements.\<close>

definition max_by_key :: "('a \<Rightarrow> 'k::linorder) \<Rightarrow> 'a list \<Rightarrow> 'a option" where
  "max_by_key key xs = fold (\<lambda>x best.
     case best of None \<Rightarrow> Some x | Some b \<Rightarrow> if key b \<le> key x then Some x else Some b) xs None"

definition person_party_context :: "string \<Rightarrow> nat \<Rightarrow> string option" where
  "person_party_context text name_start =
     Option.bind (str_get text 0 name_start) (\<lambda>before_name.
       let segment_start = (case find (\<lambda>(_, c). c \<in> {0x0A, 0x3002, 0xFF1B, 0x3B}) (rev (char_indices before_name)) of
             None \<Rightarrow> 0 | Some (offset, c) \<Rightarrow> offset + length (encode_scalar c)) in
       Option.bind (str_from before_name segment_start) (\<lambda>segment.
         map_option (\<lambda>(_, _, identity). identity)
           (max_by_key (\<lambda>(offset, label, _). (offset, length label))
             (List.map_filter (\<lambda>(label, identity).
               map_option (\<lambda>offset. (offset, label, identity)) (str_rfind segment label)) party_labels))))"

definition same_person_name_has_explicit_identity_ambiguity :: "string \<Rightarrow> string \<Rightarrow> bool" where
  "same_person_name_has_explicit_identity_ambiguity text name =
     (if name = [] then False
      else list_ex (\<lambda>n. contains_str text (n @ (utf8 [0x59D3, 0x540D, 0x5747, 0x4E3A]) @ name)) [(utf8 [0x4E24, 0x4F4D]), (utf8 [0x4E24, 0x540D]), (utf8 [0x4E24, 0x4E2A]), (utf8 [0x591A, 0x4F4D]), (utf8 [0x591A, 0x540D])]
        \<or> list_ex (\<lambda>p. contains_str text (p @ name)) [(utf8 [0x53E6, 0x4E00, 0x4F4D]), (utf8 [0x53E6, 0x4E00, 0x540D]), (utf8 [0x53E6, 0x4E00, 0x4E2A])]
        \<or> (contains_str text (utf8 [0x540C, 0x540D])
           \<and> list_ex (contains_str text)
               [(utf8 [0x8EAB, 0x4EFD, 0x4E0D, 0x540C]), (utf8 [0x4E0D, 0x540C, 0x8EAB, 0x4EFD]), (utf8 [0x8EAB, 0x4EFD, 0x4E0D, 0x4E00, 0x81F4]), (utf8 [0x975E, 0x540C, 0x4E00, 0x4EBA]), (utf8 [0x4E0D, 0x662F, 0x540C, 0x4E00, 0x4EBA]), (utf8 [0x5E76, 0x975E, 0x540C, 0x4E00, 0x4EBA])]))"

definition repeated_person_candidate :: "group \<Rightarrow> bool" where
  "repeated_person_candidate g \<longleftrightarrow>
     \<not> (f_kind (g_finding g) \<noteq> entity_kind PersonName
        \<or> f_dismissed (g_finding g)
        \<or> ''dictionary'' \<in> set (str_split CHR ''+'' (f_source (g_finding g)))
        \<or> \<not> list_ex (\<lambda>s. s = ''ai'' \<or> s = ''local_ner'') (str_split CHR ''+'' (f_source (g_finding g))))"

definition person_occurrences :: "group list \<Rightarrow> (string, nat list) omap" where
  "person_occurrences groups = fold (\<lambda>(i, g) m.
     if repeated_person_candidate g then om_push (f_text (g_finding g)) i m else m)
     (enumerate 0 groups) []"

definition unresolve_at :: "nat \<Rightarrow> group list \<Rightarrow> group list" where
  "unresolve_at i groups = (if i < length groups then groups[i := unresolve (groups ! i)] else groups)"

definition mark_indices :: "string \<Rightarrow> nat list \<Rightarrow> group list \<Rightarrow> group list" where
  "mark_indices text indices groups =
     (let contexts = btree_set (List.map_filter (\<lambda>i.
            if i < length groups then person_party_context text (g_start (groups ! i)) else None) indices);
          name = (case indices of [] \<Rightarrow> []
            | i # _ \<Rightarrow> if i < length groups then f_text (g_finding (groups ! i)) else [])
      in if length contexts < 2 \<and> \<not> same_person_name_has_explicit_identity_ambiguity text name then groups
         else fold unresolve_at indices groups)"

definition mark_conflicting_repeated_people :: "string \<Rightarrow> group list \<Rightarrow> group list" where
  "mark_conflicting_repeated_people text groups =
     fold (mark_indices text)
       (filter (\<lambda>is. 1 < length is) (om_values (person_occurrences groups))) groups"

section \<open>Overlapping replacements\<close>

text \<open>How many of the following groups belong to the component that reaches to \<open>farthest\_end\<close>.\<close>

fun component_span :: "nat \<Rightarrow> group list \<Rightarrow> nat" where
  "component_span farthest_end [] = 0"
| "component_span farthest_end (g # gs) =
     (if g_start g < farthest_end then Suc (component_span (max farthest_end (g_end g)) gs) else 0)"

definition overlaps :: "group \<Rightarrow> group \<Rightarrow> bool" where
  "overlaps l r \<longleftrightarrow> g_start r < g_end l \<and> g_start l < g_end r"

fun conflicting_replacements :: "group list \<Rightarrow> bool" where
  "conflicting_replacements [] = False"
| "conflicting_replacements (l # rs) =
     ((g_replace l \<and> list_ex (\<lambda>r. g_replace r \<and> overlaps l r) rs) \<or> conflicting_replacements rs)"

definition resolve_component :: "group list \<Rightarrow> group list" where
  "resolve_component members =
     (if 1 < length members \<and> conflicting_replacements members
      then map (\<lambda>g. if f_dismissed (g_finding g) then g else unresolve g) members else members)"

fun resolve_conflicting_replacement_overlaps :: "group list \<Rightarrow> group list" where
  "resolve_conflicting_replacement_overlaps [] = []"
| "resolve_conflicting_replacement_overlaps (g # gs) =
     (let n = component_span (g_end g) gs in
      resolve_component (g # take n gs) @ resolve_conflicting_replacement_overlaps (drop n gs))"

section \<open>The whole analysis\<close>

definition build_analysis :: "engine \<Rightarrow> string \<Rightarrow> string \<Rightarrow> candidate list \<Rightarrow> string list \<Rightarrow> string list
    \<Rightarrow> text_error + analysis" where
  "build_analysis E text namespace candidates dismissed ambiguous =
     (let grouped = group_by_key (\<lambda>c. (c_start c, c_end c)) (suppress_redundant_local_ner text candidates) in
      and_then (try_map (build_group (en_digest E) text namespace dismissed ambiguous) grouped) (\<lambda>built.
        let groups = resolve_conflicting_replacement_overlaps (mark_conflicting_repeated_people text built) in
        and_then (apply_replacements text groups) (\<lambda>(out, reps).
          let a = \<lparr>a_text = out, a_findings = map g_finding groups, a_ai_findings = None,
                a_replacements = reps, a_needs_review = False,
                a_source_sha256 = sha256_hex (en_digest E) text,
                a_output_sha256 = sha256_hex (en_digest E) out\<rparr> in
          and_then (verify_analysis_source (en_digest E) text a) (\<lambda>_.
            let review = (list_ex (\<lambda>f. \<not> f_resolved f) (a_findings a)
                  \<or> \<not> is_ok (validate_result E (a_text a) (a_findings a)));
                a' = a\<lparr>a_needs_review := review\<rparr> in
            if \<not> review then and_then (validate_analysis E a') (\<lambda>_. Inr a') else Inr a'))))"

definition collect_candidates :: "engine \<Rightarrow> detectors \<Rightarrow> string \<Rightarrow> string \<Rightarrow> dictionary_entry list
    \<Rightarrow> cloud_finding list \<Rightarrow> ai_finding list \<Rightarrow> text_error + candidate list" where
  "collect_candidates E T text namespace dictionary cloud ai =
     (let D = en_digest E in
      and_then (ok_or (dt_deterministic T text namespace) AnalysisFailed) (\<lambda>det.
      and_then (try_fold (\<lambda>d. push_privacy_candidate D text d ''deterministic'' True) det []) (\<lambda>cs.
      and_then (ok_or (credential_assignment_matches E text) AnalysisFailed) (\<lambda>creds.
      and_then (try_fold (push_custom D text namespace) creds cs) (\<lambda>cs.
      and_then (ok_or (dt_local_ner T text namespace) AnalysisFailed) (\<lambda>ner.
      and_then (try_fold (push_local_ner D text) ner cs) (\<lambda>cs.
      and_then (try_fold (push_dictionary D text namespace) dictionary cs) (\<lambda>cs.
      and_then (try_fold (push_cloud D text namespace) cloud cs) (\<lambda>cs.
      and_then (try_fold (push_ai D text namespace) ai cs) (\<lambda>cs.
      and_then (ok_or (structured_opaque_identifier_matches E text) AnalysisFailed) (\<lambda>ids.
        try_fold (push_structured D text namespace) ids cs)))))))))))"

definition analyze_internal :: "engine \<Rightarrow> detectors \<Rightarrow> string \<Rightarrow> string \<Rightarrow> dictionary_entry list
    \<Rightarrow> cloud_finding list \<Rightarrow> ai_finding list \<Rightarrow> string list \<Rightarrow> text_error + analysis" where
  "analyze_internal E T text namespace dictionary cloud ai dismissed =
     and_then (validate_inputs text namespace dictionary cloud dismissed) (\<lambda>_.
     and_then (validate_ai_inputs text ai) (\<lambda>_.
     and_then (collect_candidates E T text namespace dictionary cloud ai) (\<lambda>cs.
     and_then (apply_explicit_organization_aliases E text namespace cs) (\<lambda>(ambiguous, cs).
       build_analysis E text namespace cs dismissed ambiguous))))"

definition analyze :: "engine \<Rightarrow> detectors \<Rightarrow> string \<Rightarrow> string \<Rightarrow> dictionary_entry list
    \<Rightarrow> cloud_finding list \<Rightarrow> string list \<Rightarrow> text_error + analysis" where
  "analyze E T text namespace dictionary cloud dismissed =
     analyze_internal E T text namespace dictionary cloud [] dismissed"

definition analyze_with_ai :: "engine \<Rightarrow> detectors \<Rightarrow> string \<Rightarrow> string \<Rightarrow> dictionary_entry list
    \<Rightarrow> ai_finding list \<Rightarrow> string list \<Rightarrow> text_error + analysis" where
  "analyze_with_ai E T text namespace dictionary ai dismissed =
     and_then (analyze_internal E T text namespace dictionary [] ai dismissed) (\<lambda>a.
       Inr (a\<lparr>a_ai_findings := Some ai\<rparr>))"

end
