(* ===== verification/Classification.thy ===== *)
theory Classification imports Analysis begin

text \<open>
  What the analysis guarantees: conflict resolution only withdraws replacements, replaced ranges
  never overlap, every replacement rests on evidence, dismissals never remove one, and the pass
  succeeds on every input whose ranges are well formed.
\<close>

section \<open>Withdrawing a replacement\<close>

text \<open>A group whose flags agree: resolved means replaced or dismissed, and never both.\<close>

definition group_ok :: "string \<Rightarrow> group \<Rightarrow> bool" where
  "group_ok text g \<longleftrightarrow>
     str_get text (g_start g) (g_end g) = Some (f_text (g_finding g))
     \<and> (f_resolved (g_finding g) \<longleftrightarrow> g_replace g \<or> f_dismissed (g_finding g))
     \<and> (f_dismissed (g_finding g) \<longrightarrow> \<not> g_replace g)
     \<and> (g_replace g \<longrightarrow> f_alias (g_finding g) \<noteq> None)"

definition weaker :: "group \<Rightarrow> group \<Rightarrow> bool" where
  "weaker g h \<longleftrightarrow> h = g \<or> (h = unresolve g \<and> \<not> f_dismissed (g_finding g))"

lemma unresolve_simps [simp]:
  "g_start (unresolve g) = g_start g" "g_end (unresolve g) = g_end g"
  "f_id (g_finding (unresolve g)) = f_id (g_finding g)"
  "f_text (g_finding (unresolve g)) = f_text (g_finding g)"
  "f_kind (g_finding (unresolve g)) = f_kind (g_finding g)"
  "f_alias (g_finding (unresolve g)) = f_alias (g_finding g)"
  "f_source (g_finding (unresolve g)) = f_source (g_finding g)"
  "f_dismissed (g_finding (unresolve g)) = f_dismissed (g_finding g)"
  "\<not> f_resolved (g_finding (unresolve g))" "\<not> g_replace (unresolve g)"
  "unresolve (unresolve g) = unresolve g"
  by (simp_all add: unresolve_def)

lemma weaker_refl [simp]: "weaker g g"
  by (simp add: weaker_def)

lemma weaker_trans: "weaker g h \<Longrightarrow> weaker h k \<Longrightarrow> weaker g k"
  by (auto simp: weaker_def)

lemma weaker_fields:
  assumes "weaker g h"
  shows "g_start h = g_start g" "g_end h = g_end g" "f_id (g_finding h) = f_id (g_finding g)"
    "f_text (g_finding h) = f_text (g_finding g)" "f_kind (g_finding h) = f_kind (g_finding g)"
    "f_alias (g_finding h) = f_alias (g_finding g)" "f_source (g_finding h) = f_source (g_finding g)"
    "f_dismissed (g_finding h) = f_dismissed (g_finding g)" "g_replace h \<Longrightarrow> h = g"
  using assms by (auto simp: weaker_def)

lemma weaker_ok: "weaker g h \<Longrightarrow> group_ok text g \<Longrightarrow> group_ok text h"
  by (auto simp: weaker_def group_ok_def)

lemma weaker_unresolve: "\<not> f_dismissed (g_finding g) \<Longrightarrow> weaker g (unresolve g)"
  by (simp add: weaker_def)

lemma list_weaker_refl: "list_all2 weaker gs gs"
  by (simp add: list.rel_refl)

lemma list_weaker_trans: "list_all2 weaker gs hs \<Longrightarrow> list_all2 weaker hs ks \<Longrightarrow> list_all2 weaker gs ks"
  by (rule list_all2_trans[OF weaker_trans])

lemma list_weaker_ok: "list_all2 weaker gs hs \<Longrightarrow> list_all (group_ok text) gs \<Longrightarrow> list_all (group_ok text) hs"
  by (induction rule: list_all2_induct) (auto intro: weaker_ok)

lemma list_weaker_map:
  assumes "list_all2 weaker gs hs" and "\<And>g h. weaker g h \<Longrightarrow> f h = f g"
  shows "map f hs = map f gs"
  using assms(1) by (induction rule: list_all2_induct) (auto simp: assms(2))

lemma list_weaker_member:
  "list_all2 weaker gs hs \<Longrightarrow> h \<in> set hs \<Longrightarrow> \<exists>g\<in>set gs. weaker g h"
  by (induction rule: list_all2_induct) auto

section \<open>Repeated names\<close>

lemma unresolve_at_weaker:
  assumes "i < length groups \<Longrightarrow> \<not> f_dismissed (g_finding (groups ! i))"
  shows "list_all2 weaker groups (unresolve_at i groups)"
  using assms
  by (auto simp: unresolve_at_def list_all2_conv_all_nth nth_list_update weaker_unresolve)

lemma unresolve_at_length [simp]: "length (unresolve_at i groups) = length groups"
  by (simp add: unresolve_at_def)

lemma fold_unresolve_length [simp]: "length (fold unresolve_at is groups) = length groups"
  by (induction "is" arbitrary: groups) auto

lemma list_weaker_dismissed:
  "list_all2 weaker gs hs \<Longrightarrow> i < length gs \<Longrightarrow>
     f_dismissed (g_finding (hs ! i)) = f_dismissed (g_finding (gs ! i))"
  by (meson list_all2_nthD weaker_fields(8))

lemma fold_unresolve_weaker:
  assumes "\<And>i. i \<in> set is \<Longrightarrow> i < length groups \<Longrightarrow> \<not> f_dismissed (g_finding (groups ! i))"
  shows "list_all2 weaker groups (fold unresolve_at is groups)"
  using assms
proof (induction "is" arbitrary: groups)
  case (Cons i "is")
  have w: "list_all2 weaker groups (unresolve_at i groups)"
    by (rule unresolve_at_weaker) (use Cons.prems in auto)
  have "list_all2 weaker (unresolve_at i groups) (fold unresolve_at is (unresolve_at i groups))"
    by (rule Cons.IH) (use Cons.prems list_weaker_dismissed[OF w] in auto)
  with w show ?case by (auto intro: list_weaker_trans)
qed (simp add: list_weaker_refl)

lemma fold_unresolve_nth:
  "i < length groups \<Longrightarrow> fold unresolve_at is groups ! i =
     (if i \<in> set is then unresolve (groups ! i) else groups ! i)"
  by (induction "is" arbitrary: groups) (auto simp: unresolve_at_def nth_list_update)

lemma mark_indices_weaker:
  assumes "\<And>i. i \<in> set is \<Longrightarrow> i < length groups \<Longrightarrow> \<not> f_dismissed (g_finding (groups ! i))"
  shows "list_all2 weaker groups (mark_indices text is groups)"
  using fold_unresolve_weaker[OF assms] by (simp add: mark_indices_def Let_def list_weaker_refl)

lemma person_occurrences_fold:
  "person_occurrences groups = fold (\<lambda>e m. om_push (f_text (g_finding (snd e))) (fst e) m)
     (filter (\<lambda>e. repeated_person_candidate (snd e)) (enumerate 0 groups)) []"
  by (simp add: person_occurrences_def case_prod_unfold fold_if_filter)

lemma person_occurrences_get:
  "om_get (person_occurrences groups) name =
     (case map fst (filter (\<lambda>e. f_text (g_finding (snd e)) = name)
         (filter (\<lambda>e. repeated_person_candidate (snd e)) (enumerate 0 groups))) of
       [] \<Rightarrow> None | i # is \<Rightarrow> Some (i # is))"
  by (simp add: person_occurrences_fold fold_push_get split: list.split)

lemma person_occurrences_wf [simp]: "om_wf (person_occurrences groups)"
  by (simp add: person_occurrences_fold fold_push_wf)

lemma person_occurrences_member:
  assumes "(name, is) \<in> set (person_occurrences groups)" "i \<in> set is"
  shows "i < length groups" "repeated_person_candidate (groups ! i)"
proof -
  have "om_get (person_occurrences groups) name = Some is"
    using assms(1) by (simp add: om_wf_get_iff)
  then have "is = map fst (filter (\<lambda>e. f_text (g_finding (snd e)) = name)
      (filter (\<lambda>e. repeated_person_candidate (snd e)) (enumerate 0 groups)))"
    by (auto simp: person_occurrences_get split: list.splits)
  with assms(2) show "i < length groups" "repeated_person_candidate (groups ! i)"
    by (auto simp: in_set_enumerate_eq)
qed

lemma repeated_not_dismissed: "repeated_person_candidate g \<Longrightarrow> \<not> f_dismissed (g_finding g)"
  by (simp add: repeated_person_candidate_def)

lemma fold_mark_weaker:
  assumes "\<And>is i. is \<in> set iss \<Longrightarrow> i \<in> set is \<Longrightarrow> i < length groups \<Longrightarrow>
      \<not> f_dismissed (g_finding (groups ! i))"
  shows "list_all2 weaker groups (fold (mark_indices text) iss groups)"
  using assms
proof (induction iss arbitrary: groups)
  case (Cons "is" iss)
  have w: "list_all2 weaker groups (mark_indices text is groups)"
    by (rule mark_indices_weaker) (use Cons.prems in auto)
  have "list_all2 weaker (mark_indices text is groups)
      (fold (mark_indices text) iss (mark_indices text is groups))"
    by (rule Cons.IH)
      (use Cons.prems list_weaker_dismissed[OF w] list_all2_lengthD[OF w] in fastforce)
  with w show ?case by (auto intro: list_weaker_trans)
qed (simp add: list_weaker_refl)

lemma mark_weaker: "list_all2 weaker groups (mark_conflicting_repeated_people text groups)"
  unfolding mark_conflicting_repeated_people_def
  by (rule fold_mark_weaker)
    (auto dest!: person_occurrences_member(2) repeated_not_dismissed)

text \<open>Two occurrences of one name in different party contexts are never replaced.\<close>

lemma fold_mark_keeps_unreplaced:
  assumes "i < length groups" "\<not> g_replace (groups ! i)"
  shows "\<not> g_replace (fold (mark_indices text) iss groups ! i)"
  using assms
proof (induction iss arbitrary: groups)
  case (Cons "is" iss)
  have "length (mark_indices text is groups) = length groups" by (simp add: mark_indices_def Let_def)
  moreover have "\<not> g_replace (mark_indices text is groups ! i)"
    using Cons.prems by (simp add: mark_indices_def Let_def fold_unresolve_nth)
  ultimately show ?case using Cons.IH Cons.prems(1) by simp
qed simp

lemma mark_indices_length [simp]: "length (mark_indices text is groups) = length groups"
  by (simp add: mark_indices_def Let_def)

lemma fold_mark_length [simp]: "length (fold (mark_indices text) iss groups) = length groups"
  by (induction iss arbitrary: groups) auto

lemma fold_mark_start:
  "i < length groups \<Longrightarrow> g_start (fold (mark_indices text) iss groups ! i) = g_start (groups ! i)"
  by (induction iss arbitrary: groups) (auto simp: mark_indices_def Let_def fold_unresolve_nth)

lemma mark_indices_conflict:
  assumes "i \<in> set is" "j \<in> set is" "i < length groups" "j < length groups"
    and "person_party_context text (g_start (groups ! i)) = Some p"
    and "person_party_context text (g_start (groups ! j)) = Some q" and "p \<noteq> q"
  shows "\<not> g_replace (mark_indices text is groups ! i)"
proof -
  let ?f = "\<lambda>i. if i < length groups then person_party_context text (g_start (groups ! i)) else None"
  have "{p, q} \<subseteq> set (List.map_filter ?f is)"
    using assms by (force simp: List.map_filter_def)
  then have "card {p, q} \<le> card (set (List.map_filter ?f is))" by (intro card_mono) auto
  then have "\<not> length (btree_set (List.map_filter ?f is)) < 2"
    using assms(7) by (simp add: btree_set_length)
  then show ?thesis using assms(1,3) by (simp add: mark_indices_def Let_def fold_unresolve_nth)
qed

lemma mark_conflict:
  assumes "i < length groups" "j < length groups" "repeated_person_candidate (groups ! i)"
    and "repeated_person_candidate (groups ! j)"
    and "f_text (g_finding (groups ! i)) = f_text (g_finding (groups ! j))"
    and "person_party_context text (g_start (groups ! i)) = Some p"
    and "person_party_context text (g_start (groups ! j)) = Some q" and "p \<noteq> q"
  shows "\<not> g_replace (mark_conflicting_repeated_people text groups ! i)"
proof -
  let ?name = "f_text (g_finding (groups ! i))"
  define "is" where "is = map fst (filter (\<lambda>e. f_text (g_finding (snd e)) = ?name)
      (filter (\<lambda>e. repeated_person_candidate (snd e)) (enumerate 0 groups)))"
  have mem: "i \<in> set is" "j \<in> set is"
    using assms unfolding is_def by (force simp: in_set_enumerate_eq image_iff)+
  then have "om_get (person_occurrences groups) ?name = Some is"
    unfolding person_occurrences_get is_def[symmetric] by (cases "is") auto
  then have "(?name, is) \<in> set (person_occurrences groups)" by (simp add: om_wf_get_iff)
  moreover have "1 < length is"
  proof -
    have "i \<noteq> j" using assms(6-8) by auto
    moreover have "card {i, j} \<le> card (set is)" using mem by (intro card_mono) auto
    ultimately show ?thesis using card_length[of "is"] by simp
  qed
  ultimately obtain xs ys where split:
    "filter (\<lambda>is. 1 < length is) (om_values (person_occurrences groups)) = xs @ is # ys"
    using split_list[of "is" "filter (\<lambda>is. 1 < length is) (om_values (person_occurrences groups))"]
    by (force simp: image_iff)
  let ?g = "fold (mark_indices text) xs groups"
  have "\<not> g_replace (mark_indices text is ?g ! i)"
    by (rule mark_indices_conflict[OF mem, of _ _ p q]) (use assms in \<open>simp_all add: fold_mark_start\<close>)
  then show ?thesis
    using assms(1) unfolding mark_conflicting_repeated_people_def split
    by (simp add: fold_mark_keeps_unreplaced)
qed

section \<open>Overlaps\<close>

lemma resolve_component_weaker: "list_all2 weaker gs (resolve_component gs)"
  by (auto simp: resolve_component_def list_weaker_refl list_all2_map2 weaker_unresolve
    intro: list_all2_refl)

lemma resolve_weaker: "list_all2 weaker gs (resolve_conflicting_replacement_overlaps gs)"
proof (induction gs rule: resolve_conflicting_replacement_overlaps.induct)
  case (2 g gs)
  let ?n = "component_span (g_end g) gs"
  have "list_all2 weaker ((g # take ?n gs) @ drop ?n gs) (resolve_component (g # take ?n gs) @
      resolve_conflicting_replacement_overlaps (drop ?n gs))"
    by (rule list_all2_appendI[OF resolve_component_weaker 2[OF refl]])
  then show ?case by (simp add: Let_def)
qed simp

definition disjoint_replacements :: "group list \<Rightarrow> bool" where
  "disjoint_replacements gs \<longleftrightarrow>
     sorted_wrt (\<lambda>l r. g_replace l \<longrightarrow> g_replace r \<longrightarrow> \<not> overlaps l r) gs"

lemma not_conflicting_iff: "\<not> conflicting_replacements gs \<longleftrightarrow> disjoint_replacements gs"
  by (induction gs) (auto simp: disjoint_replacements_def list_ex_iff)

lemma component_span_separates:
  assumes "sorted (map g_start gs)" "h \<in> set (drop (component_span far gs) gs)"
  shows "far \<le> g_start h \<and> (\<forall>m\<in>set (take (component_span far gs) gs). g_end m \<le> g_start h)"
  using assms
proof (induction far gs rule: component_span.induct)
  case (2 far g gs)
  show ?case
  proof (cases "g_start g < far")
    case True
    with 2 show ?thesis by auto
  next
    case False
    with 2(2,3) show ?thesis by auto
  qed
qed simp

lemma resolve_component_disjoint:
  assumes "list_all (group_ok text) gs"
  shows "disjoint_replacements (resolve_component gs)"
proof (cases "1 < length gs \<and> conflicting_replacements gs")
  case True
  have "\<not> g_replace h" if "h \<in> set (resolve_component gs)" for h
    using that assms True by (auto simp: resolve_component_def list_all_iff group_ok_def)
  then show ?thesis
    by (auto simp: disjoint_replacements_def sorted_wrt_iff_nth_less)
next
  case False
  then consider "\<not> conflicting_replacements gs" | "length gs \<le> 1" by linarith
  then have "disjoint_replacements gs"
  proof cases
    case 2
    then show ?thesis by (cases gs) (auto simp: disjoint_replacements_def)
  qed (simp add: not_conflicting_iff)
  with False show ?thesis by (auto simp: resolve_component_def)
qed

lemma resolve_disjoint:
  assumes "sorted (map g_start gs)" "list_all (group_ok text) gs"
  shows "disjoint_replacements (resolve_conflicting_replacement_overlaps gs)"
  using assms
proof (induction gs rule: resolve_conflicting_replacement_overlaps.induct)
  case (2 g gs)
  let ?n = "component_span (g_end g) gs"
  let ?c = "resolve_component (g # take ?n gs)"
  let ?r = "resolve_conflicting_replacement_overlaps (drop ?n gs)"
  have srt: "sorted (map g_start gs)" using 2(2) by simp
  have "disjoint_replacements ?r"
    by (rule 2(1)[OF refl])
      (use 2(3) srt in \<open>auto simp: drop_map[symmetric] list_all_drop sorted_wrt_drop\<close>)
  moreover have "disjoint_replacements ?c"
    by (rule resolve_component_disjoint[of "text"]) (use 2(3) in \<open>auto simp: list_all_take\<close>)
  moreover have "\<not> overlaps l r" if l: "l \<in> set ?c" and r: "r \<in> set ?r" for l r
  proof -
    from list_weaker_member[OF resolve_component_weaker l] obtain l' where
      l': "l' \<in> set (g # take ?n gs)" "weaker l' l" by blast
    from list_weaker_member[OF resolve_weaker r] obtain r' where
      r': "r' \<in> set (drop ?n gs)" "weaker r' r" by blast
    have "g_end l' \<le> g_start r'" using component_span_separates[OF srt r'(1)] l'(1) by auto
    then show ?thesis using weaker_fields(1,2)[OF l'(2)] weaker_fields(1,2)[OF r'(2)]
      by (simp add: overlaps_def)
  qed
  ultimately show ?case
    by (auto simp: disjoint_replacements_def sorted_wrt_append Let_def)
qed (simp add: disjoint_replacements_def)

text \<open>Disjoint, sorted, nonempty ranges are what the replacement pass needs.\<close>

lemma disjoint_ranges_ok:
  assumes "disjoint_replacements gs" "sorted (map g_start gs)" "list_all (group_ok text) gs"
    and "\<And>g. g \<in> set gs \<Longrightarrow> g_start g < g_end g" "is_char_boundary text c"
    and "\<And>g. g \<in> set gs \<Longrightarrow> g_replace g \<Longrightarrow> c \<le> g_start g"
  shows "ranges_ok text (group_ranges gs) c"
  using assms
proof (induction gs arbitrary: c)
  case (Cons g gs)
  have rest: "disjoint_replacements gs" "sorted (map g_start gs)" "list_all (group_ok text) gs"
    using Cons.prems(1-3) by (auto simp: disjoint_replacements_def)
  show ?case
  proof (cases "g_replace g")
    case True
    have bnd: "is_char_boundary text (g_start g)" "is_char_boundary text (g_end g)"
      using Cons.prems(3) by (auto simp: group_ok_def str_get_Some_iff)
    have "g_end g \<le> g_start h" if "h \<in> set gs" "g_replace h" for h
      using Cons.prems(1,2) Cons.prems(4)[of h] True that
      by (fastforce simp: disjoint_replacements_def overlaps_def not_less)
    with Cons.IH[OF rest _ bnd(2)] Cons.prems(4)
    have "ranges_ok text (group_ranges gs) (g_end g)" by simp
    moreover have "c \<le> g_start g" "g_start g \<le> g_end g"
      using Cons.prems(4,6) True by (auto simp: less_imp_le)
    ultimately show ?thesis using True bnd Cons.prems(5) by (simp add: group_ranges_def)
  next
    case False
    with Cons.IH[OF rest] Cons.prems show ?thesis by (simp add: group_ranges_def)
  qed
qed (simp add: group_ranges_def)

section \<open>Groups from candidates\<close>

text \<open>What the code maintains of a candidate: its range, its alias, and the flag of its source.\<close>

definition candidate_ok :: "string \<Rightarrow> candidate \<Rightarrow> bool" where
  "candidate_ok text c \<longleftrightarrow>
     c_source c \<in> {''deterministic'', ''local_ner'', ''dictionary'', ''cloud'', ''ai''}
     \<and> (c_deterministic c \<longleftrightarrow> c_source c = ''deterministic'')
     \<and> validate_alias (c_alias c) = Inr ()"

text \<open>The evidence that lets a range be replaced without a reviewer.\<close>

definition corroborated :: "candidate list \<Rightarrow> bool" where
  "corroborated values \<longleftrightarrow>
     (\<exists>c\<in>set values. c_source c = ''dictionary'')
     \<or> (\<exists>c\<in>set values. c_source c = ''deterministic'' \<and> c_automatic c)
     \<or> ((\<exists>c\<in>set values. c_source c = ''local_ner'')
        \<and> (\<exists>c\<in>set values. c_source c = ''cloud'' \<or> (c_source c = ''ai'' \<and> c_automatic c)))
     \<or> (\<exists>c\<in>set values. c_source c = ''ai'' \<and> c_automatic c \<and> c_kind c \<noteq> Custom)"

lemma btree_set_eq_single: "btree_set xs = [x] \<longleftrightarrow> set xs = {x}"
proof
  assume "set xs = {x}"
  then have "length (btree_set xs) = 1" "x \<in> set xs" by (simp_all add: btree_set_length)
  then show "btree_set xs = [x]" by (rule btree_set_single)
qed (metis btree_set_set empty_set list.simps(15))

lemma build_group_cases:
  assumes "build_group D text ns dis amb ((a, b), values) = Inr g"
  obtains kind rest where "btree_set (map c_kind values) = kind # rest"
    "g_start g = a" "g_end g = b" "str_get text a b = Some (f_text (g_finding g))"
    "f_id (g_finding g) = finding_id D ns a b kind (f_text (g_finding g))"
    "f_kind (g_finding g) = entity_kind kind" "f_alias (g_finding g) = chosen_alias values"
    "f_source (g_finding g) = str_join ''+'' (btree_set (map c_source values))"
    "f_dismissed (g_finding g) \<longleftrightarrow> f_id (g_finding g) \<in> set dis \<and> dismissible kind values"
    "f_resolved (g_finding g) \<longleftrightarrow> g_replace g \<or> f_dismissed (g_finding g)"
    "g_replace g \<longleftrightarrow> \<not> (kind = OrganizationName \<and> f_text (g_finding g) \<in> set amb)
       \<and> rest = [] \<and> chosen_alias values \<noteq> None \<and> automatic_evidence kind values"
proof -
  from assms obtain v where v: "str_get text a b = Some v" by (auto simp: build_group_def)
  with assms obtain kind rest where k: "btree_set (map c_kind values) = kind # rest"
    by (cases "btree_set (map c_kind values)") (auto simp: build_group_def simp del: btree_set_Nil_iff)
  show thesis
    by (rule that[OF k]) (use assms v k in \<open>auto simp: build_group_def Let_def\<close>)
qed

lemma chosen_alias_member:
  assumes "chosen_alias values = Some v" shows "v \<in> set (map c_alias values)"
proof -
  let ?d = "btree_set (map c_alias (filter (\<lambda>c. c_source c = ''dictionary'') values))"
  let ?a = "btree_set (map c_alias values)"
  from assms have "v = hd ?d \<and> length ?d = 1 \<or> v = hd ?a \<and> length ?a = 1"
    by (auto simp: chosen_alias_def Let_def split: if_splits simp del: btree_set_Nil_iff)
  then have "v \<in> set ?d \<or> v \<in> set ?a" by (metis hd_in_set list.size(3) zero_neq_one)
  then show ?thesis by auto
qed

lemma source_deterministic:
  "list_all (candidate_ok text) values \<Longrightarrow> c \<in> set values \<Longrightarrow> c_deterministic c \<longleftrightarrow> c_source c = ''deterministic''"
  by (simp add: list_all_iff candidate_ok_def)

lemma automatic_evidence_iff:
  "automatic_evidence kind values \<longleftrightarrow>
     (\<exists>c\<in>set values. c_source c = ''dictionary'')
     \<or> ((\<exists>c\<in>set values. c_deterministic c) \<and> (\<forall>c\<in>set values. c_deterministic c \<longrightarrow> c_automatic c))
     \<or> (\<not> (\<exists>c\<in>set values. c_deterministic c) \<and> (\<exists>c\<in>set values. c_source c = ''local_ner'')
        \<and> ((\<exists>c\<in>set values. c_source c = ''cloud'')
           \<or> (\<exists>c\<in>set values. c_source c = ''ai'' \<and> c_automatic c)))
     \<or> (\<not> (\<exists>c\<in>set values. c_deterministic c)
        \<and> (\<exists>c\<in>set values. c_source c = ''ai'' \<and> c_automatic c) \<and> kind \<noteq> Custom)"
proof -
  have mem: "s \<in> set (btree_set (map c_source values)) \<longleftrightarrow> (\<exists>c\<in>set values. c_source c = s)" for s
    by (simp only: btree_set_set set_map image_iff eq_commute[of s])
  have det: "list_all c_automatic (filter c_deterministic values) \<longleftrightarrow>
      (\<forall>c\<in>set values. c_deterministic c \<longrightarrow> c_automatic c)"
    by (auto simp: list_all_iff)
  show ?thesis unfolding automatic_evidence_def Let_def mem det list_ex_iff by simp
qed

lemma automatic_evidence_corroborated:
  assumes "automatic_evidence kind values" "list_all (candidate_ok text) values"
    and kind: "\<And>c. c \<in> set values \<Longrightarrow> c_kind c = kind"
  shows "corroborated values"
proof -
  note det = source_deterministic[OF assms(2)]
  from assms(1) consider (dict) "\<exists>c\<in>set values. c_source c = ''dictionary''"
    | (det) "\<exists>c\<in>set values. c_deterministic c \<and> c_automatic c"
    | (ner) "\<exists>c\<in>set values. c_source c = ''local_ner''"
      "\<exists>c\<in>set values. c_source c = ''cloud'' \<or> (c_source c = ''ai'' \<and> c_automatic c)"
    | (ai) "\<exists>c\<in>set values. c_source c = ''ai'' \<and> c_automatic c" "kind \<noteq> Custom"
    unfolding automatic_evidence_iff by blast
  then show ?thesis
  proof cases
    case det
    then show ?thesis using source_deterministic[OF assms(2)] by (auto simp: corroborated_def)
  next
    case ai
    then show ?thesis using kind by (auto simp: corroborated_def)
  qed (simp_all add: corroborated_def)
qed

lemma dismissible_sources:
  assumes "dismissible kind values"
  shows "(\<forall>c\<in>set values. c_source c = ''local_ner'')
    \<or> ((\<forall>c\<in>set values. c_source c = ''ai'') \<and> kind = Custom)"
proof -
  have "c_source ` set values = {s} \<Longrightarrow> \<forall>c\<in>set values. c_source c = s" for s by blast
  with assms show ?thesis by (auto simp: dismissible_def Let_def btree_set_eq_single)
qed

lemma dismissible_not_automatic:
  assumes "dismissible kind values" "list_all (candidate_ok text) values"
  shows "\<not> automatic_evidence kind values"
  using dismissible_sources[OF assms(1)]
proof (elim disjE conjE)
  assume s: "\<forall>c\<in>set values. c_source c = ''local_ner''"
  then have "\<forall>c\<in>set values. \<not> c_deterministic c" using source_deterministic[OF assms(2)] by simp
  with s show ?thesis unfolding automatic_evidence_iff by simp
next
  assume s: "\<forall>c\<in>set values. c_source c = ''ai''" "kind = Custom"
  then have "\<forall>c\<in>set values. \<not> c_deterministic c" using source_deterministic[OF assms(2)] by simp
  with s show ?thesis unfolding automatic_evidence_iff by simp
qed

lemma build_group_ok:
  assumes run: "build_group D text ns dis amb ((a, b), values) = Inr g"
    and ok: "list_all (candidate_ok text) values"
  shows "group_ok text g" "g_replace g \<Longrightarrow> corroborated values"
    "f_dismissed (g_finding g) \<Longrightarrow> f_id (g_finding g) \<in> set dis
       \<and> (f_source (g_finding g) = ''local_ner''
          \<or> (f_source (g_finding g) = ''ai'' \<and> f_kind (g_finding g) = entity_kind Custom))"
proof -
  from run obtain kind rest where g: "btree_set (map c_kind values) = kind # rest"
    "g_start g = a" "g_end g = b" "str_get text a b = Some (f_text (g_finding g))"
    "f_kind (g_finding g) = entity_kind kind" "f_alias (g_finding g) = chosen_alias values"
    "f_source (g_finding g) = str_join ''+'' (btree_set (map c_source values))"
    "f_dismissed (g_finding g) \<longleftrightarrow> f_id (g_finding g) \<in> set dis \<and> dismissible kind values"
    "f_resolved (g_finding g) \<longleftrightarrow> g_replace g \<or> f_dismissed (g_finding g)"
    "g_replace g \<longleftrightarrow> \<not> (kind = OrganizationName \<and> f_text (g_finding g) \<in> set amb)
       \<and> rest = [] \<and> chosen_alias values \<noteq> None \<and> automatic_evidence kind values"
    by (rule build_group_cases)
  show "group_ok text g"
    using g dismissible_not_automatic[OF _ ok] by (auto simp: group_ok_def)
  show "corroborated values" if "g_replace g"
  proof -
    have r: "rest = []" "automatic_evidence kind values" using that g(10) by auto
    with g(1) have "set (map c_kind values) = {kind}" by (simp add: btree_set_eq_single)
    then show ?thesis by (intro automatic_evidence_corroborated[OF r(2) ok]) auto
  qed
  show "f_id (g_finding g) \<in> set dis \<and> (f_source (g_finding g) = ''local_ner''
      \<or> (f_source (g_finding g) = ''ai'' \<and> f_kind (g_finding g) = entity_kind Custom))"
    if "f_dismissed (g_finding g)"
    using that g(5,7,8) by (auto simp: dismissible_def Let_def str_join_def)
qed

section \<open>Candidates are sound\<close>

definition candidates_ok :: "string \<Rightarrow> candidate list \<Rightarrow> bool" where
  "candidates_ok text cs \<longleftrightarrow> length cs \<le> MAX_FINDINGS \<and> list_all (candidate_ok text) cs"

lemma push_candidate_ok:
  "push_candidate c cs = Inr cs' \<Longrightarrow> candidate_ok text c \<Longrightarrow> candidates_ok text cs \<Longrightarrow> candidates_ok text cs'"
  by (auto simp: push_candidate_def candidates_ok_def split: if_splits)

lemma push_privacy_candidate_ok:
  assumes "push_privacy_candidate D text d src det cs = Inr cs'" "candidates_ok text cs"
    and "src = ''deterministic'' \<and> det \<or> src = ''local_ner'' \<and> \<not> det"
  shows "candidates_ok text cs'"
  using assms by (auto simp: push_privacy_candidate_def Let_def candidate_ok_def elim!: push_candidate_ok)

lemma push_occurrences_ok:
  assumes "push_occurrences text v kind src a aut cs = Inr cs'" "candidates_ok text cs"
    and "src \<in> {''dictionary'', ''cloud'', ''ai''}" "validate_alias a = Inr ()"
  shows "candidates_ok text cs'"
  using assms(1,2) unfolding push_occurrences_def
  by (rule try_fold_inv) (erule push_candidate_ok, use assms(3,4) in \<open>auto simp: candidate_ok_def\<close>)

lemma push_dictionary_ok:
  "push_dictionary D text ns e cs = Inr cs' \<Longrightarrow> candidates_ok text cs \<Longrightarrow> candidates_ok text cs'"
  by (auto simp: push_dictionary_def Let_def intro: push_occurrences_ok)

lemma push_cloud_ok:
  "digest32 D \<Longrightarrow> push_cloud D text ns e cs = Inr cs' \<Longrightarrow> candidates_ok text cs \<Longrightarrow> candidates_ok text cs'"
  by (auto simp: push_cloud_def stable_alias_valid intro: push_occurrences_ok)

lemma push_ai_ok:
  "digest32 D \<Longrightarrow> push_ai D text ns e cs = Inr cs' \<Longrightarrow> candidates_ok text cs \<Longrightarrow> candidates_ok text cs'"
  by (auto simp: push_ai_def stable_alias_valid intro: push_occurrences_ok)

lemma push_custom_ok:
  "digest32 D \<Longrightarrow> push_custom D text ns m cs = Inr cs' \<Longrightarrow> candidates_ok text cs \<Longrightarrow> candidates_ok text cs'"
  by (auto simp: push_custom_def candidate_ok_def stable_alias_valid elim!: push_candidate_ok)

lemma push_structured_ok:
  "digest32 D \<Longrightarrow> push_structured D text ns m cs = Inr cs' \<Longrightarrow> candidates_ok text cs \<Longrightarrow> candidates_ok text cs'"
  by (auto simp: push_structured_def split: if_splits intro: push_custom_ok)

lemma push_local_ner_ok:
  "push_local_ner D text d cs = Inr cs' \<Longrightarrow> candidates_ok text cs \<Longrightarrow> candidates_ok text cs'"
  by (auto simp: push_local_ner_def split: if_splits intro: push_privacy_candidate_ok)

lemma collect_candidates_ok:
  assumes "collect_candidates E T text ns dict cloud ai = Inr cs" "digest32 (en_digest E)"
  shows "candidates_ok text cs"
proof -
  let ?D = "en_digest E"
  from assms(1) obtain det creds ner ids c1 c2 c3 c4 c5 c6 where
    run: "try_fold (\<lambda>d. push_privacy_candidate ?D text d ''deterministic'' True) det [] = Inr c1"
    "try_fold (push_custom ?D text ns) creds c1 = Inr c2"
    "try_fold (push_local_ner ?D text) ner c2 = Inr c3"
    "try_fold (push_dictionary ?D text ns) dict c3 = Inr c4"
    "try_fold (push_cloud ?D text ns) cloud c4 = Inr c5"
    "try_fold (push_ai ?D text ns) ai c5 = Inr c6"
    "try_fold (push_structured ?D text ns) ids c6 = Inr cs"
    by (auto simp: collect_candidates_def Let_def)
  have "candidates_ok text []" by (simp add: candidates_ok_def)
  with run(1) have c1: "candidates_ok text c1"
    by (rule try_fold_inv) (erule push_privacy_candidate_ok, auto)
  from run(2) this have "candidates_ok text c2" by (rule try_fold_inv) (rule push_custom_ok[OF assms(2)])
  with run(3) have "candidates_ok text c3" by (rule try_fold_inv) (rule push_local_ner_ok)
  with run(4) have "candidates_ok text c4" by (rule try_fold_inv) (rule push_dictionary_ok)
  with run(5) have "candidates_ok text c5" by (rule try_fold_inv) (rule push_cloud_ok[OF assms(2)])
  with run(6) have "candidates_ok text c6" by (rule try_fold_inv) (rule push_ai_ok[OF assms(2)])
  with run(7) show ?thesis by (rule try_fold_inv) (rule push_structured_ok[OF assms(2)])
qed

subsection \<open>Declared aliases keep candidates sound\<close>

definition aliases_valid :: "(string, string) omap \<Rightarrow> bool" where
  "aliases_valid m \<longleftrightarrow> (\<forall>k a. om_get m k = Some a \<longrightarrow> validate_alias a = Inr ())"

lemma link_declaration_aliases:
  assumes "list_all (candidate_ok text) cs" "digest32 D" "aliases_valid (fst s)"
  shows "aliases_valid (fst (link_declaration D text ns cs d s))"
proof -
  obtain short fulls canonical amb where ds: "d = (short, fulls)" "s = (canonical, amb)"
    by (cases d; cases s)
  have put: "aliases_valid (om_put short a (om_put full a canonical))"
    if "validate_alias a = Inr ()" for full a
    using that assms(3) by (auto simp: aliases_valid_def ds)
  have dict: "validate_alias a = Inr ()" if "declared_dictionary_aliases text cs full = [a]" for a full
  proof -
    have "a \<in> set (declared_dictionary_aliases text cs full)" using that by simp
    then show ?thesis
      using assms(1) by (auto simp: declared_dictionary_aliases_def list_all_iff candidate_ok_def)
  qed
  show ?thesis
    using assms(3) put dict stable_alias_valid[OF assms(2)]
    by (auto simp: link_declaration_def ds split: list.splits option.splits)
qed

lemma link_declarations_aliases:
  assumes "list_all (candidate_ok text) cs" "digest32 D"
  shows "aliases_valid (fst (link_declarations D text ns cs ds))"
proof -
  have "aliases_valid (fst s) \<Longrightarrow> aliases_valid (fst (fold (link_declaration D text ns cs) ds s))" for s
    by (induction ds arbitrary: s) (simp_all add: link_declaration_aliases[OF assms] del: split_paired_All)
  from this[of "([], [])"] show ?thesis by (simp add: link_declarations_def aliases_valid_def)
qed

lemma relabel_ok:
  assumes "relabel text canonical c = Inr c'" "candidate_ok text c"
    and "aliases_valid canonical"
  shows "candidate_ok text c' \<and> c_start c' = c_start c \<and> c_end c' = c_end c"
  using assms by (auto simp: relabel_def candidate_ok_def aliases_valid_def split: if_splits option.splits)

lemma apply_aliases_ok:
  assumes "apply_explicit_organization_aliases E text ns cs = Inr (amb, cs')" "candidates_ok text cs"
    and "digest32 (en_digest E)"
  shows "candidates_ok text cs' \<and> map (\<lambda>c. (c_start c, c_end c)) cs' = map (\<lambda>c. (c_start c, c_end c)) cs"
proof -
  from assms(1) obtain cap where cap: "en_captures E ORGANIZATION_ALIAS_PATTERN = Some cap"
    by (auto simp: apply_explicit_organization_aliases_def)
  show ?thesis
  proof (cases "declarations text (cap text) = []")
    case True
    with assms cap show ?thesis by (simp add: apply_explicit_organization_aliases_def)
  next
    case False
    obtain canonical amb' where l: "link_declarations (en_digest E) text ns cs
        (declarations text (cap text)) = (canonical, amb')" by fastforce
    with False assms(1) cap have rl: "try_map (relabel text canonical) cs = Inr cs'"
      by (simp add: apply_explicit_organization_aliases_def)
    have "aliases_valid canonical"
      using link_declarations_aliases[of "text" cs "en_digest E" ns "declarations text (cap text)"] l assms
      by (simp add: candidates_ok_def)
    then have "list_all2 (\<lambda>c c'. candidate_ok text c' \<and> c_start c' = c_start c \<and> c_end c' = c_end c) cs cs'"
      using rl[unfolded try_map_Inr_iff] assms(2)
      by (auto simp: candidates_ok_def list_all_iff elim!: list_all2_mono[rotated] dest: relabel_ok
        intro: list.rel_mono_strong)
    then have "list_all (candidate_ok text) cs'
        \<and> map (\<lambda>c. (c_start c, c_end c)) cs' = map (\<lambda>c. (c_start c, c_end c)) cs"
      by (induction rule: list_all2_induct) auto
    then show ?thesis
      using assms(2) try_map_length[OF rl] by (simp add: candidates_ok_def)
  qed
qed

section \<open>One run of the analysis\<close>

text \<open>What a successful analysis computed: the groups behind its findings and its output.\<close>

definition group_evidence :: "string list \<Rightarrow> candidate list \<Rightarrow> group \<Rightarrow> bool" where
  "group_evidence dis cs g \<longleftrightarrow>
     (g_replace g \<longrightarrow>
           corroborated (filter (\<lambda>c. (c_start c, c_end c) = (g_start g, g_end g)) cs))
         \<and> (\<forall>a. f_alias (g_finding g) = Some a \<longrightarrow> validate_alias a = Inr ())
         \<and> (f_dismissed (g_finding g) \<longrightarrow> f_id (g_finding g) \<in> set dis
             \<and> (f_source (g_finding g) = ''local_ner''
                \<or> (f_source (g_finding g) = ''ai'' \<and> f_kind (g_finding g) = ''custom'')))
         \<and> (\<exists>c\<in>set cs. c_start c = g_start g \<and> c_end c = g_end g)"

definition sound_groups :: "(string \<Rightarrow> string) \<Rightarrow> string \<Rightarrow> string \<Rightarrow> string list \<Rightarrow> candidate list
    \<Rightarrow> group list \<Rightarrow> bool" where
  "sound_groups D text ns dis cs groups \<longleftrightarrow>
     list_all (group_ok text) groups \<and> sorted (map g_start groups) \<and> disjoint_replacements groups
     \<and> length groups \<le> length cs
     \<and> list_all (group_evidence dis cs) groups"

lemma fold_push_length: "length (fold (\<lambda>x m. om_push (key x) (val x) m) xs m) \<le> length m + length xs"
proof (induction xs arbitrary: m)
  case (Cons x xs)
  have "length (om_put k v m) \<le> Suc (length m)" for k v and m :: "('a::linorder \<times> 'b list) list"
    by (induction m) auto
  then have "length (om_push (key x) (val x) m) \<le> Suc (length m)" by (simp add: om_push_def)
  with Cons.IH[of "om_push (key x) (val x) m"] show ?case by simp
qed simp

lemma group_by_key_length: "length (group_by_key key xs) \<le> length xs"
  using fold_push_length[of key "\<lambda>x. x" xs "[]"] by (simp add: group_by_key_def)

lemma sorted_pairs_fst: "sorted_wrt (<) (ps :: ('a::linorder \<times> 'b::linorder) list) \<Longrightarrow> sorted (map fst ps)"
  by (induction ps) (auto simp: less_prod_def)

lemma corroborated_mono: "corroborated xs \<Longrightarrow> set xs \<subseteq> set ys \<Longrightarrow> corroborated ys"
  unfolding corroborated_def by blast

lemma suppress_subset: "set (suppress_redundant_local_ner text cs) \<subseteq> set cs"
  "length (suppress_redundant_local_ner text cs) \<le> length cs"
  by (auto simp: suppress_redundant_local_ner_def Let_def)

text \<open>The groups as built, before conflicts are resolved.\<close>

lemma built_groups_sound:
  assumes run: "try_map (build_group D text ns dis amb)
      (group_by_key (\<lambda>c. (c_start c, c_end c)) (suppress_redundant_local_ner text cs)) = Inr built"
    and ok: "list_all (candidate_ok text) cs"
  shows "list_all (group_ok text) built" "sorted (map g_start built)" "length built \<le> length cs"
    "\<And>g. g \<in> set built \<Longrightarrow> group_evidence dis cs g"
proof -
  let ?sup = "suppress_redundant_local_ner text cs"
  let ?key = "\<lambda>c. (c_start c, c_end c)"
  let ?grouped = "group_by_key ?key ?sup"
  have entry: "list_all (candidate_ok text) vals \<and> vals = filter (\<lambda>c. ?key c = (a, b)) ?sup \<and> vals \<noteq> []"
    if "((a, b), vals) \<in> set ?grouped" for a b vals
    using group_by_key_entry[OF that] ok suppress_subset(1)[of "text" cs] by (auto simp: list_all_iff)
  have member: "\<exists>a b vals. ((a, b), vals) \<in> set ?grouped \<and>
      build_group D text ns dis amb ((a, b), vals) = Inr g" if "g \<in> set built" for g
    using try_map_member[OF run that] by auto
  show "list_all (group_ok text) built"
    unfolding list_all_iff
  proof
    fix g assume "g \<in> set built"
    from member[OF this] obtain a b vals where v: "((a, b), vals) \<in> set ?grouped"
      "build_group D text ns dis amb ((a, b), vals) = Inr g" by blast
    show "group_ok text g" by (rule build_group_ok(1)[OF v(2)]) (use entry[OF v(1)] in blast)
  qed
  have "map (\<lambda>g. (g_start g, g_end g)) built = om_keys ?grouped"
    using run[unfolded try_map_Inr_iff]
    by (induction rule: list_all2_induct) (auto elim!: build_group_cases)
  then have "sorted (map fst (map (\<lambda>g. (g_start g, g_end g)) built))"
    using group_by_key_sorted[of ?key ?sup] by (simp only: sorted_pairs_fst)
  then show "sorted (map g_start built)" by (simp add: comp_def)
  show "length built \<le> length cs"
    using try_map_length[OF run] group_by_key_length[of ?key ?sup] suppress_subset(2)[of "text" cs] by linarith
  fix g assume "g \<in> set built"
  from member[OF this] obtain a b vals where v: "((a, b), vals) \<in> set ?grouped"
    "build_group D text ns dis amb ((a, b), vals) = Inr g" by blast
  note e = entry[OF v(1)]
  from v(2) have rng: "g_start g = a" "g_end g = b" "f_alias (g_finding g) = chosen_alias vals"
    by (auto elim: build_group_cases)
  have sub: "set vals \<subseteq> set (filter (\<lambda>c. ?key c = (g_start g, g_end g)) cs)"
    using e suppress_subset(1)[of "text" cs] rng by auto
  have "validate_alias x = Inr ()" if "f_alias (g_finding g) = Some x" for x
    using chosen_alias_member[of vals x] that rng(3) e by (auto simp: list_all_iff candidate_ok_def)
  moreover obtain c where "c \<in> set vals" using e by (meson last_in_set)
  then have "\<exists>c\<in>set cs. c_start c = g_start g \<and> c_end c = g_end g" using sub by auto
  moreover have "g_replace g \<Longrightarrow> corroborated (filter (\<lambda>c. ?key c = (g_start g, g_end g)) cs)"
    using build_group_ok(2)[OF v(2)] e sub corroborated_mono by blast
  ultimately show "group_evidence dis cs g"
    using build_group_ok(3)[OF v(2) conjunct1[OF e]] by (simp add: group_evidence_def)
qed

lemma resolved_groups_sound:
  assumes run: "try_map (build_group D text ns dis amb)
      (group_by_key (\<lambda>c. (c_start c, c_end c)) (suppress_redundant_local_ner text cs)) = Inr built"
    and ok: "list_all (candidate_ok text) cs"
    and groups: "groups = resolve_conflicting_replacement_overlaps
      (mark_conflicting_repeated_people text built)"
  shows "sound_groups D text ns dis cs groups" "list_all2 weaker built groups"
proof -
  note b = built_groups_sound[OF run ok]
  let ?marked = "mark_conflicting_repeated_people text built"
  have w: "list_all2 weaker built ?marked" by (rule mark_weaker)
  show wg: "list_all2 weaker built groups"
    unfolding groups by (rule list_weaker_trans[OF w resolve_weaker])
  have starts: "map g_start ?marked = map g_start built" "map g_start groups = map g_start built"
    using w wg by (auto intro!: list_weaker_map dest: weaker_fields(1))
  have "disjoint_replacements groups"
    unfolding groups by (rule resolve_disjoint[of _ "text"]) (use b w starts list_weaker_ok in auto)
  moreover have "list_all (group_ok text) groups" by (rule list_weaker_ok[OF wg b(1)])
  moreover have "length groups \<le> length cs" using b(3) list_all2_lengthD[OF wg] by simp
  moreover have "group_evidence dis cs g" if "g \<in> set groups" for g
  proof -
    from list_weaker_member[OF wg that] obtain h where h: "h \<in> set built" "weaker h g" by blast
    from h(2) consider "g = h" | "g = unresolve h" by (auto simp: weaker_def)
    then show ?thesis using b(4)[OF h(1)] by cases (simp_all add: group_evidence_def)
  qed
  ultimately show "sound_groups D text ns dis cs groups"
    using b(2) starts(2) by (simp add: sound_groups_def list_all_iff)
qed

lemma build_analysis_cases:
  assumes "build_analysis E text ns cs dis amb = Inr a"
  obtains built groups where
    "try_map (build_group (en_digest E) text ns dis amb)
      (group_by_key (\<lambda>c. (c_start c, c_end c)) (suppress_redundant_local_ner text cs)) = Inr built"
    "groups = resolve_conflicting_replacement_overlaps (mark_conflicting_repeated_people text built)"
    "apply_replacements text groups = Inr (a_text a, a_replacements a)"
    "a_findings a = map g_finding groups"
    "a_source_sha256 a = sha256_hex (en_digest E) text"
    "a_output_sha256 a = sha256_hex (en_digest E) (a_text a)"
    "a_needs_review a \<longleftrightarrow> list_ex (\<lambda>f. \<not> f_resolved f) (a_findings a)
       \<or> \<not> is_ok (validate_result E (a_text a) (a_findings a))"
    "a_needs_review a \<or> validate_analysis E a = Inr ()"
proof -
  from assms obtain built out reps where run: "try_map (build_group (en_digest E) text ns dis amb)
      (group_by_key (\<lambda>c. (c_start c, c_end c)) (suppress_redundant_local_ner text cs)) = Inr built"
    "apply_replacements text (resolve_conflicting_replacement_overlaps
       (mark_conflicting_repeated_people text built)) = Inr (out, reps)"
    by (auto simp: build_analysis_def Let_def)
  show thesis
    by (rule that[OF run(1) refl]) (use assms run in \<open>auto simp: build_analysis_def Let_def split: if_splits\<close>)
qed

lemma analyze_internal_cases:
  assumes "analyze_internal E T text ns dict cloud ai dis = Inr a" "digest32 (en_digest E)"
  obtains cs groups where
    "candidates_ok text cs" "sound_groups (en_digest E) text ns dis cs groups"
    "apply_replacements text groups = Inr (a_text a, a_replacements a)"
    "a_findings a = map g_finding groups"
    "a_source_sha256 a = sha256_hex (en_digest E) text"
    "a_output_sha256 a = sha256_hex (en_digest E) (a_text a)"
    "a_needs_review a \<longleftrightarrow> list_ex (\<lambda>f. \<not> f_resolved f) (a_findings a)
       \<or> \<not> is_ok (validate_result E (a_text a) (a_findings a))"
    "a_needs_review a \<or> validate_analysis E a = Inr ()"
    "\<exists>cs0 amb. collect_candidates E T text ns dict cloud ai = Inr cs0
       \<and> apply_explicit_organization_aliases E text ns cs0 = Inr (amb, cs)"
proof -
  from assms(1) obtain cs0 amb cs where run: "collect_candidates E T text ns dict cloud ai = Inr cs0"
    "apply_explicit_organization_aliases E text ns cs0 = Inr (amb, cs)"
    "build_analysis E text ns cs dis amb = Inr a"
    by (auto simp: analyze_internal_def)
  have ok: "candidates_ok text cs"
    using apply_aliases_ok[OF run(2) collect_candidates_ok[OF run(1) assms(2)] assms(2)] by simp
  from run(3) obtain built groups where b: "try_map (build_group (en_digest E) text ns dis amb)
      (group_by_key (\<lambda>c. (c_start c, c_end c)) (suppress_redundant_local_ner text cs)) = Inr built"
    "groups = resolve_conflicting_replacement_overlaps (mark_conflicting_repeated_people text built)"
    "apply_replacements text groups = Inr (a_text a, a_replacements a)"
    "a_findings a = map g_finding groups"
    "a_source_sha256 a = sha256_hex (en_digest E) text"
    "a_output_sha256 a = sha256_hex (en_digest E) (a_text a)"
    "a_needs_review a \<longleftrightarrow> list_ex (\<lambda>f. \<not> f_resolved f) (a_findings a)
       \<or> \<not> is_ok (validate_result E (a_text a) (a_findings a))"
    "a_needs_review a \<or> validate_analysis E a = Inr ()"
    by (rule build_analysis_cases)
  have "sound_groups (en_digest E) text ns dis cs groups"
    by (rule resolved_groups_sound(1)[OF b(1) _ b(2)]) (use ok in \<open>simp add: candidates_ok_def\<close>)
  with ok b run that show thesis by blast
qed

section \<open>The analysis succeeds\<close>

text \<open>
  On candidates whose ranges are nonempty slices of the text the pass cannot fail, provided no two
  of its ranges collide in their finding identifier: conflicts withdraw replacements instead of
  failing, and the recorded evidence passes the analysis's own verification.
\<close>

definition ranged :: "string \<Rightarrow> candidate \<Rightarrow> bool" where
  "ranged text c \<longleftrightarrow> c_start c < c_end c \<and> str_get text (c_start c) (c_end c) \<noteq> None"

lemma built_exists:
  assumes "list_all (ranged text) cs"
  shows "\<exists>built. try_map (build_group D text ns dis amb)
      (group_by_key (\<lambda>c. (c_start c, c_end c)) (suppress_redundant_local_ner text cs)) = Inr built"
  unfolding try_map_ok_iff
proof
  let ?sup = "suppress_redundant_local_ner text cs"
  fix e assume e: "e \<in> set (group_by_key (\<lambda>c. (c_start c, c_end c)) ?sup)"
  obtain a b vals where ab: "e = ((a, b), vals)" by (cases e) auto
  note en = group_by_key_entry[OF e[unfolded ab]]
  obtain c where c: "c \<in> set vals" using en(2) by (meson last_in_set)
  then have "ranged text c" "c_start c = a" "c_end c = b"
    using assms suppress_subset(1)[of "text" cs] by (auto simp: en(1) list_all_iff)
  then obtain v where "str_get text a b = Some v" by (auto simp: ranged_def)
  moreover obtain k ks where "btree_set (map c_kind vals) = k # ks"
    using en(2) by (cases "btree_set (map c_kind vals)") (auto dest: arg_cong[where f = set])
  ultimately show "\<exists>g. build_group D text ns dis amb e = Inr g"
    by (simp add: build_group_def ab Let_def)
qed

lemma alias_ok_valid: "validate_alias v = Inr () \<Longrightarrow> alias_ok v"
  by (cases v) (auto simp: validate_alias_def alias_ok_def continuation_def ensure_def split: if_splits)

lemma sha256_hex_valid: "digest32 D \<Longrightarrow> valid_sha256 (sha256_hex D x)"
  by (simp add: valid_sha256_def sha256_hex_length)

lemma build_analysis_total:
  assumes D: "digest32 (en_digest E)" and ok: "candidates_ok text cs" and rng: "list_all (ranged text) cs"
    and dist: "\<And>built. try_map (build_group (en_digest E) text ns dis amb)
      (group_by_key (\<lambda>c. (c_start c, c_end c)) (suppress_redundant_local_ner text cs)) = Inr built \<Longrightarrow>
      distinct (map (f_id \<circ> g_finding) built)"
  shows "\<exists>a. build_analysis E text ns cs dis amb = Inr a"
proof -
  let ?D = "en_digest E"
  obtain built where b: "try_map (build_group ?D text ns dis amb)
      (group_by_key (\<lambda>c. (c_start c, c_end c)) (suppress_redundant_local_ner text cs)) = Inr built"
    using built_exists[OF rng] by blast
  define groups where "groups = resolve_conflicting_replacement_overlaps
    (mark_conflicting_repeated_people text built)"
  have cok: "list_all (candidate_ok text) cs" using ok by (simp add: candidates_ok_def)
  note s = resolved_groups_sound[OF b cok groups_def]
  have gok: "list_all (group_ok text) groups" and srt: "sorted (map g_start groups)"
    and dj: "disjoint_replacements groups" and ev: "list_all (group_evidence dis cs) groups"
    and len: "length groups \<le> length cs"
    using s(1) by (auto simp: sound_groups_def)
  have pos: "g_start g < g_end g" if "g \<in> set groups" for g
  proof -
    obtain c where "c \<in> set cs" "c_start c = g_start g" "c_end c = g_end g"
      using ev \<open>g \<in> set groups\<close> by (auto simp: list_all_iff group_evidence_def)
    then show ?thesis using rng by (auto simp: list_all_iff ranged_def)
  qed
  have proper: "list_all proper_group (filter g_replace groups)"
    unfolding list_all_iff
  proof
    fix g assume "g \<in> set (filter g_replace groups)"
    then have g: "g \<in> set groups" "g_replace g" by auto
    with gok ev have "group_ok text g" "group_evidence dis cs g" by (simp_all add: list_all_iff)
    with g(2) pos[OF g(1)] show "proper_group g"
      by (auto simp: proper_group_def group_ok_def group_evidence_def intro: alias_ok_valid)
  qed
  have rok: "ranges_ok text (group_ranges groups) 0"
    by (rule disjoint_ranges_ok[OF dj srt gok pos]) simp_all
  have "\<exists>out reps. apply_loop text (filter g_replace groups) [] [] 0 = Inr (out, reps)"
  proof (rule apply_loop_ok)
    show "ranges_ok text (group_ranges (filter g_replace groups)) 0"
      using rok by (simp add: group_ranges_def)
    show "\<forall>g\<in>set (filter g_replace groups). f_alias (g_finding g) \<noteq> None"
      using gok by (auto simp: list_all_iff group_ok_def)
  qed (simp add: list_all_iff)
  then obtain out reps where run: "apply_replacements text groups = Inr (out, reps)"
    by (auto simp: apply_replacements_def)
  have ids: "distinct (map (f_id \<circ> g_finding) groups)"
    using dist[OF b] list_weaker_map[OF s(2), of "f_id \<circ> g_finding"] weaker_fields(3) by simp
  have small: "length groups \<le> MAX_FINDINGS" using len ok by (simp add: candidates_ok_def)
  have mark: "g_replace g \<longleftrightarrow> f_resolved (g_finding g) \<and> \<not> f_dismissed (g_finding g)"
    if "g \<in> set groups" for g using gok that by (auto simp: list_all_iff group_ok_def)
  have slice: "str_get text (g_start g) (g_end g) = Some (f_text (g_finding g))"
    if "g \<in> set groups" for g using gok that by (auto simp: list_all_iff group_ok_def)
  note evid = evidence_complete[OF run proper ids mark slice small]
  show ?thesis
    using run evid sha256_hex_valid[OF D]
    by (simp add: build_analysis_def b Let_def groups_def[symmetric] verify_analysis_source_def
      validate_analysis_def) (auto simp: is_ok_def split: sum.splits)
qed

section \<open>A sample analysis\<close>

definition sample_detectors :: detectors where
  "sample_detectors = \<lparr>dt_deterministic = (\<lambda>_ _. Some []), dt_local_ner = (\<lambda>_ _. Some [])\<rparr>"

definition sample_entry :: dictionary_entry where
  "sample_entry = \<lparr>d_text = ''Li'', d_kind = ''person_name'', d_alias = Some ''[PERSON_a]''\<rparr>"

definition sample_candidate :: candidate where
  "sample_candidate = \<lparr>c_start = 3, c_end = 5, c_kind = PersonName, c_source = ''dictionary'',
     c_alias = ''[PERSON_a]'', c_deterministic = False, c_automatic = True\<rparr>"

lemma sample_alias: "validate_alias ''[PERSON_a]'' = Inr ()"
  by (simp add: validate_alias_def has_control_def chars_def is_control_def suffix_def sublist_Cons_right)

lemma sample_inputs: "validate_inputs ''To Li.'' ''ns'' [sample_entry] [] [] = Inr ()"
  by (simp add: validate_inputs_def MAX_TEXT_BYTES_def MAX_NAMESPACE_BYTES_def MAX_DICTIONARY_ENTRIES_def
    MAX_CLOUD_FINDINGS_def MAX_DISMISSED_FINDINGS_def str_trim_plain is_whitespace_def has_control_def
    chars_def is_control_def validate_dictionary_entry_def sample_entry_def safe_term_def
    parse_entity_kind_def sample_alias)

lemma sample_collect:
  "collect_candidates sample_engine sample_detectors ''To Li.'' ''ns'' [sample_entry] [] [] = Inr [sample_candidate]"
  by (simp add: collect_candidates_def sample_detectors_def credential_assignment_matches_def
    structured_opaque_identifier_matches_def no_match_def push_dictionary_def sample_entry_def
    parse_entity_kind_def sample_alias push_occurrences_def match_indices_def push_candidate_def
    MAX_FINDINGS_def sample_candidate_def)

lemma sample_aliases:
  "apply_explicit_organization_aliases sample_engine ''To Li.'' ''ns'' [sample_candidate] = Inr ([], [sample_candidate])"
  by (simp add: apply_explicit_organization_aliases_def declarations_def)

lemma sample_grouped:
  "group_by_key (\<lambda>c. (c_start c, c_end c)) (suppress_redundant_local_ner ''To Li.'' [sample_candidate])
     = [((3, 5), [sample_candidate])]"
  by (simp add: suppress_redundant_local_ner_def group_by_key_def om_push_def sample_candidate_def)

definition sample_group :: group where
  "sample_group = \<lparr>g_start = 3, g_end = 5, g_finding = sample_finding sample_id,
     g_replace = True\<rparr>"

lemma sample_built:
  "build_group sample_digest ''To Li.'' ''ns'' [] [] ((3, 5), [sample_candidate]) = Inr sample_group"
  by (simp add: build_group_def sample_candidate_def sample_group_def sample_finding_def sample_id_def
    str_get_def is_char_boundary_def btree_set_def chosen_alias_def automatic_evidence_def str_join_def)

lemma sample_groups:
  "resolve_conflicting_replacement_overlaps (mark_conflicting_repeated_people ''To Li.'' [sample_group])
     = [sample_group]"
  by (simp add: mark_conflicting_repeated_people_def person_occurrences_def repeated_person_candidate_def
    sample_group_def sample_finding_def resolve_component_def)

lemma sample_replaced:
  "apply_replacements ''To Li.'' [sample_group] = Inr (''To [PERSON_a].'',
     [\<lparr>r_finding_id = sample_id, r_source_start = 3,
       r_source_end = 5, r_output_start = 3, r_output_end = 13, r_alias = ''[PERSON_a]''\<rparr>])"
  by (simp add: apply_replacements_def sample_group_def sample_finding_def str_get_def is_char_boundary_def)

lemma sample_run:
  "\<exists>a. analyze_internal sample_engine sample_detectors ''To Li.'' ''ns'' [sample_entry] [] [] [] = Inr a
     \<and> a_text a = ''To [PERSON_a].'' \<and> \<not> a_needs_review a"
proof -
  let ?t = "''To Li.''"
  have fs: "g_finding sample_group = sample_finding sample_id" by (simp add: sample_group_def)
  have evid: "verify_output_replacement_evidence ''To [PERSON_a].'' (map g_finding [sample_group])
      [\<lparr>r_finding_id = sample_id, r_source_start = 3, r_source_end = 5, r_output_start = 3,
        r_output_end = 13, r_alias = ''[PERSON_a]''\<rparr>] = Inr ()"
    "verify_source_replacement_evidence ?t ''To [PERSON_a].'' (map g_finding [sample_group])
      [\<lparr>r_finding_id = sample_id, r_source_start = 3, r_source_end = 5, r_output_start = 3,
        r_output_end = 13, r_alias = ''[PERSON_a]''\<rparr>] = Inr ()"
    by (rule evidence_complete[OF sample_replaced]; simp add: sample_group_def sample_finding_def
      proper_group_def alias_ok_def continuation_def str_get_def is_char_boundary_def MAX_FINDINGS_def)+
  have ai: "validate_ai_inputs ?t [] = Inr ()" by (simp add: validate_ai_inputs_def)
  have flags: "f_resolved (sample_finding sample_id)" by (simp add: sample_finding_def)
  have "\<exists>a. build_analysis sample_engine ?t ''ns'' [sample_candidate] [] [] = Inr a
      \<and> a_text a = ''To [PERSON_a].'' \<and> \<not> a_needs_review a"
    using evid sample_result_valid[OF sample_id_valid] sha256_hex_valid[OF sample_digest32]
    by (simp add: build_analysis_def sample_grouped sample_built sample_groups sample_replaced Let_def
      verify_analysis_source_def validate_analysis_def fs flags)
  then show ?thesis
    by (simp add: analyze_internal_def sample_inputs ai sample_collect sample_aliases)
qed

section \<open>Properties\<close>

text \<open>
  C3: the output is the source with exactly the recorded ranges replaced. A successful analysis
  yields the splice of the source with its replacements, which lie in order, inside the text, on
  character boundaries and without overlap; every replacement belongs to a resolved finding that
  was not dismissed, covers exactly its text and carries its alias; the hashes are those of the
  two texts.
\<close>

theorem analysis_is_the_splice:
  assumes "analyze_internal E T t ns dict cloud ai dis = Inr a" "digest32 (en_digest E)"
  shows "a_text a = spliced t (replacement_ranges (a_replacements a)) 0
    \<and> ranges_ok t (replacement_ranges (a_replacements a)) 0
    \<and> (\<forall>r\<in>set (a_replacements a). \<exists>f\<in>set (a_findings a). f_id f = r_finding_id r
         \<and> f_resolved f \<and> \<not> f_dismissed f \<and> f_alias f = Some (r_alias r)
         \<and> str_get t (r_source_start r) (r_source_end r) = Some (f_text f))
    \<and> a_source_sha256 a = sha256_hex (en_digest E) t
    \<and> a_output_sha256 a = sha256_hex (en_digest E) (a_text a)"
proof -
  from assms obtain cs groups where run: "sound_groups (en_digest E) t ns dis cs groups"
    "apply_replacements t groups = Inr (a_text a, a_replacements a)"
    "a_findings a = map g_finding groups"
    "a_source_sha256 a = sha256_hex (en_digest E) t"
    "a_output_sha256 a = sha256_hex (en_digest E) (a_text a)"
    by (rule analyze_internal_cases)
  note spec = apply_replacements_spec[OF run(2)]
  have "\<exists>f\<in>set (a_findings a). f_id f = r_finding_id r
         \<and> f_resolved f \<and> \<not> f_dismissed f \<and> f_alias f = Some (r_alias r)
         \<and> str_get t (r_source_start r) (r_source_end r) = Some (f_text f)"
    if "r \<in> set (a_replacements a)" for r
  proof -
    from recorded_member[of r t "filter g_replace groups" 0 0] that obtain g where
      g: "g \<in> set groups" "g_replace g" "r_finding_id r = f_id (g_finding g)"
      "r_source_start r = g_start g" "r_source_end r = g_end g" "r_alias r = the (f_alias (g_finding g))"
      by (auto simp: spec(4))
    have "group_ok t g" using run(1) g(1) by (simp add: sound_groups_def list_all_iff)
    with g run(3) show ?thesis by (intro bexI[of _ "g_finding g"]) (auto simp: group_ok_def)
  qed
  then show ?thesis using spec run(4,5) by simp
qed

theorem analysis_is_the_splice_witness:
  "\<exists>a. analyze_internal sample_engine sample_detectors ''To Li.'' ''ns'' [sample_entry] [] [] [] = Inr a
     \<and> a_text a = spliced ''To Li.'' (replacement_ranges (a_replacements a)) 0"
proof -
  obtain a where a: "analyze_internal sample_engine sample_detectors ''To Li.'' ''ns'' [sample_entry] [] [] []
    = Inr a" using sample_run by blast
  have "a_text a = spliced ''To Li.'' (replacement_ranges (a_replacements a)) 0"
    by (rule conjunct1[OF analysis_is_the_splice[OF a]]) simp
  with a show ?thesis by (intro exI conjI)
qed

text \<open>
  C2: no replacement without evidence. Every replaced range has a candidate set that corroborates
  it: a dictionary entry, an automatic deterministic match, a local guess confirmed by the cloud or
  by a confident model, or a confident model finding whose kind is not custom. A local guess, a
  cloud finding or an unconfident model finding alone never changes the text.
\<close>

theorem replacements_are_corroborated:
  assumes "analyze_internal E T t ns dict cloud ai dis = Inr a" "digest32 (en_digest E)"
  shows "\<exists>cs0 amb cs. collect_candidates E T t ns dict cloud ai = Inr cs0
    \<and> apply_explicit_organization_aliases E t ns cs0 = Inr (amb, cs)
    \<and> (\<forall>r\<in>set (a_replacements a).
         corroborated (filter (\<lambda>c. (c_start c, c_end c) = (r_source_start r, r_source_end r)) cs))"
proof -
  from assms obtain cs groups where run: "sound_groups (en_digest E) t ns dis cs groups"
    "apply_replacements t groups = Inr (a_text a, a_replacements a)"
    "\<exists>cs0 amb. collect_candidates E T t ns dict cloud ai = Inr cs0
       \<and> apply_explicit_organization_aliases E t ns cs0 = Inr (amb, cs)"
    by (rule analyze_internal_cases)
  have "corroborated (filter (\<lambda>c. (c_start c, c_end c) = (r_source_start r, r_source_end r)) cs)"
    if "r \<in> set (a_replacements a)" for r
  proof -
    from recorded_member[of r t "filter g_replace groups" 0 0] that obtain g where
      g: "g \<in> set groups" "g_replace g" "r_source_start r = g_start g" "r_source_end r = g_end g"
      by (auto simp: apply_replacements_spec(4)[OF run(2)])
    with run(1) show ?thesis by (simp add: sound_groups_def list_all_iff group_evidence_def)
  qed
  with run(3) show ?thesis by blast
qed

theorem replacements_are_corroborated_witness:
  "\<exists>a. analyze_internal sample_engine sample_detectors ''To Li.'' ''ns'' [sample_entry] [] [] [] = Inr a
     \<and> (\<forall>r\<in>set (a_replacements a). corroborated
          (filter (\<lambda>c. (c_start c, c_end c) = (r_source_start r, r_source_end r)) [sample_candidate]))"
proof -
  obtain a where a: "analyze_internal sample_engine sample_detectors ''To Li.'' ''ns'' [sample_entry] [] [] []
    = Inr a" using sample_run by blast
  have D: "digest32 (en_digest sample_engine)" by simp
  from replacements_are_corroborated[OF a D] obtain cs0 amb cs where
    run: "collect_candidates sample_engine sample_detectors ''To Li.'' ''ns'' [sample_entry] [] [] = Inr cs0"
    "apply_explicit_organization_aliases sample_engine ''To Li.'' ''ns'' cs0 = Inr (amb, cs)"
    "\<forall>r\<in>set (a_replacements a). corroborated
      (filter (\<lambda>c. (c_start c, c_end c) = (r_source_start r, r_source_end r)) cs)" by blast
  then have "cs0 = [sample_candidate]" by (simp add: sample_collect)
  with run(2) have "cs = [sample_candidate]" by (simp add: sample_aliases)
  with a run(3) show ?thesis by (intro exI conjI) simp_all
qed

text \<open>
  C31: dismissal is confined. A dismissed finding of an analysis was dismissed by its identifier and
  rests on the local guess alone or on a model-only custom value; it is never replaced, and a
  finding that is resolved without being dismissed is.
\<close>

theorem dismissal_is_confined:
  assumes "analyze_internal E T t ns dict cloud ai dis = Inr a" "digest32 (en_digest E)"
  shows "\<forall>f\<in>set (a_findings a).
      (f_dismissed f \<longrightarrow> f_resolved f \<and> f_id f \<in> set dis
        \<and> (f_source f = ''local_ner'' \<or> (f_source f = ''ai'' \<and> f_kind f = ''custom'')))
      \<and> (f_resolved f \<and> \<not> f_dismissed f \<longrightarrow> f_id f \<in> r_finding_id ` set (a_replacements a))"
proof
  fix f assume f: "f \<in> set (a_findings a)"
  from assms(1,2) obtain cs groups where run: "sound_groups (en_digest E) t ns dis cs groups"
    "apply_replacements t groups = Inr (a_text a, a_replacements a)"
    "a_findings a = map g_finding groups"
    by (rule analyze_internal_cases)
  from f run(3) obtain g where g: "g \<in> set groups" "f = g_finding g" by auto
  with run(1) have ok: "group_ok t g" "group_evidence dis cs g"
    by (simp_all add: sound_groups_def list_all_iff)
  have "f_id f \<in> r_finding_id ` set (a_replacements a)" if "f_resolved f" "\<not> f_dismissed f"
  proof -
    have "g \<in> set (filter g_replace groups)" using ok(1) that g by (simp add: group_ok_def)
    then have "f_id f \<in> set (map (f_id \<circ> g_finding) (filter g_replace groups))" using g(2) by simp
    then show ?thesis
      by (simp only: recorded_ids[symmetric, of _ t 0 0] apply_replacements_spec(4)[OF run(2), symmetric] set_map)
  qed
  then show "(f_dismissed f \<longrightarrow> f_resolved f \<and> f_id f \<in> set dis
        \<and> (f_source f = ''local_ner'' \<or> (f_source f = ''ai'' \<and> f_kind f = ''custom'')))
      \<and> (f_resolved f \<and> \<not> f_dismissed f \<longrightarrow> f_id f \<in> r_finding_id ` set (a_replacements a))"
    using ok g(2) by (auto simp: group_ok_def group_evidence_def)
qed

theorem dismissal_is_confined_witness:
  "\<exists>a. analyze_internal sample_engine sample_detectors ''To Li.'' ''ns'' [sample_entry] [] [] [] = Inr a
     \<and> (\<forall>f\<in>set (a_findings a). f_resolved f \<and> \<not> f_dismissed f \<longrightarrow>
          f_id f \<in> r_finding_id ` set (a_replacements a))"
proof -
  obtain a where a: "analyze_internal sample_engine sample_detectors ''To Li.'' ''ns'' [sample_entry] [] [] []
    = Inr a" using sample_run by blast
  have D: "digest32 (en_digest sample_engine)" by simp
  from dismissal_is_confined[OF a D] a show ?thesis by (intro exI[of _ a] conjI) blast+
qed

text \<open>
  C20: an analysis that needs no review is publishable. Its output hash and its replacement
  evidence verify, the publication check accepts its text, and every finding is resolved, with the
  text of each finding that was not dismissed gone from the output.
\<close>

theorem unreviewed_analysis_is_publishable:
  assumes "analyze_internal E T t ns dict cloud ai dis = Inr a" "digest32 (en_digest E)"
    and "\<not> a_needs_review a"
  shows "validate_analysis E a = Inr () \<and> (\<forall>f\<in>set (a_findings a). publishable_finding (a_text a) f)
    \<and> \<not> has_credential_residual E (a_text a)"
proof -
  from assms(1,2) have v: "a_needs_review a \<or> validate_analysis E a = Inr ()"
    by (rule analyze_internal_cases)
  with assms(3) have "validate_analysis E a = Inr ()" by simp
  then obtain terms r where "collect_terms (a_text a) (a_findings a) [] = Inr terms"
    "\<not> blocking_residual E (a_text a) r"
    by (auto simp: validate_analysis_def validate_result_def scan_text_def split: if_splits)
  then show ?thesis
    using v assms(3) collect_terms_Inr by (auto simp: blocking_residual_def)
qed

theorem unreviewed_analysis_is_publishable_witness:
  "\<exists>a. analyze_internal sample_engine sample_detectors ''To Li.'' ''ns'' [sample_entry] [] [] [] = Inr a
     \<and> validate_analysis sample_engine a = Inr ()"
proof -
  obtain a where a: "analyze_internal sample_engine sample_detectors ''To Li.'' ''ns'' [sample_entry] [] [] []
    = Inr a" "\<not> a_needs_review a" using sample_run by blast
  have "validate_analysis sample_engine a = Inr ()"
    by (rule conjunct1[OF unreviewed_analysis_is_publishable[OF a(1) _ a(2)]]) simp
  with a(1) show ?thesis by (intro exI conjI)
qed

text \<open>A finding the conflict pass looks at: a person found by the model or the local guess, not in the dictionary.\<close>

definition guessed_person :: "finding \<Rightarrow> bool" where
  "guessed_person f \<longleftrightarrow> f_kind f = entity_kind PersonName \<and> f_resolved f \<and> \<not> f_dismissed f
     \<and> ''dictionary'' \<notin> set (str_split CHR ''+'' (f_source f))
     \<and> (''ai'' \<in> set (str_split CHR ''+'' (f_source f)) \<or> ''local_ner'' \<in> set (str_split CHR ''+'' (f_source f)))"

lemma guessed_candidate: "guessed_person (g_finding g) \<Longrightarrow> repeated_person_candidate g"
  by (auto simp: guessed_person_def repeated_person_candidate_def list_ex_iff)

lemma verify_output_distinct:
  "verify_output_loop out ex rs p q seen = Inr s \<Longrightarrow>
    distinct (map r_finding_id rs) \<and> r_finding_id ` set rs \<inter> set seen = {}"
proof (induction rs arbitrary: p q seen)
  case (Cons r rs)
  then obtain p' q' where "verify_output_loop out ex rs p' q' (r_finding_id r # seen) = Inr s"
    and "r_finding_id r \<notin> set seen"
    by (auto split: if_splits)
  with Cons.IH[of p' q' "r_finding_id r # seen"] show ?case by auto
qed simp

lemma analysis_ids_distinct:
  assumes "build_analysis E text ns cs dis amb = Inr a"
  shows "distinct (map r_finding_id (a_replacements a))"
proof -
  from assms obtain out fs where "verify_output_replacement_evidence out fs (a_replacements a) = Inr ()"
    by (auto simp: build_analysis_def Let_def verify_analysis_source_def split: if_splits)
  then show ?thesis
    by (auto simp: verify_output_replacement_evidence_def Let_def split: if_splits dest!: verify_output_distinct)
qed

text \<open>
  One name, one party. Take two replacements of an analysis whose findings are the same name of a
  person, found by the model or the local guess and not entered in the dictionary. If the words before
  each of the two places name a party, they name the same one: such a name that stands in two party
  contexts is not replaced in both automatically, and with the contexts of one of them known, the
  occurrence in another is left to the reviewer. Names of the dictionary are replaced everywhere.
\<close>

theorem ambiguous_people_are_not_replaced:
  assumes "analyze_internal E T t ns dict cloud ai dis = Inr a" "digest32 (en_digest E)"
    and "r \<in> set (a_replacements a)" "f \<in> set (a_findings a)" "f_id f = r_finding_id r" "guessed_person f"
    and "r' \<in> set (a_replacements a)" "f' \<in> set (a_findings a)" "f_id f' = r_finding_id r'" "guessed_person f'"
    and "f_text f = f_text f'"
    and "person_party_context t (r_source_start r) = Some p"
    and "person_party_context t (r_source_start r') = Some q"
  shows "p = q"
proof (rule ccontr)
  assume differ: "p \<noteq> q"
  from assms(1) obtain cs0 amb cs where run: "collect_candidates E T t ns dict cloud ai = Inr cs0"
    "apply_explicit_organization_aliases E t ns cs0 = Inr (amb, cs)" "build_analysis E t ns cs dis amb = Inr a"
    by (auto simp: analyze_internal_def)
  from run(3) obtain built groups where b: "try_map (build_group (en_digest E) t ns dis amb)
      (group_by_key (\<lambda>c. (c_start c, c_end c)) (suppress_redundant_local_ner t cs)) = Inr built"
    "groups = resolve_conflicting_replacement_overlaps (mark_conflicting_repeated_people t built)"
    "apply_replacements t groups = Inr (a_text a, a_replacements a)" "a_findings a = map g_finding groups"
    by (rule build_analysis_cases)
  have "candidates_ok t cs"
    using apply_aliases_ok[OF run(2) collect_candidates_ok[OF run(1) assms(2)] assms(2)] by simp
  then have ok: "list_all (group_ok t) groups"
    using resolved_groups_sound(1)[OF b(1) _ b(2)] by (simp add: candidates_ok_def sound_groups_def)
  have distinct: "distinct (map (f_id \<circ> g_finding) (filter g_replace groups))"
    using analysis_ids_distinct[OF run(3)]
    by (simp only: recorded_ids[symmetric, of _ t 0 0] apply_replacements_spec(4)[OF b(3), symmetric])
  have at: "\<exists>i<length groups. groups ! i = built ! i \<and> groups ! i = mark_conflicting_repeated_people t built ! i
      \<and> g_replace (groups ! i) \<and> g_finding (groups ! i) = f \<and> g_start (groups ! i) = r_source_start r"
    if "r \<in> set (a_replacements a)" "f \<in> set (a_findings a)" "f_id f = r_finding_id r" "guessed_person f" for r f
  proof -
    from recorded_member[of r t "filter g_replace groups" 0 0] that(1) obtain g where
      g: "g \<in> set groups" "g_replace g" "r_finding_id r = f_id (g_finding g)" "r_source_start r = g_start g"
      by (auto simp: apply_replacements_spec(4)[OF b(3)])
    from that(2) b(4) obtain h where h: "h \<in> set groups" "f = g_finding h" by auto
    then have "g_replace h" using ok that(4) by (auto simp: list_all_iff group_ok_def guessed_person_def)
    then have "h = g" using distinct g h that(3) by (auto simp: distinct_map inj_on_def)
    moreover obtain i where i: "i < length groups" "groups ! i = g" using g(1) by (auto simp: in_set_conv_nth)
    moreover have "weaker (mark_conflicting_repeated_people t built ! i) (groups ! i)"
      "weaker (built ! i) (mark_conflicting_repeated_people t built ! i)"
      using i resolve_weaker[of "mark_conflicting_repeated_people t built"] mark_weaker[of built t] b(2)
      by (auto simp: list_all2_conv_all_nth)
    ultimately show ?thesis using g(2,4) h(2) weaker_fields(9) by metis
  qed
  obtain i where i: "i < length groups" "groups ! i = built ! i" "groups ! i = mark_conflicting_repeated_people t built ! i"
    "g_replace (groups ! i)" "g_finding (groups ! i) = f" "g_start (groups ! i) = r_source_start r"
    using at[OF assms(3-6)] by blast
  obtain j where j: "j < length groups" "groups ! j = built ! j" "g_finding (groups ! j) = f'"
    "g_start (groups ! j) = r_source_start r'"
    using at[OF assms(7-10)] by blast
  have len: "length groups = length built"
    using resolve_weaker[of "mark_conflicting_repeated_people t built"] mark_weaker[of built t] b(2)
    by (auto simp: list_all2_conv_all_nth)
  have "\<not> g_replace (mark_conflicting_repeated_people t built ! i)"
    by (rule mark_conflict[of i built j])
      (use i j len assms(6,10-13) differ in \<open>auto intro!: guessed_candidate\<close>)
  with i show False by simp
qed

text \<open>
  C33: the analysis cannot fail on well-formed candidates. Once the inputs are valid and the
  candidates are nonempty slices of the text, the analysis returns a result, whatever conflicts
  and overlaps the candidates have, as long as the finding identifiers of its ranges differ.
\<close>

theorem analysis_succeeds:
  assumes "digest32 (en_digest E)" "validate_inputs t ns dict cloud dis = Inr ()"
    and "validate_ai_inputs t ai = Inr ()"
    and "collect_candidates E T t ns dict cloud ai = Inr cs0" "list_all (ranged t) cs0"
    and "apply_explicit_organization_aliases E t ns cs0 = Inr (amb, cs)"
    and "\<And>built. try_map (build_group (en_digest E) t ns dis amb)
      (group_by_key (\<lambda>c. (c_start c, c_end c)) (suppress_redundant_local_ner t cs)) = Inr built \<Longrightarrow>
      distinct (map (f_id \<circ> g_finding) built)"
  shows "\<exists>a. analyze_internal E T t ns dict cloud ai dis = Inr a"
proof -
  have cs: "candidates_ok t cs" "map (\<lambda>c. (c_start c, c_end c)) cs = map (\<lambda>c. (c_start c, c_end c)) cs0"
    using apply_aliases_ok[OF assms(6) collect_candidates_ok[OF assms(4,1)] assms(1)] by auto
  have iff: "list_all (ranged t) cs \<longleftrightarrow> list_all (\<lambda>(a, b). a < b \<and> str_get t a b \<noteq> None)
      (map (\<lambda>c. (c_start c, c_end c)) cs)" for cs
    by (induction cs) (auto simp: ranged_def)
  have "list_all (ranged t) cs"
    unfolding iff[of cs] cs(2) unfolding iff[of cs0, symmetric] by (rule assms(5))
  from build_analysis_total[OF assms(1) cs(1) this assms(7)] show ?thesis
    using assms(2-4,6) by (simp add: analyze_internal_def)
qed

theorem analysis_succeeds_witness:
  "\<exists>a. analyze_internal sample_engine sample_detectors ''To Li.'' ''ns'' [sample_entry] [] [] [] = Inr a"
proof (rule analysis_succeeds[OF _ sample_inputs _ sample_collect _ sample_aliases])
  show "list_all (ranged ''To Li.'') [sample_candidate]"
    by (simp add: ranged_def sample_candidate_def str_get_def is_char_boundary_def)
  fix built
  assume "try_map (build_group (en_digest sample_engine) ''To Li.'' ''ns'' [] [])
    (group_by_key (\<lambda>c. (c_start c, c_end c)) (suppress_redundant_local_ner ''To Li.'' [sample_candidate])) = Inr built"
  then show "distinct (map (f_id \<circ> g_finding) built)" by (simp only: sample_grouped) (auto simp: sample_built)
qed (simp_all add: validate_ai_inputs_def)

end
