(* ===== verification/Service.thy ===== *)
theory Service imports Publication begin

text \<open>
  The vocabulary of the workspace service: its errors
  (\<open>workspace-service/src/error.rs\<close>), its records (\<open>types.rs\<close>) and the small validators of
  \<open>lib.rs\<close> that every request passes through. Times and revisions are unbounded naturals; the
  places where the code narrows them are in the storage model.
\<close>

section \<open>Errors\<close>

text \<open>\<open>Error\<close> with its local diagnostic, which is never serialised.\<close>

record diagnostic =
  dg_category :: string
  dg_detail :: "string option"

record error =
  e_code :: string
  e_retryable :: bool
  e_internal :: "diagnostic option"

definition error_new :: "string \<Rightarrow> error" where
  "error_new c = \<lparr>e_code = c, e_retryable = False, e_internal = None\<rparr>"

definition error_retry :: "string \<Rightarrow> error" where
  "error_retry c = \<lparr>e_code = c, e_retryable = True, e_internal = None\<rparr>"

definition with_diagnostic :: "string \<Rightarrow> string option \<Rightarrow> error \<Rightarrow> error" where
  "with_diagnostic category detail e =
     e\<lparr>e_internal := Some \<lparr>dg_category = category, dg_detail = detail\<rparr>\<rparr>"

text \<open>The families of storage errors the conversion distinguishes.\<close>

datatype sqlite_code = DatabaseBusy | DatabaseLocked | DiskFull | OtherSqliteCode

datatype sqlite_error = SqliteFailure sqlite_code int | SqliteOther

definition error_from_sqlite :: "(int \<Rightarrow> string) \<Rightarrow> sqlite_error \<Rightarrow> error" where
  "error_from_sqlite show_int e = (case e of
     SqliteFailure code extended \<Rightarrow>
       with_diagnostic ''sqlite'' (Some (''sqlite_extended_code='' @ show_int extended))
         (case code of
            DatabaseBusy \<Rightarrow> error_retry ''storage_busy''
          | DatabaseLocked \<Rightarrow> error_retry ''storage_busy''
          | DiskFull \<Rightarrow> error_new ''storage_full''
          | OtherSqliteCode \<Rightarrow> error_new ''storage_failed'')
   | SqliteOther \<Rightarrow> with_diagnostic ''sqlite'' None (error_new ''storage_failed''))"

definition error_from_io :: "('k \<Rightarrow> string) \<Rightarrow> ('k \<Rightarrow> bool) \<Rightarrow> 'k \<Rightarrow> error" where
  "error_from_io show_kind storage_full kind =
     with_diagnostic ''io'' (Some (''io_kind='' @ show_kind kind))
       (error_new (if storage_full kind then ''storage_full'' else ''file_operation_failed''))"

definition error_from_json :: error where
  "error_from_json = with_diagnostic ''json'' None (error_new ''invalid_data'')"

lemma error_new_sel [simp]:
  "e_code (error_new c) = c" "e_retryable (error_new c) = False"
  "e_code (error_retry c) = c" "e_retryable (error_retry c) = True"
  "e_code (with_diagnostic k d e) = e_code e" "e_retryable (with_diagnostic k d e) = e_retryable e"
  by (simp_all add: error_new_def error_retry_def with_diagnostic_def)

lemma error_new_eq [simp]: "error_new c = error_new d \<longleftrightarrow> c = d"
  by (simp add: error_new_def)

section \<open>Request validators\<close>

definition valid_id :: "string \<Rightarrow> error + unit" where
  "valid_id v =
     (if v = [] \<or> 128 < length v
        \<or> \<not> list_all (\<lambda>b. is_ascii_alnum b \<or> b = CHR ''_'' \<or> b = CHR ''-'') v
      then Inl (error_new ''invalid_identifier'') else Inr ())"

definition bounded :: "string \<Rightarrow> nat \<Rightarrow> error + unit" where
  "bounded v bound =
     (if str_trim v = [] \<or> bound < length v \<or> CHR 0x00 \<in> set v
      then Inl (error_new ''invalid_request'') else Inr ())"

end
