(* ===== verification/Admission.thy ===== *)
theory Admission imports Service "HOL-Library.Multiset" begin

text \<open>
  Admission control (\<open>workspace-service/src/admission.rs\<close>): three pools of active slots, each with
  a bounded number of waiting places. The semaphore of the active slots is the fair one of Tokio: a
  poll that finds no permit joins a queue, and a permit that is released goes to the first waiter of
  the queue at once, before that waiter runs again; only without a waiter does the counter of
  available permits grow. The semaphore of the waiting places is only tried, so it is its counter.
  A reservation or a permit is a token that owns what it was given, and dropping it, at any point of
  its life, gives that back. The semaphores are never closed. The world pairs the pools with the
  tokens that are alive.
\<close>

section \<open>Pools\<close>

datatype admission_class = Search | Ai | Parse

text \<open>
  The queue holds the waiters in order; the granted ones were handed a permit and have not run since.
  A waiter is named by a number, which stands for the identity of its reservation.
\<close>

record pool =
  pl_active :: nat
  pl_queue :: "nat list"
  pl_granted :: "nat list"
  pl_waiting :: nat
  pl_active_limit :: nat
  pl_waiting_limit :: nat

record admission =
  ad_search :: pool
  ad_ai :: pool
  ad_parse :: pool

datatype reservation = Active | Waiting nat

definition pool_new :: "nat \<Rightarrow> nat \<Rightarrow> pool" where
  "pool_new active waiting = \<lparr>pl_active = active, pl_queue = [], pl_granted = [], pl_waiting = waiting,
     pl_active_limit = active, pl_waiting_limit = waiting\<rparr>"

definition admission_new :: admission where
  "admission_new = \<lparr>ad_search = pool_new 2 16, ad_ai = pool_new 2 6, ad_parse = pool_new 1 2\<rparr>"

fun pool_of :: "admission_class \<Rightarrow> admission \<Rightarrow> pool" where
  "pool_of Search a = ad_search a"
| "pool_of Ai a = ad_ai a"
| "pool_of Parse a = ad_parse a"

fun set_pool :: "admission_class \<Rightarrow> pool \<Rightarrow> admission \<Rightarrow> admission" where
  "set_pool Search p a = a\<lparr>ad_search := p\<rparr>"
| "set_pool Ai p a = a\<lparr>ad_ai := p\<rparr>"
| "set_pool Parse p a = a\<lparr>ad_parse := p\<rparr>"

text \<open>\<open>try\_acquire\_owned\<close> and the release of a permit, on one semaphore of a pool.\<close>

definition take_active :: "pool \<Rightarrow> pool option" where
  "take_active p = (if pl_active p = 0 then None else Some (p\<lparr>pl_active := pl_active p - 1\<rparr>))"

definition take_waiting :: "pool \<Rightarrow> pool option" where
  "take_waiting p = (if pl_waiting p = 0 then None else Some (p\<lparr>pl_waiting := pl_waiting p - 1\<rparr>))"

definition give_active :: "pool \<Rightarrow> pool" where
  "give_active p = (case pl_queue p of
     [] \<Rightarrow> p\<lparr>pl_active := pl_active p + 1\<rparr>
   | i # q \<Rightarrow> p\<lparr>pl_queue := q, pl_granted := pl_granted p @ [i]\<rparr>)"

definition give_waiting :: "pool \<Rightarrow> pool" where
  "give_waiting p = p\<lparr>pl_waiting := pl_waiting p + 1\<rparr>"

text \<open>
  The future of \<open>acquire\_owned\<close>: polled, it is ready with the permit it was handed or finds one
  available, and otherwise stays in the queue; dropped, it leaves the queue or passes on its permit.
\<close>

definition poll_acquire :: "nat \<Rightarrow> pool \<Rightarrow> bool \<times> pool" where
  "poll_acquire i p =
     (if i \<in> set (pl_granted p) then (True, p\<lparr>pl_granted := remove1 i (pl_granted p)\<rparr>)
      else if i \<in> set (pl_queue p) then (False, p)
      else case take_active p of
        Some p' \<Rightarrow> (True, p')
      | None \<Rightarrow> (False, p\<lparr>pl_queue := pl_queue p @ [i]\<rparr>))"

definition drop_acquire :: "nat \<Rightarrow> pool \<Rightarrow> pool" where
  "drop_acquire i p =
     (if i \<in> set (pl_granted p) then give_active (p\<lparr>pl_granted := remove1 i (pl_granted p)\<rparr>)
      else p\<lparr>pl_queue := remove1 i (pl_queue p)\<rparr>)"

section \<open>Operations\<close>

definition reserve :: "admission_class \<Rightarrow> nat \<Rightarrow> admission \<Rightarrow> (error + reservation) \<times> admission" where
  "reserve c i a = (case take_active (pool_of c a) of
     Some p \<Rightarrow> (Inr Active, set_pool c p a)
   | None \<Rightarrow> (case take_waiting (pool_of c a) of
       Some p \<Rightarrow> (Inr (Waiting i), set_pool c p a)
     | None \<Rightarrow> (Inl (error_retry ''capacity_exceeded''), a)))"

text \<open>Dropping a reservation, polled or not, returns what it owns.\<close>

definition drop_reservation :: "admission_class \<Rightarrow> reservation \<Rightarrow> admission \<Rightarrow> admission" where
  "drop_reservation c r a = (case r of
     Active \<Rightarrow> set_pool c (give_active (pool_of c a)) a
   | Waiting i \<Rightarrow> set_pool c (give_waiting (drop_acquire i (pool_of c a))) a)"

definition drop_permit :: "admission_class \<Rightarrow> admission \<Rightarrow> admission" where
  "drop_permit c a = set_pool c (give_active (pool_of c a)) a"

text \<open>
  A poll of \<open>activate\<close> in its \<open>select!\<close>: the cancellation branch comes first, then the active permit.
  A permit that is won frees the waiting place; won after a late cancellation, it is given back.
\<close>

datatype activation = Pending | Granted | Refused error

definition poll_waiting :: "admission_class \<Rightarrow> nat \<Rightarrow> bool \<Rightarrow> bool \<Rightarrow> admission \<Rightarrow> activation \<times> admission" where
  "poll_waiting c i cancelled cancelled_after a =
     (if cancelled then (Refused (error_new ''cancelled''), drop_reservation c (Waiting i) a)
      else case poll_acquire i (pool_of c a) of
        (False, p) \<Rightarrow> (Pending, set_pool c p a)
      | (True, p) \<Rightarrow>
          let a' = set_pool c (give_waiting p) a
          in if cancelled_after then (Refused (error_new ''cancelled''), drop_permit c a')
             else (Granted, a'))"

definition activate :: "admission_class \<Rightarrow> bool \<Rightarrow> bool \<Rightarrow> reservation \<Rightarrow> admission \<Rightarrow> activation \<times> admission" where
  "activate c cancelled cancelled_after r a =
     (if cancelled then (Refused (error_new ''cancelled''), drop_reservation c r a)
      else case r of
        Active \<Rightarrow> (Granted, a)
      | Waiting i \<Rightarrow> poll_waiting c i False cancelled_after a)"

text \<open>\<open>acquire\<close> up to its first suspension; it is polled again as the activation of its reservation.\<close>

definition acquire :: "admission_class \<Rightarrow> nat \<Rightarrow> bool \<Rightarrow> bool \<Rightarrow> bool \<Rightarrow> admission \<Rightarrow> activation \<times> admission" where
  "acquire c i cancelled cancelled_later cancelled_after a =
     (if cancelled then (Refused (error_new ''cancelled''), a)
      else case reserve c i a of
        (Inl e, a') \<Rightarrow> (Refused e, a')
      | (Inr r, a') \<Rightarrow> activate c cancelled_later cancelled_after r a')"

text \<open>The counters of one pool as \<open>snapshot\<close> reports them, from the permits that are available.\<close>

definition pool_snapshot :: "pool \<Rightarrow> nat \<times> nat" where
  "pool_snapshot p = (pl_active_limit p - pl_active p, pl_waiting_limit p - pl_waiting p)"

definition snapshot :: "admission \<Rightarrow> (nat \<times> nat) \<times> (nat \<times> nat) \<times> (nat \<times> nat)" where
  "snapshot a = (pool_snapshot (ad_search a), pool_snapshot (ad_ai a), pool_snapshot (ad_parse a))"

lemma pool_of_set_pool [simp]: "pool_of c (set_pool d p a) = (if c = d then p else pool_of c a)"
  by (cases c; cases d) simp_all

lemma set_pool_twice [simp]: "set_pool c p (set_pool c q a) = set_pool c p a"
  by (cases c) simp_all

lemma admission_eqI: "(\<And>c. pool_of c a = pool_of c b) \<Longrightarrow> a = b"
  using pool_of.simps by (metis (full_types) admission.equality old.unit.exhaust)

lemma set_pool_same [simp]: "set_pool c (pool_of c a) a = a"
  by (rule admission_eqI) simp

section \<open>A pool with its tokens\<close>

text \<open>
  A pool of which \<open>n\<close> tokens own a slot and the waiters \<open>I\<close> a waiting place: every permit is
  available, owned or handed to a waiter, every waiting place free or owned, the queue holds waiters
  only, each once, and it is empty while a slot is free.
\<close>

definition pool_ok :: "pool \<Rightarrow> nat \<Rightarrow> nat set \<Rightarrow> bool" where
  "pool_ok p n I \<longleftrightarrow> finite I \<and> pl_active p + length (pl_granted p) + n = pl_active_limit p
     \<and> pl_waiting p + card I = pl_waiting_limit p
     \<and> distinct (pl_granted p @ pl_queue p) \<and> set (pl_granted p @ pl_queue p) \<subseteq> I
     \<and> (pl_queue p = [] \<or> pl_active p = 0)"

text \<open>The limits, which no operation changes.\<close>

definition limits :: "pool \<Rightarrow> nat \<times> nat" where
  "limits p = (pl_active_limit p, pl_waiting_limit p)"

lemma take_ok:
  "take_active p = Some q \<Longrightarrow> pool_ok p n I \<Longrightarrow> pool_ok q (Suc n) I \<and> limits q = limits p"
  "take_waiting p = Some q \<Longrightarrow> pool_ok p n I \<Longrightarrow> i \<notin> I \<Longrightarrow> pool_ok q n (insert i I) \<and> limits q = limits p"
  by (auto simp: take_active_def take_waiting_def pool_ok_def limits_def split: if_splits)

lemma give_active_ok: "pool_ok p (Suc n) I \<Longrightarrow> pool_ok (give_active p) n I \<and> limits (give_active p) = limits p"
  by (auto simp: give_active_def pool_ok_def limits_def split: list.split)

lemma give_waiting_ok:
  assumes "pool_ok p n I" "i \<in> I" "i \<notin> set (pl_granted p @ pl_queue p)"
  shows "pool_ok (give_waiting p) n (I - {i}) \<and> limits (give_waiting p) = limits p"
proof -
  have "0 < card I" using assms by (auto simp: pool_ok_def card_gt_0_iff)
  then show ?thesis using assms by (auto simp: give_waiting_def pool_ok_def limits_def)
qed

lemma give_active_waiters: "set (pl_granted (give_active p) @ pl_queue (give_active p)) = set (pl_granted p @ pl_queue p)"
  by (auto simp: give_active_def split: list.split)

lemma take_granted:
  assumes "pool_ok p n I" "i \<in> set (pl_granted p)"
  defines "q \<equiv> p\<lparr>pl_granted := remove1 i (pl_granted p)\<rparr>"
  shows "pool_ok q (Suc n) I \<and> i \<notin> set (pl_granted q @ pl_queue q) \<and> limits q = limits p"
proof -
  have "Suc (length (pl_granted q)) = length (pl_granted p)"
    using length_pos_if_in_set[OF assms(2)] assms(2) by (simp add: q_def length_remove1)
  then show ?thesis using assms(1,2)
    by (auto simp: q_def pool_ok_def limits_def dest: set_remove1_subset[THEN subsetD])
qed

lemma drop_acquire_ok:
  assumes "pool_ok p n I" "i \<in> I"
  shows "pool_ok (give_waiting (drop_acquire i p)) n (I - {i}) \<and> limits (give_waiting (drop_acquire i p)) = limits p"
proof -
  let ?q = "p\<lparr>pl_granted := remove1 i (pl_granted p)\<rparr>"
  have "pool_ok (drop_acquire i p) n I \<and> limits (drop_acquire i p) = limits p
    \<and> i \<notin> set (pl_granted (drop_acquire i p) @ pl_queue (drop_acquire i p))"
  proof (cases "i \<in> set (pl_granted p)")
    case True
    from take_granted[OF assms(1) True] show ?thesis
      using True give_active_ok[of ?q n I] give_active_waiters[of ?q] by (auto simp: drop_acquire_def)
  next
    case False
    then show ?thesis
      using assms by (auto simp: drop_acquire_def pool_ok_def limits_def dest: set_remove1_subset[THEN subsetD])
  qed
  then show ?thesis using give_waiting_ok[of "drop_acquire i p" n I i] assms(2) by auto
qed

lemma poll_acquire_ok:
  assumes "pool_ok p n I" "i \<in> I"
  shows "poll_acquire i p = (False, q) \<Longrightarrow> pool_ok q n I \<and> limits q = limits p"
    and "poll_acquire i p = (True, q) \<Longrightarrow> pool_ok (give_waiting q) (Suc n) (I - {i}) \<and> limits (give_waiting q) = limits p"
proof -
  show "poll_acquire i p = (False, q) \<Longrightarrow> pool_ok q n I \<and> limits q = limits p"
    using assms by (auto simp: poll_acquire_def take_active_def pool_ok_def limits_def split: if_splits)
  assume "poll_acquire i p = (True, q)"
  then have "pool_ok q (Suc n) I \<and> i \<notin> set (pl_granted q @ pl_queue q) \<and> limits q = limits p"
    using take_granted[OF assms(1), of i] take_ok(1)[of p q n I] assms
    by (auto simp: poll_acquire_def take_active_def split: if_splits)
  then show "pool_ok (give_waiting q) (Suc n) (I - {i}) \<and> limits (give_waiting q) = limits p"
    using give_waiting_ok[of q "Suc n" I i] assms(2) by auto
qed

section \<open>Clients of the pools\<close>

datatype token = Reserved reservation | Permit

record world =
  wd_admission :: admission
  wd_tokens :: "(admission_class \<times> token) multiset"

datatype admission_label =
    Reserve admission_class | Reject admission_class
  | Activate admission_class reservation bool bool | Drop admission_class token

definition drop_token :: "admission_class \<Rightarrow> token \<Rightarrow> admission \<Rightarrow> admission" where
  "drop_token c k a = (case k of Reserved r \<Rightarrow> drop_reservation c r a | Permit \<Rightarrow> drop_permit c a)"

text \<open>What becomes of the token of a reservation when it is polled.\<close>

definition after_activation :: "admission_class \<Rightarrow> reservation \<Rightarrow> activation
    \<Rightarrow> (admission_class \<times> token) multiset \<Rightarrow> (admission_class \<times> token) multiset" where
  "after_activation c r out T = (case out of
     Pending \<Rightarrow> T
   | Granted \<Rightarrow> T - {#(c, Reserved r)#} + {#(c, Permit)#}
   | Refused _ \<Rightarrow> T - {#(c, Reserved r)#})"

text \<open>The tokens of a class that own a slot, and its waiters.\<close>

definition owners :: "admission_class \<Rightarrow> (admission_class \<times> token) multiset \<Rightarrow> nat" where
  "owners c T = count T (c, Reserved Active) + count T (c, Permit)"

definition waiters :: "admission_class \<Rightarrow> (admission_class \<times> token) multiset \<Rightarrow> nat set" where
  "waiters c T = {i. (c, Reserved (Waiting i)) \<in># T}"

inductive admission_step :: "world \<Rightarrow> admission_label \<Rightarrow> world \<Rightarrow> bool" where
  step_reserve: "i \<notin> waiters c T \<Longrightarrow> reserve c i a = (Inr r, a') \<Longrightarrow>
    admission_step \<lparr>wd_admission = a, wd_tokens = T\<rparr> (Reserve c)
      \<lparr>wd_admission = a', wd_tokens = T + {#(c, Reserved r)#}\<rparr>"
| step_reject: "reserve c i a = (Inl e, a') \<Longrightarrow>
    admission_step \<lparr>wd_admission = a, wd_tokens = T\<rparr> (Reject c) \<lparr>wd_admission = a', wd_tokens = T\<rparr>"
| step_activate: "(c, Reserved r) \<in># T \<Longrightarrow> activate c k k' r a = (out, a') \<Longrightarrow>
    admission_step \<lparr>wd_admission = a, wd_tokens = T\<rparr> (Activate c r k k')
      \<lparr>wd_admission = a', wd_tokens = after_activation c r out T\<rparr>"
| step_drop: "(c, k) \<in># T \<Longrightarrow>
    admission_step \<lparr>wd_admission = a, wd_tokens = T\<rparr> (Drop c k)
      \<lparr>wd_admission = drop_token c k a, wd_tokens = T - {#(c, k)#}\<rparr>"

inductive_cases admission_stepE [elim!]: "admission_step w l w'"

definition world_init :: "world \<Rightarrow> bool" where
  "world_init w \<longleftrightarrow> w = \<lparr>wd_admission = admission_new, wd_tokens = {#}\<rparr>"

definition accounted :: "admission_class \<Rightarrow> world \<Rightarrow> bool" where
  "accounted c w \<longleftrightarrow> pool_ok (pool_of c (wd_admission w)) (owners c (wd_tokens w)) (waiters c (wd_tokens w))
     \<and> (\<forall>i. count (wd_tokens w) (c, Reserved (Waiting i)) \<le> 1)
     \<and> limits (pool_of c (wd_admission w)) = limits (pool_of c admission_new)"

definition world_inv :: "world \<Rightarrow> bool" where
  "world_inv w \<longleftrightarrow> (\<forall>c. accounted c w)"

lemma accounted_init: "world_init w \<Longrightarrow> world_inv w"
proof -
  assume "world_init w"
  then have "accounted c w" for c
    by (cases c) (simp_all add: world_init_def accounted_def pool_ok_def limits_def owners_def waiters_def
        admission_new_def pool_new_def)
  then show ?thesis by (simp add: world_inv_def)
qed

lemma tokens_add [simp]:
  "owners d (add_mset (c, k) T) = owners d T + (if d = c \<and> (k = Permit \<or> k = Reserved Active) then 1 else 0)"
  "waiters d (add_mset (c, k) T) = (case k of Reserved (Waiting i) \<Rightarrow> if d = c then insert i (waiters d T) else waiters d T
     | _ \<Rightarrow> waiters d T)"
  by (auto simp: owners_def waiters_def split: token.splits reservation.splits)

text \<open>One step on the pool of its class, with the token \<open>k\<close> taken out of the others.\<close>

lemma waiters_without:
  assumes "\<forall>j. count (add_mset (c, Reserved (Waiting i)) U) (c, Reserved (Waiting j)) \<le> 1"
  shows "i \<notin> waiters c U" "insert i (waiters c U) - {i} = waiters c U"
  using assms[rule_format, of i] by (auto simp: waiters_def not_in_iff)

lemma reserve_set_pool:
  "reserve c i a = (Inr r, a') \<Longrightarrow> \<exists>p. a' = set_pool c p a
     \<and> (r = Active \<and> take_active (pool_of c a) = Some p \<or> r = Waiting i \<and> take_waiting (pool_of c a) = Some p)"
  "reserve c i a = (Inl e, a') \<Longrightarrow> a' = a"
  by (auto simp: reserve_def split: option.splits)

lemma accounted_change:
  assumes "accounted d \<lparr>wd_admission = a, wd_tokens = T\<rparr>"
    and "\<And>d. d \<noteq> c \<Longrightarrow> owners d T' = owners d T \<and> waiters d T' = waiters d T
      \<and> (\<forall>i. count T' (d, Reserved (Waiting i)) = count T (d, Reserved (Waiting i)))"
    and "d = c \<Longrightarrow> pool_ok p (owners c T') (waiters c T') \<and> limits p = limits (pool_of c a)
      \<and> (\<forall>i. count T' (c, Reserved (Waiting i)) \<le> 1)"
  shows "accounted d \<lparr>wd_admission = set_pool c p a, wd_tokens = T'\<rparr>"
  using assms by (auto simp: accounted_def)

lemma accounted_reserve:
  assumes w: "accounted d \<lparr>wd_admission = a, wd_tokens = T\<rparr>" and i: "i \<notin> waiters c T"
    and r: "reserve c i a = (Inr r, a')"
  shows "accounted d \<lparr>wd_admission = a', wd_tokens = T + {#(c, Reserved r)#}\<rparr>"
proof -
  obtain p where p: "a' = set_pool c p a"
    "r = Active \<and> take_active (pool_of c a) = Some p \<or> r = Waiting i \<and> take_waiting (pool_of c a) = Some p"
    using reserve_set_pool(1)[OF r] by blast
  have "d = c \<Longrightarrow> pool_ok (pool_of c a) (owners c T) (waiters c T)" using w by (simp add: accounted_def)
  then have "d = c \<Longrightarrow> pool_ok p (owners c (T + {#(c, Reserved r)#})) (waiters c (T + {#(c, Reserved r)#}))
      \<and> limits p = limits (pool_of c a)"
    using p(2) take_ok(1)[of "pool_of c a" p] take_ok(2)[of "pool_of c a" p _ _ i] i by auto
  moreover have "d = c \<Longrightarrow> count (T + {#(c, Reserved r)#}) (c, Reserved (Waiting j)) \<le> 1" for j
    using w i p(2) by (auto simp: accounted_def waiters_def not_in_iff)
  ultimately show ?thesis unfolding p(1) by (intro accounted_change[OF w]) (auto split: reservation.splits)
qed

lemma unique_less: "\<forall>j. count (add_mset x U) (f j) \<le> (1 :: nat) \<Longrightarrow> \<forall>j. count U (f j) \<le> 1"
  by (metis count_add_mset le_SucI Suc_le_mono le_trans Suc_eq_plus1 le_add1)

text \<open>An operation that takes the token \<open>k\<close> of its class out of the others, or makes it a permit.\<close>

lemma accounted_drop:
  assumes w: "accounted d \<lparr>wd_admission = a, wd_tokens = add_mset (c, k) U\<rparr>"
  shows "accounted d \<lparr>wd_admission = drop_token c k a, wd_tokens = U\<rparr>"
proof -
  let ?p = "case k of Reserved (Waiting i) \<Rightarrow> give_waiting (drop_acquire i (pool_of c a)) | _ \<Rightarrow> give_active (pool_of c a)"
  have "drop_token c k a = set_pool c ?p a"
    by (simp add: drop_token_def drop_reservation_def drop_permit_def split: token.split reservation.split)
  moreover have "accounted d \<lparr>wd_admission = set_pool c ?p a, wd_tokens = U\<rparr>"
  proof (rule accounted_change[OF w])
    assume dc: "d = c"
    then have unique: "\<forall>j. count (add_mset (c, k) U) (c, Reserved (Waiting j)) \<le> 1"
      and pool: "pool_ok (pool_of c a) (owners c (add_mset (c, k) U)) (waiters c (add_mset (c, k) U))"
      using w by (simp_all add: accounted_def del: tokens_add count_add_mset)
    show "pool_ok ?p (owners c U) (waiters c U) \<and> limits ?p = limits (pool_of c a)
        \<and> (\<forall>i. count U (c, Reserved (Waiting i)) \<le> 1)"
    proof (cases "\<exists>i. k = Reserved (Waiting i)")
      case True
      then obtain i where k: "k = Reserved (Waiting i)" by blast
      note out = waiters_without[OF unique[unfolded k]]
      have "pool_ok (pool_of c a) (owners c U) (insert i (waiters c U))" using pool k by simp
      from drop_acquire_ok[OF this, of i] show ?thesis using out k unique_less[OF unique] by simp
    next
      case False
      then have "pool_ok (pool_of c a) (Suc (owners c U)) (waiters c U)"
        using pool by (cases k) (auto split: reservation.splits)
      from give_active_ok[OF this] show ?thesis using False unique_less[OF unique]
        by (simp split: token.split reservation.split)
    qed
  qed (auto split: token.splits reservation.splits)
  ultimately show ?thesis by simp
qed

lemma accounted_permit:
  "accounted d \<lparr>wd_admission = a, wd_tokens = add_mset (c, Permit) U\<rparr>
    \<Longrightarrow> accounted d \<lparr>wd_admission = drop_permit c a, wd_tokens = U\<rparr>"
  using accounted_drop[of d a c Permit U] by (simp add: drop_token_def)

lemma accounted_poll:
  assumes w: "accounted d \<lparr>wd_admission = a, wd_tokens = add_mset (c, Reserved (Waiting i)) U\<rparr>"
  shows "poll_acquire i (pool_of c a) = (False, p) \<Longrightarrow>
      accounted d \<lparr>wd_admission = set_pool c p a, wd_tokens = add_mset (c, Reserved (Waiting i)) U\<rparr>"
    and "poll_acquire i (pool_of c a) = (True, p) \<Longrightarrow>
      accounted d \<lparr>wd_admission = set_pool c (give_waiting p) a, wd_tokens = add_mset (c, Permit) U\<rparr>"
proof -
  have ok: "pool_ok (pool_of c a) (owners c U) (insert i (waiters c U))"
    "insert i (waiters c U) - {i} = waiters c U" "\<forall>j. count U (c, Reserved (Waiting j)) \<le> 1" if "d = c"
    using w that waiters_without[of c i U] unique_less[of "(c, Reserved (Waiting i))" U "\<lambda>j. (c, Reserved (Waiting j))"]
    by (simp_all add: accounted_def)
  show "accounted d \<lparr>wd_admission = set_pool c p a, wd_tokens = add_mset (c, Reserved (Waiting i)) U\<rparr>"
    if "poll_acquire i (pool_of c a) = (False, p)"
    by (rule accounted_change[OF w])
      (use that ok(1) poll_acquire_ok(1) w in \<open>fastforce simp: accounted_def\<close>)+
  show "accounted d \<lparr>wd_admission = set_pool c (give_waiting p) a, wd_tokens = add_mset (c, Permit) U\<rparr>"
    if "poll_acquire i (pool_of c a) = (True, p)"
    by (rule accounted_change[OF w])
      (use that ok poll_acquire_ok(2)[OF ok(1), of i p] w in \<open>auto simp: accounted_def\<close>)
qed

lemma accounted_activate:
  assumes w: "accounted d \<lparr>wd_admission = a, wd_tokens = add_mset (c, Reserved r) U\<rparr>"
    and r: "activate c k k' r a = (out, a')"
  shows "accounted d \<lparr>wd_admission = a', wd_tokens = after_activation c r out (add_mset (c, Reserved r) U)\<rparr>"
proof (cases "k \<or> r = Active")
  case True
  then show ?thesis
    using r w accounted_drop[OF w]
    by (auto simp: activate_def after_activation_def drop_token_def accounted_def split: if_splits reservation.splits)
next
  case False
  then obtain i where i: "r = Waiting i" by (cases r) auto
  obtain got p where poll: "poll_acquire i (pool_of c a) = (got, p)" by fastforce
  show ?thesis
    using r False poll w i accounted_poll[OF w[unfolded i], of p] accounted_permit[of d _ c U]
    by (cases got) (auto simp: activate_def poll_waiting_def after_activation_def Let_def split: if_splits)
qed

lemma accounted_step:
  assumes "accounted d w" "admission_step w l w'"
  shows "accounted d w'"
  using assms(2)
proof (cases rule: admission_step.cases)
  case (step_reserve i c T a r a')
  with assms(1) accounted_reserve show ?thesis by simp
next
  case (step_reject c i a e a' T)
  from step_reject(4) have "a' = a" by (rule reserve_set_pool(2))
  with step_reject assms(1) show ?thesis by simp
next
  case (step_activate c r T k k' a out a')
  from \<open>(c, Reserved r) \<in># T\<close> obtain U where "T = add_mset (c, Reserved r) U"
    by (rule mset_add)
  with step_activate assms(1) accounted_activate show ?thesis by simp
next
  case (step_drop c k T a)
  from \<open>(c, k) \<in># T\<close> obtain U where "T = add_mset (c, k) U" by (rule mset_add)
  with step_drop assms(1) accounted_drop show ?thesis by simp
qed

interpretation admission: transition_system world_init admission_step world_inv
proof
  show "world_init w \<Longrightarrow> world_inv w" for w by (rule accounted_init)
  show "world_inv w \<Longrightarrow> admission_step w l w' \<Longrightarrow> world_inv w'" for w l w'
    unfolding world_inv_def by (intro allI, rule accounted_step) simp_all
qed

lemma reach_accounted: "admission.reach w \<Longrightarrow> accounted c w"
  using admission.reach_inv unfolding world_inv_def by blast

section \<open>Properties\<close>

text \<open>
  C35: the pools stay within their limits and the health snapshot is exact. In every reachable world
  the tokens of a class that own an active slot, together with the waiters that were handed one and
  have not run since, never exceed the active limit of the class (2 for searches and for model runs,
  1 for parsing), and its waiters never exceed the waiting limit (16, 6 and 2). The snapshot reports
  as active the owners and those waiters, and as waiting all waiters, so a waiter that was just
  handed a slot is in both numbers until it runs. No waiter is queued while a slot is free.
\<close>

theorem admission_stays_within_limits:
  assumes "admission.reach w"
  shows "pool_snapshot (pool_of c (wd_admission w)) =
      (owners c (wd_tokens w) + length (pl_granted (pool_of c (wd_admission w))), card (waiters c (wd_tokens w)))
    \<and> set (pl_granted (pool_of c (wd_admission w))) \<subseteq> waiters c (wd_tokens w)
    \<and> owners c (wd_tokens w) + length (pl_granted (pool_of c (wd_admission w)))
        \<le> (case c of Search \<Rightarrow> 2 | Ai \<Rightarrow> 2 | Parse \<Rightarrow> 1)
    \<and> card (waiters c (wd_tokens w)) \<le> (case c of Search \<Rightarrow> 16 | Ai \<Rightarrow> 6 | Parse \<Rightarrow> 2)
    \<and> (pl_queue (pool_of c (wd_admission w)) = [] \<or> pl_active (pool_of c (wd_admission w)) = 0)"
  using reach_accounted[OF assms, of c]
  by (cases c) (auto simp: accounted_def pool_ok_def limits_def pool_snapshot_def admission_new_def pool_new_def)

lemma admission_reach_init: "admission.reach \<lparr>wd_admission = admission_new, wd_tokens = {#}\<rparr>"
  by (rule admission.reach_init) (simp add: world_init_def)

lemmas admission_ops = take_active_def take_waiting_def give_active_def give_waiting_def poll_acquire_def
  drop_acquire_def drop_reservation_def drop_permit_def drop_token_def reserve_def activate_def poll_waiting_def
  after_activation_def admission_new_def pool_new_def Let_def

text \<open>One parser that runs and one that waits; the slot is released and handed to the waiter.\<close>

definition parse_world :: "nat \<Rightarrow> nat list \<Rightarrow> nat list \<Rightarrow> nat \<Rightarrow> (admission_class \<times> token) multiset \<Rightarrow> world" where
  "parse_world active queue granted waiting T = \<lparr>wd_admission = admission_new\<lparr>ad_parse := \<lparr>pl_active = active,
     pl_queue = queue, pl_granted = granted, pl_waiting = waiting, pl_active_limit = 1, pl_waiting_limit = 2\<rparr>\<rparr>,
     wd_tokens = T\<rparr>"

lemma parse_worlds:
  "admission.reach (parse_world 0 [] [] 2 {#(Parse, Reserved Active)#})"
  "admission.reach (parse_world 0 [] [] 1 {#(Parse, Reserved Active), (Parse, Reserved (Waiting 7))#})"
  "admission.reach (parse_world 0 [7] [] 1 {#(Parse, Reserved Active), (Parse, Reserved (Waiting 7))#})"
  "admission.reach (parse_world 0 [] [7] 1 {#(Parse, Reserved (Waiting 7))#})"
proof -
  show 1: "admission.reach (parse_world 0 [] [] 2 {#(Parse, Reserved Active)#})"
    unfolding parse_world_def
    by (rule admission.reach_step[OF admission_reach_init],
        rule step_reserve[of _ _ _ _ Active, where T = "{#}", simplified]) (simp_all add: admission_ops waiters_def)
  show 2: "admission.reach (parse_world 0 [] [] 1 {#(Parse, Reserved Active), (Parse, Reserved (Waiting 7))#})"
    using admission.reach_step[OF 1[unfolded parse_world_def] step_reserve[of 7 Parse _ _ "Waiting 7"]]
    by (simp add: parse_world_def admission_ops waiters_def add_mset_commute)
  show 3: "admission.reach (parse_world 0 [7] [] 1 {#(Parse, Reserved Active), (Parse, Reserved (Waiting 7))#})"
    using admission.reach_step[OF 2[unfolded parse_world_def] step_activate[of Parse "Waiting 7" _ False False _ Pending]]
    by (simp add: parse_world_def admission_ops)
  show "admission.reach (parse_world 0 [] [7] 1 {#(Parse, Reserved (Waiting 7))#})"
    using admission.reach_step[OF 3[unfolded parse_world_def] step_drop[of Parse "Reserved Active"]]
    by (simp add: parse_world_def admission_ops)
qed

theorem admission_stays_within_limits_witness:
  "pool_snapshot (pool_of Parse (wd_admission (parse_world 0 [] [7] 1 {#(Parse, Reserved (Waiting 7))#}))) = (1, 1)"
  using admission_stays_within_limits[OF parse_worlds(4), of Parse]
  by (simp add: parse_world_def owners_def waiters_def)

text \<open>
  C36: no slot leaks. A reachable world in which no reservation and no permit is alive has all the
  capacity of a fresh service, whatever was cancelled, rejected or dropped on the way.
\<close>

theorem admission_leaks_nothing:
  assumes "admission.reach w" and "wd_tokens w = {#}"
  shows "wd_admission w = admission_new"
proof (rule admission_eqI)
  fix c
  show "pool_of c (wd_admission w) = pool_of c admission_new"
    using reach_accounted[OF assms(1), of c] assms(2)
    by (cases c) (auto simp: accounted_def pool_ok_def limits_def owners_def waiters_def admission_new_def pool_new_def)
qed

theorem admission_leaks_nothing_witness:
  "wd_admission (parse_world 1 [] [] 2 {#}) = admission_new"
proof -
  have "admission.reach (parse_world 1 [] [] 2 {#})"
    using admission.reach_step[OF parse_worlds(4)[unfolded parse_world_def] step_drop[of Parse "Reserved (Waiting 7)"]]
    by (simp add: parse_world_def admission_ops numeral_2_eq_2)
  then show ?thesis by (rule admission_leaks_nothing) (simp add: parse_world_def)
qed

end
