(* ===== verification/Sealed.thy ===== *)
theory Sealed imports Service begin

text \<open>
  Sealed objects (\<open>seal\<close> and \<open>open\<close> of \<open>workspace-service/src/store.rs\<close>) over the guarded local
  protection of \<open>privacy/src/protected\_blob.rs\<close>. A body is cut into chunks, each protected with a
  header that binds it to its row, its position and the number of chunks. The platform's
  protection is the record \<open>platform\<close>; what is relied on is that it undoes itself within the
  sizes its own guards admit.
\<close>

section \<open>Local protection\<close>

datatype protected_blob_error =
    EmptyInput | InputTooLarge | PlatformUnavailable | ProtectFailed | UnprotectFailed | InvalidOutput

record platform =
  pf_protect :: "string \<Rightarrow> protected_blob_error + string"
  pf_unprotect :: "string \<Rightarrow> protected_blob_error + string"

definition MAX_PROTECTED_PLAINTEXT_BYTES :: nat where
  "MAX_PROTECTED_PLAINTEXT_BYTES = 16 * 1024 * 1024"

definition protect_local :: "platform \<Rightarrow> string \<Rightarrow> protected_blob_error + string" where
  "protect_local P plaintext =
     (if plaintext = [] then Inl EmptyInput
      else if MAX_PROTECTED_PLAINTEXT_BYTES < length plaintext then Inl InputTooLarge
      else pf_protect P plaintext)"

definition unprotect_local :: "platform \<Rightarrow> string \<Rightarrow> protected_blob_error + string" where
  "unprotect_local P ciphertext =
     (if ciphertext = [] then Inl EmptyInput
      else if MAX_PROTECTED_PLAINTEXT_BYTES * 2 < length ciphertext then Inl InputTooLarge
      else pf_unprotect P ciphertext)"

text \<open>The documented behaviour of the platform's protection.\<close>

definition platform_ok :: "platform \<Rightarrow> bool" where
  "platform_ok P \<longleftrightarrow> (\<forall>x y. pf_protect P x = Inr y \<longrightarrow>
     pf_unprotect P y = Inr x \<and> y \<noteq> [] \<and> length y \<le> MAX_PROTECTED_PLAINTEXT_BYTES * 2)"

section \<open>Sealing\<close>

definition CHUNK :: nat where "CHUNK = 4 * 1024 * 1024"
definition MAX_OBJECT :: nat where "MAX_OBJECT = 64 * 1024 * 1024"

definition div_ceil :: "nat \<Rightarrow> nat \<Rightarrow> nat" where
  "div_ceil a b = (a + (b - 1)) div b"

definition chunk_header :: "string \<Rightarrow> string \<Rightarrow> nat \<Rightarrow> nat \<Rightarrow> string" where
  "chunk_header kind row i count =
     kind @ ''/'' @ row @ ''/'' @ decimal i @ ''/'' @ decimal count @ [CHR 0x00]"

definition chunk_slice :: "string \<Rightarrow> nat \<Rightarrow> string" where
  "chunk_slice bytes i =
     take (min ((i + 1) * CHUNK) (length bytes) - min (i * CHUNK) (length bytes))
       (drop (min (i * CHUNK) (length bytes)) bytes)"

definition frame :: "string \<Rightarrow> string" where
  "frame protected = le_bytes 4 (length protected) @ protected"

definition seal :: "platform \<Rightarrow> string \<Rightarrow> string \<Rightarrow> string \<Rightarrow> error + string" where
  "seal P kind row bytes =
     (if MAX_OBJECT < length bytes then Inl (error_new ''object_too_large'')
      else let count = div_ceil (max (length bytes) 1) CHUNK in
        and_then (try_map (\<lambda>i. map_err (\<lambda>_. error_new ''local_encryption_failed'')
            (protect_local P (chunk_header kind row i count @ chunk_slice bytes i))) [0..<count])
          (\<lambda>parts. Inr (''LAWEB1'' @ le_bytes 4 count @ concat (map frame parts))))"

section \<open>Opening\<close>

abbreviation invalid_object :: error where
  "invalid_object \<equiv> error_new ''encrypted_object_invalid''"

text \<open>The loop over the chunks; \<open>rest\<close> is what lies behind the read position.\<close>

fun open_chunks :: "platform \<Rightarrow> string \<Rightarrow> string \<Rightarrow> nat \<Rightarrow> nat list \<Rightarrow> string \<Rightarrow> string \<Rightarrow> error + string" where
  "open_chunks P kind row number [] rest plain =
     (if rest \<noteq> [] then Inl invalid_object else Inr plain)"
| "open_chunks P kind row number (i # is) rest plain =
     (if length rest < 4 then Inl invalid_object
      else let size = from_le (take 4 rest); behind = drop 4 rest in
        if length behind < size then Inl invalid_object
        else and_then (map_err (\<lambda>_. invalid_object) (unprotect_local P (take size behind))) (\<lambda>chunk.
          let header = chunk_header kind row i number in
          if \<not> prefix header chunk then Inl invalid_object
          else let plain' = plain @ drop (length header) chunk in
            if MAX_OBJECT < length plain' then Inl invalid_object
            else open_chunks P kind row number is (drop size behind) plain'))"

definition open_object :: "platform \<Rightarrow> string \<Rightarrow> string \<Rightarrow> string \<Rightarrow> error + string" where
  "open_object P kind row bytes =
     (if length bytes < 10 \<or> take 6 bytes \<noteq> ''LAWEB1'' then Inl invalid_object
      else let number = from_le (take 4 (drop 6 bytes)) in
        if number = 0 \<or> div_ceil MAX_OBJECT CHUNK < number then Inl invalid_object
        else open_chunks P kind row number [0..<number] (drop 10 bytes) [])"

declare open_chunks.simps(2) [simp del]

section \<open>Round trip\<close>

lemma chunk_pos [simp]: "0 < CHUNK"
  by (simp add: CHUNK_def)

lemma div_ceil_bounds:
  assumes "0 < b" "0 < a"
  shows "0 < div_ceil a b" "a \<le> div_ceil a b * b"
proof -
  obtain c where c: "b = Suc c" using assms(1) by (cases b) auto
  show "0 < div_ceil a b" using assms by (simp add: div_ceil_def div_greater_zero_iff)
  have "a + c < Suc c + Suc c * ((a + c) div Suc c)" by (rule dividend_less_times_div) simp
  then show "a \<le> div_ceil a b * b" by (simp add: div_ceil_def c algebra_simps)
qed

lemma div_ceil_mono: "a \<le> a' \<Longrightarrow> div_ceil a b \<le> div_ceil a' b"
  by (simp add: div_ceil_def div_le_mono)

lemma concat_slices: "concat (map (chunk_slice bytes) [0..<n]) = take (n * CHUNK) bytes"
proof (induction n)
  case (Suc n)
  have "take (n * CHUNK) bytes @ chunk_slice bytes n = take (n * CHUNK + CHUNK) bytes"
    by (cases "n * CHUNK \<le> length bytes") (auto simp: chunk_slice_def take_add min_def)
  with Suc show ?case by (simp add: add.commute)
qed simp

lemma protect_local_ok:
  assumes "platform_ok P" "protect_local P x = Inr y"
  shows "unprotect_local P y = Inr x" "length y < 256 ^ 4"
proof -
  from assms have y: "pf_unprotect P y = Inr x" "y \<noteq> []" "length y \<le> MAX_PROTECTED_PLAINTEXT_BYTES * 2"
    by (auto simp: protect_local_def platform_ok_def split: if_splits)
  then show "unprotect_local P y = Inr x" by (simp add: unprotect_local_def)
  show "length y < 256 ^ 4"
    using y(3) by (simp add: MAX_PROTECTED_PLAINTEXT_BYTES_def)
qed

lemma frame_read:
  "length (frame y) = 4 + length y" "take 4 (frame y) = le_bytes 4 (length y)"
  "drop 4 (frame y) = y"
  by (simp_all add: frame_def)

lemma open_chunks_frame:
  assumes "unprotect_local P y = Inr chunk" "length y < 256 ^ 4"
  shows "open_chunks P kind row number (i # is) (frame y @ rest) plain =
    (let header = chunk_header kind row i number; plain' = plain @ drop (length header) chunk in
     if \<not> prefix header chunk \<or> MAX_OBJECT < length plain' then Inl invalid_object
     else open_chunks P kind row number is rest plain')"
proof -
  have "take 4 (frame y @ rest) = le_bytes 4 (length y)" "drop 4 (frame y @ rest) = y @ rest"
    by (simp_all add: frame_read)
  then show ?thesis using assms by (simp add: open_chunks.simps(2) frame_read(1) from_le_bytes Let_def)
qed

lemma open_chunks_sealed:
  assumes "platform_ok P"
    and "list_all2 (\<lambda>i y. protect_local P (chunk_header kind row i number @ chunk_slice bytes i) = Inr y) is ys"
    and "length (plain @ concat (map (chunk_slice bytes) is)) \<le> MAX_OBJECT"
  shows "open_chunks P kind row number is (concat (map frame ys)) plain
    = Inr (plain @ concat (map (chunk_slice bytes) is))"
  using assms(2,3)
proof (induction "is" ys arbitrary: plain rule: list_all2_induct)
  case (Cons i "is" y ys)
  note y = protect_local_ok[OF assms(1) Cons(1)]
  have len: "length (plain @ chunk_slice bytes i) \<le> MAX_OBJECT" using Cons.prems by simp
  have "open_chunks P kind row number is (concat (map frame ys)) (plain @ chunk_slice bytes i)
    = Inr ((plain @ chunk_slice bytes i) @ concat (map (chunk_slice bytes) is))"
    by (rule Cons.IH) (use Cons.prems in simp)
  with len show ?case by (simp add: open_chunks_frame[OF y] Let_def)
qed simp

lemma seal_shape:
  assumes "seal P kind row bytes = Inr s"
  obtains count ys where "length bytes \<le> MAX_OBJECT" "0 < count" "count \<le> 16"
    "length bytes \<le> count * CHUNK"
    "list_all2 (\<lambda>i y. protect_local P (chunk_header kind row i count @ chunk_slice bytes i) = Inr y) [0..<count] ys"
    "s = ''LAWEB1'' @ le_bytes 4 count @ concat (map frame ys)"
proof -
  define count where "count = div_ceil (max (length bytes) 1) CHUNK"
  from assms obtain ys where run: "length bytes \<le> MAX_OBJECT"
    "try_map (\<lambda>i. map_err (\<lambda>_. error_new ''local_encryption_failed'')
       (protect_local P (chunk_header kind row i count @ chunk_slice bytes i))) [0..<count] = Inr ys"
    "s = ''LAWEB1'' @ le_bytes 4 count @ concat (map frame ys)"
    by (auto simp: seal_def Let_def count_def split: if_splits)
  have "0 < count" unfolding count_def by (rule div_ceil_bounds) simp_all
  moreover have "length bytes \<le> count * CHUNK"
    using div_ceil_bounds(2)[of CHUNK "max (length bytes) 1"] by (simp add: count_def)
  moreover have "count \<le> div_ceil MAX_OBJECT CHUNK"
    unfolding count_def by (rule div_ceil_mono) (use run(1) in \<open>simp add: MAX_OBJECT_def\<close>)
  moreover have "div_ceil MAX_OBJECT CHUNK = 16" by (simp add: div_ceil_def MAX_OBJECT_def CHUNK_def)
  ultimately show thesis using run by (intro that) (simp_all add: try_map_Inr_iff)
qed

lemma open_object_sealed:
  assumes "0 < count" "count \<le> 16"
  shows "open_object P kind row (''LAWEB1'' @ le_bytes 4 count @ rest)
    = open_chunks P kind row count [0..<count] rest []"
proof -
  have "div_ceil MAX_OBJECT CHUNK = 16" by (simp add: div_ceil_def MAX_OBJECT_def CHUNK_def)
  then show ?thesis using assms by (simp add: open_object_def from_le_bytes)
qed

text \<open>
  C17: sealing is undone by opening. Whatever body is sealed for a row, of any admitted size and
  cut into any number of chunks, opens to exactly that body under the same kind and identifier.
\<close>

theorem seal_open_roundtrip:
  assumes "platform_ok P" and "seal P kind row bytes = Inr s"
  shows "open_object P kind row s = Inr bytes"
  using assms(2)
proof (rule seal_shape)
  fix count ys
  assume run: "length bytes \<le> MAX_OBJECT" "0 < count" "count \<le> 16" "length bytes \<le> count * CHUNK"
    "list_all2 (\<lambda>i y. protect_local P (chunk_header kind row i count @ chunk_slice bytes i) = Inr y) [0..<count] ys"
    "s = ''LAWEB1'' @ le_bytes 4 count @ concat (map frame ys)"
  have whole: "concat (map (chunk_slice bytes) [0..<count]) = bytes"
    using run(4) by (simp add: concat_slices)
  show ?thesis unfolding run(6) open_object_sealed[OF run(2,3)]
    using open_chunks_sealed[OF assms(1) run(5), of "[]"] run(1) unfolding whole by simp
qed

lemma header_inj:
  assumes "prefix (chunk_header k' r' i n) (chunk_header k r i n @ rest)"
    and "CHR 0x00 \<notin> set (k @ r @ k' @ r')" "CHR ''/'' \<notin> set (r @ r')"
  shows "k' = k \<and> r' = r"
proof -
  have zero: "CHR 0x00 \<notin> set (decimal m)" for m
    using decimal_digits[of m] by (auto simp: list_all_iff is_ascii_digit_def)
  let ?tail = "''/'' @ decimal i @ ''/'' @ decimal n"
  let ?h = "k @ ''/'' @ r @ ?tail" and ?h' = "k' @ ''/'' @ r' @ ?tail"
  from assms(1) obtain x where "?h' @ CHR 0x00 # x = ?h @ CHR 0x00 # rest"
    by (auto simp: prefix_def chunk_header_def)
  then have "takeWhile ((\<noteq>) (CHR 0x00)) (?h' @ CHR 0x00 # x) = takeWhile ((\<noteq>) (CHR 0x00)) (?h @ CHR 0x00 # rest)"
    by simp
  moreover have "takeWhile ((\<noteq>) (CHR 0x00)) (h @ CHR 0x00 # y) = h" if "CHR 0x00 \<notin> set h" for h y
    using that by (induction h) auto
  ultimately have "?h' = ?h" using assms(2) zero by (auto simp del: append_assoc)
  then have eq: "k' @ ''/'' @ r' = k @ ''/'' @ r" by simp
  have last: "takeWhile ((\<noteq>) (CHR ''/'')) (rev (u @ ''/'' @ v)) = rev v" if "CHR ''/'' \<notin> set v" for u v
    using that by (induction v rule: rev_induct) auto
  have "rev r' = takeWhile ((\<noteq>) (CHR ''/'')) (rev (k' @ ''/'' @ r'))"
    by (rule last[symmetric]) (use assms(3) in simp)
  also have "\<dots> = takeWhile ((\<noteq>) (CHR ''/'')) (rev (k @ ''/'' @ r))" unfolding eq ..
  also have "\<dots> = rev r" by (rule last) (use assms(3) in simp)
  finally have "r' = r" by simp
  with eq show ?thesis by simp
qed

text \<open>
  C37: sealed bodies are bound to their row. A body sealed for one row does not open under another
  kind or identifier, as long as kinds and identifiers hold no NUL byte and identifiers no slash:
  opening it anywhere either fails or is opening it in its own row, with its own content.
\<close>

theorem sealed_bodies_are_bound:
  assumes "platform_ok P" and "seal P kind row bytes = Inr s"
    and "open_object P kind' row' s = Inr bytes'"
    and "CHR 0x00 \<notin> set (kind @ row @ kind' @ row')" and "CHR ''/'' \<notin> set (row @ row')"
  shows "kind' = kind \<and> row' = row \<and> bytes' = bytes"
  using assms(2)
proof (rule seal_shape)
  fix count ys
  assume run: "0 < count" "count \<le> 16"
    "list_all2 (\<lambda>i y. protect_local P (chunk_header kind row i count @ chunk_slice bytes i) = Inr y) [0..<count] ys"
    "s = ''LAWEB1'' @ le_bytes 4 count @ concat (map frame ys)"
  from run(1) have first: "[0..<count] = 0 # [1..<count]" by (simp add: upt_conv_Cons)
  with run(3) obtain y zs where y: "ys = y # zs"
    "protect_local P (chunk_header kind row 0 count @ chunk_slice bytes 0) = Inr y"
    by (auto simp: list_all2_Cons1)
  have "open_chunks P kind' row' count (0 # [1..<count]) (frame y @ concat (map frame zs)) [] = Inr bytes'"
    using assms(3) unfolding run(4) y(1) open_object_sealed[OF run(1,2)] first by simp
  then have "prefix (chunk_header kind' row' 0 count) (chunk_header kind row 0 count @ chunk_slice bytes 0)"
    unfolding open_chunks_frame[OF protect_local_ok[OF assms(1) y(2)]] by (simp add: Let_def split: if_splits)
  then have "kind' = kind \<and> row' = row" by (rule header_inj) (use assms(4,5) in auto)
  with seal_open_roundtrip[OF assms(1,2)] assms(3) show ?thesis by simp
qed

section \<open>A platform for the witnesses\<close>

definition sample_platform :: platform where
  "sample_platform = \<lparr>
     pf_protect = (\<lambda>x. if length x < MAX_PROTECTED_PLAINTEXT_BYTES then Inr (CHR ''#'' # x) else Inl ProtectFailed),
     pf_unprotect = (\<lambda>y. case y of CHR ''#'' # x \<Rightarrow> Inr x | _ \<Rightarrow> Inl UnprotectFailed)\<rparr>"

lemma sample_platform_ok [simp]: "platform_ok sample_platform"
  by (auto simp: platform_ok_def sample_platform_def split: if_splits)

lemma small_decimals: "decimal 0 = ''0''" "decimal 1 = ''1''"
  by (simp_all add: decimal.simps) (code_simp, code_simp)

definition sample_blob :: "string \<Rightarrow> string \<Rightarrow> string \<Rightarrow> string" where
  "sample_blob kind row bytes =
     ''LAWEB1'' @ le_bytes 4 1 @ concat (map frame [CHR ''#'' # chunk_header kind row 0 1 @ bytes])"

lemma sample_seal:
  assumes "length bytes \<le> 1000" "length kind \<le> 1000" "length row \<le> 1000"
  shows "seal sample_platform kind row bytes = Inr (sample_blob kind row bytes)"
proof -
  have "div_ceil (max (length bytes) 1) CHUNK = 1"
    using assms by (cases "length bytes") (auto simp: div_ceil_def CHUNK_def max_def div_nat_eqI)
  moreover have "chunk_slice bytes 0 = bytes" using assms by (simp add: chunk_slice_def CHUNK_def)
  moreover have "protect_local sample_platform (chunk_header kind row 0 1 @ bytes)
      = Inr (CHR ''#'' # chunk_header kind row 0 1 @ bytes)"
    unfolding chunk_header_def small_decimals using assms
    by (simp add: protect_local_def sample_platform_def MAX_PROTECTED_PLAINTEXT_BYTES_def)
  ultimately show ?thesis using assms
    by (simp only: seal_def Let_def upt_conv_Cons[of 0 1] less_one refl sample_blob_def)
      (simp add: MAX_OBJECT_def)
qed

theorem seal_open_roundtrip_witness:
  "open_object sample_platform ''task'' ''t1'' (sample_blob ''task'' ''t1'' ''hi'') = Inr ''hi''"
  by (rule seal_open_roundtrip[OF sample_platform_ok sample_seal]) simp_all

theorem sealed_bodies_are_bound_witness:
  "open_object sample_platform ''task'' ''t2'' (sample_blob ''task'' ''t1'' ''hi'') \<noteq> Inr ''hi''"
  using sealed_bodies_are_bound[OF sample_platform_ok sample_seal, of "''hi''" "''task''" "''t1''" "''task''" "''t2''" "''hi''"]
  by auto

end
