(* ===== verification/Types.thy ===== *)
theory Types imports Service Analysis begin

text \<open>
  The records of the workspace (\<open>workspace-service/src/types.rs\<close>) and the JSON their derived
  serialisers produce, members in declaration order; the nested redaction records are in camel
  case, as their attribute says.
\<close>

record ws_group =
  wg_id :: string
  wg_name :: string
  wg_dictionary_revision :: nat
  wg_namespace :: string
  wg_entries :: "dictionary_entry list"

record material =
  m_id :: string
  m_name :: string
  m_group_id :: string
  m_task_id :: string
  m_status :: string
  m_reason_code :: "string option"
  m_revision :: nat
  m_source_sha256 :: string
  m_source_byte_len :: nat
  m_source_format :: string
  m_encoding :: "string option"
  m_original_text :: string
  m_analysis :: "analysis option"
  m_result_id :: "string option"
  m_dismissed :: "string list"
  m_dictionary_revision :: nat

record task =
  tk_id :: string
  tk_group_id :: string
  tk_client_id :: "string option"
  tk_request_id :: string
  tk_fingerprint :: string
  tk_material_ids :: "string list"
  tk_created_at :: nat

record ready_result =
  rr_id :: string
  rr_material_id :: string
  rr_group_id :: string
  rr_revision :: nat
  rr_dictionary_revision :: nat
  rr_output_sha256 :: string
  rr_text_byte_len :: nat
  rr_text :: string
  rr_created_at :: nat
  rr_expires_at :: nat
  rr_revoked :: bool
  rr_findings :: "finding list"
  rr_replacements :: "replacement list"
  rr_source_sha256 :: string

record cloud_consent =
  cc_id :: string
  cc_provider_id :: string
  cc_model :: string
  cc_profile_hash :: string
  cc_source_hashes :: "(string \<times> nat \<times> string) list"
  cc_expires_at :: nat
  cc_used_materials :: "string list"

record provider_config =
  pc_id :: string
  pc_name :: string
  pc_base_url :: string
  pc_model :: string
  pc_allow_private_network :: bool
  pc_revision :: nat

record mcp_client =
  mc_id :: string
  mc_name :: string
  mc_group_id :: string
  mc_enabled :: bool
  mc_token_hash :: string
  mc_created_at :: nat

record import_file =
  if_name :: string
  if_bytes :: string
  if_encoding :: "string option"

record review_request =
  rv_revision :: nat
  rv_dictionary :: "dictionary_entry list"
  rv_dismissed :: "string list"

section \<open>Serialised form\<close>

definition json_nat :: "nat \<Rightarrow> json" where "json_nat n = JInt (int n)"

definition json_opt :: "('a \<Rightarrow> json) \<Rightarrow> 'a option \<Rightarrow> json" where
  "json_opt f x = (case x of None \<Rightarrow> JNull | Some a \<Rightarrow> f a)"

definition finding_json :: "finding \<Rightarrow> json" where
  "finding_json f = JObj [(''id'', JStr (f_id f)), (''text'', JStr (f_text f)), (''kind'', JStr (f_kind f)),
     (''alias'', json_opt JStr (f_alias f)), (''source'', JStr (f_source f)),
     (''resolved'', JBool (f_resolved f)), (''dismissed'', JBool (f_dismissed f))]"

definition ai_finding_json :: "ai_finding \<Rightarrow> json" where
  "ai_finding_json f = JObj [(''text'', JStr (ai_text f)), (''kind'', JStr (ai_kind f)),
     (''start'', json_nat (ai_start f)), (''end'', json_nat (ai_end f)),
     (''confidencePpm'', json_opt (\<lambda>c. json_nat (unat c)) (ai_confidence_ppm f))]"

definition replacement_json :: "replacement \<Rightarrow> json" where
  "replacement_json r = JObj [(''findingId'', JStr (r_finding_id r)),
     (''sourceStart'', json_nat (r_source_start r)), (''sourceEnd'', json_nat (r_source_end r)),
     (''outputStart'', json_nat (r_output_start r)), (''outputEnd'', json_nat (r_output_end r)),
     (''alias'', JStr (r_alias r))]"

definition analysis_json :: "analysis \<Rightarrow> json" where
  "analysis_json a = JObj [(''text'', JStr (a_text a)), (''findings'', JArr (map finding_json (a_findings a))),
     (''aiFindings'', json_opt (\<lambda>fs. JArr (map ai_finding_json fs)) (a_ai_findings a)),
     (''replacements'', JArr (map replacement_json (a_replacements a))),
     (''needsReview'', JBool (a_needs_review a)), (''sourceSha256'', JStr (a_source_sha256 a)),
     (''outputSha256'', JStr (a_output_sha256 a))]"

definition material_json :: "material \<Rightarrow> json" where
  "material_json m = JObj [(''id'', JStr (m_id m)), (''name'', JStr (m_name m)),
     (''group_id'', JStr (m_group_id m)), (''task_id'', JStr (m_task_id m)), (''status'', JStr (m_status m)),
     (''reason_code'', json_opt JStr (m_reason_code m)), (''revision'', json_nat (m_revision m)),
     (''source_sha256'', JStr (m_source_sha256 m)), (''source_byte_len'', json_nat (m_source_byte_len m)),
     (''source_format'', JStr (m_source_format m)), (''encoding'', json_opt JStr (m_encoding m)),
     (''original_text'', JStr (m_original_text m)), (''analysis'', json_opt analysis_json (m_analysis m)),
     (''result_id'', json_opt JStr (m_result_id m)), (''dismissed'', JArr (map JStr (m_dismissed m))),
     (''dictionary_revision'', json_nat (m_dictionary_revision m))]"

definition task_json :: "task \<Rightarrow> json" where
  "task_json t = JObj [(''id'', JStr (tk_id t)), (''group_id'', JStr (tk_group_id t)),
     (''client_id'', json_opt JStr (tk_client_id t)), (''request_id'', JStr (tk_request_id t)),
     (''fingerprint'', JStr (tk_fingerprint t)), (''material_ids'', JArr (map JStr (tk_material_ids t))),
     (''created_at'', json_nat (tk_created_at t))]"

definition ready_result_json :: "ready_result \<Rightarrow> json" where
  "ready_result_json r = JObj [(''id'', JStr (rr_id r)), (''material_id'', JStr (rr_material_id r)),
     (''group_id'', JStr (rr_group_id r)), (''revision'', json_nat (rr_revision r)),
     (''dictionary_revision'', json_nat (rr_dictionary_revision r)),
     (''output_sha256'', JStr (rr_output_sha256 r)), (''text_byte_len'', json_nat (rr_text_byte_len r)),
     (''text'', JStr (rr_text r)), (''created_at'', json_nat (rr_created_at r)),
     (''expires_at'', json_nat (rr_expires_at r)), (''revoked'', JBool (rr_revoked r)),
     (''findings'', JArr (map finding_json (rr_findings r))),
     (''replacements'', JArr (map replacement_json (rr_replacements r))),
     (''source_sha256'', JStr (rr_source_sha256 r))]"

definition provider_config_json :: "provider_config \<Rightarrow> json" where
  "provider_config_json p = JObj [(''id'', JStr (pc_id p)), (''name'', JStr (pc_name p)),
     (''base_url'', JStr (pc_base_url p)), (''model'', JStr (pc_model p)),
     (''allow_private_network'', JBool (pc_allow_private_network p)), (''revision'', json_nat (pc_revision p))]"

end
