(* ===== verification/Store.thy ===== *)
theory Store imports Sealed Types begin

text \<open>
  The object store (\<open>workspace-service/src/store.rs\<close>). The state is the five tables of the
  schema: the sealed bodies, the clear-text index, the sealed summaries, the relations and the
  quarantine, each ordered by its primary key (kind, identifier). An operation is a function from
  the tables to a result and the next tables; a transaction that fails leaves the tables as they
  were. The JSON and base64
  codecs are the \<open>host\<close>'s, with the platform's protection.
\<close>

type_synonym key = "string \<times> string"

record object_index =
  ix_status :: "string option"
  ix_subkind :: "string option"
  ix_created_at :: nat
  ix_updated_at :: nat
  ix_group_id :: "string option"
  ix_task_id :: "string option"
  ix_conversation_id :: "string option"
  ix_parent_id :: "string option"
  ix_material_id :: "string option"
  ix_result_id :: "string option"
  ix_revision :: "nat option"

record stored_row =
  sr_kind :: string
  sr_id :: string
  sr_body :: string
  sr_index :: object_index
  sr_summary :: "string option"
  sr_relations :: "(string \<times> string) list"

record store =
  st_objects :: "(key, string) omap"
  st_index :: "(key, object_index) omap"
  st_summaries :: "(key, string) omap"
  st_relations :: "(key \<times> string \<times> string) list"
  st_corrupt :: "(key, string \<times> nat) omap"

type_synonym 'a sop = "(store, error, 'a) op"

record host =
  hs_platform :: platform
  hs_to_vec :: "json \<Rightarrow> string"
  hs_from_slice :: "string \<Rightarrow> json option"
  hs_b64_encode :: "string \<Rightarrow> string"
  hs_b64_decode :: "string \<Rightarrow> string option"

text \<open>
  The documented behaviour of the host: protection undoes itself, what the reader accepts of a
  written value is that value, and base64 decodes what it encodes.
\<close>

definition host_ok :: "host \<Rightarrow> bool" where
  "host_ok H \<longleftrightarrow> platform_ok (hs_platform H) \<and> (\<forall>v w. hs_from_slice H (hs_to_vec H v) = Some w \<longrightarrow> w = v)
     \<and> (\<forall>x. hs_b64_decode H (hs_b64_encode H x) = Some x)"

section \<open>Index, relations and summary of a value\<close>

definition json_get :: "json \<Rightarrow> string \<Rightarrow> json option" where
  "json_get v f = (case v of JObj kvs \<Rightarrow> map_of kvs f | _ \<Rightarrow> None)"

text \<open>\<open>value[field]\<close>, which is \<open>null\<close> where there is no such member.\<close>

definition json_at :: "json \<Rightarrow> string \<Rightarrow> json" where
  "json_at v f = (case json_get v f of Some w \<Rightarrow> w | None \<Rightarrow> JNull)"

definition summary_kind :: "string \<Rightarrow> string" where
  "summary_kind kind = ''summary/'' @ kind"

definition field_string :: "json \<Rightarrow> string \<Rightarrow> string option" where
  "field_string v f = (case json_get v f of Some (JStr s) \<Rightarrow> if s = [] then None else Some s | _ \<Rightarrow> None)"

definition field_u64 :: "json \<Rightarrow> string \<Rightarrow> nat option" where
  "field_u64 v f = (case json_get v f of
     Some (JInt n) \<Rightarrow> if 0 \<le> n \<and> n < 2 ^ 64 then Some (nat n) else None | _ \<Rightarrow> None)"

definition or_else :: "'a option \<Rightarrow> 'a option \<Rightarrow> 'a option" where
  "or_else x y = (case x of None \<Rightarrow> y | Some a \<Rightarrow> Some a)"

definition request_of :: "json \<Rightarrow> json" where
  "request_of v = json_at v ''request''"

definition index_for_value :: "nat \<Rightarrow> json \<Rightarrow> object_index" where
  "index_for_value now v = \<lparr>
     ix_status = field_string v ''status'',
     ix_subkind = field_string v ''kind'',
     ix_created_at = (case field_u64 v ''created_at'' of Some n \<Rightarrow> n | None \<Rightarrow> now),
     ix_updated_at = (case field_u64 v ''updated_at'' of Some n \<Rightarrow> n | None \<Rightarrow> now),
     ix_group_id = field_string v ''group_id'',
     ix_task_id = field_string v ''task_id'',
     ix_conversation_id = or_else (field_string v ''conversation_id'') (field_string (request_of v) ''conversation_id''),
     ix_parent_id = or_else (field_string v ''parent_id'') (field_string (request_of v) ''parent_id''),
     ix_material_id = field_string v ''material_id'',
     ix_result_id = field_string v ''result_id'',
     ix_revision = or_else (field_u64 v ''revision'') (field_u64 v ''dictionary_revision'')\<rparr>"

definition empty_index :: "nat \<Rightarrow> object_index" where
  "empty_index now = \<lparr>ix_status = None, ix_subkind = None, ix_created_at = now, ix_updated_at = now,
     ix_group_id = None, ix_task_id = None, ix_conversation_id = None, ix_parent_id = None,
     ix_material_id = None, ix_result_id = None, ix_revision = None\<rparr>"

definition relation_pair :: "string \<Rightarrow> json \<Rightarrow> (string \<times> string) option" where
  "relation_pair relation_kind v = (case v of
     JStr i \<Rightarrow> if i = [] then None else Some (relation_kind, i)
   | JObj _ \<Rightarrow> map_option (\<lambda>i.
       (case field_string v ''source'' of None \<Rightarrow> relation_kind | Some s \<Rightarrow> relation_kind @ ''_'' @ s, i))
       (field_string v ''id'')
   | _ \<Rightarrow> None)"

definition relation_pairs :: "json \<Rightarrow> string \<Rightarrow> string \<Rightarrow> (string \<times> string) list" where
  "relation_pairs v relation_kind f = (case json_get v f of
     Some (JArr vs) \<Rightarrow> List.map_filter (relation_pair relation_kind) vs | _ \<Rightarrow> [])"

definition field_relations :: "json \<Rightarrow> (string \<times> string) list \<Rightarrow> (string \<times> string) list" where
  "field_relations v fs =
     List.map_filter (\<lambda>(relation_kind, f). map_option (\<lambda>i. (relation_kind, i)) (field_string v f)) fs"

definition relations_for_value :: "string \<Rightarrow> json \<Rightarrow> (string \<times> string) list" where
  "relations_for_value kind v = btree_set (
     field_relations v [(''group'', ''group_id''), (''task'', ''task_id''), (''conversation'', ''conversation_id''),
       (''parent'', ''parent_id''), (''material'', ''material_id''), (''result'', ''result_id'')]
     @ relation_pairs v ''material'' ''material_ids'' @ relation_pairs v ''material'' ''materials''
     @ relation_pairs v ''attachment'' ''attachment_ids''
     @ (if kind = ''ai_run''
        then field_relations (request_of v) [(''conversation'', ''conversation_id''), (''parent'', ''parent_id'')]
          @ relation_pairs (request_of v) ''material'' ''materials''
          @ relation_pairs (request_of v) ''attachment'' ''attachment_ids''
        else []))"

definition document_id_of :: "string \<Rightarrow> json \<Rightarrow> json" where
  "document_id_of i v =
     (if json_at v ''kind'' = JStr ''writing''
      then (case json_at v ''document_id'' of JStr d \<Rightarrow> if d = [] then JStr i else JStr d | _ \<Rightarrow> JStr i)
      else JNull)"

definition copied :: "json \<Rightarrow> string list \<Rightarrow> (string \<times> json) list" where
  "copied v fs = map (\<lambda>f. (f, json_at v f)) fs"

definition summary_for_value :: "string \<Rightarrow> string \<Rightarrow> json \<Rightarrow> object_index \<Rightarrow> json" where
  "summary_for_value kind i v ix =
     (let text = json_opt JStr; number = json_opt json_nat;
          created = (''created_at'', json_nat (ix_created_at ix));
          updated = (''updated_at'', json_nat (ix_updated_at ix));
          revision = (''revision'', number (ix_revision ix)) in
      if kind = ''material'' then JObj ([(''id'', JStr i), (''name'', json_at v ''name''),
          (''group_id'', text (ix_group_id ix)), (''task_id'', text (ix_task_id ix)),
          (''status'', text (ix_status ix)), (''result_id'', text (ix_result_id ix)),
          (''reason_code'', json_at v ''reason_code''), revision]
        @ copied v [''source_sha256'', ''source_byte_len'', ''source_format'']
        @ [(''has_analysis'', JBool (case json_at v ''analysis'' of JObj _ \<Rightarrow> True | _ \<Rightarrow> False))])
      else if kind = ''ai_run'' then JObj ([(''id'', JStr i), (''kind'', text (ix_subkind ix)),
          (''status'', text (ix_status ix))] @ copied v [''stage'', ''title'', ''error_code'']
        @ [created, updated] @ copied v [''provider_id'', ''model'']
        @ [(''conversation_id'', text (ix_conversation_id ix)), (''parent_id'', text (ix_parent_id ix)),
           (''context_revision'', json_at (json_at v ''request'') ''context_revision''), revision,
           (''document_id'', document_id_of i v)])
      else if kind = ''ai_conversation'' \<or> kind = ''conversation'' then
        JObj ([(''id'', JStr i), (''title'', json_at v ''title''), updated]
        @ copied v [''context_revision'', ''context_known'', ''materials'', ''attachment_ids'', ''context_ranges''])
      else if kind = ''ai_attachment'' then
        JObj ([(''id'', JStr i)] @ copied v [''sha256'', ''source_byte_len'', ''format''] @ [created])
      else if kind = ''result'' then
        JObj ([(''id'', JStr i), (''material_id'', text (ix_material_id ix)), revision]
        @ copied v [''output_sha256'', ''text_byte_len'', ''revoked''])
      else if kind = ''group'' then JObj ([(''id'', JStr i)] @ copied v [''name'', ''dictionary_revision''])
      else if kind = ''task'' then JObj [(''id'', JStr i), (''group_id'', text (ix_group_id ix)), created,
          (''material_ids'', json_at v ''material_ids'')]
      else if kind = ''ai_stage'' then
        JObj ([(''material_id'', json_at v ''material_id''), revision]
        @ copied v [''source_sha256'', ''stage''] @ [updated, (''error_code'', json_at v ''error_code'')])
      else JObj [(''id'', JStr i), (''status'', text (ix_status ix)), created, updated, revision])"

section \<open>Rows\<close>

definition encoded_raw :: "host \<Rightarrow> nat \<Rightarrow> string \<Rightarrow> string \<Rightarrow> string \<Rightarrow> error + stored_row" where
  "encoded_raw H now kind i bytes =
     and_then (seal (hs_platform H) kind i bytes) (\<lambda>body.
       Inr \<lparr>sr_kind = kind, sr_id = i, sr_body = body, sr_index = empty_index now,
            sr_summary = None, sr_relations = []\<rparr>)"

definition encoded :: "host \<Rightarrow> nat \<Rightarrow> string \<Rightarrow> string \<Rightarrow> json \<Rightarrow> error + stored_row" where
  "encoded H now kind i x =
     (let data = hs_to_vec H x in
      and_then (ok_or (hs_from_slice H data) error_from_json) (\<lambda>v.
      let ix = index_for_value now v; summary = summary_for_value kind i v ix in
      and_then (seal (hs_platform H) kind i data) (\<lambda>body.
      and_then (seal (hs_platform H) (summary_kind kind) i (hs_to_vec H summary)) (\<lambda>sealed_summary.
        Inr \<lparr>sr_kind = kind, sr_id = i, sr_body = body, sr_index = ix,
             sr_summary = Some sealed_summary, sr_relations = relations_for_value kind v\<rparr>))))"

section \<open>Transactions\<close>

definition transaction :: "'a sop \<Rightarrow> 'a sop" where
  "transaction m s = (case m s of (Inl e, _) \<Rightarrow> (Inl e, s) | (Inr a, t) \<Rightarrow> (Inr a, t))"

definition i64_metadata :: "nat \<Rightarrow> error + nat" where
  "i64_metadata n = (if n < 2 ^ 63 then Inr n else Inl (error_new ''storage_metadata_invalid''))"

text \<open>The plain \<open>INSERT\<close> of one relation fails on a duplicate of the primary key.\<close>

definition insert_relation :: "key \<Rightarrow> string \<times> string \<Rightarrow> unit sop" where
  "insert_relation k r =
     op_bind (op_get (\<lambda>s. (k, r) \<in> set (st_relations s))) (\<lambda>present.
       if present then op_fail (error_from_sqlite (\<lambda>_. []) SqliteOther)
       else op_modify (\<lambda>s. s\<lparr>st_relations := st_relations s @ [(k, r)]\<rparr>))"

definition drop_relations :: "key \<Rightarrow> store \<Rightarrow> store" where
  "drop_relations k s = s\<lparr>st_relations := filter (\<lambda>(k', _). k' \<noteq> k) (st_relations s)\<rparr>"

definition row_key :: "stored_row \<Rightarrow> key" where
  "row_key row = (sr_kind row, sr_id row)"

definition write_row :: "stored_row \<Rightarrow> unit sop" where
  "write_row row = (let k = row_key row in
     op_bind (op_lift (i64_metadata (ix_created_at (sr_index row)))) (\<lambda>_.
     op_bind (op_lift (i64_metadata (ix_updated_at (sr_index row)))) (\<lambda>_.
     op_bind (op_lift (case ix_revision (sr_index row) of None \<Rightarrow> Inr 0 | Some r \<Rightarrow> i64_metadata r)) (\<lambda>_.
     op_bind (op_modify (\<lambda>s. s\<lparr>st_objects := om_put k (sr_body row) (st_objects s)\<rparr>)) (\<lambda>_.
     op_bind (op_modify (\<lambda>s. s\<lparr>st_index := om_put k (sr_index row) (st_index s)\<rparr>)) (\<lambda>_.
     op_bind (op_modify (drop_relations k)) (\<lambda>_.
     op_bind (op_each (insert_relation k) (sr_relations row)) (\<lambda>_.
     op_bind (op_modify (\<lambda>s. s\<lparr>st_summaries := (case sr_summary row of
         Some b \<Rightarrow> om_put k b (st_summaries s) | None \<Rightarrow> om_remove k (st_summaries s))\<rparr>)) (\<lambda>_.
       op_modify (\<lambda>s. s\<lparr>st_corrupt := om_remove k (st_corrupt s)\<rparr>))))))))))"

definition put_many :: "stored_row list \<Rightarrow> unit sop" where
  "put_many rows = transaction (op_each write_row rows)"

definition quarantine_tx :: "nat \<Rightarrow> string \<Rightarrow> string \<Rightarrow> string \<Rightarrow> unit sop" where
  "quarantine_tx now kind i code = (let k = (kind, i) in
     op_bind (op_lift (i64_metadata now)) (\<lambda>_.
       op_modify (\<lambda>s. drop_relations k (s\<lparr>st_corrupt := om_put k (code, now) (st_corrupt s),
         st_summaries := om_remove k (st_summaries s), st_index := om_remove k (st_index s)\<rparr>))))"

definition quarantine :: "nat \<Rightarrow> string \<Rightarrow> string \<Rightarrow> string \<Rightarrow> unit sop" where
  "quarantine now kind i code = transaction (quarantine_tx now kind i code)"

definition is_quarantined :: "string \<Rightarrow> string \<Rightarrow> store \<Rightarrow> bool" where
  "is_quarantined kind i s \<longleftrightarrow> om_get (st_corrupt s) (kind, i) \<noteq> None"

definition delete_object :: "string \<Rightarrow> string \<Rightarrow> unit sop" where
  "delete_object kind i = (let k = (kind, i) in
     transaction (op_modify (\<lambda>s. drop_relations k (s\<lparr>st_objects := om_remove k (st_objects s),
       st_summaries := om_remove k (st_summaries s), st_index := om_remove k (st_index s),
       st_corrupt := om_remove k (st_corrupt s)\<rparr>))))"

section \<open>Reading objects\<close>

abbreviation object_corrupt :: error where
  "object_corrupt \<equiv> error_new ''storage_object_corrupt''"

text \<open>A failed read is recorded in quarantine before it is reported.\<close>

definition condemn :: "nat \<Rightarrow> string \<Rightarrow> string \<Rightarrow> string \<Rightarrow> 'a sop" where
  "condemn now kind i code = op_bind (quarantine now kind i code) (\<lambda>_. op_fail object_corrupt)"

definition raw :: "host \<Rightarrow> nat \<Rightarrow> string \<Rightarrow> string \<Rightarrow> string sop" where
  "raw H now kind i =
     op_bind (op_get (is_quarantined kind i)) (\<lambda>bad.
       if bad then op_fail object_corrupt
       else op_bind (op_get (\<lambda>s. om_get (st_objects s) (kind, i))) (\<lambda>found.
         case found of
           None \<Rightarrow> op_fail (error_new ''not_found'')
         | Some body \<Rightarrow> (case open_object (hs_platform H) kind i body of
             Inr bytes \<Rightarrow> op_return bytes
           | Inl e \<Rightarrow> condemn now kind i (e_code e))))"

definition get :: "host \<Rightarrow> nat \<Rightarrow> (string \<Rightarrow> 'a option) \<Rightarrow> string \<Rightarrow> string \<Rightarrow> 'a sop" where
  "get H now de kind i =
     op_bind (raw H now kind i) (\<lambda>bytes. case de bytes of
       Some x \<Rightarrow> op_return x
     | None \<Rightarrow> condemn now kind i ''object_json_invalid'')"

definition maybe :: "host \<Rightarrow> nat \<Rightarrow> (string \<Rightarrow> 'a option) \<Rightarrow> string \<Rightarrow> string \<Rightarrow> 'a option sop" where
  "maybe H now de kind i =
     op_bind (op_attempt (get H now de kind i)) (\<lambda>r. case r of
       Inr x \<Rightarrow> op_return (Some x)
     | Inl e \<Rightarrow> if e_code e = ''not_found'' then op_return None else op_fail e)"

definition read_listed :: "host \<Rightarrow> nat \<Rightarrow> (string \<Rightarrow> 'a option) \<Rightarrow> string \<Rightarrow> string \<times> string \<Rightarrow> 'a option sop" where
  "read_listed H now de kind = (\<lambda>(i, body).
     case and_then (open_object (hs_platform H) kind i body) (\<lambda>bytes. ok_or (de bytes) error_from_json) of
       Inr x \<Rightarrow> op_return (Some x)
     | Inl e \<Rightarrow> op_bind (quarantine now kind i (e_code e)) (\<lambda>_. op_return None))"

definition rows_of_kind :: "string \<Rightarrow> (key, 'v) omap \<Rightarrow> (string \<times> 'v) list" where
  "rows_of_kind kind m = List.map_filter (\<lambda>((k, i), v). if k = kind then Some (i, v) else None) m"

definition list_objects :: "host \<Rightarrow> nat \<Rightarrow> (string \<Rightarrow> 'a option) \<Rightarrow> string \<Rightarrow> 'a list sop" where
  "list_objects H now de kind =
     op_bind (op_get (\<lambda>s. filter (\<lambda>(i, _). \<not> is_quarantined kind i s) (rows_of_kind kind (st_objects s)))) (\<lambda>records.
     op_bind (op_map (read_listed H now de kind) records) (\<lambda>found.
       op_return (List.map_filter (\<lambda>x. x) found)))"

definition save :: "host \<Rightarrow> nat \<Rightarrow> string \<Rightarrow> string \<Rightarrow> json \<Rightarrow> unit sop" where
  "save H now kind i x = op_bind (op_lift (encoded H now kind i x)) (\<lambda>row. put_many [row])"


section \<open>Invariant of the tables\<close>

text \<open>
  The tables are in key order; the index covers only stored objects, summaries and relations only
  indexed ones; no relation is listed twice; an object in quarantine is in no index; and the
  indexed times fit the signed column.
\<close>

definition store_inv :: "store \<Rightarrow> bool" where
  "store_inv s \<longleftrightarrow> om_wf (st_objects s) \<and> om_wf (st_index s) \<and> om_wf (st_summaries s) \<and> om_wf (st_corrupt s)
     \<and> fst ` set (st_index s) \<subseteq> fst ` set (st_objects s)
     \<and> fst ` set (st_summaries s) \<subseteq> fst ` set (st_index s)
     \<and> fst ` set (st_relations s) \<subseteq> fst ` set (st_index s)
     \<and> distinct (st_relations s)
     \<and> fst ` set (st_index s) \<inter> fst ` set (st_corrupt s) = {}
     \<and> (\<forall>k ix. om_get (st_index s) k = Some ix \<longrightarrow> ix_updated_at ix < 2 ^ 63)"

definition empty_store :: store where
  "empty_store = \<lparr>st_objects = [], st_index = [], st_summaries = [], st_relations = [], st_corrupt = []\<rparr>"

lemma store_invD:
  assumes "store_inv s"
  shows "om_wf (st_objects s)" "om_wf (st_index s)" "om_wf (st_corrupt s)"
    "om_get (st_index s) k = Some ix \<Longrightarrow> ix_updated_at ix < 2 ^ 63"
    "fst ` set (st_index s) \<subseteq> fst ` set (st_objects s)"
    "fst ` set (st_index s) \<inter> fst ` set (st_corrupt s) = {}"
  using assms unfolding store_inv_def by (cases k; simp)+

text \<open>What a transaction needs of its body: every success keeps the predicate.\<close>

definition commits :: "('s \<Rightarrow> bool) \<Rightarrow> ('s, 'e, 'a) op \<Rightarrow> bool" where
  "commits I m \<longleftrightarrow> hoare I m (\<lambda>_. I) (\<lambda>_ _. True)"

lemma commitsI: "(\<And>s a t. I s \<Longrightarrow> m s = (Inr a, t) \<Longrightarrow> I t) \<Longrightarrow> commits I m"
  by (simp add: commits_def hoareI)

lemma commitsD: "commits I m \<Longrightarrow> I s \<Longrightarrow> m s = (Inr a, t) \<Longrightarrow> I t"
  by (auto simp: commits_def dest: hoare_ok)

lemma preserves_commits: "preserves I m \<Longrightarrow> commits I m"
  by (rule commitsI) (rule preservesD)

lemma commits_bind [hoare_intros]: "commits I m \<Longrightarrow> (\<And>a. commits I (f a)) \<Longrightarrow> commits I (op_bind m f)"
  unfolding commits_def by (rule hoare_bind)

lemma commits_basic [hoare_intros]:
  "commits I (op_return a)" "commits I (op_fail e)" "commits I (op_lift r)" "commits I (op_get g)"
  by (simp_all add: preserves_commits)

lemma commits_if [hoare_intros]:
  "(b \<Longrightarrow> commits I m) \<Longrightarrow> (\<not> b \<Longrightarrow> commits I n) \<Longrightarrow> commits I (if b then m else n)"
  by simp

lemma commits_option [hoare_intros]:
  "(x = None \<Longrightarrow> commits I m) \<Longrightarrow> (\<And>a. x = Some a \<Longrightarrow> commits I (f a)) \<Longrightarrow>
    commits I (case x of None \<Rightarrow> m | Some a \<Rightarrow> f a)"
  by (cases x) auto

lemma commits_sum [hoare_intros]:
  "(\<And>a. x = Inl a \<Longrightarrow> commits I (f a)) \<Longrightarrow> (\<And>b. x = Inr b \<Longrightarrow> commits I (g b)) \<Longrightarrow>
    commits I (case x of Inl a \<Rightarrow> f a | Inr b \<Rightarrow> g b)"
  by (cases x) auto

lemma commits_each [hoare_intros]: "(\<And>x. x \<in> set xs \<Longrightarrow> commits I (f x)) \<Longrightarrow> commits I (op_each f xs)"
proof (induction xs)
  case (Cons x xs)
  then show ?case by (simp add: commits_bind)
qed (simp add: preserves_commits)

lemma transaction_Inl: "transaction m s = (Inl e, t) \<Longrightarrow> t = s"
  by (auto simp: transaction_def split: prod.splits sum.splits)

lemma transaction_Inr_iff: "transaction m s = (Inr a, t) \<longleftrightarrow> m s = (Inr a, t)"
  by (auto simp: transaction_def split: prod.splits sum.splits)

lemma preserves_transaction [hoare_intros]: "commits I m \<Longrightarrow> preserves I (transaction m)"
proof (rule preservesI)
  fix s r t assume m: "commits I m" "I s" "transaction m s = (r, t)"
  then show "I t" by (cases r) (auto simp: transaction_Inr_iff dest: transaction_Inl commitsD)
qed

definition written :: "stored_row \<Rightarrow> store \<Rightarrow> store" where
  "written row s = (let k = row_key row in s\<lparr>
     st_objects := om_put k (sr_body row) (st_objects s),
     st_index := om_put k (sr_index row) (st_index s),
     st_relations := filter (\<lambda>(k', _). k' \<noteq> k) (st_relations s) @ map (Pair k) (sr_relations row),
     st_summaries := (case sr_summary row of
        Some b \<Rightarrow> om_put k b (st_summaries s) | None \<Rightarrow> om_remove k (st_summaries s)),
     st_corrupt := om_remove k (st_corrupt s)\<rparr>)"

lemma insert_relations:
  "op_each (insert_relation k) rs s = (Inr u, t) \<Longrightarrow>
     t = s\<lparr>st_relations := st_relations s @ map (Pair k) rs\<rparr> \<and> distinct rs
       \<and> (\<forall>r\<in>set rs. (k, r) \<notin> set (st_relations s))"
proof (induction rs arbitrary: s)
  case (Cons r rs)
  then obtain v where step: "insert_relation k r s = (Inr (), v)" "op_each (insert_relation k) rs v = (Inr u, t)"
    by (auto elim: op_bind_cases)
  then have v: "v = s\<lparr>st_relations := st_relations s @ [(k, r)]\<rparr>" "(k, r) \<notin> set (st_relations s)"
    by (auto simp: insert_relation_def op_bind_run split: if_splits)
  from Cons.IH[OF step(2)] v show ?case by auto
qed simp

lemma write_row_Inr:
  assumes "write_row row s = (Inr u, t)"
  shows "t = written row s" "distinct (sr_relations row)"
    "ix_created_at (sr_index row) < 2 ^ 63" "ix_updated_at (sr_index row) < 2 ^ 63"
proof -
  let ?k = "row_key row"
  let ?s1 = "drop_relations ?k (s\<lparr>st_objects := om_put ?k (sr_body row) (st_objects s),
      st_index := om_put ?k (sr_index row) (st_index s)\<rparr>)"
  from assms obtain v where run: "op_each (insert_relation ?k) (sr_relations row) ?s1 = (Inr (), v)"
    "t = v\<lparr>st_summaries := (case sr_summary row of
         Some b \<Rightarrow> om_put ?k b (st_summaries v) | None \<Rightarrow> om_remove ?k (st_summaries v)),
       st_corrupt := om_remove ?k (st_corrupt v)\<rparr>"
    "i64_metadata (ix_created_at (sr_index row)) \<noteq> Inl (error_new ''storage_metadata_invalid'')"
    "i64_metadata (ix_updated_at (sr_index row)) \<noteq> Inl (error_new ''storage_metadata_invalid'')"
    by (auto simp: write_row_def Let_def op_bind_run split: prod.splits sum.splits)
  from insert_relations[OF run(1)] run(2) show "t = written row s" "distinct (sr_relations row)"
    by (auto simp: written_def Let_def drop_relations_def split: option.splits)
  show "ix_created_at (sr_index row) < 2 ^ 63" "ix_updated_at (sr_index row) < 2 ^ 63"
    using run(3,4) by (auto simp: i64_metadata_def split: if_splits)
qed

lemma written_keys:
  "fst ` set (st_objects (written row s)) = insert (row_key row) (fst ` set (st_objects s))"
  "fst ` set (st_index (written row s)) = insert (row_key row) (fst ` set (st_index s))"
  "fst ` set (st_summaries (written row s)) \<subseteq> insert (row_key row) (fst ` set (st_summaries s))"
  "fst ` set (st_relations (written row s)) \<subseteq> insert (row_key row) (fst ` set (st_relations s))"
  "fst ` set (st_corrupt (written row s)) = fst ` set (st_corrupt s) - {row_key row}"
  by (auto simp: written_def Let_def image_Un image_image split: option.splits)

lemma key_sets_put:
  assumes "I \<subseteq> O1" "S \<subseteq> I" "R \<subseteq> I" "I \<inter> C = {}" "S' \<subseteq> insert k S" "R' \<subseteq> insert k R"
  shows "insert k I \<subseteq> insert k O1 \<and> S' \<subseteq> insert k I \<and> R' \<subseteq> insert k I \<and> insert k I \<inter> (C - {k}) = {}"
  using assms by blast

lemma written_inv:
  assumes "store_inv s" "distinct (sr_relations row)" "ix_updated_at (sr_index row) < 2 ^ 63"
  shows "store_inv (written row s)"
proof -
  have wf: "om_wf (st_objects (written row s))" "om_wf (st_index (written row s))"
    "om_wf (st_summaries (written row s))" "om_wf (st_corrupt (written row s))"
    using assms(1) by (auto simp: store_inv_def written_def Let_def split: option.splits)
  have "\<forall>k ix. om_get (st_index (written row s)) k = Some ix \<longrightarrow> ix_updated_at ix < 2 ^ 63"
    using assms by (auto simp: store_inv_def written_def Let_def)
  moreover  have "distinct (st_relations (written row s))"
    using assms by (auto simp: store_inv_def written_def Let_def distinct_map inj_on_def)
  moreover have "insert (row_key row) (fst ` set (st_index s)) \<subseteq> insert (row_key row) (fst ` set (st_objects s))
    \<and> fst ` set (st_summaries (written row s)) \<subseteq> insert (row_key row) (fst ` set (st_index s))
    \<and> fst ` set (st_relations (written row s)) \<subseteq> insert (row_key row) (fst ` set (st_index s))
    \<and> insert (row_key row) (fst ` set (st_index s)) \<inter> (fst ` set (st_corrupt s) - {row_key row}) = {}"
    by (rule key_sets_put[OF _ _ _ _ written_keys(3,4)]) (use assms(1) in \<open>simp_all add: store_inv_def\<close>)
  ultimately show ?thesis
    using wf unfolding store_inv_def written_keys(1,2,5) by simp
qed

lemma commits_write_row [hoare_intros]: "commits store_inv (write_row row)"
proof (rule commitsI)
  fix s a t assume "store_inv s" "write_row row s = (Inr a, t)"
  with write_row_Inr[OF this(2)] show "store_inv t" by (auto intro: written_inv)
qed

lemma preserves_put_many [hoare_intros]: "preserves store_inv (put_many rows)"
  unfolding put_many_def by (intro preserves_transaction commits_each commits_write_row)

lemma preserves_quarantine_tx [hoare_intros]: "preserves store_inv (quarantine_tx now kind i code)"
  unfolding quarantine_tx_def Let_def
  by (intro hoare_intros) (auto simp: store_inv_def drop_relations_def)

lemmas commits_quarantine_tx [hoare_intros] = preserves_commits[OF preserves_quarantine_tx]

lemma preserves_quarantine [hoare_intros]: "preserves store_inv (quarantine now kind i code)"
  unfolding quarantine_def by (intro preserves_transaction preserves_commits preserves_quarantine_tx)

lemma preserves_delete [hoare_intros]: "preserves store_inv (delete_object kind i)"
  unfolding delete_object_def Let_def
  by (intro preserves_transaction preserves_commits preserves_modify)
    (auto simp: store_inv_def drop_relations_def)

lemma preserves_condemn [hoare_intros]: "preserves store_inv (condemn now kind i code)"
  unfolding condemn_def by (intro hoare_intros)

lemma preserves_raw [hoare_intros]: "preserves store_inv (raw H now kind i)"
  unfolding raw_def by (intro hoare_intros)

lemma preserves_get [hoare_intros]: "preserves store_inv (get H now de kind i)"
  unfolding get_def by (intro hoare_intros)

lemma preserves_maybe [hoare_intros]: "preserves store_inv (maybe H now de kind i)"
  unfolding maybe_def by (intro hoare_intros)

lemma preserves_list [hoare_intros]: "preserves store_inv (list_objects H now de kind)"
  unfolding list_objects_def read_listed_def case_prod_beta by (intro hoare_intros)

lemma preserves_save [hoare_intros]: "preserves store_inv (save H now kind i x)"
  unfolding save_def by (intro hoare_intros)


section \<open>Reading back\<close>

lemma put_many_Inr: "put_many rows s = (Inr u, t) \<Longrightarrow> t = fold written rows s"
proof -
  have "op_each write_row rows s = (Inr u, t) \<Longrightarrow> t = fold written rows s" for s
  proof (induction rows arbitrary: s)
    case (Cons row rows)
    then show ?case by (auto elim!: op_bind_cases dest: write_row_Inr)
  qed simp
  then show "put_many rows s = (Inr u, t) \<Longrightarrow> t = fold written rows s"
    by (simp add: put_many_def transaction_Inr_iff)
qed

lemma written_get:
  "om_get (st_objects (written row s)) = (om_get (st_objects s))(row_key row \<mapsto> sr_body row)"
  "om_get (st_index (written row s)) = (om_get (st_index s))(row_key row \<mapsto> sr_index row)"
  "om_get (st_corrupt (written row s)) = (om_get (st_corrupt s))(row_key row := None)"
  by (simp_all add: written_def Let_def)

lemma fold_written_other:
  "k \<notin> row_key ` set rows \<Longrightarrow>
     om_get (st_objects (fold written rows s)) k = om_get (st_objects s) k
     \<and> om_get (st_corrupt (fold written rows s)) k = om_get (st_corrupt s) k"
  by (induction rows arbitrary: s) (auto simp: written_get)

lemma fold_written_own:
  "row \<in> set rows \<Longrightarrow> distinct (map row_key rows) \<Longrightarrow>
     om_get (st_objects (fold written rows s)) (row_key row) = Some (sr_body row)
     \<and> om_get (st_corrupt (fold written rows s)) (row_key row) = None"
proof (induction rows arbitrary: s)
  case (Cons r rows)
  then show ?case
    using fold_written_other[of "row_key r" rows "written r s"] by (auto simp: written_get)
qed simp

lemma encoded_row:
  assumes "host_ok H" "encoded H now kind i x = Inr row"
  shows "row_key row = (kind, i)" "open_object (hs_platform H) kind i (sr_body row) = Inr (hs_to_vec H x)"
    "sr_index row = index_for_value now x" "sr_relations row = relations_for_value kind x"
proof -
  from assms obtain v body where v: "hs_from_slice H (hs_to_vec H x) = Some v"
    "seal (hs_platform H) kind i (hs_to_vec H x) = Inr body"
    "sr_kind row = kind" "sr_id row = i" "sr_body row = body" "sr_index row = index_for_value now v"
    "sr_relations row = relations_for_value kind v"
    by (auto simp: encoded_def Let_def)
  with assms(1) have "v = x" "platform_ok (hs_platform H)" by (auto simp: host_ok_def)
  with v seal_open_roundtrip show "row_key row = (kind, i)"
    "open_object (hs_platform H) kind i (sr_body row) = Inr (hs_to_vec H x)"
    "sr_index row = index_for_value now x" "sr_relations row = relations_for_value kind x"
    by (auto simp: row_key_def)
qed

lemma raw_run: "raw H now kind i s =
  (if om_get (st_corrupt s) (kind, i) \<noteq> None then (Inl object_corrupt, s)
   else case om_get (st_objects s) (kind, i) of
     None \<Rightarrow> (Inl (error_new ''not_found''), s)
   | Some body \<Rightarrow> (case open_object (hs_platform H) kind i body of
       Inr bytes \<Rightarrow> (Inr bytes, s) | Inl e \<Rightarrow> condemn now kind i (e_code e) s))"
  by (simp add: raw_def op_bind_run is_quarantined_def split: option.split sum.split)

definition condemned :: "nat \<Rightarrow> string \<Rightarrow> string \<Rightarrow> string \<Rightarrow> store \<Rightarrow> store" where
  "condemned now kind i code s = (let k = (kind, i) in
     drop_relations k (s\<lparr>st_corrupt := om_put k (code, now) (st_corrupt s),
       st_summaries := om_remove k (st_summaries s), st_index := om_remove k (st_index s)\<rparr>))"

lemma quarantine_run: "quarantine now kind i code s =
  (if now < 2 ^ 63 then (Inr (), condemned now kind i code s)
   else (Inl (error_new ''storage_metadata_invalid''), s))"
  by (simp add: quarantine_def transaction_def quarantine_tx_def i64_metadata_def condemned_def
      Let_def op_bind_run)

lemma condemn_run: "condemn now kind i code s =
  (if now < 2 ^ 63 then (Inl object_corrupt, condemned now kind i code s)
   else (Inl (error_new ''storage_metadata_invalid''), s))"
  by (simp add: condemn_def quarantine_run op_bind_run)

lemma get_run: "get H now de kind i s =
  (if om_get (st_corrupt s) (kind, i) \<noteq> None then (Inl object_corrupt, s)
   else case om_get (st_objects s) (kind, i) of
     None \<Rightarrow> (Inl (error_new ''not_found''), s)
   | Some body \<Rightarrow> (case open_object (hs_platform H) kind i body of
       Inr bytes \<Rightarrow> (case de bytes of Some x \<Rightarrow> (Inr x, s)
         | None \<Rightarrow> condemn now kind i ''object_json_invalid'' s)
     | Inl e \<Rightarrow> condemn now kind i (e_code e) s))"
  by (simp add: get_def op_bind_run raw_run condemn_run split: option.split sum.split)

lemma get_same:
  assumes "om_get (st_objects t) (kind, i) = om_get (st_objects s) (kind, i)"
    "om_get (st_corrupt t) (kind, i) = om_get (st_corrupt s) (kind, i)"
  shows "fst (get H now de kind i t) = fst (get H now de kind i s)"
  using assms by (auto simp: get_run condemn_run split: option.split sum.split)

text \<open>
  C15: a batch of rows is written as one. If storing a batch fails nothing has changed; if it
  succeeds, every value of the batch reads back from its own row exactly as its bytes decode,
  and reading any other row gives what it gave before.
\<close>

theorem batches_are_atomic:
  assumes "host_ok H"
    and "list_all2 (\<lambda>(kind, i, x) row. encoded H now kind i x = Inr row) batch rows"
    and "distinct (map (\<lambda>(kind, i, x). (kind, i)) batch)"
    and "put_many rows s = (r, t)"
  shows "case r of Inl e \<Rightarrow> t = s
    | Inr u \<Rightarrow> (\<forall>(kind, i, x)\<in>set batch. \<forall>y. de (hs_to_vec H x) = Some y \<longrightarrow> get H now' de kind i t = (Inr y, t))
        \<and> (\<forall>kind i. (kind, i) \<notin> (\<lambda>(kind, i, x). (kind, i)) ` set batch \<longrightarrow>
             fst (get H now' de kind i t) = fst (get H now' de kind i s))"
proof (cases r)
  case (Inl e)
  with assms(4) show ?thesis by (auto simp: put_many_def dest: transaction_Inl)
next
  case (Inr u)
  have t: "t = fold written rows s" using assms(4) Inr put_many_Inr by blast
  have keys: "map row_key rows = map (\<lambda>(kind, i, x). (kind, i)) batch"
    using assms(2) by (induction rule: list_all2_induct) (auto dest: encoded_row(1)[OF assms(1)])
  have own: "get H now' de kind i t = (Inr y, t)"
    if "(kind, i, x) \<in> set batch" "de (hs_to_vec H x) = Some y" for kind i x y
  proof -
    from that(1) assms(2) obtain row where row: "row \<in> set rows" "encoded H now kind i x = Inr row"
      by (force simp: list_all2_conv_all_nth in_set_conv_nth)
    have "distinct (map row_key rows)" using assms(3) keys by simp
    from fold_written_own[OF row(1) this, of s] encoded_row[OF assms(1) row(2)] that(2)
    show ?thesis by (simp add: t get_def op_bind_run raw_run)
  qed
  have other: "fst (get H now' de kind i t) = fst (get H now' de kind i s)"
    if "(kind, i) \<notin> (\<lambda>(kind, i, x). (kind, i)) ` set batch" for kind i
    by (rule get_same; use that keys in \<open>simp add: t fold_written_other flip: set_map\<close>)
  show ?thesis using own other by (auto simp: Inr)
qed


section \<open>Storing succeeds\<close>

definition row_ok :: "stored_row \<Rightarrow> bool" where
  "row_ok row \<longleftrightarrow> ix_created_at (sr_index row) < 2 ^ 63 \<and> ix_updated_at (sr_index row) < 2 ^ 63
     \<and> (case ix_revision (sr_index row) of None \<Rightarrow> True | Some r \<Rightarrow> r < 2 ^ 63)
     \<and> distinct (sr_relations row)"

lemma insert_relations_ok:
  "distinct rs \<Longrightarrow> \<forall>r\<in>set rs. (k, r) \<notin> set (st_relations s) \<Longrightarrow>
     op_each (insert_relation k) rs s = (Inr (), s\<lparr>st_relations := st_relations s @ map (Pair k) rs\<rparr>)"
proof (induction rs arbitrary: s)
  case (Cons r rs)
  let ?t = "s\<lparr>st_relations := st_relations s @ [(k, r)]\<rparr>"
  have "op_each (insert_relation k) rs ?t = (Inr (), ?t\<lparr>st_relations := st_relations ?t @ map (Pair k) rs\<rparr>)"
    by (rule Cons.IH) (use Cons.prems in auto)
  moreover have "insert_relation k r s = (Inr (), ?t)"
    using Cons.prems by (simp add: insert_relation_def op_bind_run)
  ultimately show ?case by (simp add: op_bind_run)
qed simp

lemma write_row_ok: "row_ok row \<Longrightarrow> write_row row s = (Inr (), written row s)"
  by (auto simp: write_row_def Let_def op_bind_run i64_metadata_def row_ok_def insert_relations_ok
      drop_relations_def written_def split: option.splits)

lemma put_many_ok: "list_all row_ok rows \<Longrightarrow> put_many rows s = (Inr (), fold written rows s)"
proof -
  assume rows: "list_all row_ok rows"
  then have "op_each write_row rows s = (Inr (), fold written rows s)" for s
    by (induction rows arbitrary: s) (auto simp: write_row_ok op_bind_run)
  then show ?thesis by (simp add: put_many_def transaction_Inr_iff)
qed

section \<open>A host for the witnesses\<close>

definition sample_material :: material where
  "sample_material = \<lparr>m_id = ''mat_1'', m_name = ''a.txt'', m_group_id = ''grp_1'', m_task_id = ''task_1'',
     m_status = ''queued'', m_reason_code = None, m_revision = 1, m_source_sha256 = ''00'',
     m_source_byte_len = 2, m_source_format = ''txt'', m_encoding = None, m_original_text = [],
     m_analysis = None, m_result_id = None, m_dismissed = [], m_dictionary_revision = 1\<rparr>"

definition running_material :: material where
  "running_material = sample_material\<lparr>m_status := ''running'', m_dictionary_revision := 2\<rparr>"

definition sample_summary :: json where
  "sample_summary = summary_for_value ''material'' ''mat_1'' (material_json sample_material)
     (index_for_value 7 (material_json sample_material))"

definition sample_host :: host where
  "sample_host = \<lparr>hs_platform = sample_platform,
     hs_to_vec = (\<lambda>v. if v = material_json sample_material then ''Q''
       else if v = material_json running_material then ''R''
       else if v = sample_summary then ''S'' else ''{}''),
     hs_from_slice = (\<lambda>b. if b = ''Q'' then Some (material_json sample_material)
       else if b = ''R'' then Some (material_json running_material)
       else if b = ''S'' then Some sample_summary else None),
     hs_b64_encode = id, hs_b64_decode = Some\<rparr>"

definition sample_decode :: "string \<Rightarrow> material option" where
  "sample_decode b = (if b = ''Q'' then Some sample_material else if b = ''R'' then Some running_material else None)"

lemma sample_host_ok [simp]: "host_ok sample_host"
  by (simp add: host_ok_def sample_host_def)

definition sample_row :: "material \<Rightarrow> string \<Rightarrow> string \<Rightarrow> stored_row" where
  "sample_row m bytes summary_bytes = \<lparr>sr_kind = ''material'', sr_id = ''mat_1'',
     sr_body = sample_blob ''material'' ''mat_1'' bytes, sr_index = index_for_value 7 (material_json m),
     sr_summary = Some (sample_blob (summary_kind ''material'') ''mat_1'' summary_bytes),
     sr_relations = relations_for_value ''material'' (material_json m)\<rparr>"

lemma sample_encoded_bytes:
  assumes "hs_to_vec sample_host (material_json m) = b" "hs_from_slice sample_host b = Some (material_json m)"
  shows "encoded sample_host 7 ''material'' ''mat_1'' (material_json m) = Inr (sample_row m b
    (hs_to_vec sample_host (summary_for_value ''material'' ''mat_1'' (material_json m) (index_for_value 7 (material_json m)))))"
proof -
  have small: "length (hs_to_vec sample_host v) \<le> 1000" for v by (simp add: sample_host_def)
  have blob: "seal sample_platform k ''mat_1'' (hs_to_vec sample_host v) = Inr (sample_blob k ''mat_1'' (hs_to_vec sample_host v))"
    if "length k \<le> 1000" for k v
    by (rule sample_seal) (simp_all add: small that)
  have "hs_platform sample_host = sample_platform" by (simp add: sample_host_def)
  then show ?thesis using assms blob[of "''material''"] blob[of "summary_kind ''material''"]
    by (auto simp: encoded_def Let_def sample_row_def summary_kind_def)
qed

lemma sample_encoded:
  "encoded sample_host 7 ''material'' ''mat_1'' (material_json sample_material)
     = Inr (sample_row sample_material ''Q''
         (hs_to_vec sample_host sample_summary))"
  unfolding sample_summary_def by (rule sample_encoded_bytes) (simp_all add: sample_host_def)

lemma sample_row_ok: "row_ok (sample_row sample_material b c)" "row_ok (sample_row running_material b c)"
  by (simp_all add: running_material_def row_ok_def sample_row_def index_for_value_def field_u64_def json_get_def material_json_def
      json_nat_def or_else_def sample_material_def relations_for_value_def)


definition sample_store :: store where
  "sample_store = snd (put_many [sample_row sample_material ''Q'' ''S''] empty_store)"

lemma sample_summary_bytes: "hs_to_vec sample_host sample_summary = ''S''"
  by (simp add: sample_host_def sample_summary_def summary_for_value_def material_json_def Let_def)

theorem batches_are_atomic_witness:
  "get sample_host 8 sample_decode ''material'' ''mat_1'' sample_store = (Inr sample_material, sample_store)"
proof -
  have run: "put_many [sample_row sample_material ''Q'' ''S''] empty_store = (Inr (), sample_store)"
    unfolding sample_store_def by (simp add: put_many_ok sample_row_ok)
  have "hs_to_vec sample_host (material_json sample_material) = ''Q''" by (simp add: sample_host_def)
  with batches_are_atomic[OF sample_host_ok _ _ run,
      of 7 "[(''material'', ''mat_1'', material_json sample_material)]" sample_decode 8]
  show ?thesis by (simp add: sample_encoded sample_summary_bytes sample_decode_def)
qed

end
