(* ===== verification/Store_Query.thy ===== *)
theory Store_Query imports Store begin

text \<open>
  The queries of the object store (\<open>workspace-service/src/store.rs\<close>): pages of summaries with
  their cursors, single summaries, conflict candidates, the relation and status indexes, and the
  material queue with its claim. A SQL query is a filter over the ordered tables; a query with
  \<open>LIMIT 1\<close> and no order takes the first row in key order.
\<close>

section \<open>Cursors\<close>

definition encode_cursor :: "host \<Rightarrow> nat \<Rightarrow> string \<Rightarrow> string" where
  "encode_cursor H updated_at i = hs_b64_encode H (decimal updated_at @ '':'' @ i)"

definition decode_cursor :: "host \<Rightarrow> string \<Rightarrow> error + nat \<times> string" where
  "decode_cursor H cursor =
     (let invalid = error_new ''invalid_pagination'' in
      and_then (ok_or (hs_b64_decode H cursor) invalid) (\<lambda>decoded.
      and_then (ensure (valid_utf8 decoded) invalid) (\<lambda>_.
      and_then (ensure (CHR '':'' \<in> set decoded) invalid) (\<lambda>_.
      let updated_at = takeWhile (\<lambda>c. c \<noteq> CHR '':'') decoded;
          i = drop (Suc (length updated_at)) decoded in
      if i = [] \<or> 200 < length i then Inl invalid
      else and_then (ok_or (parse_unsigned (2 ^ 64) updated_at) invalid) (\<lambda>n. Inr (n, i))))))"

definition decode_cursor_opt :: "host \<Rightarrow> string option \<Rightarrow> error + (nat \<times> string) option" where
  "decode_cursor_opt H c = (case c of None \<Rightarrow> Inr None | Some x \<Rightarrow>
     and_then (decode_cursor H x) (\<lambda>p. Inr (Some p)))"

section \<open>Pages\<close>

record summary_page =
  sp_items :: "json list"
  sp_next_cursor :: "string option"
  sp_total :: nat
  sp_corrupt_count :: nat

definition index_filter :: "string option \<Rightarrow> string option \<Rightarrow> object_index \<Rightarrow> bool" where
  "index_filter subkind group_id ix \<longleftrightarrow>
     (case subkind of None \<Rightarrow> True | Some x \<Rightarrow> ix_subkind ix = Some x)
     \<and> (case group_id of None \<Rightarrow> True | Some x \<Rightarrow> ix_group_id ix = Some x)"

text \<open>\<open>as i64\<close> of a bound parameter.\<close>

definition as_i64 :: "nat \<Rightarrow> int" where
  "as_i64 n = (let m = n mod 2 ^ 64 in if m < 2 ^ 63 then int m else int m - 2 ^ 64)"

definition behind_cursor :: "(nat \<times> string) option \<Rightarrow> nat \<times> string \<Rightarrow> bool" where
  "behind_cursor cursor r = (case cursor of None \<Rightarrow> True
     | Some (u, i) \<Rightarrow> int (fst r) < as_i64 u \<or> (int (fst r) = as_i64 u \<and> snd r < i))"

text \<open>Newest first: \<open>ORDER BY updated\_at DESC, id DESC LIMIT limit + 1\<close>.\<close>

definition newest_first :: "('a \<Rightarrow> nat \<times> string) \<Rightarrow> 'a list \<Rightarrow> 'a list" where
  "newest_first key xs = rev (sort_key key xs)"

definition select_page :: "('a \<Rightarrow> nat \<times> string) \<Rightarrow> (nat \<times> string) option \<Rightarrow> nat \<Rightarrow> 'a list \<Rightarrow> 'a list" where
  "select_page key cursor limit xs =
     take (limit + 1) (newest_first key (filter (\<lambda>x. behind_cursor cursor (key x)) xs))"

definition indexed_rows :: "string \<Rightarrow> string option \<Rightarrow> string option \<Rightarrow> store \<Rightarrow> (string \<times> object_index) list" where
  "indexed_rows kind subkind group_id s =
     filter (\<lambda>(_, ix). index_filter subkind group_id ix) (rows_of_kind kind (st_index s))"

definition count_corrupt :: "string option \<Rightarrow> store \<Rightarrow> nat" where
  "count_corrupt kind s = (case kind of None \<Rightarrow> length (st_corrupt s)
     | Some k \<Rightarrow> length (rows_of_kind k (st_corrupt s)))"

definition open_summary :: "host \<Rightarrow> string \<Rightarrow> string \<Rightarrow> string \<Rightarrow> error + json" where
  "open_summary H kind i body =
     and_then (open_object (hs_platform H) (summary_kind kind) i body)
       (\<lambda>bytes. ok_or (hs_from_slice H bytes) error_from_json)"

text \<open>The summaries of the selected rows; the first one that does not open is condemned.\<close>

fun open_page :: "host \<Rightarrow> nat \<Rightarrow> string \<Rightarrow> ((nat \<times> string) \<times> string) list \<Rightarrow> json list sop" where
  "open_page H now kind [] = op_return []"
| "open_page H now kind (((u, i), body) # rows) =
     (case open_summary H kind i body of
        Inr v \<Rightarrow> op_bind (open_page H now kind rows) (\<lambda>vs. op_return (v # vs))
      | Inl e \<Rightarrow> condemn now kind i (e_code e))"

definition next_cursor :: "host \<Rightarrow> nat \<Rightarrow> (nat \<times> string) list \<Rightarrow> string option" where
  "next_cursor H limit keys =
     (if limit < length keys
      then (case rev (take limit keys) of [] \<Rightarrow> None | (u, i) # _ \<Rightarrow> Some (encode_cursor H u i))
      else None)"

definition joined_rows :: "string \<Rightarrow> string option \<Rightarrow> string option \<Rightarrow> store \<Rightarrow> ((nat \<times> string) \<times> string) list" where
  "joined_rows kind subkind group_id s = List.map_filter (\<lambda>(i, ix).
     map_option (\<lambda>body. ((ix_updated_at ix, i), body)) (om_get (st_summaries s) (kind, i)))
     (indexed_rows kind subkind group_id s)"

definition summary_page :: "host \<Rightarrow> nat \<Rightarrow> string \<Rightarrow> string option \<Rightarrow> string option \<Rightarrow> string option
    \<Rightarrow> nat \<Rightarrow> summary_page sop" where
  "summary_page H now kind subkind group_id cursor limit =
     (if \<not> (1 \<le> limit \<and> limit \<le> 100) then op_fail (error_new ''invalid_pagination'')
      else op_bind (op_lift (decode_cursor_opt H cursor)) (\<lambda>cursor.
        op_bind (op_get (\<lambda>s.
            (select_page fst cursor limit (joined_rows kind subkind group_id s),
             length (indexed_rows kind subkind group_id s), count_corrupt (Some kind) s,
             find (\<lambda>(i, _). om_get (st_summaries s) (kind, i) = None) (indexed_rows kind subkind group_id s))))
          (\<lambda>(selected, total, corrupt_count, missing_summary).
        case missing_summary of
          Some (i, _) \<Rightarrow> condemn now kind i ''summary_missing''
        | None \<Rightarrow>
          op_bind (open_page H now kind (take limit selected)) (\<lambda>items.
            op_return \<lparr>sp_items = items, sp_next_cursor = next_cursor H limit (map fst selected),
              sp_total = total, sp_corrupt_count = corrupt_count\<rparr>))))"

section \<open>Conflict candidates of one writing document\<close>

definition valid_writing_draft_base :: "string \<Rightarrow> bool" where
  "valid_writing_draft_base base =
     (if base = ''writing-current'' then True
      else if prefix ''writing-'' base then
        (let document_id = drop 8 base in document_id \<noteq> [] \<and> length base \<le> 44
          \<and> list_all (\<lambda>b. is_ascii_alnum b \<or> b = CHR ''-'' \<or> b = CHR ''_'') document_id)
      else False)"

definition is_lower_hex :: "char \<Rightarrow> bool" where
  "is_lower_hex b \<longleftrightarrow> is_ascii_digit b \<or> (CHR ''a'' \<le> b \<and> b \<le> CHR ''f'')"

definition valid_draft_conflict_id :: "string \<Rightarrow> string \<Rightarrow> bool" where
  "valid_draft_conflict_id p i \<longleftrightarrow>
     length i = length p + 32 \<and> prefix p i \<and> list_all is_lower_hex (drop (length p) i)"

text \<open>The index condition: the id range of the prefix, the length, and the \<open>GLOB\<close> of the suffix.\<close>

definition conflict_row :: "string \<Rightarrow> string \<Rightarrow> bool" where
  "conflict_row base i \<longleftrightarrow> (let p = base @ ''-c-''; upper = base @ ''-c.'' in
     p \<le> i \<and> i < upper \<and> length i = length p + 32 \<and> list_all is_lower_hex (drop (length p) i))"

definition draft_conflicts_page :: "host \<Rightarrow> string \<Rightarrow> string option \<Rightarrow> nat \<Rightarrow> summary_page sop" where
  "draft_conflicts_page H base cursor limit =
     (let p = base @ ''-c-'' in
      if \<not> valid_writing_draft_base base then op_fail (error_new ''invalid_ai_request'')
      else if \<not> (1 \<le> limit \<and> limit \<le> 100) then op_fail (error_new ''invalid_pagination'')
      else op_bind (op_lift (decode_cursor_opt H cursor)) (\<lambda>cursor.
        if (case cursor of None \<Rightarrow> False | Some (u, i) \<Rightarrow> \<not> valid_draft_conflict_id p i \<or> 2 ^ 63 \<le> u)
        then op_fail (error_new ''invalid_pagination'')
        else op_get (\<lambda>s.
          let candidates = filter (\<lambda>(i, _). conflict_row base i) (rows_of_kind ''ai_draft'' (st_index s));
              selected = select_page (\<lambda>(i, ix). (ix_updated_at ix, i)) cursor limit candidates in
          \<lparr>sp_items = map (\<lambda>(i, ix). JObj [(''id'', JStr i), (''revision'', json_opt json_nat (ix_revision ix)),
               (''updated_at'', json_nat (ix_updated_at ix))]) (take limit selected),
           sp_next_cursor = next_cursor H limit (map (\<lambda>(i, ix). (ix_updated_at ix, i)) selected),
           sp_total = length candidates,
           sp_corrupt_count = length (filter (\<lambda>(i, _). conflict_row base i)
             (rows_of_kind ''ai_draft'' (st_corrupt s)))\<rparr>)))"

section \<open>Single summaries and index queries\<close>

definition summary :: "host \<Rightarrow> nat \<Rightarrow> string \<Rightarrow> string \<Rightarrow> json sop" where
  "summary H now kind i =
     op_bind (op_get (is_quarantined kind i)) (\<lambda>bad.
       if bad then op_fail object_corrupt
       else op_bind (op_get (\<lambda>s. map_option (\<lambda>_. om_get (st_summaries s) (kind, i)) (om_get (st_objects s) (kind, i)))) (\<lambda>row.
         case row of
           None \<Rightarrow> op_fail (error_new ''not_found'')
         | Some None \<Rightarrow> condemn now kind i ''summary_missing''
         | Some (Some body) \<Rightarrow> (case open_summary H kind i body of
             Inr v \<Rightarrow> op_return v
           | Inl e \<Rightarrow> condemn now kind i (e_code e))))"

definition maybe_summary :: "host \<Rightarrow> nat \<Rightarrow> string \<Rightarrow> string \<Rightarrow> json option sop" where
  "maybe_summary H now kind i =
     op_bind (op_attempt (summary H now kind i)) (\<lambda>r. case r of
       Inr x \<Rightarrow> op_return (Some x)
     | Inl e \<Rightarrow> if e_code e = ''not_found'' then op_return None else op_fail e)"

definition corrupt_count :: "string option \<Rightarrow> nat sop" where
  "corrupt_count kind = op_get (count_corrupt kind)"

definition has_status :: "string list \<Rightarrow> object_index \<Rightarrow> bool" where
  "has_status statuses ix \<longleftrightarrow> (case ix_status ix of None \<Rightarrow> False | Some x \<Rightarrow> x \<in> set statuses)"

definition any_indexed_relation_with_status :: "string \<Rightarrow> string \<Rightarrow> string \<Rightarrow> string list \<Rightarrow> bool sop" where
  "any_indexed_relation_with_status kind relation_kind relation_id statuses =
     (if statuses = [] then op_return False
      else op_get (\<lambda>s. list_ex (\<lambda>(i, ix). has_status statuses ix
        \<and> ((kind, i), (relation_kind, relation_id)) \<in> set (st_relations s)) (rows_of_kind kind (st_index s))))"

definition related_ids_with_status :: "string \<Rightarrow> (string \<times> string) list \<Rightarrow> string list \<Rightarrow> string list sop" where
  "related_ids_with_status kind relations statuses =
     (if relations = [] \<or> statuses = [] then op_return []
      else op_get (\<lambda>s. map fst (filter (\<lambda>(i, ix). has_status statuses ix
        \<and> list_ex (\<lambda>r. ((kind, i), r) \<in> set (st_relations s)) relations) (rows_of_kind kind (st_index s)))))"

definition oldest_first :: "(string \<times> object_index) list \<Rightarrow> (string \<times> object_index) list" where
  "oldest_first rows = sort_key (\<lambda>(i, ix). (ix_updated_at ix, i)) rows"

definition indexed_ids_with_status :: "string \<Rightarrow> string list \<Rightarrow> string list sop" where
  "indexed_ids_with_status kind statuses =
     (if statuses = [] then op_return []
      else op_get (\<lambda>s. map fst (oldest_first
        (filter (\<lambda>(_, ix). has_status statuses ix) (rows_of_kind kind (st_index s))))))"

section \<open>The material queue\<close>

text \<open>
  The body of a transaction that commits what it did and then reports an error is a transaction
  whose value is that error, raised once it has committed.
\<close>

definition committed :: "(error + 'a) sop \<Rightarrow> 'a sop" where
  "committed m = op_bind (transaction m) op_lift"

definition next_queued_material :: "nat \<Rightarrow> (string \<times> string) option sop" where
  "next_queued_material now = committed (
     op_bind (op_get (\<lambda>s. find (\<lambda>(i, _). om_get (st_index s) (''material'', i) = None)
         (rows_of_kind ''material'' (st_objects s)))) (\<lambda>missing.
     case missing of
       Some (i, _) \<Rightarrow> op_bind (quarantine_tx now ''material'' i ''index_missing'') (\<lambda>_.
         op_return (Inl object_corrupt))
     | None \<Rightarrow> op_bind (op_get (\<lambda>s. rows_of_kind ''material'' (st_corrupt s))) (\<lambda>corrupt.
         if corrupt \<noteq> [] then op_return (Inl object_corrupt)
         else op_bind (op_get (\<lambda>s. oldest_first
             (filter (\<lambda>(_, ix). ix_status ix = Some ''queued'') (rows_of_kind ''material'' (st_index s))))) (\<lambda>queue.
           case queue of
             [] \<Rightarrow> op_return (Inr None)
           | (i, ix) # _ \<Rightarrow> (case ix_group_id ix of
               None \<Rightarrow> op_fail (error_from_sqlite (\<lambda>_. []) SqliteOther)
             | Some g \<Rightarrow> op_return (Inr (Some (i, g))))))))"

definition claim_queued_material :: "host \<Rightarrow> nat \<Rightarrow> (string \<Rightarrow> material option) \<Rightarrow> string \<Rightarrow> nat
    \<Rightarrow> material option sop" where
  "claim_queued_material H now de i dictionary_revision = committed (
     op_bind (op_get (\<lambda>s. case om_get (st_index s) (''material'', i) of
         Some ix \<Rightarrow> if ix_status ix = Some ''queued'' then om_get (st_objects s) (''material'', i) else None
       | None \<Rightarrow> None)) (\<lambda>found.
     case found of
       None \<Rightarrow> op_return (Inr None)
     | Some body \<Rightarrow>
         (case and_then (open_object (hs_platform H) ''material'' i body)
             (\<lambda>bytes. ok_or (de bytes) error_from_json) of
           Inr m \<Rightarrow>
             if m_status m = ''queued''
             then (let m' = m\<lparr>m_status := ''running'', m_dictionary_revision := dictionary_revision\<rparr> in
               op_bind (op_lift (encoded H now ''material'' i (material_json m'))) (\<lambda>row.
               op_bind (write_row row) (\<lambda>_. op_return (Inr (Some m')))))
             else op_bind (quarantine_tx now ''material'' i ''index_body_mismatch'') (\<lambda>_.
               op_return (Inl object_corrupt))
         | Inl e \<Rightarrow> op_bind (quarantine_tx now ''material'' i (e_code e)) (\<lambda>_.
             op_return (Inl object_corrupt)))))"

section \<open>Migration of the second schema\<close>

definition is_raw_kind :: "string \<Rightarrow> bool" where
  "is_raw_kind kind \<longleftrightarrow> kind = ''source'' \<or> kind = ''ai_attachment_source''"

definition migrated_row :: "host \<Rightarrow> nat \<Rightarrow> string \<Rightarrow> string \<Rightarrow> string \<Rightarrow> error + stored_row option" where
  "migrated_row H now kind i body =
     (case open_object (hs_platform H) kind i body of
        Inl _ \<Rightarrow> Inr None
      | Inr bytes \<Rightarrow>
        if is_raw_kind kind
        then Inr (Some \<lparr>sr_kind = kind, sr_id = i, sr_body = body, sr_index = empty_index now,
               sr_summary = None, sr_relations = []\<rparr>)
        else (case hs_from_slice H bytes of
            None \<Rightarrow> Inr None
          | Some v \<Rightarrow>
            let ix = index_for_value now v in
            and_then (seal (hs_platform H) (summary_kind kind) i
                (hs_to_vec H (summary_for_value kind i v ix))) (\<lambda>sealed_summary.
              Inr (Some \<lparr>sr_kind = kind, sr_id = i, sr_body = body, sr_index = ix,
                sr_summary = Some sealed_summary, sr_relations = relations_for_value kind v\<rparr>))))"

definition migrate_object :: "host \<Rightarrow> nat \<Rightarrow> key \<times> string \<Rightarrow> unit sop" where
  "migrate_object H now = (\<lambda>((kind, i), body).
     op_bind (op_lift (migrated_row H now kind i body)) (\<lambda>row. case row of
       Some r \<Rightarrow> write_row r
     | None \<Rightarrow> quarantine_tx now kind i ''migration_object_invalid''))"

definition migrate_v2_to_v3 :: "host \<Rightarrow> nat \<Rightarrow> unit sop" where
  "migrate_v2_to_v3 H now = transaction (
     op_bind (op_get st_objects) (\<lambda>records. op_each (migrate_object H now) records))"


section \<open>The cursor\<close>

lemma cursor_roundtrip:
  assumes "host_ok H" "u < 2 ^ 64" "i \<noteq> []" "length i \<le> 200" "valid_utf8 i"
  shows "decode_cursor H (encode_cursor H u i) = Inr (u, i)"
proof -
  have digits: "c \<in> set (decimal u) \<Longrightarrow> byte c < 0x80 \<and> c \<noteq> CHR '':''" for c
    using decimal_digits[of u] by (auto simp: list_all_iff is_ascii_digit_def)
  have "takeWhile (\<lambda>c. c \<noteq> CHR '':'') (decimal u @ '':'' @ i) = decimal u"
    using digits by (simp add: takeWhile_append)
  moreover have "valid_utf8 (decimal u @ '':'' @ i)"
    by (intro valid_utf8_append assms(5) valid_utf8_ascii) (use digits in \<open>simp_all add: list_all_iff\<close>)
  ultimately show ?thesis
    using assms by (simp add: decode_cursor_def encode_cursor_def host_ok_def Let_def parse_decimal)
qed

section \<open>Walking the pages\<close>

text \<open>A client that follows the cursors until there is none; \<open>None\<close> is a failed page.\<close>

fun walk_pages :: "host \<Rightarrow> nat \<Rightarrow> string \<Rightarrow> string option \<Rightarrow> string option \<Rightarrow> nat \<Rightarrow> nat
    \<Rightarrow> string option \<Rightarrow> store \<Rightarrow> json list option" where
  "walk_pages H now kind subkind group_id limit 0 cursor s = None"
| "walk_pages H now kind subkind group_id limit (Suc fuel) cursor s =
     (case summary_page H now kind subkind group_id cursor limit s of
        (Inl _, _) \<Rightarrow> None
      | (Inr p, t) \<Rightarrow> (case sp_next_cursor p of
          None \<Rightarrow> Some (sp_items p)
        | Some c \<Rightarrow> map_option (\<lambda>vs. sp_items p @ vs)
            (walk_pages H now kind subkind group_id limit fuel (Some c) t)))"

lemma newest_first_filter: "newest_first key (filter P xs) = filter P (newest_first key xs)"
  by (simp add: newest_first_def filter_sort flip: rev_filter)

lemma newest_first_sorted:
  assumes "distinct (map key xs)"
  shows "sorted_wrt (\<lambda>x y. key y < key x) (newest_first key xs)"
proof -
  have "sorted (map key (sort_key key xs))" "distinct (map key (sort_key key xs))"
    using assms by (simp_all add: distinct_map)
  then have "sorted_wrt (<) (map key (sort_key key xs))" by (simp add: strict_sorted_iff)
  then show ?thesis by (simp add: newest_first_def sorted_wrt_rev sorted_wrt_map)
qed

lemma newest_first_set [simp]: "set (newest_first key xs) = set xs"
  "length (newest_first key xs) = length xs"
  by (simp_all add: newest_first_def)

lemma filter_behind:
  assumes "sorted_wrt (\<lambda>x y. key y < (key x :: 'k::linorder)) D" "j < length D"
  shows "filter (\<lambda>x. key x < key (D ! j)) D = drop (Suc j) D"
proof -
  have "D = take (Suc j) D @ drop (Suc j) D" by simp
  moreover have "filter (\<lambda>x. key x < key (D ! j)) (take (Suc j) D) = []"
    using assms by (auto simp: filter_empty_conv in_set_conv_nth sorted_wrt_iff_nth_less less_Suc_eq)
      (metis less_asym less_trans_Suc nat_neq_iff order.strict_trans)
  moreover have "filter (\<lambda>x. key x < key (D ! j)) (drop (Suc j) D) = drop (Suc j) D"
    using assms by (auto simp: filter_id_conv in_set_conv_nth sorted_wrt_iff_nth_less)
  ultimately show ?thesis by (metis append_Nil filter_append)
qed

lemma behind_cursor_less:
  "fst r < 2 ^ 63 \<Longrightarrow> fst q < 2 ^ 63 \<Longrightarrow> behind_cursor (Some q) r \<longleftrightarrow> r < q"
  by (cases r; cases q) (auto simp: behind_cursor_def as_i64_def Let_def)

lemma rows_of_kind_simps [simp]:
  "rows_of_kind kind [] = []"
  "rows_of_kind kind (((k, i), v) # m) =
     (if k = kind then (i, v) # rows_of_kind kind m else rows_of_kind kind m)"
  by (simp_all add: rows_of_kind_def map_filter_simps)

lemma rows_of_kind_set: "(i, v) \<in> set (rows_of_kind kind m) \<longleftrightarrow> ((kind, i), v) \<in> set m"
  by (induction m) (auto split: if_splits)

lemma rows_of_kind_distinct: "distinct (map fst m) \<Longrightarrow> distinct (map fst (rows_of_kind kind m))"
proof (induction m)
  case (Cons e m)
  have "(\<exists>v. (i, v) \<in> set (rows_of_kind kind m)) \<longleftrightarrow> (\<exists>v. ((kind, i), v) \<in> set m)" for i
    by (simp add: rows_of_kind_set)
  then have "fst ` set (rows_of_kind kind m) = {i. (kind, i) \<in> fst ` set m}"
    by (force simp: image_iff)
  with Cons show ?case by (cases e) auto
qed simp

text \<open>The keys of the rows a page selects from, newest first, with the value each summary holds.\<close>

definition row_key_of :: "string \<times> object_index \<Rightarrow> nat \<times> string" where
  "row_key_of = (\<lambda>(i, ix). (ix_updated_at ix, i))"

definition readable :: "host \<Rightarrow> string \<Rightarrow> (string \<Rightarrow> json) \<Rightarrow> store \<Rightarrow> string \<times> object_index \<Rightarrow> bool" where
  "readable H kind val s = (\<lambda>(i, ix). i \<noteq> [] \<and> length i \<le> 200 \<and> valid_utf8 i
     \<and> (\<exists>body. om_get (st_summaries s) (kind, i) = Some body \<and> open_summary H kind i body = Inr (val i)))"

lemma joined_readable:
  assumes "list_all (readable H kind val s) (indexed_rows kind subkind group_id s)"
  shows "joined_rows kind subkind group_id s = map (\<lambda>r. (row_key_of r,
      the (om_get (st_summaries s) (kind, fst r)))) (indexed_rows kind subkind group_id s)"
proof -
  have "list_all (readable H kind val s) rows \<Longrightarrow> List.map_filter (\<lambda>(i, ix).
      map_option (\<lambda>body. ((ix_updated_at ix, i), body)) (om_get (st_summaries s) (kind, i))) rows
    = map (\<lambda>r. (row_key_of r, the (om_get (st_summaries s) (kind, fst r)))) rows" for rows
    by (induction rows) (auto simp: readable_def row_key_of_def map_filter_simps)
  with assms show ?thesis by (simp add: joined_rows_def)
qed

lemma open_page_readable:
  assumes "list_all (readable H kind val s) rows"
  shows "open_page H now kind (map (\<lambda>r. (row_key_of r, the (om_get (st_summaries s) (kind, fst r)))) rows) t
    = (Inr (map (val \<circ> fst) rows), t)"
  using assms by (induction rows) (auto simp: readable_def row_key_of_def op_bind_run)

lemma sort_key_map: "sort_key key (map f xs) = map f (sort_key (key \<circ> f) xs)"
proof -
  have "insort_key key (f a) (map f ys) = map f (insort_key (key \<circ> f) a ys)" for a ys
    by (induction ys) auto
  then show ?thesis by (induction xs) simp_all
qed

lemma select_page_map: "select_page key cursor limit (map f xs) = map f (select_page (key \<circ> f) cursor limit xs)"
  by (simp add: select_page_def newest_first_def sort_key_map filter_map rev_map take_map comp_def)

lemma select_page_from:
  assumes "distinct (map key xs)" "\<forall>x\<in>set xs. fst (key x) < 2 ^ 63" "k \<le> length xs"
  defines "D \<equiv> newest_first key xs"
  shows "select_page key (if k = 0 then None else Some (key (D ! (k - 1)))) limit xs
    = take (limit + 1) (drop k D)"
proof (cases k)
  case 0
  then show ?thesis by (simp add: select_page_def behind_cursor_def D_def)
next
  case (Suc j)
  then have j: "j < length D" using assms(3) by (simp add: D_def)
  then have bound: "fst (key (D ! j)) < 2 ^ 63" using assms(2) nth_mem[OF j] by (simp add: D_def)
  have "filter (\<lambda>x. behind_cursor (Some (key (D ! j))) (key x)) D = filter (\<lambda>x. key x < key (D ! j)) D"
    using assms(2) bound by (intro filter_cong) (auto simp: D_def behind_cursor_less)
  also have "\<dots> = drop (Suc j) D"
    using newest_first_sorted[OF assms(1)] j unfolding D_def by (rule filter_behind)
  finally show ?thesis using Suc by (simp add: select_page_def newest_first_filter D_def)
qed

definition page_cursor :: "host \<Rightarrow> (string \<times> object_index) list \<Rightarrow> nat \<Rightarrow> string option" where
  "page_cursor H D k = (if k = 0 then None
     else Some (encode_cursor H (fst (row_key_of (D ! (k - 1)))) (snd (row_key_of (D ! (k - 1))))))"

lemma summary_page_from:
  assumes "host_ok H" "1 \<le> limit" "limit \<le> 100" "store_inv s"
    and "list_all (readable H kind val s) (indexed_rows kind subkind group_id s)"
    and "k \<le> length (indexed_rows kind subkind group_id s)"
  defines "D \<equiv> newest_first row_key_of (indexed_rows kind subkind group_id s)"
  shows "\<exists>p. summary_page H now kind subkind group_id (page_cursor H D k) limit s = (Inr p, s)
    \<and> sp_items p = map (val \<circ> fst) (take limit (drop k D))
    \<and> sp_total p = length D
    \<and> sp_next_cursor p = (if limit < length D - k then page_cursor H D (k + limit) else None)"
proof -
  let ?R = "indexed_rows kind subkind group_id s"
  let ?g = "\<lambda>r. (row_key_of r, the (om_get (st_summaries s) (kind, fst r)))"
  have rows: "list_all (readable H kind val s) D" using assms(5) by (simp add: D_def list_all_iff)
  have index: "om_wf (st_index s)" using assms(4) by (rule store_invD)
  have mem: "((kind, i), ix) \<in> set (st_index s)" if "(i, ix) \<in> set ?R" for i ix
    using that by (simp add: indexed_rows_def rows_of_kind_set)
  have "distinct (map fst (rows_of_kind kind (st_index s)))"
    by (rule rows_of_kind_distinct[OF om_wf_distinct[OF index]])
  then have "distinct (map fst ?R)" by (simp add: indexed_rows_def distinct_map_filter)
  moreover have "map fst ?R = map snd (map row_key_of ?R)" by (auto simp: row_key_of_def)
  ultimately have dist: "distinct (map row_key_of ?R)" by (metis distinct_map)
  have "ix_updated_at ix < 2 ^ 63" if "(i, ix) \<in> set ?R" for i ix
    using mem[OF that] om_wf_get_iff[OF index] store_invD(4)[OF assms(4)] by simp
  then have bound: "\<forall>r\<in>set ?R. fst (row_key_of r) < 2 ^ 63"
    by (auto simp: row_key_of_def)
  have none: "find (\<lambda>(i, _). om_get (st_summaries s) (kind, i) = None) ?R = None"
    using assms(5) by (auto simp: find_None_iff readable_def list_all_iff)
  have cursor: "decode_cursor_opt H (page_cursor H D k)
      = Inr (if k = 0 then None else Some (row_key_of (D ! (k - 1))))"
  proof (cases "k = 0")
    case False
    then have m: "D ! (k - 1) \<in> set D" using assms(6) by (intro nth_mem) (simp add: D_def)
    then have "fst (row_key_of (D ! (k - 1))) < 2 ^ 64" "readable H kind val s (D ! (k - 1))"
      using bound rows by (auto simp: D_def list_all_iff dest!: bspec)
    then show ?thesis using False cursor_roundtrip[OF assms(1)]
      by (auto simp: page_cursor_def decode_cursor_opt_def readable_def row_key_of_def split: prod.splits)
  qed (simp add: page_cursor_def decode_cursor_opt_def)
  have sel: "select_page fst (if k = 0 then None else Some (row_key_of (D ! (k - 1)))) limit
      (joined_rows kind subkind group_id s) = map ?g (take (limit + 1) (drop k D))"
  proof -
    have "fst \<circ> ?g = row_key_of" by (simp add: fun_eq_iff)
    then show ?thesis
      unfolding joined_readable[OF assms(5)] select_page_map D_def
      by (simp only: select_page_from[OF dist bound assms(6)])
  qed
  have part: "list_all (readable H kind val s) (take limit (drop k D))"
    using rows by (intro list_all_take list_all_drop)
  have "next_cursor H limit (map fst (map ?g (take (limit + 1) (drop k D))))
      = (if limit < length D - k then page_cursor H D (k + limit) else None)"
  proof (cases "limit < length D - k")
    case True
    then have "take limit (map row_key_of (take (limit + 1) (drop k D))) \<noteq> []"
      "last (take limit (map row_key_of (take (limit + 1) (drop k D)))) = row_key_of (D ! (k + limit - 1))"
      using assms(2) by (auto simp: last_conv_nth min_def)
    then have "rev (take limit (map row_key_of (take (limit + 1) (drop k D))))
        = row_key_of (D ! (k + limit - 1)) # tl (rev (take limit (map row_key_of (take (limit + 1) (drop k D)))))"
      by (metis hd_rev list.collapse rev_is_Nil_conv)
    moreover have "map fst (map ?g L) = map row_key_of L" for L by simp
    moreover obtain u i where "row_key_of (D ! (k + limit - 1)) = (u, i)" by fastforce
    ultimately show ?thesis using True assms(2)
      by (simp only: next_cursor_def) (auto simp: page_cursor_def split: list.splits)
  qed (simp add: next_cursor_def)
  then show ?thesis
    using assms(2,3) none sel open_page_readable[OF part, of now s] cursor
    by (simp add: summary_page_def op_bind_run take_map min_def D_def)
qed

text \<open>
  C19: the pages are the index. While nothing is written, following the cursors from the first
  page ends, and the pages joined are the summaries of exactly the indexed rows of the filter,
  each once, newest first, whatever the page size; every page reports their number.
\<close>

theorem pages_enumerate_the_index:
  assumes "host_ok H" "1 \<le> limit" "limit \<le> 100" "store_inv s"
    and "list_all (readable H kind val s) (indexed_rows kind subkind group_id s)"
    and "length (indexed_rows kind subkind group_id s) < fuel"
  shows "walk_pages H now kind subkind group_id limit fuel None s
    = Some (map (val \<circ> fst) (newest_first row_key_of (indexed_rows kind subkind group_id s)))"
proof -
  define D where "D = newest_first row_key_of (indexed_rows kind subkind group_id s)"
  have "k \<le> length D \<Longrightarrow> length D - k < fuel \<Longrightarrow>
      walk_pages H now kind subkind group_id limit fuel (page_cursor H D k) s = Some (map (val \<circ> fst) (drop k D))" for k
  proof (induction fuel arbitrary: k)
    case (Suc fuel)
    from summary_page_from[OF assms(1-5), of k now] Suc.prems(1) obtain p where
      p: "summary_page H now kind subkind group_id (page_cursor H D k) limit s = (Inr p, s)"
      "sp_items p = map (val \<circ> fst) (take limit (drop k D))"
      "sp_next_cursor p = (if limit < length D - k then page_cursor H D (k + limit) else None)"
      by (auto simp: D_def)
    show ?case
    proof (cases "limit < length D - k")
      case True
      then have "walk_pages H now kind subkind group_id limit fuel (page_cursor H D (k + limit)) s
          = Some (map (val \<circ> fst) (drop (k + limit) D))"
        using Suc.prems assms(2) by (intro Suc.IH) auto
      moreover have "drop k D = take limit (drop k D) @ drop (k + limit) D"
        by (metis append_take_drop_id drop_drop add.commute)
      moreover have "page_cursor H D (k + limit) \<noteq> None" using assms(2) by (simp add: page_cursor_def)
      ultimately show ?thesis using p True by (auto simp flip: map_append)
    next
      case False
      then show ?thesis using p by simp
    qed
  qed simp
  from this[of 0] assms(6) show ?thesis by (simp add: D_def page_cursor_def)
qed


section \<open>Conflict candidates\<close>

lemma prefix_range:
  assumes "byte d = Suc (byte c)"
  shows "q @ [c] \<le> i \<and> i < q @ [d] \<longleftrightarrow> prefix (q @ [c]) i"
proof (induction q arbitrary: i)
  case Nil
  have adjacent: "(c < x \<or> c = x) \<and> x < d \<longleftrightarrow> x = c" for x
    using assms by (auto simp: less_char_def)
  show ?case
  proof (cases i)
    case (Cons x xs)
    then show ?thesis using adjacent[of x] by auto
  qed simp
next
  case (Cons a q)
  show ?case
  proof (cases i)
    case (Cons x xs)
    then show ?thesis using Cons.IH[of xs] by (cases x a rule: linorder_cases) auto
  qed simp
qed

text \<open>
  The clear-text query and the cursor check describe one namespace. The rows the conflict
  query selects by its range, length and suffix conditions are exactly the identifiers the
  cursor check admits for the same document, so no page and no cursor reaches another one.
\<close>

theorem conflict_rows_are_conflict_ids:
  "conflict_row base i \<longleftrightarrow> valid_draft_conflict_id (base @ ''-c-'') i"
proof -
  have "(base @ ''-c'') @ [CHR ''-''] \<le> i \<and> i < (base @ ''-c'') @ [CHR ''.''] \<longleftrightarrow> prefix ((base @ ''-c'') @ [CHR ''-'']) i"
    by (rule prefix_range) simp
  then show ?thesis by (auto simp: conflict_row_def valid_draft_conflict_id_def Let_def)
qed

section \<open>The queue\<close>

lemma material_index:
  "m_status m \<noteq> [] \<Longrightarrow> ix_status (index_for_value now (material_json m)) = Some (m_status m)"
  by (simp add: index_for_value_def material_json_def field_string_def json_get_def)

lemma committed_run: "committed m s = (case m s of (Inl e, _) \<Rightarrow> (Inl e, s)
    | (Inr (Inl e), t) \<Rightarrow> (Inl e, t) | (Inr (Inr a), t) \<Rightarrow> (Inr a, t))"
  by (auto simp: committed_def op_bind_run transaction_def split: prod.splits sum.splits)

definition queued_body :: "string \<Rightarrow> store \<Rightarrow> string option" where
  "queued_body i s = (case om_get (st_index s) (''material'', i) of
     Some ix \<Rightarrow> if ix_status ix = Some ''queued'' then om_get (st_objects s) (''material'', i) else None
   | None \<Rightarrow> None)"

lemma claim_Some:
  assumes "claim_queued_material H now de i dictionary_revision s = (Inr (Some m), t)"
  obtains body m0 row where "queued_body i s = Some body"
    "and_then (open_object (hs_platform H) ''material'' i body) (\<lambda>bytes. ok_or (de bytes) error_from_json) = Inr m0"
    "m_status m0 = ''queued''"
    "m = m0\<lparr>m_status := ''running'', m_dictionary_revision := dictionary_revision\<rparr>"
    "encoded H now ''material'' i (material_json m) = Inr row" "t = written row s"
proof -
  from assms obtain body where body: "queued_body i s = Some body"
    unfolding claim_queued_material_def queued_body_def[symmetric] committed_run
    by (auto simp: op_bind_run split: option.splits)
  let ?r = "and_then (open_object (hs_platform H) ''material'' i body) (\<lambda>bytes. ok_or (de bytes) error_from_json)"
  obtain m0 where m0: "?r = Inr m0"
  proof (cases ?r)
    case (Inl e)
    with assms body show thesis
      unfolding claim_queued_material_def queued_body_def[symmetric] committed_run
      by (auto simp: op_bind_run split: option.splits prod.splits sum.splits)
  qed
  have st: "m_status m0 = ''queued''"
  proof (rule ccontr)
    assume "m_status m0 \<noteq> ''queued''"
    with assms body m0 show False
      unfolding claim_queued_material_def queued_body_def[symmetric] committed_run
      by (auto simp: op_bind_run split: prod.splits sum.splits)
  qed
  let ?m = "m0\<lparr>m_status := ''running'', m_dictionary_revision := dictionary_revision\<rparr>"
  from assms body m0 st obtain row u where run: "m = ?m" "encoded H now ''material'' i (material_json ?m) = Inr row"
    "write_row row s = (Inr u, t)"
    unfolding claim_queued_material_def queued_body_def[symmetric] committed_run
    by (auto simp: op_bind_run Let_def split: prod.splits sum.splits)
  show thesis by (rule that[OF body m0 st run(1)]) (use run write_row_Inr(1)[OF run(3)] in simp_all)
qed

lemma claim_None: "queued_body i s = None \<Longrightarrow>
  claim_queued_material H now de i dictionary_revision s = (Inr None, s)"
  unfolding claim_queued_material_def queued_body_def[symmetric] committed_run by (simp add: op_bind_run)


text \<open>
  C16: a material is claimed once. A claim takes a stored body that was queued, marks exactly it as
  running with the dictionary revision of the claim, in the body and in the index alike; from then
  on every further claim of that material finds nothing and changes nothing.
\<close>

theorem claims_are_exclusive:
  assumes "host_ok H" and "claim_queued_material H now de i dictionary_revision s = (Inr (Some m), t)"
  shows "(\<exists>body m0. queued_body i s = Some body \<and> m_status m0 = ''queued''
        \<and> m = m0\<lparr>m_status := ''running'', m_dictionary_revision := dictionary_revision\<rparr>)
    \<and> map_option ix_status (om_get (st_index t) (''material'', i)) = Some (Some ''running'')
    \<and> raw H now' ''material'' i t = (Inr (hs_to_vec H (material_json m)), t)
    \<and> (\<forall>k. k \<noteq> (''material'', i) \<longrightarrow> om_get (st_objects t) k = om_get (st_objects s) k)
    \<and> claim_queued_material H now' de' i dictionary_revision' t = (Inr None, t)"
proof -
  obtain body m0 row where run: "queued_body i s = Some body"
    "m_status m0 = ''queued''"
    "m = m0\<lparr>m_status := ''running'', m_dictionary_revision := dictionary_revision\<rparr>"
    "encoded H now ''material'' i (material_json m) = Inr row" "t = written row s"
    using assms(2) by (rule claim_Some)
  note row = encoded_row[OF assms(1) run(4)]
  have st: "map_option ix_status (om_get (st_index t) (''material'', i)) = Some (Some ''running'')"
    unfolding run(5) by (simp add: written_get row material_index run(3))
  then have "queued_body i t = None" by (auto simp: queued_body_def split: option.splits)
  then have "claim_queued_material H now' de' i dictionary_revision' t = (Inr None, t)" by (rule claim_None)
  moreover have "raw H now' ''material'' i t = (Inr (hs_to_vec H (material_json m)), t)"
    unfolding run(5) raw_run by (simp add: written_get row)
  ultimately show ?thesis using run(1-3) st row(1) by (auto simp: run(5) written_get)
qed

lemma oldest_first_hd:
  assumes "oldest_first rows = r # rs"
  shows "r \<in> set rows" "q \<in> set rows \<Longrightarrow> (ix_updated_at (snd r), fst r) \<le> (ix_updated_at (snd q), fst q)"
proof -
  have set: "set rows = set (r # rs)" using assms by (metis oldest_first_def set_sort)
  then show "r \<in> set rows" by simp
  have "sorted (map (\<lambda>(i, ix). (ix_updated_at ix, i)) (r # rs))"
    using assms by (metis oldest_first_def sorted_sort_key)
  then show "q \<in> set rows \<Longrightarrow> (ix_updated_at (snd r), fst r) \<le> (ix_updated_at (snd q), fst q)"
    using set by (auto simp: case_prod_beta)
qed

text \<open>
  The queue is served oldest first and hides nothing. When the queue offers a material, no stored
  material is missing from the index or in quarantine, the offered one is queued and was updated
  before every other queued one. Claiming it right away does not come back empty: it takes the
  material, or fails because its body does not open or no longer agrees with the index.
\<close>

theorem queue_offers_the_oldest:
  assumes "store_inv s" and "next_queued_material now s = (Inr (Some (i, g)), t)"
  shows "t = s
    \<and> (\<forall>j. om_get (st_objects s) (''material'', j) \<noteq> None \<longrightarrow> om_get (st_index s) (''material'', j) \<noteq> None)
    \<and> (\<forall>j. om_get (st_corrupt s) (''material'', j) = None)
    \<and> (\<exists>ix. om_get (st_index s) (''material'', i) = Some ix \<and> ix_status ix = Some ''queued'' \<and> ix_group_id ix = Some g
        \<and> (\<forall>j jx. om_get (st_index s) (''material'', j) = Some jx \<and> ix_status jx = Some ''queued'' \<longrightarrow>
             (ix_updated_at ix, i) \<le> (ix_updated_at jx, j)))
    \<and> fst (claim_queued_material H now' de i dictionary_revision s) \<noteq> Inr None"
proof -
  note wf = store_invD(1-3)[OF assms(1)]
  let ?Q = "filter (\<lambda>(_, ix). ix_status ix = Some ''queued'') (rows_of_kind ''material'' (st_index s))"
  from assms(2) obtain ix rs where run:
    "find (\<lambda>(i, _). om_get (st_index s) (''material'', i) = None) (rows_of_kind ''material'' (st_objects s)) = None"
    "rows_of_kind ''material'' (st_corrupt s) = []" "oldest_first ?Q = (i, ix) # rs" "ix_group_id ix = Some g" "t = s"
    by (auto simp: next_queued_material_def committed_run op_bind_run split: option.splits list.splits prod.splits sum.splits if_splits)
  have all: "om_get (st_objects s) (''material'', j) \<noteq> None \<longrightarrow> om_get (st_index s) (''material'', j) \<noteq> None" for j
    using run(1) om_wf_get_iff[OF wf(1)] by (auto simp: find_None_iff rows_of_kind_set)
  have clean: "om_get (st_corrupt s) (''material'', j) = None" for j
    using run(2) rows_of_kind_set[of j _ "''material''" "st_corrupt s"] by (auto simp: map_of_eq_None_iff)
  have Q: "(j, jx) \<in> set ?Q \<longleftrightarrow> om_get (st_index s) (''material'', j) = Some jx \<and> ix_status jx = Some ''queued''" for j jx
    using om_wf_get_iff[OF wf(2)] by (auto simp: rows_of_kind_set)
  have ix: "om_get (st_index s) (''material'', i) = Some ix" "ix_status ix = Some ''queued''"
    using oldest_first_hd(1)[OF run(3)] Q by auto
  have least: "(ix_updated_at ix, i) \<le> (ix_updated_at jx, j)"
    if "om_get (st_index s) (''material'', j) = Some jx" "ix_status jx = Some ''queued''" for j jx
  proof -
    have "(j, jx) \<in> set ?Q" using Q that by blast
    from oldest_first_hd(2)[OF run(3) this] show ?thesis by simp
  qed
  have "(''material'', i) \<in> fst ` set (st_objects s)"
    using store_invD(5)[OF assms(1)] ix(1) by (force dest: map_of_SomeD)
  then obtain body where "om_get (st_objects s) (''material'', i) = Some body"
    using om_wf_get_iff[OF wf(1)] by force
  with ix have "queued_body i s = Some body" by (simp add: queued_body_def)
  then have "fst (claim_queued_material H now' de i dictionary_revision s) \<noteq> Inr None"
    unfolding claim_queued_material_def queued_body_def[symmetric] committed_run
    by (auto simp: op_bind_run Let_def split: prod.splits sum.splits)
  with run(5) all clean ix run(4) least show ?thesis by auto
qed


section \<open>The store as a transition system\<close>

lemma preserves_committed [hoare_intros]: "commits I m \<Longrightarrow> preserves I (committed m)"
  unfolding committed_def by (intro preserves_bind preserves_transaction) simp_all

lemma preserves_open_page [hoare_intros]: "preserves store_inv (open_page H now kind rows)"
  by (induction H now kind rows rule: open_page.induct; unfold open_page.simps) (intro hoare_intros; blast)+

lemma preserves_summary_page [hoare_intros]:
  "preserves store_inv (summary_page H now kind subkind group_id cursor limit)"
  unfolding summary_page_def case_prod_beta by (intro hoare_intros)

lemma preserves_summary [hoare_intros]: "preserves store_inv (summary H now kind i)"
proof -
  have row: "preserves store_inv (case row of None \<Rightarrow> op_fail e
      | Some None \<Rightarrow> condemn now kind i c | Some (Some body) \<Rightarrow> f body)"
    if "\<And>body. preserves store_inv (f body)" for row e c and f :: "string \<Rightarrow> json sop"
    using that by (auto intro!: hoare_intros split: option.split)
  show ?thesis unfolding summary_def by (intro hoare_intros row)
qed

lemma commits_list [hoare_intros]:
  "(xs = [] \<Longrightarrow> commits I m) \<Longrightarrow> (\<And>y ys. xs = y # ys \<Longrightarrow> commits I (f y ys)) \<Longrightarrow>
    commits I (case xs of [] \<Rightarrow> m | y # ys \<Rightarrow> f y ys)"
  by (cases xs) auto

lemma preserves_next_queued [hoare_intros]: "preserves store_inv (next_queued_material now)"
  unfolding next_queued_material_def case_prod_beta by (intro preserves_committed hoare_intros)

lemma preserves_claim [hoare_intros]:
  "preserves store_inv (claim_queued_material H now de i dictionary_revision)"
  unfolding claim_queued_material_def Let_def by (intro preserves_committed hoare_intros)

lemma commits_migrate: "commits store_inv (migrate_object H now r)"
  unfolding migrate_object_def case_prod_beta by (intro hoare_intros)

lemma preserves_migrate [hoare_intros]: "preserves store_inv (migrate_v2_to_v3 H now)"
  unfolding migrate_v2_to_v3_def by (intro preserves_transaction hoare_intros commits_migrate)

text \<open>One step of the store is one operation of its interface, whatever its outcome.\<close>

datatype store_label = WriteRows | DeleteRow | ReadObject | ListObjects | ReadPage | ReadSummary
  | NextQueued | ClaimQueued | Migrate

inductive store_step :: "host \<Rightarrow> store \<Rightarrow> store_label \<Rightarrow> store \<Rightarrow> bool" for H where
  "store_step H s WriteRows (snd (put_many rows s))"
| "store_step H s DeleteRow (snd (delete_object kind i s))"
| "store_step H s ReadObject (snd (get H now (de :: string \<Rightarrow> json option) kind i s))"
| "store_step H s ListObjects (snd (list_objects H now (de :: string \<Rightarrow> json option) kind s))"
| "store_step H s ReadPage (snd (summary_page H now kind subkind group_id cursor limit s))"
| "store_step H s ReadSummary (snd (summary H now kind i s))"
| "store_step H s NextQueued (snd (next_queued_material now s))"
| "store_step H s ClaimQueued (snd (claim_queued_material H now dm i revision s))"
| "store_step H s Migrate (snd (migrate_v2_to_v3 H now s))"

lemma preserves_snd: "preserves I m \<Longrightarrow> I s \<Longrightarrow> I (snd (m s))"
  by (simp add: preserves_def)

interpretation tables: transition_system "\<lambda>s. s = empty_store" "store_step H" store_inv for H
proof
  show "s = empty_store \<Longrightarrow> store_inv s" for s by (simp add: store_inv_def empty_store_def)
  show "store_inv s \<Longrightarrow> store_step H s l t \<Longrightarrow> store_inv t" for s l t
    by (erule store_step.cases) (auto intro!: preserves_snd hoare_intros)
qed

text \<open>The store with other bytes as the body and the summary of one object.\<close>

definition tampered :: "string \<Rightarrow> string \<Rightarrow> string \<Rightarrow> string \<Rightarrow> store \<Rightarrow> store" where
  "tampered kind i body sealed s = s\<lparr>st_objects := om_put (kind, i) body (st_objects s),
     st_summaries := om_put (kind, i) sealed (st_summaries s)\<rparr>"

text \<open>An operation whose result is the same in every state.\<close>

definition oblivious :: "'a sop \<Rightarrow> bool" where
  "oblivious m \<longleftrightarrow> (\<forall>s t. fst (m s) = fst (m t))"

lemma obliviousD: "oblivious m \<Longrightarrow> fst (m s) = fst (m t)"
  by (simp add: oblivious_def)

lemma oblivious_bind: "oblivious m \<Longrightarrow> (\<And>a. oblivious (f a)) \<Longrightarrow> oblivious (op_bind m f)"
  unfolding oblivious_def op_bind_run by (auto split: sum.split prod.split) (metis fst_conv sum.distinct(1) sum.inject)+

lemma oblivious_basic: "oblivious (op_return a)" "oblivious (op_fail e)" "oblivious (Pair r)"
  by (simp_all add: oblivious_def)

lemma oblivious_map: "(\<And>x. oblivious (f x)) \<Longrightarrow> oblivious (op_map f xs)"
  by (induction xs) (auto intro!: oblivious_bind oblivious_basic)

lemma oblivious_quarantine: "oblivious (quarantine now kind i code)"
  by (simp add: oblivious_def quarantine_def quarantine_tx_def transaction_def op_bind_run Let_def split: sum.split)

lemma oblivious_condemn: "oblivious (condemn now kind i code)"
  unfolding condemn_def by (intro oblivious_bind oblivious_quarantine oblivious_basic)

lemma oblivious_read_listed: "oblivious (read_listed H now de kind r)"
  unfolding read_listed_def
  by (auto simp: oblivious_basic split: prod.split sum.split intro!: oblivious_bind oblivious_quarantine oblivious_basic)

lemma oblivious_open_page: "oblivious (open_page H now kind rows)"
  by (induction rows rule: open_page.induct)
    (auto split: sum.split intro!: oblivious_bind oblivious_basic oblivious_condemn)

lemma rows_of_kind_put:
  assumes "\<And>v. \<not> P (i, v)"
  shows "filter P (rows_of_kind kind (om_put (kind, i) x m)) = filter P (rows_of_kind kind m)"
  using assms by (induction m) (auto simp: rows_of_kind_def)

lemma list_tampered:
  assumes "om_get (st_corrupt s) (kind, i) \<noteq> None"
  shows "fst (list_objects H now de kind (tampered kind i body sealed s)) = fst (list_objects H now de kind s)"
proof -
  let ?P = "\<lambda>t. \<lambda>(j, b :: string). \<not> is_quarantined kind j t"
  have "filter (?P (tampered kind i body sealed s)) (rows_of_kind kind (st_objects (tampered kind i body sealed s)))
      = filter (?P s) (rows_of_kind kind (st_objects s))"
    using assms rows_of_kind_put[of "?P s" i kind body "st_objects s"] by (simp add: tampered_def is_quarantined_def)
  moreover have "oblivious (op_bind (op_map (read_listed H now de kind) rs) (\<lambda>found. op_return (List.map_filter (\<lambda>x. x) found)))" for rs
    by (intro oblivious_bind oblivious_map oblivious_read_listed oblivious_basic)
  ultimately show ?thesis unfolding list_objects_def op_bind_run oblivious_def by simp
qed

lemma first_steps:
  "op_bind (op_lift r) f s = (case r of Inl e \<Rightarrow> (Inl e, s) | Inr a \<Rightarrow> f a s)"
  "op_bind (op_get g) f s = f (g s) s"
  by (simp_all add: op_bind_run)

lemma page_tampered:
  assumes "(kind, i) \<notin> fst ` set (st_index s)"
  shows "fst (summary_page H now kind subkind group_id cursor limit (tampered kind i body sealed s))
    = fst (summary_page H now kind subkind group_id cursor limit s)"
proof -
  let ?t = "tampered kind i body sealed s"
  have ix: "indexed_rows kind subkind group_id ?t = indexed_rows kind subkind group_id s"
    "count_corrupt (Some kind) ?t = count_corrupt (Some kind) s"
    by (simp_all add: indexed_rows_def count_corrupt_def tampered_def)
  have "j \<noteq> i" if "(j, x) \<in> set (indexed_rows kind subkind group_id s)" for j x
  proof -
    have "((kind, j), x) \<in> set (st_index s)"
      using that by (auto simp: indexed_rows_def rows_of_kind_def map_filter_def split: if_splits)
    then show ?thesis using assms by (metis fst_conv image_eqI)
  qed
  then have summaries: "om_get (st_summaries ?t) (kind, j) = om_get (st_summaries s) (kind, j)"
    if "(j, x) \<in> set (indexed_rows kind subkind group_id s)" for j x
    using that by (auto simp: tampered_def)
  have joined: "joined_rows kind subkind group_id ?t = joined_rows kind subkind group_id s"
    unfolding joined_rows_def ix map_filter_def using summaries
    by (intro arg_cong2[where f = map] filter_cong map_cong) (auto intro!: filter_cong map_cong)
  have missing: "find (\<lambda>(j, _). om_get (st_summaries ?t) (kind, j) = None) (indexed_rows kind subkind group_id s)
      = find (\<lambda>(j, _). om_get (st_summaries s) (kind, j) = None) (indexed_rows kind subkind group_id s)"
    using summaries by (intro find_cong) auto
  have tail: "oblivious (case x of Some (j, _) \<Rightarrow> condemn now kind j ''summary_missing''
      | None \<Rightarrow> op_bind (open_page H now kind rows) (\<lambda>items. op_return (f items)))" for x :: "(string \<times> object_index) option" and rows f
    by (auto split: option.split intro!: oblivious_condemn oblivious_bind oblivious_open_page oblivious_basic)
  show ?thesis
    unfolding summary_page_def
    by (auto simp: first_steps joined missing ix split: sum.split intro!: obliviousD[OF tail])
qed

text \<open>
  C38: what is in quarantine is out of circulation. In every state the operations can reach, an
  object in quarantine is in no index, has no summary and no relation; reading it or its summary
  is refused and changes nothing, and it is never claimed. It is not listed either: whatever its
  stored bytes, and whatever bytes stood as its summary, the list of its kind and every page of
  summaries are the same.
\<close>

theorem quarantine_is_effective:
  assumes "tables.reach H s" and "om_get (st_corrupt s) (kind, i) \<noteq> None"
  shows "om_get (st_index s) (kind, i) = None \<and> om_get (st_summaries s) (kind, i) = None
    \<and> (kind, i) \<notin> fst ` set (st_relations s)
    \<and> get H now de kind i s = (Inl object_corrupt, s)
    \<and> summary H now kind i s = (Inl object_corrupt, s)
    \<and> fst (list_objects H now de kind (tampered kind i body sealed s)) = fst (list_objects H now de kind s)
    \<and> fst (summary_page H now kind subkind group_id cursor limit (tampered kind i body sealed s))
        = fst (summary_page H now kind subkind group_id cursor limit s)
    \<and> (kind = ''material'' \<longrightarrow> claim_queued_material H now dm i revision s = (Inr None, s))"
proof -
  have inv: "store_inv s" using assms(1) by (rule tables.reach_inv)
  have "(kind, i) \<in> fst ` set (st_corrupt s)" using assms(2) by (simp add: map_of_eq_None_iff)
  then have out: "(kind, i) \<notin> fst ` set (st_index s)" using store_invD(6)[OF inv] by blast
  moreover have "(kind, i) \<notin> fst ` set (st_summaries s)" "(kind, i) \<notin> fst ` set (st_relations s)"
    using inv out unfolding store_inv_def by blast+
  ultimately have none: "om_get (st_index s) (kind, i) = None" "om_get (st_summaries s) (kind, i) = None"
    "(kind, i) \<notin> fst ` set (st_relations s)"
    by (simp_all add: map_of_eq_None_iff)
  moreover have "summary H now kind i s = (Inl object_corrupt, s)"
    using assms(2) by (simp add: summary_def op_bind_run is_quarantined_def)
  moreover have "kind = ''material'' \<longrightarrow> claim_queued_material H now dm i revision s = (Inr None, s)"
    using none(1) by (auto intro!: claim_None simp: queued_body_def)
  ultimately show ?thesis
    using assms(2) list_tampered[OF assms(2)] page_tampered[OF out] by (simp add: get_run)
qed

section \<open>Witnesses\<close>

lemma sample_store_written: "sample_store = written (sample_row sample_material ''Q'' ''S'') empty_store"
  by (simp add: sample_store_def put_many_ok sample_row_ok)

lemma sample_store_inv: "store_inv sample_store"
proof -
  have "store_inv empty_store" by (simp add: store_inv_def empty_store_def)
  then show ?thesis unfolding sample_store_def by (rule preserves_snd[OF preserves_put_many])
qed

lemma sample_index: "om_get (st_index sample_store) (''material'', ''mat_1'')
  = Some (index_for_value 7 (material_json sample_material))"
  unfolding sample_store_written by (simp add: written_get row_key_def sample_row_def)

lemma sample_status: "ix_status (index_for_value now (material_json sample_material)) = Some ''queued''"
  using material_index[of sample_material] by (simp add: sample_material_def)


lemma sample_tables:
  "rows_of_kind ''material'' (st_objects sample_store) = [(''mat_1'', sample_blob ''material'' ''mat_1'' ''Q'')]"
  "rows_of_kind ''material'' (st_index sample_store) = [(''mat_1'', index_for_value 7 (material_json sample_material))]"
  "om_get (st_summaries sample_store) (''material'', ''mat_1'') = Some (sample_blob (summary_kind ''material'') ''mat_1'' ''S'')"
  "st_corrupt sample_store = []"
  "om_get (st_objects sample_store) (''material'', ''mat_1'') = Some (sample_blob ''material'' ''mat_1'' ''Q'')"
  unfolding sample_store_written
  by (simp_all add: written_def Let_def empty_store_def row_key_def sample_row_def om_remove_def)

lemma sample_open:
  "length bytes \<le> 1000 \<Longrightarrow> length kind \<le> 1000 \<Longrightarrow>
     open_object (hs_platform sample_host) kind ''mat_1'' (sample_blob kind ''mat_1'' bytes) = Inr bytes"
  using seal_open_roundtrip[OF sample_platform_ok sample_seal, of bytes kind "''mat_1''"]
  by (simp add: sample_host_def)

theorem pages_enumerate_the_index_witness:
  "walk_pages sample_host 8 ''material'' None None 1 2 None sample_store = Some [sample_summary]"
proof -
  have rows: "indexed_rows ''material'' None None sample_store = [(''mat_1'', index_for_value 7 (material_json sample_material))]"
    by (simp add: indexed_rows_def index_filter_def sample_tables)
  have "open_summary sample_host ''material'' ''mat_1'' (sample_blob (summary_kind ''material'') ''mat_1'' ''S'') = Inr sample_summary"
    unfolding open_summary_def by (simp add: sample_open summary_kind_def) (simp add: sample_host_def)
  then have "list_all (readable sample_host ''material'' (\<lambda>_. sample_summary) sample_store)
      (indexed_rows ''material'' None None sample_store)"
    by (simp add: rows readable_def sample_tables valid_utf8_ascii)
  from pages_enumerate_the_index[OF sample_host_ok _ _ sample_store_inv this, of 1 2 8] show ?thesis
    by (simp add: rows newest_first_def)
qed

lemma sample_claim: "claim_queued_material sample_host 7 sample_decode ''mat_1'' 2 sample_store
  = (Inr (Some running_material), written (sample_row running_material ''R'' ''{}'') sample_store)"
proof -
  have body: "queued_body ''mat_1'' sample_store = Some (sample_blob ''material'' ''mat_1'' ''Q'')"
    by (simp add: queued_body_def sample_index sample_status sample_tables)
  have "hs_to_vec sample_host (summary_for_value ''material'' ''mat_1'' (material_json running_material)
      (index_for_value 7 (material_json running_material))) = ''{}''"
    by (simp add: sample_host_def summary_for_value_def material_json_def Let_def running_material_def
        sample_material_def sample_summary_def index_for_value_def field_string_def json_get_def json_opt_def)
  moreover have "material_json running_material \<noteq> material_json sample_material"
    by (simp add: material_json_def running_material_def sample_material_def)
  ultimately have row: "encoded sample_host 7 ''material'' ''mat_1'' (material_json running_material)
      = Inr (sample_row running_material ''R'' ''{}'')"
    using sample_encoded_bytes[of running_material "''R''"] by (simp add: sample_host_def)
  have m: "sample_material\<lparr>m_status := ''running'', m_dictionary_revision := 2\<rparr> = running_material"
    by (simp add: running_material_def)
  have st: "m_status sample_material = ''queued''" by (simp add: sample_material_def)
  show ?thesis
    unfolding claim_queued_material_def queued_body_def[symmetric] committed_run
    by (simp add: op_bind_run body sample_open sample_decode_def st m row write_row_ok sample_row_ok)
qed

theorem claims_are_exclusive_witness:
  "claim_queued_material sample_host 9 sample_decode ''mat_1'' 3
     (written (sample_row running_material ''R'' ''{}'') sample_store)
   = (Inr None, written (sample_row running_material ''R'' ''{}'') sample_store)"
  using claims_are_exclusive[OF sample_host_ok sample_claim] by blast

lemma sample_group: "ix_group_id (index_for_value now (material_json sample_material)) = Some ''grp_1''"
  by (simp add: index_for_value_def material_json_def field_string_def json_get_def sample_material_def)

theorem queue_offers_the_oldest_witness:
  "fst (claim_queued_material sample_host 8 sample_decode ''mat_1'' 2 sample_store) \<noteq> Inr None"
proof -
  have "next_queued_material 8 sample_store = (Inr (Some (''mat_1'', ''grp_1'')), sample_store)"
    by (simp add: next_queued_material_def committed_run op_bind_run sample_tables sample_index
        sample_status sample_group oldest_first_def)
  from queue_offers_the_oldest[OF sample_store_inv this] show ?thesis by blast
qed

theorem quarantine_is_effective_witness:
  "get sample_host 9 sample_decode ''material'' ''mat_1''
     (snd (get sample_host 8 (\<lambda>_. None :: json option) ''material'' ''mat_1'' sample_store))
   = (Inl object_corrupt, snd (get sample_host 8 (\<lambda>_. None :: json option) ''material'' ''mat_1'' sample_store))"
proof -
  let ?s = "snd (get sample_host 8 (\<lambda>_. None :: json option) ''material'' ''mat_1'' sample_store)"
  have "tables.reach sample_host sample_store"
    unfolding sample_store_def by (rule tables.reach_step[OF tables.reach_init store_step.intros(1)]) simp
  then have "tables.reach sample_host ?s" by (rule tables.reach_step[OF _ store_step.intros(3)])
  moreover have "om_get (st_corrupt ?s) (''material'', ''mat_1'') \<noteq> None"
    by (simp add: get_run sample_tables sample_open condemn_run condemned_def Let_def drop_relations_def)
  ultimately show ?thesis using quarantine_is_effective by blast
qed

end
