(* ===== verification/Workspace.thy ===== *)
theory Workspace imports Types begin

text \<open>
  The workspace service above its store (\<open>workspace-service/src/lib.rs\<close>, the state of
  \<open>tasks.rs\<close>). The state is the decoded content of the object store, a table per kind, with the
  clock, the identifiers issued so far and the cancellation tokens. Batches are atomic, which is
  what the storage model shows of the code. Every access to the store, to a lock or to the
  credential store takes one entry of a list of outcomes that stands for the environment: where
  the entry is an error, the access fails with it and nothing else happens, so every failure
  point of the code is a branch here. A row that is in quarantine is a read that fails.
\<close>

section \<open>State\<close>

record ai_stage =
  as_material_id :: string
  as_revision :: nat
  as_source_sha256 :: string
  as_stage :: string
  as_provider_id :: string
  as_model :: string
  as_text_sha256 :: "string option"
  as_updated_at :: nat
  as_error_code :: "string option"

record ws =
  w_groups :: "(string, ws_group) omap"
  w_materials :: "(string, material) omap"
  w_tasks :: "(string, task) omap"
  w_results :: "(string, ready_result) omap"
  w_consents :: "(string, cloud_consent) omap"
  w_providers :: "(string, provider_config) omap"
  w_clients :: "(string, mcp_client) omap"
  w_stages :: "(string, ai_stage) omap"
  w_sources :: "(string, string) omap"
  w_now :: nat
  w_issued :: nat
  w_cancellations :: "(string, nat) omap"
  w_chats :: "nat list"
  w_next_token :: nat
  w_fired :: "nat list"
  w_outcomes :: "error option list"

type_synonym 'a wop = "(ws, error, 'a) op"

text \<open>What the service is configured with and the library functions it calls.\<close>

record service =
  sv_engine :: engine
  sv_detectors :: detectors
  sv_uuid :: "nat \<Rightarrow> string"
  sv_to_vec :: "json \<Rightarrow> string"

definition content_hash :: "service \<Rightarrow> string \<Rightarrow> string" where
  "content_hash S bytes = sha256_hex (en_digest (sv_engine S)) bytes"

section \<open>Access to the environment\<close>

definition io :: "unit wop" where
  "io w = (case w_outcomes w of
     [] \<Rightarrow> (Inr (), w)
   | x # xs \<Rightarrow> (case x of None \<Rightarrow> Inr () | Some e \<Rightarrow> Inl e, w\<lparr>w_outcomes := xs\<rparr>))"

definition fetch :: "(ws \<Rightarrow> (string, 'a) omap) \<Rightarrow> string \<Rightarrow> 'a wop" where
  "fetch table i = op_bind io (\<lambda>_. op_bind (op_get (\<lambda>w. om_get (table w) i)) (\<lambda>x.
     op_lift (ok_or x (error_new ''not_found''))))"

definition fetch_maybe :: "(ws \<Rightarrow> (string, 'a) omap) \<Rightarrow> string \<Rightarrow> 'a option wop" where
  "fetch_maybe table i = op_bind io (\<lambda>_. op_get (\<lambda>w. om_get (table w) i))"

definition fetch_all :: "(ws \<Rightarrow> (string, 'a) omap) \<Rightarrow> 'a list wop" where
  "fetch_all table = op_bind io (\<lambda>_. op_get (\<lambda>w. om_values (table w)))"

datatype row =
    RGroup string ws_group | RMaterial string material | RTask string task
  | RResult string ready_result | RConsent string cloud_consent | RClient string mcp_client
  | RStage string ai_stage | RSource string string

fun apply_row :: "row \<Rightarrow> ws \<Rightarrow> ws" where
  "apply_row (RGroup i x) w = w\<lparr>w_groups := om_put i x (w_groups w)\<rparr>"
| "apply_row (RMaterial i x) w = w\<lparr>w_materials := om_put i x (w_materials w)\<rparr>"
| "apply_row (RTask i x) w = w\<lparr>w_tasks := om_put i x (w_tasks w)\<rparr>"
| "apply_row (RResult i x) w = w\<lparr>w_results := om_put i x (w_results w)\<rparr>"
| "apply_row (RConsent i x) w = w\<lparr>w_consents := om_put i x (w_consents w)\<rparr>"
| "apply_row (RClient i x) w = w\<lparr>w_clients := om_put i x (w_clients w)\<rparr>"
| "apply_row (RStage i x) w = w\<lparr>w_stages := om_put i x (w_stages w)\<rparr>"
| "apply_row (RSource i x) w = w\<lparr>w_sources := om_put i x (w_sources w)\<rparr>"

text \<open>\<open>Store::encoded\<close> may fail before anything is written; \<open>put\_many\<close> writes all or nothing.\<close>

definition encode :: "row \<Rightarrow> row wop" where
  "encode r = op_bind io (\<lambda>_. op_return r)"

definition put_rows :: "row list \<Rightarrow> unit wop" where
  "put_rows rows = op_bind io (\<lambda>_. op_modify (fold apply_row rows))"

definition save_row :: "row \<Rightarrow> unit wop" where
  "save_row r = op_bind (encode r) (\<lambda>x. put_rows [x])"

definition lock :: "unit wop" where
  "lock = io"

definition now :: "nat wop" where
  "now = op_get w_now"

definition new_id :: "service \<Rightarrow> string \<Rightarrow> string wop" where
  "new_id S p = op_bind (op_get w_issued) (\<lambda>n.
     op_bind (op_modify (\<lambda>w. w\<lparr>w_issued := Suc n\<rparr>)) (\<lambda>_. op_return (p @ ''_'' @ sv_uuid S n)))"

definition require :: "bool \<Rightarrow> error \<Rightarrow> unit wop" where
  "require b e = op_lift (ensure b e)"

definition material :: "string \<Rightarrow> material wop" where
  "material i = fetch w_materials i"

section \<open>Cancellation\<close>

definition fire_task :: "string \<Rightarrow> ws \<Rightarrow> ws" where
  "fire_task task_id w = (case om_get (w_cancellations w) task_id of
     None \<Rightarrow> w | Some t \<Rightarrow> w\<lparr>w_fired := t # w_fired w\<rparr>)"

definition cancel_cloud_task :: "string \<Rightarrow> unit wop" where
  "cancel_cloud_task task_id = op_bind io (\<lambda>_. op_modify (fire_task task_id))"

definition cancel_active_chats :: "unit wop" where
  "cancel_active_chats = op_bind io (\<lambda>_. op_modify (\<lambda>w. w\<lparr>w_fired := w_chats w @ w_fired w\<rparr>))"

section \<open>Groups and their dictionary\<close>

text \<open>\<open>m.result\_id.take()\<close> with the row that revokes the result it named.\<close>

definition revoke_rows_at :: "(string \<Rightarrow> ready_result \<Rightarrow> string) \<Rightarrow> string option \<Rightarrow> row list wop" where
  "revoke_rows_at key rid = (case rid of
     None \<Rightarrow> op_return []
   | Some i \<Rightarrow> op_bind (fetch w_results i) (\<lambda>r.
       op_bind (encode (RResult (key i r) (r\<lparr>rr_revoked := True\<rparr>))) (\<lambda>x. op_return [x])))"

abbreviation revoke_rows :: "string option \<Rightarrow> row list wop" where
  "revoke_rows \<equiv> revoke_rows_at (\<lambda>i _. i)"

definition create_group :: "service \<Rightarrow> string \<Rightarrow> ws_group wop" where
  "create_group S name =
     op_bind (op_lift (bounded name 160)) (\<lambda>_. op_bind lock (\<lambda>_.
     op_bind (new_id S ''grp'') (\<lambda>gid. op_bind (new_id S ''salt'') (\<lambda>salt.
       let g = \<lparr>wg_id = gid, wg_name = str_trim name, wg_dictionary_revision = 1,
                wg_namespace = salt, wg_entries = []\<rparr> in
       op_bind (save_row (RGroup gid g)) (\<lambda>_. op_return g)))))"

definition validate_entry :: "dictionary_entry \<Rightarrow> error + unit" where
  "validate_entry e =
     and_then (bounded (d_text e) 1024) (\<lambda>_. and_then (bounded (d_kind e) 64) (\<lambda>_.
       case d_alias e of None \<Rightarrow> Inr () | Some a \<Rightarrow> bounded a 128))"

text \<open>What a dictionary change does to one material of the group.\<close>

definition requeued :: "material \<Rightarrow> material" where
  "requeued m = (let m = m\<lparr>m_result_id := None\<rparr> in
     if m_status m \<in> {''cancelled'', ''revoked''} then m
     else m\<lparr>m_status := ''queued'', m_reason_code := Some ''dictionary_changed'',
            m_revision := m_revision m + 1, m_analysis := None, m_dismissed := []\<rparr>)"

definition dictionary_rows :: "material \<Rightarrow> row list wop" where
  "dictionary_rows m =
     op_bind (cancel_cloud_task (m_task_id m)) (\<lambda>_.
     op_bind (revoke_rows_at (\<lambda>_. rr_id) (m_result_id m)) (\<lambda>rows.
     op_bind (encode (RMaterial (m_id m) (requeued m))) (\<lambda>row. op_return (rows @ [row]))))"

definition update_dictionary_locked :: "service \<Rightarrow> string \<Rightarrow> dictionary_entry list \<Rightarrow> unit wop" where
  "update_dictionary_locked S group_id entries =
     op_bind (require (length entries \<le> 2000) (error_new ''dictionary_too_large'')) (\<lambda>_.
     op_bind (op_lift (try_each validate_entry entries)) (\<lambda>_.
     op_bind (fetch w_groups group_id) (\<lambda>g.
     op_bind (op_lift (map_err (\<lambda>_. error_new ''dictionary_invalid'')
       (analyze (sv_engine S) (sv_detectors S) ''dictionary validation'' (wg_namespace g) entries [] []))) (\<lambda>_.
     let g' = g\<lparr>wg_entries := entries, wg_dictionary_revision := wg_dictionary_revision g + 1\<rparr> in
     op_bind (encode (RGroup group_id g')) (\<lambda>grow.
     op_bind (fetch_all w_materials) (\<lambda>ms.
     op_bind (op_map dictionary_rows (filter (\<lambda>m. m_group_id m = group_id) ms)) (\<lambda>rows.
     op_bind (put_rows (grow # concat rows)) (\<lambda>_. cancel_active_chats))))))))"

definition dictionary :: "string \<Rightarrow> (dictionary_entry list \<times> nat) wop" where
  "dictionary group_id = op_bind (fetch w_groups group_id) (\<lambda>g.
     op_return (wg_entries g, wg_dictionary_revision g))"

definition set_dictionary :: "service \<Rightarrow> string \<Rightarrow> dictionary_entry list \<Rightarrow> (dictionary_entry list \<times> nat) wop" where
  "set_dictionary S group_id entries = op_bind lock (\<lambda>_.
     op_bind (update_dictionary_locked S group_id entries) (\<lambda>_. dictionary group_id))"

definition revoke_material :: "string \<Rightarrow> unit wop" where
  "revoke_material material_id =
     op_bind lock (\<lambda>_. op_bind (material material_id) (\<lambda>m.
     op_bind (revoke_rows (m_result_id m)) (\<lambda>rows.
     let m' = m\<lparr>m_result_id := None, m_status := ''revoked'', m_revision := m_revision m + 1,
                m_reason_code := Some ''result_revoked''\<rparr> in
     op_bind (encode (RMaterial (m_id m) m')) (\<lambda>row.
     op_bind (put_rows (rows @ [row])) (\<lambda>_.
     op_bind (cancel_cloud_task (m_task_id m)) (\<lambda>_. cancel_active_chats))))))"

section \<open>Reading results\<close>

text \<open>The analysis a stored result is checked as.\<close>

definition result_analysis :: "ready_result \<Rightarrow> analysis" where
  "result_analysis r = \<lparr>a_text = rr_text r, a_findings = rr_findings r, a_ai_findings = None,
     a_replacements = rr_replacements r, a_needs_review = False,
     a_source_sha256 = rr_source_sha256 r, a_output_sha256 = rr_output_sha256 r\<rparr>"

definition read_result_locked :: "service \<Rightarrow> string \<Rightarrow> ready_result wop" where
  "read_result_locked S result_id =
     op_bind (fetch w_results result_id) (\<lambda>r.
     op_bind (fetch w_materials (rr_material_id r)) (\<lambda>m.
     op_bind (fetch w_groups (rr_group_id r)) (\<lambda>g.
     op_bind now (\<lambda>time.
     op_bind (require (\<not> rr_revoked r) (error_new ''result_revoked'')) (\<lambda>_.
     op_bind (require (time < rr_expires_at r) (error_new ''result_expired'')) (\<lambda>_.
     op_bind (require (m_status m = ''ready'' \<and> m_result_id m = Some result_id
         \<and> m_revision m = rr_revision r \<and> wg_dictionary_revision g = rr_dictionary_revision r)
       (error_new ''result_not_ready'')) (\<lambda>_.
     op_bind (require (content_hash S (rr_text r) = rr_output_sha256 r) (error_new ''result_integrity_failed'')) (\<lambda>_.
     op_bind (op_lift (map_err (\<lambda>_. error_new ''sensitive_content_blocked'')
       (validate_analysis (sv_engine S) (result_analysis r)))) (\<lambda>_.
     op_bind (op_lift (map_err (\<lambda>_. error_new ''result_integrity_failed'')
       (verify_analysis_source (en_digest (sv_engine S)) (m_original_text m) (result_analysis r)))) (\<lambda>_.
       op_return r))))))))))"

definition read_result :: "service \<Rightarrow> string \<Rightarrow> ready_result wop" where
  "read_result S result_id = op_bind lock (\<lambda>_. read_result_locked S result_id)"

definition export_result :: "service \<Rightarrow> (string \<Rightarrow> string option) \<Rightarrow> (string \<Rightarrow> string option)
    \<Rightarrow> string \<Rightarrow> string \<Rightarrow> string wop" where
  "export_result S package extract result_id format =
     op_bind lock (\<lambda>_. op_bind (read_result_locked S result_id) (\<lambda>r.
       op_lift (map_err (\<lambda>_. error_new ''export_failed'')
         (export (sv_engine S) package extract (rr_text r) format))))"

text \<open>How a material is shown: a ready one whose result cannot be read is shown for review.\<close>

definition display_material :: "material \<Rightarrow> material wop" where
  "display_material m =
     (if m_status m \<noteq> ''ready'' then op_return m
      else op_bind (case m_result_id m of
          None \<Rightarrow> op_return None
        | Some i \<Rightarrow> op_bind (op_attempt (fetch w_results i)) (\<lambda>x.
            op_return (case x of Inl _ \<Rightarrow> None | Inr r \<Rightarrow> Some r))) (\<lambda>found.
        op_bind now (\<lambda>time.
          let code = (case found of
              None \<Rightarrow> Some ''result_not_ready''
            | Some r \<Rightarrow> if rr_expires_at r \<le> time then Some ''result_expired''
                else if rr_revoked r then Some ''result_revoked'' else None) in
          op_return (case code of None \<Rightarrow> m
            | Some c \<Rightarrow> m\<lparr>m_status := ''needs_review'', m_reason_code := Some c, m_result_id := None\<rparr>))))"

definition aggregate :: "material list \<Rightarrow> string" where
  "aggregate ms = (case find (\<lambda>state. list_ex (\<lambda>m. m_status m = state) ms)
       [''running'', ''queued'', ''awaiting_consent'', ''needs_review''] of
     Some state \<Rightarrow> state
   | None \<Rightarrow>
       if list_all (\<lambda>m. m_status m = ''ready'') ms then ''ready''
       else if list_all (\<lambda>m. m_status m = ''cancelled'') ms then ''cancelled''
       else if list_ex (\<lambda>m. m_status m = ''ready'') ms then ''partial'' else ''failed'')"

text \<open>Only a stage of the shown revision and source counts as progress.\<close>

definition material_progress :: "material \<Rightarrow> ai_stage option wop" where
  "material_progress m = op_bind (fetch_maybe w_stages (m_id m)) (\<lambda>s.
     op_return (case s of None \<Rightarrow> None
       | Some x \<Rightarrow> if as_revision x = m_revision m \<and> as_source_sha256 x = m_source_sha256 m then Some x else None))"

record task_view =
  tv_id :: string
  tv_status :: string
  tv_materials :: "(material \<times> ai_stage option) list"

definition task_status :: "string \<Rightarrow> task_view wop" where
  "task_status task_id =
     op_bind (fetch w_tasks task_id) (\<lambda>t.
     op_bind (op_map (\<lambda>i. op_bind (material i) display_material) (tk_material_ids t)) (\<lambda>ms.
     op_bind (op_map (\<lambda>m. op_bind (material_progress m) (\<lambda>p. op_return (m, p))) ms) (\<lambda>views.
       op_return \<lparr>tv_id = tk_id t, tv_status = aggregate ms, tv_materials = views\<rparr>)))"

end
