(* ===== verification/Tasks.thy ===== *)
theory Tasks imports Workspace begin

text \<open>
  Tasks and the material worker (\<open>workspace-service/src/tasks.rs\<close>). Every handler holds the
  workspace gate for its whole body, so a handler is one operation on the state; the worker
  holds the gate only for its critical sections, so each of them is an operation of its own, over
  the copies of the material and the group it claimed. The text it extracts and the findings of
  the cloud are inputs of those sections.
\<close>

section \<open>Submission\<close>

definition has_path_char :: "string \<Rightarrow> bool" where
  "has_path_char name \<longleftrightarrow> CHR ''/'' \<in> set name \<or> CHR 0x5C \<in> set name \<or> CHR '':'' \<in> set name"

definition known_formats :: "string list" where
  "known_formats = [''txt'', ''md'', ''markdown'', ''docx'', ''pdf'', ''png'', ''jpg'', ''jpeg'', ''webp'']"

definition source_format :: "string \<Rightarrow> string" where
  "source_format name =
     (let ext = ascii_lowercase (last (str_split (CHR ''.'') name)) in
      if ext \<in> set known_formats then ext else ''unknown'')"

definition check_file :: "import_file \<Rightarrow> error + unit" where
  "check_file f =
     (if 20 * 1024 * 1024 < length (if_bytes f) then Inl (error_new ''file_too_large'')
      else and_then (bounded (if_name f) 250) (\<lambda>_.
        if has_path_char (if_name f) then Inl (error_new ''invalid_filename'') else Inr ()))"

definition fingerprint_of :: "service \<Rightarrow> import_file list \<Rightarrow> string" where
  "fingerprint_of S files = content_hash S (sv_to_vec S (JArr (map (\<lambda>f.
     JArr [JStr (if_name f), JStr (content_hash S (if_bytes f)), json_opt JStr (if_encoding f)]) files)))"

definition new_material :: "service \<Rightarrow> string \<Rightarrow> ws_group \<Rightarrow> string \<Rightarrow> string \<Rightarrow> import_file \<Rightarrow> material" where
  "new_material S mid g group_id task_id f = \<lparr>m_id = mid, m_name = if_name f, m_group_id = group_id,
     m_task_id = task_id, m_status = ''queued'', m_reason_code = None, m_revision = 1,
     m_source_sha256 = content_hash S (if_bytes f), m_source_byte_len = length (if_bytes f),
     m_source_format = source_format (if_name f), m_encoding = if_encoding f, m_original_text = [],
     m_analysis = None, m_result_id = None, m_dismissed = [],
     m_dictionary_revision = wg_dictionary_revision g\<rparr>"

definition submit_file :: "service \<Rightarrow> ws_group \<Rightarrow> string \<Rightarrow> string \<Rightarrow> import_file \<Rightarrow> (string \<times> row list) wop" where
  "submit_file S g group_id task_id f =
     op_bind (new_id S ''mat'') (\<lambda>mid.
     op_bind (encode (RSource mid (if_bytes f))) (\<lambda>source.
     op_bind (encode (RMaterial mid (new_material S mid g group_id task_id f))) (\<lambda>row.
       op_return (mid, [source, row]))))"

definition same_request :: "string \<Rightarrow> string option \<Rightarrow> string \<Rightarrow> task \<Rightarrow> bool" where
  "same_request group_id client_id request_id t \<longleftrightarrow>
     tk_group_id t = group_id \<and> tk_client_id t = client_id \<and> tk_request_id t = request_id"

definition check_client :: "string \<Rightarrow> string option \<Rightarrow> unit wop" where
  "check_client group_id client_id = (case client_id of
     None \<Rightarrow> op_return ()
   | Some cid \<Rightarrow> op_bind (fetch w_clients cid) (\<lambda>c.
       require (mc_enabled c \<and> mc_group_id c = group_id) (error_new ''unauthorized'')))"

definition check_batch :: "string \<Rightarrow> import_file list \<Rightarrow> error + unit" where
  "check_batch request_id files =
     and_then (bounded request_id 128) (\<lambda>_.
     if files = [] \<or> 100 < length files \<or> 100 * 1024 * 1024 < sum_list (map (\<lambda>f. length (if_bytes f)) files)
     then Inl (error_new ''batch_too_large'') else try_each check_file files)"

definition create_task :: "service \<Rightarrow> ws_group \<Rightarrow> string \<Rightarrow> string \<Rightarrow> string \<Rightarrow> import_file list
    \<Rightarrow> string option \<Rightarrow> task_view wop" where
  "create_task S g group_id request_id fingerprint files client_id =
     op_bind (new_id S ''task'') (\<lambda>tid.
     op_bind now (\<lambda>time.
     op_bind (op_map (submit_file S g group_id tid) files) (\<lambda>parts.
     let t = \<lparr>tk_id = tid, tk_group_id = group_id, tk_client_id = client_id, tk_request_id = request_id,
              tk_fingerprint = fingerprint, tk_material_ids = map fst parts, tk_created_at = time\<rparr> in
     op_bind (encode (RTask tid t)) (\<lambda>row.
     op_bind (put_rows (concat (map snd parts) @ [row])) (\<lambda>_. task_status tid)))))"

definition submit :: "service \<Rightarrow> string \<Rightarrow> string \<Rightarrow> import_file list \<Rightarrow> string option \<Rightarrow> task_view wop" where
  "submit S group_id request_id files client_id =
     op_bind (op_lift (check_batch request_id files)) (\<lambda>_.
     op_bind lock (\<lambda>_.
     op_bind (fetch w_groups group_id) (\<lambda>g.
     op_bind (check_client group_id client_id) (\<lambda>_.
     let fingerprint = fingerprint_of S files in
     op_bind (fetch_all w_tasks) (\<lambda>ts.
       case find (same_request group_id client_id request_id) ts of
         Some t \<Rightarrow> if tk_fingerprint t \<noteq> fingerprint then op_fail (error_new ''idempotency_conflict'')
           else task_status (tk_id t)
       | None \<Rightarrow> create_task S g group_id request_id fingerprint files client_id)))))"

section \<open>Replacing, cancelling, retrying\<close>

definition replace_material :: "service \<Rightarrow> string \<Rightarrow> nat \<Rightarrow> import_file \<Rightarrow> material wop" where
  "replace_material S material_id revision f =
     op_bind (require (length (if_bytes f) \<le> 20 * 1024 * 1024 \<and> if_bytes f \<noteq> []) (error_new ''file_too_large'')) (\<lambda>_.
     op_bind (op_lift (bounded (if_name f) 250)) (\<lambda>_.
     op_bind (require (\<not> has_path_char (if_name f)) (error_new ''invalid_filename'')) (\<lambda>_.
     op_bind lock (\<lambda>_.
     op_bind (material material_id) (\<lambda>m.
     op_bind (require (m_revision m = revision) (error_new ''revision_conflict'')) (\<lambda>_.
     op_bind (encode (RSource material_id (if_bytes f))) (\<lambda>source.
     op_bind (revoke_rows (m_result_id m)) (\<lambda>rows.
     let m' = m\<lparr>m_result_id := None, m_name := if_name f, m_encoding := if_encoding f,
            m_source_sha256 := content_hash S (if_bytes f), m_source_byte_len := length (if_bytes f),
            m_source_format := source_format (if_name f), m_revision := m_revision m + 1,
            m_original_text := [], m_analysis := None, m_dismissed := [],
            m_status := ''queued'', m_reason_code := None\<rparr> in
     op_bind (encode (RMaterial material_id m')) (\<lambda>row.
     op_bind (put_rows (source # rows @ [row])) (\<lambda>_.
     op_bind (cancel_cloud_task (m_task_id m')) (\<lambda>_.
     op_bind cancel_active_chats (\<lambda>_. op_return m'))))))))))))"

definition cancel_one :: "string \<Rightarrow> row list wop" where
  "cancel_one mid = op_bind (material mid) (\<lambda>m.
     if m_status m \<in> {''queued'', ''running'', ''awaiting_consent'', ''needs_review''}
     then op_bind (encode (RMaterial mid (m\<lparr>m_status := ''cancelled'', m_revision := m_revision m + 1,
            m_reason_code := Some ''cancelled''\<rparr>))) (\<lambda>row. op_return [row])
     else op_return [])"

definition cancel_task :: "string \<Rightarrow> task_view wop" where
  "cancel_task task_id =
     op_bind lock (\<lambda>_. op_bind (fetch w_tasks task_id) (\<lambda>t.
     op_bind (cancel_cloud_task task_id) (\<lambda>_.
     op_bind (op_map cancel_one (tk_material_ids t)) (\<lambda>rows.
     op_bind (put_rows (concat rows)) (\<lambda>_. task_status task_id)))))"

fun any_running :: "string list \<Rightarrow> bool wop" where
  "any_running [] = op_return False"
| "any_running (i # ids) = op_bind (op_attempt (material i)) (\<lambda>x.
     if (case x of Inl _ \<Rightarrow> False | Inr m \<Rightarrow> m_status m = ''running'') then op_return True else any_running ids)"

text \<open>A ready material whose result reads and has expired.\<close>

definition has_expired :: "material \<Rightarrow> bool wop" where
  "has_expired m = (if m_status m \<noteq> ''ready'' then op_return False
     else case m_result_id m of
       None \<Rightarrow> op_return False
     | Some i \<Rightarrow> op_bind (op_attempt (fetch w_results i)) (\<lambda>x. op_bind now (\<lambda>time.
         op_return (case x of Inl _ \<Rightarrow> False | Inr r \<Rightarrow> rr_expires_at r \<le> time))))"

definition retry_one :: "string \<Rightarrow> row list wop" where
  "retry_one mid = op_bind (material mid) (\<lambda>m.
     op_bind (has_expired m) (\<lambda>expired.
     if expired \<or> m_status m \<in> {''failed'', ''cancelled'', ''needs_review'', ''awaiting_consent''}
     then op_bind (revoke_rows (m_result_id m)) (\<lambda>rows.
       op_bind (encode (RMaterial mid (m\<lparr>m_result_id := None, m_status := ''queued'', m_reason_code := None,
            m_revision := m_revision m + 1, m_analysis := None, m_dismissed := []\<rparr>))) (\<lambda>row.
         op_return (rows @ [row])))
     else op_return []))"

definition delete_consent :: "string \<Rightarrow> unit wop" where
  "delete_consent task_id = op_bind io (\<lambda>_.
     op_modify (\<lambda>w. w\<lparr>w_consents := om_remove task_id (w_consents w)\<rparr>))"

definition retry_task :: "string \<Rightarrow> task_view wop" where
  "retry_task task_id =
     op_bind lock (\<lambda>_. op_bind (fetch w_tasks task_id) (\<lambda>t.
     op_bind (any_running (tk_material_ids t)) (\<lambda>busy.
     op_bind (require (\<not> busy) (error_retry ''task_busy'')) (\<lambda>_.
     op_bind (delete_consent task_id) (\<lambda>_.
     op_bind (op_map retry_one (tk_material_ids t)) (\<lambda>rows.
     op_bind (put_rows (concat rows)) (\<lambda>_. task_status task_id)))))))"

section \<open>Finishing an analysis\<close>

definition RESULT_LIFETIME :: nat where "RESULT_LIFETIME = 30 * 24 * 3600"

definition ready_result :: "service \<Rightarrow> string \<Rightarrow> nat \<Rightarrow> material \<Rightarrow> ws_group \<Rightarrow> analysis \<Rightarrow> ready_result" where
  "ready_result S rid time m g a = \<lparr>rr_id = rid, rr_material_id = m_id m, rr_group_id = m_group_id m,
     rr_revision = m_revision m, rr_dictionary_revision = wg_dictionary_revision g,
     rr_output_sha256 = content_hash S (a_text a), rr_text_byte_len = length (a_text a), rr_text = a_text a,
     rr_created_at = time, rr_expires_at = time + RESULT_LIFETIME, rr_revoked = False,
     rr_findings = a_findings a, rr_replacements = a_replacements a, rr_source_sha256 = a_source_sha256 a\<rparr>"

definition unfinished :: "bool \<Rightarrow> material \<Rightarrow> material" where
  "unfinished waiting m = m\<lparr>m_status := (if waiting then ''awaiting_consent'' else ''needs_review''),
     m_reason_code := (case m_reason_code m of
        None \<Rightarrow> Some (if waiting then ''cloud_consent_required'' else ''manual_review_required'')
      | Some c \<Rightarrow> Some c)\<rparr>"

text \<open>The ready material with the row of its result, once the analysis has passed both checks.\<close>

definition publish :: "service \<Rightarrow> material \<Rightarrow> ws_group \<Rightarrow> analysis \<Rightarrow> (material \<times> row list) wop" where
  "publish S m g a =
     op_bind (op_lift (map_err (\<lambda>_. error_new ''sensitive_content_blocked'')
       (validate_analysis (sv_engine S) a))) (\<lambda>_.
     op_bind (op_lift (map_err (\<lambda>_. error_new ''result_integrity_failed'')
       (verify_analysis_source (en_digest (sv_engine S)) (m_original_text m) a))) (\<lambda>_.
     op_bind (new_id S ''res'') (\<lambda>rid. op_bind now (\<lambda>time.
     op_bind (encode (RResult rid (ready_result S rid time m g a))) (\<lambda>row.
       op_return (m\<lparr>m_result_id := Some rid, m_status := ''ready'', m_reason_code := None\<rparr>, [row]))))))"

definition finish_locked :: "service \<Rightarrow> material \<Rightarrow> ws_group \<Rightarrow> analysis \<Rightarrow> bool \<Rightarrow> unit wop" where
  "finish_locked S m g a waiting =
     op_bind (revoke_rows (m_result_id m)) (\<lambda>rows.
     let m1 = m\<lparr>m_dictionary_revision := wg_dictionary_revision g, m_result_id := None\<rparr> in
     op_bind (if \<not> a_needs_review a then publish S m1 g a else op_return (unfinished waiting m1, []))
       (\<lambda>(m2, added).
     op_bind (encode (RMaterial (m_id m2) (m2\<lparr>m_analysis := Some a\<rparr>))) (\<lambda>row.
       put_rows (rows @ added @ [row]))))"

section \<open>Review\<close>

definition analyze_review :: "service \<Rightarrow> string \<Rightarrow> string \<Rightarrow> dictionary_entry list \<Rightarrow> ai_finding list option
    \<Rightarrow> string list \<Rightarrow> text_error + analysis" where
  "analyze_review S text namespace entries ai dismissed = (case ai of
     Some fs \<Rightarrow> analyze_with_ai (sv_engine S) (sv_detectors S) text namespace entries fs dismissed
   | None \<Rightarrow> analyze (sv_engine S) (sv_detectors S) text namespace entries [] dismissed)"

definition review_ai_evidence_locked :: "service \<Rightarrow> material \<Rightarrow> (ai_finding list option \<times> ai_stage option) wop" where
  "review_ai_evidence_locked S m =
     op_bind (op_map_err (\<lambda>_. error_new ''source_integrity_failed'') (fetch w_sources (m_id m))) (\<lambda>source.
     op_bind (require (content_hash S source = m_source_sha256 m) (error_new ''source_integrity_failed'')) (\<lambda>_.
     op_bind (fetch_maybe w_stages (m_id m)) (\<lambda>stage.
     if (case stage of None \<Rightarrow> False | Some x \<Rightarrow> as_source_sha256 x \<noteq> m_source_sha256 m)
     then op_fail (error_new ''ai_review_evidence_missing'')
     else (case m_analysis m of
         None \<Rightarrow> if stage \<noteq> None then op_fail (error_new ''ai_review_evidence_missing'')
           else op_return (None, None)
       | Some a \<Rightarrow>
           if stage = None \<and> a_ai_findings a = None then op_return (None, None)
           else op_bind (op_lift (map_err (\<lambda>_. error_new ''review_evidence_invalid'')
               (verify_analysis_source (en_digest (sv_engine S)) (m_original_text m) a))) (\<lambda>_.
             case a_ai_findings a of
               None \<Rightarrow> op_fail (error_new ''ai_review_evidence_missing'')
             | Some fs \<Rightarrow> op_return (Some fs, stage))))))"

text \<open>\<open>retain\<close> then \<open>push\<close>, once per entry: the request's entry wins.\<close>

definition merge_entries :: "dictionary_entry list \<Rightarrow> dictionary_entry list \<Rightarrow> dictionary_entry list" where
  "merge_entries requested entries =
     fold (\<lambda>e es. filter (\<lambda>x. d_text x \<noteq> d_text e) es @ [e]) requested entries"

definition text_failed :: "text_error + 'a \<Rightarrow> error + 'a" where
  "text_failed r = map_err (\<lambda>e. error_new (text_error_code e)) r"

text \<open>The second half of a review, on the material and the group as the dictionary left them.\<close>

definition review_tail :: "service \<Rightarrow> string \<Rightarrow> review_request \<Rightarrow> ai_finding list option \<Rightarrow> ai_stage option
    \<Rightarrow> material \<Rightarrow> ws_group \<Rightarrow> material wop" where
  "review_tail S material_id request ai stage m g =
     op_bind (op_lift (text_failed (analyze_review S (m_original_text m) (wg_namespace g) (wg_entries g) ai
       (rv_dismissed request)))) (\<lambda>a.
     let m1 = m\<lparr>m_revision := m_revision m + 1, m_dismissed := rv_dismissed request\<rparr> in
     op_bind (finish_locked S m1 g a False) (\<lambda>_.
     op_bind (case stage of
         None \<Rightarrow> op_return ()
       | Some x \<Rightarrow> op_bind now (\<lambda>time. save_row (RStage material_id (x\<lparr>as_revision := m_revision m1,
           as_source_sha256 := m_source_sha256 m1, as_stage := ''reviewed'', as_updated_at := time,
           as_error_code := None\<rparr>)))) (\<lambda>_.
       material material_id)))"

definition review :: "service \<Rightarrow> string \<Rightarrow> review_request \<Rightarrow> material wop" where
  "review S material_id request =
     op_bind lock (\<lambda>_. op_bind (material material_id) (\<lambda>m.
     op_bind (require (m_revision m = rv_revision request) (error_new ''revision_conflict'')) (\<lambda>_.
     op_bind (require (m_status m \<notin> {''running'', ''revoked'', ''cancelled''} \<and> m_original_text m \<noteq> [])
       (error_new ''material_not_reviewable'')) (\<lambda>_.
     op_bind (review_ai_evidence_locked S m) (\<lambda>evidence.
     op_bind (fetch w_groups (m_group_id m)) (\<lambda>g.
     if rv_dictionary request \<noteq> []
     then (let entries = merge_entries (rv_dictionary request) (wg_entries g) in
       op_bind (op_lift (text_failed (analyze_review S (m_original_text m) (wg_namespace g) entries (fst evidence)
         (rv_dismissed request)))) (\<lambda>_.
       op_bind (update_dictionary_locked S (m_group_id m) entries) (\<lambda>_.
       op_bind (fetch w_groups (m_group_id m)) (\<lambda>g.
       op_bind (material material_id) (\<lambda>m.
         review_tail S material_id request (fst evidence) (snd evidence) m g)))))
     else review_tail S material_id request (fst evidence) (snd evidence) m g))))))"

end
