(* ===== verification/Worker.thy ===== *)
theory Worker imports Tasks begin

text \<open>
  Cloud consent and the material worker (\<open>workspace-service/src/tasks.rs\<close>, the durable stages of
  \<open>redaction\_ai.rs\<close>, recovery in \<open>lib.rs\<close>). The worker holds the workspace gate only inside its
  critical sections; everywhere else any handler may run. A job therefore carries, beside the
  results of the code outside the service (the model selection, text extraction, the model-led
  redaction, the transport), a function per unlocked point that stands for whatever the handlers
  did to the state there. A panic of the spawned job is a failure with the code
  \<open>task\_panicked\<close> of the step where it happens, as the join error of the code is.
\<close>

section \<open>Consent\<close>

definition profile_hash :: "service \<Rightarrow> provider_config \<Rightarrow> string" where
  "profile_hash S p = content_hash S (sv_to_vec S (provider_config_json p))"

definition consent_one :: "string \<Rightarrow> ((string \<times> nat \<times> string) \<times> row) list wop" where
  "consent_one mid = op_bind (material mid) (\<lambda>m.
     if m_status m = ''running'' then op_fail (error_retry ''task_busy'')
     else if m_status m \<in> {''queued'', ''awaiting_consent'', ''needs_review''}
     then op_bind (encode (RMaterial mid (m\<lparr>m_status := ''queued'', m_reason_code := None\<rparr>))) (\<lambda>row.
       op_return [((m_id m, m_revision m, m_source_sha256 m), row)])
     else op_return [])"

definition consent :: "service \<Rightarrow> string \<Rightarrow> string \<Rightarrow> string \<Rightarrow> string \<Rightarrow> nat wop" where
  "consent S task_id provider_id model purpose =
     op_bind (require (purpose = ''redaction_assistance'') (error_new ''invalid_purpose'')) (\<lambda>_.
     op_bind lock (\<lambda>_.
     op_bind (fetch w_tasks task_id) (\<lambda>t.
     op_bind (fetch w_providers provider_id) (\<lambda>config.
     op_bind (require (pc_model config = model) (error_new ''provider_changed'')) (\<lambda>_.
     op_bind io (\<lambda>_.
     op_bind (op_map consent_one (tk_material_ids t)) (\<lambda>parts.
     op_bind (require (concat parts \<noteq> []) (error_new ''no_pending_materials'')) (\<lambda>_.
     op_bind (new_id S ''consent'') (\<lambda>cid.
     op_bind now (\<lambda>time.
     let c = \<lparr>cc_id = cid, cc_provider_id = provider_id, cc_model = model,
              cc_profile_hash = profile_hash S config, cc_source_hashes = map fst (concat parts),
              cc_expires_at = time + 3600, cc_used_materials = []\<rparr> in
     op_bind (encode (RConsent task_id c)) (\<lambda>row.
     op_bind (put_rows (map snd (concat parts) @ [row])) (\<lambda>_.
       op_return (cc_expires_at c)))))))))))))"

definition revoke_consent :: "string \<Rightarrow> unit wop" where
  "revoke_consent task_id = op_bind lock (\<lambda>_. op_bind (delete_consent task_id) (\<lambda>_. cancel_cloud_task task_id))"

section \<open>Claiming work\<close>

text \<open>\<open>claim\_queued\_material\<close> on the decoded rows: only a queued material is claimed.\<close>

definition claim_row :: "string \<Rightarrow> nat \<Rightarrow> material option wop" where
  "claim_row mid dictionary_revision = op_bind (fetch_maybe w_materials mid) (\<lambda>found.
     case found of
       None \<Rightarrow> op_return None
     | Some m \<Rightarrow> if m_status m \<noteq> ''queued'' then op_return None
         else let m' = m\<lparr>m_status := ''running'', m_dictionary_revision := dictionary_revision\<rparr> in
           op_bind (save_row (RMaterial mid m')) (\<lambda>_. op_return (Some m')))"

definition new_cancellation :: "string \<Rightarrow> nat wop" where
  "new_cancellation task_id = op_bind io (\<lambda>_. op_bind (op_get w_next_token) (\<lambda>n.
     op_bind (op_modify (\<lambda>w. w\<lparr>w_next_token := Suc n, w_cancellations := om_put task_id n (w_cancellations w)\<rparr>))
       (\<lambda>_. op_return n)))"

text \<open>What \<open>next\_queued\_material\<close> offered in each attempt is the list of offers.\<close>

fun claim_attempts :: "(string \<times> string) option list \<Rightarrow> (material \<times> ws_group \<times> nat) option wop" where
  "claim_attempts [] = op_return None"
| "claim_attempts (offer # offers) = op_bind io (\<lambda>_. case offer of
     None \<Rightarrow> op_return None
   | Some (mid, gid) \<Rightarrow> op_bind (fetch w_groups gid) (\<lambda>g.
       op_bind (claim_row mid (wg_dictionary_revision g)) (\<lambda>claimed. case claimed of
         None \<Rightarrow> claim_attempts offers
       | Some m \<Rightarrow> op_bind (new_cancellation (m_task_id m)) (\<lambda>token. op_return (Some (m, g, token))))))"

definition claim_next :: "(string \<times> string) option list \<Rightarrow> (material \<times> ws_group \<times> nat) option wop" where
  "claim_next offers = op_bind lock (\<lambda>_. claim_attempts (take 2 offers))"

section \<open>Durable stages of the model path\<close>

record ai_selection =
  sel_provider_id :: string
  sel_model :: string

definition save_ai_stage :: "string \<Rightarrow> nat \<Rightarrow> string \<Rightarrow> string \<Rightarrow> ai_selection \<Rightarrow> string option
    \<Rightarrow> string option \<Rightarrow> unit wop" where
  "save_ai_stage material_id revision source_sha256 stage selection text_sha256 error_code =
     op_bind now (\<lambda>time. op_bind lock (\<lambda>_.
       save_row (RStage material_id \<lparr>as_material_id = material_id, as_revision = revision,
         as_source_sha256 = source_sha256, as_stage = stage, as_provider_id = sel_provider_id selection,
         as_model = sel_model selection, as_text_sha256 = text_sha256, as_updated_at = time,
         as_error_code = error_code\<rparr>)))"

section \<open>The job\<close>

record job =
  jb_gap :: "nat \<Rightarrow> ws \<Rightarrow> ws"
  jb_selection :: "error + ai_selection"
  jb_admit :: "nat \<Rightarrow> error + unit"
  jb_extract_ai :: "string \<Rightarrow> string \<Rightarrow> string option \<Rightarrow> error + string"
  jb_redact :: "string \<Rightarrow> ws_group \<Rightarrow> ai_selection \<Rightarrow> string \<Rightarrow> string list \<Rightarrow> error + analysis"
  jb_is_pdf :: "string \<Rightarrow> error + bool"
  jb_extract_pdf :: "string \<Rightarrow> error + string"
  jb_extract :: "string \<Rightarrow> string \<Rightarrow> string option \<Rightarrow> error + string"
  jb_snapshot :: "error + unit"
  jb_pending_polls :: nat
  jb_reply :: "error + string"
  jb_decode :: "string \<Rightarrow> cloud_finding list option"

definition gap :: "job \<Rightarrow> nat \<Rightarrow> unit wop" where
  "gap J k = op_modify (jb_gap J k)"

definition is_cancelled :: "nat \<Rightarrow> bool wop" where
  "is_cancelled token = op_get (\<lambda>w. token \<in> set (w_fired w))"

text \<open>The compare of every compare-and-swap of the worker.\<close>

definition still_running :: "material \<Rightarrow> material \<Rightarrow> bool" where
  "still_running m fresh \<longleftrightarrow> m_revision fresh = m_revision m \<and> m_status fresh = ''running''"

text \<open>The sections return \<open>None\<close> where the code returns because the claim was superseded.\<close>

definition save_text :: "material \<Rightarrow> string \<Rightarrow> material option wop" where
  "save_text m extracted = op_bind lock (\<lambda>_. op_bind (material (m_id m)) (\<lambda>fresh.
     if \<not> still_running m fresh then op_return None
     else let m' = fresh\<lparr>m_original_text := extracted\<rparr> in
       op_bind (save_row (RMaterial (m_id m') m')) (\<lambda>_. op_return (Some m'))))"

definition requeue_claim :: "material \<Rightarrow> unit wop" where
  "requeue_claim fresh = save_row (RMaterial (m_id fresh) (fresh\<lparr>m_status := ''queued''\<rparr>))"

definition finish_ai :: "service \<Rightarrow> material \<Rightarrow> ws_group \<Rightarrow> analysis \<Rightarrow> bool wop" where
  "finish_ai S m g a = op_bind lock (\<lambda>_. op_bind (material (m_id m)) (\<lambda>fresh.
     op_bind (fetch w_groups (m_group_id m)) (\<lambda>current.
     if \<not> still_running m fresh then op_return False
     else if wg_dictionary_revision current \<noteq> wg_dictionary_revision g
     then op_bind (requeue_claim fresh) (\<lambda>_. op_return False)
     else op_bind (finish_locked S m g a False) (\<lambda>_. op_return True))))"

definition save_analysis :: "material \<Rightarrow> analysis \<Rightarrow> material option wop" where
  "save_analysis m a = op_bind lock (\<lambda>_. op_bind (material (m_id m)) (\<lambda>fresh.
     if \<not> still_running m fresh then op_return None
     else let m' = m\<lparr>m_analysis := Some a\<rparr> in
       op_bind (save_row (RMaterial (m_id m') m')) (\<lambda>_. op_return (Some m'))))"

definition cancelled_analysis :: "bool \<Rightarrow> analysis \<Rightarrow> analysis" where
  "cancelled_analysis fired a = (if fired then a\<lparr>a_needs_review := True\<rparr> else a)"

definition cancelled_material :: "bool \<Rightarrow> material \<Rightarrow> material" where
  "cancelled_material fired m =
     (if fired then m\<lparr>m_reason_code := Some ''cloud_authorization_revoked''\<rparr> else m)"

definition finish_local :: "service \<Rightarrow> material \<Rightarrow> ws_group \<Rightarrow> analysis \<Rightarrow> bool \<Rightarrow> nat \<Rightarrow> unit wop" where
  "finish_local S m g a waiting token = op_bind lock (\<lambda>_. op_bind (material (m_id m)) (\<lambda>fresh.
     op_bind (fetch w_groups (m_group_id m)) (\<lambda>current.
     if \<not> still_running m fresh then op_return ()
     else if wg_dictionary_revision current \<noteq> wg_dictionary_revision g then requeue_claim fresh
     else op_bind (is_cancelled token) (\<lambda>fired.
       finish_locked S (cancelled_material fired m) g (cancelled_analysis fired a) (waiting \<and> \<not> fired)))))"

section \<open>Cloud assistance\<close>

definition cloud_matches :: "service \<Rightarrow> nat \<Rightarrow> material \<Rightarrow> cloud_consent \<Rightarrow> provider_config \<Rightarrow> bool" where
  "cloud_matches S time m c p \<longleftrightarrow> time < cc_expires_at c \<and> cc_model c = pc_model p
     \<and> cc_profile_hash c = profile_hash S p
     \<and> list_ex (\<lambda>(i, revision, sha). i = m_id m \<and> revision = m_revision m \<and> sha = m_source_sha256 m)
         (cc_source_hashes c)"

definition claim_cloud :: "service \<Rightarrow> material \<Rightarrow> (cloud_consent \<times> provider_config) option wop" where
  "claim_cloud S m = op_bind lock (\<lambda>_.
     op_bind (fetch_maybe w_consents (m_task_id m)) (\<lambda>found. case found of
       None \<Rightarrow> op_return None
     | Some c \<Rightarrow> op_bind (fetch w_providers (cc_provider_id c)) (\<lambda>p.
         op_bind now (\<lambda>time.
         if \<not> cloud_matches S time m c p \<or> m_id m \<in> set (cc_used_materials c) then op_return None
         else op_bind (material (m_id m)) (\<lambda>fresh.
           if \<not> still_running m fresh then op_fail (error_new ''material_changed'')
           else let c' = c\<lparr>cc_used_materials := cc_used_materials c @ [m_id m]\<rparr> in
             op_bind (save_row (RConsent (m_task_id m) c')) (\<lambda>_. op_return (Some (c', p))))))))"

definition recheck_cloud_locked :: "service \<Rightarrow> material \<Rightarrow> cloud_consent \<Rightarrow> provider_config \<Rightarrow> unit wop" where
  "recheck_cloud_locked S m c p =
     op_bind (material (m_id m)) (\<lambda>fresh.
     op_bind (fetch w_groups (m_group_id m)) (\<lambda>g.
     op_bind (require (still_running m fresh \<and> m_source_sha256 fresh = m_source_sha256 m
         \<and> wg_dictionary_revision g = m_dictionary_revision m) (error_new ''cloud_authorization_changed'')) (\<lambda>_.
     op_bind (op_map_err (\<lambda>_. error_new ''cloud_authorization_revoked'') (fetch w_consents (m_task_id m))) (\<lambda>actual.
     op_bind (fetch w_providers (cc_provider_id c)) (\<lambda>config.
     op_bind now (\<lambda>time.
       require (cc_id actual = cc_id c \<and> cloud_matches S time m actual config
         \<and> cc_profile_hash actual = profile_hash S p) (error_new ''cloud_authorization_changed'')))))))"

definition recheck_cloud :: "service \<Rightarrow> material \<Rightarrow> cloud_consent \<Rightarrow> provider_config \<Rightarrow> unit wop" where
  "recheck_cloud S m c p = op_bind lock (\<lambda>_. recheck_cloud_locked S m c p)"

text \<open>Each poll of the transport holds the gate and rechecks; between two polls it is released.\<close>

fun poll_dispatch :: "service \<Rightarrow> job \<Rightarrow> material \<Rightarrow> cloud_consent \<Rightarrow> provider_config \<Rightarrow> nat \<Rightarrow> string wop" where
  "poll_dispatch S J m c p 0 = op_bind lock (\<lambda>_. op_bind (recheck_cloud_locked S m c p) (\<lambda>_. op_lift (jb_reply J)))"
| "poll_dispatch S J m c p (Suc n) = op_bind lock (\<lambda>_. op_bind (recheck_cloud_locked S m c p) (\<lambda>_.
     op_bind (gap J (100 + n)) (\<lambda>_. poll_dispatch S J m c p n)))"

definition cloud_findings :: "service \<Rightarrow> job \<Rightarrow> material \<Rightarrow> cloud_consent \<Rightarrow> provider_config \<Rightarrow> cloud_finding list wop" where
  "cloud_findings S J m c p =
     op_bind (recheck_cloud S m c p) (\<lambda>_. op_bind (op_lift (jb_snapshot J)) (\<lambda>_. op_bind (gap J 20) (\<lambda>_.
     op_bind (poll_dispatch S J m c p (jb_pending_polls J)) (\<lambda>reply.
     op_bind (op_lift (ok_or (jb_decode J reply) (error_new ''cloud_response_invalid''))) (\<lambda>fs.
     op_bind (require (length fs \<le> 2000) (error_new ''cloud_response_invalid'')) (\<lambda>_. op_return fs))))))"

text \<open>The cancellation wins over a result that is ready at the same time.\<close>

definition select_cancel :: "nat \<Rightarrow> 'a wop \<Rightarrow> 'a wop" where
  "select_cancel token body = op_bind (is_cancelled token) (\<lambda>fired.
     if fired then op_fail (error_new ''cloud_authorization_revoked'')
     else op_bind (op_attempt body) (\<lambda>r. op_bind (is_cancelled token) (\<lambda>fired.
       if fired then op_fail (error_new ''cloud_authorization_revoked'') else op_lift r)))"

definition cloud_assist :: "service \<Rightarrow> job \<Rightarrow> material \<Rightarrow> ws_group \<Rightarrow> nat \<Rightarrow> cloud_consent \<Rightarrow> provider_config
    \<Rightarrow> (material \<times> analysis) wop" where
  "cloud_assist S J m g token c p = op_bind (gap J 8) (\<lambda>_.
     op_bind (select_cancel token (cloud_findings S J m c p)) (\<lambda>fs.
     op_bind (gap J 9) (\<lambda>_. op_bind (recheck_cloud S m c p) (\<lambda>_.
       op_bind (op_lift (map_err (\<lambda>_. error_new ''cloud_response_invalid'')
         (analyze (sv_engine S) (sv_detectors S) (m_original_text m) (wg_namespace g) (wg_entries g) fs
           (m_dismissed m)))) (\<lambda>a. op_return (m, a))))))"

text \<open>A failure of the assistance is kept as the reason the material waits for review.\<close>

definition cloud_step :: "service \<Rightarrow> job \<Rightarrow> material \<Rightarrow> ws_group \<Rightarrow> nat \<Rightarrow> analysis
    \<Rightarrow> (material \<times> analysis \<times> bool) wop" where
  "cloud_step S J m g token a =
     (if \<not> a_needs_review a then op_return (m, a, False)
      else op_bind (claim_cloud S m) (\<lambda>claimed. case claimed of
          None \<Rightarrow> op_return (m, a, True)
        | Some (c, p) \<Rightarrow> op_bind (op_attempt (cloud_assist S J m g token c p)) (\<lambda>r. op_return (case r of
            Inr (_, updated) \<Rightarrow> (m, updated, False)
          | Inl e \<Rightarrow> (m\<lparr>m_reason_code := Some (e_code e)\<rparr>, a, False)))))"

section \<open>Processing a claimed material\<close>

definition failed_stage :: "material \<Rightarrow> ai_selection \<Rightarrow> string option \<Rightarrow> error \<Rightarrow> 'a wop" where
  "failed_stage m sel text_sha256 e =
     op_bind (op_attempt (save_ai_stage (m_id m) (m_revision m) (m_source_sha256 m) ''failed'' sel text_sha256
       (Some (e_code e)))) (\<lambda>(_ :: error + unit). op_fail e)"

definition process_with_model :: "service \<Rightarrow> job \<Rightarrow> material \<Rightarrow> ws_group \<Rightarrow> nat \<Rightarrow> string \<Rightarrow> ai_selection \<Rightarrow> unit wop" where
  "process_with_model S J m g token bytes sel =
     op_bind (save_ai_stage (m_id m) (m_revision m) (m_source_sha256 m) ''ocr_running'' sel None None) (\<lambda>_.
     op_bind (gap J 3) (\<lambda>_.
     op_bind (case jb_extract_ai J (m_name m) bytes (m_encoding m) of
         Inr extracted \<Rightarrow> op_return extracted | Inl e \<Rightarrow> failed_stage m sel None e) (\<lambda>extracted.
     op_bind (is_cancelled token) (\<lambda>fired.
     op_bind (require (\<not> fired) (error_new ''cancelled'')) (\<lambda>_.
     let text_sha256 = content_hash S extracted in
     op_bind (gap J 4) (\<lambda>_.
     op_bind (save_text m extracted) (\<lambda>saved. case saved of
       None \<Rightarrow> op_return ()
     | Some m \<Rightarrow>
         op_bind (gap J 5) (\<lambda>_.
         op_bind (save_ai_stage (m_id m) (m_revision m) (m_source_sha256 m) ''text_ready'' sel
           (Some text_sha256) None) (\<lambda>_.
         op_bind (gap J 6) (\<lambda>_.
         op_bind (save_ai_stage (m_id m) (m_revision m) (m_source_sha256 m) ''redaction_running'' sel
           (Some text_sha256) None) (\<lambda>_.
         op_bind (gap J 7) (\<lambda>_.
         op_bind (case jb_redact J (m_original_text m) g sel text_sha256 (m_dismissed m) of
             Inr a \<Rightarrow> op_return a | Inl e \<Rightarrow> failed_stage m sel (Some text_sha256) e) (\<lambda>a.
         op_bind (finish_ai S m g a) (\<lambda>finished.
         if \<not> finished then op_return ()
         else op_bind (gap J 10) (\<lambda>_. save_ai_stage (m_id m) (m_revision m) (m_source_sha256 m)
           (if a_needs_review a then ''needs_review'' else ''completed'') sel (Some text_sha256) None)))))))))))))))"

definition process_locally :: "service \<Rightarrow> job \<Rightarrow> material \<Rightarrow> ws_group \<Rightarrow> nat \<Rightarrow> string \<Rightarrow> unit wop" where
  "process_locally S J m g token bytes =
     op_bind (op_lift (jb_is_pdf J (m_name m))) (\<lambda>pdf.
     op_bind (op_lift (if pdf then jb_extract_pdf J bytes else jb_extract J (m_name m) bytes (m_encoding m))) (\<lambda>extracted.
     let m = m\<lparr>m_original_text := extracted\<rparr> in
     op_bind (op_map_err (\<lambda>_. error_new ''redaction_failed'') io) (\<lambda>_.
     op_bind (op_lift (text_failed (analyze (sv_engine S) (sv_detectors S) (m_original_text m) (wg_namespace g)
       (wg_entries g) [] (m_dismissed m)))) (\<lambda>a.
     op_bind (gap J 3) (\<lambda>_.
     op_bind (save_analysis m a) (\<lambda>saved. case saved of
       None \<Rightarrow> op_return ()
     | Some m \<Rightarrow>
         op_bind (gap J 4) (\<lambda>_.
         op_bind (cloud_step S J m g token a) (\<lambda>(m, a, waiting).
         op_bind (gap J 10) (\<lambda>_. finish_local S m g a waiting token)))))))))"

definition process_material :: "service \<Rightarrow> job \<Rightarrow> material \<Rightarrow> ws_group \<Rightarrow> nat \<Rightarrow> unit wop" where
  "process_material S J m g token =
     op_bind (case jb_selection J of
         Inr sel \<Rightarrow> op_return (Some sel)
       | Inl e \<Rightarrow> if e_code e = ''ai_model_required'' then op_return None else op_fail e) (\<lambda>selection.
     op_bind (gap J 0) (\<lambda>_.
     op_bind (case selection of Some _ \<Rightarrow> op_lift (jb_admit J 0) | None \<Rightarrow> op_return ()) (\<lambda>_.
     op_bind (gap J 1) (\<lambda>_.
     op_bind (op_lift (jb_admit J 1)) (\<lambda>_.
     op_bind (gap J 2) (\<lambda>_.
     op_bind (fetch w_sources (m_id m)) (\<lambda>bytes.
     op_bind (require (content_hash S bytes = m_source_sha256 m) (error_new ''source_integrity_failed'')) (\<lambda>_.
       case selection of
         Some sel \<Rightarrow> process_with_model S J m g token bytes sel
       | None \<Rightarrow> process_locally S J m g token bytes))))))))"

section \<open>Failures\<close>

definition fail_material :: "string \<Rightarrow> nat \<Rightarrow> string \<Rightarrow> bool wop" where
  "fail_material mid revision code = op_bind lock (\<lambda>_. op_bind (material mid) (\<lambda>m.
     if m_revision m = revision \<and> m_status m = ''running''
     then op_bind (save_row (RMaterial mid (m\<lparr>m_status := ''failed'', m_reason_code := Some code\<rparr>)))
       (\<lambda>_. op_return True)
     else op_return False))"

definition record_material_failure :: "string \<Rightarrow> nat \<Rightarrow> string \<Rightarrow> bool wop" where
  "record_material_failure mid revision code =
     op_bind (op_attempt (fail_material mid revision code)) (\<lambda>r.
       op_return (case r of Inr _ \<Rightarrow> True | Inl (_ :: error) \<Rightarrow> False))"

text \<open>The retry loop, to the number of attempts; handlers may run between two attempts.\<close>

fun settle_material_failure :: "job \<Rightarrow> nat \<Rightarrow> string \<Rightarrow> nat \<Rightarrow> string \<Rightarrow> bool wop" where
  "settle_material_failure J 0 mid revision code = op_return False"
| "settle_material_failure J (Suc n) mid revision code =
     op_bind (record_material_failure mid revision code) (\<lambda>recorded.
       if recorded then op_return True
       else op_bind (gap J (1000 + n)) (\<lambda>_. settle_material_failure J n mid revision code))"

definition worker_turn :: "service \<Rightarrow> job \<Rightarrow> (string \<times> string) option list \<Rightarrow> nat \<Rightarrow> unit wop" where
  "worker_turn S J offers attempts = op_bind (claim_next offers) (\<lambda>claimed. case claimed of
     None \<Rightarrow> op_return ()
   | Some (m, g, token) \<Rightarrow> op_bind (op_attempt (process_material S J m g token)) (\<lambda>r. case r of
       Inr _ \<Rightarrow> op_return ()
     | Inl e \<Rightarrow> op_bind (gap J 11) (\<lambda>_.
         op_bind (settle_material_failure J attempts (m_id m) (m_revision m) (e_code e)) (\<lambda>_. op_return ()))))"

section \<open>Recovery at startup\<close>

definition recover_material :: "string \<Rightarrow> unit wop" where
  "recover_material mid = op_bind (material mid) (\<lambda>m.
     op_bind (fetch_maybe w_consents (m_task_id m)) (\<lambda>c.
     save_row (RMaterial (m_id m)
       (if (case c of None \<Rightarrow> False | Some c \<Rightarrow> m_id m \<in> set (cc_used_materials c))
        then m\<lparr>m_status := ''needs_review'', m_reason_code := Some ''cloud_dispatch_interrupted''\<rparr>
        else m\<lparr>m_status := ''queued''\<rparr>))))"

definition recover_ai_stage :: "ai_stage \<Rightarrow> unit wop" where
  "recover_ai_stage s =
     (if as_stage s \<notin> {''ocr_running'', ''redaction_running''} then op_return ()
      else op_bind (op_attempt (material (as_material_id s))) (\<lambda>found. case found of
        Inl (_ :: error) \<Rightarrow> op_return ()
      | Inr m \<Rightarrow> op_bind
          (if m_revision m = as_revision s \<and> m_source_sha256 m = as_source_sha256 s
              \<and> m_status m \<in> {''running'', ''queued''}
           then save_row (RMaterial (m_id m) (m\<lparr>m_status := ''needs_review'',
             m_reason_code := Some ''ai_dispatch_interrupted''\<rparr>))
           else op_return ()) (\<lambda>_. op_bind now (\<lambda>time.
          save_row (RStage (as_material_id s) (s\<lparr>as_stage := ''interrupted'',
            as_error_code := Some ''ai_dispatch_interrupted'', as_updated_at := time\<rparr>))))))"

definition recover_ai_stages :: "unit wop" where
  "recover_ai_stages = op_bind (fetch_all w_stages) (op_each recover_ai_stage)"

text \<open>The part of \<open>Workspace::open\<close> that settles interrupted materials: a process starts without
  tokens, and the index has offered the interrupted identifiers.\<close>

definition open_workspace :: "string list \<Rightarrow> unit wop" where
  "open_workspace interrupted =
     op_bind (op_modify (\<lambda>w. w\<lparr>w_cancellations := [], w_chats := [], w_fired := []\<rparr>)) (\<lambda>_.
     op_bind io (\<lambda>_. op_bind (op_each recover_material interrupted) (\<lambda>_. recover_ai_stages)))"

end
