(* ===== verification/Mcp.thy ===== *)
theory Mcp imports Worker begin

text \<open>
  What an external client of the service can do: its inbox
  (\<open>workspace-service/src/filesystem.rs\<close>), its token, and the operations it reaches
  (\<open>lib.rs\<close>, \<open>tasks.rs\<close>); and the export of a batch of results. The file system is a parameter:
  its metadata, canonical paths and reads, in a state of its own at each observation, since others
  change it meanwhile.
\<close>

section \<open>The inbox\<close>

type_synonym path = "string list"

record file_read =
  fr_is_file :: bool
  fr_len_before :: nat
  fr_modified_before :: "nat option"
  fr_bytes :: "error + string"
  fr_len_after :: nat
  fr_modified_after :: "nat option"

text \<open>\<open>fs\_link\<close> is \<open>symlink\_metadata\<close>: nothing, or whether the entry is a symbolic link.\<close>

record filesystem =
  fs_link :: "path \<Rightarrow> bool option"
  fs_canonical :: "path \<Rightarrow> error + path"
  fs_open :: "path \<Rightarrow> file_read option"
  fs_utf8_name :: "string \<Rightarrow> bool"

definition path_rejected :: error where
  "path_rejected = error_new ''input_path_rejected''"

text \<open>
  The states of the file system one after the other: \<open>D t\<close> is the one that the observation \<open>t\<close> of a
  call meets. Each \<open>symlink\_metadata\<close> of a chain is an observation.
\<close>

type_synonym disk = "nat \<Rightarrow> filesystem"

fun chain_from :: "disk \<Rightarrow> nat \<Rightarrow> path \<Rightarrow> path \<Rightarrow> error + unit" where
  "chain_from D t current [] = Inr ()"
| "chain_from D t current (c # cs) =
     (if c = ''..'' then Inl path_rejected
      else case fs_link (D t) (current @ [c]) of
          None \<Rightarrow> Inl path_rejected
        | Some link \<Rightarrow> if link then Inl path_rejected else chain_from D (Suc t) (current @ [c]) cs)"

definition ordinary_chain :: "disk \<Rightarrow> nat \<Rightarrow> path \<Rightarrow> error + unit" where
  "ordinary_chain D t p = chain_from D t [] p"

definition relative_ok :: "string \<Rightarrow> bool" where
  "relative_ok relative \<longleftrightarrow> relative \<noteq> [] \<and> length relative \<le> 500
     \<and> CHR 0x5C \<notin> set relative \<and> CHR '':'' \<notin> set relative \<and> CHR 0x00 \<notin> set relative
     \<and> hd relative \<noteq> CHR ''/''
     \<and> list_all (\<lambda>s. s \<noteq> [] \<and> s \<noteq> ''.'' \<and> s \<noteq> ''..'') (str_split (CHR ''/'') relative)"

text \<open>\<open>Path::starts\_with\<close> compares whole components.\<close>

definition starts_with_path :: "path \<Rightarrow> path \<Rightarrow> bool" where
  "starts_with_path p base \<longleftrightarrow> take (length base) p = base"

text \<open>
  The observations of a read, in order: the chain of the root, the chain of the path, the two
  canonical paths, the opening, the chain again, the metadata, bytes and metadata of the opened
  handle, the chain again.
\<close>

definition read_inbox :: "disk \<Rightarrow> path \<Rightarrow> string \<Rightarrow> error + string \<times> string" where
  "read_inbox D root relative =
     and_then (ensure (relative_ok relative) path_rejected) (\<lambda>_.
     and_then (ordinary_chain D 0 root) (\<lambda>_.
     let p = root @ str_split (CHR ''/'') relative; t = length root + length p in
     and_then (ordinary_chain D (length root) p) (\<lambda>_.
     and_then (fs_canonical (D t) p) (\<lambda>canonical.
     and_then (fs_canonical (D (t + 1)) root) (\<lambda>base.
     and_then (ensure (starts_with_path canonical base) path_rejected) (\<lambda>_.
     and_then (ok_or (fs_open (D (t + 2)) p) path_rejected) (\<lambda>f.
     and_then (ordinary_chain D (t + 3) p) (\<lambda>_.
     and_then (ensure (fr_is_file f \<and> fr_len_before f \<le> 20 * 1024 * 1024) (error_new ''file_too_large'')) (\<lambda>_.
     and_then (fr_bytes f) (\<lambda>content.
     let bytes = take (20 * 1024 * 1024 + 1) content in
     and_then (ensure (fr_len_before f = fr_len_after f \<and> fr_modified_before f = fr_modified_after f
         \<and> length bytes = fr_len_before f) (error_new ''input_changed'')) (\<lambda>_.
     and_then (ordinary_chain D (t + 6 + length p) p) (\<lambda>_.
     and_then (ensure (fs_utf8_name (D 0) (last p)) path_rejected) (\<lambda>_. Inr (last p, bytes))))))))))))))"

section \<open>Clients\<close>

record client_view =
  cv_id :: string
  cv_name :: string
  cv_group_id :: string
  cv_enabled :: bool

definition client_view :: "mcp_client \<Rightarrow> client_view" where
  "client_view c = \<lparr>cv_id = mc_id c, cv_name = mc_name c, cv_group_id = mc_group_id c, cv_enabled = mc_enabled c\<rparr>"

definition clients :: "client_view list wop" where
  "clients = op_bind (fetch_all w_clients) (\<lambda>cs. op_return (map client_view cs))"

definition new_uuid :: "service \<Rightarrow> string wop" where
  "new_uuid S = op_bind (op_get w_issued) (\<lambda>n.
     op_bind (op_modify (\<lambda>w. w\<lparr>w_issued := Suc n\<rparr>)) (\<lambda>_. op_return (sv_uuid S n)))"

definition create_client :: "service \<Rightarrow> string \<Rightarrow> string \<Rightarrow> (client_view \<times> string) wop" where
  "create_client S name group_id =
     op_bind (op_lift (bounded name 120)) (\<lambda>_. op_bind lock (\<lambda>_.
     op_bind (fetch w_groups group_id) (\<lambda>_.
     op_bind (new_uuid S) (\<lambda>u. op_bind (new_uuid S) (\<lambda>v.
     let token = u @ v in
     op_bind (new_id S ''client'') (\<lambda>cid. op_bind now (\<lambda>time.
     let c = \<lparr>mc_id = cid, mc_name = name, mc_group_id = group_id, mc_enabled = True,
              mc_token_hash = content_hash S token, mc_created_at = time\<rparr> in
     op_bind io (\<lambda>_. op_bind (save_row (RClient cid c)) (\<lambda>_. op_return (client_view c, token))))))))))"

definition revoke_client :: "string \<Rightarrow> unit wop" where
  "revoke_client cid = op_bind lock (\<lambda>_. op_bind (fetch w_clients cid) (\<lambda>c.
     save_row (RClient cid (c\<lparr>mc_enabled := False\<rparr>))))"

definition authenticate_client :: "service \<Rightarrow> string \<Rightarrow> mcp_client wop" where
  "authenticate_client S token =
     op_bind (require (32 \<le> length token \<and> length token \<le> 512) (error_new ''unauthorized'')) (\<lambda>_.
     op_bind (fetch_all w_clients) (\<lambda>cs.
       op_lift (ok_or (find (\<lambda>c. mc_enabled c \<and> mc_token_hash c = content_hash S token) cs)
         (error_new ''unauthorized''))))"

section \<open>Operations of a client\<close>

text \<open>The \<open>k\<close>-th file is read from the states \<open>D k\<close>.\<close>

definition read_batch :: "(nat \<Rightarrow> disk) \<Rightarrow> path \<Rightarrow> string list \<Rightarrow> error + import_file list" where
  "read_batch D root paths = foldl (\<lambda>acc (k, p). and_then acc (\<lambda>files.
       and_then (read_inbox (D k) root p) (\<lambda>(name, bytes).
         if 100 * 1024 * 1024 < sum_list (map (\<lambda>f. length (if_bytes f)) files) + length bytes
         then Inl (error_new ''batch_too_large'')
         else Inr (files @ [\<lparr>if_name = name, if_bytes = bytes, if_encoding = None\<rparr>]))))
     (Inr []) (enumerate 0 paths)"

text \<open>The files are read without the gate, so handlers may run before the second check.\<close>

definition mcp_submit :: "service \<Rightarrow> (nat \<Rightarrow> disk) \<Rightarrow> path \<Rightarrow> (ws \<Rightarrow> ws) \<Rightarrow> string \<Rightarrow> string \<Rightarrow> string list
    \<Rightarrow> (string \<times> nat) wop" where
  "mcp_submit S D root during token request_id paths =
     op_bind (authenticate_client S token) (\<lambda>client.
     op_bind (require (paths \<noteq> [] \<and> length paths \<le> 100) (error_new ''invalid_request'')) (\<lambda>_.
     op_bind (op_lift (read_batch D (root @ [''inbox'', mc_id client]) paths)) (\<lambda>files.
     op_bind (op_modify during) (\<lambda>_.
     op_bind (authenticate_client S token) (\<lambda>fresh.
     op_bind (require (mc_id fresh = mc_id client) (error_new ''unauthorized'')) (\<lambda>_.
     op_bind (submit S (mc_group_id client) request_id files (Some (mc_id client))) (\<lambda>view.
       op_return (tv_id view, length (tv_materials view)))))))))"

definition mcp_status :: "service \<Rightarrow> string \<Rightarrow> string
    \<Rightarrow> (string \<times> string \<times> (string \<times> string option \<times> string option) list) wop" where
  "mcp_status S token task_id = op_bind lock (\<lambda>_.
     op_bind (authenticate_client S token) (\<lambda>client.
     op_bind (fetch w_tasks task_id) (\<lambda>t.
     op_bind (require (tk_group_id t = mc_group_id client \<and> tk_client_id t = Some (mc_id client))
       (error_new ''task_not_found'')) (\<lambda>_.
     op_bind (task_status task_id) (\<lambda>view.
       op_return (task_id, tv_status view,
         map (\<lambda>(m, _). (m_status m, m_result_id m, m_reason_code m)) (tv_materials view)))))))"

record result_page =
  pg_result_id :: string
  pg_text :: string
  pg_sha256 :: string
  pg_next_cursor :: "string option"

definition PAGE_BYTES :: nat where "PAGE_BYTES = 64 * 1024"

text \<open>The page of a text behind a cursor; \<open>usize\<close> has 64 bits.\<close>

definition page_of :: "string \<Rightarrow> string option \<Rightarrow> error + string \<times> string option" where
  "page_of text cursor =
     and_then (ok_or (parse_unsigned (2 ^ 64) (case cursor of None \<Rightarrow> ''0'' | Some c \<Rightarrow> c))
       (error_new ''invalid_cursor'')) (\<lambda>start.
     if length text < start \<or> \<not> is_char_boundary text start then Inl (error_new ''invalid_cursor'')
     else let stop = floor_boundary text (min (start + PAGE_BYTES) (length text)) in
       Inr (take (stop - start) (drop start text),
         if stop < length text then Some (decimal stop) else None))"

definition mcp_read :: "service \<Rightarrow> string \<Rightarrow> string \<Rightarrow> string option \<Rightarrow> result_page wop" where
  "mcp_read S token result_id cursor = op_bind lock (\<lambda>_.
     op_bind (authenticate_client S token) (\<lambda>client.
     op_bind (read_result_locked S result_id) (\<lambda>r.
     op_bind (require (rr_group_id r = mc_group_id client) (error_new ''result_not_found'')) (\<lambda>_.
     op_bind (op_lift (page_of (rr_text r) cursor)) (\<lambda>(text, next_cursor).
       op_return \<lparr>pg_result_id = rr_id r, pg_text = text, pg_sha256 = rr_output_sha256 r,
         pg_next_cursor = next_cursor\<rparr>)))))"

section \<open>Exporting a batch\<close>

datatype batch_line =
    Exported string string
  | NotExported string string string

record archive_writer =
  aw_report :: "batch_line list \<Rightarrow> string"
  aw_finish :: "(string \<times> string) list \<Rightarrow> error + string"
  aw_package :: "string \<Rightarrow> string option"
  aw_extract :: "string \<Rightarrow> string option"

definition export_failed :: error where
  "export_failed = error_new ''export_failed''"

definition batch_text :: "service \<Rightarrow> archive_writer \<Rightarrow> string \<Rightarrow> material \<Rightarrow> string wop" where
  "batch_text S W format m =
     op_bind (op_lift (ok_or (m_result_id m) (error_new ''result_not_ready''))) (\<lambda>rid.
     op_bind (read_result_locked S rid) (\<lambda>r.
       op_lift (map_err (\<lambda>_. export_failed)
         (export (sv_engine S) (aw_package W) (aw_extract W) (rr_text r) format))))"

text \<open>The failures of the archive writer are the outcomes of its accesses.\<close>

fun batch_entries :: "service \<Rightarrow> archive_writer \<Rightarrow> string \<Rightarrow> nat \<Rightarrow> string list
    \<Rightarrow> ((string \<times> string) list \<times> batch_line list) wop" where
  "batch_entries S W format index [] = op_return ([], [])"
| "batch_entries S W format index (i # ids) =
     op_bind (material i) (\<lambda>m.
     op_bind (op_attempt (batch_text S W format m)) (\<lambda>exported.
     op_bind (case exported of
         Inr data \<Rightarrow>
           let name = ''material-'' @ decimal (index + 1) @ ''.'' @ format in
           op_bind (op_map_err (\<lambda>_. export_failed) io) (\<lambda>_. op_bind io (\<lambda>_.
             op_return ([(name, data)], Exported i name)))
       | Inl e \<Rightarrow> op_return ([], NotExported i (m_status m) (e_code e))) (\<lambda>(entry, line).
     op_bind (batch_entries S W format (index + 1) ids) (\<lambda>(entries, report).
       op_return (entry @ entries, line # report)))))"

definition export_batch :: "service \<Rightarrow> archive_writer \<Rightarrow> string list \<Rightarrow> string \<Rightarrow> string wop" where
  "export_batch S W ids format =
     op_bind (require (ids \<noteq> [] \<and> length ids \<le> 100 \<and> format \<in> {''txt'', ''md'', ''docx''})
       (error_new ''invalid_request'')) (\<lambda>_.
     op_bind lock (\<lambda>_.
     op_bind (batch_entries S W format 0 ids) (\<lambda>(entries, report).
     op_bind (op_map_err (\<lambda>_. export_failed) io) (\<lambda>_. op_bind io (\<lambda>_.
       op_lift (map_err (\<lambda>_. export_failed)
         (aw_finish W (entries @ [(''report.json'', aw_report W report)]))))))))"

end
