(* ===== verification/Lifecycle.thy ===== *)
theory Lifecycle imports Mcp begin

text \<open>
  What every operation of the service keeps. \<open>ws\_inv\<close> is the invariant of the decoded store;
  \<open>evolves\<close> is the relation between the states before and after an operation: nothing that was
  issued disappears, revisions never go back, a source changes only with its revision, a result
  changes only by being revoked, a client that was switched off stays off. Both are closed under
  any interleaving. Every write of the service is one batch of rows, so the proofs state what a
  batch must satisfy once and read each handler as a sequence of reads before its batch.
\<close>

section \<open>Identifiers\<close>

text \<open>Identifiers of \<open>uuid\<close> are distinct and do not contain the separator of their prefix.\<close>

definition service_ok :: "service \<Rightarrow> bool" where
  "service_ok S \<longleftrightarrow> inj (sv_uuid S) \<and> (\<forall>n. CHR ''_'' \<notin> set (sv_uuid S n))"

definition issued :: "service \<Rightarrow> nat \<Rightarrow> string \<Rightarrow> bool" where
  "issued S n i \<longleftrightarrow> (\<exists>k<n. \<exists>p. i = p @ ''_'' @ sv_uuid S k)"

lemma issued_mono: "issued S n i \<Longrightarrow> n \<le> m \<Longrightarrow> issued S m i"
  unfolding issued_def by (elim exE conjE) (intro exI conjI, erule (1) order_less_le_trans, assumption)

lemma last_separator:
  "p @ c # u = q @ c # v \<Longrightarrow> c \<notin> set u \<Longrightarrow> c \<notin> set v \<Longrightarrow> u = v"
  by (induction p arbitrary: q) (auto simp: Cons_eq_append_conv append_eq_Cons_conv)

lemma issued_fresh: "service_ok S \<Longrightarrow> n \<le> k \<Longrightarrow> \<not> issued S n (p @ ''_'' @ sv_uuid S k)"
proof
  assume ok: "service_ok S" and n: "n \<le> k" and "issued S n (p @ ''_'' @ sv_uuid S k)"
  then obtain j q where "j < n" "p @ CHR ''_'' # sv_uuid S k = q @ CHR ''_'' # sv_uuid S j"
    by (auto simp: issued_def)
  moreover have "sv_uuid S k = sv_uuid S j"
    using last_separator[OF calculation(2)] ok by (simp add: service_ok_def)
  ultimately show False using ok n by (auto simp: service_ok_def inj_eq)
qed

lemma issued_now: "issued S (Suc k) (p @ ''_'' @ sv_uuid S k)"
  by (auto simp: issued_def)

section \<open>The invariant\<close>

text \<open>What a result must satisfy to be the current result of a material.\<close>

definition live :: "service \<Rightarrow> ws \<Rightarrow> material \<Rightarrow> ready_result \<Rightarrow> bool" where
  "live S w m x \<longleftrightarrow> \<not> rr_revoked x
     \<and> rr_material_id x = m_id m \<and> rr_group_id x = m_group_id m \<and> rr_revision x = m_revision m
     \<and> m_status m = ''ready''
     \<and> verify_analysis_source (en_digest (sv_engine S)) (m_original_text m) (result_analysis x) = Inr ()
     \<and> (\<exists>g. om_get (w_groups w) (m_group_id m) = Some g \<and> wg_dictionary_revision g = rr_dictionary_revision x)"

definition current :: "service \<Rightarrow> ws \<Rightarrow> material \<Rightarrow> string \<Rightarrow> ready_result \<Rightarrow> bool" where
  "current S w m r x \<longleftrightarrow> om_get (w_results w) r = Some x \<and> live S w m x"

definition sound_result :: "service \<Rightarrow> string \<Rightarrow> ready_result \<Rightarrow> bool" where
  "sound_result S r x \<longleftrightarrow> rr_id x = r \<and> content_hash S (rr_text x) = rr_output_sha256 x
     \<and> validate_analysis (sv_engine S) (result_analysis x) = Inr ()"

definition material_inv :: "service \<Rightarrow> ws \<Rightarrow> bool" where
  "material_inv S w \<longleftrightarrow> om_wf (w_materials w) \<and> (\<forall>i m. om_get (w_materials w) i = Some m \<longrightarrow>
     m_id m = i \<and> issued S (w_issued w) i
     \<and> (\<forall>r. m_result_id m = Some r \<longrightarrow> (\<exists>x. current S w m r x)))"

definition result_inv :: "service \<Rightarrow> ws \<Rightarrow> bool" where
  "result_inv S w \<longleftrightarrow> (\<forall>r x. om_get (w_results w) r = Some x \<longrightarrow>
     sound_result S r x \<and> issued S (w_issued w) r
     \<and> (\<not> rr_revoked x \<longrightarrow> (\<exists>m. om_get (w_materials w) (rr_material_id x) = Some m \<and> m_result_id m = Some r)))"

definition task_inv :: "service \<Rightarrow> ws \<Rightarrow> bool" where
  "task_inv S w \<longleftrightarrow> om_wf (w_tasks w) \<and> (\<forall>i t. om_get (w_tasks w) i = Some t \<longrightarrow> tk_id t = i \<and> issued S (w_issued w) i
     \<and> (\<forall>mid\<in>set (tk_material_ids t). \<exists>m. om_get (w_materials w) mid = Some m
          \<and> m_task_id m = i \<and> m_group_id m = tk_group_id t))"

definition other_inv :: "service \<Rightarrow> ws \<Rightarrow> bool" where
  "other_inv S w \<longleftrightarrow> (\<forall>i g. om_get (w_groups w) i = Some g \<longrightarrow> wg_id g = i \<and> issued S (w_issued w) i)
     \<and> om_wf (w_clients w) \<and> (\<forall>i c. om_get (w_clients w) i = Some c \<longrightarrow> mc_id c = i \<and> issued S (w_issued w) i)
     \<and> (\<forall>i c. om_get (w_consents w) i = Some c \<longrightarrow> issued S (w_issued w) (cc_id c))
     \<and> om_wf (w_stages w) \<and> (\<forall>i s. om_get (w_stages w) i = Some s \<longrightarrow> as_material_id s = i)"

definition ws_inv :: "service \<Rightarrow> ws \<Rightarrow> bool" where
  "ws_inv S w \<longleftrightarrow> material_inv S w \<and> result_inv S w \<and> task_inv S w \<and> other_inv S w"

section \<open>The evolution of the store\<close>

text \<open>What a later version of a material keeps of an earlier one.\<close>

definition follows :: "material \<Rightarrow> material \<Rightarrow> bool" where
  "follows m m' \<longleftrightarrow> m_id m' = m_id m \<and> m_group_id m' = m_group_id m \<and> m_task_id m' = m_task_id m
     \<and> m_revision m \<le> m_revision m'
     \<and> (m_revision m' = m_revision m \<longrightarrow> m_source_sha256 m' = m_source_sha256 m)"

lemma follows_refl [simp]: "follows m m"
  by (simp add: follows_def)

lemma follows_trans: "follows a b \<Longrightarrow> follows b c \<Longrightarrow> follows a c"
  by (auto simp: follows_def)

definition same_client :: "mcp_client \<Rightarrow> mcp_client \<Rightarrow> bool" where
  "same_client c c' \<longleftrightarrow> mc_id c' = mc_id c \<and> mc_group_id c' = mc_group_id c
     \<and> mc_token_hash c' = mc_token_hash c \<and> (mc_enabled c' \<longrightarrow> mc_enabled c)"

definition consent_grows :: "cloud_consent \<Rightarrow> cloud_consent \<Rightarrow> bool" where
  "consent_grows c c' \<longleftrightarrow> cc_id c' = cc_id c \<and> set (cc_used_materials c) \<subseteq> set (cc_used_materials c')"

definition evolves :: "service \<Rightarrow> ws \<Rightarrow> ws \<Rightarrow> bool" where
  "evolves S w t \<longleftrightarrow> w_now w \<le> w_now t \<and> w_issued w \<le> w_issued t
     \<and> (\<forall>i m. om_get (w_materials w) i = Some m \<longrightarrow>
          (\<exists>m'. om_get (w_materials t) i = Some m' \<and> follows m m'))
     \<and> (\<forall>i x. om_get (w_results w) i = Some x \<longrightarrow>
          om_get (w_results t) i \<in> {Some x, Some (x\<lparr>rr_revoked := True\<rparr>)})
     \<and> (\<forall>i g. om_get (w_groups w) i = Some g \<longrightarrow>
          (\<exists>g'. om_get (w_groups t) i = Some g' \<and> wg_dictionary_revision g \<le> wg_dictionary_revision g'))
     \<and> (\<forall>i k. om_get (w_tasks w) i = Some k \<longrightarrow> om_get (w_tasks t) i = Some k)
     \<and> (\<forall>i c. om_get (w_clients w) i = Some c \<longrightarrow>
          (\<exists>c'. om_get (w_clients t) i = Some c' \<and> same_client c c'))
     \<and> (\<forall>i c'. om_get (w_consents t) i = Some c' \<longrightarrow>
          (\<exists>c. om_get (w_consents w) i = Some c \<and> consent_grows c c') \<or> \<not> issued S (w_issued w) (cc_id c'))"

lemma evolves_refl [simp]: "evolves S w w"
  by (auto simp: evolves_def same_client_def consent_grows_def)

lemma evolves_materialD: "evolves S w t \<Longrightarrow> om_get (w_materials w) i = Some m \<Longrightarrow>
    \<exists>m'. om_get (w_materials t) i = Some m' \<and> follows m m'"
  by (simp add: evolves_def)

lemma evolves_resultD: "evolves S w t \<Longrightarrow> om_get (w_results w) i = Some x \<Longrightarrow>
    om_get (w_results t) i \<in> {Some x, Some (x\<lparr>rr_revoked := True\<rparr>)}"
  by (simp add: evolves_def)

lemma evolves_groupD: "evolves S w t \<Longrightarrow> om_get (w_groups w) i = Some g \<Longrightarrow>
    \<exists>g'. om_get (w_groups t) i = Some g' \<and> wg_dictionary_revision g \<le> wg_dictionary_revision g'"
  by (simp add: evolves_def)

lemma evolves_taskD: "evolves S w t \<Longrightarrow> om_get (w_tasks w) i = Some k \<Longrightarrow> om_get (w_tasks t) i = Some k"
  by (simp add: evolves_def)

lemma evolves_clientD: "evolves S w t \<Longrightarrow> om_get (w_clients w) i = Some c \<Longrightarrow>
    \<exists>c'. om_get (w_clients t) i = Some c' \<and> same_client c c'"
  by (simp add: evolves_def)

lemma evolves_consentD: "evolves S w t \<Longrightarrow> om_get (w_consents t) i = Some c' \<Longrightarrow>
    (\<exists>c. om_get (w_consents w) i = Some c \<and> consent_grows c c') \<or> \<not> issued S (w_issued w) (cc_id c')"
  by (simp add: evolves_def)

lemma evolves_counters: "evolves S w t \<Longrightarrow> w_now w \<le> w_now t" "evolves S w t \<Longrightarrow> w_issued w \<le> w_issued t"
  by (simp_all add: evolves_def)

lemma evolves_trans:
  assumes wu: "evolves S w u" and ut: "evolves S u t"
  shows "evolves S w t"
  unfolding evolves_def
proof (intro conjI allI impI)
  show "w_now w \<le> w_now t" "w_issued w \<le> w_issued t"
    using evolves_counters[OF wu] evolves_counters[OF ut] by simp_all
  fix i
  show "om_get (w_materials w) i = Some m \<Longrightarrow> \<exists>m'. om_get (w_materials t) i = Some m' \<and> follows m m'" for m
    using evolves_materialD[OF wu] evolves_materialD[OF ut] follows_trans by metis
  show "om_get (w_results w) i = Some x \<Longrightarrow> om_get (w_results t) i \<in> {Some x, Some (x\<lparr>rr_revoked := True\<rparr>)}" for x
    using evolves_resultD[OF wu, of i x] evolves_resultD[OF ut, of i] by auto
  show "om_get (w_groups w) i = Some g \<Longrightarrow>
      \<exists>g'. om_get (w_groups t) i = Some g' \<and> wg_dictionary_revision g \<le> wg_dictionary_revision g'" for g
    using evolves_groupD[OF wu] evolves_groupD[OF ut] le_trans by metis
  show "om_get (w_tasks w) i = Some k \<Longrightarrow> om_get (w_tasks t) i = Some k" for k
    using evolves_taskD[OF wu] evolves_taskD[OF ut] by simp
  show "om_get (w_clients w) i = Some c \<Longrightarrow> \<exists>c'. om_get (w_clients t) i = Some c' \<and> same_client c c'" for c
    using evolves_clientD[OF wu] evolves_clientD[OF ut] unfolding same_client_def by metis
  fix c' assume t: "om_get (w_consents t) i = Some c'"
  from evolves_consentD[OF ut t] show "(\<exists>c. om_get (w_consents w) i = Some c \<and> consent_grows c c')
      \<or> \<not> issued S (w_issued w) (cc_id c')"
  proof (elim disjE exE conjE)
    fix d assume u: "om_get (w_consents u) i = Some d" and d: "consent_grows d c'"
    then have "cc_id d = cc_id c'" by (simp add: consent_grows_def)
    with evolves_consentD[OF wu u] d show ?thesis unfolding consent_grows_def by fastforce
  next
    assume "\<not> issued S (w_issued u) (cc_id c')"
    then show ?thesis using issued_mono evolves_counters(2)[OF wu] by blast
  qed
qed

section \<open>The tables a batch of rows writes\<close>

locale row_table =
  fixes table :: "ws \<Rightarrow> (string, 'a) omap" and make_row :: "string \<Rightarrow> 'a \<Rightarrow> row"
  assumes put_here: "om_get (table (apply_row (make_row i x) w)) i = Some x"
    and put_there: "(\<And>x. r \<noteq> make_row i x) \<Longrightarrow> om_get (table (apply_row r w)) i = om_get (table w) i"
begin

lemma get_other: "(\<And>x. make_row i x \<notin> set rows) \<Longrightarrow> om_get (table (fold apply_row rows w)) i = om_get (table w) i"
  by (induction rows arbitrary: w) (simp_all, metis put_there)

lemma get_written: "make_row i x \<in> set rows \<Longrightarrow>
    \<exists>y. make_row i y \<in> set rows \<and> om_get (table (fold apply_row rows w)) i = Some y"
proof (induction rows arbitrary: x rule: rev_induct)
  case (snoc r rows)
  show ?case
  proof (cases "\<exists>y. r = make_row i y")
    case True
    then show ?thesis using put_here by auto
  next
    case False
    then have "make_row i x \<in> set rows" using snoc.prems by auto
    then show ?thesis using snoc.IH False put_there by fastforce
  qed
qed simp

lemma get_cases:
  assumes "om_get (table (fold apply_row rows w)) i = Some x"
  obtains (row) "make_row i x \<in> set rows"
    | (kept) "\<And>y. make_row i y \<notin> set rows" "om_get (table w) i = Some x"
proof (cases "\<exists>y. make_row i y \<in> set rows")
  case True
  then obtain y where "make_row i y \<in> set rows" by blast
  with get_written[OF this, of w] assms row show thesis by auto
next
  case False
  with assms kept show thesis by (metis get_other)
qed

lemma get_single:
  assumes "make_row i x \<in> set rows" and "\<And>y. make_row i y \<in> set rows \<Longrightarrow> y = x"
  shows "om_get (table (fold apply_row rows w)) i = Some x"
  using get_written[OF assms(1), of w] assms(2) by auto

end

lemma row_cases_table:
  "om_get (w_groups (apply_row r w)) i = (case r of RGroup j x \<Rightarrow> if i = j then Some x else om_get (w_groups w) i | _ \<Rightarrow> om_get (w_groups w) i)"
  "om_get (w_materials (apply_row r w)) i = (case r of RMaterial j m \<Rightarrow> if i = j then Some m else om_get (w_materials w) i | _ \<Rightarrow> om_get (w_materials w) i)"
  "om_get (w_tasks (apply_row r w)) i = (case r of RTask j y \<Rightarrow> if i = j then Some y else om_get (w_tasks w) i | _ \<Rightarrow> om_get (w_tasks w) i)"
  "om_get (w_results (apply_row r w)) i = (case r of RResult j z \<Rightarrow> if i = j then Some z else om_get (w_results w) i | _ \<Rightarrow> om_get (w_results w) i)"
  "om_get (w_consents (apply_row r w)) i = (case r of RConsent j c \<Rightarrow> if i = j then Some c else om_get (w_consents w) i | _ \<Rightarrow> om_get (w_consents w) i)"
  "om_get (w_clients (apply_row r w)) i = (case r of RClient j d \<Rightarrow> if i = j then Some d else om_get (w_clients w) i | _ \<Rightarrow> om_get (w_clients w) i)"
  "om_get (w_stages (apply_row r w)) i = (case r of RStage j s \<Rightarrow> if i = j then Some s else om_get (w_stages w) i | _ \<Rightarrow> om_get (w_stages w) i)"
  by (cases r; simp)+

interpretation groups: row_table w_groups RGroup
  by unfold_locales (auto simp: row_cases_table split: row.splits)
interpretation materials: row_table w_materials RMaterial
  by unfold_locales (auto simp: row_cases_table split: row.splits)
interpretation tasks: row_table w_tasks RTask
  by unfold_locales (auto simp: row_cases_table split: row.splits)
interpretation results: row_table w_results RResult
  by unfold_locales (auto simp: row_cases_table split: row.splits)
interpretation consents: row_table w_consents RConsent
  by unfold_locales (auto simp: row_cases_table split: row.splits)
interpretation clients: row_table w_clients RClient
  by unfold_locales (auto simp: row_cases_table split: row.splits)
interpretation stages: row_table w_stages RStage
  by unfold_locales (auto simp: row_cases_table split: row.splits)

lemma fold_apply_row_same [simp]:
  "w_now (fold apply_row rows w) = w_now w" "w_issued (fold apply_row rows w) = w_issued w"
  "w_outcomes (fold apply_row rows w) = w_outcomes w" "w_fired (fold apply_row rows w) = w_fired w"
  "w_providers (fold apply_row rows w) = w_providers w"
  "w_cancellations (fold apply_row rows w) = w_cancellations w"
proof -
  have one: "w_now (apply_row r w) = w_now w \<and> w_issued (apply_row r w) = w_issued w
    \<and> w_outcomes (apply_row r w) = w_outcomes w \<and> w_fired (apply_row r w) = w_fired w
    \<and> w_providers (apply_row r w) = w_providers w \<and> w_cancellations (apply_row r w) = w_cancellations w" for r w
    by (cases r) simp_all
  show "w_now (fold apply_row rows w) = w_now w" "w_issued (fold apply_row rows w) = w_issued w"
    "w_outcomes (fold apply_row rows w) = w_outcomes w" "w_fired (fold apply_row rows w) = w_fired w"
    "w_providers (fold apply_row rows w) = w_providers w"
    "w_cancellations (fold apply_row rows w) = w_cancellations w"
    by (induction rows arbitrary: w) (simp_all add: one)
qed

lemma apply_row_wf:
  "om_wf (w_materials w) \<Longrightarrow> om_wf (w_materials (apply_row r w))"
  "om_wf (w_tasks w) \<Longrightarrow> om_wf (w_tasks (apply_row r w))"
  "om_wf (w_clients w) \<Longrightarrow> om_wf (w_clients (apply_row r w))"
  "om_wf (w_stages w) \<Longrightarrow> om_wf (w_stages (apply_row r w))"
  by (cases r; simp)+

lemma fold_apply_row_wf:
  "om_wf (w_materials w) \<Longrightarrow> om_wf (w_materials (fold apply_row rows w))"
  "om_wf (w_tasks w) \<Longrightarrow> om_wf (w_tasks (fold apply_row rows w))"
  "om_wf (w_clients w) \<Longrightarrow> om_wf (w_clients (fold apply_row rows w))"
  "om_wf (w_stages w) \<Longrightarrow> om_wf (w_stages (fold apply_row rows w))"
  by (induction rows arbitrary: w) (simp_all add: apply_row_wf)

section \<open>Batches\<close>

text \<open>States with the same tables: reading moves only along this relation.\<close>

definition same :: "ws \<Rightarrow> ws \<Rightarrow> bool" where
  "same w t \<longleftrightarrow> w_groups t = w_groups w \<and> w_materials t = w_materials w \<and> w_tasks t = w_tasks w
     \<and> w_results t = w_results w \<and> w_consents t = w_consents w \<and> w_providers t = w_providers w
     \<and> w_clients t = w_clients w \<and> w_stages t = w_stages w \<and> w_sources t = w_sources w
     \<and> w_now t = w_now w \<and> w_issued w \<le> w_issued t"

lemma same_refl [simp]: "same w w"
  by (simp add: same_def)

lemma same_trans: "same w u \<Longrightarrow> same u t \<Longrightarrow> same w t"
  by (simp add: same_def)

lemma sameD:
  assumes "same w t"
  shows "w_groups t = w_groups w" "w_materials t = w_materials w" "w_tasks t = w_tasks w"
    "w_results t = w_results w" "w_consents t = w_consents w" "w_providers t = w_providers w"
    "w_clients t = w_clients w" "w_stages t = w_stages w" "w_sources t = w_sources w"
    "w_now t = w_now w" "w_issued w \<le> w_issued t"
  using assms by (simp_all add: same_def)

definition fresh_id :: "service \<Rightarrow> ws \<Rightarrow> nat \<Rightarrow> string \<Rightarrow> bool" where
  "fresh_id S D n i \<longleftrightarrow> \<not> issued S (w_issued D) i \<and> issued S n i"

definition materials_ok :: "service \<Rightarrow> ws \<Rightarrow> nat \<Rightarrow> row set \<Rightarrow> bool" where
  "materials_ok S D n R \<longleftrightarrow> (\<forall>i m. RMaterial i m \<in> R \<longrightarrow> m_id m = i
     \<and> (case om_get (w_materials D) i of
          None \<Rightarrow> fresh_id S D n i
        | Some old \<Rightarrow> follows old m \<and> (\<forall>r. m_result_id old = Some r \<longrightarrow> (\<exists>x. RResult r x \<in> R)))
     \<and> (\<forall>r. m_result_id m = Some r \<longrightarrow> (\<exists>x. RResult r x \<in> R \<and> live S D m x) \<and> (\<forall>g. RGroup (m_group_id m) g \<notin> R))
     \<and> (\<forall>m'. RMaterial i m' \<in> R \<longrightarrow> m' = m))"

definition results_ok :: "service \<Rightarrow> ws \<Rightarrow> nat \<Rightarrow> row set \<Rightarrow> bool" where
  "results_ok S D n R \<longleftrightarrow> (\<forall>r x. RResult r x \<in> R \<longrightarrow> sound_result S r x
     \<and> (\<forall>x'. RResult r x' \<in> R \<longrightarrow> x' = x)
     \<and> ((rr_revoked x \<and> (\<exists>y. om_get (w_results D) r = Some y \<and> x = y\<lparr>rr_revoked := True\<rparr>)
          \<and> (\<forall>i old. om_get (w_materials D) i = Some old \<and> m_result_id old = Some r \<longrightarrow> (\<exists>m. RMaterial i m \<in> R)))
        \<or> (fresh_id S D n r \<and> \<not> rr_revoked x
          \<and> (\<exists>m. RMaterial (rr_material_id x) m \<in> R \<and> m_result_id m = Some r))))"

definition groups_ok :: "service \<Rightarrow> ws \<Rightarrow> nat \<Rightarrow> row set \<Rightarrow> bool" where
  "groups_ok S D n R \<longleftrightarrow> (\<forall>i g. RGroup i g \<in> R \<longrightarrow> wg_id g = i
     \<and> (case om_get (w_groups D) i of
          None \<Rightarrow> fresh_id S D n i
        | Some old \<Rightarrow> wg_dictionary_revision old \<le> wg_dictionary_revision g
            \<and> (\<forall>j m. om_get (w_materials D) j = Some m \<and> m_group_id m = i \<and> m_result_id m \<noteq> None
                 \<longrightarrow> (\<exists>m'. RMaterial j m' \<in> R))))"

definition tasks_ok :: "service \<Rightarrow> ws \<Rightarrow> nat \<Rightarrow> row set \<Rightarrow> bool" where
  "tasks_ok S D n R \<longleftrightarrow> (\<forall>i t. RTask i t \<in> R \<longrightarrow> tk_id t = i \<and> fresh_id S D n i
     \<and> (\<forall>mid\<in>set (tk_material_ids t). \<exists>m. RMaterial mid m \<in> R \<and> m_task_id m = i \<and> m_group_id m = tk_group_id t))"

definition others_ok :: "service \<Rightarrow> ws \<Rightarrow> nat \<Rightarrow> row set \<Rightarrow> bool" where
  "others_ok S D n R \<longleftrightarrow>
     (\<forall>k c. RConsent k c \<in> R \<longrightarrow> issued S n (cc_id c)
        \<and> ((\<exists>old. om_get (w_consents D) k = Some old \<and> consent_grows old c) \<or> \<not> issued S (w_issued D) (cc_id c)))
   \<and> (\<forall>i c. RClient i c \<in> R \<longrightarrow> mc_id c = i \<and> (case om_get (w_clients D) i of
          None \<Rightarrow> fresh_id S D n i | Some old \<Rightarrow> same_client old c))
   \<and> (\<forall>i s. RStage i s \<in> R \<longrightarrow> as_material_id s = i)"

definition batch_ok :: "service \<Rightarrow> ws \<Rightarrow> nat \<Rightarrow> row set \<Rightarrow> bool" where
  "batch_ok S D n R \<longleftrightarrow> materials_ok S D n R \<and> results_ok S D n R \<and> groups_ok S D n R
     \<and> tasks_ok S D n R \<and> others_ok S D n R"

lemma material_invD:
  assumes "ws_inv S w" and "om_get (w_materials w) i = Some m"
  shows "m_id m = i" "issued S (w_issued w) i" "m_result_id m = Some r \<Longrightarrow> \<exists>x. current S w m r x"
  using assms by (simp_all add: ws_inv_def material_inv_def)

lemma result_invD:
  assumes "ws_inv S w" and "om_get (w_results w) r = Some x"
  shows "sound_result S r x" "issued S (w_issued w) r"
    "\<not> rr_revoked x \<Longrightarrow> \<exists>m. om_get (w_materials w) (rr_material_id x) = Some m \<and> m_result_id m = Some r"
  using assms by (simp_all add: ws_inv_def result_inv_def)

lemma task_invD:
  assumes "ws_inv S w" and "om_get (w_tasks w) i = Some t"
  shows "tk_id t = i" "issued S (w_issued w) i"
    "mid \<in> set (tk_material_ids t) \<Longrightarrow>
       \<exists>m. om_get (w_materials w) mid = Some m \<and> m_task_id m = i \<and> m_group_id m = tk_group_id t"
  using assms by (simp_all add: ws_inv_def task_inv_def)

lemma group_invD:
  "ws_inv S w \<Longrightarrow> om_get (w_groups w) i = Some g \<Longrightarrow> wg_id g = i \<and> issued S (w_issued w) i"
  by (simp add: ws_inv_def other_inv_def)

lemma client_invD:
  "ws_inv S w \<Longrightarrow> om_get (w_clients w) i = Some c \<Longrightarrow> mc_id c = i \<and> issued S (w_issued w) i"
  by (simp add: ws_inv_def other_inv_def)

lemma consent_invD:
  "ws_inv S w \<Longrightarrow> om_get (w_consents w) i = Some c \<Longrightarrow> issued S (w_issued w) (cc_id c)"
  by (simp add: ws_inv_def other_inv_def)

lemma stage_invD: "ws_inv S w \<Longrightarrow> om_get (w_stages w) i = Some s \<Longrightarrow> as_material_id s = i"
  by (simp add: ws_inv_def other_inv_def)

lemma ws_inv_wf:
  assumes "ws_inv S w"
  shows "om_wf (w_materials w)" "om_wf (w_tasks w)" "om_wf (w_clients w)" "om_wf (w_stages w)"
  using assms by (simp_all add: ws_inv_def other_inv_def material_inv_def task_inv_def)

lemma same_current [simp]: "same w t \<Longrightarrow> current S t = current S w"
  by (intro ext) (simp add: current_def live_def same_def)

lemma same_ws_inv:
  assumes st: "same w t" and w: "ws_inv S w"
  shows "ws_inv S t"
proof -
  note eq = sameD[OF st]
  have mono: "issued S (w_issued w) i \<Longrightarrow> issued S (w_issued t) i" for i
    using eq(11) issued_mono by blast
  show ?thesis unfolding ws_inv_def
  proof (intro conjI)
    show "material_inv S t" unfolding material_inv_def eq
    proof (intro conjI allI impI)
      fix i m assume m: "om_get (w_materials w) i = Some m"
      show "m_id m = i" "issued S (w_issued t) i" using material_invD[OF w m] mono by blast+
      show "\<exists>x. current S t m r x" if "m_result_id m = Some r" for r
        using material_invD(3)[OF w m that] st by simp
    qed (use ws_inv_wf[OF w] in simp)
    show "result_inv S t" unfolding result_inv_def eq
      using result_invD[OF w] mono by blast
    show "task_inv S t" unfolding task_inv_def eq
    proof (intro conjI allI impI)
      fix i k assume k: "om_get (w_tasks w) i = Some k"
      show "tk_id k = i" "issued S (w_issued t) i" "\<forall>mid\<in>set (tk_material_ids k). \<exists>m.
          om_get (w_materials w) mid = Some m \<and> m_task_id m = i \<and> m_group_id m = tk_group_id k"
        using task_invD[OF w k] mono by blast+
    qed (use ws_inv_wf[OF w] in simp)
    show "other_inv S t" unfolding other_inv_def eq
      using group_invD[OF w] client_invD[OF w] consent_invD[OF w] stage_invD[OF w] ws_inv_wf[OF w] mono
      by blast
  qed
qed

lemma same_evolves: "same w t \<Longrightarrow> evolves S w t"
  by (simp add: same_def evolves_def same_client_def consent_grows_def)

lemma materials_okD:
  assumes "materials_ok S D n R" and "RMaterial i m \<in> R"
  shows "m_id m = i" "RMaterial i m' \<in> R \<Longrightarrow> m' = m"
    "om_get (w_materials D) i = Some old \<Longrightarrow> follows old m"
    "om_get (w_materials D) i = Some old \<Longrightarrow> m_result_id old = Some r \<Longrightarrow> \<exists>x. RResult r x \<in> R"
    "om_get (w_materials D) i = None \<Longrightarrow> fresh_id S D n i"
    "m_result_id m = Some r \<Longrightarrow> \<exists>x. RResult r x \<in> R \<and> live S D m x"
    "m_result_id m = Some r \<Longrightarrow> RGroup (m_group_id m) g \<notin> R"
proof -
  from assms have "m_id m = i
     \<and> (case om_get (w_materials D) i of
          None \<Rightarrow> fresh_id S D n i
        | Some old \<Rightarrow> follows old m \<and> (\<forall>r. m_result_id old = Some r \<longrightarrow> (\<exists>x. RResult r x \<in> R)))
     \<and> (\<forall>r. m_result_id m = Some r \<longrightarrow> (\<exists>x. RResult r x \<in> R \<and> live S D m x) \<and> (\<forall>g. RGroup (m_group_id m) g \<notin> R))
     \<and> (\<forall>m'. RMaterial i m' \<in> R \<longrightarrow> m' = m)"
    unfolding materials_ok_def by blast
  then show "m_id m = i" "RMaterial i m' \<in> R \<Longrightarrow> m' = m"
    "om_get (w_materials D) i = Some old \<Longrightarrow> follows old m"
    "om_get (w_materials D) i = Some old \<Longrightarrow> m_result_id old = Some r \<Longrightarrow> \<exists>x. RResult r x \<in> R"
    "om_get (w_materials D) i = None \<Longrightarrow> fresh_id S D n i"
    "m_result_id m = Some r \<Longrightarrow> \<exists>x. RResult r x \<in> R \<and> live S D m x"
    "m_result_id m = Some r \<Longrightarrow> RGroup (m_group_id m) g \<notin> R"
    by simp_all
qed

lemma results_okD:
  assumes "results_ok S D n R" and "RResult r x \<in> R"
  shows "sound_result S r x" "RResult r x' \<in> R \<Longrightarrow> x' = x"
    "om_get (w_results D) r = Some y \<Longrightarrow> issued S (w_issued D) r \<Longrightarrow> rr_revoked x \<and> x = y\<lparr>rr_revoked := True\<rparr>"
    "om_get (w_materials D) i = Some old \<Longrightarrow> m_result_id old = Some r \<Longrightarrow> issued S (w_issued D) r
       \<Longrightarrow> \<exists>m. RMaterial i m \<in> R"
    "(\<exists>y. om_get (w_results D) r = Some y) \<or> fresh_id S D n r"
    "\<not> rr_revoked x \<Longrightarrow> \<exists>m. RMaterial (rr_material_id x) m \<in> R \<and> m_result_id m = Some r"
proof -
  from assms have "sound_result S r x \<and> (\<forall>x'. RResult r x' \<in> R \<longrightarrow> x' = x)
     \<and> ((rr_revoked x \<and> (\<exists>y. om_get (w_results D) r = Some y \<and> x = y\<lparr>rr_revoked := True\<rparr>)
          \<and> (\<forall>i old. om_get (w_materials D) i = Some old \<and> m_result_id old = Some r \<longrightarrow> (\<exists>m. RMaterial i m \<in> R)))
        \<or> (fresh_id S D n r \<and> \<not> rr_revoked x
          \<and> (\<exists>m. RMaterial (rr_material_id x) m \<in> R \<and> m_result_id m = Some r)))"
    unfolding results_ok_def by blast
  then show "sound_result S r x" "RResult r x' \<in> R \<Longrightarrow> x' = x"
    "om_get (w_results D) r = Some y \<Longrightarrow> issued S (w_issued D) r \<Longrightarrow> rr_revoked x \<and> x = y\<lparr>rr_revoked := True\<rparr>"
    "om_get (w_materials D) i = Some old \<Longrightarrow> m_result_id old = Some r \<Longrightarrow> issued S (w_issued D) r
       \<Longrightarrow> \<exists>m. RMaterial i m \<in> R"
    "(\<exists>y. om_get (w_results D) r = Some y) \<or> fresh_id S D n r"
    "\<not> rr_revoked x \<Longrightarrow> \<exists>m. RMaterial (rr_material_id x) m \<in> R \<and> m_result_id m = Some r"
    by (auto simp: fresh_id_def)
qed

text \<open>The batch lemma: a batch that is right for the rows it was read from is an evolution.\<close>

lemma batch_okD:
  assumes "batch_ok S D n R"
  shows "materials_ok S D n R" "results_ok S D n R" "groups_ok S D n R" "tasks_ok S D n R" "others_ok S D n R"
  using assms by (simp_all add: batch_ok_def)

lemma groups_okD:
  assumes "groups_ok S D n R" and "RGroup i g \<in> R"
  shows "wg_id g = i"
    "om_get (w_groups D) i = Some old \<Longrightarrow> wg_dictionary_revision old \<le> wg_dictionary_revision g"
    "om_get (w_groups D) i = Some old \<Longrightarrow> om_get (w_materials D) j = Some m \<Longrightarrow> m_group_id m = i
       \<Longrightarrow> m_result_id m = Some r \<Longrightarrow> \<exists>m'. RMaterial j m' \<in> R"
    "om_get (w_groups D) i = None \<Longrightarrow> fresh_id S D n i"
proof -
  from assms have "wg_id g = i \<and> (case om_get (w_groups D) i of
          None \<Rightarrow> fresh_id S D n i
        | Some old \<Rightarrow> wg_dictionary_revision old \<le> wg_dictionary_revision g
            \<and> (\<forall>j m. om_get (w_materials D) j = Some m \<and> m_group_id m = i \<and> m_result_id m \<noteq> None
                 \<longrightarrow> (\<exists>m'. RMaterial j m' \<in> R)))"
    unfolding groups_ok_def by blast
  then show "wg_id g = i"
    "om_get (w_groups D) i = Some old \<Longrightarrow> wg_dictionary_revision old \<le> wg_dictionary_revision g"
    "om_get (w_groups D) i = Some old \<Longrightarrow> om_get (w_materials D) j = Some m \<Longrightarrow> m_group_id m = i
       \<Longrightarrow> m_result_id m = Some r \<Longrightarrow> \<exists>m'. RMaterial j m' \<in> R"
    "om_get (w_groups D) i = None \<Longrightarrow> fresh_id S D n i"
    by simp_all
qed

lemma tasks_okD:
  assumes "tasks_ok S D n R" and "RTask i t \<in> R"
  shows "tk_id t = i" "fresh_id S D n i"
    "mid \<in> set (tk_material_ids t) \<Longrightarrow> \<exists>m. RMaterial mid m \<in> R \<and> m_task_id m = i \<and> m_group_id m = tk_group_id t"
  using assms by (simp_all add: tasks_ok_def)

lemma others_okD:
  assumes "others_ok S D n R"
  shows "RConsent k c \<in> R \<Longrightarrow> issued S n (cc_id c)"
    "RConsent k c \<in> R \<Longrightarrow> (\<exists>old. om_get (w_consents D) k = Some old \<and> consent_grows old c)
        \<or> \<not> issued S (w_issued D) (cc_id c)"
    "RClient i d \<in> R \<Longrightarrow> mc_id d = i"
    "RClient i d \<in> R \<Longrightarrow> om_get (w_clients D) i = None \<Longrightarrow> fresh_id S D n i"
    "RClient i d \<in> R \<Longrightarrow> om_get (w_clients D) i = Some e \<Longrightarrow> same_client e d"
    "RStage i s \<in> R \<Longrightarrow> as_material_id s = i"
  using assms by (force simp: others_ok_def)+

lemma batch_material_inv:
  assumes D: "ws_inv S D" and st: "same D u" and ok: "batch_ok S D (w_issued u) (set rows)"
  shows "material_inv S (fold apply_row rows u)"
  unfolding material_inv_def
proof (intro conjI allI impI)
  note eq = sameD[OF st] and parts = batch_okD[OF ok]
  show "om_wf (w_materials (fold apply_row rows u))"
    using ws_inv_wf[OF D] eq by (simp add: fold_apply_row_wf)
  fix i m assume "om_get (w_materials (fold apply_row rows u)) i = Some m"
  then have "m_id m = i \<and> issued S (w_issued u) i
      \<and> (\<forall>r. m_result_id m = Some r \<longrightarrow> (\<exists>x. current S (fold apply_row rows u) m r x))"
  proof (cases rule: materials.get_cases)
    case row
    note md = materials_okD[OF parts(1) row]
    have "issued S (w_issued u) i"
    proof (cases "om_get (w_materials D) i")
      case None
      then show ?thesis using md(5) by (simp add: fresh_id_def)
    next
      case (Some old)
      then show ?thesis using material_invD(2)[OF D] issued_mono eq(11) by blast
    qed
    moreover have "\<exists>x. current S (fold apply_row rows u) m r x" if r: "m_result_id m = Some r" for r
    proof -
      obtain x where x: "RResult r x \<in> set rows" "live S D m x" using md(6)[OF r] by blast
      have "om_get (w_results (fold apply_row rows u)) r = Some x"
        by (rule results.get_single[OF x(1)]) (use results_okD(2)[OF parts(2) x(1)] in blast)
      moreover have "om_get (w_groups (fold apply_row rows u)) (m_group_id m) = om_get (w_groups D) (m_group_id m)"
        using groups.get_other[of "m_group_id m" rows u] md(7)[OF r] by (simp add: eq)
      ultimately show ?thesis using x(2) by (auto simp: current_def live_def)
    qed
    ultimately show ?thesis using md(1) by blast
  next
    case kept
    then have m: "om_get (w_materials D) i = Some m" by (simp add: eq)
    have "\<exists>x. current S (fold apply_row rows u) m r x" if r: "m_result_id m = Some r" for r
    proof -
      obtain x where x: "om_get (w_results D) r = Some x" "live S D m x"
        using material_invD(3)[OF D m r] by (auto simp: current_def)
      have iss: "issued S (w_issued D) r" using result_invD(2)[OF D x(1)] .
      have "RResult r y \<notin> set rows" for y
        using results_okD(4)[OF parts(2) _ m r iss] kept(1) by blast
      then have "om_get (w_results (fold apply_row rows u)) r = Some x"
        using results.get_other[of r rows u] x(1) by (simp add: eq)
      moreover have "RGroup (m_group_id m) g \<notin> set rows" for g
        using groups_okD(3)[OF parts(3) _ _ m refl r] x(2) kept(1) by (auto simp: live_def)
      then have "om_get (w_groups (fold apply_row rows u)) (m_group_id m) = om_get (w_groups D) (m_group_id m)"
        using groups.get_other[of "m_group_id m" rows u] by (simp add: eq)
      ultimately show ?thesis using x(2) by (auto simp: current_def live_def)
    qed
    then show ?thesis using material_invD(1,2)[OF D m] issued_mono eq(11) by blast
  qed
  then show "m_id m = i" "issued S (w_issued (fold apply_row rows u)) i"
    "\<And>r. m_result_id m = Some r \<Longrightarrow> \<exists>x. current S (fold apply_row rows u) m r x"
    by simp_all
qed

lemma batch_result_inv:
  assumes D: "ws_inv S D" and st: "same D u" and ok: "batch_ok S D (w_issued u) (set rows)"
  shows "result_inv S (fold apply_row rows u)"
  unfolding result_inv_def
proof (intro allI impI)
  note eq = sameD[OF st] and parts = batch_okD[OF ok]
  fix r x assume "om_get (w_results (fold apply_row rows u)) r = Some x"
  then have "sound_result S r x \<and> issued S (w_issued u) r \<and> (\<not> rr_revoked x \<longrightarrow>
      (\<exists>m. om_get (w_materials (fold apply_row rows u)) (rr_material_id x) = Some m \<and> m_result_id m = Some r))"
  proof (cases rule: results.get_cases)
    case row
    note rd = results_okD[OF parts(2) row]
    have "\<exists>m. om_get (w_materials (fold apply_row rows u)) (rr_material_id x) = Some m \<and> m_result_id m = Some r"
      if alive: "\<not> rr_revoked x"
    proof -
      obtain m where m: "RMaterial (rr_material_id x) m \<in> set rows" "m_result_id m = Some r"
        using rd(6)[OF alive] by blast
      have "om_get (w_materials (fold apply_row rows u)) (rr_material_id x) = Some m"
        by (rule materials.get_single[OF m(1)]) (use materials_okD(2)[OF parts(1) m(1)] in blast)
      with m(2) show ?thesis by blast
    qed
    moreover have "issued S (w_issued u) r"
      using rd(5) result_invD(2)[OF D] issued_mono eq(11) unfolding fresh_id_def by blast
    ultimately show ?thesis using rd(1) by blast
  next
    case kept
    then have x: "om_get (w_results D) r = Some x" by (simp add: eq)
    have "\<exists>m. om_get (w_materials (fold apply_row rows u)) (rr_material_id x) = Some m \<and> m_result_id m = Some r"
      if alive: "\<not> rr_revoked x"
    proof -
      obtain m where m: "om_get (w_materials D) (rr_material_id x) = Some m" "m_result_id m = Some r"
        using result_invD(3)[OF D x alive] by blast
      have "RMaterial (rr_material_id x) m' \<notin> set rows" for m'
        using materials_okD(4)[OF parts(1) _ m] kept(1) by blast
      then have "om_get (w_materials (fold apply_row rows u)) (rr_material_id x) = Some m"
        using materials.get_other[of "rr_material_id x" rows u] m(1) by (simp add: eq)
      with m(2) show ?thesis by blast
    qed
    then show ?thesis using result_invD(1,2)[OF D x] issued_mono eq(11) by blast
  qed
  then show "sound_result S r x \<and> issued S (w_issued (fold apply_row rows u)) r \<and> (\<not> rr_revoked x \<longrightarrow>
      (\<exists>m. om_get (w_materials (fold apply_row rows u)) (rr_material_id x) = Some m \<and> m_result_id m = Some r))"
    by simp
qed

lemma batch_task_inv:
  assumes D: "ws_inv S D" and st: "same D u" and ok: "batch_ok S D (w_issued u) (set rows)"
  shows "task_inv S (fold apply_row rows u)"
  unfolding task_inv_def
proof (intro conjI allI impI)
  note eq = sameD[OF st] and parts = batch_okD[OF ok]
  show "om_wf (w_tasks (fold apply_row rows u))"
    using ws_inv_wf[OF D] eq by (simp add: fold_apply_row_wf)
  fix i t assume "om_get (w_tasks (fold apply_row rows u)) i = Some t"
  then have "tk_id t = i \<and> issued S (w_issued u) i \<and> (\<forall>mid\<in>set (tk_material_ids t).
      \<exists>m. om_get (w_materials (fold apply_row rows u)) mid = Some m \<and> m_task_id m = i \<and> m_group_id m = tk_group_id t)"
  proof (cases rule: tasks.get_cases)
    case row
    note td = tasks_okD[OF parts(4) row]
    have "\<exists>m. om_get (w_materials (fold apply_row rows u)) mid = Some m \<and> m_task_id m = i
        \<and> m_group_id m = tk_group_id t" if mid: "mid \<in> set (tk_material_ids t)" for mid
    proof -
      obtain m where m: "RMaterial mid m \<in> set rows" "m_task_id m = i" "m_group_id m = tk_group_id t"
        using td(3)[OF mid] by blast
      have "om_get (w_materials (fold apply_row rows u)) mid = Some m"
        by (rule materials.get_single[OF m(1)]) (use materials_okD(2)[OF parts(1) m(1)] in blast)
      with m show ?thesis by blast
    qed
    then show ?thesis using td(1,2) by (auto simp: fresh_id_def)
  next
    case kept
    then have t: "om_get (w_tasks D) i = Some t" by (simp add: eq)
    have "\<exists>m. om_get (w_materials (fold apply_row rows u)) mid = Some m \<and> m_task_id m = i
        \<and> m_group_id m = tk_group_id t" if mid: "mid \<in> set (tk_material_ids t)" for mid
    proof -
      obtain m where m: "om_get (w_materials D) mid = Some m" "m_task_id m = i" "m_group_id m = tk_group_id t"
        using task_invD(3)[OF D t mid] by blast
      show ?thesis
      proof (cases "\<exists>m'. RMaterial mid m' \<in> set rows")
        case True
        then obtain m' where m': "RMaterial mid m' \<in> set rows" by blast
        have "om_get (w_materials (fold apply_row rows u)) mid = Some m'"
          by (rule materials.get_single[OF m']) (use materials_okD(2)[OF parts(1) m'] in blast)
        moreover have "follows m m'" using materials_okD(3)[OF parts(1) m' m(1)] .
        ultimately show ?thesis using m by (auto simp: follows_def)
      next
        case False
        then have "om_get (w_materials (fold apply_row rows u)) mid = Some m"
          using materials.get_other[of mid rows u] m(1) by (simp add: eq)
        with m show ?thesis by blast
      qed
    qed
    then show ?thesis using task_invD(1,2)[OF D t] issued_mono eq(11) by blast
  qed
  then show "tk_id t = i" "issued S (w_issued (fold apply_row rows u)) i" "\<forall>mid\<in>set (tk_material_ids t).
      \<exists>m. om_get (w_materials (fold apply_row rows u)) mid = Some m \<and> m_task_id m = i \<and> m_group_id m = tk_group_id t"
    by simp_all
qed

lemma batch_other_inv:
  assumes D: "ws_inv S D" and st: "same D u" and ok: "batch_ok S D (w_issued u) (set rows)"
  shows "other_inv S (fold apply_row rows u)"
  unfolding other_inv_def
proof (intro conjI allI impI)
  note eq = sameD[OF st] and parts = batch_okD[OF ok]
  let ?T = "fold apply_row rows u"
  have mono: "issued S (w_issued D) i \<Longrightarrow> issued S (w_issued u) i" for i
    using issued_mono eq(11) by blast
  show "om_wf (w_clients ?T)" "om_wf (w_stages ?T)"
    using ws_inv_wf[OF D] eq by (simp_all add: fold_apply_row_wf)
  fix i
  show "wg_id g = i" "issued S (w_issued ?T) i" if "om_get (w_groups ?T) i = Some g" for g
    using that
    by (cases rule: groups.get_cases;
        use groups_okD(1,4)[OF parts(3)] group_invD[OF D] mono in \<open>fastforce simp: eq fresh_id_def\<close>)+
  show "mc_id c = i" "issued S (w_issued ?T) i" if "om_get (w_clients ?T) i = Some c" for c
    using that
    by (cases rule: clients.get_cases;
        use others_okD(3,4)[OF parts(5)] client_invD[OF D] mono in \<open>fastforce simp: eq fresh_id_def\<close>)+
  show "issued S (w_issued ?T) (cc_id c)" if "om_get (w_consents ?T) i = Some c" for c
    using that
    by (cases rule: consents.get_cases)
      (use others_okD(1)[OF parts(5)] consent_invD[OF D] mono in \<open>auto simp: eq\<close>)
  show "as_material_id s = i" if "om_get (w_stages ?T) i = Some s" for s
    using that
    by (cases rule: stages.get_cases)
      (use others_okD(6)[OF parts(5)] stage_invD[OF D] in \<open>auto simp: eq\<close>)
qed

lemma batch_evolves:
  assumes D: "ws_inv S D" and st: "same D u" and ok: "batch_ok S D (w_issued u) (set rows)"
  shows "evolves S D (fold apply_row rows u)"
  unfolding evolves_def
proof (intro conjI allI impI)
  note eq = sameD[OF st] and parts = batch_okD[OF ok]
  let ?T = "fold apply_row rows u"
  show "w_now D \<le> w_now ?T" "w_issued D \<le> w_issued ?T" using eq by simp_all
  fix i
  show "\<exists>m'. om_get (w_materials ?T) i = Some m' \<and> follows m m'" if m: "om_get (w_materials D) i = Some m" for m
  proof (cases "\<exists>m'. RMaterial i m' \<in> set rows")
    case True
    then obtain m' where "RMaterial i m' \<in> set rows" by blast
    from materials.get_written[OF this, of u] materials_okD(3)[OF parts(1) _ m] show ?thesis by blast
  next
    case False
    then show ?thesis using materials.get_other[of i rows u] m eq by simp
  qed
  show "om_get (w_results ?T) i \<in> {Some x, Some (x\<lparr>rr_revoked := True\<rparr>)}"
    if x: "om_get (w_results D) i = Some x" for x
  proof (cases "\<exists>x'. RResult i x' \<in> set rows")
    case True
    then obtain x' where "RResult i x' \<in> set rows" by blast
    from results.get_written[OF this, of u] results_okD(3)[OF parts(2) _ x result_invD(2)[OF D x]]
    show ?thesis by auto
  next
    case False
    then show ?thesis using results.get_other[of i rows u] x eq by simp
  qed
  show "\<exists>g'. om_get (w_groups ?T) i = Some g' \<and> wg_dictionary_revision g \<le> wg_dictionary_revision g'"
    if g: "om_get (w_groups D) i = Some g" for g
  proof (cases "\<exists>g'. RGroup i g' \<in> set rows")
    case True
    then obtain g' where "RGroup i g' \<in> set rows" by blast
    from groups.get_written[OF this, of u] groups_okD(2)[OF parts(3) _ g] show ?thesis by blast
  next
    case False
    then show ?thesis using groups.get_other[of i rows u] g eq by simp
  qed
  show "om_get (w_tasks ?T) i = Some k" if k: "om_get (w_tasks D) i = Some k" for k
  proof -
    have "RTask i t \<notin> set rows" for t
      using tasks_okD(2)[OF parts(4)] task_invD(2)[OF D k] unfolding fresh_id_def by blast
    then show ?thesis using tasks.get_other[of i rows u] k eq by simp
  qed
  show "\<exists>c'. om_get (w_clients ?T) i = Some c' \<and> same_client c c'" if c: "om_get (w_clients D) i = Some c" for c
  proof (cases "\<exists>c'. RClient i c' \<in> set rows")
    case True
    then obtain c' where "RClient i c' \<in> set rows" by blast
    from clients.get_written[OF this, of u] others_okD(5)[OF parts(5) _ c] show ?thesis by blast
  next
    case False
    then show ?thesis using clients.get_other[of i rows u] c eq by (simp add: same_client_def)
  qed
  show "(\<exists>c. om_get (w_consents D) i = Some c \<and> consent_grows c c') \<or> \<not> issued S (w_issued D) (cc_id c')"
    if "om_get (w_consents ?T) i = Some c'" for c'
    using that
    by (cases rule: consents.get_cases)
      (use others_okD(2)[OF parts(5)] in \<open>auto simp: eq consent_grows_def\<close>)
qed

lemma batch_step:
  assumes "ws_inv S D" and "same D u" and "batch_ok S D (w_issued u) (set rows)"
  shows "ws_inv S (fold apply_row rows u)" "evolves S D (fold apply_row rows u)"
  using batch_material_inv[OF assms] batch_result_inv[OF assms] batch_task_inv[OF assms]
    batch_other_inv[OF assms] batch_evolves[OF assms]
  by (simp_all add: ws_inv_def)

end
