(* ===== verification/Handlers.thy ===== *)
theory Handlers imports Lifecycle begin

text \<open>
  Every handler of the service is an evolution that keeps the invariant. \<open>reads\<close> is the triple of
  a sequence of reads over a fixed content of the store; \<open>guar\<close> is the triple of a body that
  reads and then writes one batch; \<open>safe\<close> is what composes across bodies and interleavings.
\<close>

section \<open>Triples\<close>

definition reads :: "ws \<Rightarrow> nat \<Rightarrow> 'a wop \<Rightarrow> ('a \<Rightarrow> nat \<Rightarrow> bool) \<Rightarrow> bool" where
  "reads D n m Q \<longleftrightarrow> (\<forall>u. same D u \<longrightarrow> n \<le> w_issued u \<longrightarrow>
     same D (snd (m u)) \<and> n \<le> w_issued (snd (m u)) \<and> (\<forall>a. fst (m u) = Inr a \<longrightarrow> Q a (w_issued (snd (m u)))))"

definition settled :: "service \<Rightarrow> ws \<Rightarrow> ws \<Rightarrow> bool" where
  "settled S w t \<longleftrightarrow> ws_inv S t \<and> evolves S w t"

definition guar :: "service \<Rightarrow> ws \<Rightarrow> nat \<Rightarrow> 'a wop \<Rightarrow> bool" where
  "guar S D n m \<longleftrightarrow> (\<forall>u. same D u \<longrightarrow> n \<le> w_issued u \<longrightarrow> settled S D (snd (m u)))"

definition safe :: "service \<Rightarrow> 'a wop \<Rightarrow> bool" where
  "safe S m \<longleftrightarrow> (\<forall>w. ws_inv S w \<longrightarrow> settled S w (snd (m w)))"

named_theorems reads_intros \<open>rules of the reading triple\<close>
named_theorems safe_intros \<open>rules of safe operations\<close>

lemma settled_same: "ws_inv S D \<Longrightarrow> same D u \<Longrightarrow> settled S D u"
  by (simp add: settled_def same_ws_inv same_evolves)

lemma settled_trans: "settled S w u \<Longrightarrow> settled S u t \<Longrightarrow> settled S w t"
  by (auto simp: settled_def intro: evolves_trans)

lemma safeD: "safe S m \<Longrightarrow> ws_inv S w \<Longrightarrow> m w = (r, t) \<Longrightarrow> ws_inv S t \<and> evolves S w t"
  by (metis safe_def settled_def snd_conv)

lemma readsI:
  assumes "\<And>u. same D u \<Longrightarrow> n \<le> w_issued u \<Longrightarrow>
     same D (snd (m u)) \<and> n \<le> w_issued (snd (m u)) \<and> (\<forall>a. fst (m u) = Inr a \<longrightarrow> Q a (w_issued (snd (m u))))"
  shows "reads D n m Q"
  using assms by (simp add: reads_def)

lemma readsD:
  assumes "reads D n m Q" "same D u" "n \<le> w_issued u" "m u = (r, t)"
  shows "same D t" "n \<le> w_issued t" "r = Inr a \<Longrightarrow> Q a (w_issued t)"
proof -
  from assms(1-3) have "same D (snd (m u)) \<and> n \<le> w_issued (snd (m u))
      \<and> (\<forall>a. fst (m u) = Inr a \<longrightarrow> Q a (w_issued (snd (m u))))"
    unfolding reads_def by blast
  with assms(4) show "same D t" "n \<le> w_issued t" "r = Inr a \<Longrightarrow> Q a (w_issued t)" by simp_all
qed

lemma reads_weaken: "reads D n m Q \<Longrightarrow> (\<And>a k. n \<le> k \<Longrightarrow> Q a k \<Longrightarrow> R a k) \<Longrightarrow> reads D n m R"
  unfolding reads_def by blast

lemma reads_bind [reads_intros]:
  assumes m: "reads D n m Q" and f: "\<And>a k. n \<le> k \<Longrightarrow> Q a k \<Longrightarrow> reads D k (f a) R"
  shows "reads D n (op_bind m f) R"
proof (rule readsI)
  fix u assume u: "same D u" "n \<le> w_issued u"
  obtain r t where mu: "m u = (r, t)" by fastforce
  note t = readsD[OF m u mu]
  show "same D (snd (op_bind m f u)) \<and> n \<le> w_issued (snd (op_bind m f u)) \<and>
      (\<forall>a. fst (op_bind m f u) = Inr a \<longrightarrow> R a (w_issued (snd (op_bind m f u))))"
  proof (cases r)
    case (Inl e)
    then show ?thesis using mu t by (simp add: op_bind_run)
  next
    case (Inr a)
    obtain r' t' where fa: "f a t = (r', t')" by fastforce
    note t' = readsD[OF f[OF t(2) t(3)[OF Inr]] t(1) order_refl fa]
    show ?thesis using mu Inr fa t' t(2) by (simp add: op_bind_run)
  qed
qed

lemma guar_bind:
  assumes D: "ws_inv S D" and m: "reads D n m Q" and f: "\<And>a k. n \<le> k \<Longrightarrow> Q a k \<Longrightarrow> guar S D k (f a)"
  shows "guar S D n (op_bind m f)"
  unfolding guar_def
proof (intro allI impI)
  fix u assume u: "same D u" "n \<le> w_issued u"
  obtain r t where mu: "m u = (r, t)" by fastforce
  note t = readsD[OF m u mu]
  show "settled S D (snd (op_bind m f u))"
  proof (cases r)
    case (Inl e)
    then show ?thesis using mu settled_same[OF D t(1)] by (simp add: op_bind_run)
  next
    case (Inr a)
    have "settled S D (snd (f a t))" using f[OF t(2) t(3)[OF Inr]] t(1) by (simp add: guar_def)
    then show ?thesis using mu Inr by (simp add: op_bind_run)
  qed
qed

lemma guar_reads: "ws_inv S D \<Longrightarrow> reads D n m Q \<Longrightarrow> guar S D n m"
  unfolding guar_def reads_def by (blast intro: settled_same)

lemma guar_then:
  assumes m: "guar S D n m" and f: "\<And>a. safe S (f a)"
  shows "guar S D n (op_bind m f)"
  unfolding guar_def
proof (intro allI impI)
  fix u assume u: "same D u" "n \<le> w_issued u"
  obtain r t where mu: "m u = (r, t)" by fastforce
  have t: "settled S D t" using m u mu unfolding guar_def by (metis snd_conv)
  show "settled S D (snd (op_bind m f u))"
  proof (cases r)
    case (Inr a)
    have "settled S t (snd (f a t))" using f t unfolding safe_def settled_def by blast
    then show ?thesis using mu Inr settled_trans[OF t] by (simp add: op_bind_run)
  qed (use mu t in \<open>simp add: op_bind_run\<close>)
qed

lemma safeI: "(\<And>D. ws_inv S D \<Longrightarrow> guar S D 0 m) \<Longrightarrow> safe S m"
  unfolding safe_def guar_def by (metis same_refl le0)

lemma safe_guar:
  assumes "safe S m" and D: "ws_inv S D"
  shows "guar S D n m"
  unfolding guar_def
proof (intro allI impI)
  fix u assume u: "same D u"
  then have "settled S u (snd (m u))" using assms same_ws_inv unfolding safe_def by blast
  then show "settled S D (snd (m u))" using settled_same[OF D u] settled_trans by blast
qed

lemma safe_reads: "(\<And>D. ws_inv S D \<Longrightarrow> reads D 0 m (Q D)) \<Longrightarrow> safe S m"
  by (rule safeI) (rule guar_reads)

lemma safe_bind [safe_intros]:
  assumes "safe S m" and "\<And>a. safe S (f a)"
  shows "safe S (op_bind m f)"
  by (rule safeI) (intro guar_then safe_guar assms)

lemma safe_basic [safe_intros, simp]:
  "safe S (op_return a)" "safe S (op_fail e)" "safe S (op_lift r)" "safe S (op_get g)"
  by (simp_all add: safe_def settled_def)

lemma safe_attempt [safe_intros]: "safe S m \<Longrightarrow> safe S (op_attempt m)"
  by (simp add: safe_def op_attempt_def case_prod_beta)

lemma safe_map_err [safe_intros]: "safe S m \<Longrightarrow> safe S (op_map_err g m)"
  by (simp add: safe_def op_map_err_def case_prod_beta)

lemma safe_each [safe_intros]: "(\<And>x. x \<in> set xs \<Longrightarrow> safe S (f x)) \<Longrightarrow> safe S (op_each f xs)"
  by (induction xs) (auto intro!: safe_bind)

lemma safe_if [safe_intros]: "(b \<Longrightarrow> safe S m) \<Longrightarrow> (\<not> b \<Longrightarrow> safe S n) \<Longrightarrow> safe S (if b then m else n)"
  by simp

lemma safe_option [safe_intros]:
  "(x = None \<Longrightarrow> safe S m) \<Longrightarrow> (\<And>a. x = Some a \<Longrightarrow> safe S (f a)) \<Longrightarrow>
    safe S (case x of None \<Rightarrow> m | Some a \<Rightarrow> f a)"
  by (cases x) auto

lemma safe_sum [safe_intros]:
  "(\<And>a. x = Inl a \<Longrightarrow> safe S (f a)) \<Longrightarrow> (\<And>b. x = Inr b \<Longrightarrow> safe S (g b)) \<Longrightarrow>
    safe S (case x of Inl a \<Rightarrow> f a | Inr b \<Rightarrow> g b)"
  by (cases x) auto

lemma safe_prod [safe_intros]: "(\<And>a b. x = (a, b) \<Longrightarrow> safe S (f a b)) \<Longrightarrow> safe S (case x of (a, b) \<Rightarrow> f a b)"
  by (cases x) auto

lemma safe_let [safe_intros]: "safe S (f x) \<Longrightarrow> safe S (let y = x in f y)"
  by simp

section \<open>Reads\<close>

definition table_only :: "(ws \<Rightarrow> 'a) \<Rightarrow> bool" where
  "table_only f \<longleftrightarrow> (\<forall>w t. same w t \<longrightarrow> f t = f w)"

lemma table_only_tables [simp]:
  "table_only w_groups" "table_only w_materials" "table_only w_tasks" "table_only w_results" "table_only w_consents"
  "table_only w_providers" "table_only w_clients" "table_only w_stages" "table_only w_sources" "table_only w_now"
  by (simp_all add: table_only_def same_def)

lemma io_cases:
  obtains e where "io w = (Inl e, w\<lparr>w_outcomes := tl (w_outcomes w)\<rparr>)" "hd (w_outcomes w) = Some e"
  | "io w = (Inr (), w\<lparr>w_outcomes := tl (w_outcomes w)\<rparr>)"
proof (cases "w_outcomes w")
  case Nil
  then have "io w = (Inr (), w\<lparr>w_outcomes := tl (w_outcomes w)\<rparr>)" by (simp add: io_def)
  then show thesis by (rule that(2))
next
  case (Cons x xs)
  show thesis by (cases x) (use Cons that in \<open>auto simp: io_def\<close>)
qed

lemma same_outcomes [simp]: "same D (u\<lparr>w_outcomes := xs\<rparr>) = same D u"
  "same D (u\<lparr>w_fired := ys\<rparr>) = same D u" "same D (u\<lparr>w_cancellations := cs\<rparr>) = same D u"
  "same D (u\<lparr>w_next_token := k\<rparr>) = same D u" "same D (u\<lparr>w_chats := zs\<rparr>) = same D u"
  by (simp_all add: same_def)

lemma reads_return [reads_intros]: "reads D n (op_return a) (\<lambda>b k. b = a)"
  by (simp add: reads_def)

lemma reads_fail [reads_intros]: "reads D n (op_fail e) Q"
  by (simp add: reads_def)

lemma reads_lift [reads_intros]: "reads D n (op_lift r) (\<lambda>a k. r = Inr a)"
  by (simp add: reads_def)

lemma reads_get [reads_intros]: "table_only f \<Longrightarrow> reads D n (op_get f) (\<lambda>a k. a = f D)"
  by (simp add: reads_def table_only_def)

lemma reads_io [reads_intros]: "reads D n io (\<lambda>_ _. True)"
  by (rule readsI) (rule_tac w = u in io_cases; simp)

lemma reads_lock [reads_intros]: "reads D n lock (\<lambda>_ _. True)"
  unfolding lock_def by (rule reads_io)

lemma reads_require [reads_intros]: "reads D n (require b e) (\<lambda>_ _. b)"
  unfolding require_def ensure_def by (rule reads_weaken, rule reads_lift) (simp split: if_splits)

lemma reads_now [reads_intros]: "reads D n now (\<lambda>time k. time = w_now D)"
  unfolding now_def by (intro reads_get) simp

lemma reads_maybe [reads_intros]: "table_only table \<Longrightarrow> reads D n (fetch_maybe table i) (\<lambda>x k. x = om_get (table D) i)"
  unfolding fetch_maybe_def by (rule reads_bind[OF reads_io]) (rule reads_get, simp add: table_only_def)

lemma reads_fetch [reads_intros]: "table_only table \<Longrightarrow> reads D n (fetch table i) (\<lambda>x k. om_get (table D) i = Some x)"
  unfolding fetch_def
  by (rule reads_bind[OF reads_io], rule reads_bind[OF reads_get], simp add: table_only_def)
    (rule reads_weaken[OF reads_lift], simp add: ok_or_def split: option.splits)

lemma reads_fetch_all [reads_intros]: "table_only table \<Longrightarrow> reads D n (fetch_all table) (\<lambda>xs k. xs = om_values (table D))"
  unfolding fetch_all_def by (rule reads_bind[OF reads_io]) (rule reads_get, simp add: table_only_def)

lemma reads_material [reads_intros]: "reads D n (material i) (\<lambda>m k. om_get (w_materials D) i = Some m)"
  unfolding material_def by (rule reads_fetch) simp

lemma reads_encode [reads_intros]: "reads D n (encode r) (\<lambda>x k. x = r)"
  unfolding encode_def by (rule reads_bind[OF reads_io]) (rule reads_return)

lemma reads_new_id [reads_intros]:
  "service_ok S \<Longrightarrow> reads D n (new_id S p) (\<lambda>i k. fresh_id S D k i)"
  unfolding reads_def new_id_def
  by (auto simp: op_bind_run same_def fresh_id_def issued_fresh[of S _ _ p, simplified] issued_now[of S _ p, simplified])

lemma reads_attempt [reads_intros]:
  assumes "reads D n m Q"
  shows "reads D n (op_attempt m) (\<lambda>r k. \<forall>a. r = Inr a \<longrightarrow> Q a k)"
  using assms unfolding reads_def op_attempt_def by (simp add: case_prod_beta)

lemma reads_map_err [reads_intros]:
  assumes "reads D n m Q"
  shows "reads D n (op_map_err g m) Q"
  using assms unfolding reads_def op_map_err_def map_err_def
  by (simp add: case_prod_beta split: sum.splits)

lemma reads_if [reads_intros]:
  "(b \<Longrightarrow> reads D n m Q) \<Longrightarrow> (\<not> b \<Longrightarrow> reads D n m' R) \<Longrightarrow>
    reads D n (if b then m else m') (\<lambda>a k. (b \<longrightarrow> Q a k) \<and> (\<not> b \<longrightarrow> R a k))"
  by simp

lemma reads_option [reads_intros]:
  "(x = None \<Longrightarrow> reads D n m Q) \<Longrightarrow> (\<And>y. x = Some y \<Longrightarrow> reads D n (f y) (R y)) \<Longrightarrow>
    reads D n (case x of None \<Rightarrow> m | Some y \<Rightarrow> f y) (\<lambda>a k. (x = None \<longrightarrow> Q a k) \<and> (\<forall>y. x = Some y \<longrightarrow> R y a k))"
  by (cases x) auto

lemma reads_cancel [reads_intros]:
  "reads D n (cancel_cloud_task i) (\<lambda>_ _. True)" "reads D n cancel_active_chats (\<lambda>_ _. True)"
proof -
  have fire: "same D u \<Longrightarrow> same D (fire_task i u)" "w_issued (fire_task i u) = w_issued u" for u
    by (simp_all add: fire_task_def split: option.split)
  show "reads D n (cancel_cloud_task i) (\<lambda>_ _. True)"
    unfolding cancel_cloud_task_def by (rule reads_bind[OF reads_io]) (simp add: reads_def fire)
  show "reads D n cancel_active_chats (\<lambda>_ _. True)"
    unfolding cancel_active_chats_def by (rule reads_bind[OF reads_io]) (simp add: reads_def)
qed

lemma reads_map [reads_intros]:
  assumes f: "\<And>x k. x \<in> set xs \<Longrightarrow> n \<le> k \<Longrightarrow> reads D k (f x) (P x)"
    and mono: "\<And>x y k k'. P x y k \<Longrightarrow> k \<le> k' \<Longrightarrow> P x y k'"
  shows "reads D n (op_map f xs) (\<lambda>ys k. list_all2 (\<lambda>x y. P x y k) xs ys)"
  using f
proof (induction xs arbitrary: n)
  case Nil
  then show ?case by (simp add: reads_def)
next
  case (Cons x xs)
  show ?case unfolding op_map.simps
  proof (rule reads_bind)
    show "reads D n (f x) (P x)" using Cons.prems by simp
    fix y k assume k: "n \<le> k" and y: "P x y k"
    show "reads D k (op_bind (op_map f xs) (\<lambda>ys. op_return (y # ys)))
        (\<lambda>ys k. list_all2 (\<lambda>x y. P x y k) (x # xs) ys)"
    proof (rule reads_bind)
      show "reads D k (op_map f xs) (\<lambda>ys k. list_all2 (\<lambda>x y. P x y k) xs ys)"
        by (rule Cons.IH) (use Cons.prems k in auto)
      fix ys k' assume k': "k \<le> k'" and ys: "list_all2 (\<lambda>x y. P x y k') xs ys"
      have P: "P x y j" if "k' \<le> j" for j using mono[OF y] k' that by simp
      have "list_all2 (\<lambda>x y. P x y j) xs ys" if "k' \<le> j" for j
        using ys by (rule list_all2_mono) (rule mono[OF _ that])
      with P show "reads D k' (op_return (y # ys)) (\<lambda>ys k. list_all2 (\<lambda>x y. P x y k) (x # xs) ys)"
        by (simp add: reads_def)
    qed
  qed
qed

end
