(* ===== verification/Operations.thy ===== *)
theory Operations imports Handlers begin

text \<open>
  The handlers and the sections of the worker, one safety lemma each. Most write a batch that
  detaches materials from their results; \<open>detach\_batch\<close> is what such a batch must satisfy. The
  worker's sections compare the claim with the stored row first, so a stale claim writes nothing.
\<close>

section \<open>Batches that detach results\<close>

definition revocation :: "ws \<Rightarrow> string option \<Rightarrow> row list" where
  "revocation D rid = (case rid of None \<Rightarrow> []
     | Some i \<Rightarrow> [RResult i ((the (om_get (w_results D) i))\<lparr>rr_revoked := True\<rparr>)])"

lemma revocation_simps [simp]:
  "revocation D None = []"
  "revocation D (Some i) = [RResult i ((the (om_get (w_results D) i))\<lparr>rr_revoked := True\<rparr>)]"
  by (simp_all add: revocation_def)

lemma revocation_rows [simp]:
  "RMaterial i m \<notin> set (revocation D rid)" "RGroup i g \<notin> set (revocation D rid)"
  "RTask i t \<notin> set (revocation D rid)" "RConsent i c \<notin> set (revocation D rid)"
  "RClient i d \<notin> set (revocation D rid)" "RStage i s \<notin> set (revocation D rid)"
  by (auto simp: revocation_def split: option.splits)

lemma reads_revoke_rows [reads_intros]:
  "reads D n (revoke_rows rid) (\<lambda>rows k. rows = revocation D rid)"
  unfolding revoke_rows_at_def
  by (cases rid, simp add: reads_def)
    (simp, rule reads_bind[OF reads_fetch], simp, rule reads_bind[OF reads_encode],
      rule reads_weaken[OF reads_return], simp)

lemma reads_revoke_rows_id:
  assumes "ws_inv S D"
  shows "reads D n (revoke_rows_at (\<lambda>_. rr_id) rid) (\<lambda>rows k. rows = revocation D rid)"
  unfolding revoke_rows_at_def
  by (cases rid, simp add: reads_def)
    (simp, rule reads_bind[OF reads_fetch], simp, rule reads_bind[OF reads_encode],
      rule reads_weaken[OF reads_return],
      use result_invD(1)[OF assms] in \<open>simp add: sound_result_def\<close>)

definition detached :: "ws \<Rightarrow> (material \<Rightarrow> material) \<Rightarrow> material set \<Rightarrow> row set" where
  "detached D upd M = (\<Union>m\<in>M. insert (RMaterial (m_id m) (upd m)) (set (revocation D (m_result_id m))))"

definition detaches :: "ws \<Rightarrow> (material \<Rightarrow> material) \<Rightarrow> material set \<Rightarrow> bool" where
  "detaches D upd M \<longleftrightarrow>
     (\<forall>m\<in>M. om_get (w_materials D) (m_id m) = Some m \<and> follows m (upd m) \<and> m_result_id (upd m) = None)"

text \<open>The rows of a batch that are neither materials nor results nor tasks.\<close>

definition is_side_row :: "row \<Rightarrow> bool" where
  "is_side_row r \<longleftrightarrow> (case r of RGroup _ _ \<Rightarrow> True | RConsent _ _ \<Rightarrow> True | RClient _ _ \<Rightarrow> True
     | RStage _ _ \<Rightarrow> True | RSource _ _ \<Rightarrow> True | _ \<Rightarrow> False)"

lemma detached_rows:
  "RMaterial i m' \<in> detached D upd M \<longleftrightarrow> (\<exists>m\<in>M. i = m_id m \<and> m' = upd m)"
  "RResult r x \<in> detached D upd M \<longleftrightarrow> (\<exists>m\<in>M. m_result_id m = Some r
     \<and> x = (the (om_get (w_results D) r))\<lparr>rr_revoked := True\<rparr>)"
  "RGroup i g \<notin> detached D upd M" "RTask i t \<notin> detached D upd M" "RConsent i c \<notin> detached D upd M"
  "RClient i d \<notin> detached D upd M" "RStage i s \<notin> detached D upd M" "RSource i b \<notin> detached D upd M"
  by (auto simp: detached_def revocation_def split: option.splits) metis

lemma result_analysis_revoked [simp]: "result_analysis (x\<lparr>rr_revoked := b\<rparr>) = result_analysis x"
  by (simp add: result_analysis_def)

lemma sound_revoked: "sound_result S r x \<Longrightarrow> sound_result S r (x\<lparr>rr_revoked := True\<rparr>)"
  by (simp add: sound_result_def)

lemma detach_batch:
  assumes D: "ws_inv S D" and M: "detaches D upd M" and X: "\<And>r. r \<in> X \<Longrightarrow> is_side_row r"
    and groups: "groups_ok S D k (detached D upd M \<union> X)" and others: "others_ok S D k X"
  shows "batch_ok S D k (detached D upd M \<union> X)"
proof -
  let ?R = "detached D upd M \<union> X"
  have X': "RMaterial i m \<notin> X" "RResult r x \<notin> X" "RTask i t \<notin> X" for i m r x t
    using X[of "RMaterial i m"] X[of "RResult r x"] X[of "RTask i t"] by (auto simp: is_side_row_def)
  have same: "m = m'" if "m \<in> M" "m' \<in> M" "m_id m = m_id m'" for m m'
    using that M unfolding detaches_def by (metis option.inject)
  have old: "m = m'" if "m \<in> M" "om_get (w_materials D) (m_id m) = Some m'" for m m'
    using that M unfolding detaches_def by auto
  have "materials_ok S D k ?R"
    unfolding materials_ok_def
  proof (intro allI impI)
    fix i m assume "RMaterial i m \<in> ?R"
    then obtain o' where o': "o' \<in> M" "i = m_id o'" "m = upd o'" by (auto simp: detached_rows X')
    then have get: "om_get (w_materials D) i = Some o'" and fol: "follows o' m" and no: "m_result_id m = None"
      using M by (auto simp: detaches_def)
    have res: "\<exists>x. RResult r x \<in> ?R" if "m_result_id o' = Some r" for r
      using o'(1) that by (auto simp: detached_rows)
    have uniq: "m' = m" if "RMaterial i m' \<in> ?R" for m'
      using that o' same by (auto simp: detached_rows X')
    from get fol no res uniq o' show "m_id m = i
     \<and> (case om_get (w_materials D) i of
          None \<Rightarrow> fresh_id S D k i
        | Some old \<Rightarrow> follows old m \<and> (\<forall>r. m_result_id old = Some r \<longrightarrow> (\<exists>x. RResult r x \<in> ?R)))
     \<and> (\<forall>r. m_result_id m = Some r \<longrightarrow> (\<exists>x. RResult r x \<in> ?R \<and> live S D m x) \<and> (\<forall>g. RGroup (m_group_id m) g \<notin> ?R))
     \<and> (\<forall>m'. RMaterial i m' \<in> ?R \<longrightarrow> m' = m)"
      by (simp add: follows_def)
  qed
  moreover have "results_ok S D k ?R"
    unfolding results_ok_def
  proof (intro allI impI)
    fix r x assume "RResult r x \<in> ?R"
    then obtain o' where o': "o' \<in> M" "m_result_id o' = Some r"
      "x = (the (om_get (w_results D) r))\<lparr>rr_revoked := True\<rparr>" by (auto simp: detached_rows X')
    then have get: "om_get (w_materials D) (m_id o') = Some o'" using M by (auto simp: detaches_def)
    obtain y where y: "om_get (w_results D) r = Some y" "live S D o' y"
      using material_invD(3)[OF D get o'(2)] by (auto simp: current_def)
    have x: "x = y\<lparr>rr_revoked := True\<rparr>" using o'(3) y(1) by simp
    have "\<exists>m. RMaterial i m \<in> ?R" if i: "om_get (w_materials D) i = Some old" "m_result_id old = Some r" for i old
    proof -
      obtain z where "om_get (w_results D) r = Some z" "rr_material_id z = m_id old"
        using material_invD(3)[OF D i] by (auto simp: current_def live_def)
      then have "m_id old = m_id o'" using y by (auto simp: live_def)
      then have "i = m_id o'" using material_invD(1)[OF D i(1)] by simp
      then show ?thesis using o'(1) by (auto simp: detached_rows)
    qed
    moreover have "x' = x" if "RResult r x' \<in> ?R" for x'
      using that o'(3) by (auto simp: detached_rows X')
    ultimately show "sound_result S r x \<and> (\<forall>x'. RResult r x' \<in> ?R \<longrightarrow> x' = x)
     \<and> ((rr_revoked x \<and> (\<exists>y. om_get (w_results D) r = Some y \<and> x = y\<lparr>rr_revoked := True\<rparr>)
          \<and> (\<forall>i old. om_get (w_materials D) i = Some old \<and> m_result_id old = Some r \<longrightarrow> (\<exists>m. RMaterial i m \<in> ?R)))
        \<or> (fresh_id S D k r \<and> \<not> rr_revoked x
          \<and> (\<exists>m. RMaterial (rr_material_id x) m \<in> ?R \<and> m_result_id m = Some r)))"
      using x y(1) sound_revoked[OF result_invD(1)[OF D y(1)]] by simp
  qed
  moreover have "tasks_ok S D k ?R" by (simp add: tasks_ok_def detached_rows X')
  moreover have "others_ok S D k ?R" using others by (simp add: others_ok_def detached_rows)
  ultimately show ?thesis using groups by (simp add: batch_ok_def)
qed

lemma guar_put:
  assumes D: "ws_inv S D" and ok: "\<And>k. n \<le> k \<Longrightarrow> batch_ok S D k (set rows)"
  shows "guar S D n (put_rows rows)"
  unfolding guar_def
proof (intro allI impI)
  fix u assume u: "same D u" "n \<le> w_issued u"
  have v: "same D (u\<lparr>w_outcomes := tl (w_outcomes u)\<rparr>)" using u by simp
  have "batch_ok S D (w_issued (u\<lparr>w_outcomes := tl (w_outcomes u)\<rparr>)) (set rows)" using ok u by simp
  note step = batch_step[OF D v this]
  show "settled S D (snd (put_rows rows u))"
  proof (cases rule: io_cases[of u])
    case (1 e)
    then show ?thesis using settled_same[OF D v] by (simp add: put_rows_def op_bind_run)
  next
    case 2
    then show ?thesis using step by (simp add: put_rows_def op_bind_run settled_def)
  qed
qed

lemma guar_save:
  assumes D: "ws_inv S D" and ok: "\<And>k. n \<le> k \<Longrightarrow> batch_ok S D k {r}"
  shows "guar S D n (save_row r)"
  unfolding save_row_def
  by (rule guar_bind[OF D reads_encode], rule guar_put[OF D]) (use ok in auto)

lemma guar_detach:
  assumes D: "ws_inv S D" and M: "detaches D upd M" and X: "\<And>r. r \<in> X \<Longrightarrow> is_side_row r"
    and groups: "\<And>k. n \<le> k \<Longrightarrow> groups_ok S D k (detached D upd M \<union> X)"
    and others: "\<And>k. n \<le> k \<Longrightarrow> others_ok S D k X"
    and rows: "set rows = detached D upd M \<union> X"
  shows "guar S D n (put_rows rows)"
  by (rule guar_put[OF D]) (simp add: rows detach_batch[OF D M X groups others])

text \<open>The common case: nothing but materials, their revoked results and sources.\<close>

lemma side_free:
  assumes "\<And>r. r \<in> X \<Longrightarrow> \<exists>i b. r = RSource i b"
  shows "groups_ok S D k (detached D upd M \<union> X)" "others_ok S D k X" "r \<in> X \<Longrightarrow> is_side_row r"
  using assms by (fastforce simp: groups_ok_def others_ok_def detached_rows is_side_row_def)+

lemma guar_detach_only:
  assumes D: "ws_inv S D" and M: "detaches D upd M" and X: "\<And>r. r \<in> X \<Longrightarrow> \<exists>i b. r = RSource i b"
    and rows: "set rows = detached D upd M \<union> X"
  shows "guar S D n (put_rows rows)"
  by (rule guar_detach[OF D M side_free(3)[OF X] side_free(1)[OF X] side_free(2)[OF X] rows])

section \<open>Reading operations\<close>

lemma safe_leaves [safe_intros]:
  "safe S io" "safe S lock" "safe S (require b e)" "safe S now"
  "table_only table \<Longrightarrow> safe S (fetch table i)" "table_only table \<Longrightarrow> safe S (fetch_maybe table i)"
  "table_only table' \<Longrightarrow> safe S (fetch_all table')" "safe S (material i)" "safe S (encode r)"
  "safe S (cancel_cloud_task i)" "safe S cancel_active_chats"
  by (rule safe_reads, (rule reads_intros; assumption?))+

lemma safe_map [safe_intros]: "(\<And>x. x \<in> set xs \<Longrightarrow> safe S (f x)) \<Longrightarrow> safe S (op_map f xs)"
  by (induction xs) (auto intro!: safe_bind)

lemma safe_display [safe_intros]: "safe S (display_material m)"
  unfolding display_material_def Let_def by (intro safe_intros table_only_tables)

lemma safe_progress [safe_intros]: "safe S (material_progress m)"
  unfolding material_progress_def by (intro safe_intros table_only_tables)

lemma safe_task_status [safe_intros]: "safe S (task_status i)"
  unfolding task_status_def by (intro safe_intros table_only_tables)

lemma safe_read_result_locked [safe_intros]: "safe S (read_result_locked S' i)"
  unfolding read_result_locked_def by (intro safe_intros table_only_tables)

lemma safe_read_result [safe_intros]: "safe S (read_result S' i)"
  unfolding read_result_def by (intro safe_intros)

lemma safe_export_result [safe_intros]: "safe S (export_result S' package extract i f)"
  unfolding export_result_def by (intro safe_intros)

lemma safe_dictionary [safe_intros]: "safe S (dictionary i)"
  unfolding dictionary_def by (intro safe_intros table_only_tables)

lemma safe_authenticate [safe_intros]: "safe S (authenticate_client S' token)"
  unfolding authenticate_client_def by (intro safe_intros table_only_tables)

lemma safe_clients [safe_intros]: "safe S clients"
  unfolding clients_def by (intro safe_intros table_only_tables)

lemma safe_mcp_status [safe_intros]: "safe S (mcp_status S' token i)"
  unfolding mcp_status_def by (intro safe_intros table_only_tables)

lemma safe_mcp_read [safe_intros]: "safe S (mcp_read S' token i cursor)"
  unfolding mcp_read_def by (intro safe_intros)

lemma safe_batch_entries [safe_intros]: "safe S (batch_entries S' W format n ids)"
  by (induction ids arbitrary: n) (simp, simp only: batch_entries.simps batch_text_def Let_def, intro safe_intros)

lemma safe_export_batch [safe_intros]: "safe S (export_batch S' W ids format)"
  unfolding export_batch_def by (intro safe_intros)

lemma safe_check_client [safe_intros]: "safe S (check_client g c)"
  unfolding check_client_def by (intro safe_intros table_only_tables)

lemma safe_any_running [safe_intros]: "safe S (any_running ids)"
proof (induction ids)
  case (Cons i ids)
  show ?case unfolding any_running.simps by (intro safe_intros Cons.IH table_only_tables)
qed (unfold any_running.simps, intro safe_intros)

lemma safe_recheck_locked [safe_intros]: "safe S (recheck_cloud_locked S' m c p)"
  unfolding recheck_cloud_locked_def by (intro safe_intros table_only_tables)

lemma safe_recheck [safe_intros]: "safe S (recheck_cloud S' m c p)"
  unfolding recheck_cloud_def by (intro safe_intros)

lemma safe_is_cancelled [safe_intros]: "safe S (is_cancelled token)"
  unfolding is_cancelled_def by (intro safe_intros)

lemma safe_modify_volatile:
  assumes "\<And>w. same w (f w)"
  shows "safe S (op_modify f)"
  using assms settled_same unfolding safe_def by auto

lemma safe_new_cancellation [safe_intros]: "safe S (new_cancellation i)"
  unfolding new_cancellation_def
  by (intro safe_intros safe_modify_volatile) simp

lemma guar_read:
  "ws_inv S D \<Longrightarrow> reads D n m Q \<Longrightarrow> (\<And>a k. Q a k \<Longrightarrow> n \<le> k \<Longrightarrow> guar S D k (f a)) \<Longrightarrow> guar S D n (op_bind m f)"
  by (rule guar_bind)

lemma guar_skip: "ws_inv S D \<Longrightarrow> guar S D n (op_return a)"
  by (rule guar_reads) (assumption, rule reads_return)

section \<open>Handlers that detach results\<close>

lemma not_ready_no_result:
  assumes "ws_inv S D" and "om_get (w_materials D) i = Some m" and "m_status m \<noteq> ''ready''"
  shows "m_result_id m = None"
  using material_invD(3)[OF assms(1,2)] assms(3) by (cases "m_result_id m") (auto simp: current_def live_def)

lemma concat_detached:
  assumes "list_all2 (\<lambda>x ys. \<exists>M. set ys = detached D upd M \<and> C x M) xs yss"
  shows "\<exists>Ms. list_all2 C xs Ms \<and> set (concat yss) = detached D upd (\<Union>(set Ms))"
  using assms
proof (induction rule: list_all2_induct)
  case Nil
  then show ?case by (auto simp: detached_def)
next
  case (Cons x xs ys yss)
  then obtain M Ms where "set ys = detached D upd M" "C x M" "list_all2 C xs Ms"
    "set (concat yss) = detached D upd (\<Union>(set Ms))" by blast
  then have "list_all2 C (x # xs) (M # Ms) \<and> set (concat (ys # yss)) = detached D upd (\<Union>(set (M # Ms)))"
    by (auto simp: detached_def)
  then show ?case by blast
qed

lemma concat_detaches:
  assumes "list_all2 (\<lambda>x ys. \<exists>M. set ys = detached D upd M \<and> detaches D upd M) xs yss"
  shows "\<exists>M. detaches D upd M \<and> set (concat yss) = detached D upd M"
proof -
  from concat_detached[OF assms] obtain Ms where
    "list_all2 (\<lambda>_. detaches D upd) xs Ms" "set (concat yss) = detached D upd (\<Union>(set Ms))" by blast
  moreover from this(1) have "detaches D upd (\<Union>(set Ms))"
    by (induction rule: list_all2_induct) (auto simp: detaches_def)
  ultimately show ?thesis by blast
qed

lemma detached_one: "detached D upd {m} = insert (RMaterial (m_id m) (upd m)) (set (revocation D (m_result_id m)))"
  by (simp add: detached_def)

definition cancelled :: "material \<Rightarrow> material" where
  "cancelled m = m\<lparr>m_status := ''cancelled'', m_revision := m_revision m + 1, m_reason_code := Some ''cancelled''\<rparr>"

lemma reads_cancel_one:
  assumes D: "ws_inv S D"
  shows "reads D n (cancel_one mid)
    (\<lambda>rows _. \<exists>M. set rows = detached D cancelled M \<and> detaches D cancelled M)"
  unfolding cancel_one_def
proof (rule reads_bind[OF reads_material], rule reads_weaken, rule reads_if)
  fix m k
  show "reads D k (op_return []) (\<lambda>b _. b = [])" by (rule reads_return)
  show "reads D k (op_bind (encode (RMaterial mid (m\<lparr>m_status := ''cancelled'', m_revision := m_revision m + 1,
            m_reason_code := Some ''cancelled''\<rparr>))) (\<lambda>row. op_return [row]))
      (\<lambda>b _. b = [RMaterial mid (cancelled m)])"
    by (rule reads_bind[OF reads_encode]) (rule reads_weaken[OF reads_return], simp add: cancelled_def)
next
  fix m k a j
  assume m: "om_get (w_materials D) mid = Some m"
    and a: "(m_status m \<in> {''queued'', ''running'', ''awaiting_consent'', ''needs_review''} \<longrightarrow>
        a = [RMaterial mid (cancelled m)]) \<and>
      (m_status m \<notin> {''queued'', ''running'', ''awaiting_consent'', ''needs_review''} \<longrightarrow> a = [])"
  show "\<exists>M. set a = detached D cancelled M \<and> detaches D cancelled M"
  proof (cases "m_status m \<in> {''queued'', ''running'', ''awaiting_consent'', ''needs_review''}")
    case True
    then have "m_result_id m = None" using not_ready_no_result[OF D m] by auto
    then show ?thesis using True a m material_invD(1)[OF D m]
      by (intro exI[of _ "{m}"]) (simp add: detached_one detaches_def follows_def cancelled_def)
  next
    case False
    then show ?thesis using a by (intro exI[of _ "{}"]) (simp add: detached_def detaches_def)
  qed
qed

lemma guar_put_detached:
  assumes "ws_inv S D"
    and "list_all2 (\<lambda>x ys. \<exists>M. set ys = detached D upd M \<and> detaches D upd M) xs yss"
  shows "guar S D n (put_rows (concat yss))"
proof -
  obtain M where "detaches D upd M" "set (concat yss) = detached D upd M"
    using concat_detaches[OF assms(2)] by blast
  then show ?thesis by (intro guar_detach_only[OF assms(1), of upd M "{}"]) simp_all
qed

lemma safe_cancel_task [safe_intros]: "safe S (cancel_task i)"
proof (rule safeI)
  fix D assume D: "ws_inv S D"
  show "guar S D 0 (cancel_task i)" unfolding cancel_task_def
    apply (rule guar_read[OF D reads_lock])
    apply (rule guar_read[OF D reads_fetch], simp)
    apply (rule guar_read[OF D reads_cancel(1)])
    apply (rule guar_read[OF D reads_map[OF reads_cancel_one[OF D]]], assumption)
    apply (rule guar_then[OF guar_put_detached[OF D]], assumption)
    apply (rule safe_task_status)
    done
qed

definition requeue_retry :: "material \<Rightarrow> material" where
  "requeue_retry m = m\<lparr>m_result_id := None, m_status := ''queued'', m_reason_code := None,
     m_revision := m_revision m + 1, m_analysis := None, m_dismissed := []\<rparr>"

lemma detaches_one:
  assumes "ws_inv S D" and m: "om_get (w_materials D) i = Some m"
    and "follows m (upd m)" and "m_result_id (upd m) = None"
  shows "detaches D upd {m}"
  using assms material_invD(1)[OF assms(1) m] by (simp add: detaches_def)

lemma reads_retry_one:
  assumes D: "ws_inv S D"
  shows "reads D n (retry_one mid)
    (\<lambda>rows _. \<exists>M. set rows = detached D requeue_retry M \<and> detaches D requeue_retry M)"
  unfolding retry_one_def
proof (rule reads_bind[OF reads_material])
  fix m k assume m: "om_get (w_materials D) mid = Some m"
  have exp: "reads D j (has_expired m) (\<lambda>_ _. True)" for j
    unfolding has_expired_def
    by (cases "m_result_id m") (auto simp: reads_def[of _ _ "op_return _"]
        intro!: reads_bind[OF reads_attempt[OF reads_fetch], where R = "\<lambda>_ _. True"]
          reads_bind[OF reads_now, where R = "\<lambda>_ _. True"])
  show "reads D k (op_bind (has_expired m) (\<lambda>expired.
     if expired \<or> m_status m \<in> {''failed'', ''cancelled'', ''needs_review'', ''awaiting_consent''}
     then op_bind (revoke_rows (m_result_id m)) (\<lambda>rows.
       op_bind (encode (RMaterial mid (m\<lparr>m_result_id := None, m_status := ''queued'', m_reason_code := None,
            m_revision := m_revision m + 1, m_analysis := None, m_dismissed := []\<rparr>))) (\<lambda>row.
         op_return (rows @ [row])))
     else op_return []))
    (\<lambda>rows _. \<exists>M. set rows = detached D requeue_retry M \<and> detaches D requeue_retry M)"
  proof (rule reads_bind[OF exp], split if_split, intro conjI impI)
    fix j
    show "reads D j (op_bind (revoke_rows (m_result_id m)) (\<lambda>rows.
       op_bind (encode (RMaterial mid (m\<lparr>m_result_id := None, m_status := ''queued'', m_reason_code := None,
            m_revision := m_revision m + 1, m_analysis := None, m_dismissed := []\<rparr>))) (\<lambda>row.
         op_return (rows @ [row]))))
      (\<lambda>rows _. \<exists>M. set rows = detached D requeue_retry M \<and> detaches D requeue_retry M)"
      by (rule reads_bind[OF reads_revoke_rows], rule reads_bind[OF reads_encode], rule reads_weaken[OF reads_return],
          rule exI[of _ "{m}"])
        (simp add: detached_one material_invD(1)[OF D m] requeue_retry_def[of m],
          rule detaches_one[OF D m], simp_all add: requeue_retry_def follows_def)
    show "reads D j (op_return []) (\<lambda>rows _. \<exists>M. set rows = detached D requeue_retry M \<and> detaches D requeue_retry M)"
      by (rule reads_weaken[OF reads_return]) (auto simp: detached_def detaches_def intro: exI[of _ "{}"])
  qed
qed

text \<open>Deleting a consent is an evolution: every consent that stays is unchanged.\<close>

lemma safe_delete_consent [safe_intros]: "safe S (delete_consent i)"
proof -
  have "settled S w (w\<lparr>w_consents := om_remove i (w_consents w)\<rparr>)" if w: "ws_inv S w" for w
  proof -
    have "current S (w\<lparr>w_consents := om_remove i (w_consents w)\<rparr>) = current S w"
      by (intro ext) (simp add: current_def live_def)
    then have "ws_inv S (w\<lparr>w_consents := om_remove i (w_consents w)\<rparr>)"
      using w unfolding ws_inv_def material_inv_def result_inv_def task_inv_def other_inv_def by simp
    moreover have "evolves S w (w\<lparr>w_consents := om_remove i (w_consents w)\<rparr>)"
      by (auto simp: evolves_def same_client_def consent_grows_def)
    ultimately show ?thesis by (simp add: settled_def)
  qed
  then have "safe S (op_modify (\<lambda>w. w\<lparr>w_consents := om_remove i (w_consents w)\<rparr>))"
    by (simp add: safe_def)
  then show ?thesis unfolding delete_consent_def by (intro safe_intros)
qed

lemma safe_retry_task [safe_intros]: "safe S (retry_task i)"
proof -
  have tail: "safe S (op_bind (op_map retry_one ids) (\<lambda>rows. op_bind (put_rows (concat rows)) (\<lambda>_. task_status i)))" for ids
    by (rule safeI, rule guar_read, assumption, rule reads_map[OF reads_retry_one], assumption+)
      (rule guar_then[OF guar_put_detached safe_task_status])
  show ?thesis unfolding retry_task_def by (intro safe_intros table_only_tables tail)
qed

definition revoked_material :: "material \<Rightarrow> material" where
  "revoked_material m = m\<lparr>m_result_id := None, m_status := ''revoked'', m_revision := m_revision m + 1,
     m_reason_code := Some ''result_revoked''\<rparr>"

lemma guar_put_one:
  assumes D: "ws_inv S D" and m: "om_get (w_materials D) i = Some m"
    and "follows m m'" and "m_result_id m' = None"
    and X: "\<And>r. r \<in> X \<Longrightarrow> \<exists>j b. r = RSource j b"
    and rows: "set rows = insert (RMaterial i m') (set (revocation D (m_result_id m))) \<union> X"
  shows "guar S D n (put_rows rows)"
  by (rule guar_detach_only[OF D detaches_one[OF D m, of "\<lambda>_. m'"] X])
    (use assms material_invD(1)[OF D m] in \<open>simp_all add: detached_one\<close>)

lemma guar_put_source:
  assumes "ws_inv S D" and "om_get (w_materials D) i = Some m" and "follows m m'" and "m_result_id m' = None"
  shows "guar S D n (put_rows (RSource j b # revocation D (m_result_id m) @ [RMaterial i m']))"
  by (rule guar_put_one[OF assms, of "{RSource j b}"]) auto

text \<open>A material without a result is simply replaced.\<close>

lemma guar_save_material:
  assumes D: "ws_inv S D" and m: "om_get (w_materials D) i = Some m"
    and "m_status m \<noteq> ''ready''" and "follows m m'" and "m_result_id m' = None"
  shows "guar S D n (save_row (RMaterial i m'))"
  unfolding save_row_def
  by (rule guar_read[OF D reads_encode], rule guar_put_one[OF D m, of _ "{}"])
    (use assms not_ready_no_result[OF D m] in simp_all)

lemma safe_revoke_material [safe_intros]: "safe S (revoke_material i)"
proof (rule safeI)
  fix D assume D: "ws_inv S D"
  show "guar S D 0 (revoke_material i)" unfolding revoke_material_def Let_def
    apply (rule guar_read[OF D reads_lock])
    apply (rule guar_read[OF D reads_material])
    apply (rule guar_read[OF D reads_revoke_rows])
    apply (rule guar_read[OF D reads_encode])
    subgoal for _ _ m _ rows _ row
      apply (rule guar_then)
       apply (rule guar_put_one[OF D, of _ m "revoked_material m" "{}"])
           apply assumption
          apply (simp_all add: revoked_material_def follows_def material_invD(1)[OF D])
      apply (intro safe_intros)
      done
    done
qed

lemma safe_replace_material [safe_intros]: "safe S (replace_material S' i revision f)"
proof (rule safeI)
  fix D assume D: "ws_inv S D"
  show "guar S D 0 (replace_material S' i revision f)" unfolding replace_material_def Let_def
    apply (rule guar_read[OF D reads_require])
    apply (rule guar_read[OF D reads_lift])
    apply (rule guar_read[OF D reads_require])
    apply (rule guar_read[OF D reads_lock])
    apply (rule guar_read[OF D reads_material])
    apply (rule guar_read[OF D reads_require])
    apply (rule guar_read[OF D reads_encode])
    apply (rule guar_read[OF D reads_revoke_rows])
    apply (rule guar_read[OF D reads_encode])
    subgoal for _ _ _ _ _ _ _ _ m _ _ _ source _ rows _ row
      by (simp only:, rule guar_then[OF guar_put_source[OF D]], assumption)
        (simp_all add: follows_def safe_intros)
    done
qed

section \<open>Groups, clients, submission\<close>

lemma side_batch:
  assumes "ws_inv S D" and X: "\<And>r. r \<in> X \<Longrightarrow> is_side_row r" and "groups_ok S D k X" and "others_ok S D k X"
  shows "batch_ok S D k X"
  using detach_batch[OF assms(1), of id "{}" X k] assms by (simp add: detached_def detaches_def)

lemma guar_save_side:
  assumes "ws_inv S D" and "is_side_row r"
    and "\<And>k. n \<le> k \<Longrightarrow> groups_ok S D k {r}" and "\<And>k. n \<le> k \<Longrightarrow> others_ok S D k {r}"
  shows "guar S D n (save_row r)"
  by (rule guar_save[OF assms(1)], rule side_batch[OF assms(1)]) (use assms in simp_all)

lemma fresh_id_mono: "fresh_id S D k i \<Longrightarrow> k \<le> j \<Longrightarrow> fresh_id S D j i"
  unfolding fresh_id_def using issued_mono by blast

lemma fresh_no_group: "ws_inv S D \<Longrightarrow> fresh_id S D k i \<Longrightarrow> om_get (w_groups D) i = None"
  by (cases "om_get (w_groups D) i") (auto simp: fresh_id_def dest: group_invD)

lemma safe_create_group [safe_intros]:
  assumes ok: "service_ok S"
  shows "safe S (create_group S name)"
proof (rule safeI)
  fix D assume D: "ws_inv S D"
  show "guar S D 0 (create_group S name)" unfolding create_group_def Let_def
    apply (rule guar_read[OF D reads_lift])
    apply (rule guar_read[OF D reads_lock])
    apply (rule guar_read[OF D reads_new_id[OF ok]])
    apply (rule guar_read[OF D reads_new_id[OF ok]])
    apply (rule guar_then)
     apply (rule guar_save_side[OF D])
       apply (simp add: is_side_row_def)
      apply (use D in \<open>auto simp: groups_ok_def fresh_no_group intro: fresh_id_mono\<close>)[1]
     apply (simp add: others_ok_def)
    apply (intro safe_intros)
    done
qed

lemma reads_new_uuid [reads_intros]: "reads D n (new_uuid S) (\<lambda>_ _. True)"
  by (auto simp: reads_def new_uuid_def op_bind_run same_def)

lemma safe_create_client [safe_intros]:
  assumes ok: "service_ok S"
  shows "safe S (create_client S name g)"
proof (rule safeI)
  fix D assume D: "ws_inv S D"
  have none: "fresh_id S D k i \<Longrightarrow> om_get (w_clients D) i = None" for k i
    by (cases "om_get (w_clients D) i") (auto simp: fresh_id_def dest: client_invD[OF D])
  show "guar S D 0 (create_client S name g)" unfolding create_client_def Let_def
    apply (rule guar_read[OF D reads_lift])
    apply (rule guar_read[OF D reads_lock])
    apply (rule guar_read[OF D reads_fetch], simp)
    apply (rule guar_read[OF D reads_new_uuid])
    apply (rule guar_read[OF D reads_new_uuid])
    apply (rule guar_read[OF D reads_new_id[OF ok]])
    apply (rule guar_read[OF D reads_now])
    apply (rule guar_read[OF D reads_io])
    apply (rule guar_then)
     apply (rule guar_save_side[OF D])
       apply (simp add: is_side_row_def)
      apply (simp add: groups_ok_def)
     apply (auto simp: others_ok_def none intro: fresh_id_mono)[1]
    apply (intro safe_intros)
    done
qed

lemma safe_revoke_client [safe_intros]: "safe S (revoke_client i)"
proof (rule safeI)
  fix D assume D: "ws_inv S D"
  show "guar S D 0 (revoke_client i)" unfolding revoke_client_def
    apply (rule guar_read[OF D reads_lock])
    apply (rule guar_read[OF D reads_fetch], simp)
    apply (rule guar_save_side[OF D])
      apply (simp add: is_side_row_def)
     apply (simp add: groups_ok_def)
    apply (use client_invD[OF D] in \<open>auto simp: others_ok_def same_client_def\<close>)
    done
qed

lemma safe_save_ai_stage [safe_intros]: "safe S (save_ai_stage i revision sha stage sel tsha code)"
proof (rule safeI)
  fix D assume D: "ws_inv S D"
  show "guar S D 0 (save_ai_stage i revision sha stage sel tsha code)" unfolding save_ai_stage_def
    apply (rule guar_read[OF D reads_now])
    apply (rule guar_read[OF D reads_lock])
    apply (rule guar_save_side[OF D])
      apply (simp_all add: is_side_row_def groups_ok_def others_ok_def)
    done
qed

lemma reads_fresh_id:
  assumes ok: "service_ok S"
  shows "reads D n (new_id S p) (\<lambda>i k. fresh_id S D k i \<and> \<not> issued S n i)"
  unfolding reads_def new_id_def
  by (auto simp: op_bind_run same_def fresh_id_def issued_fresh[OF ok, of _ _ p, simplified] issued_now[of S _ p, simplified])

definition file_rows :: "service \<Rightarrow> ws_group \<Rightarrow> string \<Rightarrow> string \<Rightarrow> import_file \<Rightarrow> string \<Rightarrow> row list" where
  "file_rows S g group_id task_id f mid =
     [RSource mid (if_bytes f), RMaterial mid (new_material S mid g group_id task_id f)]"

lemma reads_submit_files:
  assumes ok: "service_ok S"
  shows "reads D n (op_map (submit_file S g gid tid) files) (\<lambda>parts k. distinct (map fst parts)
    \<and> (\<forall>p\<in>set parts. fresh_id S D k (fst p) \<and> \<not> issued S n (fst p))
    \<and> list_all2 (\<lambda>f p. snd p = file_rows S g gid tid f (fst p)) files parts)"
proof (induction files arbitrary: n)
  case Nil
  then show ?case by (simp add: reads_def)
next
  case (Cons f files)
  have one: "reads D n (submit_file S g gid tid f) (\<lambda>p k. fresh_id S D k (fst p) \<and> \<not> issued S n (fst p)
      \<and> issued S k (fst p) \<and> snd p = file_rows S g gid tid f (fst p))"
    unfolding submit_file_def
    by (rule reads_bind[OF reads_fresh_id[OF ok]], rule reads_bind[OF reads_encode], rule reads_bind[OF reads_encode],
        rule reads_weaken[OF reads_return])
      (auto simp: file_rows_def fresh_id_def intro: issued_mono)
  show ?case unfolding op_map.simps
  proof (rule reads_bind[OF one], rule reads_bind[OF Cons.IH], rule reads_weaken[OF reads_return])
    fix p k parts j a i
    assume k: "n \<le> k" "k \<le> j" "j \<le> i"
      and p: "fresh_id S D k (fst p) \<and> \<not> issued S n (fst p) \<and> issued S k (fst p)
          \<and> snd p = file_rows S g gid tid f (fst p)"
      and parts: "distinct (map fst parts) \<and> (\<forall>p\<in>set parts. fresh_id S D j (fst p) \<and> \<not> issued S k (fst p))
          \<and> list_all2 (\<lambda>f p. snd p = file_rows S g gid tid f (fst p)) files parts"
      and a: "a = p # parts"
    have "fst p \<notin> set (map fst parts)" using p parts by auto
    moreover have "\<not> issued S n (fst q)" if "q \<in> set parts" for q
      using parts that k(1) issued_mono by blast
    moreover have "fresh_id S D i (fst q)" if "q \<in> set (p # parts)" for q
      using that p parts k fresh_id_mono by (metis order_trans set_ConsD)
    ultimately show "distinct (map fst a) \<and> (\<forall>p\<in>set a. fresh_id S D i (fst p) \<and> \<not> issued S n (fst p))
        \<and> list_all2 (\<lambda>f p. snd p = file_rows S g gid tid f (fst p)) (f # files) a"
      using p parts a by auto
  qed
qed

lemma file_rows_concat:
  assumes shape: "list_all2 (\<lambda>f p. snd p = file_rows S g gid tid f (fst p)) files parts"
  shows "RMaterial i m \<in> set (concat (map snd parts)) \<longleftrightarrow>
      (\<exists>f p. (f, p) \<in> set (zip files parts) \<and> i = fst p \<and> m = new_material S (fst p) g gid tid f)"
    "RResult r x \<notin> set (concat (map snd parts))" "RGroup r y \<notin> set (concat (map snd parts))"
    "RTask r t \<notin> set (concat (map snd parts))" "RConsent r c \<notin> set (concat (map snd parts))"
    "RClient r d \<notin> set (concat (map snd parts))" "RStage r s \<notin> set (concat (map snd parts))"
proof -
  have rows: "snd p = file_rows S g gid tid f (fst p)" if "(f, p) \<in> set (zip files parts)" for f p
    using shape that by (auto simp: list_all2_iff)
  have part: "\<exists>f. (f, p) \<in> set (zip files parts)" if "p \<in> set parts" for p
    using that list_all2_lengthD[OF shape] by (metis in_set_impl_in_set_zip2)
  have mem: "row \<in> set (concat (map snd parts)) \<longleftrightarrow>
      (\<exists>f p. (f, p) \<in> set (zip files parts) \<and> row \<in> set (file_rows S g gid tid f (fst p)))" for row
  proof -
    have "row \<in> set (concat (map snd parts)) \<longleftrightarrow> (\<exists>p. p \<in> set parts \<and> row \<in> set (snd p))"
      unfolding set_concat set_map by blast
    also have "\<dots> \<longleftrightarrow> (\<exists>f p. (f, p) \<in> set (zip files parts) \<and> row \<in> set (snd p))"
      using part by (blast dest: set_zip_rightD)
    finally show ?thesis using rows by metis
  qed
  show "RMaterial i m \<in> set (concat (map snd parts)) \<longleftrightarrow>
      (\<exists>f p. (f, p) \<in> set (zip files parts) \<and> i = fst p \<and> m = new_material S (fst p) g gid tid f)"
    unfolding mem by (auto simp: file_rows_def)
  show "RResult r x \<notin> set (concat (map snd parts))" "RGroup r y \<notin> set (concat (map snd parts))"
    "RTask r t \<notin> set (concat (map snd parts))" "RConsent r c \<notin> set (concat (map snd parts))"
    "RClient r d \<notin> set (concat (map snd parts))" "RStage r s \<notin> set (concat (map snd parts))"
    unfolding mem by (auto simp: file_rows_def)
qed

lemma submit_batch:
  assumes D: "ws_inv S D" and dist: "distinct (map fst parts)"
    and fresh: "\<And>p. p \<in> set parts \<Longrightarrow> fresh_id S D k (fst p)"
    and shape: "list_all2 (\<lambda>f p. snd p = file_rows S g gid tid f (fst p)) files parts"
    and t: "tk_id t = tid" "tk_material_ids t = map fst parts" "tk_group_id t = gid" "fresh_id S D k tid"
  shows "batch_ok S D k (set (concat (map snd parts) @ [RTask tid t]))"
proof -
  let ?rows = "concat (map snd parts)"
  note rows = file_rows_concat[OF shape]
  have none: "om_get (w_materials D) i = None" if "fresh_id S D k i" for i
    using that by (cases "om_get (w_materials D) i") (auto simp: fresh_id_def dest: material_invD(2)[OF D])
  have part: "q \<in> set parts" if "(f, q) \<in> set (zip files parts)" for f q
    using that by (rule set_zip_rightD)
  have uniq: "m' = m" if "RMaterial i m \<in> set ?rows" "RMaterial i m' \<in> set ?rows" for i m m'
  proof -
    from that obtain f q f' q' where fq: "(f, q) \<in> set (zip files parts)" "(f', q') \<in> set (zip files parts)"
      "i = fst q" "i = fst q'" "m = new_material S (fst q) g gid tid f" "m' = new_material S (fst q') g gid tid f'"
      unfolding rows by blast
    then obtain a b where ab: "a < length parts" "b < length parts" "a < length files" "b < length files"
      "files ! a = f" "parts ! a = q" "files ! b = f'" "parts ! b = q'" by (auto simp: set_zip)
    then have "map fst parts ! a = map fst parts ! b" using fq by simp
    then have "a = b" using dist ab by (simp add: nth_eq_iff_index_eq del: nth_map)
    then show ?thesis using ab fq by simp
  qed
  have "materials_ok S D k (set (?rows @ [RTask tid t]))"
    unfolding materials_ok_def
  proof (intro allI impI)
    fix i m assume "RMaterial i m \<in> set (?rows @ [RTask tid t])"
    then have m: "RMaterial i m \<in> set ?rows" by simp
    then obtain f q where q: "(f, q) \<in> set (zip files parts)" "i = fst q" "m = new_material S (fst q) g gid tid f"
      unfolding rows by blast
    then have "fresh_id S D k i" using fresh part by blast
    with q m uniq none show "m_id m = i
     \<and> (case om_get (w_materials D) i of
          None \<Rightarrow> fresh_id S D k i
        | Some old \<Rightarrow> follows old m \<and> (\<forall>r. m_result_id old = Some r \<longrightarrow> (\<exists>x. RResult r x \<in> set (?rows @ [RTask tid t]))))
     \<and> (\<forall>r. m_result_id m = Some r \<longrightarrow> (\<exists>x. RResult r x \<in> set (?rows @ [RTask tid t]) \<and> live S D m x)
          \<and> (\<forall>g. RGroup (m_group_id m) g \<notin> set (?rows @ [RTask tid t])))
     \<and> (\<forall>m'. RMaterial i m' \<in> set (?rows @ [RTask tid t]) \<longrightarrow> m' = m)"
      by (simp add: new_material_def)
  qed
  moreover have "tasks_ok S D k (set (?rows @ [RTask tid t]))"
    unfolding tasks_ok_def
  proof (intro allI impI)
    fix i u assume "RTask i u \<in> set (?rows @ [RTask tid t])"
    then have u: "i = tid" "u = t" using rows(4) by auto
    have "\<exists>m. RMaterial mid m \<in> set (?rows @ [RTask tid t]) \<and> m_task_id m = i \<and> m_group_id m = tk_group_id u"
      if "mid \<in> set (tk_material_ids u)" for mid
    proof -
      from that u t obtain q where q: "q \<in> set parts" "mid = fst q" by auto
      then obtain f where f: "(f, q) \<in> set (zip files parts)"
        using list_all2_lengthD[OF shape] by (metis in_set_impl_in_set_zip2)
      then have "RMaterial mid (new_material S mid g gid tid f) \<in> set ?rows" using q unfolding rows by blast
      then show ?thesis using u t by (intro exI[of _ "new_material S mid g gid tid f"]) (simp add: new_material_def)
    qed
    then show "tk_id u = i \<and> fresh_id S D k i \<and> (\<forall>mid\<in>set (tk_material_ids u).
        \<exists>m. RMaterial mid m \<in> set (?rows @ [RTask tid t]) \<and> m_task_id m = i \<and> m_group_id m = tk_group_id u)"
      using u t by simp
  qed
  ultimately show ?thesis
    by (simp add: batch_ok_def results_ok_def groups_ok_def others_ok_def rows[simplified])
qed

lemma safe_create_task [safe_intros]:
  assumes ok: "service_ok S"
  shows "safe S (create_task S g gid request_id fingerprint files client_id)"
proof (rule safeI)
  fix D assume D: "ws_inv S D"
  show "guar S D 0 (create_task S g gid request_id fingerprint files client_id)" unfolding create_task_def Let_def
    apply (rule guar_read[OF D reads_new_id[OF ok]])
    apply (rule guar_read[OF D reads_now])
    apply (rule guar_read[OF D reads_submit_files[OF ok]])
    apply (rule guar_read[OF D reads_encode])
    apply (rule guar_then[OF guar_put[OF D] safe_task_status])
    apply (simp only:, rule submit_batch[OF D])
          apply (auto intro: fresh_id_mono)
    done
qed

lemma safe_submit [safe_intros]: "service_ok S \<Longrightarrow> safe S (submit S gid request_id files client_id)"
  unfolding submit_def Let_def by (intro safe_intros table_only_tables)

section \<open>The dictionary\<close>

lemma requeued_simps [simp]:
  "m_result_id (requeued m) = None" "m_id (requeued m) = m_id m" "follows m (requeued m)"
  by (simp_all add: requeued_def Let_def follows_def)

lemma reads_dictionary_rows:
  assumes "ws_inv S D"
  shows "reads D n (dictionary_rows m) (\<lambda>rows _. set rows = detached D requeued {m})"
  unfolding dictionary_rows_def
  by (rule reads_bind[OF reads_cancel(1)], rule reads_bind[OF reads_revoke_rows_id[OF assms]],
      rule reads_bind[OF reads_encode], rule reads_weaken[OF reads_return]) (simp add: detached_one)

lemma value_get: "om_wf t \<Longrightarrow> m \<in> set (om_values t) \<Longrightarrow> \<exists>i. om_get t i = Some m"
  by (auto simp: om_wf_get_iff)

lemma get_value: "om_get t i = Some m \<Longrightarrow> m \<in> set (om_values t)"
  by (force dest: map_of_SomeD)

lemma material_value: "ws_inv S D \<Longrightarrow> m \<in> set (om_values (w_materials D)) \<Longrightarrow> om_get (w_materials D) (m_id m) = Some m"
  using value_get ws_inv_wf(1) material_invD(1) by metis

lemma safe_update_dictionary [safe_intros]: "safe S (update_dictionary_locked S' gid es)"
proof (rule safeI)
  fix D assume D: "ws_inv S D"
  let ?M = "{m \<in> set (om_values (w_materials D)). m_group_id m = gid}"
  have M: "detaches D requeued ?M" using material_value[OF D] by (auto simp: detaches_def)
  have cover: "RMaterial j (requeued m) \<in> detached D requeued ?M"
    if "om_get (w_materials D) j = Some m" "m_group_id m = gid" for j m
    using that get_value[OF that(1)] material_invD(1)[OF D that(1)] unfolding detached_rows by blast
  show "guar S D 0 (update_dictionary_locked S' gid es)" unfolding update_dictionary_locked_def Let_def
    apply (rule guar_read[OF D reads_require])
    apply (rule guar_read[OF D reads_lift])
    apply (rule guar_read[OF D reads_fetch], simp)
    apply (rule guar_read[OF D reads_lift])
    apply (rule guar_read[OF D reads_encode])
    apply (rule guar_read[OF D reads_fetch_all], simp)
    apply (rule guar_read[OF D reads_map[OF reads_dictionary_rows[OF D]]], assumption)
    subgoal for _ _ _ _ g _ _ _ grow _ ms _ rows
    proof (rule guar_then)
      assume g: "om_get (w_groups D) gid = Some g"
        and grow: "grow = RGroup gid (g\<lparr>wg_entries := es, wg_dictionary_revision := wg_dictionary_revision g + 1\<rparr>)"
        and ms: "ms = om_values (w_materials D)"
        and rows: "list_all2 (\<lambda>m rows. set rows = detached D requeued {m}) (filter (\<lambda>m. m_group_id m = gid) ms) rows"
      from rows obtain Ms where Ms: "list_all2 (\<lambda>m M. M = {m}) (filter (\<lambda>m. m_group_id m = gid) ms) Ms"
        "set (concat rows) = detached D requeued (\<Union>(set Ms))"
        using concat_detached[of D requeued "\<lambda>m M. M = {m}" "filter (\<lambda>m. m_group_id m = gid) ms" rows] by auto
      from Ms(1) have "\<Union>(set Ms) = set (filter (\<lambda>m. m_group_id m = gid) ms)"
        by (induction rule: list_all2_induct) auto
      with Ms(2) ms have all: "set (concat rows) = detached D requeued ?M" by simp
      show "guar S D k (put_rows (grow # concat rows))" for k
      proof (rule guar_detach[OF D M])
        show "set (grow # concat rows) = detached D requeued ?M \<union> {grow}" using all by simp
        show "is_side_row r" if "r \<in> {grow}" for r using that grow by (simp add: is_side_row_def)
        show "groups_ok S D j (detached D requeued ?M \<union> {grow})" for j
          using g grow cover group_invD[OF D g] by (auto simp: groups_ok_def detached_rows(3))
        show "others_ok S D j {grow}" for j using grow by (simp add: others_ok_def)
      qed
    qed (rule safe_intros)
    done
qed

lemma safe_set_dictionary [safe_intros]: "safe S (set_dictionary S' gid es)"
  unfolding set_dictionary_def by (intro safe_intros)

section \<open>Finishing\<close>

lemma validate_analysis_result:
  assumes "validate_analysis E a = Inr ()"
  shows "a_output_sha256 a = sha256_hex (en_digest E) (a_text a)"
    "validate_analysis E (a\<lparr>a_ai_findings := f, a_needs_review := b\<rparr>) = Inr ()"
  using assms by (simp_all add: validate_analysis_def split: if_splits)

lemma verify_analysis_result:
  "verify_analysis_source D source (a\<lparr>a_ai_findings := f, a_needs_review := b\<rparr>) = verify_analysis_source D source a"
  by (simp add: verify_analysis_source_def)

lemma result_analysis_ready:
  assumes "validate_analysis (sv_engine S) a = Inr ()"
  shows "result_analysis (ready_result S rid time m g a) = a\<lparr>a_ai_findings := None, a_needs_review := False\<rparr>"
  using validate_analysis_result(1)[OF assms]
  by (cases a) (simp add: result_analysis_def ready_result_def content_hash_def)

lemma ready_result_sound:
  assumes "validate_analysis (sv_engine S) a = Inr ()"
  shows "sound_result S rid (ready_result S rid time m g a)"
  unfolding sound_result_def result_analysis_ready[OF assms]
  using validate_analysis_result(2)[OF assms] by (simp add: ready_result_def)

lemma finish_batch:
  assumes D: "ws_inv S D" and old: "om_get (w_materials D) i = Some old" and fol: "follows old m"
    and rid: "fresh_id S D k rid" and m: "m_result_id m = Some rid"
    and x: "sound_result S rid x" "live S D m x"
  shows "batch_ok S D k (set (revocation D (m_result_id old) @ [RResult rid x] @ [RMaterial i m]))"
proof -
  let ?R = "set (revocation D (m_result_id old) @ [RResult rid x] @ [RMaterial i m])"
  have id: "m_id old = i" using material_invD(1)[OF D old] .
  have mem: "RMaterial j m' \<in> ?R \<longleftrightarrow> j = i \<and> m' = m" "RGroup j g \<notin> ?R" "RTask j t \<notin> ?R" "RConsent j c \<notin> ?R"
    "RClient j d \<notin> ?R" "RStage j s \<notin> ?R" for j m' g t c d s
    by (auto simp: revocation_def split: option.splits)
  have res: "RResult r y \<in> ?R \<longleftrightarrow> (r = rid \<and> y = x)
      \<or> (m_result_id old = Some r \<and> y = (the (om_get (w_results D) r))\<lparr>rr_revoked := True\<rparr>)" for r y
    by (auto simp: revocation_def split: option.splits)
  have cur: "\<exists>y. om_get (w_results D) r = Some y \<and> live S D old y" if "m_result_id old = Some r" for r
    using material_invD(3)[OF D old that] by (auto simp: current_def)
  have new: "m_result_id old \<noteq> Some rid"
    using cur[of rid] result_invD(2)[OF D] rid unfolding fresh_id_def by blast
  have "materials_ok S D k ?R"
    unfolding materials_ok_def mem
    using old fol m x(2) id by (auto simp: res follows_def)
  moreover have "results_ok S D k ?R"
    unfolding results_ok_def
  proof (intro allI impI)
    fix r y assume "RResult r y \<in> ?R"
    then consider "r = rid" "y = x" | "m_result_id old = Some r" "y = (the (om_get (w_results D) r))\<lparr>rr_revoked := True\<rparr>"
      unfolding res by blast
    then show "sound_result S r y \<and> (\<forall>x'. RResult r x' \<in> ?R \<longrightarrow> x' = y)
     \<and> ((rr_revoked y \<and> (\<exists>z. om_get (w_results D) r = Some z \<and> y = z\<lparr>rr_revoked := True\<rparr>)
          \<and> (\<forall>j o'. om_get (w_materials D) j = Some o' \<and> m_result_id o' = Some r \<longrightarrow> (\<exists>m. RMaterial j m \<in> ?R)))
        \<or> (fresh_id S D k r \<and> \<not> rr_revoked y
          \<and> (\<exists>m. RMaterial (rr_material_id y) m \<in> ?R \<and> m_result_id m = Some r)))"
    proof cases
      case 1
      have "\<forall>x'. RResult r x' \<in> ?R \<longrightarrow> x' = y" unfolding res using 1 new by auto
      moreover have "RMaterial (rr_material_id y) m \<in> ?R"
        unfolding mem using 1 x(2) fol id by (simp add: live_def follows_def)
      ultimately show ?thesis using 1 x rid m by (auto simp: live_def)
    next
      case 2
      obtain z where z: "om_get (w_results D) r = Some z" "live S D old z" using cur[OF 2(1)] by blast
      have "j = i" if "om_get (w_materials D) j = Some o'" "m_result_id o' = Some r" for j o'
      proof -
        have "rr_material_id z = m_id o'"
          using material_invD(3)[OF D that] z(1) by (auto simp: current_def live_def)
        then show ?thesis using z(2) id material_invD(1)[OF D that(1)] by (simp add: live_def)
      qed
      moreover have "\<forall>x'. RResult r x' \<in> ?R \<longrightarrow> x' = y" unfolding res using 2 new by auto
      ultimately show ?thesis
        using 2 z(1) sound_revoked[OF result_invD(1)[OF D z(1)]] unfolding mem by auto
    qed
  qed
  ultimately show ?thesis
    by (simp add: batch_ok_def groups_ok_def tasks_ok_def others_ok_def mem[simplified])
qed

lemma reads_publish:
  assumes ok: "service_ok S"
  shows "reads D n (publish S m g a) (\<lambda>y k. \<exists>rid. validate_analysis (sv_engine S) a = Inr ()
      \<and> verify_analysis_source (en_digest (sv_engine S)) (m_original_text m) a = Inr () \<and> fresh_id S D k rid
      \<and> y = (m\<lparr>m_result_id := Some rid, m_status := ''ready'', m_reason_code := None\<rparr>,
          [RResult rid (ready_result S rid (w_now D) m g a)]))"
  unfolding publish_def
  by (rule reads_bind[OF reads_lift], rule reads_bind[OF reads_lift], rule reads_bind[OF reads_new_id[OF ok]],
      rule reads_bind[OF reads_now], rule reads_bind[OF reads_encode], rule reads_weaken[OF reads_return])
    (auto simp: map_err_def split: sum.splits intro: fresh_id_mono)

lemma guar_finish:
  assumes ok: "service_ok S" and D: "ws_inv S D" and old: "om_get (w_materials D) (m_id m) = Some old"
    and fol: "follows old m" and same: "m_result_id m = m_result_id old"
    and group: "om_get (w_groups D) (m_group_id m) = Some cur"
      "wg_dictionary_revision cur = wg_dictionary_revision g"
  shows "guar S D n (finish_locked S m g a waiting)"
proof (cases "a_needs_review a")
  case True
  show ?thesis unfolding finish_locked_def Let_def
    apply (rule guar_read[OF D reads_revoke_rows])
    apply (simp only: True not_True_eq_False if_False)
    apply (rule guar_read[OF D reads_return])
    apply (simp only: prod.case)
    apply (rule guar_read[OF D reads_encode])
    apply (rule guar_put_one[OF D old, of
        "(unfinished waiting (m\<lparr>m_dictionary_revision := wg_dictionary_revision g, m_result_id := None\<rparr>))
           \<lparr>m_analysis := Some a\<rparr>" "{}"])
       apply (use fol in \<open>simp_all add: unfinished_def follows_def same\<close>)
    done
next
  case False
  let ?m = "m\<lparr>m_dictionary_revision := wg_dictionary_revision g, m_result_id := None\<rparr>"
  have step: "guar S D j (put_rows (revocation D (m_result_id old) @ [RResult rid (ready_result S rid (w_now D) ?m g a)]
      @ [RMaterial (m_id m) (?m\<lparr>m_result_id := Some rid, m_status := ''ready'', m_reason_code := None, m_analysis := Some a\<rparr>)]))"
    if valid: "validate_analysis (sv_engine S) a = Inr ()"
      "verify_analysis_source (en_digest (sv_engine S)) (m_original_text m) a = Inr ()"
      and rid: "fresh_id S D k rid" "k \<le> j" for rid k j
  proof (rule guar_put[OF D], rule finish_batch[OF D old])
    show "sound_result S rid (ready_result S rid (w_now D) ?m g a)" by (rule ready_result_sound[OF valid(1)])
    show "live S D (?m\<lparr>m_result_id := Some rid, m_status := ''ready'', m_reason_code := None, m_analysis := Some a\<rparr>)
        (ready_result S rid (w_now D) ?m g a)"
      unfolding live_def result_analysis_ready[OF valid(1)]
      using group valid(2) by (simp add: ready_result_def verify_analysis_result)
    show "fresh_id S D l rid" if "j \<le> l" for l using fresh_id_mono[OF rid(1)] rid(2) that by simp
  qed (use fol in \<open>simp_all add: follows_def\<close>)
  show ?thesis unfolding finish_locked_def Let_def
    apply (rule guar_read[OF D reads_revoke_rows])
    apply (simp only: False not_False_eq_True if_True)
    apply (rule guar_read[OF D reads_publish[OF ok]])
    subgoal premises prems for rows k y j
    proof -
      from prems obtain rid where rid: "validate_analysis (sv_engine S) a = Inr ()"
        "verify_analysis_source (en_digest (sv_engine S)) (m_original_text m) a = Inr ()"
        "fresh_id S D j rid"
        "y = (?m\<lparr>m_result_id := Some rid, m_status := ''ready'', m_reason_code := None\<rparr>,
          [RResult rid (ready_result S rid (w_now D) ?m g a)])" by auto
      show ?thesis unfolding rid(4) prod.case
        by (rule guar_read[OF D reads_encode]) (use step[OF rid(1-3)] prems in \<open>simp add: same\<close>)
    qed
    done
qed

section \<open>Review\<close>

lemma op_bind_assoc: "op_bind (op_bind m f) g = op_bind m (\<lambda>x. op_bind (f x) g)"
  by (rule ext) (simp add: op_bind_run split: prod.split sum.split)

lemma guar_then_in:
  assumes m: "guar S D n m" and f: "\<And>a u. settled S D u \<Longrightarrow> settled S u (snd (f a u))"
  shows "guar S D n (op_bind m f)"
  unfolding guar_def
proof (intro allI impI)
  fix u assume u: "same D u" "n \<le> w_issued u"
  obtain r t where mu: "m u = (r, t)" by fastforce
  have t: "settled S D t" using m u mu unfolding guar_def by (metis snd_conv)
  show "settled S D (snd (op_bind m f u))"
  proof (cases r)
    case (Inr a)
    then show ?thesis using mu settled_trans[OF t f[OF t]] by (simp add: op_bind_run)
  qed (use mu t in \<open>simp add: op_bind_run\<close>)
qed

lemma guar_at: "guar S u 0 m \<Longrightarrow> settled S u (snd (m u))"
  by (simp add: guar_def)

lemma safe_save_stage: "as_material_id s = i \<Longrightarrow> safe S (save_row (RStage i s))"
  by (rule safeI, rule guar_save_side) (simp_all add: is_side_row_def groups_ok_def others_ok_def)

text \<open>The branching rules for a postcondition that is given.\<close>

lemma reads_to:
  "(b \<Longrightarrow> reads D n m Q) \<Longrightarrow> (\<not> b \<Longrightarrow> reads D n m' Q) \<Longrightarrow> reads D n (if b then m else m') Q"
  "(x = None \<Longrightarrow> reads D n m Q) \<Longrightarrow> (\<And>y. x = Some y \<Longrightarrow> reads D n (f y) Q) \<Longrightarrow>
    reads D n (case x of None \<Rightarrow> m | Some y \<Rightarrow> f y) Q"
  "(\<And>k. n \<le> k \<Longrightarrow> Q a k) \<Longrightarrow> reads D n (op_return a) Q"
  by (auto split: option.split intro: reads_weaken[OF reads_return])

lemma reads_review_evidence:
  assumes D: "ws_inv S D" and m: "om_get (w_materials D) i = Some m"
  shows "reads D n (review_ai_evidence_locked S' m) (\<lambda>y k. \<forall>s. snd y = Some s \<longrightarrow> as_material_id s = i)"
  unfolding review_ai_evidence_locked_def
  by (rule reads_bind[OF reads_map_err[OF reads_fetch]], simp, rule reads_bind[OF reads_require],
      rule reads_bind[OF reads_maybe], simp)
    (intro reads_to reads_fail reads_bind[OF reads_lift],
      use stage_invD[OF D] material_invD(1)[OF D m] in auto)

lemma guar_review_tail:
  assumes ok: "service_ok S" and D: "ws_inv S D" and m: "om_get (w_materials D) i = Some m"
    and g: "om_get (w_groups D) (m_group_id m) = Some g"
    and stage: "\<forall>s. stage = Some s \<longrightarrow> as_material_id s = i"
  shows "guar S D n (review_tail S i request ai stage m g)"
  unfolding review_tail_def Let_def
  apply (rule guar_read[OF D reads_lift])
  apply (rule guar_then[OF guar_finish[OF ok D, of _ m g]])
      apply (use m g material_invD(1)[OF D m] in \<open>simp_all add: follows_def\<close>)[5]
  apply (rule safe_bind, rule safe_option, rule safe_basic, rule safe_bind, rule safe_leaves, rule safe_save_stage)
   apply (use stage in simp)
  apply (rule safe_leaves)
  done

text \<open>After the dictionary has changed, the tail works on what it reads afresh.\<close>

lemma settled_material:
  assumes "ws_inv S D" and "settled S D u" and "om_get (w_materials D) i = Some m"
    and "om_get (w_materials u) i = Some m'"
  shows "follows m m'"
  using assms evolves_materialD unfolding settled_def by fastforce

lemma safe_review [safe_intros]:
  assumes ok: "service_ok S"
  shows "safe S (review S i request)"
proof (rule safeI)
  fix D assume D: "ws_inv S D"
  have reread: "settled S u (snd (op_bind (fetch w_groups (m_group_id m)) (\<lambda>g. op_bind (material i) (\<lambda>m.
        review_tail S i request ai stage m g)) u))"
    if m: "om_get (w_materials D) i = Some m" and u: "settled S D u"
      and stage: "\<forall>s. stage = Some s \<longrightarrow> as_material_id s = i" for m ai stage u
  proof (rule guar_at)
    have inv: "ws_inv S u" using u by (simp add: settled_def)
    show "guar S u 0 (op_bind (fetch w_groups (m_group_id m)) (\<lambda>g. op_bind (material i) (\<lambda>m.
        review_tail S i request ai stage m g)))"
      by (rule guar_read[OF inv reads_fetch], simp, rule guar_read[OF inv reads_material],
          rule guar_review_tail[OF ok inv _ _ stage])
        (use settled_material[OF D u m] in \<open>auto simp: follows_def\<close>)
  qed
  show "guar S D 0 (review S i request)"
    unfolding review_def Let_def
    apply (rule guar_read[OF D reads_lock])
    apply (rule guar_read[OF D reads_material])
    apply (rule guar_read[OF D reads_require])
    apply (rule guar_read[OF D reads_require])
    apply (rule guar_read[OF D reads_review_evidence[OF D]], assumption)
    apply (rule guar_read[OF D reads_fetch], simp)
    apply (split if_split, intro conjI impI)
     apply (rule guar_read[OF D reads_lift])
     apply (rule guar_then_in[OF safe_guar[OF safe_update_dictionary D]])
     apply (rule reread, assumption+)
    apply (rule guar_review_tail[OF ok D], assumption+)
    done
qed

end
