(* ===== verification/Interleaving.thy ===== *)
theory Interleaving imports Operations begin

text \<open>
  The worker among the handlers. A job keeps copies of the material and the group it claimed
  while handlers run at its unlocked points; what it may rely on is that its copy is an earlier
  version of the stored material (\<open>tracks\<close>), which every evolution keeps. With that, every section of
  the worker is safe, so are a whole turn of it and the recovery at startup, and the service with
  its worker is a transition system with the invariant of the store.
\<close>

section \<open>Operations under a lasting precondition\<close>

definition lasting :: "service \<Rightarrow> (ws \<Rightarrow> bool) \<Rightarrow> bool" where
  "lasting S P \<longleftrightarrow> (\<forall>w t. evolves S w t \<longrightarrow> P w \<longrightarrow> P t)"

definition keeps :: "service \<Rightarrow> (ws \<Rightarrow> bool) \<Rightarrow> 'a wop \<Rightarrow> ('a \<Rightarrow> ws \<Rightarrow> bool) \<Rightarrow> bool" where
  "keeps S P m Q \<longleftrightarrow> (\<forall>w. ws_inv S w \<longrightarrow> P w \<longrightarrow>
     settled S w (snd (m w)) \<and> (\<forall>a. fst (m w) = Inr a \<longrightarrow> Q a (snd (m w))))"

lemma keepsD:
  assumes "keeps S P m Q" "ws_inv S w" "P w" "m w = (r, t)"
  shows "settled S w t" "r = Inr a \<Longrightarrow> Q a t"
proof -
  from assms(1-3) have "settled S w (snd (m w)) \<and> (\<forall>a. fst (m w) = Inr a \<longrightarrow> Q a (snd (m w)))"
    unfolding keeps_def by blast
  with assms(4) show "settled S w t" "r = Inr a \<Longrightarrow> Q a t" by simp_all
qed

lemma keeps_bind:
  assumes m: "keeps S P m Q" and f: "\<And>a. keeps S (Q a) (f a) R"
  shows "keeps S P (op_bind m f) R"
  unfolding keeps_def
proof (intro allI impI)
  fix w assume w: "ws_inv S w" "P w"
  obtain r u where mw: "m w = (r, u)" by fastforce
  note u = keepsD[OF m w mw]
  have iu: "ws_inv S u" using u(1) by (simp add: settled_def)
  show "settled S w (snd (op_bind m f w)) \<and> (\<forall>a. fst (op_bind m f w) = Inr a \<longrightarrow> R a (snd (op_bind m f w)))"
  proof (cases r)
    case (Inl e)
    then show ?thesis using mw u(1) by (simp add: op_bind_run)
  next
    case (Inr a)
    obtain r' t where fu: "f a u = (r', t)" by fastforce
    note t = keepsD[OF f iu u(2)[OF Inr] fu]
    show ?thesis using mw Inr fu t settled_trans[OF u(1)] by (simp add: op_bind_run)
  qed
qed

lemma keeps_safe: "safe S m \<Longrightarrow> lasting S P \<Longrightarrow> keeps S P m (\<lambda>_. P)"
  unfolding safe_def keeps_def lasting_def settled_def by blast

lemma keeps_post: "keeps S P m Q \<Longrightarrow> (\<And>a w. Q a w \<Longrightarrow> R a w) \<Longrightarrow> keeps S P m R"
  unfolding keeps_def by blast

lemma keeps_weaken_pre: "keeps S P m Q \<Longrightarrow> (\<And>w. P' w \<Longrightarrow> P w) \<Longrightarrow> keeps S P' m Q"
  unfolding keeps_def by blast

lemma keeps_if: "(b \<Longrightarrow> keeps S P m Q) \<Longrightarrow> (\<not> b \<Longrightarrow> keeps S P n Q) \<Longrightarrow> keeps S P (if b then m else n) Q"
  by simp

lemma keeps_option:
  "(x = None \<Longrightarrow> keeps S P m Q) \<Longrightarrow> (\<And>a. x = Some a \<Longrightarrow> keeps S P (f a) Q) \<Longrightarrow>
    keeps S P (case x of None \<Rightarrow> m | Some a \<Rightarrow> f a) Q"
  by (cases x) auto

lemma keeps_any: "keeps S P m Q \<Longrightarrow> keeps S P m (\<lambda>_ _. True)"
  by (rule keeps_post) simp_all

lemma keeps_true: "safe S m \<Longrightarrow> keeps S P m (\<lambda>_ _. True)"
  unfolding safe_def keeps_def by blast

lemma keeps_guar: "(\<And>D. ws_inv S D \<Longrightarrow> P D \<Longrightarrow> guar S D 0 m) \<Longrightarrow> keeps S P m (\<lambda>_ _. True)"
  unfolding keeps_def by (blast intro: guar_at)

lemma safe_keeps: "safe S m \<longleftrightarrow> keeps S (\<lambda>_. True) m (\<lambda>_ _. True)"
  by (simp add: safe_def keeps_def)

lemma lasting_true [simp]: "lasting S (\<lambda>_. True)"
  by (simp add: lasting_def)

section \<open>The claim a job holds\<close>

text \<open>The job's copy of its material is an earlier or the current version of the stored one.\<close>

definition tracks :: "material \<Rightarrow> ws \<Rightarrow> bool" where
  "tracks m w \<longleftrightarrow> m_result_id m = None
     \<and> (\<exists>f. om_get (w_materials w) (m_id m) = Some f \<and> follows m f)"

lemma tracks_lasting [simp]: "lasting S (tracks m)"
  unfolding lasting_def tracks_def using evolves_materialD follows_trans by meson

lemma tracks_cong:
  assumes "m_id m' = m_id m" "m_group_id m' = m_group_id m" "m_task_id m' = m_task_id m"
    "m_revision m' = m_revision m" "m_source_sha256 m' = m_source_sha256 m" "m_result_id m' = m_result_id m"
  shows "tracks m' = tracks m"
  by (rule ext) (simp add: tracks_def follows_def assms)

lemma tracks_update [simp]:
  "tracks (m\<lparr>m_original_text := t\<rparr>) = tracks m" "tracks (m\<lparr>m_analysis := a\<rparr>) = tracks m"
  "tracks (m\<lparr>m_reason_code := c\<rparr>) = tracks m" "tracks (cancelled_material b m) = tracks m"
  by (rule tracks_cong; simp add: cancelled_material_def)+

text \<open>When the compare succeeds, the copy follows the stored version as well.\<close>

lemma tracks_running:
  assumes "ws_inv S D" "tracks m D" "om_get (w_materials D) (m_id m) = Some f" "still_running m f"
  shows "follows f m" "m_result_id f = None" "m_result_id m = None" "m_status f \<noteq> ''ready''"
proof -
  have st: "m_status f = ''running''" "m_revision f = m_revision m" using assms(4) by (simp_all add: still_running_def)
  then show "m_status f \<noteq> ''ready''" by simp
  then show "m_result_id f = None" using not_ready_no_result[OF assms(1,3)] by blast
  show "follows f m" "m_result_id m = None" using assms(2,3) st unfolding tracks_def follows_def by auto
qed

section \<open>Consent\<close>

definition reconsidered :: "material \<Rightarrow> material" where
  "reconsidered m = m\<lparr>m_status := ''queued'', m_reason_code := None\<rparr>"

lemma reads_consent_one:
  assumes D: "ws_inv S D"
  shows "reads D n (consent_one mid) (\<lambda>parts _. \<exists>M. set (map snd parts) = detached D reconsidered M
    \<and> detaches D reconsidered M)"
  unfolding consent_one_def
proof (rule reads_bind[OF reads_material], rule reads_to(1), rule reads_fail, rule reads_to(1))
  fix m k assume m: "om_get (w_materials D) mid = Some m"
  show "reads D k (op_bind (encode (RMaterial mid (m\<lparr>m_status := ''queued'', m_reason_code := None\<rparr>))) (\<lambda>row.
       op_return [((m_id m, m_revision m, m_source_sha256 m), row)]))
      (\<lambda>parts _. \<exists>M. set (map snd parts) = detached D reconsidered M \<and> detaches D reconsidered M)"
    if st: "m_status m \<in> {''queued'', ''awaiting_consent'', ''needs_review''}"
  proof (rule reads_bind[OF reads_encode], rule reads_to(3), rule exI[of _ "{m}"])
    have none: "m_result_id m = None" using not_ready_no_result[OF D m] st by auto
    fix row assume "row = RMaterial mid (m\<lparr>m_status := ''queued'', m_reason_code := None\<rparr>)"
    then show "set (map snd [((m_id m, m_revision m, m_source_sha256 m), row)]) = detached D reconsidered {m}
        \<and> detaches D reconsidered {m}"
      using m none material_invD(1)[OF D m]
      by (simp add: detached_one reconsidered_def detaches_def follows_def)
  qed
  show "reads D k (op_return []) (\<lambda>parts _. \<exists>M. set (map snd parts) = detached D reconsidered M \<and> detaches D reconsidered M)"
    by (rule reads_to(3)) (auto simp: detached_def detaches_def intro: exI[of _ "{}"])
qed

lemma consent_parts:
  assumes "list_all2 (\<lambda>mid parts. \<exists>M. set (map snd parts) = detached D upd M \<and> detaches D upd M) ids parts"
  obtains M where "detaches D upd M" "set (map snd (concat parts)) = detached D upd M"
proof -
  have "list_all2 (\<lambda>mid rows. \<exists>M. set rows = detached D upd M \<and> detaches D upd M) ids (map (map snd) parts)"
    using assms by (simp add: list_all2_map2)
  from concat_detaches[OF this] that show thesis by (auto simp: map_concat)
qed

lemma consent_batch:
  assumes D: "ws_inv S D"
    and parts: "list_all2 (\<lambda>mid parts. \<exists>M. set (map snd parts) = detached D reconsidered M
      \<and> detaches D reconsidered M) ids parts"
    and cid: "fresh_id S D n (cc_id c)"
  shows "guar S D n (put_rows (map snd (concat parts) @ [RConsent task_id c]))"
proof -
  obtain M where M: "detaches D reconsidered M" "set (map snd (concat parts)) = detached D reconsidered M"
    using parts by (rule consent_parts)
  show ?thesis
  proof (rule guar_detach[OF D M(1), of "{RConsent task_id c}"])
    show "set (map snd (concat parts) @ [RConsent task_id c]) = detached D reconsidered M \<union> {RConsent task_id c}"
      using M(2) by simp
    show "others_ok S D j {RConsent task_id c}" if "n \<le> j" for j
      using fresh_id_mono[OF cid that] by (simp add: others_ok_def fresh_id_def)
  qed (simp_all add: is_side_row_def groups_ok_def detached_rows)
qed

lemma safe_consent [safe_intros]:
  assumes ok: "service_ok S"
  shows "safe S (consent S task_id provider_id model purpose)"
proof (rule safeI)
  fix D assume D: "ws_inv S D"
  show "guar S D 0 (consent S task_id provider_id model purpose)"
    unfolding consent_def Let_def
    apply (rule guar_read[OF D reads_require])
    apply (rule guar_read[OF D reads_lock])
    apply (rule guar_read[OF D reads_fetch], simp)
    apply (rule guar_read[OF D reads_fetch], simp)
    apply (rule guar_read[OF D reads_require])
    apply (rule guar_read[OF D reads_io])
    apply (rule guar_read[OF D reads_map[OF reads_consent_one[OF D]]], assumption)
    apply (rule guar_read[OF D reads_require])
    apply (rule guar_read[OF D reads_new_id[OF ok]])
    apply (rule guar_read[OF D reads_now])
    apply (rule guar_read[OF D reads_encode])
    apply (rule guar_then)
     apply (simp only:, rule consent_batch[OF D], assumption)
     apply (simp, meson fresh_id_mono)
    apply (intro safe_intros)
    done
qed

lemma safe_revoke_consent [safe_intros]: "safe S (revoke_consent i)"
  unfolding revoke_consent_def by (intro safe_intros)

section \<open>Claiming\<close>

text \<open>What a successful access found and left.\<close>

abbreviation after_io :: "ws \<Rightarrow> ws" where
  "after_io w \<equiv> w\<lparr>w_outcomes := tl (w_outcomes w)\<rparr>"

lemma io_run: "snd (io w) = after_io w" "io w = (Inr x, t) \<Longrightarrow> t = after_io w" "io w = (Inl e, t) \<Longrightarrow> t = after_io w"
  by (cases w rule: io_cases; simp)+

lemma table_only_after_io [simp]: "table_only f \<Longrightarrow> f (w\<lparr>w_outcomes := xs\<rparr>) = f w"
  unfolding table_only_def by (metis same_outcomes(1) same_refl)

lemma fetch_Inr:
  assumes "fetch table i w = (Inr x, t)" and "table_only table"
  shows "om_get (table w) i = Some x" "t = after_io w"
  using assms unfolding fetch_def
  by (auto elim!: op_bind_cases dest!: io_run(2) simp: ok_or_def split: option.splits)

lemma fetch_maybe_Inr:
  assumes "fetch_maybe table i w = (Inr x, t)" and "table_only table"
  shows "x = om_get (table w) i" "t = after_io w"
  using assms unfolding fetch_maybe_def by (auto elim!: op_bind_cases dest!: io_run(2))

lemma fetch_all_Inr:
  assumes "fetch_all table w = (Inr x, t)" and "table_only table"
  shows "x = om_values (table w)" "t = after_io w"
  using assms unfolding fetch_all_def by (auto elim!: op_bind_cases dest!: io_run(2))

lemma material_Inr:
  assumes "material i w = (Inr m, t)"
  shows "om_get (w_materials w) i = Some m" "t = after_io w"
  using fetch_Inr[of w_materials i w m t] assms unfolding material_def by simp_all

lemma lock_Inr: "lock w = (Inr x, t) \<Longrightarrow> t = after_io w"
  unfolding lock_def by (rule io_run(2))

lemma require_Inr: "require b e w = (Inr x, t) \<Longrightarrow> b \<and> t = w"
  by (simp add: require_def ensure_def split: if_splits)

lemma now_Inr: "now w = (Inr time, t) \<Longrightarrow> time = w_now w \<and> t = w"
  by (auto simp: now_def)

lemma put_rows_Inr: "put_rows rows w = (Inr x, t) \<Longrightarrow> t = fold apply_row rows (after_io w)"
  unfolding put_rows_def by (auto elim!: op_bind_cases dest!: io_run(2))

lemma encode_Inr: "encode r w = (Inr x, t) \<Longrightarrow> x = r \<and> t = after_io w"
  unfolding encode_def by (auto elim!: op_bind_cases dest!: io_run(2))

lemma save_row_Inr: "save_row r w = (Inr x, t) \<Longrightarrow> t = apply_row r (after_io (after_io w))"
  unfolding save_row_def by (auto elim!: op_bind_cases dest!: encode_Inr put_rows_Inr)

lemma claim_row_Some:
  assumes "claim_row mid revision w = (Inr (Some m), t)"
  obtains m0 where "om_get (w_materials w) mid = Some m0" "m_status m0 = ''queued''"
    "m = m0\<lparr>m_status := ''running'', m_dictionary_revision := revision\<rparr>"
    "om_get (w_materials t) mid = Some m"
proof -
  from assms obtain found u where u: "fetch_maybe w_materials mid w = (Inr found, u)"
    and run: "(case found of None \<Rightarrow> op_return None
     | Some m \<Rightarrow> if m_status m \<noteq> ''queued'' then op_return None
         else let m' = m\<lparr>m_status := ''running'', m_dictionary_revision := revision\<rparr> in
           op_bind (save_row (RMaterial mid m')) (\<lambda>_. op_return (Some m'))) u = (Inr (Some m), t)"
    unfolding claim_row_def by (auto elim!: op_bind_cases)
  from fetch_maybe_Inr[OF u] have found: "found = om_get (w_materials w) mid" by simp
  from run obtain m0 where m0: "found = Some m0" "m_status m0 = ''queued''"
    and "op_bind (save_row (RMaterial mid (m0\<lparr>m_status := ''running'', m_dictionary_revision := revision\<rparr>)))
      (\<lambda>_. op_return (Some (m0\<lparr>m_status := ''running'', m_dictionary_revision := revision\<rparr>))) u = (Inr (Some m), t)"
    by (auto simp: Let_def split: option.splits if_splits)
  then have "m = m0\<lparr>m_status := ''running'', m_dictionary_revision := revision\<rparr>"
    "om_get (w_materials t) mid = Some m"
    by (auto elim!: op_bind_cases dest!: save_row_Inr)
  with that m0 found show thesis by simp
qed

lemma guar_branch:
  "(b \<Longrightarrow> guar S D n m) \<Longrightarrow> (\<not> b \<Longrightarrow> guar S D n m') \<Longrightarrow> guar S D n (if b then m else m')"
  "(x = None \<Longrightarrow> guar S D n m) \<Longrightarrow> (\<And>y. x = Some y \<Longrightarrow> guar S D n (f y)) \<Longrightarrow>
    guar S D n (case x of None \<Rightarrow> m | Some y \<Rightarrow> f y)"
  by (auto split: option.split)

lemma safe_claim_row [safe_intros]: "safe S (claim_row mid revision)"
proof (rule safeI)
  fix D assume D: "ws_inv S D"
  show "guar S D 0 (claim_row mid revision)" unfolding claim_row_def Let_def
    apply (rule guar_read[OF D reads_maybe], simp)
    apply (rule guar_branch(2), rule guar_skip[OF D])
    apply (rule guar_branch(1), rule guar_skip[OF D])
    apply (rule guar_then[OF guar_save_material[OF D]])
        apply (use not_ready_no_result[OF D] in \<open>auto simp: follows_def\<close>)
    done
qed

lemma keeps_claim_row: "keeps S (\<lambda>_. True) (claim_row mid revision) (\<lambda>x w. \<forall>m. x = Some m \<longrightarrow> tracks m w)"
  unfolding keeps_def
proof (intro allI impI conjI)
  fix w assume w: "ws_inv S w"
  show "settled S w (snd (claim_row mid revision w))"
    using safe_claim_row w unfolding safe_def by blast
  fix x m assume "fst (claim_row mid revision w) = Inr x" "x = Some m"
  then have "claim_row mid revision w = (Inr (Some m), snd (claim_row mid revision w))"
    by (simp add: prod_eq_iff)
  then show "tracks m (snd (claim_row mid revision w))"
  proof (rule claim_row_Some)
    fix m0 assume m0: "om_get (w_materials w) mid = Some m0" "m_status m0 = ''queued''"
      "m = m0\<lparr>m_status := ''running'', m_dictionary_revision := revision\<rparr>"
      "om_get (w_materials (snd (claim_row mid revision w))) mid = Some m"
    then show ?thesis using not_ready_no_result[OF w m0(1)] material_invD(1)[OF w m0(1)]
      by (simp add: tracks_def)
  qed
qed

lemma keeps_claim_attempts:
  "keeps S (\<lambda>_. True) (claim_attempts offers) (\<lambda>x w. \<forall>m g k. x = Some (m, g, k) \<longrightarrow> tracks m w)"
proof (induction offers)
  case Nil
  then show ?case by (simp add: keeps_def settled_def)
next
  case (Cons offer offers)
  have none: "keeps S P (op_return None) (\<lambda>x w. \<forall>m g k. x = Some (m, g, k) \<longrightarrow> tracks m w)" for P
    by (simp add: keeps_def settled_def)
  have got: "keeps S (tracks m) (op_bind (new_cancellation (m_task_id m)) (\<lambda>token. op_return (Some (m, g, token))))
      (\<lambda>x w. \<forall>m g k. x = Some (m, g, k) \<longrightarrow> tracks m w)" for m g
    by (rule keeps_bind[OF keeps_safe], rule safe_intros, rule tracks_lasting) (simp add: keeps_def settled_def)
  show ?case unfolding claim_attempts.simps
  proof (rule keeps_bind[OF keeps_safe[of _ _ "\<lambda>_. True"]], rule safe_leaves, rule lasting_true, rule keeps_option, rule none)
    fix o' :: "string \<times> string"
    obtain mid gid where o': "o' = (mid, gid)" by (cases o')
    show "keeps S (\<lambda>_. True) (case o' of (mid, gid) \<Rightarrow> op_bind (fetch w_groups gid) (\<lambda>g.
       op_bind (claim_row mid (wg_dictionary_revision g)) (\<lambda>claimed. case claimed of
         None \<Rightarrow> claim_attempts offers
       | Some m \<Rightarrow> op_bind (new_cancellation (m_task_id m)) (\<lambda>token. op_return (Some (m, g, token))))))
      (\<lambda>x w. \<forall>m g k. x = Some (m, g, k) \<longrightarrow> tracks m w)"
      unfolding o' prod.case
    proof (rule keeps_bind[OF keeps_safe[of _ _ "\<lambda>_. True"]], rule safe_leaves, simp, rule lasting_true,
        rule keeps_bind[OF keeps_claim_row])
      fix g and claimed :: "material option"
      show "keeps S (\<lambda>w. \<forall>m. claimed = Some m \<longrightarrow> tracks m w) (case claimed of
         None \<Rightarrow> claim_attempts offers
       | Some m \<Rightarrow> op_bind (new_cancellation (m_task_id m)) (\<lambda>token. op_return (Some (m, g, token))))
        (\<lambda>x w. \<forall>m g k. x = Some (m, g, k) \<longrightarrow> tracks m w)"
        by (cases claimed) (use Cons.IH got in simp_all)
    qed
  qed
qed

lemma keeps_claim_next:
  "keeps S (\<lambda>_. True) (claim_next offers) (\<lambda>x w. \<forall>m g k. x = Some (m, g, k) \<longrightarrow> tracks m w)"
  unfolding claim_next_def
  by (rule keeps_bind[OF keeps_safe[of _ _ "\<lambda>_. True"]], rule safe_leaves, rule lasting_true, rule keeps_claim_attempts)

section \<open>Sections of the worker\<close>

lemma running_not_ready: "still_running m f \<Longrightarrow> m_status f \<noteq> ''ready''"
  by (simp add: still_running_def)

lemma safe_save_text [safe_intros]: "safe S (save_text m extracted)"
proof (rule safeI)
  fix D assume D: "ws_inv S D"
  show "guar S D 0 (save_text m extracted)" unfolding save_text_def Let_def
    apply (rule guar_read[OF D reads_lock])
    apply (rule guar_read[OF D reads_material])
    apply (rule guar_branch(1), rule guar_skip[OF D])
    apply (rule guar_then[OF guar_save_material[OF D]])
        apply (use not_ready_no_result[OF D] running_not_ready material_invD(1)[OF D] in \<open>auto simp: follows_def\<close>)
    done
qed

lemma save_text_Some:
  assumes "save_text m extracted w = (Inr (Some m'), t)"
  obtains f where "om_get (w_materials w) (m_id m) = Some f" "still_running m f"
    "m' = f\<lparr>m_original_text := extracted\<rparr>" "om_get (w_materials t) (m_id m') = Some m'"
proof -
  from assms obtain f u v where f: "material (m_id m) u = (Inr f, v)" and "lock w = (Inr (), u)"
    and run: "(if \<not> still_running m f then op_return None
     else let m' = f\<lparr>m_original_text := extracted\<rparr> in
       op_bind (save_row (RMaterial (m_id m') m')) (\<lambda>_. op_return (Some m'))) v = (Inr (Some m'), t)"
    unfolding save_text_def by (auto elim!: op_bind_cases)
  then have "om_get (w_materials w) (m_id m) = Some f"
    using material_Inr(1)[OF f] lock_Inr by fastforce
  moreover from run have "still_running m f \<and> m' = f\<lparr>m_original_text := extracted\<rparr>
      \<and> om_get (w_materials t) (m_id m') = Some m'"
    by (auto simp: Let_def elim!: op_bind_cases dest!: save_row_Inr split: if_splits)
  ultimately show thesis using that by blast
qed

lemma keeps_save_text:
  "keeps S (\<lambda>_. True) (save_text m extracted) (\<lambda>x w. \<forall>m'. x = Some m' \<longrightarrow> tracks m' w)"
  unfolding keeps_def
proof (intro allI impI conjI)
  fix w assume w: "ws_inv S w"
  show "settled S w (snd (save_text m extracted w))" using safe_save_text w unfolding safe_def by blast
  fix x m' assume "fst (save_text m extracted w) = Inr x" "x = Some m'"
  then have "save_text m extracted w = (Inr (Some m'), snd (save_text m extracted w))"
    by (simp add: prod_eq_iff)
  then show "tracks m' (snd (save_text m extracted w))"
  proof (rule save_text_Some)
    fix f assume f: "om_get (w_materials w) (m_id m) = Some f" "still_running m f"
      "m' = f\<lparr>m_original_text := extracted\<rparr>"
      "om_get (w_materials (snd (save_text m extracted w))) (m_id m') = Some m'"
    have "m_result_id f = None" using not_ready_no_result[OF w f(1) running_not_ready[OF f(2)]] .
    then show ?thesis using f by (simp add: tracks_def follows_def)
  qed
qed

lemma guar_requeue:
  assumes "ws_inv S D" "om_get (w_materials D) i = Some f" "still_running m f"
  shows "guar S D n (requeue_claim f)"
  unfolding requeue_claim_def material_invD(1)[OF assms(1,2)]
  by (rule guar_save_material[OF assms(1,2) running_not_ready[OF assms(3)]])
    (use not_ready_no_result[OF assms(1,2) running_not_ready[OF assms(3)]] in \<open>simp_all add: follows_def\<close>)

lemma keeps_finish_ai:
  assumes ok: "service_ok S"
  shows "keeps S (tracks m) (finish_ai S m g a) (\<lambda>_ _. True)"
proof (rule keeps_guar)
  fix D assume D: "ws_inv S D" and m: "tracks m D"
  show "guar S D 0 (finish_ai S m g a)" unfolding finish_ai_def
    apply (rule guar_read[OF D reads_lock])
    apply (rule guar_read[OF D reads_material])
    apply (rule guar_read[OF D reads_fetch], simp)
    apply (rule guar_branch(1), rule guar_skip[OF D])
    apply (rule guar_branch(1), rule guar_then[OF guar_requeue[OF D]], assumption, simp, rule safe_basic)
    apply (rule guar_then[OF guar_finish[OF ok D]], assumption)
        apply (use tracks_running[OF D m] in \<open>auto\<close>)[2]
      apply assumption
     apply simp
    apply (rule safe_basic)
    done
qed

lemma keeps_finish_local:
  assumes ok: "service_ok S"
  shows "keeps S (tracks m) (finish_local S m g a waiting token) (\<lambda>_ _. True)"
proof (rule keeps_guar)
  fix D assume D: "ws_inv S D" and m: "tracks m D"
  have same: "follows f (cancelled_material b m) = follows f m" "m_result_id (cancelled_material b m) = m_result_id m"
    "m_id (cancelled_material b m) = m_id m" "m_group_id (cancelled_material b m) = m_group_id m" for f b
    by (simp_all add: cancelled_material_def follows_def)
  have fired: "reads D n (is_cancelled token) (\<lambda>_ _. True)" for n
    by (simp add: is_cancelled_def reads_def)
  show "guar S D 0 (finish_local S m g a waiting token)" unfolding finish_local_def
    apply (rule guar_read[OF D reads_lock])
    apply (rule guar_read[OF D reads_material])
    apply (rule guar_read[OF D reads_fetch], simp)
    apply (rule guar_branch(1), rule guar_skip[OF D])
    apply (rule guar_branch(1), rule guar_requeue[OF D], assumption, simp)
    apply (rule guar_read[OF D fired])
    subgoal premises prems for _ _ f _ cur _ b
      by (rule guar_finish[OF ok D, where old = f and cur = cur])
        (use prems tracks_running[OF D m, of f] in \<open>simp_all add: same\<close>)
    done
qed

lemma keeps_save_analysis:
  "keeps S (tracks m) (save_analysis m a) (\<lambda>x w. \<forall>m'. x = Some m' \<longrightarrow> tracks m' w)"
proof -
  have safe: "keeps S (tracks m) (save_analysis m a) (\<lambda>_ _. True)"
  proof (rule keeps_guar)
    fix D assume D: "ws_inv S D" and m: "tracks m D"
    show "guar S D 0 (save_analysis m a)" unfolding save_analysis_def Let_def
      apply (rule guar_read[OF D reads_lock])
      apply (rule guar_read[OF D reads_material])
      apply (rule guar_branch(1), rule guar_skip[OF D])
      apply (rule guar_then[OF guar_save_material[OF D]])
          apply (use tracks_running[OF D m] in \<open>auto simp: follows_def\<close>)
      done
  qed
  have eq: "m' = m\<lparr>m_analysis := Some a\<rparr>" if "fst (save_analysis m a w) = Inr (Some m')" for m' w
  proof -
    have "save_analysis m a w = (Inr (Some m'), snd (save_analysis m a w))" using that by (simp add: prod_eq_iff)
    then show ?thesis unfolding save_analysis_def Let_def
      by (auto elim!: op_bind_cases split: if_splits)
  qed
  show ?thesis unfolding keeps_def
  proof (intro allI impI conjI)
    fix w assume w: "ws_inv S w" "tracks m w"
    show st: "settled S w (snd (save_analysis m a w))" using safe w unfolding keeps_def by blast
    fix x m' assume "fst (save_analysis m a w) = Inr x" "x = Some m'"
    then have "tracks m' = tracks m" using eq[of w m'] by simp
    then show "tracks m' (snd (save_analysis m a w))"
      using tracks_lasting[of S m] w(2) st unfolding lasting_def settled_def by metis
  qed
qed

text \<open>A consent is rewritten with a larger set of used materials.\<close>

lemma guar_save_consent:
  assumes D: "ws_inv S D" and old: "om_get (w_consents D) i = Some c" and c: "consent_grows c c'"
  shows "guar S D n (save_row (RConsent i c'))"
proof -
  have "guar S D j (save_row (RConsent i c'))" if "w_issued D \<le> j" for j
  proof (rule guar_save_side[OF D])
    show "others_ok S D k {RConsent i c'}" if "j \<le> k" for k
      using consent_invD[OF D old] issued_mono[of S "w_issued D" "cc_id c'" k] \<open>w_issued D \<le> j\<close> that old c
      by (auto simp: others_ok_def consent_grows_def)
  qed (simp_all add: is_side_row_def groups_ok_def)
  from this[OF order_refl] show ?thesis unfolding guar_def using sameD(11) by blast
qed

lemma safe_claim_cloud [safe_intros]: "safe S (claim_cloud S' m)"
proof (rule safeI)
  fix D assume D: "ws_inv S D"
  show "guar S D 0 (claim_cloud S' m)" unfolding claim_cloud_def Let_def
    apply (rule guar_read[OF D reads_lock])
    apply (rule guar_read[OF D reads_maybe], simp)
    apply (rule guar_branch(2), rule guar_skip[OF D])
    apply (rule guar_read[OF D reads_fetch], simp)
    apply (rule guar_read[OF D reads_now])
    apply (rule guar_branch(1), rule guar_skip[OF D])
    apply (rule guar_read[OF D reads_material])
    apply (rule guar_branch(1), rule guar_reads[OF D reads_fail[where Q = "\<lambda>_ _. True"]])
    apply (rule guar_then[OF guar_save_consent[OF D]])
      apply (auto simp: consent_grows_def)
    done
qed

section \<open>A job among the handlers\<close>

text \<open>What runs at the unlocked points of a job is made of safe operations.\<close>

definition job_ok :: "service \<Rightarrow> job \<Rightarrow> bool" where
  "job_ok S J \<longleftrightarrow> (\<forall>k w. ws_inv S w \<longrightarrow> settled S w (jb_gap J k w))"

lemma safe_gap: "job_ok S J \<Longrightarrow> safe S (gap J k)"
  by (simp add: gap_def safe_def job_ok_def)

lemma safe_poll_dispatch: "job_ok S J \<Longrightarrow> safe S (poll_dispatch S' J m c p n)"
proof (induction n)
  case 0
  show ?case unfolding poll_dispatch.simps by (intro safe_intros)
next
  case (Suc n)
  then show ?case unfolding poll_dispatch.simps by (intro safe_intros safe_gap) blast+
qed

lemma safe_cloud_findings: "job_ok S J \<Longrightarrow> safe S (cloud_findings S' J m c p)"
  unfolding cloud_findings_def by (intro safe_intros safe_gap safe_poll_dispatch)

lemma safe_select_cancel: "safe S m \<Longrightarrow> safe S (select_cancel token m)"
  unfolding select_cancel_def by (intro safe_intros)

lemma safe_cloud_assist: "job_ok S J \<Longrightarrow> safe S (cloud_assist S' J m g token c p)"
  unfolding cloud_assist_def by (intro safe_intros safe_gap safe_select_cancel safe_cloud_findings)

lemma safe_cloud_step: "job_ok S J \<Longrightarrow> safe S (cloud_step S' J m g token a)"
  unfolding cloud_step_def by (intro safe_intros safe_cloud_assist)

lemma keeps_cloud_step:
  assumes "job_ok S J"
  shows "keeps S (tracks m) (cloud_step S' J m g token a) (\<lambda>(m', _, _). tracks m')"
proof -
  have same: "tracks m' = tracks m" if "fst (cloud_step S' J m g token a w) = Inr (m', a', b)" for m' a' b w
  proof -
    have "cloud_step S' J m g token a w = (Inr (m', a', b), snd (cloud_step S' J m g token a w))"
      using that by (simp add: prod_eq_iff)
    then show ?thesis unfolding cloud_step_def
      by (auto elim!: op_bind_cases split: if_splits option.splits prod.splits sum.splits)
  qed
  show ?thesis unfolding keeps_def
  proof (intro allI impI conjI)
    fix w assume w: "ws_inv S w" "tracks m w"
    show st: "settled S w (snd (cloud_step S' J m g token a w))"
      using safe_cloud_step[OF assms] w unfolding safe_def by blast
    have tr: "tracks m (snd (cloud_step S' J m g token a w))"
      using tracks_lasting[of S m] w(2) st unfolding lasting_def settled_def by blast
    fix x assume x: "fst (cloud_step S' J m g token a w) = Inr x"
    obtain m' a' b where eq: "x = (m', a', b)" by (cases x) auto
    show "(case x of (m', _, _) \<Rightarrow> tracks m') (snd (cloud_step S' J m g token a w))"
      using same[OF x[unfolded eq]] tr by (simp add: eq)
  qed
qed

lemma safe_failed_stage: "safe S (failed_stage m sel tsha e)"
  unfolding failed_stage_def by (intro safe_intros)

lemmas keeps_step = keeps_bind[OF keeps_safe[OF _ tracks_lasting]]

lemma keeps_process_with_model:
  assumes ok: "service_ok S" and J: "job_ok S J"
  shows "keeps S (tracks m) (process_with_model S J m g token bytes sel) (\<lambda>_ _. True)"
proof -
  have tail: "keeps S (tracks m)
     (op_bind (gap J 5) (\<lambda>_.
         op_bind (save_ai_stage (m_id m) (m_revision m) (m_source_sha256 m) ''text_ready'' sel
           (Some tsha) None) (\<lambda>_.
         op_bind (gap J 6) (\<lambda>_.
         op_bind (save_ai_stage (m_id m) (m_revision m) (m_source_sha256 m) ''redaction_running'' sel
           (Some tsha) None) (\<lambda>_.
         op_bind (gap J 7) (\<lambda>_.
         op_bind (case jb_redact J (m_original_text m) g sel tsha (m_dismissed m) of
             Inr a \<Rightarrow> op_return a | Inl e \<Rightarrow> failed_stage m sel (Some tsha) e) (\<lambda>a.
         op_bind (finish_ai S m g a) (\<lambda>finished.
         if \<not> finished then op_return ()
         else op_bind (gap J 10) (\<lambda>_. save_ai_stage (m_id m) (m_revision m) (m_source_sha256 m)
           (if a_needs_review a then ''needs_review'' else ''completed'') sel (Some tsha) None))))))))) (\<lambda>_ _. True)"
    for m tsha
    by (intro keeps_step safe_gap[OF J] safe_intros safe_failed_stage keeps_bind[OF keeps_finish_ai[OF ok]]
        keeps_if keeps_true)
  show ?thesis unfolding process_with_model_def Let_def
    apply (rule keeps_step, rule safe_save_ai_stage)
    apply (rule keeps_step, rule safe_gap[OF J])
    apply (rule keeps_step, (intro safe_intros safe_failed_stage)[1])
    apply (rule keeps_step, rule safe_is_cancelled)
    apply (rule keeps_step, rule safe_leaves)
    apply (rule keeps_step, rule safe_gap[OF J])
    apply (rule keeps_bind[OF keeps_weaken_pre[OF keeps_save_text]], simp)
    subgoal for _ _ _ _ _ _ saved
      by (cases saved) (simp_all add: keeps_true keeps_weaken_pre[OF tail])
    done
qed

lemma keeps_process_locally:
  assumes ok: "service_ok S" and J: "job_ok S J"
  shows "keeps S (tracks m) (process_locally S J m g token bytes) (\<lambda>_ _. True)"
proof -
  have tail: "keeps S (tracks m) (op_bind (gap J 4) (\<lambda>_.
         op_bind (cloud_step S J m g token a) (\<lambda>(m, a, waiting).
         op_bind (gap J 10) (\<lambda>_. finish_local S m g a waiting token)))) (\<lambda>_ _. True)" for m a
    apply (rule keeps_step, rule safe_gap[OF J])
    apply (rule keeps_bind[OF keeps_cloud_step[OF J]])
    subgoal for _ x
      by (cases x) (simp add: keeps_step[OF safe_gap[OF J] keeps_finish_local[OF ok]])
    done
  have tracks: "tracks (m\<lparr>m_original_text := t\<rparr>) = tracks m" for t by simp
  show ?thesis unfolding process_locally_def Let_def
    apply (rule keeps_step, rule safe_basic)
    apply (rule keeps_step, rule safe_basic)
    apply (rule keeps_step, rule safe_map_err, rule safe_leaves)
    apply (rule keeps_step, rule safe_basic)
    apply (rule keeps_step, rule safe_gap[OF J])
    apply (subst tracks[symmetric], rule keeps_bind[OF keeps_save_analysis])
    subgoal for _ _ _ _ _ saved
      by (cases saved) (simp_all add: keeps_true keeps_weaken_pre[OF tail])
    done
qed

lemma keeps_process:
  assumes ok: "service_ok S" and J: "job_ok S J"
  shows "keeps S (tracks m) (process_material S J m g token) (\<lambda>_ _. True)"
  unfolding process_material_def
  apply (rule keeps_step, (intro safe_intros)[1])
  apply (rule keeps_step, rule safe_gap[OF J])
  apply (rule keeps_step, (intro safe_intros)[1])
  apply (rule keeps_step, rule safe_gap[OF J])
  apply (rule keeps_step, rule safe_basic)
  apply (rule keeps_step, rule safe_gap[OF J])
  apply (rule keeps_step, rule safe_leaves, simp)
  apply (rule keeps_step, rule safe_leaves)
  apply (rule keeps_option, rule keeps_process_locally[OF ok J], rule keeps_process_with_model[OF ok J])
  done

lemma safe_fail_material [safe_intros]: "safe S (fail_material mid revision code)"
proof (rule safeI)
  fix D assume D: "ws_inv S D"
  show "guar S D 0 (fail_material mid revision code)" unfolding fail_material_def
    apply (rule guar_read[OF D reads_lock])
    apply (rule guar_read[OF D reads_material])
    apply (rule guar_branch(1), rule guar_then[OF guar_save_material[OF D]])
         apply (use not_ready_no_result[OF D] in \<open>auto simp: follows_def intro: guar_skip[OF D]\<close>)
    done
qed

lemma safe_record_failure [safe_intros]: "safe S (record_material_failure mid revision code)"
  unfolding record_material_failure_def by (intro safe_intros)

lemma safe_settle: "job_ok S J \<Longrightarrow> safe S (settle_material_failure J n mid revision code)"
proof (induction n)
  case 0
  show ?case unfolding settle_material_failure.simps by (intro safe_intros)
next
  case (Suc n)
  then show ?case unfolding settle_material_failure.simps by (intro safe_intros safe_gap) blast+
qed

lemma keeps_attempt: "keeps S P m (\<lambda>_ _. True) \<Longrightarrow> keeps S P (op_attempt m) (\<lambda>_ _. True)"
  unfolding keeps_def op_attempt_def by (simp add: case_prod_beta)

lemma safe_worker_turn:
  assumes ok: "service_ok S" and J: "job_ok S J"
  shows "safe S (worker_turn S J offers attempts)"
  unfolding safe_keeps worker_turn_def
proof (rule keeps_bind[OF keeps_claim_next], rule keeps_option)
  show "keeps S P (op_return ()) (\<lambda>_ _. True)" for P by (simp add: keeps_def settled_def)
  fix claimed :: "(material \<times> ws_group \<times> nat) option" and c assume c: "claimed = Some c"
  obtain m g token where eq: "c = (m, g, token)" by (cases c) auto
  have rest: "keeps S (tracks m) (op_bind (op_attempt (process_material S J m g token)) (\<lambda>r. case r of
       Inr _ \<Rightarrow> op_return ()
     | Inl e \<Rightarrow> op_bind (gap J 11) (\<lambda>_.
         op_bind (settle_material_failure J attempts (m_id m) (m_revision m) (e_code e)) (\<lambda>_. op_return ()))))
     (\<lambda>_ _. True)"
    by (rule keeps_bind[OF keeps_attempt[OF keeps_process[OF ok J]]], rule keeps_true)
      (intro safe_intros safe_gap[OF J] safe_settle[OF J])
  show "keeps S (\<lambda>w. \<forall>m g k. claimed = Some (m, g, k) \<longrightarrow> tracks m w) (case c of (m, g, token) \<Rightarrow>
      op_bind (op_attempt (process_material S J m g token)) (\<lambda>r. case r of
       Inr _ \<Rightarrow> op_return ()
     | Inl e \<Rightarrow> op_bind (gap J 11) (\<lambda>_.
         op_bind (settle_material_failure J attempts (m_id m) (m_revision m) (e_code e)) (\<lambda>_. op_return ()))))
     (\<lambda>_ _. True)"
    unfolding eq prod.case by (rule keeps_weaken_pre[OF rest]) (simp add: c eq)
qed

section \<open>Recovery\<close>

lemma guar_recover:
  assumes D: "ws_inv S D" and m: "om_get (w_materials D) i = Some m" and "m_result_id m = None"
    and "follows m m'" "m_result_id m' = None"
  shows "guar S D n (save_row (RMaterial i m'))"
  unfolding save_row_def
  by (rule guar_read[OF D reads_encode], rule guar_put_one[OF D m, of _ "{}"]) (use assms in simp_all)

text \<open>An interrupted material is offered by the index because it is running.\<close>

definition interrupted :: "string \<Rightarrow> ws \<Rightarrow> bool" where
  "interrupted mid w \<longleftrightarrow> (\<forall>m. om_get (w_materials w) mid = Some m \<longrightarrow> m_status m \<noteq> ''ready'')"

lemma guar_recover_material:
  assumes D: "ws_inv S D" and run: "interrupted mid D"
  shows "guar S D n (recover_material mid)"
  unfolding recover_material_def
proof (rule guar_read[OF D reads_material])
  fix m k assume m: "om_get (w_materials D) mid = Some m"
  have none: "m_result_id m = None" using not_ready_no_result[OF D m] run m by (simp add: interrupted_def)
  have id: "m_id m = mid" by (rule material_invD(1)[OF D m])
  show "guar S D k (op_bind (fetch_maybe w_consents (m_task_id m)) (\<lambda>c.
     save_row (RMaterial (m_id m)
       (if (case c of None \<Rightarrow> False | Some c \<Rightarrow> m_id m \<in> set (cc_used_materials c))
        then m\<lparr>m_status := ''needs_review'', m_reason_code := Some ''cloud_dispatch_interrupted''\<rparr>
        else m\<lparr>m_status := ''queued''\<rparr>))))"
    unfolding id
    by (rule guar_read[OF D reads_maybe], simp, rule guar_recover[OF D m none])
      (simp_all add: follows_def none)
qed

lemma safe_recover_ai_stage [safe_intros]: "safe S (recover_ai_stage s)"
proof (rule safeI)
  fix D assume D: "ws_inv S D"
  have stage: "safe S (op_bind now (\<lambda>time. save_row (RStage (as_material_id s) (s\<lparr>as_stage := ''interrupted'',
      as_error_code := Some ''ai_dispatch_interrupted'', as_updated_at := time\<rparr>))))"
    by (intro safe_intros safe_save_stage) simp
  show "guar S D 0 (recover_ai_stage s)" unfolding recover_ai_stage_def
  proof (rule guar_branch(1), rule guar_skip[OF D], rule guar_read[OF D reads_attempt[OF reads_material]])
    fix found :: "error + material" and k
    assume found: "\<forall>m. found = Inr m \<longrightarrow> om_get (w_materials D) (as_material_id s) = Some m"
    show "guar S D k (case found of Inl _ \<Rightarrow> op_return ()
      | Inr m \<Rightarrow> op_bind
          (if m_revision m = as_revision s \<and> m_source_sha256 m = as_source_sha256 s
              \<and> m_status m \<in> {''running'', ''queued''}
           then save_row (RMaterial (m_id m) (m\<lparr>m_status := ''needs_review'',
             m_reason_code := Some ''ai_dispatch_interrupted''\<rparr>))
           else op_return ()) (\<lambda>_. op_bind now (\<lambda>time.
          save_row (RStage (as_material_id s) (s\<lparr>as_stage := ''interrupted'',
            as_error_code := Some ''ai_dispatch_interrupted'', as_updated_at := time\<rparr>)))))"
    proof (cases found)
      case (Inl e)
      then show ?thesis by (simp add: guar_skip[OF D])
    next
      case (Inr m)
      then have m: "om_get (w_materials D) (as_material_id s) = Some m" using found by simp
      have "m_result_id m = None" if "m_status m \<in> {''running'', ''queued''}"
        using not_ready_no_result[OF D m] that by auto
      then show ?thesis unfolding Inr sum.case material_invD(1)[OF D m]
        by (intro guar_then guar_branch(1) guar_skip[OF D] stage guar_recover[OF D m])
          (auto simp: follows_def)
    qed
  qed
qed

lemma safe_recover_ai_stages [safe_intros]: "safe S recover_ai_stages"
  unfolding recover_ai_stages_def by (intro safe_intros table_only_tables)

lemma save_row_cases:
  assumes "save_row r w = (x, t)"
  obtains "same w t" | xs where "x = Inr ()" "t = apply_row r (w\<lparr>w_outcomes := xs\<rparr>)"
proof (cases x)
  case (Inr y)
  then show thesis using that(2) save_row_Inr[of r w y t] assms by simp
next
  case (Inl e)
  have "same w t" using assms Inl unfolding save_row_def encode_def put_rows_def
    by (auto elim!: op_bind_cases dest!: io_run(2,3))
  then show thesis by (rule that(1))
qed

lemma recover_material_interrupted:
  assumes "interrupted j w"
  shows "interrupted j (snd (recover_material mid w))"
proof -
  obtain r t where run: "recover_material mid w = (r, t)" by fastforce
  have quiet: "interrupted j u" if "w_materials u = w_materials w" for u
    using assms that by (simp add: interrupted_def)
  have "interrupted j t" using run unfolding recover_material_def
  proof (cases rule: op_bind_cases)
    case (err e)
    then show ?thesis using quiet io_run(3) unfolding material_def fetch_def
      by (auto elim!: op_bind_cases dest!: io_run(2,3) simp: ok_or_def split: option.splits)
  next
    case (ok m u)
    have u: "w_materials u = w_materials w" using material_Inr(2)[OF ok(1)] by simp
    from ok(2) show ?thesis
    proof (cases rule: op_bind_cases)
      case (err e)
      then show ?thesis using quiet u unfolding fetch_maybe_def by (auto elim!: op_bind_cases dest!: io_run(2,3))
    next
      case (ok c v)
      have v: "w_materials v = w_materials w" using fetch_maybe_Inr(2)[OF ok(1)] u by simp
      from ok(2) show ?thesis
      proof (rule save_row_cases)
        assume "same v t"
        then show ?thesis using quiet v sameD(2) by metis
      next
        fix xs assume "t = apply_row (RMaterial (m_id m)
          (if (case c of None \<Rightarrow> False | Some c \<Rightarrow> m_id m \<in> set (cc_used_materials c))
           then m\<lparr>m_status := ''needs_review'', m_reason_code := Some ''cloud_dispatch_interrupted''\<rparr>
           else m\<lparr>m_status := ''queued''\<rparr>)) (v\<lparr>w_outcomes := xs\<rparr>)"
        then show ?thesis using assms v by (auto simp: interrupted_def)
      qed
    qed
  qed
  with run show ?thesis by simp
qed

lemma keeps_recover:
  "keeps S (\<lambda>w. \<forall>i\<in>set ids. interrupted i w) (op_each recover_material ids) (\<lambda>_ _. True)"
proof (induction ids)
  case Nil
  show ?case by (simp add: keeps_def settled_def)
next
  case (Cons i ids)
  show ?case unfolding op_each.simps
  proof (rule keeps_bind[OF _ Cons.IH], unfold keeps_def, intro allI impI conjI)
    fix w assume w: "ws_inv S w" "\<forall>j\<in>set (i # ids). interrupted j w"
    show "settled S w (snd (recover_material i w))"
      by (rule guar_at[OF guar_recover_material[OF w(1)]]) (use w in simp)
    show "\<forall>j\<in>set ids. interrupted j (snd (recover_material i w))"
      using w(2) recover_material_interrupted by simp
  qed
qed

lemma keeps_open:
  "keeps S (\<lambda>w. \<forall>i\<in>set ids. interrupted i w) (open_workspace ids) (\<lambda>_ _. True)"
proof -
  have quiet: "keeps S (\<lambda>w. \<forall>i\<in>set ids. interrupted i w) m (\<lambda>_ w. \<forall>i\<in>set ids. interrupted i w)"
    if "\<And>w. same w (snd (m w))" for m :: "unit wop"
    unfolding keeps_def interrupted_def using sameD(2)[OF that] settled_same[OF _ that] by simp
  have io: "same w (snd (io w))" for w by (cases w rule: io_cases) simp_all
  show ?thesis unfolding open_workspace_def
    by (rule keeps_bind[OF quiet], simp, rule keeps_bind[OF quiet[OF io]], rule keeps_bind[OF keeps_recover],
        rule keeps_true, rule safe_recover_ai_stages)
qed

end
