(* ===== verification/Deployment.thy ===== *)
theory Deployment imports Interleaving begin

text \<open>
  The running service as a transition system. A configuration is the service (its engine and its
  generator of identifiers) with the decoded store; its steps are requests, turns of the worker
  with requests at its unlocked points, submissions of a client with requests while its files are
  read, restarts, and changes of the environment: time, faults, provider settings, open chats.

  Two things the code does are not steps here. An AI run that reads a material or a result without
  its length or format stores the row again with them (\<open>ai\_runs.rs\<close>, modelled in \<open>Run\_Messages\<close>): it
  reads the row under one lock and writes all of it under another, so the steps cover the executions
  in which no handler changed that row in between; otherwise the older row comes back. And the list
  of a table leaves out a row that cannot be decoded (\<open>Store.list\_objects\<close>), where \<open>fetch\_all\<close> here
  returns every row or fails: the steps are those of tables whose rows can be decoded.
\<close>

section \<open>Steps\<close>

datatype request =
    CreateGroup string
  | SetDictionary string "dictionary_entry list"
  | RevokeMaterial string
  | ReadResult string
  | ExportResult "string \<Rightarrow> string option" "string \<Rightarrow> string option" string string
  | ExportBatch archive_writer "string list" string
  | TaskStatus string
  | Submit string string "import_file list" "string option"
  | ReplaceMaterial string nat import_file
  | CancelTask string
  | RetryTask string
  | Review string review_request
  | Consent string string string string
  | RevokeConsent string
  | CreateClient string string
  | RevokeClient string
  | Clients
  | McpStatus string string
  | McpRead string string "string option"
  | Tick nat
  | Faults "error option list"
  | Configure "(string, provider_config) omap"
  | Chats "nat list"

fun serve :: "service \<Rightarrow> request \<Rightarrow> ws \<Rightarrow> ws" where
  "serve S (CreateGroup name) w = snd (create_group S name w)"
| "serve S (SetDictionary g es) w = snd (set_dictionary S g es w)"
| "serve S (RevokeMaterial i) w = snd (revoke_material i w)"
| "serve S (ReadResult i) w = snd (read_result S i w)"
| "serve S (ExportResult package extract i format) w = snd (export_result S package extract i format w)"
| "serve S (ExportBatch W ids format) w = snd (export_batch S W ids format w)"
| "serve S (TaskStatus i) w = snd (task_status i w)"
| "serve S (Submit g request_id files client_id) w = snd (submit S g request_id files client_id w)"
| "serve S (ReplaceMaterial i revision f) w = snd (replace_material S i revision f w)"
| "serve S (CancelTask i) w = snd (cancel_task i w)"
| "serve S (RetryTask i) w = snd (retry_task i w)"
| "serve S (Review i q) w = snd (review S i q w)"
| "serve S (Consent i provider_id model purpose) w = snd (consent S i provider_id model purpose w)"
| "serve S (RevokeConsent i) w = snd (revoke_consent i w)"
| "serve S (CreateClient name g) w = snd (create_client S name g w)"
| "serve S (RevokeClient i) w = snd (revoke_client i w)"
| "serve S Clients w = snd (clients w)"
| "serve S (McpStatus token i) w = snd (mcp_status S token i w)"
| "serve S (McpRead token i cursor) w = snd (mcp_read S token i cursor w)"
| "serve S (Tick n) w = w\<lparr>w_now := w_now w + n\<rparr>"
| "serve S (Faults xs) w = w\<lparr>w_outcomes := xs\<rparr>"
| "serve S (Configure p) w = w\<lparr>w_providers := p\<rparr>"
| "serve S (Chats cs) w = w\<lparr>w_chats := cs\<rparr>"

text \<open>What handlers can do at an unlocked point: any sequence of requests.\<close>

definition interference :: "service \<Rightarrow> (ws \<Rightarrow> ws) \<Rightarrow> bool" where
  "interference S f \<longleftrightarrow> (\<forall>w. \<exists>qs. f w = fold (serve S) qs w)"

datatype event =
    Request request
  | Submitting "nat \<Rightarrow> disk" path "ws \<Rightarrow> ws" string string "string list"
  | Turn job "(string \<times> string) option list" nat
  | Restart "string list"

inductive service_step :: "service \<times> ws \<Rightarrow> event \<Rightarrow> service \<times> ws \<Rightarrow> bool" where
  request: "service_step (S, w) (Request q) (S, serve S q w)"
| submitting: "interference S during \<Longrightarrow>
    service_step (S, w) (Submitting D root during token request_id paths)
      (S, snd (mcp_submit S D root during token request_id paths w))"
| turn: "(\<And>k. interference S (jb_gap J k)) \<Longrightarrow>
    service_step (S, w) (Turn J offers attempts) (S, snd (worker_turn S J offers attempts w))"
| restart: "(\<And>i. i \<in> set ids \<longleftrightarrow> (\<exists>m. om_get (w_materials w) i = Some m \<and> m_status m = ''running'')) \<Longrightarrow>
    service_step (S, w) (Restart ids) (S, snd (open_workspace ids w))"

inductive_cases service_stepE: "service_step c l d"

definition empty_tables :: "ws \<Rightarrow> bool" where
  "empty_tables w \<longleftrightarrow> w_groups w = [] \<and> w_materials w = [] \<and> w_tasks w = [] \<and> w_results w = []
     \<and> w_consents w = [] \<and> w_clients w = [] \<and> w_stages w = [] \<and> w_sources w = []"

definition service_init :: "service \<times> ws \<Rightarrow> bool" where
  "service_init c \<longleftrightarrow> service_ok (fst c) \<and> empty_tables (snd c)"

definition service_inv :: "service \<times> ws \<Rightarrow> bool" where
  "service_inv c \<longleftrightarrow> service_ok (fst c) \<and> ws_inv (fst c) (snd c)"

section \<open>Every step is an evolution\<close>

lemma settled_environment:
  assumes "ws_inv S w"
  shows "settled S w (w\<lparr>w_now := w_now w + n\<rparr>)" "settled S w (w\<lparr>w_outcomes := xs\<rparr>)"
    "settled S w (w\<lparr>w_providers := p\<rparr>)" "settled S w (w\<lparr>w_chats := cs\<rparr>)"
proof -
  have cur: "current S (w\<lparr>w_now := w_now w + n\<rparr>) = current S w" "current S (w\<lparr>w_providers := p\<rparr>) = current S w"
    by (intro ext, simp add: current_def live_def)+
  then have "ws_inv S (w\<lparr>w_now := w_now w + n\<rparr>)" "ws_inv S (w\<lparr>w_providers := p\<rparr>)"
    using assms unfolding ws_inv_def material_inv_def result_inv_def task_inv_def other_inv_def by simp_all
  moreover have "evolves S w (w\<lparr>w_now := w_now w + n\<rparr>)" "evolves S w (w\<lparr>w_providers := p\<rparr>)"
    by (auto simp: evolves_def same_client_def consent_grows_def)
  ultimately show "settled S w (w\<lparr>w_now := w_now w + n\<rparr>)" "settled S w (w\<lparr>w_providers := p\<rparr>)"
    by (simp_all add: settled_def)
  show "settled S w (w\<lparr>w_outcomes := xs\<rparr>)" "settled S w (w\<lparr>w_chats := cs\<rparr>)"
    using assms by (simp_all add: settled_same)
qed

lemma settled_safe: "safe S m \<Longrightarrow> ws_inv S w \<Longrightarrow> settled S w (snd (m w))"
  unfolding safe_def by blast

lemma settled_serve:
  assumes "service_ok S" and "ws_inv S w"
  shows "settled S w (serve S q w)"
  using assms by (cases q) (auto intro!: settled_environment settled_safe safe_intros simp del: split_paired_All)

lemma settled_requests: "service_ok S \<Longrightarrow> ws_inv S w \<Longrightarrow> settled S w (fold (serve S) qs w)"
proof (induction qs arbitrary: w)
  case Nil
  then show ?case by (simp add: settled_def)
next
  case (Cons q qs)
  have "settled S w (serve S q w)" using settled_serve[OF Cons.prems] .
  then show ?case using Cons.IH[OF Cons.prems(1), of "serve S q w"] settled_trans
    unfolding settled_def fold.simps comp_apply by blast
qed

lemma interference_settled: "service_ok S \<Longrightarrow> interference S f \<Longrightarrow> ws_inv S w \<Longrightarrow> settled S w (f w)"
  unfolding interference_def by (metis settled_requests)

lemma safe_mcp_submit:
  assumes ok: "service_ok S" and during: "interference S during"
  shows "safe S (mcp_submit S D root during token request_id paths)"
proof -
  have "safe S (op_modify during)"
    using interference_settled[OF ok during] by (simp add: safe_def)
  then show ?thesis unfolding mcp_submit_def by (intro safe_intros ok)
qed

lemma settled_step:
  assumes "service_step (S, w) l (S', t)" and ok: "service_ok S" and w: "ws_inv S w"
  shows "S' = S \<and> settled S w t"
  using assms(1)
proof (cases rule: service_step.cases)
  case (request q)
  then show ?thesis using settled_serve[OF ok w] by simp
next
  case (submitting during F root token request_id paths)
  then show ?thesis using settled_safe[OF safe_mcp_submit[OF ok] w] by simp
next
  case (turn J offers attempts)
  have "job_ok S J" using turn(4) interference_settled[OF ok] by (simp add: job_ok_def)
  then show ?thesis using turn settled_safe[OF safe_worker_turn[OF ok] w] by simp
next
  case (restart ids)
  have "\<forall>i\<in>set ids. interrupted i w" using restart(4) by (auto simp: interrupted_def)
  then have "settled S w (snd (open_workspace ids w))"
    using keeps_open[of S ids] w unfolding keeps_def by blast
  then show ?thesis using restart by simp
qed

lemma empty_inv: "empty_tables w \<Longrightarrow> ws_inv S w"
  by (simp add: empty_tables_def ws_inv_def material_inv_def result_inv_def task_inv_def other_inv_def)

section \<open>The transition system\<close>

text \<open>A system whose steps stay in a preorder under the invariant: so do its runs.\<close>

locale evolving_system = transition_system init step inv
  for init :: "'s \<Rightarrow> bool" and step :: "'s \<Rightarrow> 'l \<Rightarrow> 's \<Rightarrow> bool" and inv :: "'s \<Rightarrow> bool" +
  fixes relates :: "'s \<Rightarrow> 's \<Rightarrow> bool"
  assumes relates_refl: "relates s s"
    and relates_trans: "relates s t \<Longrightarrow> relates t u \<Longrightarrow> relates s u"
    and relates_step: "inv s \<Longrightarrow> step s l t \<Longrightarrow> relates s t"
begin

lemma run_relates: "run s ls t \<Longrightarrow> inv s \<Longrightarrow> relates s t"
  by (induction ls arbitrary: s) (auto intro: relates_refl relates_trans relates_step inv_step)

lemma reach_run_relates: "reach s \<Longrightarrow> run s ls t \<Longrightarrow> relates s t \<and> inv s \<and> inv t"
  using reach_inv run_relates run_inv by blast

end

definition service_evolves :: "service \<times> ws \<Rightarrow> service \<times> ws \<Rightarrow> bool" where
  "service_evolves c d \<longleftrightarrow> fst d = fst c \<and> evolves (fst c) (snd c) (snd d)"

interpretation workspace: evolving_system service_init service_step service_inv service_evolves
proof
  show "service_init c \<Longrightarrow> service_inv c" for c
    by (simp add: service_init_def service_inv_def empty_inv)
  show "service_inv c \<Longrightarrow> service_step c l d \<Longrightarrow> service_inv d" for c l d
    using settled_step[of "fst c" "snd c" l "fst d" "snd d"] by (simp add: service_inv_def settled_def)
  show "service_evolves c c" for c by (simp add: service_evolves_def)
  show "service_evolves c d \<Longrightarrow> service_evolves d e \<Longrightarrow> service_evolves c e" for c d e
    by (auto simp: service_evolves_def intro: evolves_trans)
  show "service_inv c \<Longrightarrow> service_step c l d \<Longrightarrow> service_evolves c d" for c l d
    using settled_step[of "fst c" "snd c" l "fst d" "snd d"]
    by (simp add: service_inv_def settled_def service_evolves_def)
qed

lemma workspace_run:
  assumes "workspace.reach (S, w)" and "workspace.run (S, w) ls (S', t)"
  shows "S' = S" "service_ok S" "ws_inv S w" "ws_inv S t" "evolves S w t"
  using workspace.reach_run_relates[OF assms] by (auto simp: service_evolves_def service_inv_def)

lemma workspace_reach: "workspace.reach (S, w) \<Longrightarrow> service_ok S \<and> ws_inv S w"
  using workspace.reach_inv by (fastforce simp: service_inv_def)

end
