(* ===== verification/Sample_Run.thy ===== *)
theory Sample_Run imports Deployment begin

text \<open>
  One run of the service, from the empty store to a published result: a group, a client, a
  submission of one file, and a turn of the worker on the model path. The states are the ones
  the operations compute; the properties of the service are instantiated on them.
\<close>

section \<open>Accesses that do not fail\<close>

lemma quiet_access:
  assumes "w_outcomes w = []"
  shows "io w = (Inr (), w)" "lock w = (Inr (), w)" "encode r w = (Inr r, w)"
    "put_rows rows w = (Inr (), fold apply_row rows w)" "save_row r w = (Inr (), apply_row r w)"
    "fetch_maybe table i w = (Inr (om_get (table w) i), w)" "fetch_all table w = (Inr (om_values (table w)), w)"
    "om_get (table w) i = Some x \<Longrightarrow> fetch table i w = (Inr x, w)"
    "om_get (w_materials w) i = Some m \<Longrightarrow> material i w = (Inr m, w)"
    "cancel_cloud_task t w = (Inr (), fire_task t w)"
    "new_id S p w = (Inr (p @ ''_'' @ sv_uuid S (w_issued w)), w\<lparr>w_issued := Suc (w_issued w)\<rparr>)"
    "new_uuid S w = (Inr (sv_uuid S (w_issued w)), w\<lparr>w_issued := Suc (w_issued w)\<rparr>)"
proof -
  show io: "io w = (Inr (), w)" using assms by (simp add: io_def)
  then show "lock w = (Inr (), w)" "encode r w = (Inr r, w)"
    "put_rows rows w = (Inr (), fold apply_row rows w)" "save_row r w = (Inr (), apply_row r w)"
    "fetch_maybe table i w = (Inr (om_get (table w) i), w)" "fetch_all table w = (Inr (om_values (table w)), w)"
    "om_get (table w) i = Some x \<Longrightarrow> fetch table i w = (Inr x, w)"
    "om_get (w_materials w) i = Some m \<Longrightarrow> material i w = (Inr m, w)"
    "cancel_cloud_task t w = (Inr (), fire_task t w)"
    "new_id S p w = (Inr (p @ ''_'' @ sv_uuid S (w_issued w)), w\<lparr>w_issued := Suc (w_issued w)\<rparr>)"
    "new_uuid S w = (Inr (sv_uuid S (w_issued w)), w\<lparr>w_issued := Suc (w_issued w)\<rparr>)"
    by (simp_all add: lock_def encode_def put_rows_def save_row_def fetch_maybe_def fetch_all_def fetch_def
        material_def cancel_cloud_task_def new_id_def new_uuid_def op_bind_run ok_or_def)
qed

lemma require_run [simp]: "require b e w = (if b then Inr () else Inl e, w)"
  by (simp add: require_def ensure_def)

lemma now_run [simp]: "now w = (Inr (w_now w), w)"
  by (simp add: now_def)

section \<open>The run\<close>

definition sample_uuid :: "nat \<Rightarrow> string" where
  "sample_uuid n = replicate (20 + n) (CHR ''a'')"

lemma sample_uuid_simps [simp]: "length (sample_uuid n) = 20 + n" "sample_uuid n = sample_uuid k \<longleftrightarrow> n = k"
  by (auto simp: sample_uuid_def replicate_eq_replicate)

definition silent_detectors :: detectors where
  "silent_detectors = \<lparr>dt_deterministic = (\<lambda>_ _. Some []), dt_local_ner = (\<lambda>_ _. Some [])\<rparr>"

definition sample_service :: service where
  "sample_service = \<lparr>sv_engine = sample_engine, sv_detectors = silent_detectors, sv_uuid = sample_uuid,
     sv_to_vec = (\<lambda>_. [])\<rparr>"

lemma sample_service_simps [simp]:
  "sv_engine sample_service = sample_engine" "sv_detectors sample_service = silent_detectors"
  "sv_uuid sample_service = sample_uuid" "sv_to_vec sample_service = (\<lambda>_. [])"
  by (simp_all add: sample_service_def)

lemma sample_service_ok: "service_ok sample_service"
  by (auto simp: service_ok_def inj_def) (simp add: sample_uuid_def)

definition empty_ws :: ws where
  "empty_ws = \<lparr>w_groups = [], w_materials = [], w_tasks = [], w_results = [], w_consents = [],
     w_providers = [], w_clients = [], w_stages = [], w_sources = [], w_now = 100, w_issued = 0,
     w_cancellations = [], w_chats = [], w_next_token = 0, w_fired = [], w_outcomes = []\<rparr>"

definition sample_hash :: "string \<Rightarrow> string" where
  "sample_hash = content_hash sample_service"

definition sample_ids :: "string \<Rightarrow> nat \<Rightarrow> string" where
  "sample_ids p n = p @ ''_'' @ sample_uuid n"

definition sample_ws_group :: ws_group where
  "sample_ws_group = \<lparr>wg_id = sample_ids ''grp'' 0, wg_name = ''g'', wg_dictionary_revision = 1,
     wg_namespace = sample_ids ''salt'' 1, wg_entries = []\<rparr>"

definition ws1 :: ws where
  "ws1 = empty_ws\<lparr>w_groups := [(sample_ids ''grp'' 0, sample_ws_group)], w_issued := 2\<rparr>"

lemma bounded_samples [simp]: "bounded ''g'' n = (if n = 0 then Inl (error_new ''invalid_request'') else Inr ())"
  "bounded ''req'' n = (if n < 3 then Inl (error_new ''invalid_request'') else Inr ())"
  "bounded ''f.txt'' n = (if n < 5 then Inl (error_new ''invalid_request'') else Inr ())"
  "str_trim ''g'' = ''g''"
proof -
  have trims: "str_trim ''g'' = ''g''" "str_trim ''req'' = ''req''" "str_trim ''f.txt'' = ''f.txt''"
    by (simp_all add: str_trim_plain is_whitespace_def)
  then show "bounded ''g'' n = (if n = 0 then Inl (error_new ''invalid_request'') else Inr ())"
    "bounded ''req'' n = (if n < 3 then Inl (error_new ''invalid_request'') else Inr ())"
    "bounded ''f.txt'' n = (if n < 5 then Inl (error_new ''invalid_request'') else Inr ())"
    "str_trim ''g'' = ''g''"
    by (auto simp: bounded_def)
qed

lemma sample_create_group: "create_group sample_service ''g'' empty_ws = (Inr sample_ws_group, ws1)"
  by (simp add: create_group_def op_bind_run quiet_access empty_ws_def ws1_def sample_ws_group_def sample_ids_def Let_def)

definition sample_client :: mcp_client where
  "sample_client = \<lparr>mc_id = sample_ids ''client'' 4, mc_name = ''g'', mc_group_id = sample_ids ''grp'' 0,
     mc_enabled = True, mc_token_hash = sample_hash (sample_uuid 2 @ sample_uuid 3), mc_created_at = 100\<rparr>"

definition ws2 :: ws where
  "ws2 = ws1\<lparr>w_clients := [(sample_ids ''client'' 4, sample_client)], w_issued := 5\<rparr>"

lemma sample_create_client:
  "create_client sample_service ''g'' (sample_ids ''grp'' 0) ws1
     = (Inr (client_view sample_client, sample_uuid 2 @ sample_uuid 3), ws2)"
  by (simp add: create_client_def op_bind_run quiet_access empty_ws_def ws1_def ws2_def sample_client_def
      sample_ids_def sample_hash_def Let_def)

definition sample_file :: import_file where
  "sample_file = \<lparr>if_name = ''f.txt'', if_bytes = ''ok'', if_encoding = None\<rparr>"

definition sample_material :: material where
  "sample_material = \<lparr>m_id = sample_ids ''mat'' 6, m_name = ''f.txt'', m_group_id = sample_ids ''grp'' 0,
     m_task_id = sample_ids ''task'' 5, m_status = ''queued'', m_reason_code = None, m_revision = 1,
     m_source_sha256 = sample_hash ''ok'', m_source_byte_len = 2, m_source_format = ''txt'', m_encoding = None,
     m_original_text = [], m_analysis = None, m_result_id = None, m_dismissed = [], m_dictionary_revision = 1\<rparr>"

definition sample_task :: task where
  "sample_task = \<lparr>tk_id = sample_ids ''task'' 5, tk_group_id = sample_ids ''grp'' 0,
     tk_client_id = Some (sample_ids ''client'' 4), tk_request_id = ''req'', tk_fingerprint = sample_hash [],
     tk_material_ids = [sample_ids ''mat'' 6], tk_created_at = 100\<rparr>"

definition ws3 :: ws where
  "ws3 = ws2\<lparr>w_materials := [(sample_ids ''mat'' 6, sample_material)], w_sources := [(sample_ids ''mat'' 6, ''ok'')],
     w_tasks := [(sample_ids ''task'' 5, sample_task)], w_issued := 7\<rparr>"

definition sample_view :: task_view where
  "sample_view = \<lparr>tv_id = sample_ids ''task'' 5, tv_status = ''queued'', tv_materials = [(sample_material, None)]\<rparr>"

lemma sample_format: "source_format ''f.txt'' = ''txt''"
  by code_simp

lemma sample_check: "check_batch ''req'' [sample_file] = Inr ()"
  by (simp add: check_batch_def check_file_def sample_file_def has_path_char_def)

lemma sample_new_material:
  "new_material sample_service (sample_ids ''mat'' 6) sample_ws_group (sample_ids ''grp'' 0) (sample_ids ''task'' 5) sample_file
     = sample_material"
  by (simp add: new_material_def sample_material_def sample_file_def sample_format sample_hash_def sample_ws_group_def)

lemma sample_create_task:
  "create_task sample_service sample_ws_group (sample_ids ''grp'' 0) ''req'' (sample_hash []) [sample_file]
     (Some (sample_ids ''client'' 4)) ws2 = (Inr sample_view, ws3)"
  using sample_new_material
  by (simp add: create_task_def submit_file_def op_bind_run quiet_access empty_ws_def ws1_def ws2_def ws3_def Let_def
      sample_ids_def sample_file_def sample_task_def task_status_def display_material_def material_progress_def
      sample_view_def sample_material_def aggregate_def)

lemma sample_submit:
  "submit sample_service (sample_ids ''grp'' 0) ''req'' [sample_file] (Some (sample_ids ''client'' 4)) ws2
     = (Inr sample_view, ws3)"
proof -
  have fp: "fingerprint_of sample_service [sample_file] = sample_hash []"
    by (simp add: fingerprint_of_def sample_hash_def)
  have "fetch w_groups (sample_ids ''grp'' 0) ws2 = (Inr sample_ws_group, ws2)"
    "check_client (sample_ids ''grp'' 0) (Some (sample_ids ''client'' 4)) ws2 = (Inr (), ws2)"
    "fetch_all w_tasks ws2 = (Inr [], ws2)" "lock ws2 = (Inr (), ws2)"
    by (simp_all add: check_client_def op_bind_run quiet_access empty_ws_def ws1_def ws2_def sample_client_def)
  then show ?thesis using sample_create_task
    by (simp add: submit_def op_bind_run sample_check fp Let_def)
qed

section \<open>The turn of the worker\<close>

definition sample_analysis :: analysis where
  "sample_analysis = \<lparr>a_text = ''ok'', a_findings = [], a_ai_findings = Some [], a_replacements = [],
     a_needs_review = False, a_source_sha256 = sample_hash ''ok'', a_output_sha256 = sample_hash ''ok''\<rparr>"

lemma sample_hash_simps [simp]:
  "content_hash sample_service = sample_hash" "sha256_hex sample_digest = sample_hash"
  "valid_sha256 (sample_hash s)"
  by (simp_all add: sample_hash_def content_hash_def[abs_def])

lemma sample_analysis_valid: "validate_analysis sample_engine sample_analysis = Inr ()"
proof -
  have "scan_text sample_engine ''ok'' [] = Inr ()"
    by (rule sample_scan_text)
      (simp_all add: quiet_page_def clean_page_def no_match_def count_char_def chars_def confusable_def)
  then have "validate_result sample_engine ''ok'' [] = Inr ()"
    by (simp add: validate_result_def residual_terms_def MAX_TEXT_BYTES_def MAX_FINDINGS_def)
  then show ?thesis
    by (simp add: validate_analysis_def sample_analysis_def verify_output_replacement_evidence_def
        expected_findings_def)
qed

lemma sample_analysis_source: "verify_analysis_source sample_digest ''ok'' sample_analysis = Inr ()"
  by (simp add: verify_analysis_source_def sample_analysis_def verify_output_replacement_evidence_def
      expected_findings_def verify_source_replacement_evidence_def str_get_def is_char_boundary_def)

definition sample_selection :: ai_selection where
  "sample_selection = \<lparr>sel_provider_id = ''p'', sel_model = ''m''\<rparr>"

definition sample_job :: job where
  "sample_job = \<lparr>jb_gap = (\<lambda>_ w. w), jb_selection = Inr sample_selection, jb_admit = (\<lambda>_. Inr ()),
     jb_extract_ai = (\<lambda>_ bytes _. Inr bytes), jb_redact = (\<lambda>_ _ _ _ _. Inr sample_analysis),
     jb_is_pdf = (\<lambda>_. Inr False), jb_extract_pdf = Inr, jb_extract = (\<lambda>_ bytes _. Inr bytes),
     jb_snapshot = Inr (), jb_pending_polls = 0, jb_reply = Inr [], jb_decode = (\<lambda>_. Some [])\<rparr>"

definition running_material :: material where
  "running_material = sample_material\<lparr>m_status := ''running''\<rparr>"

definition read_material :: material where
  "read_material = running_material\<lparr>m_original_text := ''ok''\<rparr>"

definition sample_result :: ready_result where
  "sample_result = ready_result sample_service (sample_ids ''res'' 7) 100
     (read_material\<lparr>m_dictionary_revision := 1, m_result_id := None\<rparr>) sample_ws_group sample_analysis"

definition ready_material :: material where
  "ready_material = read_material\<lparr>m_dictionary_revision := 1, m_result_id := Some (sample_ids ''res'' 7),
     m_status := ''ready'', m_reason_code := None, m_analysis := Some sample_analysis\<rparr>"

definition sample_stage :: "string \<Rightarrow> string option \<Rightarrow> ai_stage" where
  "sample_stage stage sha = \<lparr>as_material_id = sample_ids ''mat'' 6, as_revision = 1,
     as_source_sha256 = sample_hash ''ok'', as_stage = stage, as_provider_id = ''p'', as_model = ''m'',
     as_text_sha256 = sha, as_updated_at = 100, as_error_code = None\<rparr>"

definition claimed_ws :: ws where
  "claimed_ws = ws3\<lparr>w_materials := [(sample_ids ''mat'' 6, running_material)], w_next_token := 1,
     w_cancellations := [(sample_ids ''task'' 5, 0)]\<rparr>"

definition ws4 :: ws where
  "ws4 = claimed_ws\<lparr>w_materials := [(sample_ids ''mat'' 6, ready_material)],
     w_results := [(sample_ids ''res'' 7, sample_result)], w_issued := 8,
     w_stages := [(sample_ids ''mat'' 6, sample_stage ''completed'' (Some (sample_hash ''ok'')))]\<rparr>"

lemmas sample_ws_defs = empty_ws_def ws1_def ws2_def ws3_def claimed_ws_def

lemma sample_turn_claim:
  "claim_next [Some (sample_ids ''mat'' 6, sample_ids ''grp'' 0)] ws3
     = (Inr (Some (running_material, sample_ws_group, 0)), claimed_ws)"
  by (simp add: claim_next_def claim_row_def new_cancellation_def op_bind_run quiet_access sample_ws_defs Let_def
      running_material_def sample_material_def sample_ws_group_def)

lemma sample_fields [simp]:
  "m_id running_material = sample_ids ''mat'' 6" "m_revision running_material = 1"
  "m_source_sha256 running_material = sample_hash ''ok''" "m_status running_material = ''running''"
  "m_group_id running_material = sample_ids ''grp'' 0" "m_result_id running_material = None"
  "m_task_id running_material = sample_ids ''task'' 5"
  "m_id read_material = sample_ids ''mat'' 6" "m_revision read_material = 1"
  "m_source_sha256 read_material = sample_hash ''ok''" "m_status read_material = ''running''"
  "m_group_id read_material = sample_ids ''grp'' 0" "m_result_id read_material = None"
  "m_original_text read_material = ''ok''" "wg_dictionary_revision sample_ws_group = 1"
  "a_needs_review sample_analysis = False"
  by (simp_all add: running_material_def read_material_def sample_material_def sample_ws_group_def sample_analysis_def)

lemma sample_save_stage:
  assumes "w_outcomes w = []" and "w_now w = 100" and "stage \<noteq> ''failed''" and "r = 1"
  shows "save_ai_stage (sample_ids ''mat'' 6) r (sample_hash ''ok'') stage sample_selection sha None w
    = (Inr (), w\<lparr>w_stages := om_put (sample_ids ''mat'' 6) (sample_stage stage sha) (w_stages w)\<rparr>)"
  using assms by (simp add: save_ai_stage_def op_bind_run quiet_access sample_stage_def sample_selection_def)

lemma sample_save_text:
  assumes "w_outcomes w = []" and "w_materials w = [(sample_ids ''mat'' 6, running_material)]"
  shows "save_text running_material ''ok'' w
    = (Inr (Some read_material), w\<lparr>w_materials := [(sample_ids ''mat'' 6, read_material)]\<rparr>)"
  using assms by (simp add: save_text_def op_bind_run quiet_access still_running_def Let_def flip: read_material_def)

lemma sample_finish:
  assumes "w_outcomes w = []" and "w_materials w = [(sample_ids ''mat'' 6, read_material)]"
    and "w_groups w = [(sample_ids ''grp'' 0, sample_ws_group)]" and "w_issued w = 7" and "w_now w = 100"
    and "w_results w = []"
  shows "finish_ai sample_service read_material sample_ws_group sample_analysis w
    = (Inr True, w\<lparr>w_materials := [(sample_ids ''mat'' 6, ready_material)],
        w_results := [(sample_ids ''res'' 7, sample_result)], w_issued := 8\<rparr>)"
  using assms
  by (simp add: finish_ai_def finish_locked_def publish_def op_bind_run quiet_access still_running_def Let_def
      revoke_rows_at_def sample_analysis_valid sample_analysis_source ready_material_def sample_result_def
      sample_ids_def)

lemma sample_process:
  "process_material sample_service sample_job running_material sample_ws_group 0 claimed_ws = (Inr (), ws4)"
  by (simp add: process_material_def process_with_model_def op_bind_run quiet_access sample_job_def gap_def
      is_cancelled_def sample_save_stage sample_save_text sample_finish Let_def sample_ws_defs ws4_def
      running_material_def[symmetric])

lemma sample_turn:
  "worker_turn sample_service sample_job [Some (sample_ids ''mat'' 6, sample_ids ''grp'' 0)] 0 ws3 = (Inr (), ws4)"
  by (simp add: worker_turn_def op_bind_run sample_turn_claim sample_process op_attempt_def)

section \<open>The run reaches the published result\<close>

lemma sample_quiet: "interference S (jb_gap sample_job k)"
  unfolding interference_def by (auto simp: sample_job_def intro: exI[of _ "[]"])

lemma sample_reach:
  "workspace.reach (sample_service, empty_ws)" "workspace.reach (sample_service, ws1)"
  "workspace.reach (sample_service, ws2)" "workspace.reach (sample_service, ws3)"
  "workspace.reach (sample_service, ws4)"
proof -
  show 0: "workspace.reach (sample_service, empty_ws)"
    by (rule workspace.reach_init) (simp add: service_init_def sample_service_ok empty_tables_def empty_ws_def)
  show 1: "workspace.reach (sample_service, ws1)"
    using workspace.reach_step[OF 0 service_step.request[of _ _ "CreateGroup ''g''"]]
    by (simp add: sample_create_group)
  show 2: "workspace.reach (sample_service, ws2)"
    using workspace.reach_step[OF 1 service_step.request[of _ _ "CreateClient ''g'' (sample_ids ''grp'' 0)"]]
    by (simp add: sample_create_client)
  show 3: "workspace.reach (sample_service, ws3)"
    using workspace.reach_step[OF 2 service_step.request[of _ _
      "Submit (sample_ids ''grp'' 0) ''req'' [sample_file] (Some (sample_ids ''client'' 4))"]]
    by (simp add: sample_submit)
  show "workspace.reach (sample_service, ws4)"
    using workspace.reach_step[OF 3 service_step.turn[OF sample_quiet, of _ _
      "[Some (sample_ids ''mat'' 6, sample_ids ''grp'' 0)]" 0]]
    by (simp add: sample_turn)
qed

end
