(* ===== verification/Guarantees.thy ===== *)
theory Guarantees imports Sample_Run begin

text \<open>
  What the service guarantees: properties of every reachable configuration and of every run, with
  handlers, turns of the worker and restarts in any order, and what single operations decide
  about the state they find. The runs leave out the AI runs, which fill in missing lengths and formats
  of material and result rows they read without the gate (\<open>Run\_Messages\<close>). They rest on the invariant and the evolution of \<open>Lifecycle\<close>, through
  \<open>workspace\_run\<close> and \<open>workspace\_reach\<close>, and are applied to the run of \<open>Sample\_Run\<close>.
\<close>

section \<open>What reading a result checks\<close>

lemma access_found:
  "fetch w_results i w = (Inr x, t) \<Longrightarrow> om_get (w_results w) i = Some x \<and> t = after_io w"
  "fetch w_materials i w = (Inr m, t) \<Longrightarrow> om_get (w_materials w) i = Some m \<and> t = after_io w"
  "fetch w_groups i w = (Inr g, t) \<Longrightarrow> om_get (w_groups w) i = Some g \<and> t = after_io w"
  "fetch w_tasks i w = (Inr k, t) \<Longrightarrow> om_get (w_tasks w) i = Some k \<and> t = after_io w"
  "fetch w_consents i w = (Inr c, t) \<Longrightarrow> om_get (w_consents w) i = Some c \<and> t = after_io w"
  "fetch w_providers i w = (Inr p, t) \<Longrightarrow> om_get (w_providers w) i = Some p \<and> t = after_io w"
  "fetch_maybe w_consents i w = (Inr oc, t) \<Longrightarrow> oc = om_get (w_consents w) i \<and> t = after_io w"
  "fetch_all w_clients w = (Inr cs, t) \<Longrightarrow> cs = om_values (w_clients w) \<and> t = after_io w"
  "material i w = (Inr m, t) \<Longrightarrow> om_get (w_materials w) i = Some m \<and> t = after_io w"
  using material_Inr[of i w m t] by (simp_all add: fetch_Inr fetch_maybe_Inr fetch_all_Inr)

lemma read_result_locked_Inr:
  assumes "read_result_locked S r w = (Inr x, t)"
  obtains m g where "om_get (w_results w) r = Some x" "om_get (w_materials w) (rr_material_id x) = Some m"
    "om_get (w_groups w) (rr_group_id x) = Some g" "\<not> rr_revoked x" "w_now w < rr_expires_at x"
    "m_status m = ''ready''" "m_result_id m = Some r" "m_revision m = rr_revision x"
    "wg_dictionary_revision g = rr_dictionary_revision x" "content_hash S (rr_text x) = rr_output_sha256 x"
    "validate_analysis (sv_engine S) (result_analysis x) = Inr ()"
    "verify_analysis_source (en_digest (sv_engine S)) (m_original_text m) (result_analysis x) = Inr ()"
  using assms unfolding read_result_locked_def
  by (auto elim!: op_bind_cases dest!: access_found now_Inr require_Inr)

lemma read_result_Inr:
  assumes "read_result S r w = (Inr x, t)"
  obtains u where "read_result_locked S r u = (Inr x, t)" "u = after_io w"
  using assms unfolding read_result_def by (auto elim!: op_bind_cases dest!: lock_Inr)

section \<open>The published sample\<close>

lemma ws4_tables [simp]:
  "w_materials ws4 = [(sample_ids ''mat'' 6, ready_material)]" "w_results ws4 = [(sample_ids ''res'' 7, sample_result)]"
  "w_groups ws4 = [(sample_ids ''grp'' 0, sample_ws_group)]" "w_clients ws4 = [(sample_ids ''client'' 4, sample_client)]"
  "w_tasks ws4 = [(sample_ids ''task'' 5, sample_task)]" "w_outcomes ws4 = []" "w_now ws4 = 100" "w_issued ws4 = 8"
  by (simp_all add: ws4_def claimed_ws_def ws3_def ws2_def ws1_def empty_ws_def)

lemma ready_material_fields [simp]:
  "m_id ready_material = sample_ids ''mat'' 6" "m_group_id ready_material = sample_ids ''grp'' 0"
  "m_status ready_material = ''ready''" "m_result_id ready_material = Some (sample_ids ''res'' 7)"
  "m_revision ready_material = 1" "m_original_text ready_material = ''ok''" "m_task_id ready_material = sample_ids ''task'' 5"
  by (simp_all add: ready_material_def read_material_def running_material_def sample_material_def)

lemma sample_result_fields [simp]:
  "rr_id sample_result = sample_ids ''res'' 7" "rr_material_id sample_result = sample_ids ''mat'' 6"
  "rr_group_id sample_result = sample_ids ''grp'' 0" "rr_revision sample_result = 1" "rr_revoked sample_result = False"
  "rr_dictionary_revision sample_result = 1" "rr_text sample_result = ''ok''" "rr_expires_at sample_result = 100 + RESULT_LIFETIME"
  "rr_findings sample_result = []" "rr_replacements sample_result = []"
  by (simp_all add: sample_result_def ready_result_def read_material_def running_material_def sample_material_def
      sample_ws_group_def sample_analysis_def)

section \<open>Reachable configurations and runs\<close>

text \<open>
  C40: referential integrity. In every reachable configuration every row stands under its own
  identifier, every identifier in use was issued, and the materials of a task exist, belong to
  it and to its group.
\<close>

theorem rows_are_well_formed:
  assumes "workspace.reach (S, w)"
  shows "(\<forall>i m. om_get (w_materials w) i = Some m \<longrightarrow> m_id m = i \<and> issued S (w_issued w) i)
    \<and> (\<forall>r x. om_get (w_results w) r = Some x \<longrightarrow> rr_id x = r \<and> issued S (w_issued w) r)
    \<and> (\<forall>i g. om_get (w_groups w) i = Some g \<longrightarrow> wg_id g = i \<and> issued S (w_issued w) i)
    \<and> (\<forall>i c. om_get (w_clients w) i = Some c \<longrightarrow> mc_id c = i \<and> issued S (w_issued w) i)
    \<and> (\<forall>i t. om_get (w_tasks w) i = Some t \<longrightarrow> tk_id t = i \<and> issued S (w_issued w) i
         \<and> (\<forall>mid\<in>set (tk_material_ids t). \<exists>m. om_get (w_materials w) mid = Some m
              \<and> m_task_id m = i \<and> m_group_id m = tk_group_id t))"
proof -
  have w: "ws_inv S w" using workspace_reach[OF assms] by simp
  show ?thesis
    using material_invD(1,2)[OF w] result_invD(1,2)[OF w] group_invD[OF w] client_invD[OF w] task_invD[OF w]
    unfolding sound_result_def by simp
qed

theorem rows_are_well_formed_witness:
  "workspace.reach (sample_service, ws4) \<and> rr_id sample_result = sample_ids ''res'' 7
    \<and> issued sample_service 8 (sample_ids ''res'' 7)"
  using rows_are_well_formed[OF sample_reach(5)] sample_reach(5) by simp

lemma validate_analysis_sound:
  assumes "validate_analysis E a = Inr ()"
  shows "\<forall>f\<in>set (a_findings a). publishable_finding (a_text a) f" "\<not> has_credential_residual E (a_text a)"
  using assms collect_terms_Inr[of "a_text a" "a_findings a" "[]"]
  by (auto simp: validate_analysis_def validate_result_def scan_text_def blocking_residual_def split: if_splits)

lemma verify_source_splice:
  assumes "verify_analysis_source D source a = Inr ()"
  shows "a_text a = spliced source (replacement_ranges (a_replacements a)) 0"
    "ranges_ok source (replacement_ranges (a_replacements a)) 0"
  using assms verify_source_loop_Inr
  by (fastforce simp: verify_analysis_source_def verify_source_replacement_evidence_def split: if_splits)+

lemma result_analysis_fields [simp]:
  "a_text (result_analysis x) = rr_text x" "a_findings (result_analysis x) = rr_findings x"
  "a_replacements (result_analysis x) = rr_replacements x"
  by (simp_all add: result_analysis_def)

definition proper_result :: "service \<Rightarrow> ws \<Rightarrow> string \<Rightarrow> ready_result \<Rightarrow> bool" where
  "proper_result S w r x \<longleftrightarrow> om_get (w_results w) r = Some x \<and> \<not> rr_revoked x \<and> w_now w < rr_expires_at x
     \<and> (\<exists>m. om_get (w_materials w) (rr_material_id x) = Some m \<and> m_status m = ''ready'' \<and> m_result_id m = Some r
          \<and> rr_text x = spliced (m_original_text m) (replacement_ranges (rr_replacements x)) 0
          \<and> ranges_ok (m_original_text m) (replacement_ranges (rr_replacements x)) 0)
     \<and> (\<forall>f\<in>set (rr_findings x). publishable_finding (rr_text x) f)
     \<and> \<not> has_credential_residual (sv_engine S) (rr_text x)"

lemma read_locked_proper:
  assumes "read_result_locked S r w = (Inr x, t)"
  shows "proper_result S w r x"
  using assms
proof (rule read_result_locked_Inr)
  fix m :: material and g :: ws_group
  assume "validate_analysis (sv_engine S) (result_analysis x) = Inr ()"
    "verify_analysis_source (en_digest (sv_engine S)) (m_original_text m) (result_analysis x) = Inr ()"
  note checks = validate_analysis_sound[OF this(1)] verify_source_splice[OF this(2)]
  assume "om_get (w_results w) r = Some x" "om_get (w_materials w) (rr_material_id x) = Some m"
    "\<not> rr_revoked x" "w_now w < rr_expires_at x" "m_status m = ''ready''" "m_result_id m = Some r"
  with checks show ?thesis unfolding proper_result_def by auto
qed

lemma proper_after_io [simp]: "proper_result S (w\<lparr>w_outcomes := xs\<rparr>) = proper_result S w"
  by (intro ext) (simp add: proper_result_def)

lemma read_proper: "read_result S r w = (Inr x, t) \<Longrightarrow> proper_result S w r x"
  by (erule read_result_Inr) (drule read_locked_proper, simp)

lemma current_is_read:
  assumes w: "ws_inv S w" "w_outcomes w = []" and x: "om_get (w_results w) r = Some x" "w_now w < rr_expires_at x"
    and m: "om_get (w_materials w) i = Some m" "m_result_id m = Some r"
  shows "read_result S r w = (Inr x, w)"
proof -
  have live: "live S w m x" using material_invD(3)[OF w(1) m] x(1) by (auto simp: current_def)
  then obtain g where g: "om_get (w_groups w) (m_group_id m) = Some g" "wg_dictionary_revision g = rr_dictionary_revision x"
    by (auto simp: live_def)
  have "content_hash S (rr_text x) = rr_output_sha256 x" "validate_analysis (sv_engine S) (result_analysis x) = Inr ()"
    using result_invD(1)[OF w(1) x(1)] by (simp_all add: sound_result_def)
  then show ?thesis using live g x m w(2) material_invD(1)[OF w(1) m(1)]
    by (simp add: read_result_def read_result_locked_def op_bind_run quiet_access live_def)
qed

text \<open>
  C4: a result is read exactly while it is current and unexpired. Without a fault, reading a result
  that a material of a reachable configuration names returns it until its expiry. Whatever is
  returned, in any configuration and under any faults, is stored, unrevoked, unexpired and named by
  its ready material; its text is the extracted text with the recorded aliases spliced in, every
  finding of it is publishable and no credential assignment is left.
\<close>

theorem exactly_current_results_are_read:
  assumes "workspace.reach (S, w)"
  shows "(\<forall>x t. read_result S r w = (Inr x, t) \<longrightarrow> proper_result S w r x)
    \<and> (\<forall>i m x. w_outcomes w = [] \<and> om_get (w_materials w) i = Some m \<and> m_result_id m = Some r
         \<and> om_get (w_results w) r = Some x \<and> w_now w < rr_expires_at x \<longrightarrow> read_result S r w = (Inr x, w))"
  using read_proper current_is_read workspace_reach[OF assms] by blast

lemma sample_read: "read_result sample_service (sample_ids ''res'' 7) ws4 = (Inr sample_result, ws4)"
  by (rule current_is_read[of _ _ _ _ "sample_ids ''mat'' 6" ready_material])
    (use workspace_reach[OF sample_reach(5)] in \<open>simp_all add: RESULT_LIFETIME_def\<close>)

theorem exactly_current_results_are_read_witness:
  "read_result sample_service (sample_ids ''res'' 7) ws4 = (Inr sample_result, ws4)
    \<and> proper_result sample_service ws4 (sample_ids ''res'' 7) sample_result"
  using exactly_current_results_are_read[OF sample_reach(5), of "sample_ids ''res'' 7"] sample_read by blast

section \<open>What a successful operation leaves\<close>

definition yields :: "ws \<Rightarrow> nat \<Rightarrow> 'a wop \<Rightarrow> ('a \<Rightarrow> ws \<Rightarrow> bool) \<Rightarrow> bool" where
  "yields D n m Q \<longleftrightarrow> (\<forall>u a t. same D u \<longrightarrow> n \<le> w_issued u \<longrightarrow> m u = (Inr a, t) \<longrightarrow> Q a t)"

lemma yieldsD: "yields D 0 m Q \<Longrightarrow> m D = (Inr a, t) \<Longrightarrow> Q a t"
  unfolding yields_def by (metis same_refl le0)

lemma yields_read:
  assumes m: "reads D n m Q" and f: "\<And>a k. n \<le> k \<Longrightarrow> Q a k \<Longrightarrow> yields D k (f a) R"
  shows "yields D n (op_bind m f) R"
  unfolding yields_def
proof (intro allI impI)
  fix u b t assume u: "same D u" "n \<le> w_issued u" and run: "op_bind m f u = (Inr b, t)"
  from run obtain a v where mu: "m u = (Inr a, v)" and fa: "f a v = (Inr b, t)" by (rule op_bind_cases) auto
  note v = readsD[OF m u mu]
  show "R b t" using f[OF v(2) v(3)[OF refl]] v(1) fa unfolding yields_def by blast
qed

lemma yields_then:
  assumes m: "yields D n m (\<lambda>_. same E)" and f: "\<And>a. reads E 0 (f a) (\<lambda>_ _. True)"
  shows "yields D n (op_bind m f) (\<lambda>_. same E)"
  unfolding yields_def
proof (intro allI impI)
  fix u b t assume u: "same D u" "n \<le> w_issued u" and run: "op_bind m f u = (Inr b, t)"
  from run obtain a v where mu: "m u = (Inr a, v)" and fa: "f a v = (Inr b, t)" by (rule op_bind_cases) auto
  have "same E v" using m u mu unfolding yields_def by blast
  then show "same E t" using readsD(1)[OF f _ le0 fa] by blast
qed

lemma yields_post: "yields D n m Q \<Longrightarrow> (\<And>a t. Q a t \<Longrightarrow> R a t) \<Longrightarrow> yields D n m R"
  unfolding yields_def by blast

lemma yields_return: "(\<And>t. same D t \<Longrightarrow> Q a t) \<Longrightarrow> yields D n (op_return a) Q"
  by (simp add: yields_def)

lemma yields_fail [simp]: "yields D n (op_fail e) Q"
  by (simp add: yields_def)

lemma same_fold_rows: "same D u \<Longrightarrow> same (fold apply_row rows D) (fold apply_row rows u)"
proof (induction rows arbitrary: D u)
  case (Cons r rows)
  have "same (apply_row r D) (apply_row r u)" using Cons.prems by (cases r) (simp_all add: same_def)
  then show ?case using Cons.IH by simp
qed simp

lemma yields_put: "yields D n (put_rows rows) (\<lambda>_. same (fold apply_row rows D))"
  unfolding yields_def using put_rows_Inr same_fold_rows same_outcomes(1) by blast

lemma yields_save: "yields D n (save_row r) (\<lambda>_. same (apply_row r D))"
  unfolding save_row_def using yields_put[of D _ "[r]"] by (intro yields_read[OF reads_encode]) simp

lemma yields_then_return:
  "yields D n m (\<lambda>_. same E) \<Longrightarrow> (\<And>t. same E t \<Longrightarrow> R b t) \<Longrightarrow> yields D n (op_bind m (\<lambda>_. op_return b)) R"
  unfolding yields_def by (auto elim!: op_bind_cases)

lemma yields_branch:
  "(b \<Longrightarrow> yields D n m Q) \<Longrightarrow> (\<not> b \<Longrightarrow> yields D n m' Q) \<Longrightarrow> yields D n (if b then m else m') Q"
  "(x = None \<Longrightarrow> yields D n m Q) \<Longrightarrow> (\<And>y. x = Some y \<Longrightarrow> yields D n (f y) Q) \<Longrightarrow>
    yields D n (case x of None \<Rightarrow> m | Some y \<Rightarrow> f y) Q"
  by (auto split: option.split)

lemma reads_any: "reads D n m Q \<Longrightarrow> reads D n m (\<lambda>_ _. True)"
  by (rule reads_weaken) simp_all

lemma yields_revoke_material:
  "yields w n (revoke_material i) (\<lambda>_ t. \<exists>m m'. om_get (w_materials w) i = Some m
     \<and> om_get (w_materials t) (m_id m) = Some m' \<and> m_result_id m' = None)"
  unfolding revoke_material_def Let_def
  apply (rule yields_read[OF reads_lock], rule yields_read[OF reads_material], rule yields_read[OF reads_revoke_rows],
      rule yields_read[OF reads_encode])
  apply (rule yields_post[OF yields_then[OF yields_put]])
   apply (rule reads_bind[OF reads_cancel(1)], rule reads_cancel(2))
  apply (auto dest!: sameD(2))
  done

lemma yields_replace_material:
  "yields w n (replace_material S i revision f) (\<lambda>_ t. \<exists>m'. om_get (w_materials t) i = Some m' \<and> m_result_id m' = None)"
  unfolding replace_material_def Let_def
  apply (rule yields_read[OF reads_require], rule yields_read[OF reads_lift], rule yields_read[OF reads_require],
      rule yields_read[OF reads_lock], rule yields_read[OF reads_material], rule yields_read[OF reads_require],
      rule yields_read[OF reads_encode], rule yields_read[OF reads_revoke_rows], rule yields_read[OF reads_encode])
  apply (rule yields_post[OF yields_then[OF yields_put]])
   apply (rule reads_bind[OF reads_cancel(1)], rule reads_bind[OF reads_cancel(2)], rule reads_any[OF reads_return])
  apply (auto dest!: sameD(2))
  done

lemma dictionary_rows_kinds:
  assumes "ws_inv S D" and "list_all2 (\<lambda>m rows. set rows = detached D requeued {m}) ms rows"
  shows "RGroup i g \<notin> set (concat rows)"
  using assms(2) by (induction rule: list_all2_induct) (auto simp: detached_rows)

lemma yields_set_dictionary:
  assumes D: "ws_inv S D"
  shows "yields D n (set_dictionary S' gid es) (\<lambda>_ t. \<exists>g g'. om_get (w_groups D) gid = Some g
    \<and> om_get (w_groups t) gid = Some g' \<and> wg_dictionary_revision g' = wg_dictionary_revision g + 1)"
proof -
  have update: "yields D k (update_dictionary_locked S' gid es) (\<lambda>_ t. \<exists>g g'. om_get (w_groups D) gid = Some g
    \<and> om_get (w_groups t) gid = Some g' \<and> wg_dictionary_revision g' = wg_dictionary_revision g + 1)" for k
    unfolding update_dictionary_locked_def Let_def
    apply (rule yields_read[OF reads_require], rule yields_read[OF reads_lift])
    apply (rule yields_read[OF reads_fetch], simp)
    apply (rule yields_read[OF reads_lift], rule yields_read[OF reads_encode])
    apply (rule yields_read[OF reads_fetch_all], simp)
    apply (rule yields_read[OF reads_map[OF reads_dictionary_rows[OF D]]], assumption)
    subgoal for _ _ _ _ g _ _ _ grow _ ms _ rows
    proof (rule yields_post[OF yields_then[OF yields_put reads_cancel(2)]])
      fix t
      assume g: "om_get (w_groups D) gid = Some g"
        and grow: "grow = RGroup gid (g\<lparr>wg_entries := es, wg_dictionary_revision := wg_dictionary_revision g + 1\<rparr>)"
        and rows: "list_all2 (\<lambda>m rows. set rows = detached D requeued {m}) (filter (\<lambda>m. m_group_id m = gid) ms) rows"
        and t: "same (fold apply_row (grow # concat rows) D) t"
      have "om_get (w_groups (fold apply_row (grow # concat rows) D)) gid
          = Some (g\<lparr>wg_entries := es, wg_dictionary_revision := wg_dictionary_revision g + 1\<rparr>)"
        using dictionary_rows_kinds[OF D rows] grow by (intro groups.get_single) auto
      then show "\<exists>g g'. om_get (w_groups D) gid = Some g \<and> om_get (w_groups t) gid = Some g'
          \<and> wg_dictionary_revision g' = wg_dictionary_revision g + 1"
        using g sameD(1)[OF t] by simp
    qed
    done
  show ?thesis unfolding set_dictionary_def
  proof (rule yields_read[OF reads_lock])
    fix k
    show "yields D k (op_bind (update_dictionary_locked S' gid es) (\<lambda>_. dictionary gid))
      (\<lambda>_ t. \<exists>g g'. om_get (w_groups D) gid = Some g
        \<and> om_get (w_groups t) gid = Some g' \<and> wg_dictionary_revision g' = wg_dictionary_revision g + 1)"
      unfolding yields_def
    proof (intro allI impI)
      fix u b t assume u: "same D u" "k \<le> w_issued u"
        and run: "op_bind (update_dictionary_locked S' gid es) (\<lambda>_. dictionary gid) u = (Inr b, t)"
      from run obtain a v where v: "update_dictionary_locked S' gid es u = (Inr a, v)" "dictionary gid v = (Inr b, t)"
        by (rule op_bind_cases) auto
      have "same v t" using v(2) unfolding dictionary_def by (auto elim!: op_bind_cases dest!: access_found)
      then show "\<exists>g g'. om_get (w_groups D) gid = Some g \<and> om_get (w_groups t) gid = Some g'
          \<and> wg_dictionary_revision g' = wg_dictionary_revision g + 1"
        using update u v(1) sameD(1)[of v t] unfolding yields_def by metis
    qed
  qed
qed

section \<open>Withdrawal\<close>

lemma withdrawn_unread:
  assumes reach: "workspace.reach (S, w)" and x: "om_get (w_results w) r = Some x"
    and step: "workspace.run (S, w) [l] (S, u)"
    and detached: "\<And>m. om_get (w_materials u) (rr_material_id x) = Some m \<Longrightarrow> m_result_id m = Some r
      \<Longrightarrow> \<not> live S u m x"
    and run: "workspace.run (S, u) ls (S', t)"
  shows "read_result S' r t \<noteq> (Inr y, t')"
proof
  assume "read_result S' r t = (Inr y, t')"
  then have y: "om_get (w_results t) r = Some y" "\<not> rr_revoked y"
    using read_proper by (simp_all add: proper_result_def)
  have u: "workspace.reach (S, u)" using workspace.run_reach[OF reach step] .
  from evolves_resultD[OF workspace_run(5)[OF reach step] x]
  obtain x' where x': "om_get (w_results u) r = Some x'" "x' = x \<or> rr_revoked x'" by auto
  with evolves_resultD[OF workspace_run(5)[OF u run] x'(1)] y have "x' = x" "\<not> rr_revoked x" by auto
  with x'(1) obtain m where m: "om_get (w_materials u) (rr_material_id x) = Some m" "m_result_id m = Some r"
    using result_invD(3) workspace_reach[OF u] by blast
  moreover have "current S u m r x"
    using material_invD(3)[OF _ m] workspace_reach[OF u] x'(1) \<open>x' = x\<close> by (auto simp: current_def)
  ultimately show False using detached by (simp add: current_def)
qed

lemma request_run: "serve S q w = u \<Longrightarrow> workspace.run (S, w) [Request q] (S, u)"
  using service_step.request[of S w q] by simp

lemma dictionary_detaches:
  assumes w: "ws_inv S w" and x: "om_get (w_results w) r = Some x"
    and op: "set_dictionary S (rr_group_id x) es w = (Inr d, u)"
  shows "\<not> live S u m x"
proof
  assume "live S u m x"
  then obtain g where u: "\<not> rr_revoked x" "om_get (w_groups u) (rr_group_id x) = Some g"
    "wg_dictionary_revision g = rr_dictionary_revision x" by (auto simp: live_def)
  obtain old new where rev: "om_get (w_groups w) (rr_group_id x) = Some old" "om_get (w_groups u) (rr_group_id x) = Some new"
    "wg_dictionary_revision new = wg_dictionary_revision old + 1"
    using yieldsD[OF yields_set_dictionary[OF w] op] by blast
  obtain m' where m': "om_get (w_materials w) (rr_material_id x) = Some m'" "m_result_id m' = Some r"
    using result_invD(3)[OF w x u(1)] by blast
  have "current S w m' r x" using material_invD(3)[OF w m'] x by (auto simp: current_def)
  then have "wg_dictionary_revision old = rr_dictionary_revision x" using rev(1) by (auto simp: current_def live_def)
  with rev u show False by simp
qed

text \<open>
  C1: withdrawal is immediate and final. Once a material was revoked or its file replaced, or the
  dictionary of its group changed, no run of the service, whatever handlers, workers or restarts it
  interleaves, reaches a state in which a result the material had before can be read.
\<close>

theorem withdrawal_is_final:
  assumes reach: "workspace.reach (S, w)" and x: "om_get (w_results w) r = Some x"
    and op: "revoke_material (rr_material_id x) w = (Inr (), u)
      \<or> replace_material S (rr_material_id x) revision f w = (Inr m, u)
      \<or> set_dictionary S (rr_group_id x) es w = (Inr d, u)"
    and run: "workspace.run (S, u) ls (S', t)"
  shows "read_result S' r t \<noteq> (Inr y, t')"
proof -
  have w: "ws_inv S w" using workspace_reach[OF reach] by simp
  note unread = withdrawn_unread[OF reach x request_run _ run]
  from op show ?thesis
  proof (elim disjE)
    assume op: "revoke_material (rr_material_id x) w = (Inr (), u)"
    obtain m m' where "om_get (w_materials w) (rr_material_id x) = Some m"
      "om_get (w_materials u) (m_id m) = Some m'" "m_result_id m' = None"
      using yieldsD[OF yields_revoke_material op] by blast
    then show ?thesis using op material_invD(1)[OF w] by (intro unread[of "RevokeMaterial (rr_material_id x)"]) auto
  next
    assume op: "replace_material S (rr_material_id x) revision f w = (Inr m, u)"
    obtain m' where "om_get (w_materials u) (rr_material_id x) = Some m'" "m_result_id m' = None"
      using yieldsD[OF yields_replace_material op] by blast
    then show ?thesis using op by (intro unread[of "ReplaceMaterial (rr_material_id x) revision f"]) auto
  next
    assume op: "set_dictionary S (rr_group_id x) es w = (Inr d, u)"
    show ?thesis using op dictionary_detaches[OF w x op]
      by (intro unread[of "SetDictionary (rr_group_id x) es"]) auto
  qed
qed

definition ws5 :: ws where
  "ws5 = snd (revoke_material (sample_ids ''mat'' 6) ws4)"

lemma sample_revoke: "revoke_material (sample_ids ''mat'' 6) ws4 = (Inr (), ws5)"
proof -
  have "fst (revoke_material (sample_ids ''mat'' 6) ws4) = Inr ()"
    by (simp add: revoke_material_def revoke_rows_at_def op_bind_run quiet_access cancel_active_chats_def fire_task_def
        Let_def split: option.split)
  then show ?thesis unfolding ws5_def by (metis prod.collapse)
qed

theorem withdrawal_is_final_witness:
  "read_result sample_service (sample_ids ''res'' 7) ws4 = (Inr sample_result, ws4)
    \<and> (\<forall>y t'. read_result sample_service (sample_ids ''res'' 7) (ws5\<lparr>w_chats := [3]\<rparr>) \<noteq> (Inr y, t'))"
proof -
  have run: "workspace.run (sample_service, ws5) [Request (Chats [3])] (sample_service, ws5\<lparr>w_chats := [3]\<rparr>)"
    by (rule request_run) simp
  show ?thesis
    using withdrawal_is_final[OF sample_reach(5) _ _ run, of "sample_ids ''res'' 7" sample_result] sample_revoke
      sample_read by simp
qed

end
