(* ===== verification/Worker_Guarantees.thy ===== *)
theory Worker_Guarantees imports Guarantees begin

text \<open>
  What holds of the material worker while handlers run between its steps: a job whose claim was
  superseded writes nothing, a consent is spent once per material, a failure is recorded, and a
  restart leaves nothing running and dispatches nothing twice.
\<close>

section \<open>Superseded claims\<close>

lemma superseded_reads:
  assumes f: "om_get (w_materials D) (m_id m) = Some f" and stale: "\<not> still_running m f"
  shows "reads D n (save_text m extracted) (\<lambda>_ _. True)" "reads D n (save_analysis m a) (\<lambda>_ _. True)"
    "reads D n (finish_ai S m g a) (\<lambda>_ _. True)" "reads D n (finish_local S m g a waiting token) (\<lambda>_ _. True)"
    "reads D n (fail_material (m_id m) (m_revision m) code) (\<lambda>_ _. True)"
  unfolding save_text_def save_analysis_def finish_ai_def finish_local_def fail_material_def
  by (rule reads_bind[OF reads_lock], rule reads_bind[OF reads_material],
      use f stale in \<open>simp add: reads_any[OF reads_return] still_running_def
        reads_bind[OF reads_any[OF reads_fetch] reads_any[OF reads_return]]\<close>)+
     (auto simp: reads_any[OF reads_return])

lemma reads_branch:
  "reads D n m Q \<Longrightarrow> reads D n m' Q \<Longrightarrow> reads D n (if b then m else m') Q"
  "reads D n m Q \<Longrightarrow> (\<And>y. reads D n (f y) Q) \<Longrightarrow> reads D n (case x of None \<Rightarrow> m | Some y \<Rightarrow> f y) Q"
  by (auto split: option.split)

lemma superseded_claim:
  assumes "om_get (w_materials D) (m_id m) = Some f" and "\<not> still_running m f"
  shows "reads D n (claim_cloud S m) (\<lambda>_ _. True)"
  unfolding claim_cloud_def Let_def
  apply (rule reads_bind[OF reads_lock])
  apply (rule reads_bind[OF reads_any[OF reads_maybe]], simp)
  apply (rule reads_branch(2), rule reads_any[OF reads_return])
  apply (rule reads_bind[OF reads_any[OF reads_fetch]], simp)
  apply (rule reads_bind[OF reads_any[OF reads_now]])
  apply (rule reads_branch(1), rule reads_any[OF reads_return])
  apply (rule reads_bind[OF reads_material])
  using assms by (auto simp: reads_fail)

lemma reads_same: "reads D 0 m Q \<Longrightarrow> same D (snd (m D))"
  unfolding reads_def by simp

text \<open>A stage is saved whatever has become of the material; it is the only row the section writes.\<close>

definition only_its_stage :: "material \<Rightarrow> ws \<Rightarrow> ws \<Rightarrow> bool" where
  "only_its_stage m t u \<longleftrightarrow> same (t\<lparr>w_stages := w_stages u\<rparr>) u
     \<and> (w_stages u = w_stages t \<or> (\<exists>s. as_revision s = m_revision m \<and> w_stages u = om_put (m_id m) s (w_stages t)))"

lemma save_ai_stage_only:
  "only_its_stage m t (snd (save_ai_stage (m_id m) (m_revision m) source stage sel text_sha256 err t))"
proof (cases "save_ai_stage (m_id m) (m_revision m) source stage sel text_sha256 err t")
  case (Pair r u)
  let ?s = "\<lparr>as_material_id = m_id m, as_revision = m_revision m, as_source_sha256 = source, as_stage = stage,
    as_provider_id = sel_provider_id sel, as_model = sel_model sel, as_text_sha256 = text_sha256,
    as_updated_at = w_now t, as_error_code = err\<rparr>"
  from Pair have "same (t\<lparr>w_stages := w_stages u\<rparr>) u \<and> w_stages u \<in> {w_stages t, om_put (m_id m) ?s (w_stages t)}"
    unfolding save_ai_stage_def now_def lock_def save_row_def encode_def put_rows_def
    by (auto elim!: op_bind_cases dest!: io_run(2,3) simp: same_def)
  moreover have "as_revision ?s = m_revision m" by simp
  ultimately have "only_its_stage m t u" unfolding only_its_stage_def by blast
  with Pair show ?thesis by simp
qed

text \<open>
  C6: a superseded claim writes nothing but its stage. Once the stored material has moved past the
  revision a job claimed (it was cancelled, replaced, revoked, retried, reviewed or the dictionary
  changed), then after every run the sections of that job that save the extracted text, save the
  analysis, finish it with the model or locally, record a failure and spend a consent leave every
  table as it is: the job can neither publish a result of the old source, nor mark the new revision
  as failed, nor use up a consent. The one section that does write is the durable stage of the model
  path: it touches no row but that material's stage, and names the superseded revision in it.
\<close>

theorem superseded_claims_write_nothing:
  assumes "workspace.reach (S, w)" and "om_get (w_materials w) (m_id m) = Some f"
    and "m_revision m < m_revision f" and "workspace.run (S, w) ls (S', t)"
  shows "same t (snd (save_text m extracted t)) \<and> same t (snd (save_analysis m a t))
    \<and> same t (snd (finish_ai S' m g a t)) \<and> same t (snd (finish_local S' m g a waiting token t))
    \<and> same t (snd (fail_material (m_id m) (m_revision m) code t)) \<and> same t (snd (claim_cloud S' m t))
    \<and> only_its_stage m t (snd (save_ai_stage (m_id m) (m_revision m) source stage sel text_sha256 err t))"
proof -
  obtain f' where f': "om_get (w_materials t) (m_id m) = Some f'" "follows f f'"
    using evolves_materialD[OF workspace_run(5)[OF assms(1,4)] assms(2)] by blast
  then have "\<not> still_running m f'" using assms(3) by (simp add: follows_def still_running_def)
  note stale = superseded_reads[OF f'(1) this] superseded_claim[OF f'(1) this]
  show ?thesis by (intro conjI save_ai_stage_only) (rule stale[THEN reads_same])+
qed

theorem superseded_claims_write_nothing_witness:
  "m_revision (ready_material\<lparr>m_revision := 0\<rparr>) < m_revision ready_material
    \<and> same ws4 (snd (finish_ai sample_service (ready_material\<lparr>m_revision := 0\<rparr>) sample_ws_group sample_analysis ws4))"
  using superseded_claims_write_nothing[OF sample_reach(5), of "ready_material\<lparr>m_revision := 0\<rparr>" ready_material "[]"]
  by simp

section \<open>Consent\<close>

lemma yields_claim_cloud:
  "yields D n (claim_cloud S m) (\<lambda>x t. \<forall>c p. x = Some (c, p) \<longrightarrow> (\<exists>c0. om_get (w_consents D) (m_task_id m) = Some c0
     \<and> cloud_matches S (w_now D) m c0 p \<and> m_id m \<notin> set (cc_used_materials c0)
     \<and> c = c0\<lparr>cc_used_materials := cc_used_materials c0 @ [m_id m]\<rparr> \<and> om_get (w_consents t) (m_task_id m) = Some c))"
  unfolding claim_cloud_def Let_def
  apply (rule yields_read[OF reads_lock])
  apply (rule yields_read[OF reads_maybe], simp)
  apply (rule yields_branch(2), rule yields_return, simp)
  apply (rule yields_read[OF reads_fetch], simp)
  apply (rule yields_read[OF reads_now])
  apply (rule yields_branch(1), rule yields_return, simp)
  apply (rule yields_read[OF reads_material])
  apply (rule yields_branch(1), rule yields_fail)
  apply (rule yields_then_return[OF yields_save])
  subgoal for _ _ _ _ c0
    by (intro allI impI, rule exI[of _ c0]) (auto dest: sameD(5))
  done

lemma settled_run:
  assumes "service_ok S" and "ws_inv S w" and "workspace.run (S, w) ls (S', t)"
  shows "S' = S" "settled S w t"
  using workspace.run_relates[OF assms(3)] workspace.run_inv[OF assms(3)] assms(1,2)
  by (simp_all add: service_inv_def service_evolves_def settled_def)

text \<open>
  C5: a consent is spent once per material. A consent the worker claims is unexpired and covers this
  very revision and source of the material and the model and profile of the provider; and after any
  run that follows, the same consent is not claimed for that material again, so nothing is sent
  twice under one consent, neither by a retry nor after a restart. The state is any that satisfies
  the invariant, so the claim may happen between any two steps of a job.
\<close>

theorem consent_is_spent_once:
  assumes w: "service_inv (S, w)" and first: "claim_cloud S m w = (Inr (Some (c, p)), u)"
    and run: "workspace.run (S, u) ls (S', v)"
    and second: "claim_cloud S' m' v = (Inr again, t)"
    and m': "m_id m' = m_id m" "m_task_id m' = m_task_id m"
  shows "w_now w < cc_expires_at c \<and> cc_model c = pc_model p \<and> cc_profile_hash c = profile_hash S p
    \<and> (m_id m, m_revision m, m_source_sha256 m) \<in> set (cc_source_hashes c)
    \<and> (\<forall>c' p'. again = Some (c', p') \<longrightarrow> cc_id c' \<noteq> cc_id c)"
proof -
  have inv: "service_ok S" "ws_inv S w" using w by (simp_all add: service_inv_def)
  obtain c0 where c0: "cloud_matches S (w_now w) m c0 p" "c = c0\<lparr>cc_used_materials := cc_used_materials c0 @ [m_id m]\<rparr>"
    and u: "om_get (w_consents u) (m_task_id m) = Some c"
    using yieldsD[OF yields_claim_cloud first] by blast
  have su: "ws_inv S u" using safeD[OF safe_claim_cloud inv(2) first] by simp
  note later = settled_run[OF inv(1) su run]
  have "cc_id c' \<noteq> cc_id c" if some: "again = Some (c', p')" for c' p'
  proof
    assume id: "cc_id c' = cc_id c"
    obtain c1 where c1: "om_get (w_consents v) (m_task_id m) = Some c1" "m_id m \<notin> set (cc_used_materials c1)"
      "cc_id c' = cc_id c1"
      using yieldsD[OF yields_claim_cloud second, rule_format, OF some] m' by auto
    have "issued S (w_issued u) (cc_id c)" using consent_invD[OF su u] .
    then obtain c2 where "om_get (w_consents u) (m_task_id m) = Some c2" "consent_grows c2 c1"
      using evolves_consentD[OF _ c1(1), of S u] later(2) id c1(3) by (auto simp: settled_def)
    with u c0(2) c1(2) show False by (auto simp: consent_grows_def)
  qed
  with c0 show ?thesis by (auto simp: cloud_matches_def list_ex_iff)
qed

text \<open>The sample task with a consent for its one material, up to the claim of its consent.\<close>

definition sample_provider :: provider_config where
  "sample_provider = \<lparr>pc_id = ''p'', pc_name = ''p'', pc_base_url = ''u'', pc_model = ''m'',
     pc_allow_private_network = False, pc_revision = 1\<rparr>"

definition sample_consent :: cloud_consent where
  "sample_consent = \<lparr>cc_id = sample_ids ''consent'' 7, cc_provider_id = ''p'', cc_model = ''m'',
     cc_profile_hash = profile_hash sample_service sample_provider,
     cc_source_hashes = [(sample_ids ''mat'' 6, 1, sample_hash ''ok'')], cc_expires_at = 3700, cc_used_materials = []\<rparr>"

definition configured_ws :: ws where
  "configured_ws = ws3\<lparr>w_providers := [(''p'', sample_provider)]\<rparr>"

definition consented_ws :: ws where
  "consented_ws = configured_ws\<lparr>w_consents := [(sample_ids ''task'' 5, sample_consent)], w_issued := 8\<rparr>"

definition running_ws :: ws where
  "running_ws = consented_ws\<lparr>w_materials := [(sample_ids ''mat'' 6, running_material)]\<rparr>"

definition spent_ws :: ws where
  "spent_ws = running_ws\<lparr>w_consents := [(sample_ids ''task'' 5, sample_consent\<lparr>cc_used_materials := [sample_ids ''mat'' 6]\<rparr>)]\<rparr>"

lemmas consent_states = configured_ws_def consented_ws_def running_ws_def spent_ws_def sample_ws_defs

lemma sample_grant:
  "consent sample_service (sample_ids ''task'' 5) ''p'' ''m'' ''redaction_assistance'' configured_ws = (Inr 3700, consented_ws)"
  by (simp add: consent_def consent_one_def op_bind_run quiet_access consent_states sample_task_def sample_material_def
      sample_provider_def sample_consent_def Let_def sample_ids_def)

lemma sample_claimed: "claim_row (sample_ids ''mat'' 6) 1 consented_ws = (Inr (Some running_material), running_ws)"
  by (simp add: claim_row_def op_bind_run quiet_access consent_states Let_def running_material_def sample_material_def)

lemma running_inv: "service_inv (sample_service, running_ws)"
proof -
  have "workspace.run (sample_service, ws3) [Request (Configure [(''p'', sample_provider)]),
      Request (Consent (sample_ids ''task'' 5) ''p'' ''m'' ''redaction_assistance'')] (sample_service, consented_ws)"
    using request_run[of sample_service "Configure [(''p'', sample_provider)]" ws3 configured_ws]
      request_run[of sample_service "Consent (sample_ids ''task'' 5) ''p'' ''m'' ''redaction_assistance''" configured_ws
        consented_ws] sample_grant by (auto simp: configured_ws_def)
  then have "service_inv (sample_service, consented_ws)"
    using workspace.run_reach[OF sample_reach(4)] workspace.reach_inv by blast
  then show ?thesis using safeD[OF safe_claim_row _ sample_claimed] by (simp add: service_inv_def)
qed

lemma sample_spend: "claim_cloud sample_service running_material running_ws
    = (Inr (Some (sample_consent\<lparr>cc_used_materials := [sample_ids ''mat'' 6]\<rparr>, sample_provider)), spent_ws)"
  "claim_cloud sample_service running_material spent_ws = (Inr None, spent_ws)"
  by (simp_all add: claim_cloud_def cloud_matches_def op_bind_run quiet_access consent_states Let_def still_running_def
      sample_consent_def sample_provider_def)

theorem consent_is_spent_once_witness:
  "claim_cloud sample_service running_material spent_ws = (Inr None, spent_ws)
    \<and> w_now running_ws < cc_expires_at sample_consent"
  using consent_is_spent_once[OF running_inv sample_spend(1) _ sample_spend(2), of "[]"] sample_spend(2) by simp

section \<open>Recording a failure\<close>

definition faults_left :: "ws \<Rightarrow> nat" where
  "faults_left w = length (w_outcomes w)"

lemma io_faults:
  "io w = (Inl e, t) \<Longrightarrow> faults_left t < faults_left w" "io w = (Inr x, t) \<Longrightarrow> faults_left t \<le> faults_left w"
  by (cases w rule: io_cases, auto simp: faults_left_def io_def split: list.splits)+

lemma access_faults:
  "lock w = (Inl e, t) \<Longrightarrow> faults_left t < faults_left w" "lock w = (Inr x, t) \<Longrightarrow> faults_left t \<le> faults_left w"
  "save_row r w = (Inl e, t) \<Longrightarrow> faults_left t < faults_left w"
  unfolding lock_def save_row_def encode_def put_rows_def by (auto elim!: op_bind_cases dest!: io_faults)

lemma material_faults:
  assumes "om_get (w_materials w) i = Some m"
  shows "material i w = (Inl e, t) \<Longrightarrow> faults_left t < faults_left w"
    "material i w = (Inr x, t) \<Longrightarrow> faults_left t \<le> faults_left w"
proof -
  have "io w = (Inr (), u) \<Longrightarrow> om_get (w_materials u) i = Some m" for u using assms io_run(2) by fastforce
  then show "material i w = (Inl e, t) \<Longrightarrow> faults_left t < faults_left w"
    "material i w = (Inr x, t) \<Longrightarrow> faults_left t \<le> faults_left w"
    using io_faults[of w] unfolding material_def fetch_def
    by (auto elim!: op_bind_cases simp: ok_or_def split: option.splits)
qed

lemma fail_material_faults:
  assumes run: "fail_material mid revision code w = (Inl e, t)" and m: "om_get (w_materials w) mid = Some m"
  shows "faults_left t < faults_left w"
  using run unfolding fail_material_def
proof (cases rule: op_bind_cases)
  case err
  then show ?thesis using access_faults(1) by blast
next
  case (ok a u)
  have u: "om_get (w_materials u) mid = Some m" "faults_left u \<le> faults_left w"
    using m lock_Inr[OF ok(1)] access_faults(2)[OF ok(1)] by simp_all
  from ok(2) show ?thesis
  proof (cases rule: op_bind_cases)
    case err
    then show ?thesis using material_faults(1)[OF u(1)] u(2) by fastforce
  next
    case (ok f v)
    then have "faults_left v \<le> faults_left w" using material_faults(2)[OF u(1)] u(2) le_trans by blast
    with ok(2) show ?thesis
      by (auto split: if_splits elim!: op_bind_cases dest: access_faults(3))
  qed
qed

text \<open>
  What a recorded failure leaves of the material: the failed status with the code as its reason, where
  the job still held it, and nothing changed where the claim was superseded.
\<close>

definition failure_of :: "nat \<Rightarrow> string \<Rightarrow> material \<Rightarrow> material" where
  "failure_of revision code f =
     (if m_revision f = revision \<and> m_status f = ''running''
      then f\<lparr>m_status := ''failed'', m_reason_code := Some code\<rparr> else f)"

lemma yields_fail_material:
  "yields D n (fail_material mid revision code) (\<lambda>_ t. \<exists>f. om_get (w_materials D) mid = Some f
     \<and> om_get (w_materials t) mid = Some (failure_of revision code f))"
  unfolding fail_material_def
  by (rule yields_read[OF reads_lock], rule yields_read[OF reads_material], rule yields_branch(1),
      rule yields_then_return[OF yields_save], auto simp: failure_of_def dest!: sameD(2) intro!: yields_return)

lemma record_cases:
  assumes "record_material_failure mid revision code w = (r, t)" and "om_get (w_materials w) mid = Some m"
  obtains "r = Inr True" "om_get (w_materials t) mid = Some (failure_of revision code m)"
    | "r = Inr False" "faults_left t < faults_left w"
proof (cases "fail_material mid revision code w")
  case (Pair x u)
  show thesis
  proof (cases x)
    case (Inl e)
    then show thesis using assms Pair fail_material_faults[of mid revision code w e u m] that(2)
      by (simp add: record_material_failure_def op_bind_run op_attempt_def)
  next
    case (Inr b)
    then show thesis using assms Pair yieldsD[OF yields_fail_material, of mid revision code w b u] that(1)
      by (simp add: record_material_failure_def op_bind_run op_attempt_def)
  qed
qed

lemma settle_records:
  assumes ok: "service_ok S" and J: "job_ok S J" and quiet: "\<And>k w. faults_left (jb_gap J k w) \<le> faults_left w"
    and "ws_inv S w" and "om_get (w_materials w) mid = Some m" and "faults_left w < n"
  shows "\<exists>u f t. settle_material_failure J n mid revision code w = (Inr True, t) \<and> evolves S w u
    \<and> om_get (w_materials u) mid = Some f \<and> om_get (w_materials t) mid = Some (failure_of revision code f)"
  using assms(4-)
proof (induction n arbitrary: w m)
  case (Suc n)
  obtain r u where run: "record_material_failure mid revision code w = (r, u)" by fastforce
  show ?case
  proof (rule record_cases[OF run Suc.prems(2)])
    assume "r = Inr True" "om_get (w_materials u) mid = Some (failure_of revision code m)"
    then show ?thesis using run Suc.prems(2) evolves_refl by (fastforce simp: op_bind_run)
  next
    assume r: "r = Inr False" and faults: "faults_left u < faults_left w"
    let ?v = "jb_gap J (1000 + n) u"
    have u: "ws_inv S u" "evolves S w u" using safeD[OF safe_record_failure Suc.prems(1) run] by simp_all
    then have v: "ws_inv S ?v" "evolves S w ?v"
      using J evolves_trans[OF u(2)] unfolding job_ok_def settled_def by blast+
    obtain m' where "om_get (w_materials ?v) mid = Some m'" using evolves_materialD[OF v(2) Suc.prems(2)] by blast
    moreover have "faults_left ?v < n" using quiet[of "1000 + n" u] faults Suc.prems(3) by linarith
    ultimately have "\<exists>u f t. settle_material_failure J n mid revision code ?v = (Inr True, t) \<and> evolves S ?v u
        \<and> om_get (w_materials u) mid = Some f \<and> om_get (w_materials t) mid = Some (failure_of revision code f)"
      using Suc.IH[OF v(1)] by blast
    then show ?thesis using run r evolves_trans[OF v(2)] by (fastforce simp: op_bind_run gap_def)
  qed
qed simp


definition faulty_ws :: ws where
  "faulty_ws = running_ws\<lparr>w_outcomes := [None, Some (error_new ''storage_busy''), Some (error_new ''storage_busy'')]\<rparr>"


section \<open>Restart\<close>

text \<open>The state of a recovery that has still to settle \<open>R\<close>, against the store it started from.\<close>

definition spent :: "ws \<Rightarrow> material \<Rightarrow> bool" where
  "spent w m \<longleftrightarrow> (\<exists>c. om_get (w_consents w) (m_task_id m) = Some c \<and> m_id m \<in> set (cc_used_materials c))"

definition recovering :: "ws \<Rightarrow> string set \<Rightarrow> ws \<Rightarrow> bool" where
  "recovering w R u \<longleftrightarrow> w_consents u = w_consents w
     \<and> (\<forall>i m. om_get (w_materials u) i = Some m \<longrightarrow> (\<exists>m0. om_get (w_materials w) i = Some m0
          \<and> m_task_id m = m_task_id m0 \<and> m_id m = i \<and> m_id m0 = i
          \<and> (i \<notin> R \<longrightarrow> m_status m \<noteq> ''running''
              \<and> (m_status m0 = ''running'' \<and> spent w m0 \<longrightarrow> m_status m = ''needs_review''))))"

lemma recoveringD:
  assumes "recovering w R u" and "om_get (w_materials u) i = Some m"
  obtains m0 where "om_get (w_materials w) i = Some m0" "m_task_id m = m_task_id m0" "m_id m = i" "m_id m0 = i"
    "i \<notin> R \<Longrightarrow> m_status m \<noteq> ''running''"
    "i \<notin> R \<Longrightarrow> m_status m0 = ''running'' \<Longrightarrow> spent w m0 \<Longrightarrow> m_status m = ''needs_review''"
  using assms unfolding recovering_def by meson

lemma recover_material_Inr:
  assumes "recover_material mid u = (Inr x, t)"
  obtains m where "om_get (w_materials u) mid = Some m" "w_consents t = w_consents u"
    "w_materials t = om_put (m_id m) (if spent u m
        then m\<lparr>m_status := ''needs_review'', m_reason_code := Some ''cloud_dispatch_interrupted''\<rparr>
        else m\<lparr>m_status := ''queued''\<rparr>) (w_materials u)"
  using assms unfolding recover_material_def
  by (auto elim!: op_bind_cases dest!: access_found save_row_Inr simp: spent_def split: option.splits if_splits)

lemma recovering_material:
  assumes u: "recovering w R u" and run: "recover_material mid u = (Inr x, t)"
  shows "recovering w (R - {mid}) t"
  using run
proof (rule recover_material_Inr)
  fix m assume m: "om_get (w_materials u) mid = Some m" and c: "w_consents t = w_consents u"
    and t: "w_materials t = om_put (m_id m) (if spent u m
        then m\<lparr>m_status := ''needs_review'', m_reason_code := Some ''cloud_dispatch_interrupted''\<rparr>
        else m\<lparr>m_status := ''queued''\<rparr>) (w_materials u)"
  obtain m0 where m0: "om_get (w_materials w) mid = Some m0" "m_task_id m = m_task_id m0" "m_id m = mid" "m_id m0 = mid"
    using recoveringD[OF u m] by blast
  have cw: "w_consents u = w_consents w" using u by (simp add: recovering_def)
  have sp: "spent u m \<longleftrightarrow> spent w m0" using m0 cw by (simp add: spent_def)
  show ?thesis unfolding recovering_def
  proof (intro conjI allI impI)
    show "w_consents t = w_consents w" using c cw by simp
    fix i m' assume m': "om_get (w_materials t) i = Some m'"
    show "\<exists>m0. om_get (w_materials w) i = Some m0 \<and> m_task_id m' = m_task_id m0 \<and> m_id m' = i \<and> m_id m0 = i
        \<and> (i \<notin> R - {mid} \<longrightarrow> m_status m' \<noteq> ''running''
            \<and> (m_status m0 = ''running'' \<and> spent w m0 \<longrightarrow> m_status m' = ''needs_review''))"
    proof (cases "i = mid")
      case True
      then show ?thesis using m' m0 t sp by (auto split: if_splits)
    next
      case False
      then show ?thesis using m' u t m0(3) unfolding recovering_def by auto
    qed
  qed
qed

lemma recovering_materials:
  "recovering w R u \<Longrightarrow> op_each recover_material ids u = (Inr x, t) \<Longrightarrow> recovering w (R - set ids) t"
proof (induction ids arbitrary: u R)
  case (Cons mid ids)
  from Cons.prems(2) obtain v where v: "recover_material mid u = (Inr (), v)" "op_each recover_material ids v = (Inr x, t)"
    by (auto elim!: op_bind_cases)
  have "R - {mid} - set ids = R - set (mid # ids)" by auto
  with Cons.IH[OF recovering_material[OF Cons.prems(1) v(1)] v(2)] show ?case by (simp only:)
qed simp

lemma recovering_review:
  assumes "recovering w {} u" and "om_get (w_materials u) i = Some m" and "w_consents v = w_consents u"
    and "w_materials v = om_put (m_id m) (m\<lparr>m_status := ''needs_review'', m_reason_code := c\<rparr>) (w_materials u)"
  shows "recovering w {} v"
proof -
  obtain m0 where m0: "om_get (w_materials w) i = Some m0" "m_task_id m = m_task_id m0" "m_id m = i" "m_id m0 = i"
    using recoveringD[OF assms(1,2)] by blast
  have "w_consents u = w_consents w" using assms(1) by (simp add: recovering_def)
  with assms(3) have cw: "w_consents v = w_consents w" by simp
  show ?thesis unfolding recovering_def
  proof (intro conjI allI impI)
    show "w_consents v = w_consents w" by (rule cw)
    fix j m' assume m': "om_get (w_materials v) j = Some m'"
    show "\<exists>m0. om_get (w_materials w) j = Some m0 \<and> m_task_id m' = m_task_id m0 \<and> m_id m' = j \<and> m_id m0 = j
        \<and> (j \<notin> {} \<longrightarrow> m_status m' \<noteq> ''running''
            \<and> (m_status m0 = ''running'' \<and> spent w m0 \<longrightarrow> m_status m' = ''needs_review''))"
    proof (cases "j = i")
      case True
      then have "m' = m\<lparr>m_status := ''needs_review'', m_reason_code := c\<rparr>" using m' assms(4) m0(3) by simp
      then show ?thesis using m0 True by simp
    next
      case False
      then have "om_get (w_materials u) j = Some m'" using m' assms(4) m0(3) by simp
      then show ?thesis using assms(1) unfolding recovering_def by blast
    qed
  qed
qed

lemma recovering_same:
  "recovering w R u \<Longrightarrow> w_consents v = w_consents u \<Longrightarrow> w_materials v = w_materials u \<Longrightarrow> recovering w R v"
  by (simp add: recovering_def)

lemma recover_ai_stage_Inr:
  assumes "recover_ai_stage s u = (Inr x, t)"
  obtains "w_consents t = w_consents u" "w_materials t = w_materials u"
    | m where "om_get (w_materials u) (as_material_id s) = Some m" "w_consents t = w_consents u"
      "w_materials t = om_put (m_id m) (m\<lparr>m_status := ''needs_review'',
         m_reason_code := Some ''ai_dispatch_interrupted''\<rparr>) (w_materials u)"
proof (cases "as_stage s \<in> {''ocr_running'', ''redaction_running''}")
  case False
  then show thesis using assms that(1) by (simp add: recover_ai_stage_def)
next
  case True
  then have "(as_stage s \<notin> {''ocr_running'', ''redaction_running''}) = False" by simp
  note run = assms[unfolded recover_ai_stage_def this if_False]
  obtain r v where v: "material (as_material_id s) u = (r, v)" by fastforce
  have tables: "w_materials v = w_materials u" "w_consents v = w_consents u"
    using readsD(1)[OF reads_material _ le0 v, of u] sameD by simp_all
  show thesis
  proof (cases r)
    case (Inl e)
    then show thesis using run v tables that(1) by (simp add: op_bind_run op_attempt_def)
  next
    case (Inr m)
    have m: "om_get (w_materials u) (as_material_id s) = Some m" using access_found(9) v Inr by blast
    have rest: "op_bind (if m_revision m = as_revision s \<and> m_source_sha256 m = as_source_sha256 s
              \<and> m_status m \<in> {''running'', ''queued''}
           then save_row (RMaterial (m_id m) (m\<lparr>m_status := ''needs_review'',
             m_reason_code := Some ''ai_dispatch_interrupted''\<rparr>))
           else op_return ()) (\<lambda>_. op_bind now (\<lambda>time.
          save_row (RStage (as_material_id s) (s\<lparr>as_stage := ''interrupted'',
            as_error_code := Some ''ai_dispatch_interrupted'', as_updated_at := time\<rparr>)))) v = (Inr x, t)"
      using run v Inr by (simp add: op_bind_run[of "op_attempt (material (as_material_id s))"] op_attempt_def)
    show thesis
    proof (cases "m_revision m = as_revision s \<and> m_source_sha256 m = as_source_sha256 s
              \<and> m_status m \<in> {''running'', ''queued''}")
      case True
      then show thesis using rest tables that(2)[OF m]
        by (simp only: if_True) (auto elim!: op_bind_cases dest!: save_row_Inr now_Inr)
    next
      case False
      then show thesis using rest tables that(1)
        by (simp only: if_False) (auto elim!: op_bind_cases dest!: save_row_Inr now_Inr)
    qed
  qed
qed

lemma recovering_stages:
  "recovering w {} u \<Longrightarrow> op_each recover_ai_stage ss u = (Inr x, t) \<Longrightarrow> recovering w {} t"
proof (induction ss arbitrary: u)
  case (Cons s ss)
  from Cons.prems(2) obtain v where v: "recover_ai_stage s u = (Inr (), v)" "op_each recover_ai_stage ss v = (Inr x, t)"
    by (auto elim!: op_bind_cases)
  have "recovering w {} v"
    using v(1) by (rule recover_ai_stage_Inr)
      (use Cons.prems(1) recovering_same recovering_review in blast)+
  then show ?case using Cons.IH v(2) by blast
qed simp

text \<open>
  C21: a restart leaves nothing running and repeats no dispatch. When startup succeeds, no material is
  running, and an interrupted material for which a consent had already been spent is left for review
  instead of being queued, so its text is not sent a second time without a decision.
\<close>

theorem restart_settles_interrupted_work:
  assumes w: "service_inv (S, w)"
    and ids: "\<And>i. i \<in> set ids \<longleftrightarrow> (\<exists>m. om_get (w_materials w) i = Some m \<and> m_status m = ''running'')"
    and run: "open_workspace ids w = (Inr (), t)"
  shows "(\<forall>i m. om_get (w_materials t) i = Some m \<longrightarrow> m_status m \<noteq> ''running'')
    \<and> (\<forall>i m c. om_get (w_materials w) i = Some m \<and> m_status m = ''running''
         \<and> om_get (w_consents w) (m_task_id m) = Some c \<and> i \<in> set (cc_used_materials c)
         \<longrightarrow> (\<exists>m'. om_get (w_materials t) i = Some m' \<and> m_status m' = ''needs_review''))"
proof -
  have inv: "ws_inv S w" using w by (simp add: service_inv_def)
  from run obtain u v ss z where u: "io (w\<lparr>w_cancellations := [], w_chats := [], w_fired := []\<rparr>) = (Inr (), u)"
    and v: "op_each recover_material ids u = (Inr (), v)" and z: "fetch_all w_stages v = (Inr ss, z)"
    and t: "op_each recover_ai_stage ss z = (Inr (), t)"
    unfolding open_workspace_def recover_ai_stages_def by (auto elim!: op_bind_cases)
  have "recovering w (set ids) u"
    unfolding recovering_def using io_run(2)[OF u] ids material_invD(1)[OF inv] by auto
  then have "recovering w {} v" using recovering_materials[OF _ v] by fastforce
  then have "recovering w {} z" by (rule recovering_same) (use fetch_all_Inr[OF z] in simp_all)
  then have rec: "recovering w {} t" using recovering_stages t by blast
  have "evolves S w t"
    using keeps_open[of S ids] inv ids run unfolding keeps_def settled_def interrupted_def by fastforce
  then have later: "\<exists>m'. om_get (w_materials t) i = Some m'" if "om_get (w_materials w) i = Some m" for i m
    using evolves_materialD[OF _ that] by blast
  show ?thesis
  proof (intro conjI allI impI)
    show "m_status m \<noteq> ''running''" if "om_get (w_materials t) i = Some m" for i m
      using rec that unfolding recovering_def by blast
    fix i m c assume m: "om_get (w_materials w) i = Some m \<and> m_status m = ''running''
         \<and> om_get (w_consents w) (m_task_id m) = Some c \<and> i \<in> set (cc_used_materials c)"
    then obtain m' where m': "om_get (w_materials t) i = Some m'" using later by blast
    have "spent w m" using m material_invD(1)[OF inv] by (auto simp: spent_def)
    then show "\<exists>m'. om_get (w_materials t) i = Some m' \<and> m_status m' = ''needs_review''"
      using rec m m' unfolding recovering_def by fastforce
  qed
qed

definition settled_ws :: ws where
  "settled_ws = spent_ws\<lparr>w_materials := [(sample_ids ''mat'' 6, running_material\<lparr>m_status := ''needs_review'',
     m_reason_code := Some ''cloud_dispatch_interrupted''\<rparr>)], w_cancellations := [], w_chats := [], w_fired := []\<rparr>"

lemma sample_restart: "open_workspace [sample_ids ''mat'' 6] spent_ws = (Inr (), settled_ws)"
  by (simp add: open_workspace_def recover_material_def recover_ai_stages_def op_bind_run quiet_access consent_states
      settled_ws_def running_material_def sample_material_def)

theorem restart_settles_interrupted_work_witness:
  "open_workspace [sample_ids ''mat'' 6] spent_ws = (Inr (), settled_ws)
    \<and> m_status running_material = ''running''
    \<and> (\<exists>m'. om_get (w_materials settled_ws) (sample_ids ''mat'' 6) = Some m' \<and> m_status m' = ''needs_review'')"
proof -
  have "service_inv (sample_service, spent_ws)"
    using running_inv safeD[OF safe_claim_cloud _ sample_spend(1)] by (simp add: service_inv_def)
  then show ?thesis
    using restart_settles_interrupted_work[OF _ _ sample_restart, of sample_service, THEN conjunct2, rule_format,
        of "sample_ids ''mat'' 6" running_material]
      sample_restart by (simp add: spent_ws_def running_ws_def)
qed

end
