(* ===== verification/Client_Guarantees.thy ===== *)
theory Client_Guarantees imports Guarantees begin

text \<open>
  What an external client of the service gets: the pages of its results, its own tasks and results
  only, files of its inbox only, and one task per request.
\<close>

section \<open>Pages\<close>

text \<open>Following the cursors, for at most \<open>n\<close> pages.\<close>

fun read_pages :: "nat \<Rightarrow> string \<Rightarrow> string option \<Rightarrow> string list option" where
  "read_pages 0 text cursor = None"
| "read_pages (Suc n) text cursor = (case page_of text cursor of
     Inl _ \<Rightarrow> None
   | Inr (page, next_cursor) \<Rightarrow> (case next_cursor of
       None \<Rightarrow> Some [page]
     | Some c \<Rightarrow> map_option (\<lambda>pages. page # pages) (read_pages n text (Some c))))"

definition cursor_at :: "nat \<Rightarrow> string option \<Rightarrow> bool" where
  "cursor_at i c \<longleftrightarrow> (c = None \<and> i = 0) \<or> c = Some (decimal i)"

lemma cursor_parses: "cursor_at i c \<Longrightarrow> i < 2 ^ 64 \<Longrightarrow>
    parse_unsigned (2 ^ 64) (case c of None \<Rightarrow> ''0'' | Some c \<Rightarrow> c) = Some i"
proof -
  have "decimal 0 = ''0''" by code_simp
  then show "cursor_at i c \<Longrightarrow> i < 2 ^ 64 \<Longrightarrow>
    parse_unsigned (2 ^ 64) (case c of None \<Rightarrow> ''0'' | Some c \<Rightarrow> c) = Some i"
    using parse_decimal[of i "2 ^ 64"] by (auto simp: cursor_at_def)
qed

lemma page_progress:
  assumes "valid_utf8 text" and "is_char_boundary text i" and "i \<le> length text"
  defines "stop \<equiv> floor_boundary text (min (i + PAGE_BYTES) (length text))"
  shows "i \<le> stop" "stop \<le> i + PAGE_BYTES" "stop \<le> length text"
    "stop < length text \<Longrightarrow> i + (PAGE_BYTES - 3) \<le> stop"
proof -
  show "stop \<le> i + PAGE_BYTES" "stop \<le> length text"
    using floor_boundary_le[of "text" "min (i + PAGE_BYTES) (length text)"] by (simp_all add: stop_def)
  show "i \<le> stop" unfolding stop_def by (rule floor_boundary_ge[OF assms(2)]) (simp add: assms(3))
  show "i + (PAGE_BYTES - 3) \<le> stop" if less: "stop < length text"
  proof -
    have short: "i + PAGE_BYTES \<le> length text"
    proof (rule ccontr)
      assume "\<not> i + PAGE_BYTES \<le> length text"
      then have "stop = length text" by (simp add: stop_def floor_boundary_id)
      with less show False by simp
    qed
    have "i + PAGE_BYTES - 4 < length text" using short by (simp add: PAGE_BYTES_def)
    from boundary_progress[OF assms(1) this] obtain j where
      j: "i + PAGE_BYTES - 4 < j" "j \<le> i + PAGE_BYTES - 4 + 4" "is_char_boundary text j" by blast
    have "j \<le> stop" unfolding stop_def
      by (rule floor_boundary_ge[OF j(3)]) (use j(2) short in \<open>simp add: PAGE_BYTES_def\<close>)
    with j(1) show ?thesis by (simp add: PAGE_BYTES_def)
  qed
qed

lemma read_pages_from:
  assumes enc: "valid_utf8 text" "length text < 2 ^ 64"
  shows "is_char_boundary text i \<Longrightarrow> cursor_at i c \<Longrightarrow> length text - i \<le> n * (PAGE_BYTES - 3) \<Longrightarrow> 0 < n \<Longrightarrow>
    \<exists>pages. read_pages n text c = Some pages \<and> concat pages = drop i text
      \<and> (\<forall>p\<in>set pages. length p \<le> PAGE_BYTES \<and> (\<exists>a b. str_get text a b = Some p))"
proof (induction n arbitrary: i c)
  case (Suc n)
  have i: "i \<le> length text" using boundary_le Suc.prems(1) by blast
  define stop where "stop = floor_boundary text (min (i + PAGE_BYTES) (length text))"
  note bounds = page_progress[OF enc(1) Suc.prems(1) i, folded stop_def]
  define page where "page = take (stop - i) (drop i text)"
  have run: "page_of text c = Inr (page, if stop < length text then Some (decimal stop) else None)"
    using cursor_parses[OF Suc.prems(2)] i enc(2) Suc.prems(1)
    by (simp add: page_of_def page_def stop_def Let_def)
  have stopb: "is_char_boundary text stop" by (simp add: stop_def)
  have page: "length page \<le> PAGE_BYTES" "str_get text i stop = Some page"
    using bounds Suc.prems(1) stopb by (auto simp: page_def str_get_def)
  have split: "drop i text = page @ drop stop text"
    using bounds(1) append_take_drop_id[of "stop - i" "drop i text"] by (simp add: page_def)
  show ?case
  proof (cases "stop < length text")
    case False
    then show ?thesis using run page split by (auto simp: bounds(3))
  next
    case True
    have left: "length text - stop \<le> n * (PAGE_BYTES - 3)" using bounds(4)[OF True] Suc.prems(3) by simp
    then have "0 < n" using True by (cases n) auto
    then obtain pages where "read_pages n text (Some (decimal stop)) = Some pages" "concat pages = drop stop text"
      "\<forall>p\<in>set pages. length p \<le> PAGE_BYTES \<and> (\<exists>a b. str_get text a b = Some p)"
      using Suc.IH[OF stopb _ left, of "Some (decimal stop)"] by (auto simp: cursor_at_def)
    then show ?thesis using run page split True by auto
  qed
qed simp

text \<open>
  C24: the pages are the text. For every text in UTF-8 of less than \<open>2 ^ 64\<close> bytes, following the
  cursors from the start ends, after at most one page per 65,533 bytes and one more; every page
  has at most 64 KiB and begins and ends between characters, and the pages together are exactly
  the text: none is lost, repeated or cut inside a character.
\<close>

theorem pages_are_the_text:
  assumes "valid_utf8 text" and "length text < 2 ^ 64"
  shows "\<exists>pages. read_pages (length text div (PAGE_BYTES - 3) + 1) text None = Some pages \<and> concat pages = text
    \<and> (\<forall>p\<in>set pages. length p \<le> 65536 \<and> (\<exists>a b. str_get text a b = Some p))"
proof -
  have "length text \<le> (length text div (PAGE_BYTES - 3) + 1) * (PAGE_BYTES - 3)"
    using dividend_less_div_times[of "PAGE_BYTES - 3" "length text"] by (simp add: PAGE_BYTES_def algebra_simps)
  then show ?thesis
    using read_pages_from[OF assms, of 0 None "length text div (PAGE_BYTES - 3) + 1"]
    by (simp add: cursor_at_def PAGE_BYTES_def)
qed

theorem pages_are_the_text_witness:
  "\<exists>pages. read_pages 1 ''ok'' None = Some pages \<and> concat pages = ''ok''"
proof -
  have "valid_utf8 ''ok''" by (simp add: valid_utf8_ascii)
  moreover have "length ''ok'' < 2 ^ 64" "length ''ok'' div (PAGE_BYTES - 3) + 1 = 1" by (simp_all add: PAGE_BYTES_def)
  ultimately show ?thesis using pages_are_the_text[of "''ok''"] by metis
qed

section \<open>Isolation\<close>

text \<open>The client a token stands for: enabled, with the hash of the token.\<close>

definition token_of :: "service \<Rightarrow> ws \<Rightarrow> string \<Rightarrow> mcp_client \<Rightarrow> bool" where
  "token_of S w token c \<longleftrightarrow> c \<in> set (om_values (w_clients w)) \<and> mc_enabled c
     \<and> mc_token_hash c = content_hash S token"

lemma token_after_io [simp]: "token_of S (w\<lparr>w_outcomes := xs\<rparr>) = token_of S w"
  by (intro ext) (simp add: token_of_def)

lemma authenticate_Inr:
  assumes "authenticate_client S token w = (Inr c, t)"
  shows "token_of S w token c \<and> t = after_io w"
  using assms unfolding authenticate_client_def
  by (auto elim!: op_bind_cases dest!: require_Inr access_found simp: ok_or_def token_of_def find_Some_iff
      split: option.splits)

text \<open>
  C14: clients are isolated. A page is returned only to a client that is enabled and whose token it is,
  from a result of the client's own group that may be read now, and the page is what the paging of
  the result's text gives at that cursor; a status is returned only for a task this client submitted
  to its own group. A token of no enabled client gets neither.
\<close>

theorem clients_are_isolated:
  shows "(\<forall>r cursor page t. mcp_read S token r cursor w = (Inr page, t) \<longrightarrow>
        (\<exists>c x. token_of S w token c \<and> proper_result S w r x \<and> rr_group_id x = mc_group_id c
           \<and> pg_sha256 page = rr_output_sha256 x
           \<and> page_of (rr_text x) cursor = Inr (pg_text page, pg_next_cursor page)))
    \<and> (\<forall>i view t. mcp_status S token i w = (Inr view, t) \<longrightarrow>
        (\<exists>c k. token_of S w token c \<and> om_get (w_tasks w) i = Some k
           \<and> tk_group_id k = mc_group_id c \<and> tk_client_id k = Some (mc_id c)))"
proof (intro conjI allI impI)
  fix r cursor page t assume "mcp_read S token r cursor w = (Inr page, t)"
  then obtain c x next_cursor u v where c: "authenticate_client S token (after_io w) = (Inr c, u)"
    and x: "read_result_locked S r u = (Inr x, v)" and own: "rr_group_id x = mc_group_id c"
    and page: "page_of (rr_text x) cursor = Inr (pg_text page, next_cursor)"
      "pg_sha256 page = rr_output_sha256 x" "pg_next_cursor page = next_cursor"
    unfolding mcp_read_def
    by (auto elim!: op_bind_cases dest!: lock_Inr require_Inr split: prod.splits)
  have "token_of S w token c" "u = after_io (after_io w)" using authenticate_Inr[OF c] by simp_all
  moreover from this read_locked_proper[OF x] have "proper_result S w r x" by simp
  ultimately show "\<exists>c x. token_of S w token c \<and> proper_result S w r x \<and> rr_group_id x = mc_group_id c
           \<and> pg_sha256 page = rr_output_sha256 x
           \<and> page_of (rr_text x) cursor = Inr (pg_text page, pg_next_cursor page)"
    using own page by auto
next
  fix i view t assume "mcp_status S token i w = (Inr view, t)"
  then obtain c k u v where c: "authenticate_client S token (after_io w) = (Inr c, u)"
    and k: "fetch w_tasks i u = (Inr k, v)" and own: "tk_group_id k = mc_group_id c \<and> tk_client_id k = Some (mc_id c)"
    unfolding mcp_status_def by (auto elim!: op_bind_cases dest!: lock_Inr require_Inr)
  have "token_of S w token c" "u = after_io (after_io w)" using authenticate_Inr[OF c] by simp_all
  then show "\<exists>c k. token_of S w token c \<and> om_get (w_tasks w) i = Some k
           \<and> tk_group_id k = mc_group_id c \<and> tk_client_id k = Some (mc_id c)"
    using access_found(4)[OF k] own by auto
qed

theorem clients_are_isolated_witness:
  "mcp_read sample_service (sample_uuid 2 @ sample_uuid 3) (sample_ids ''res'' 7) None ws4
     = (Inr \<lparr>pg_result_id = sample_ids ''res'' 7, pg_text = ''ok'', pg_sha256 = sample_hash ''ok'',
         pg_next_cursor = None\<rparr>, ws4)
   \<and> (\<exists>c. token_of sample_service ws4 (sample_uuid 2 @ sample_uuid 3) c)"
proof -
  have "decimal 0 = ''0''" by code_simp
  then have zero: "parse_unsigned (2 ^ 64) ''0'' = Some 0" using parse_decimal[of 0 "2 ^ 64"] by simp
  have page: "page_of ''ok'' None = Inr (''ok'', None)"
    using zero by (simp add: page_of_def PAGE_BYTES_def floor_boundary_id is_char_boundary_def Let_def)
  have locked: "read_result_locked sample_service (sample_ids ''res'' 7) ws4 = (Inr sample_result, ws4)"
    using sample_read by (simp add: read_result_def op_bind_run quiet_access)
  have hash: "rr_output_sha256 sample_result = sample_hash ''ok''"
    by (simp add: sample_result_def ready_result_def sample_analysis_def)
  have client: "mc_group_id sample_client = sample_ids ''grp'' 0" "mc_enabled sample_client"
    "mc_token_hash sample_client = sample_hash (sample_uuid 2 @ sample_uuid 3)"
    by (simp_all add: sample_client_def)
  have read: "mcp_read sample_service (sample_uuid 2 @ sample_uuid 3) (sample_ids ''res'' 7) None ws4
     = (Inr \<lparr>pg_result_id = sample_ids ''res'' 7, pg_text = ''ok'', pg_sha256 = sample_hash ''ok'',
         pg_next_cursor = None\<rparr>, ws4)"
    by (simp add: mcp_read_def authenticate_client_def op_bind_run quiet_access locked page hash client)
  then show ?thesis using clients_are_isolated[of sample_service "sample_uuid 2 @ sample_uuid 3" ws4] by blast
qed

section \<open>The inbox\<close>

lemma chain_from_Inr:
  "chain_from D t base cs = Inr u \<Longrightarrow> k < length cs \<Longrightarrow>
    cs ! k \<noteq> ''..'' \<and> fs_link (D (t + k)) (base @ take (Suc k) cs) = Some False"
proof (induction cs arbitrary: t base k)
  case (Cons c cs)
  from Cons.prems(1) have c: "c \<noteq> ''..''" "fs_link (D t) (base @ [c]) = Some False"
    "chain_from D (Suc t) (base @ [c]) cs = Inr u"
    by (auto split: if_splits option.splits)
  show ?case
  proof (cases k)
    case (Suc j)
    then show ?thesis using Cons.IH[OF c(3), of j] Cons.prems(2) by simp
  qed (use c in simp)
qed simp

text \<open>No entry on the way to the path is a symbolic link, each seen in its turn from the state \<open>t\<close> on.\<close>

definition unlinked :: "disk \<Rightarrow> nat \<Rightarrow> path \<Rightarrow> bool" where
  "unlinked D t p \<longleftrightarrow> (\<forall>k<length p. p ! k \<noteq> ''..'' \<and> fs_link (D (t + k)) (take (Suc k) p) = Some False)"

lemma ordinary_unlinked: "ordinary_chain D t p = Inr u \<Longrightarrow> unlinked D t p"
  using chain_from_Inr[of D t "[]" p] by (simp add: ordinary_chain_def unlinked_def)

lemma read_parts:
  "ensure b e = Inr u \<longleftrightarrow> b" "ok_or x e = Inr y \<longleftrightarrow> x = Some y"
  by (auto simp: ensure_def ok_or_def split: option.split)

text \<open>
  C25: what is read from an inbox lies inside it, while others change the file system between any two
  observations. When a file is read, its name is the last segment of the relative path and no segment
  is empty, a dot or two dots. No entry on the way to the inbox was a symbolic link, and none on the
  way to the file in three passes: before it was opened, after it was opened and after it was read.
  Between the first two the canonical file was below the canonical inbox. The content is what the
  opened regular file held, unchanged during the read and of at most 20 MiB.
\<close>

theorem inbox_reads_stay_inside:
  assumes "read_inbox D root relative = Inr (name, bytes)"
  shows "(let segments = str_split (CHR ''/'') relative; p = root @ segments; t = length root + length p in
      name = last segments \<and> (\<forall>s\<in>set segments. s \<noteq> [] \<and> s \<noteq> ''.'' \<and> s \<noteq> ''..'')
      \<and> unlinked D 0 root \<and> unlinked D (length root) p
      \<and> (\<exists>canonical base. fs_canonical (D t) p = Inr canonical \<and> fs_canonical (D (t + 1)) root = Inr base
           \<and> take (length base) canonical = base)
      \<and> (\<exists>f. fs_open (D (t + 2)) p = Some f \<and> fr_is_file f \<and> fr_bytes f = Inr bytes
           \<and> fr_len_before f = length bytes \<and> fr_len_after f = length bytes
           \<and> fr_modified_after f = fr_modified_before f)
      \<and> unlinked D (t + 3) p \<and> unlinked D (t + 6 + length p) p
      \<and> length bytes \<le> 20 * 1024 * 1024)"
proof -
  define segments where "segments = str_split (CHR ''/'') relative"
  define p where "p = root @ segments"
  define t where "t = length root + length p"
  from assms have "relative_ok relative \<and> (\<exists>canonical base f content. unlinked D 0 root
      \<and> unlinked D (length root) p \<and> fs_canonical (D t) p = Inr canonical
      \<and> fs_canonical (D (t + 1)) root = Inr base \<and> starts_with_path canonical base
      \<and> fs_open (D (t + 2)) p = Some f \<and> unlinked D (t + 3) p
      \<and> fr_is_file f \<and> fr_len_before f \<le> 20 * 1024 * 1024 \<and> fr_bytes f = Inr content
      \<and> fr_len_before f = fr_len_after f \<and> fr_modified_before f = fr_modified_after f
      \<and> length (take (20 * 1024 * 1024 + 1) content) = fr_len_before f
      \<and> unlinked D (t + 6 + length p) p
      \<and> name = last p \<and> bytes = take (20 * 1024 * 1024 + 1) content)"
    unfolding read_inbox_def Let_def segments_def[symmetric] p_def[symmetric] t_def[symmetric]
    by (simp only: and_then_Inr_iff read_parts sum.inject prod.inject) (blast dest: ordinary_unlinked)
  then obtain canonical base f content where
    rel: "relative_ok relative" and chains: "unlinked D 0 root" "unlinked D (length root) p"
      "unlinked D (t + 3) p" "unlinked D (t + 6 + length p) p"
    and canonical: "fs_canonical (D t) p = Inr canonical" "fs_canonical (D (t + 1)) root = Inr base"
      "starts_with_path canonical base"
    and f: "fs_open (D (t + 2)) p = Some f" "fr_is_file f" "fr_len_before f \<le> 20 * 1024 * 1024" "fr_bytes f = Inr content"
    and kept: "fr_len_before f = fr_len_after f" "fr_modified_before f = fr_modified_after f"
      "length (take (20 * 1024 * 1024 + 1) content) = fr_len_before f"
    and out: "name = last p" "bytes = take (20 * 1024 * 1024 + 1) content"
    by blast
  have "length content \<le> 20 * 1024 * 1024" using kept(3) f(3) by simp
  then have bytes: "bytes = content" "length bytes = fr_len_before f" using out(2) kept(3) by simp_all
  have "name = last segments" using out(1) str_split_nonempty by (simp add: p_def segments_def)
  moreover have "\<forall>s\<in>set segments. s \<noteq> [] \<and> s \<noteq> ''.'' \<and> s \<noteq> ''..''"
    using rel by (simp add: relative_ok_def list_all_iff segments_def)
  moreover have "take (length base) canonical = base" using canonical(3) by (simp add: starts_with_path_def)
  ultimately show ?thesis unfolding Let_def segments_def[symmetric] p_def[symmetric] t_def[symmetric]
    using chains canonical(1,2) f kept(1,2) bytes by auto
qed

definition sample_disk :: disk where
  "sample_disk = (\<lambda>_. \<lparr>fs_link = (\<lambda>_. Some False), fs_canonical = Inr,
     fs_open = (\<lambda>_. Some \<lparr>fr_is_file = True, fr_len_before = 2, fr_modified_before = Some 1, fr_bytes = Inr ''ok'',
       fr_len_after = 2, fr_modified_after = Some 1\<rparr>), fs_utf8_name = (\<lambda>_. True)\<rparr>)"

theorem inbox_reads_stay_inside_witness:
  "read_inbox sample_disk [''inbox''] ''d/f'' = Inr (''f'', ''ok'') \<and> unlinked sample_disk 13 [''inbox'', ''d'', ''f'']"
proof -
  have split: "str_split (CHR ''/'') ''d/f'' = [''d'', ''f'']" by simp
  then have run: "read_inbox sample_disk [''inbox''] ''d/f'' = Inr (''f'', ''ok'')"
    by (simp add: read_inbox_def relative_ok_def sample_disk_def ordinary_chain_def starts_with_path_def Let_def)
  then show ?thesis using inbox_reads_stay_inside[OF run] split by (simp add: Let_def)
qed

section \<open>Submission\<close>

lemma yields_then_reads:
  assumes m: "yields D n m (\<lambda>_. same E)" and f: "\<And>a. reads E 0 (f a) Q"
  shows "yields D n (op_bind m f) (\<lambda>b t. same E t \<and> Q b (w_issued t))"
  unfolding yields_def
proof (intro allI impI)
  fix u b t assume u: "same D u" "n \<le> w_issued u" and run: "op_bind m f u = (Inr b, t)"
  from run obtain a v where mu: "m u = (Inr a, v)" and fa: "f a v = (Inr b, t)" by (rule op_bind_cases) auto
  have "same E v" using m u mu unfolding yields_def by blast
  then show "same E t \<and> Q b (w_issued t)" using readsD[OF f _ le0 fa] by blast
qed

text \<open>Reading without a postcondition.\<close>

lemma reads_true_bind: "reads D n m (\<lambda>_ _. True) \<Longrightarrow> (\<And>a k. reads D k (f a) (\<lambda>_ _. True)) \<Longrightarrow>
    reads D n (op_bind m f) (\<lambda>_ _. True)"
  by (rule reads_bind)

lemma reads_true_branch:
  "(b \<Longrightarrow> reads D n m (\<lambda>_ _. True)) \<Longrightarrow> (\<not> b \<Longrightarrow> reads D n m' (\<lambda>_ _. True)) \<Longrightarrow>
    reads D n (if b then m else m') (\<lambda>_ _. True)"
  "(x = None \<Longrightarrow> reads D n m (\<lambda>_ _. True)) \<Longrightarrow> (\<And>y. x = Some y \<Longrightarrow> reads D n (f y) (\<lambda>_ _. True)) \<Longrightarrow>
    reads D n (case x of None \<Rightarrow> m | Some y \<Rightarrow> f y) (\<lambda>_ _. True)"
  by (auto split: option.split)

lemma reads_true_attempt: "reads D n m (\<lambda>_ _. True) \<Longrightarrow> reads D n (op_attempt m) (\<lambda>_ _. True)"
  by (rule reads_any, rule reads_attempt)

lemma reads_true_map: "(\<And>x k. reads D k (f x) (\<lambda>_ _. True)) \<Longrightarrow> reads D n (op_map f xs) (\<lambda>_ _. True)"
  by (rule reads_any, rule reads_map[where P = "\<lambda>_ _ _. True"]) simp_all

lemmas reads_true = reads_true_bind reads_true_branch reads_true_attempt reads_true_map
  reads_any[OF reads_fetch] reads_any[OF reads_maybe] reads_any[OF reads_material] reads_any[OF reads_return]
  reads_any[OF reads_now] table_only_tables

lemma reads_status: "reads D n (task_status i) (\<lambda>v _. \<exists>k. om_get (w_tasks D) i = Some k \<and> tv_id v = tk_id k)"
proof -
  have "reads D j (display_material m) (\<lambda>_ _. True)" "reads D j (material_progress m) (\<lambda>_ _. True)" for j m
    unfolding display_material_def material_progress_def Let_def by (intro reads_true)+
  note parts = reads_true_map[OF reads_true_bind[OF reads_any[OF reads_material] this(1)]]
    reads_true_map[OF reads_true_bind[OF this(2) reads_any[OF reads_return]]]
  show ?thesis unfolding task_status_def
    by (rule reads_bind[OF reads_fetch], simp, rule reads_bind[OF parts(1)], rule reads_bind[OF parts(2)],
        rule reads_weaken[OF reads_return]) auto
qed

text \<open>Without a fault, the status of a task of a well-formed store is shown, and showing it changes nothing.\<close>

lemma quiet_map:
  "(\<And>x. x \<in> set xs \<Longrightarrow> \<exists>y. f x w = (Inr y, w)) \<Longrightarrow> \<exists>ys. op_map f xs w = (Inr ys, w)"
proof (induction xs)
  case (Cons x xs)
  obtain y where "f x w = (Inr y, w)" using Cons.prems by auto
  moreover obtain ys where "op_map f xs w = (Inr ys, w)" using Cons by auto
  ultimately show ?case by (simp add: op_bind_run)
qed simp

lemma quiet_status:
  assumes w: "ws_inv S w" "w_outcomes w = []" and k: "om_get (w_tasks w) i = Some k"
  shows "\<exists>v. task_status i w = (Inr v, w) \<and> tv_id v = tk_id k"
proof -
  have display: "\<exists>m'. display_material m w = (Inr m', w)" for m
    using quiet_access(6,8)[OF w(2)] w(2)
    by (auto simp: display_material_def op_bind_run op_attempt_def fetch_def ok_or_def Let_def quiet_access(1)
        split: option.splits sum.splits)
  have "\<exists>x. op_bind (material mid) display_material w = (Inr x, w)" if mid: "mid \<in> set (tk_material_ids k)" for mid
  proof -
    obtain m where "om_get (w_materials w) mid = Some m" using task_invD(3)[OF w(1) k mid] by blast
    then show ?thesis using display[of m] by (simp add: op_bind_run quiet_access[OF w(2)])
  qed
  then obtain ms where ms: "op_map (\<lambda>i. op_bind (material i) display_material) (tk_material_ids k) w = (Inr ms, w)"
    using quiet_map by meson
  have "\<exists>x. op_bind (material_progress m) (\<lambda>p. op_return (m, p)) w = (Inr x, w)" for m
    by (simp add: material_progress_def op_bind_run quiet_access[OF w(2)])
  then obtain views where "op_map (\<lambda>m. op_bind (material_progress m) (\<lambda>p. op_return (m, p))) ms w = (Inr views, w)"
    using quiet_map by meson
  then show ?thesis using k ms by (simp add: task_status_def op_bind_run quiet_access[OF w(2)])
qed

lemma find_unique:
  assumes "x \<in> set xs" and "P x" and "\<And>y. y \<in> set xs \<Longrightarrow> P y \<Longrightarrow> y = x"
  shows "find P xs = Some x"
  using assms
proof (induction xs)
  case (Cons y ys)
  show ?case
  proof (cases "P y")
    case True
    have "y = x" by (rule Cons.prems(3)) (use True in simp_all)
    then show ?thesis using True by simp
  next
    case False
    then have "x \<in> set ys" using Cons.prems(1,2) by auto
    moreover have "z = x" if "z \<in> set ys" "P z" for z by (rule Cons.prems(3)) (use that in simp_all)
    ultimately have "find P ys = Some x" using Cons.IH Cons.prems(2) by blast
    then show ?thesis using False by simp
  qed
qed simp

text \<open>What a submission leaves: the task of the request is found again, with the same fingerprint.\<close>

definition request_stands :: "string \<Rightarrow> string option \<Rightarrow> string \<Rightarrow> string \<Rightarrow> string \<Rightarrow> ws \<Rightarrow> bool" where
  "request_stands gid client_id request_id fingerprint tid w \<longleftrightarrow>
     (\<exists>g. om_get (w_groups w) gid = Some g)
     \<and> (\<forall>cid. client_id = Some cid \<longrightarrow> (\<exists>c. om_get (w_clients w) cid = Some c \<and> mc_enabled c \<and> mc_group_id c = gid))
     \<and> (\<exists>k. find (same_request gid client_id request_id) (om_values (w_tasks w)) = Some k
          \<and> tk_fingerprint k = fingerprint \<and> tk_id k = tid)"

lemma created_stands:
  assumes D: "ws_inv S D"
    and none: "find (same_request gid client_id request_id) (om_values (w_tasks D)) = None"
    and g: "om_get (w_groups D) gid = Some h"
    and c: "\<And>cid. client_id = Some cid \<Longrightarrow> \<exists>c. om_get (w_clients D) cid = Some c \<and> mc_enabled c \<and> mc_group_id c = gid"
    and parts: "list_all2 (\<lambda>f p. snd p = file_rows S g gid tid f (fst p)) files parts"
    and k: "tk_id k = tid" "same_request gid client_id request_id k"
    and t: "same (fold apply_row (concat (map snd parts) @ [RTask tid k]) D) t"
  shows "request_stands gid client_id request_id (tk_fingerprint k) tid t"
proof -
  let ?rows = "concat (map snd parts) @ [RTask tid k]"
  let ?E = "fold apply_row ?rows D"
  note rows = file_rows_concat[OF parts]
  have kept: "om_get (w_groups ?E) i = om_get (w_groups D) i" "om_get (w_clients ?E) i = om_get (w_clients D) i" for i
    using rows by (intro groups.get_other clients.get_other; simp)+
  have wf: "om_wf (w_tasks ?E)" using fold_apply_row_wf(2) ws_inv_wf(2)[OF D] .
  have only: "y = k" if y: "y \<in> set (om_values (w_tasks ?E))" "same_request gid client_id request_id y" for y
  proof -
    obtain i where "om_get (w_tasks ?E) i = Some y" using value_get[OF wf y(1)] by blast
    then show ?thesis
    proof (cases rule: tasks.get_cases)
      case row
      then show ?thesis using rows(4) by simp
    next
      case kept
      then show ?thesis using none y(2) get_value[OF kept(2)] unfolding find_None_iff by blast
    qed
  qed
  have "om_get (w_tasks ?E) tid = Some k" by simp
  then have "find (same_request gid client_id request_id) (om_values (w_tasks ?E)) = Some k"
    by (intro find_unique only k(2)) (rule get_value)
  then show ?thesis using kept g c k(1) sameD(1,3,7)[OF t] by (auto simp: request_stands_def)
qed

lemma yields_create_task:
  assumes D: "ws_inv S D" and ok: "service_ok S"
    and none: "find (same_request gid client_id request_id) (om_values (w_tasks D)) = None"
    and g: "om_get (w_groups D) gid = Some h"
    and c: "\<And>cid. client_id = Some cid \<Longrightarrow> \<exists>c. om_get (w_clients D) cid = Some c \<and> mc_enabled c \<and> mc_group_id c = gid"
  shows "yields D n (create_task S g gid request_id fingerprint files client_id)
    (\<lambda>v. request_stands gid client_id request_id fingerprint (tv_id v))"
  unfolding create_task_def Let_def
  apply (rule yields_read[OF reads_new_id[OF ok]], rule yields_read[OF reads_now],
      rule yields_read[OF reads_submit_files[OF ok]], rule yields_read[OF reads_encode])
  subgoal premises prems for tid _ time _ parts _ row
  proof (rule yields_post[OF yields_then_reads[OF yields_put reads_status]])
    fix v t
    let ?k = "\<lparr>tk_id = tid, tk_group_id = gid, tk_client_id = client_id, tk_request_id = request_id,
      tk_fingerprint = fingerprint, tk_material_ids = map fst parts, tk_created_at = time\<rparr>"
    assume t: "same (fold apply_row (concat (map snd parts) @ [row]) D) t \<and>
      (\<exists>k. om_get (w_tasks (fold apply_row (concat (map snd parts) @ [row]) D)) tid = Some k \<and> tv_id v = tk_id k)"
    have row: "row = RTask tid ?k" using prems by simp
    have "request_stands gid client_id request_id (tk_fingerprint ?k) tid t"
      by (rule created_stands[OF D none g c, where g = g and files = files and parts = parts])
        (use prems t row in \<open>simp_all add: same_request_def del: fold_append\<close>)
    moreover have "tv_id v = tid" using t row by auto
    ultimately show "request_stands gid client_id request_id fingerprint (tv_id v) t" by simp
  qed
  done

lemma reads_check_client:
  "reads D n (check_client gid client_id) (\<lambda>_ _. \<forall>cid. client_id = Some cid \<longrightarrow>
     (\<exists>c. om_get (w_clients D) cid = Some c \<and> mc_enabled c \<and> mc_group_id c = gid))"
  unfolding check_client_def
  by (cases client_id)
    (simp_all add: reads_any[OF reads_return], rule reads_bind[OF reads_fetch], simp,
      rule reads_weaken[OF reads_require], auto)

lemma yields_submit:
  assumes D: "ws_inv S D" and ok: "service_ok S"
  shows "yields D n (submit S gid request_id files client_id) (\<lambda>v t. check_batch request_id files = Inr ()
    \<and> request_stands gid client_id request_id (fingerprint_of S files) (tv_id v) t)"
  unfolding submit_def Let_def
  apply (rule yields_read[OF reads_lift], rule yields_read[OF reads_lock])
  apply (rule yields_read[OF reads_fetch], simp)
  apply (rule yields_read[OF reads_check_client])
  apply (rule yields_read[OF reads_fetch_all], simp)
  subgoal premises prems for _ _ _ _ g _ _ _ ts
  proof (rule yields_branch(2))
    assume none: "find (same_request gid client_id request_id) ts = None"
    show "yields D k (create_task S g gid request_id (fingerprint_of S files) files client_id)
      (\<lambda>v t. check_batch request_id files = Inr ()
        \<and> request_stands gid client_id request_id (fingerprint_of S files) (tv_id v) t)" for k
      by (rule yields_post[OF yields_create_task[OF D ok]]) (use prems none in auto)
  next
    fix k assume k: "find (same_request gid client_id request_id) ts = Some k"
    have mem: "k \<in> set (om_values (w_tasks D))" using k prems by (auto simp: find_Some_iff)
    obtain i where "om_get (w_tasks D) i = Some k" using value_get[OF ws_inv_wf(2)[OF D] mem] by blast
    then have stored: "om_get (w_tasks D) (tk_id k) = Some k" using task_invD(1)[OF D] by blast
    show "yields D j (if tk_fingerprint k \<noteq> fingerprint_of S files then op_fail (error_new ''idempotency_conflict'')
        else task_status (tk_id k)) (\<lambda>v t. check_batch request_id files = Inr ()
          \<and> request_stands gid client_id request_id (fingerprint_of S files) (tv_id v) t)" for j
    proof (rule yields_branch(1), rule yields_fail)
      assume "\<not> tk_fingerprint k \<noteq> fingerprint_of S files"
      then show "yields D j (task_status (tk_id k)) (\<lambda>v t. check_batch request_id files = Inr ()
          \<and> request_stands gid client_id request_id (fingerprint_of S files) (tv_id v) t)"
        unfolding yields_def
      proof (intro allI impI, goal_cases)
        case (1 u v t)
        note read = readsD[OF reads_status 1(2) le0 1(4)]
        have "tv_id v = tk_id k" using read(3)[OF refl] stored by auto
        then show ?case using prems k 1(1) sameD(1,3,7)[OF read(1)] by (auto simp: request_stands_def)
      qed
    qed
  qed
  done

lemma submit_again:
  assumes w: "ws_inv S t" "w_outcomes t = []" and stands: "request_stands gid client_id request_id fp tid t"
    and batch: "check_batch request_id files = Inr ()"
  shows "fingerprint_of S files = fp \<Longrightarrow> \<exists>v. submit S gid request_id files client_id t = (Inr v, t) \<and> tv_id v = tid"
    "fingerprint_of S files \<noteq> fp \<Longrightarrow>
      submit S gid request_id files client_id t = (Inl (error_new ''idempotency_conflict''), t)"
proof -
  from stands obtain g k where g: "om_get (w_groups t) gid = Some g"
    and k: "find (same_request gid client_id request_id) (om_values (w_tasks t)) = Some k" "tk_fingerprint k = fp" "tk_id k = tid"
    by (auto simp: request_stands_def)
  have client: "check_client gid client_id t = (Inr (), t)"
    using stands by (cases client_id) (auto simp: request_stands_def check_client_def op_bind_run quiet_access[OF w(2)])
  have run: "submit S gid request_id files client_id t =
      (if fp \<noteq> fingerprint_of S files then (Inl (error_new ''idempotency_conflict''), t) else task_status tid t)"
    using g k client batch by (simp add: submit_def op_bind_run quiet_access[OF w(2)] Let_def)
  obtain i where "om_get (w_tasks t) i = Some k"
    using value_get[OF ws_inv_wf(2)[OF w(1)], of k] k(1) by (auto simp: find_Some_iff)
  then have "om_get (w_tasks t) tid = Some k" using task_invD(1)[OF w(1)] k(3) by blast
  then obtain v where "task_status tid t = (Inr v, t)" "tv_id v = tk_id k" using quiet_status[OF w] by blast
  with run k(3) show "fingerprint_of S files = fp \<Longrightarrow>
      \<exists>v. submit S gid request_id files client_id t = (Inr v, t) \<and> tv_id v = tid"
    "fingerprint_of S files \<noteq> fp \<Longrightarrow>
      submit S gid request_id files client_id t = (Inl (error_new ''idempotency_conflict''), t)" by simp_all
qed

text \<open>
  C39: a request is one task. After a submission succeeded, submitting the same request with the same
  files again changes nothing and returns the same task, and submitting it with files of another
  fingerprint is refused as a conflict and changes nothing either.
\<close>

theorem submission_is_idempotent:
  assumes "service_inv (S, w)" and "submit S gid request_id files client_id w = (Inr v, t)" and "w_outcomes t = []"
  shows "(\<exists>v'. submit S gid request_id files client_id t = (Inr v', t) \<and> tv_id v' = tv_id v)
    \<and> (\<forall>files'. check_batch request_id files' = Inr () \<and> fingerprint_of S files' \<noteq> fingerprint_of S files \<longrightarrow>
         submit S gid request_id files' client_id t = (Inl (error_new ''idempotency_conflict''), t))"
proof -
  have inv: "service_ok S" "ws_inv S w" using assms(1) by (simp_all add: service_inv_def)
  have t: "ws_inv S t" using safeD[OF safe_submit[OF inv(1)] inv(2) assms(2)] by simp
  have "check_batch request_id files = Inr ()
      \<and> request_stands gid client_id request_id (fingerprint_of S files) (tv_id v) t"
    using yieldsD[OF yields_submit[OF inv(2,1)] assms(2)] .
  then show ?thesis using submit_again[OF t assms(3)] by blast
qed

theorem submission_is_idempotent_witness:
  "\<exists>v. submit sample_service (sample_ids ''grp'' 0) ''req'' [sample_file] (Some (sample_ids ''client'' 4)) ws3 = (Inr v, ws3)
    \<and> tv_id v = sample_ids ''task'' 5"
proof -
  have "service_inv (sample_service, ws2)" using workspace_reach[OF sample_reach(3)] by (simp add: service_inv_def)
  from submission_is_idempotent[OF this sample_submit] show ?thesis
    by (simp add: ws3_def ws2_def ws1_def empty_ws_def sample_view_def)
qed

end
