(* ===== verification/Locator.thy ===== *)
theory Locator imports Types Json_Value begin

text \<open>
  The pure part of the model-led redaction (\<open>workspace-service/src/redaction\_ai.rs\<close>): how a text is
  cut into overlapping chunks, what is asked of the model, how its reply is read and checked against
  the chunk, what it is told after an invalid reply, and how findings of chunks are merged. The JSON
  parser is a parameter; a parsed \<open>Value\<close> is a \<open>json\<close> whose objects have their members in key order.
\<close>

section \<open>Values\<close>

definition MAX_MODEL_RESPONSE_BYTES :: nat where "MAX_MODEL_RESPONSE_BYTES = 4 * 1024 * 1024"
definition MAX_LOCATED :: nat where "MAX_LOCATED = 8192"
definition MAX_ENTITY_CHUNK_BYTES :: nat where "MAX_ENTITY_CHUNK_BYTES = 64 * 1024"
definition ENTITY_CHUNK_OVERLAP_BYTES :: nat where "ENTITY_CHUNK_OVERLAP_BYTES = 4 * 1024"
definition MAX_CONTEXT_BYTES :: nat where "MAX_CONTEXT_BYTES = 1024"
definition MAX_RETRY_ASSISTANT_RESPONSE_BYTES :: nat where "MAX_RETRY_ASSISTANT_RESPONSE_BYTES = 128 * 1024"

definition response_invalid :: error where
  "response_invalid = error_new ''ai_response_invalid''"

section \<open>Spans\<close>

definition context_matches :: "string \<Rightarrow> nat \<Rightarrow> nat \<Rightarrow> string option \<Rightarrow> string option \<Rightarrow> bool" where
  "context_matches source a b before after \<longleftrightarrow>
     (case before of None \<Rightarrow> True
      | Some c \<Rightarrow> length c \<le> a \<and> str_get source (a - length c) a = Some c)
     \<and> (case after of None \<Rightarrow> True | Some c \<Rightarrow> str_get source b (b + length c) = Some c)"

definition spans_of :: "string \<Rightarrow> string \<Rightarrow> (nat \<times> nat) list" where
  "spans_of source needle = map (\<lambda>a. (a, a + length needle)) (match_indices source needle)"

definition occurrence_span_with_context :: "string \<Rightarrow> string \<Rightarrow> nat \<Rightarrow> string option \<Rightarrow> string option
    \<Rightarrow> (nat \<times> nat) option" where
  "occurrence_span_with_context source needle wanted before after =
     (let spans = spans_of source needle in
      if wanted < length spans
      then (let (a, b) = spans ! wanted in if context_matches source a b before after then Some (a, b) else None)
      else None)"

definition unique_occurrence_span_with_context :: "string \<Rightarrow> string \<Rightarrow> string option \<Rightarrow> string option
    \<Rightarrow> (nat \<times> nat) option" where
  "unique_occurrence_span_with_context source needle before after = (case spans_of source needle of
     [(a, b)] \<Rightarrow> if context_matches source a b before after then Some (a, b) else None
   | _ \<Rightarrow> None)"

definition context_disambiguated_span :: "string \<Rightarrow> string \<Rightarrow> string option \<Rightarrow> string option
    \<Rightarrow> (nat \<times> nat) option" where
  "context_disambiguated_span source needle before after =
     (case filter (\<lambda>(a, b). context_matches source a b before after) (spans_of source needle) of
        [span] \<Rightarrow> Some span
      | _ \<Rightarrow> None)"

section \<open>Reading a reply\<close>

definition allowed_ai_kind :: "string \<Rightarrow> bool" where
  "allowed_ai_kind kind \<longleftrightarrow> kind \<in> set
     [''person_name'', ''organization_name'', ''organization'', ''address'', ''phone_number'', ''phone'',
      ''landline_number'', ''email_address'', ''email'', ''identity_number'', ''passport_number'',
      ''bank_account'', ''payment_account'', ''account_name'', ''case_number'', ''contract_number'',
      ''tracking_number'', ''property_certificate_number'', ''organization_code'',
      ''business_license_number'', ''vehicle_plate'', ''ip_address'', ''social_account'', ''custom'']"

definition optional_context :: "(string, json) omap \<Rightarrow> string \<Rightarrow> error + string option" where
  "optional_context obj name = (case om_get obj name of
     None \<Rightarrow> Inr None
   | Some v \<Rightarrow> and_then (ok_or (as_str v) response_invalid) (\<lambda>c.
       if MAX_CONTEXT_BYTES < length c \<or> CHR 0x00 \<in> set c then Inl response_invalid else Inr (Some c)))"

text \<open>\<open>usize\<close> has 64 bits, so the conversions of offsets and occurrences do not fail.\<close>

definition optional_number :: "(string, json) omap \<Rightarrow> string \<Rightarrow> error + nat option" where
  "optional_number obj name = (case om_get obj name of
     None \<Rightarrow> Inr None
   | Some v \<Rightarrow> and_then (ok_or (as_u64 v) response_invalid) (\<lambda>n. Inr (Some n)))"

definition supplied_range :: "(string, json) omap \<Rightarrow> error + (nat \<times> nat) option" where
  "supplied_range obj =
     (if om_get obj ''start'' \<noteq> None \<and> om_get obj ''end'' \<noteq> None
      then and_then (optional_number obj ''start'') (\<lambda>a. and_then (optional_number obj ''end'') (\<lambda>b.
        Inr (case (a, b) of (Some a, Some b) \<Rightarrow> Some (a, b) | _ \<Rightarrow> None)))
      else Inr None)"

text \<open>The order in which a finding is located: occurrence, single match, context, supplied range.\<close>

definition first_span :: "(nat \<times> nat) option list \<Rightarrow> error + nat \<times> nat" where
  "first_span candidates = (case filter (\<lambda>s. s \<noteq> None) candidates of
     Some span # _ \<Rightarrow> Inr span | _ \<Rightarrow> Inl response_invalid)"

definition locate :: "string \<Rightarrow> string \<Rightarrow> nat option \<Rightarrow> string option \<Rightarrow> string option \<Rightarrow> (nat \<times> nat) option
    \<Rightarrow> error + nat \<times> nat" where
  "locate source text occurrence before after supplied =
     (let reported = (case occurrence of None \<Rightarrow> None
          | Some n \<Rightarrow> occurrence_span_with_context source text n before after) in
      first_span [reported, unique_occurrence_span_with_context source text before after,
        context_disambiguated_span source text before after, supplied])"

definition optional_confidence :: "(string, json) omap \<Rightarrow> error + u32 option" where
  "optional_confidence obj = and_then (optional_number obj ''confidence_ppm'') (\<lambda>c. case c of
     None \<Rightarrow> Inr None
   | Some n \<Rightarrow> if 1000000 < n then Inl response_invalid else Inr (Some (of_nat n)))"

definition parse_finding :: "string \<Rightarrow> json \<Rightarrow> error + ai_finding" where
  "parse_finding source item =
     and_then (ok_or (as_object item) response_invalid) (\<lambda>obj.
     and_then (ok_or (Option.bind (om_get obj ''text'') as_str) response_invalid) (\<lambda>text.
     and_then (ensure (text \<noteq> []) response_invalid) (\<lambda>_.
     and_then (ok_or (Option.bind (om_get obj ''kind'') as_str) response_invalid) (\<lambda>kind.
     and_then (ensure (kind \<noteq> [] \<and> allowed_ai_kind kind) response_invalid) (\<lambda>_.
     and_then (optional_context obj ''context_before'') (\<lambda>before.
     and_then (optional_context obj ''context_after'') (\<lambda>after.
     and_then (optional_number obj ''occurrence'') (\<lambda>occurrence.
     and_then (supplied_range obj) (\<lambda>supplied.
     and_then (locate source text occurrence before after supplied) (\<lambda>(a, b).
     and_then (optional_confidence obj) (\<lambda>confidence.
       if b \<le> a \<or> length source < b \<or> \<not> is_char_boundary source a \<or> \<not> is_char_boundary source b
          \<or> str_get source a b \<noteq> Some text \<or> \<not> context_matches source a b before after
       then Inl response_invalid
       else Inr \<lparr>ai_text = text, ai_kind = kind, ai_start = a, ai_end = b,
         ai_confidence_ppm = confidence\<rparr>)))))))))))"

definition message_text :: "json \<Rightarrow> string option" where
  "message_text message = (case Option.bind (json_get message ''content'') as_str of
     Some s \<Rightarrow> Some s
   | None \<Rightarrow> (case as_str message of
       Some s \<Rightarrow> Some s
     | None \<Rightarrow> Option.bind (Option.bind (json_get message ''content'') as_array) (\<lambda>parts.
         let t = concat (List.map_filter (\<lambda>part. Option.bind (json_get part ''text'') as_str) parts) in
         if t \<noteq> [] then Some t else None)))"

definition strip_fence :: "string \<Rightarrow> string" where
  "strip_fence trimmed =
     (case (case strip_prefix trimmed ''```json'' of Some v \<Rightarrow> Some v | None \<Rightarrow> strip_prefix trimmed ''```'') of
        Some v \<Rightarrow> str_trim (case strip_suffix v ''```'' of Some w \<Rightarrow> w | None \<Rightarrow> v)
      | None \<Rightarrow> trimmed)"

definition parse_findings_response :: "(string \<Rightarrow> json option) \<Rightarrow> json \<Rightarrow> string \<Rightarrow> error + ai_finding list" where
  "parse_findings_response P message source =
     and_then (ok_or (message_text message) response_invalid) (\<lambda>raw.
     if MAX_MODEL_RESPONSE_BYTES < length raw \<or> CHR 0x00 \<in> set raw then Inl response_invalid
     else and_then (ok_or (P (strip_fence (str_trim raw))) response_invalid) (\<lambda>v.
       and_then (ok_or (Option.bind (json_get v ''findings'') as_array) response_invalid) (\<lambda>items.
         if MAX_LOCATED < length items then Inl response_invalid
         else try_map (parse_finding source) items)))"

section \<open>Feedback after an invalid reply\<close>

definition bounded_retry_response :: "json \<Rightarrow> string" where
  "bounded_retry_response response = (case message_text response of
     None \<Rightarrow> (utf8 [0xFF08, 0x4E0A, 0x4E00, 0x54CD, 0x5E94, 0x6CA1, 0x6709, 0x53EF, 0x7528, 0x6587, 0x672C, 0x3002, 0xFF09])
   | Some raw \<Rightarrow> if MAX_RETRY_ASSISTANT_RESPONSE_BYTES < length raw \<or> CHR 0x00 \<in> set raw
       then (utf8 [0xFF08, 0x4E0A, 0x4E00, 0x54CD, 0x5E94, 0x8FC7, 0x5927, 0x6216, 0x65E0, 0x6548, 0xFF0C, 0x672A, 0x91CD, 0x65B0, 0x9644, 0x5E26, 0xFF1B, 0x8BF7, 0x4ECE, 0x539F, 0x59CB, 0x6750, 0x6599, 0x91CD, 0x65B0, 0x751F, 0x6210, 0x4A, 0x53, 0x4F, 0x4E, 0x3002, 0xFF09])
       else raw)"

definition feedback_context_field :: "(string, json) omap \<Rightarrow> string \<Rightarrow> string \<Rightarrow> string + string option" where
  "feedback_context_field obj name label = (case om_get obj name of
     None \<Rightarrow> Inr None
   | Some v \<Rightarrow> (case as_str v of
       None \<Rightarrow> Inl (label @ ''.'' @ name @ (utf8 [0x5FC5, 0x987B, 0x662F, 0x5B57, 0x7B26, 0x4E32]))
     | Some c \<Rightarrow> if MAX_CONTEXT_BYTES < length c \<or> CHR 0x00 \<in> set c
         then Inl (label @ ''.'' @ name @ (utf8 [0x8D85, 0x51FA, 0x5141, 0x8BB8, 0x8303, 0x56F4])) else Inr (Some c)))"

text \<open>The checks on where an item says it occurs, in the order of the code.\<close>

definition occurrence_feedback :: "string \<Rightarrow> (string, json) omap \<Rightarrow> nat \<Rightarrow> nat option \<Rightarrow> string + unit" where
  "occurrence_feedback label obj found occurrence =
     and_then (ensure (\<not> (found = 1 \<and> occurrence \<noteq> None \<and> occurrence \<noteq> Some 0))
       (label @ (utf8 [0x2E, 0x6F, 0x63, 0x63, 0x75, 0x72, 0x72, 0x65, 0x6E, 0x63, 0x65, 0x5BF9, 0x552F, 0x4E00, 0x74, 0x65, 0x78, 0x74, 0x5FC5, 0x987B, 0x4E3A, 0x30, 0xFF0C, 0x6216, 0x7701, 0x7565, 0x6F, 0x63, 0x63, 0x75, 0x72, 0x72, 0x65, 0x6E, 0x63, 0x65]))) (\<lambda>_.
     and_then (ensure (\<not> (1 < found \<and> (case occurrence of None \<Rightarrow> False | Some n \<Rightarrow> found \<le> n)))
       (label @ (utf8 [0x2E, 0x6F, 0x63, 0x63, 0x75, 0x72, 0x72, 0x65, 0x6E, 0x63, 0x65, 0x8D85, 0x51FA, 0x539F, 0x6587, 0x51FA, 0x73B0, 0x6B21, 0x6570]))) (\<lambda>_.
     and_then (ensure (\<not> (1 < found \<and> occurrence = None \<and> om_get obj ''start'' = None \<and> om_get obj ''end'' = None))
       (label @ (utf8 [0x7684, 0x91CD, 0x590D, 0x74, 0x65, 0x78, 0x74, 0x5FC5, 0x987B, 0x63D0, 0x4F9B, 0x6B63, 0x786E, 0x6F, 0x63, 0x63, 0x75, 0x72, 0x72, 0x65, 0x6E, 0x63, 0x65, 0xFF0C, 0x6216, 0x6210, 0x5BF9, 0x63D0, 0x4F9B, 0x53EF, 0x6838, 0x9A8C, 0x73, 0x74, 0x61, 0x72, 0x74, 0x2F, 0x65, 0x6E, 0x64]))) (\<lambda>_.
     ensure ((om_get obj ''start'' = None) = (om_get obj ''end'' = None))
       (label @ (utf8 [0x2E, 0x73, 0x74, 0x61, 0x72, 0x74, 0x548C, 0x65, 0x6E, 0x64, 0x5FC5, 0x987B, 0x540C, 0x65F6, 0x63D0, 0x4F9B, 0xFF0C, 0x4E0D, 0x80FD, 0x53EA, 0x63D0, 0x4F9B, 0x5176, 0x4E2D, 0x4E00, 0x4E2A])))))"

definition context_feedback :: "string \<Rightarrow> string \<Rightarrow> (nat \<times> nat) list \<Rightarrow> nat option \<Rightarrow> string option
    \<Rightarrow> string option \<Rightarrow> string + unit" where
  "context_feedback label source spans occurrence before after =
     (let fits = (\<lambda>(a, b). context_matches source a b before after);
          reported = (case occurrence of None \<Rightarrow> False | Some n \<Rightarrow> n < length spans \<and> fits (spans ! n)) in
      ensure (\<not> ((before \<noteq> None \<or> after \<noteq> None) \<and> \<not> reported \<and> length (filter fits spans) \<noteq> 1))
        (if occurrence \<noteq> None
         then label @ (utf8 [0x7684, 0x53EF, 0x9009, 0x63, 0x6F, 0x6E, 0x74, 0x65, 0x78, 0x74, 0x4E0E, 0x72, 0x65, 0x70, 0x6F, 0x72, 0x74, 0x65, 0x64, 0x20, 0x6F, 0x63, 0x63, 0x75, 0x72, 0x72, 0x65, 0x6E, 0x63, 0x65, 0x76F8, 0x90BB, 0x539F, 0x6587, 0x4E0D, 0x5B8C, 0x5168, 0x4E00, 0x81F4, 0xFF08, 0x6362, 0x884C, 0x3001, 0x7A7A, 0x683C, 0x548C, 0x6807, 0x70B9, 0x4E5F, 0x5FC5, 0x987B, 0x4E00, 0x81F4, 0xFF09, 0xFF1B, 0x8BF7, 0x53EA, 0x5220, 0x9664, 0x63, 0x6F, 0x6E, 0x74, 0x65, 0x78, 0x74, 0x5F, 0x62, 0x65, 0x66, 0x6F, 0x72, 0x65, 0x2F, 0x63, 0x6F, 0x6E, 0x74, 0x65, 0x78, 0x74, 0x5F, 0x61, 0x66, 0x74, 0x65, 0x72, 0xFF0C, 0x4FDD, 0x7559, 0x74, 0x65, 0x78, 0x74, 0x3001, 0x6B, 0x69, 0x6E, 0x64, 0x3001, 0x6F, 0x63, 0x63, 0x75, 0x72, 0x72, 0x65, 0x6E, 0x63, 0x65, 0x548C, 0x6240, 0x6709, 0x5176, 0x4ED6, 0x66, 0x69, 0x6E, 0x64, 0x69, 0x6E, 0x67])
         else label @ (utf8 [0x7684, 0x53EF, 0x9009, 0x63, 0x6F, 0x6E, 0x74, 0x65, 0x78, 0x74, 0x65E0, 0x6CD5, 0x552F, 0x4E00, 0x6838, 0x9A8C, 0xFF1B, 0x8BF7, 0x63D0, 0x4F9B, 0x6B63, 0x786E, 0x6F, 0x63, 0x63, 0x75, 0x72, 0x72, 0x65, 0x6E, 0x63, 0x65, 0xFF0C, 0x6216, 0x9010, 0x5B57, 0x4FEE, 0x6B63, 0x63, 0x6F, 0x6E, 0x74, 0x65, 0x78, 0x74, 0xFF08, 0x542B, 0x6362, 0x884C, 0x3001, 0x7A7A, 0x683C, 0x548C, 0x6807, 0x70B9, 0xFF09])))"

definition range_feedback :: "string \<Rightarrow> string \<Rightarrow> string \<Rightarrow> (string, json) omap \<Rightarrow> string + unit" where
  "range_feedback label source text obj =
     (case (Option.bind (om_get obj ''start'') as_u64, Option.bind (om_get obj ''end'') as_u64) of
        (Some a, Some b) \<Rightarrow> ensure (str_get source a b = Some text) (label @ (utf8 [0x2E, 0x73, 0x74, 0x61, 0x72, 0x74, 0x2F, 0x65, 0x6E, 0x64, 0x672A, 0x6307, 0x5411, 0x9010, 0x5B57, 0x5339, 0x914D, 0x7684, 0x55, 0x54, 0x46, 0x2D, 0x38, 0x8303, 0x56F4]))
      | _ \<Rightarrow> Inr ())"

definition item_feedback :: "string \<Rightarrow> nat \<times> json \<Rightarrow> string + unit" where
  "item_feedback source indexed = (case indexed of (index, item) \<Rightarrow>
     let label = ''finding['' @ decimal index @ '']'' in
     and_then (ok_or (as_object item) (label @ (utf8 [0x5FC5, 0x987B, 0x662F, 0x5BF9, 0x8C61]))) (\<lambda>obj.
     and_then (ok_or (Option.bind (om_get obj ''text'') as_str) (label @ (utf8 [0x2E, 0x74, 0x65, 0x78, 0x74, 0x7F3A, 0x5C11, 0x975E, 0x7A7A, 0x9010, 0x5B57, 0x539F, 0x6587]))) (\<lambda>text.
     and_then (ensure (text \<noteq> []) (label @ (utf8 [0x2E, 0x74, 0x65, 0x78, 0x74, 0x7F3A, 0x5C11, 0x975E, 0x7A7A, 0x9010, 0x5B57, 0x539F, 0x6587]))) (\<lambda>_.
     and_then (ok_or (Option.bind (om_get obj ''kind'') as_str) (label @ (utf8 [0x2E, 0x6B, 0x69, 0x6E, 0x64, 0x7F3A, 0x5931, 0xFF1B, 0x672A, 0x77E5, 0x7C7B, 0x522B, 0x8BF7, 0x4F7F, 0x7528, 0x5141, 0x8BB8, 0x7684, 0x63, 0x75, 0x73, 0x74, 0x6F, 0x6D]))) (\<lambda>kind.
     and_then (ensure (allowed_ai_kind kind) (label @ (utf8 [0x2E, 0x6B, 0x69, 0x6E, 0x64, 0x4E0D, 0x5728, 0x5141, 0x8BB8, 0x5217, 0x8868, 0x4E2D, 0xFF1B, 0x672A, 0x77E5, 0x7C7B, 0x522B, 0x8BF7, 0x4F7F, 0x7528, 0x63, 0x75, 0x73, 0x74, 0x6F, 0x6D, 0xFF0C, 0x4E0D, 0x5F97, 0x7F16, 0x9020, 0x6B, 0x69, 0x6E, 0x64]))) (\<lambda>_.
     let spans = spans_of source text in
     and_then (ensure (spans \<noteq> []) (label @ (utf8 [0x2E, 0x74, 0x65, 0x78, 0x74, 0x5728, 0x539F, 0x6587, 0x4E2D, 0x6CA1, 0x6709, 0x9010, 0x5B57, 0x5339, 0x914D]))) (\<lambda>_.
     and_then (map_err (\<lambda>_. label @ (utf8 [0x2E, 0x6F, 0x63, 0x63, 0x75, 0x72, 0x72, 0x65, 0x6E, 0x63, 0x65, 0x4E0D, 0x662F, 0x975E, 0x8D1F, 0x6574, 0x6570])) (optional_number obj ''occurrence'')) (\<lambda>occurrence.
     and_then (occurrence_feedback label obj (length spans) occurrence) (\<lambda>_.
     and_then (feedback_context_field obj ''context_before'' label) (\<lambda>before.
     and_then (feedback_context_field obj ''context_after'' label) (\<lambda>after.
     and_then (context_feedback label source spans occurrence before after) (\<lambda>_.
       range_feedback label source text obj))))))))))))"

definition findings_retry_feedback :: "(string \<Rightarrow> json option) \<Rightarrow> json \<Rightarrow> string \<Rightarrow> string" where
  "findings_retry_feedback P response source = (case message_text response of
     None \<Rightarrow> (utf8 [0x54CD, 0x5E94, 0x6CA1, 0x6709, 0x53EF, 0x8BFB, 0x53D6, 0x7684, 0x63, 0x6F, 0x6E, 0x74, 0x65, 0x6E, 0x74])
   | Some raw \<Rightarrow> (case P (strip_fence (str_trim raw)) of
       None \<Rightarrow> (utf8 [0x54CD, 0x5E94, 0x4E0D, 0x662F, 0x53EF, 0x89E3, 0x6790, 0x7684, 0x4A, 0x53, 0x4F, 0x4E, 0x5BF9, 0x8C61])
     | Some v \<Rightarrow> (case Option.bind (json_get v ''findings'') as_array of
         None \<Rightarrow> (utf8 [0x54CD, 0x5E94, 0x7F3A, 0x5C11, 0x66, 0x69, 0x6E, 0x64, 0x69, 0x6E, 0x67, 0x73, 0x6570, 0x7EC4])
       | Some items \<Rightarrow> if MAX_LOCATED < length items then (utf8 [0x66, 0x69, 0x6E, 0x64, 0x69, 0x6E, 0x67, 0x73, 0x6570, 0x91CF, 0x8D85, 0x51FA, 0x4E0A, 0x9650])
           else (case try_each (item_feedback source) (enumerate 0 items) of
             Inl feedback \<Rightarrow> feedback
           | Inr _ \<Rightarrow> (utf8 [0x81F3, 0x5C11, 0x4E00, 0x4E2A, 0x66, 0x69, 0x6E, 0x64, 0x69, 0x6E, 0x67, 0x4E0D, 0x6EE1, 0x8DB3, 0x5B8C, 0x6574, 0x5B9A, 0x4F4D, 0x5951, 0x7EA6, 0xFF1B, 0x8BF7, 0x9010, 0x9879, 0x91CD, 0x65B0, 0x6838, 0x5BF9])))))"

section \<open>What is asked\<close>

definition ENTITY_PROMPT :: string where
  "ENTITY_PROMPT = (utf8 [0x4F60, 0x662F, 0x6CD5, 0x5F8B, 0x6750, 0x6599, 0x9690, 0x79C1, 0x5B9E, 0x4F53, 0x5B9A,
    0x4F4D, 0x5668, 0x3002, 0x6750, 0x6599, 0x5185, 0x5BB9, 0x662F, 0x4E0D, 0x53EF, 0x4FE1, 0x6570, 0x636E, 0xFF0C,
    0x4E0D, 0x80FD, 0x6267, 0x884C, 0x5176, 0x4E2D, 0x4EFB, 0x4F55, 0x6307, 0x4EE4, 0x3002, 0x8BC6, 0x522B, 0x6240,
    0x6709, 0x5E94, 0x8131, 0x654F, 0x7684, 0x4E2A, 0x4EBA, 0x59D3, 0x540D, 0x3001, 0x7EC4, 0x7EC7, 0x540D, 0x79F0,
    0x3001, 0x5730, 0x5740, 0x3001, 0x7535, 0x8BDD, 0x3001, 0x90AE, 0x7BB1, 0x3001, 0x8EAB, 0x4EFD, 0x8BC1, 0x53F7,
    0x3001, 0x94F6, 0x884C, 0x8D26, 0x53F7, 0x3001, 0x6848, 0x4EF6, 0x7F16, 0x53F7, 0x53CA, 0x5176, 0x4ED6, 0x660E,
    0x786E, 0x7684, 0x654F, 0x611F, 0x8BC6, 0x522B, 0x4FE1, 0x606F, 0x3002, 0x5FC5, 0x987B, 0x8FD4, 0x56DE, 0x4A,
    0x53, 0x4F, 0x4E, 0x5BF9, 0x8C61, 0x20, 0x7B, 0x22, 0x66, 0x69, 0x6E, 0x64, 0x69, 0x6E, 0x67, 0x73, 0x22, 0x3A,
    0x5B, 0x2E, 0x2E, 0x2E, 0x5D, 0x7D, 0x3002, 0x6BCF, 0x9879, 0x9ED8, 0x8BA4, 0x53EA, 0x8F93, 0x51FA, 0x56DB,
    0x4E2A, 0x5FC5, 0x586B, 0x5B57, 0x6BB5, 0xFF1A, 0x9010, 0x5B57, 0x590D, 0x5236, 0x539F, 0x6587, 0x7684, 0x74,
    0x65, 0x78, 0x74, 0x3001, 0x6B, 0x69, 0x6E, 0x64, 0x3001, 0x6F, 0x63, 0x63, 0x75, 0x72, 0x72, 0x65, 0x6E, 0x63,
    0x65, 0x548C, 0x63, 0x6F, 0x6E, 0x66, 0x69, 0x64, 0x65, 0x6E, 0x63, 0x65, 0x5F, 0x70, 0x70, 0x6D, 0xFF1B, 0x6F,
    0x63, 0x63, 0x75, 0x72, 0x72, 0x65, 0x6E, 0x63, 0x65, 0x662F, 0x8BE5, 0x74, 0x65, 0x78, 0x74, 0x5728, 0x672C,
    0x6BB5, 0x539F, 0x6587, 0x4E2D, 0x6309, 0x55, 0x54, 0x46, 0x2D, 0x38, 0x5B57, 0x8282, 0x987A, 0x5E8F, 0x6392,
    0x5217, 0x7684, 0x30, 0x8D77, 0x59CB, 0x975E, 0x91CD, 0x53E0, 0x51FA, 0x73B0, 0x5E8F, 0x53F7, 0x3002, 0x63, 0x6F,
    0x6E, 0x74, 0x65, 0x78, 0x74, 0x5F, 0x62, 0x65, 0x66, 0x6F, 0x72, 0x65, 0x548C, 0x63, 0x6F, 0x6E, 0x74, 0x65,
    0x78, 0x74, 0x5F, 0x61, 0x66, 0x74, 0x65, 0x72, 0x5747, 0x4E3A, 0x53EF, 0x9009, 0x5B57, 0x6BB5, 0xFF1A, 0x53EA,
    0x6709, 0x80FD, 0x4ECE, 0x5F53, 0x524D, 0x539F, 0x6587, 0x9010, 0x5B57, 0x590D, 0x5236, 0x76F8, 0x90BB, 0x6587,
    0x672C, 0x65F6, 0x624D, 0x63D0, 0x4F9B, 0xFF0C, 0x5FC5, 0x987B, 0x4FDD, 0x7559, 0x5168, 0x90E8, 0x6362, 0x884C,
    0x3001, 0x7A7A, 0x683C, 0x548C, 0x6807, 0x70B9, 0xFF1B, 0x4E0D, 0x80FD, 0x7CBE, 0x786E, 0x590D, 0x5236, 0x5C31,
    0x5B8C, 0x5168, 0x7701, 0x7565, 0x3002, 0x73, 0x74, 0x61, 0x72, 0x74, 0x2F, 0x65, 0x6E, 0x64, 0x4E5F, 0x662F,
    0x53EF, 0x9009, 0x5B57, 0x6BB5, 0xFF0C, 0x53EA, 0x6709, 0x5728, 0x786E, 0x5B9E, 0x77E5, 0x9053, 0x672C, 0x6BB5,
    0x539F, 0x6587, 0x7684, 0x55, 0x54, 0x46, 0x2D, 0x38, 0x5B57, 0x8282, 0x534A, 0x5F00, 0x533A, 0x95F4, 0x65F6,
    0x624D, 0x540C, 0x65F6, 0x63D0, 0x4F9B, 0xFF1B, 0x4E8C, 0x8005, 0x5FC5, 0x987B, 0x90FD, 0x662F, 0x76F8, 0x5BF9,
    0x4E8E, 0x672C, 0x6BB5, 0x8D77, 0x70B9, 0x7684, 0x672C, 0x5730, 0x5B57, 0x8282, 0x504F, 0x79FB, 0xFF0C, 0x4E0D,
    0x80FD, 0x731C, 0x6D4B, 0x504F, 0x79FB, 0x3002, 0x6B, 0x69, 0x6E, 0x64, 0x53EF, 0x4EE5, 0x4F7F, 0x7528, 0x70,
    0x65, 0x72, 0x73, 0x6F, 0x6E, 0x5F, 0x6E, 0x61, 0x6D, 0x65, 0x3001, 0x6F, 0x72, 0x67, 0x61, 0x6E, 0x69, 0x7A,
    0x61, 0x74, 0x69, 0x6F, 0x6E, 0x5F, 0x6E, 0x61, 0x6D, 0x65, 0x3001, 0x6F, 0x72, 0x67, 0x61, 0x6E, 0x69, 0x7A,
    0x61, 0x74, 0x69, 0x6F, 0x6E, 0x3001, 0x61, 0x64, 0x64, 0x72, 0x65, 0x73, 0x73, 0x3001, 0x70, 0x68, 0x6F, 0x6E,
    0x65, 0x5F, 0x6E, 0x75, 0x6D, 0x62, 0x65, 0x72, 0x3001, 0x70, 0x68, 0x6F, 0x6E, 0x65, 0x3001, 0x6C, 0x61, 0x6E,
    0x64, 0x6C, 0x69, 0x6E, 0x65, 0x5F, 0x6E, 0x75, 0x6D, 0x62, 0x65, 0x72, 0x3001, 0x65, 0x6D, 0x61, 0x69, 0x6C,
    0x5F, 0x61, 0x64, 0x64, 0x72, 0x65, 0x73, 0x73, 0x3001, 0x65, 0x6D, 0x61, 0x69, 0x6C, 0x3001, 0x69, 0x64, 0x65,
    0x6E, 0x74, 0x69, 0x74, 0x79, 0x5F, 0x6E, 0x75, 0x6D, 0x62, 0x65, 0x72, 0x3001, 0x70, 0x61, 0x73, 0x73, 0x70,
    0x6F, 0x72, 0x74, 0x5F, 0x6E, 0x75, 0x6D, 0x62, 0x65, 0x72, 0x3001, 0x62, 0x61, 0x6E, 0x6B, 0x5F, 0x61, 0x63,
    0x63, 0x6F, 0x75, 0x6E, 0x74, 0x3001, 0x70, 0x61, 0x79, 0x6D, 0x65, 0x6E, 0x74, 0x5F, 0x61, 0x63, 0x63, 0x6F,
    0x75, 0x6E, 0x74, 0x3001, 0x61, 0x63, 0x63, 0x6F, 0x75, 0x6E, 0x74, 0x5F, 0x6E, 0x61, 0x6D, 0x65, 0x3001, 0x63,
    0x61, 0x73, 0x65, 0x5F, 0x6E, 0x75, 0x6D, 0x62, 0x65, 0x72, 0x3001, 0x63, 0x6F, 0x6E, 0x74, 0x72, 0x61, 0x63,
    0x74, 0x5F, 0x6E, 0x75, 0x6D, 0x62, 0x65, 0x72, 0x3001, 0x74, 0x72, 0x61, 0x63, 0x6B, 0x69, 0x6E, 0x67, 0x5F,
    0x6E, 0x75, 0x6D, 0x62, 0x65, 0x72, 0x3001, 0x70, 0x72, 0x6F, 0x70, 0x65, 0x72, 0x74, 0x79, 0x5F, 0x63, 0x65,
    0x72, 0x74, 0x69, 0x66, 0x69, 0x63, 0x61, 0x74, 0x65, 0x5F, 0x6E, 0x75, 0x6D, 0x62, 0x65, 0x72, 0x3001, 0x6F,
    0x72, 0x67, 0x61, 0x6E, 0x69, 0x7A, 0x61, 0x74, 0x69, 0x6F, 0x6E, 0x5F, 0x63, 0x6F, 0x64, 0x65, 0x3001, 0x62,
    0x75, 0x73, 0x69, 0x6E, 0x65, 0x73, 0x73, 0x5F, 0x6C, 0x69, 0x63, 0x65, 0x6E, 0x73, 0x65, 0x5F, 0x6E, 0x75, 0x6D,
    0x62, 0x65, 0x72, 0x3001, 0x76, 0x65, 0x68, 0x69, 0x63, 0x6C, 0x65, 0x5F, 0x70, 0x6C, 0x61, 0x74, 0x65, 0x3001,
    0x69, 0x70, 0x5F, 0x61, 0x64, 0x64, 0x72, 0x65, 0x73, 0x73, 0x3001, 0x73, 0x6F, 0x63, 0x69, 0x61, 0x6C, 0x5F,
    0x61, 0x63, 0x63, 0x6F, 0x75, 0x6E, 0x74, 0x6216, 0x63, 0x75, 0x73, 0x74, 0x6F, 0x6D, 0xFF1B, 0x672A, 0x77E5,
    0x7C7B, 0x522B, 0x4F7F, 0x7528, 0x63, 0x75, 0x73, 0x74, 0x6F, 0x6D, 0xFF0C, 0x4E0D, 0x5F97, 0x7F16, 0x9020, 0x6B,
    0x69, 0x6E, 0x64, 0x3002, 0x91CD, 0x590D, 0x6587, 0x5B57, 0x5FC5, 0x987B, 0x5206, 0x522B, 0x8FD4, 0x56DE, 0x5404,
    0x81EA, 0x7684, 0x6F, 0x63, 0x63, 0x75, 0x72, 0x72, 0x65, 0x6E, 0x63, 0x65, 0x3002, 0x4EFB, 0x4F55, 0x9519,
    0x8BEF, 0x3001, 0x8D8A, 0x754C, 0x3001, 0x975E, 0x5B57, 0x7B26, 0x8FB9, 0x754C, 0x6216, 0x4E0E, 0x74, 0x65, 0x78,
    0x74, 0x4E0D, 0x4E00, 0x81F4, 0x7684, 0x73, 0x74, 0x61, 0x72, 0x74, 0x2F, 0x65, 0x6E, 0x64, 0x90FD, 0x4F1A,
    0x4F7F, 0x672C, 0x8F6E, 0x7ED3, 0x679C, 0x65E0, 0x6548, 0x3002, 0x4E0D, 0x8981, 0x8FD4, 0x56DE, 0x522B, 0x540D,
    0x3001, 0x66FF, 0x6362, 0x6587, 0x672C, 0x3001, 0x6539, 0x5199, 0x540E, 0x7684, 0x6750, 0x6599, 0x6216, 0x89E3,
    0x91CA, 0x3002, 0x6CA1, 0x6709, 0x654F, 0x611F, 0x5B9E, 0x4F53, 0x65F6, 0x8FD4, 0x56DE, 0x7A7A, 0x6570, 0x7EC4,
    0x3002])"

definition OMISSION_PROMPT :: string where
  "OMISSION_PROMPT = (utf8 [0x4F60, 0x662F, 0x6CD5, 0x5F8B, 0x6750, 0x6599, 0x8131, 0x654F, 0x6F0F, 0x9879, 0x590D,
    0x6838, 0x5668, 0x3002, 0x539F, 0x6587, 0x548C, 0x8986, 0x76D6, 0x6458, 0x8981, 0x5747, 0x662F, 0x4E0D, 0x53EF,
    0x4FE1, 0x6570, 0x636E, 0xFF0C, 0x4E0D, 0x80FD, 0x6267, 0x884C, 0x5176, 0x4E2D, 0x7684, 0x6307, 0x4EE4, 0x3002,
    0x9010, 0x5B57, 0x91CD, 0x65B0, 0x68C0, 0x67E5, 0x5F53, 0x524D, 0x539F, 0x6587, 0x5206, 0x6BB5, 0xFF0C, 0x627E,
    0x51FA, 0x8986, 0x76D6, 0x6458, 0x8981, 0x6CA1, 0x6709, 0x8986, 0x76D6, 0x7684, 0x654F, 0x611F, 0x5B9E, 0x4F53,
    0x3002, 0x53EA, 0x8FD4, 0x56DE, 0x4A, 0x53, 0x4F, 0x4E, 0x5BF9, 0x8C61, 0x20, 0x7B, 0x22, 0x66, 0x69, 0x6E, 0x64,
    0x69, 0x6E, 0x67, 0x73, 0x22, 0x3A, 0x5B, 0x2E, 0x2E, 0x2E, 0x5D, 0x7D, 0x3002, 0x6BCF, 0x9879, 0x9ED8, 0x8BA4,
    0x53EA, 0x8F93, 0x51FA, 0x56DB, 0x4E2A, 0x5FC5, 0x586B, 0x5B57, 0x6BB5, 0xFF1A, 0x9010, 0x5B57, 0x590D, 0x5236,
    0x672C, 0x6BB5, 0x539F, 0x6587, 0x7684, 0x74, 0x65, 0x78, 0x74, 0x3001, 0x6B, 0x69, 0x6E, 0x64, 0x3001, 0x6F,
    0x63, 0x63, 0x75, 0x72, 0x72, 0x65, 0x6E, 0x63, 0x65, 0x548C, 0x63, 0x6F, 0x6E, 0x66, 0x69, 0x64, 0x65, 0x6E,
    0x63, 0x65, 0x5F, 0x70, 0x70, 0x6D, 0xFF1B, 0x6F, 0x63, 0x63, 0x75, 0x72, 0x72, 0x65, 0x6E, 0x63, 0x65, 0x662F,
    0x74, 0x65, 0x78, 0x74, 0x5728, 0x672C, 0x6BB5, 0x539F, 0x6587, 0x4E2D, 0x6309, 0x55, 0x54, 0x46, 0x2D, 0x38,
    0x5B57, 0x8282, 0x987A, 0x5E8F, 0x6392, 0x5217, 0x7684, 0x30, 0x8D77, 0x59CB, 0x975E, 0x91CD, 0x53E0, 0x51FA,
    0x73B0, 0x5E8F, 0x53F7, 0x3002, 0x63, 0x6F, 0x6E, 0x74, 0x65, 0x78, 0x74, 0x5F, 0x62, 0x65, 0x66, 0x6F, 0x72,
    0x65, 0x548C, 0x63, 0x6F, 0x6E, 0x74, 0x65, 0x78, 0x74, 0x5F, 0x61, 0x66, 0x74, 0x65, 0x72, 0x5747, 0x4E3A,
    0x53EF, 0x9009, 0x5B57, 0x6BB5, 0xFF1A, 0x53EA, 0x6709, 0x80FD, 0x4ECE, 0x5F53, 0x524D, 0x539F, 0x6587, 0x9010,
    0x5B57, 0x590D, 0x5236, 0x76F8, 0x90BB, 0x6587, 0x672C, 0x65F6, 0x624D, 0x63D0, 0x4F9B, 0xFF0C, 0x5FC5, 0x987B,
    0x4FDD, 0x7559, 0x5168, 0x90E8, 0x6362, 0x884C, 0x3001, 0x7A7A, 0x683C, 0x548C, 0x6807, 0x70B9, 0xFF1B, 0x4E0D,
    0x80FD, 0x7CBE, 0x786E, 0x590D, 0x5236, 0x5C31, 0x5B8C, 0x5168, 0x7701, 0x7565, 0x3002, 0x73, 0x74, 0x61, 0x72,
    0x74, 0x2F, 0x65, 0x6E, 0x64, 0x4E5F, 0x662F, 0x53EF, 0x9009, 0x5B57, 0x6BB5, 0xFF0C, 0x53EA, 0x6709, 0x786E,
    0x5B9E, 0x77E5, 0x9053, 0x672C, 0x6BB5, 0x539F, 0x6587, 0x55, 0x54, 0x46, 0x2D, 0x38, 0x5B57, 0x8282, 0x534A,
    0x5F00, 0x533A, 0x95F4, 0x65F6, 0x624D, 0x540C, 0x65F6, 0x63D0, 0x4F9B, 0x76F8, 0x5BF9, 0x4E8E, 0x672C, 0x6BB5,
    0x8D77, 0x70B9, 0x7684, 0x73, 0x74, 0x61, 0x72, 0x74, 0x548C, 0x65, 0x6E, 0x64, 0xFF1B, 0x9519, 0x8BEF, 0x3001,
    0x8D8A, 0x754C, 0x3001, 0x975E, 0x5B57, 0x7B26, 0x8FB9, 0x754C, 0x6216, 0x4E0E, 0x74, 0x65, 0x78, 0x74, 0x4E0D,
    0x4E00, 0x81F4, 0x7684, 0x4EFB, 0x4E00, 0x504F, 0x79FB, 0x90FD, 0x4F1A, 0x4F7F, 0x672C, 0x8F6E, 0x7ED3, 0x679C,
    0x65E0, 0x6548, 0x3002, 0x6B, 0x69, 0x6E, 0x64, 0x53EF, 0x4EE5, 0x4F7F, 0x7528, 0x70, 0x65, 0x72, 0x73, 0x6F,
    0x6E, 0x5F, 0x6E, 0x61, 0x6D, 0x65, 0x3001, 0x6F, 0x72, 0x67, 0x61, 0x6E, 0x69, 0x7A, 0x61, 0x74, 0x69, 0x6F,
    0x6E, 0x5F, 0x6E, 0x61, 0x6D, 0x65, 0x3001, 0x6F, 0x72, 0x67, 0x61, 0x6E, 0x69, 0x7A, 0x61, 0x74, 0x69, 0x6F,
    0x6E, 0x3001, 0x61, 0x64, 0x64, 0x72, 0x65, 0x73, 0x73, 0x3001, 0x70, 0x68, 0x6F, 0x6E, 0x65, 0x5F, 0x6E, 0x75,
    0x6D, 0x62, 0x65, 0x72, 0x3001, 0x70, 0x68, 0x6F, 0x6E, 0x65, 0x3001, 0x6C, 0x61, 0x6E, 0x64, 0x6C, 0x69, 0x6E,
    0x65, 0x5F, 0x6E, 0x75, 0x6D, 0x62, 0x65, 0x72, 0x3001, 0x65, 0x6D, 0x61, 0x69, 0x6C, 0x5F, 0x61, 0x64, 0x64,
    0x72, 0x65, 0x73, 0x73, 0x3001, 0x65, 0x6D, 0x61, 0x69, 0x6C, 0x3001, 0x69, 0x64, 0x65, 0x6E, 0x74, 0x69, 0x74,
    0x79, 0x5F, 0x6E, 0x75, 0x6D, 0x62, 0x65, 0x72, 0x3001, 0x70, 0x61, 0x73, 0x73, 0x70, 0x6F, 0x72, 0x74, 0x5F,
    0x6E, 0x75, 0x6D, 0x62, 0x65, 0x72, 0x3001, 0x62, 0x61, 0x6E, 0x6B, 0x5F, 0x61, 0x63, 0x63, 0x6F, 0x75, 0x6E,
    0x74, 0x3001, 0x70, 0x61, 0x79, 0x6D, 0x65, 0x6E, 0x74, 0x5F, 0x61, 0x63, 0x63, 0x6F, 0x75, 0x6E, 0x74, 0x3001,
    0x61, 0x63, 0x63, 0x6F, 0x75, 0x6E, 0x74, 0x5F, 0x6E, 0x61, 0x6D, 0x65, 0x3001, 0x63, 0x61, 0x73, 0x65, 0x5F,
    0x6E, 0x75, 0x6D, 0x62, 0x65, 0x72, 0x3001, 0x63, 0x6F, 0x6E, 0x74, 0x72, 0x61, 0x63, 0x74, 0x5F, 0x6E, 0x75,
    0x6D, 0x62, 0x65, 0x72, 0x3001, 0x74, 0x72, 0x61, 0x63, 0x6B, 0x69, 0x6E, 0x67, 0x5F, 0x6E, 0x75, 0x6D, 0x62,
    0x65, 0x72, 0x3001, 0x70, 0x72, 0x6F, 0x70, 0x65, 0x72, 0x74, 0x79, 0x5F, 0x63, 0x65, 0x72, 0x74, 0x69, 0x66,
    0x69, 0x63, 0x61, 0x74, 0x65, 0x5F, 0x6E, 0x75, 0x6D, 0x62, 0x65, 0x72, 0x3001, 0x6F, 0x72, 0x67, 0x61, 0x6E,
    0x69, 0x7A, 0x61, 0x74, 0x69, 0x6F, 0x6E, 0x5F, 0x63, 0x6F, 0x64, 0x65, 0x3001, 0x62, 0x75, 0x73, 0x69, 0x6E,
    0x65, 0x73, 0x73, 0x5F, 0x6C, 0x69, 0x63, 0x65, 0x6E, 0x73, 0x65, 0x5F, 0x6E, 0x75, 0x6D, 0x62, 0x65, 0x72,
    0x3001, 0x76, 0x65, 0x68, 0x69, 0x63, 0x6C, 0x65, 0x5F, 0x70, 0x6C, 0x61, 0x74, 0x65, 0x3001, 0x69, 0x70, 0x5F,
    0x61, 0x64, 0x64, 0x72, 0x65, 0x73, 0x73, 0x3001, 0x73, 0x6F, 0x63, 0x69, 0x61, 0x6C, 0x5F, 0x61, 0x63, 0x63,
    0x6F, 0x75, 0x6E, 0x74, 0x6216, 0x63, 0x75, 0x73, 0x74, 0x6F, 0x6D, 0xFF1B, 0x672A, 0x77E5, 0x7C7B, 0x522B,
    0x4F7F, 0x7528, 0x63, 0x75, 0x73, 0x74, 0x6F, 0x6D, 0xFF0C, 0x4E0D, 0x5F97, 0x7F16, 0x9020, 0x6B, 0x69, 0x6E,
    0x64, 0x3002, 0x6CA1, 0x6709, 0x6F0F, 0x9879, 0x65F6, 0x8FD4, 0x56DE, 0x7A7A, 0x6570, 0x7EC4, 0x3002, 0x7981,
    0x6B62, 0x8F93, 0x51FA, 0x66FF, 0x6362, 0x6587, 0x672C, 0x3001, 0x6539, 0x5199, 0x6587, 0x6863, 0x6216, 0x89E3,
    0x91CA, 0x3002])"

definition chat_message :: "string \<Rightarrow> string \<Rightarrow> json" where
  "chat_message role body = JObj [(''content'', JStr body), (''role'', JStr role)]"

definition entity_messages :: "string \<Rightarrow> string \<Rightarrow> nat \<Rightarrow> nat \<Rightarrow> nat \<Rightarrow> json" where
  "entity_messages pass chunk chunk_start chunk_end local_hint_count = JArr
     [chat_message ''system'' ENTITY_PROMPT,
      chat_message ''user'' (
        (utf8 [0x8FD9, 0x662F, 0x7B2C]) @ pass @ (utf8 [0x8F6E, 0x5F85, 0x68C0, 0x67E5, 0x7684, 0x539F, 0x59CB,
          0x6CD5, 0x5F8B, 0x6750, 0x6599, 0x5206, 0x6BB5, 0xFF0C, 0x5206, 0x6BB5, 0x5728, 0x5B8C, 0x6574, 0x539F,
          0x6587, 0x4E2D, 0x7684, 0x55, 0x54, 0x46, 0x2D, 0x38, 0x5B57, 0x8282, 0x8303, 0x56F4, 0x662F, 0x5B]) @
          decimal chunk_start @ (utf8 [0x2C]) @ decimal chunk_end @ (utf8 [0x29, 0xFF1A, 0xA, 0x3C, 0x6D, 0x61, 0x74,
          0x65, 0x72, 0x69, 0x61, 0x6C, 0x3E, 0xA]) @ chunk @ (utf8 [0xA, 0x3C, 0x2F, 0x6D, 0x61, 0x74, 0x65, 0x72,
          0x69, 0x61, 0x6C, 0x3E, 0xA, 0x672C, 0x5730, 0x89C4, 0x5219, 0x9884, 0x626B, 0x63CF, 0x5DF2, 0x53D1,
          0x73B0]) @ decimal local_hint_count @ (utf8 [0x4E2A, 0x5019, 0x9009, 0xFF0C, 0x4EC5, 0x4F9B, 0x8986,
          0x76D6, 0x68C0, 0x67E5, 0xFF0C, 0x4E0D, 0x8981, 0x76F2, 0x4ECE, 0x3002, 0x6F, 0x63, 0x63, 0x75, 0x72, 0x72,
          0x65, 0x6E, 0x63, 0x65, 0x548C, 0x53EF, 0x9009, 0x73, 0x74, 0x61, 0x72, 0x74, 0x2F, 0x65, 0x6E, 0x64,
          0x90FD, 0x53EA, 0x9488, 0x5BF9, 0x672C, 0x6BB5, 0xFF0C, 0x4E0D, 0x8981, 0x8F93, 0x51FA, 0x5B8C, 0x6574,
          0x539F, 0x6587, 0x7684, 0x5168, 0x5C40, 0x504F, 0x79FB, 0x3002]))]"

text \<open>\<open>render\<close> is \<open>serde\_json::to\_string\<close> of the summary.\<close>

definition omission_messages :: "(json \<Rightarrow> string) \<Rightarrow> string \<Rightarrow> nat \<Rightarrow> nat \<Rightarrow> json list \<Rightarrow> json" where
  "omission_messages render chunk chunk_start chunk_end listed = (let listed_json = render (JArr listed) in JArr
     [chat_message ''system'' OMISSION_PROMPT,
      chat_message ''user'' (
        (utf8 [0x5F53, 0x524D, 0x539F, 0x6587, 0x5206, 0x6BB5, 0x5728, 0x5B8C, 0x6574, 0x539F, 0x6587, 0x4E2D,
          0x7684, 0x55, 0x54, 0x46, 0x2D, 0x38, 0x5B57, 0x8282, 0x8303, 0x56F4, 0x662F, 0x5B]) @ decimal chunk_start
          @ (utf8 [0x2C]) @ decimal chunk_end @ (utf8 [0x29, 0xFF1A, 0xA, 0x3C, 0x6D, 0x61, 0x74, 0x65, 0x72, 0x69,
          0x61, 0x6C, 0x3E, 0xA]) @ chunk @ (utf8 [0xA, 0x3C, 0x2F, 0x6D, 0x61, 0x74, 0x65, 0x72, 0x69, 0x61, 0x6C,
          0x3E, 0xA, 0x521D, 0x6B65, 0x8986, 0x76D6, 0x6458, 0x8981, 0xFF08, 0x53EA, 0x7528, 0x4E8E, 0x67E5, 0x6F0F,
          0xFF0C, 0x4E0D, 0x80FD, 0x4EE3, 0x66FF, 0x9010, 0x5B57, 0x68C0, 0x67E5, 0xFF09, 0xFF1A]) @ listed_json @
          (utf8 [0xA, 0x63, 0x61, 0x6E, 0x64, 0x69, 0x64, 0x61, 0x74, 0x65, 0x5F, 0x6F, 0x63, 0x63, 0x75, 0x72, 0x72,
          0x65, 0x6E, 0x63, 0x65, 0x73, 0x5217, 0x51FA, 0x8BE5, 0x6587, 0x672C, 0x5728, 0x5206, 0x6BB5, 0x4E2D,
          0x7684, 0x5168, 0x90E8, 0x5019, 0x9009, 0x4F4D, 0x7F6E, 0xFF0C, 0x63, 0x6F, 0x76, 0x65, 0x72, 0x65, 0x64,
          0x5F, 0x72, 0x61, 0x6E, 0x67, 0x65, 0x73, 0x4EC5, 0x5217, 0x51FA, 0x5DF2, 0x7ECF, 0x5B9E, 0x9645, 0x66FF,
          0x6362, 0x7684, 0x4F4D, 0x7F6E, 0xFF1B, 0x9010, 0x4E2A, 0x6BD4, 0x5BF9, 0x5019, 0x9009, 0x4F4D, 0x7F6E,
          0xFF0C, 0x53EA, 0x62A5, 0x544A, 0x5176, 0x5B8C, 0x6574, 0x7CBE, 0x786E, 0x8303, 0x56F4, 0x6CA1, 0x6709,
          0x51FA, 0x73B0, 0x5728, 0x63, 0x6F, 0x76, 0x65, 0x72, 0x65, 0x64, 0x5F, 0x72, 0x61, 0x6E, 0x67, 0x65, 0x73,
          0x4E2D, 0x7684, 0x654F, 0x611F, 0x5B9E, 0x4F53, 0x3002, 0x8BF7, 0x53EA, 0x62A5, 0x544A, 0x5F53, 0x524D,
          0x5206, 0x6BB5, 0x4ECD, 0x672A, 0x8986, 0x76D6, 0x7684, 0x654F, 0x611F, 0x5B9E, 0x4F53, 0x3002, 0x6F, 0x63,
          0x63, 0x75, 0x72, 0x72, 0x65, 0x6E, 0x63, 0x65, 0x548C, 0x53EF, 0x9009, 0x73, 0x74, 0x61, 0x72, 0x74, 0x2F,
          0x65, 0x6E, 0x64, 0x90FD, 0x53EA, 0x9488, 0x5BF9, 0x672C, 0x6BB5, 0x3002]))])"

definition retry_request :: "string \<Rightarrow> string" where
  "retry_request feedback =
        (utf8 [0x4E0A, 0x4E00, 0x8F6E, 0x4A, 0x53, 0x4F, 0x4E, 0x7ECF, 0x672C, 0x5730, 0x9010, 0x5B57, 0x6838,
          0x9A8C, 0x5931, 0x8D25, 0xFF1A]) @ feedback @ (utf8 [0x3002, 0x4E0A, 0x65B9, 0x4FDD, 0x7559, 0x4E86,
          0x4E0A, 0x4E00, 0x8F6E, 0x56DE, 0x7B54, 0xFF0C, 0x539F, 0x59CB, 0x6750, 0x6599, 0x4ECD, 0x5728, 0x66F4,
          0x65E9, 0x7684, 0x7528, 0x6237, 0x6D88, 0x606F, 0x4E2D, 0x3002, 0x8BF7, 0x53EA, 0x4FEE, 0x6B63, 0x6307,
          0x51FA, 0x7684, 0x5B57, 0x6BB5, 0x5E76, 0x8FD4, 0x56DE, 0x5B8C, 0x6574, 0x4A, 0x53, 0x4F, 0x4E, 0x5BF9,
          0x8C61, 0x7B, 0x22, 0x66, 0x69, 0x6E, 0x64, 0x69, 0x6E, 0x67, 0x73, 0x22, 0x3A, 0x5B, 0x2E, 0x2E, 0x2E,
          0x5D, 0x7D, 0xFF1B, 0x4E0D, 0x5F97, 0x5220, 0x9664, 0x6B64, 0x524D, 0x4EFB, 0x4F55, 0x654F, 0x611F, 0x66,
          0x69, 0x6E, 0x64, 0x69, 0x6E, 0x67, 0xFF0C, 0x4E5F, 0x4E0D, 0x5F97, 0x52A0, 0x5165, 0x539F, 0x6587, 0x4E0D,
          0x5B58, 0x5728, 0x7684, 0x74, 0x65, 0x78, 0x74, 0x3002, 0x9ED8, 0x8BA4, 0x6BCF, 0x9879, 0x53EA, 0x8F93,
          0x51FA, 0x74, 0x65, 0x78, 0x74, 0x3001, 0x6B, 0x69, 0x6E, 0x64, 0x3001, 0x6F, 0x63, 0x63, 0x75, 0x72, 0x72,
          0x65, 0x6E, 0x63, 0x65, 0x3001, 0x63, 0x6F, 0x6E, 0x66, 0x69, 0x64, 0x65, 0x6E, 0x63, 0x65, 0x5F, 0x70,
          0x70, 0x6D, 0x56DB, 0x4E2A, 0x5FC5, 0x586B, 0x5B57, 0x6BB5, 0xFF1B, 0x91CD, 0x590D, 0x74, 0x65, 0x78, 0x74,
          0x7ED9, 0x6B63, 0x786E, 0x7684, 0x30, 0x8D77, 0x59CB, 0x6F, 0x63, 0x63, 0x75, 0x72, 0x72, 0x65, 0x6E, 0x63,
          0x65, 0x3002, 0x63, 0x6F, 0x6E, 0x74, 0x65, 0x78, 0x74, 0x5F, 0x62, 0x65, 0x66, 0x6F, 0x72, 0x65, 0x2F,
          0x63, 0x6F, 0x6E, 0x74, 0x65, 0x78, 0x74, 0x5F, 0x61, 0x66, 0x74, 0x65, 0x72, 0x662F, 0x53EF, 0x9009,
          0x5B57, 0x6BB5, 0xFF0C, 0x53EA, 0x6709, 0x80FD, 0x9010, 0x5B57, 0x590D, 0x5236, 0x76F8, 0x90BB, 0x539F,
          0x6587, 0xFF08, 0x5305, 0x62EC, 0x6362, 0x884C, 0x3001, 0x7A7A, 0x683C, 0x548C, 0x6807, 0x70B9, 0xFF09,
          0x65F6, 0x624D, 0x4FDD, 0x7559, 0xFF1B, 0x82E5, 0x53CD, 0x9988, 0x8981, 0x6C42, 0x5220, 0x9664, 0x63, 0x6F,
          0x6E, 0x74, 0x65, 0x78, 0x74, 0xFF0C, 0x53EA, 0x5220, 0x9664, 0x8FD9, 0x4E24, 0x4E2A, 0x53EF, 0x9009,
          0x5B57, 0x6BB5, 0xFF0C, 0x4FDD, 0x7559, 0x8BE5, 0x66, 0x69, 0x6E, 0x64, 0x69, 0x6E, 0x67, 0x548C, 0x5176,
          0x4ED6, 0x5168, 0x90E8, 0x66, 0x69, 0x6E, 0x64, 0x69, 0x6E, 0x67, 0x3002, 0x73, 0x74, 0x61, 0x72, 0x74,
          0x2F, 0x65, 0x6E, 0x64, 0x4E5F, 0x662F, 0x53EF, 0x9009, 0x5B57, 0x6BB5, 0xFF0C, 0x53EA, 0x5728, 0x786E,
          0x77E5, 0x55, 0x54, 0x46, 0x2D, 0x38, 0x5B57, 0x8282, 0x8303, 0x56F4, 0x65F6, 0x6210, 0x5BF9, 0x63D0,
          0x4F9B, 0x3002, 0x6B, 0x69, 0x6E, 0x64, 0x5FC5, 0x987B, 0x6765, 0x81EA, 0x5141, 0x8BB8, 0x5217, 0x8868,
          0xFF1B, 0x672A, 0x77E5, 0x7C7B, 0x522B, 0x4F7F, 0x7528, 0x63, 0x75, 0x73, 0x74, 0x6F, 0x6D, 0xFF0C, 0x4E0D,
          0x5F97, 0x7F16, 0x9020, 0x6B, 0x69, 0x6E, 0x64, 0x3002])"

definition append_findings_retry_feedback :: "(string \<Rightarrow> json option) \<Rightarrow> json \<Rightarrow> json option \<Rightarrow> string \<Rightarrow> json" where
  "append_findings_retry_feedback P messages previous source = (case messages of
     JArr ms \<Rightarrow>
       (let (answer, feedback) = (case previous of
            Some r \<Rightarrow> (bounded_retry_response r, findings_retry_feedback P r source)
          | None \<Rightarrow> ((utf8 [0xFF08, 0x4E0A, 0x4E00, 0x54CD, 0x5E94, 0x4E0D, 0x53EF, 0x5B89, 0x5168, 0x9644, 0x5E26, 0x3002, 0xFF09]), (utf8 [0x4E0A, 0x4E00, 0x54CD, 0x5E94, 0x4E0D, 0x7B26, 0x5408, 0x4A, 0x53, 0x4F, 0x4E, 0x20, 0x66, 0x69, 0x6E, 0x64, 0x69, 0x6E, 0x67, 0x73, 0x5951, 0x7EA6, 0x3002]))) in
        JArr (ms @ [chat_message ''assistant'' answer, chat_message ''user'' (retry_request feedback)]))
   | _ \<Rightarrow> messages)"

section \<open>Chunks\<close>

text \<open>One turn of the loop over a longer text: where the chunk that starts at \<open>a\<close> ends.\<close>

definition chunk_end_at :: "string \<Rightarrow> nat \<Rightarrow> nat" where
  "chunk_end_at source a =
     (let hard_end = floor_boundary source (min (a + MAX_ENTITY_CHUNK_BYTES) (length source));
          b = min (max hard_end (a + 1)) (length source) in
      if b < length source
      then (let minimum = floor_boundary source (min (a + min (MAX_ENTITY_CHUNK_BYTES div 2) (b - a)) (length source)) in
        case str_rfind (take (b - a) (drop a source)) [CHR 0x0A] of
          None \<Rightarrow> b
        | Some relative \<Rightarrow> if minimum \<le> a + relative + 1 then a + relative + 1 else b)
      else b)"

definition next_chunk_start :: "string \<Rightarrow> nat \<Rightarrow> nat \<Rightarrow> nat" where
  "next_chunk_start source a b =
     min (max (floor_boundary source (min (b - ENTITY_CHUNK_OVERLAP_BYTES) (length source))) (a + 1)) b"

text \<open>The loop, for as many turns as the text has bytes; more are never needed.\<close>

fun chunk_loop :: "string \<Rightarrow> nat \<Rightarrow> nat \<Rightarrow> (nat \<times> nat) list option" where
  "chunk_loop source 0 a = (if a < length source then None else Some [])"
| "chunk_loop source (Suc n) a =
     (if a < length source
      then (let b = chunk_end_at source a in
        if b = length source then Some [(a, b)]
        else map_option (\<lambda>rs. (a, b) # rs) (chunk_loop source n (next_chunk_start source a b)))
      else Some [])"

definition chunk_ranges :: "string \<Rightarrow> (nat \<times> nat) list option" where
  "chunk_ranges source =
     (if length source \<le> MAX_ENTITY_CHUNK_BYTES then Some [(0, length source)]
      else chunk_loop source (length source) 0)"

section \<open>Findings of chunks\<close>

text \<open>\<open>checked\_add\<close> on 64 bits.\<close>

definition checked_offset :: "nat \<Rightarrow> nat \<Rightarrow> error + nat" where
  "checked_offset a b = (if a + b < 2 ^ 64 then Inr (a + b) else Inl response_invalid)"

definition adjust_finding :: "nat \<Rightarrow> string \<Rightarrow> ai_finding \<Rightarrow> error + ai_finding" where
  "adjust_finding chunk_start source f =
     and_then (checked_offset (ai_start f) chunk_start) (\<lambda>a.
     and_then (checked_offset (ai_end f) chunk_start) (\<lambda>b.
       if b \<le> a \<or> length source < b \<or> str_get source a b \<noteq> Some (ai_text f) then Inl response_invalid
       else Inr (f\<lparr>ai_start := a, ai_end := b\<rparr>)))"

definition adjust_findings :: "ai_finding list \<Rightarrow> nat \<Rightarrow> string \<Rightarrow> error + ai_finding list" where
  "adjust_findings fs chunk_start source = try_map (adjust_finding chunk_start source) fs"

definition finding_key :: "ai_finding \<Rightarrow> nat \<times> nat \<times> string \<times> string" where
  "finding_key f = (ai_start f, ai_end f, ai_kind f, ai_text f)"

fun keep_new :: "(nat \<times> nat \<times> string \<times> string) list \<Rightarrow> ai_finding list \<Rightarrow> ai_finding list" where
  "keep_new seen [] = []"
| "keep_new seen (f # fs) =
     (if finding_key f \<in> set seen then keep_new seen fs else f # keep_new (finding_key f # seen) fs)"

definition merge_findings :: "ai_finding list \<Rightarrow> ai_finding list \<Rightarrow> ai_finding list" where
  "merge_findings primary omissions = keep_new [] (primary @ omissions)"

definition range_json :: "nat \<times> nat \<Rightarrow> json" where
  "range_json r = JObj [(''end'', JInt (int (snd r))), (''start'', JInt (int (fst r)))]"

text \<open>The ranges of a value that are already replaced, relative to the chunk.\<close>

definition covered_ranges :: "analysis \<Rightarrow> string \<Rightarrow> string \<Rightarrow> nat \<Rightarrow> nat \<Rightarrow> (nat \<times> nat) list" where
  "covered_ranges first text kind chunk_start chunk_end =
     map (\<lambda>r. (max (r_source_start r) chunk_start - chunk_start, min (r_source_end r) chunk_end - chunk_start))
       (filter (\<lambda>r. r_source_start r < chunk_end \<and> chunk_start < r_source_end r
           \<and> (case find (\<lambda>c. f_id c = r_finding_id r) (a_findings first) of
                None \<Rightarrow> False | Some c \<Rightarrow> f_text c = text \<and> f_kind c = kind))
         (a_replacements first))"

definition summary_of :: "analysis \<Rightarrow> string \<Rightarrow> nat \<Rightarrow> nat \<Rightarrow> finding \<Rightarrow> json" where
  "summary_of first chunk chunk_start chunk_end f = JObj
     [(''candidate_occurrences'', JArr (map range_json (take 1024 (spans_of chunk (f_text f))))),
      (''covered_ranges'', JArr (map range_json (covered_ranges first (f_text f) (f_kind f) chunk_start chunk_end))),
      (''kind'', JStr (f_kind f)),
      (''resolved'', JBool (list_all f_resolved
         (filter (\<lambda>c. f_text c = f_text f \<and> f_kind c = f_kind f) (a_findings first)))),
      (''text'', JStr (f_text f))]"

fun listed_findings :: "string \<Rightarrow> (string \<times> string) list \<Rightarrow> finding list \<Rightarrow> finding list" where
  "listed_findings chunk seen [] = []"
| "listed_findings chunk seen (f # fs) =
     (if \<not> contains_str chunk (f_text f) \<or> (f_text f, f_kind f) \<in> set seen then listed_findings chunk seen fs
      else f # listed_findings chunk ((f_text f, f_kind f) # seen) fs)"

definition findings_for_chunk :: "analysis \<Rightarrow> string \<Rightarrow> nat \<Rightarrow> nat \<Rightarrow> json list" where
  "findings_for_chunk first chunk chunk_start chunk_end =
     map (summary_of first chunk chunk_start chunk_end) (take 1024 (listed_findings chunk [] (a_findings first)))"

section \<open>The chunks of a text\<close>

lemma str_rfind_newline: "str_rfind s [c] = Some r \<Longrightarrow> r < length s \<and> s ! r = c"
proof -
  assume "str_rfind s [c] = Some r"
  then have "prefix [c] (drop r s)" by (auto simp: str_rfind_def find_Some_iff)
  then obtain zs where "drop r s = c # zs" by (auto simp: prefix_def)
  then show ?thesis using nth_via_drop by (metis drop_eq_Nil2 linorder_not_le list.distinct(1))
qed

lemma hard_end_close:
  assumes "valid_utf8 s" and "a + n < length s"
  shows "a + n \<le> floor_boundary s (min (a + n) (length s)) + 3"
    and "floor_boundary s (min (a + n) (length s)) \<le> a + n"
  using floor_boundary_close[of s "a + n"] floor_boundary_le[of s "a + n"] assms by (simp_all add: min_def)

lemma chunk_end_last:
  assumes "a < length s" and "length s \<le> a + MAX_ENTITY_CHUNK_BYTES"
  shows "chunk_end_at s a = length s"
  using assms by (simp add: chunk_end_at_def floor_boundary_id min_absorb2 max_absorb1)

lemma chunk_end_cut:
  assumes ok: "valid_utf8 s" and inner: "a + MAX_ENTITY_CHUNK_BYTES < length s"
  shows "is_char_boundary s (chunk_end_at s a) \<and> a + 32765 \<le> chunk_end_at s a
    \<and> chunk_end_at s a \<le> a + MAX_ENTITY_CHUNK_BYTES"
proof -
  define b where "b = floor_boundary s (min (a + MAX_ENTITY_CHUNK_BYTES) (length s))"
  define m where "m = floor_boundary s (min (a + 32768) (length s))"
  have bb: "is_char_boundary s b" by (simp add: b_def)
  have lo: "a + 65533 \<le> b" and hi: "b \<le> a + MAX_ENTITY_CHUNK_BYTES"
    using hard_end_close[OF assms] by (simp_all add: b_def MAX_ENTITY_CHUNK_BYTES_def)
  have mlo: "a + 32765 \<le> m"
    using hard_end_close(1)[OF ok, of a 32768] inner by (simp add: m_def MAX_ENTITY_CHUNK_BYTES_def)
  have less: "b < length s" using hi inner by linarith
  have same: "min (max b (a + 1)) (length s) = b" using lo less by linarith
  have half: "min (MAX_ENTITY_CHUNK_BYTES div 2) (b - a) = 32768"
    using lo by (simp add: MAX_ENTITY_CHUNK_BYTES_def)
  have cut: "chunk_end_at s a = (case str_rfind (take (b - a) (drop a s)) [CHR 0x0A] of
      None \<Rightarrow> b | Some r \<Rightarrow> if m \<le> a + r + 1 then a + r + 1 else b)"
    unfolding chunk_end_at_def Let_def b_def[symmetric] same half m_def using less by simp
  show ?thesis
  proof (cases "str_rfind (take (b - a) (drop a s)) [CHR 0x0A]")
    case None
    then show ?thesis using cut bb lo hi by simp
  next
    case (Some r)
    then have r: "r < b - a" "s ! (a + r) = CHR 0x0A"
      using str_rfind_newline[OF Some] less by auto
    then have "is_char_boundary s (Suc (a + r))"
      using boundary_after_ascii[OF ok, of "a + r"] less by simp
    then show ?thesis using cut Some r bb lo hi mlo by auto
  qed
qed

lemma chunk_end_spec:
  assumes "valid_utf8 s" and "a < length s"
  shows "a < chunk_end_at s a" "chunk_end_at s a \<le> length s"
    "chunk_end_at s a \<le> a + MAX_ENTITY_CHUNK_BYTES" "is_char_boundary s (chunk_end_at s a)"
    "chunk_end_at s a < length s \<Longrightarrow> a + 32765 \<le> chunk_end_at s a"
  using assms chunk_end_last[of a s] chunk_end_cut[of s a]
  by (cases "length s \<le> a + MAX_ENTITY_CHUNK_BYTES"; simp add: not_le)+

lemma next_chunk_spec:
  assumes "valid_utf8 s" and "a < length s" and "chunk_end_at s a < length s"
  defines "b \<equiv> chunk_end_at s a"
  shows "a < next_chunk_start s a b" "next_chunk_start s a b + ENTITY_CHUNK_OVERLAP_BYTES \<le> b"
    "is_char_boundary s (next_chunk_start s a b)" "next_chunk_start s a b < length s"
proof -
  have lo: "a + 32765 \<le> b" and less: "b < length s" using chunk_end_spec(5) assms by auto
  define n where "n = floor_boundary s (b - ENTITY_CHUNK_OVERLAP_BYTES)"
  have n: "n \<le> b - ENTITY_CHUNK_OVERLAP_BYTES" "b - ENTITY_CHUNK_OVERLAP_BYTES \<le> n + 3"
    unfolding n_def
    using floor_boundary_le floor_boundary_close[OF assms(1), of "b - ENTITY_CHUNK_OVERLAP_BYTES"] less
    by (blast, linarith)
  then have eq: "next_chunk_start s a b = n"
    unfolding next_chunk_start_def using lo less
    by (simp add: n_def min_absorb1 max_absorb1 ENTITY_CHUNK_OVERLAP_BYTES_def)
  show "a < next_chunk_start s a b" "next_chunk_start s a b + ENTITY_CHUNK_OVERLAP_BYTES \<le> b"
    "next_chunk_start s a b < length s"
    unfolding eq using n lo less by (simp_all add: ENTITY_CHUNK_OVERLAP_BYTES_def)
  show "is_char_boundary s (next_chunk_start s a b)" unfolding eq by (simp add: n_def)
qed

definition good_chunk :: "string \<Rightarrow> nat \<times> nat \<Rightarrow> bool" where
  "good_chunk s r \<longleftrightarrow> fst r \<le> snd r \<and> snd r \<le> length s \<and> snd r - fst r \<le> MAX_ENTITY_CHUNK_BYTES
     \<and> is_char_boundary s (fst r) \<and> is_char_boundary s (snd r)"

definition covers_from :: "string \<Rightarrow> nat \<Rightarrow> (nat \<times> nat) list \<Rightarrow> bool" where
  "covers_from s a rs \<longleftrightarrow>
     (\<forall>i j. a \<le> i \<longrightarrow> i < j \<longrightarrow> j \<le> length s \<longrightarrow> j - i \<le> ENTITY_CHUNK_OVERLAP_BYTES
        \<longrightarrow> (\<exists>r \<in> set rs. fst r \<le> i \<and> j \<le> snd r))"

lemma covers_from_Cons:
  assumes "covers_from s n rs" and "n + ENTITY_CHUNK_OVERLAP_BYTES \<le> b"
  shows "covers_from s a ((a, b) # rs)"
  unfolding covers_from_def
proof (intro allI impI)
  fix i j
  assume i: "a \<le> i" "i < j" "j \<le> length s" "j - i \<le> ENTITY_CHUNK_OVERLAP_BYTES"
  show "\<exists>r \<in> set ((a, b) # rs). fst r \<le> i \<and> j \<le> snd r"
  proof (cases "n \<le> i")
    case True
    then show ?thesis using assms(1) i unfolding covers_from_def by auto
  next
    case False
    then have "j \<le> b" using i assms(2) by linarith
    with i show ?thesis by auto
  qed
qed

lemma chunk_loop_correct:
  assumes "valid_utf8 s"
  shows "is_char_boundary s a \<Longrightarrow> length s \<le> a + n \<Longrightarrow>
    \<exists>rs. chunk_loop s n a = Some rs \<and> list_all (good_chunk s) rs \<and> covers_from s a rs"
proof (induction n arbitrary: a)
  case 0
  then show ?case by (auto simp: covers_from_def)
next
  case (Suc n)
  show ?case
  proof (cases "a < length s")
    case False
    then show ?thesis by (auto simp: covers_from_def)
  next
    case True
    define b where "b = chunk_end_at s a"
    note spec = chunk_end_spec[OF assms True, folded b_def]
    have good: "good_chunk s (a, b)" using spec Suc.prems(1) by (auto simp: good_chunk_def)
    show ?thesis
    proof (cases "b = length s")
      case last: True
      then have "covers_from s a [(a, b)]" by (auto simp: covers_from_def)
      then show ?thesis using True last good by (simp add: b_def)
    next
      case False
      then have "chunk_end_at s a < length s" using spec(2) by (simp add: b_def)
      note n = next_chunk_spec[OF assms True this, folded b_def]
      from Suc.IH[OF n(3)] Suc.prems(2) n(1) obtain rs where
        "chunk_loop s n (next_chunk_start s a b) = Some rs" "list_all (good_chunk s) rs"
        "covers_from s (next_chunk_start s a b) rs" by auto
      then show ?thesis
        using True False good covers_from_Cons[OF _ n(2), of s rs a] by (auto simp: b_def[symmetric] Let_def)
    qed
  qed
qed

lemma chunk_ranges_correct:
  assumes "valid_utf8 s"
  shows "\<exists>rs. chunk_ranges s = Some rs \<and> list_all (good_chunk s) rs \<and> covers_from s 0 rs"
  using chunk_loop_correct[OF assms, of 0 "length s"]
  by (auto simp: chunk_ranges_def good_chunk_def covers_from_def)

section \<open>Located findings are exact\<close>

definition exact_finding :: "string \<Rightarrow> ai_finding \<Rightarrow> bool" where
  "exact_finding source f \<longleftrightarrow> ai_start f < ai_end f \<and> str_get source (ai_start f) (ai_end f) = Some (ai_text f)"

lemma parse_finding_sound:
  assumes "parse_finding source item = Inr f"
  shows "exact_finding source f \<and> allowed_ai_kind (ai_kind f)"
  using assms
  by (auto simp: parse_finding_def exact_finding_def
      split: if_splits prod.splits)

lemma parse_findings_response_sound:
  assumes "parse_findings_response P message source = Inr fs"
  shows "length fs \<le> MAX_LOCATED \<and> list_all (\<lambda>f. exact_finding source f \<and> allowed_ai_kind (ai_kind f)) fs"
proof -
  from assms obtain items where items: "try_map (parse_finding source) items = Inr fs" "length items \<le> MAX_LOCATED"
    by (auto simp: parse_findings_response_def split: if_splits)
  then have "list_all2 (\<lambda>x y. parse_finding source x = Inr y) items fs" by (simp add: try_map_Inr_iff)
  then show ?thesis using items(2) parse_finding_sound
    by (auto simp: list_all2_conv_all_nth list_all_length)
qed

lemma adjust_findings_exact:
  assumes "adjust_findings fs a source = Inr gs"
  shows "list_all (exact_finding source) gs" "map ai_kind gs = map ai_kind fs" "map ai_text gs = map ai_text fs"
proof -
  have *: "adjust_finding a source f = Inr g \<Longrightarrow>
      exact_finding source g \<and> ai_kind g = ai_kind f \<and> ai_text g = ai_text f" for f g
    by (auto simp: adjust_finding_def exact_finding_def split: if_splits)
  from assms have "list_all2 (\<lambda>x y. adjust_finding a source x = Inr y) fs gs"
    by (simp add: adjust_findings_def try_map_Inr_iff)
  then show "list_all (exact_finding source) gs" "map ai_kind gs = map ai_kind fs"
    "map ai_text gs = map ai_text fs"
    by (induction) (auto dest: *)
qed

lemma keep_new_set: "set (keep_new seen fs) \<subseteq> set fs"
  by (induction seen fs rule: keep_new.induct) auto

lemma keep_new_keys: "finding_key ` set fs \<subseteq> set seen \<union> finding_key ` set (keep_new seen fs)"
  by (induction seen fs rule: keep_new.induct) auto

lemma keep_new_distinct: "distinct (map finding_key (keep_new seen fs))
    \<and> finding_key ` set (keep_new seen fs) \<inter> set seen = {}"
  by (induction seen fs rule: keep_new.induct) auto

section \<open>Properties\<close>

text \<open>
  C27: The chunks sent to the model miss nothing. For every valid text the loop ends; every chunk is
  a slice of the text between character boundaries of at most 64 KiB; and every range of at most
  4 KiB, so every entity of that size, lies inside one chunk as a whole, however the cuts fall.
\<close>

theorem chunks_miss_no_entity:
  assumes "valid_utf8 source"
  shows "\<exists>rs. chunk_ranges source = Some rs
    \<and> (\<forall>r \<in> set rs. str_get source (fst r) (snd r) \<noteq> None \<and> snd r - fst r \<le> MAX_ENTITY_CHUNK_BYTES)
    \<and> (\<forall>i j. i < j \<longrightarrow> j \<le> length source \<longrightarrow> j - i \<le> ENTITY_CHUNK_OVERLAP_BYTES
         \<longrightarrow> (\<exists>r \<in> set rs. fst r \<le> i \<and> j \<le> snd r))"
proof -
  obtain rs where rs: "chunk_ranges source = Some rs" "list_all (good_chunk source) rs" "covers_from source 0 rs"
    using chunk_ranges_correct[OF assms] by blast
  have "\<forall>r \<in> set rs. str_get source (fst r) (snd r) \<noteq> None \<and> snd r - fst r \<le> MAX_ENTITY_CHUNK_BYTES"
    using rs(2) by (auto simp: list_all_iff good_chunk_def str_get_Some_iff)
  moreover have "\<forall>i j. i < j \<longrightarrow> j \<le> length source \<longrightarrow> j - i \<le> ENTITY_CHUNK_OVERLAP_BYTES
      \<longrightarrow> (\<exists>r \<in> set rs. fst r \<le> i \<and> j \<le> snd r)"
    using rs(3) by (simp add: covers_from_def)
  ultimately show ?thesis using rs(1) by blast
qed

theorem chunks_miss_no_entity_witness:
  "\<exists>rs. chunk_ranges (replicate 200000 (CHR ''a'')) = Some rs
    \<and> (\<exists>r \<in> set rs. fst r \<le> 65530 \<and> 65540 \<le> snd r)"
proof -
  let ?t = "replicate 200000 (CHR ''a'')"
  have "valid_utf8 ?t" by (rule valid_utf8_ascii) (simp add: list_all_iff)
  from chunks_miss_no_entity[OF this] obtain rs where rs: "chunk_ranges ?t = Some rs"
    and covered: "\<And>i j. i < j \<Longrightarrow> j \<le> length ?t \<Longrightarrow> j - i \<le> ENTITY_CHUNK_OVERLAP_BYTES
      \<Longrightarrow> \<exists>r \<in> set rs. fst r \<le> i \<and> j \<le> snd r" by blast
  have "\<exists>r \<in> set rs. fst r \<le> 65530 \<and> 65540 \<le> snd r"
    by (rule covered) (simp_all add: ENTITY_CHUNK_OVERLAP_BYTES_def)
  with rs show ?thesis by blast
qed

end
