(* ===== verification/Context.thy ===== *)
theory Context imports Types "HOL-Library.Option_ord" begin

text \<open>
  The context planner (\<open>workspace-service/src/ai\_context.rs\<close>): what a model is taken to support, the
  plan with the hashes that bind it, and the token ledger that decides what may still be read into
  a prompt. The ledger is shared by reservations, which are values with a destructor: a system of
  the ledger and the reservations that are alive models it. \<open>usize\<close> has 64 bits.
\<close>

section \<open>Records\<close>

definition UNKNOWN_CONTEXT_WINDOW_TOKENS :: nat where "UNKNOWN_CONTEXT_WINDOW_TOKENS = 20480"
definition UNKNOWN_INPUT_TOKENS :: nat where "UNKNOWN_INPUT_TOKENS = 16384"
definition UNKNOWN_MAX_OUTPUT_TOKENS :: nat where "UNKNOWN_MAX_OUTPUT_TOKENS = 4096"

record context_capabilities =
  xc_verified :: bool
  xc_context_window_tokens :: nat
  xc_max_input_tokens :: nat
  xc_max_output_tokens :: nat
  xc_supports_tools :: "bool option"
  xc_supports_structured_output :: "bool option"
  xc_supports_vision :: "bool option"

record context_estimate =
  xe_input_tokens :: nat
  xe_reserved_output_tokens :: nat
  xe_system_tokens :: nat
  xe_request_tokens :: nat
  xe_history_tokens :: nat
  xe_material_tokens :: nat
  xe_attachment_tokens :: nat
  xe_tool_reserve_tokens :: nat

record context_range =
  xr_source_kind :: string
  xr_source_id :: string
  xr_source :: "string option"
  xr_format :: "string option"
  xr_locators :: "string list"
  xr_estimated_tokens :: nat

record range_selection =
  xs_source_kind :: string
  xs_source_id :: string
  xs_source :: "string option"
  xs_mode :: string
  xs_ranges :: "(nat \<times> nat) list"
  xs_inspection_hash :: "string option"

record context_scope =
  xp_materials :: "context_range list"
  xp_attachments :: "context_range list"
  xp_history_run_ids :: "string list"

record context_omission =
  xo_source_kind :: string
  xo_source_id :: string
  xo_reason :: string
  xo_estimated_tokens :: nat
  xo_locators :: "string list"

record context_plan =
  pl_schema_version :: nat
  pl_plan_hash :: string
  pl_actual_plan_hash :: "string option"
  pl_stage :: string
  pl_capabilities :: context_capabilities
  pl_estimate :: context_estimate
  pl_requested_scope :: "range_selection list"
  pl_selected_scope :: context_scope
  pl_omitted_scope :: "context_omission list"

section \<open>The plan and its hashes\<close>

text \<open>
  The values a \<open>json!\<close> macro builds keep the members of an object in key order. A member that the
  attribute skips when it is absent is left out.
\<close>

definition json_present :: "string \<Rightarrow> ('a \<Rightarrow> json) \<Rightarrow> 'a option \<Rightarrow> (string \<times> json) list" where
  "json_present k f x = (case x of None \<Rightarrow> [] | Some a \<Rightarrow> [(k, f a)])"

definition json_nonempty :: "string \<Rightarrow> ('a \<Rightarrow> json) \<Rightarrow> 'a list \<Rightarrow> (string \<times> json) list" where
  "json_nonempty k f xs = (if xs = [] then [] else [(k, JArr (map f xs))])"

definition capabilities_json :: "context_capabilities \<Rightarrow> json" where
  "capabilities_json c = JObj [(''context_window_tokens'', json_nat (xc_context_window_tokens c)),
     (''max_input_tokens'', json_nat (xc_max_input_tokens c)),
     (''max_output_tokens'', json_nat (xc_max_output_tokens c)),
     (''supports_structured_output'', json_opt JBool (xc_supports_structured_output c)),
     (''supports_tools'', json_opt JBool (xc_supports_tools c)),
     (''supports_vision'', json_opt JBool (xc_supports_vision c)), (''verified'', JBool (xc_verified c))]"

definition estimate_json :: "context_estimate \<Rightarrow> json" where
  "estimate_json e = JObj [(''attachment_tokens'', json_nat (xe_attachment_tokens e)),
     (''history_tokens'', json_nat (xe_history_tokens e)), (''input_tokens'', json_nat (xe_input_tokens e)),
     (''material_tokens'', json_nat (xe_material_tokens e)), (''request_tokens'', json_nat (xe_request_tokens e)),
     (''reserved_output_tokens'', json_nat (xe_reserved_output_tokens e)),
     (''system_tokens'', json_nat (xe_system_tokens e)),
     (''tool_reserve_tokens'', json_nat (xe_tool_reserve_tokens e))]"

definition context_range_json :: "context_range \<Rightarrow> json" where
  "context_range_json r = JObj ([(''estimated_tokens'', json_nat (xr_estimated_tokens r))]
     @ json_present ''format'' JStr (xr_format r) @ [(''locators'', JArr (map JStr (xr_locators r)))]
     @ json_present ''source'' JStr (xr_source r)
     @ [(''source_id'', JStr (xr_source_id r)), (''source_kind'', JStr (xr_source_kind r))])"

definition unit_range_json :: "nat \<times> nat \<Rightarrow> json" where
  "unit_range_json r = JObj [(''end'', json_nat (snd r)), (''start'', json_nat (fst r))]"

definition selection_json :: "range_selection \<Rightarrow> json" where
  "selection_json s = JObj (json_present ''inspection_hash'' JStr (xs_inspection_hash s)
     @ [(''mode'', JStr (xs_mode s))] @ json_nonempty ''ranges'' unit_range_json (xs_ranges s)
     @ json_present ''source'' JStr (xs_source s)
     @ [(''source_id'', JStr (xs_source_id s)), (''source_kind'', JStr (xs_source_kind s))])"

definition scope_json :: "context_scope \<Rightarrow> json" where
  "scope_json s = JObj [(''attachments'', JArr (map context_range_json (xp_attachments s))),
     (''history_run_ids'', JArr (map JStr (xp_history_run_ids s))),
     (''materials'', JArr (map context_range_json (xp_materials s)))]"

definition omission_json :: "context_omission \<Rightarrow> json" where
  "omission_json x = JObj ([(''estimated_tokens'', json_nat (xo_estimated_tokens x))]
     @ json_nonempty ''locators'' JStr (xo_locators x)
     @ [(''reason'', JStr (xo_reason x)), (''source_id'', JStr (xo_source_id x)),
        (''source_kind'', JStr (xo_source_kind x))])"

definition new_plan :: "(string \<Rightarrow> string) \<Rightarrow> (json \<Rightarrow> string) \<Rightarrow> string \<Rightarrow> context_capabilities
    \<Rightarrow> context_estimate \<Rightarrow> range_selection list \<Rightarrow> context_scope \<Rightarrow> context_omission list \<Rightarrow> json
    \<Rightarrow> context_plan" where
  "new_plan H to_vec stage capabilities estimate requested selected omitted binding =
     \<lparr>pl_schema_version = 2,
      pl_plan_hash = H (to_vec (JObj [(''binding'', binding),
        (''capabilities'', capabilities_json capabilities), (''estimate'', estimate_json estimate),
        (''omitted_scope'', JArr (map omission_json omitted)),
        (''requested_scope'', JArr (map selection_json requested)), (''schema_version'', json_nat 2),
        (''selected_scope'', scope_json selected), (''stage'', JStr stage)])),
      pl_actual_plan_hash = None, pl_stage = stage, pl_capabilities = capabilities, pl_estimate = estimate,
      pl_requested_scope = requested, pl_selected_scope = selected, pl_omitted_scope = omitted\<rparr>"

definition public_view :: "context_plan \<Rightarrow> json" where
  "public_view p = JObj [(''actual_plan_hash'', json_opt JStr (pl_actual_plan_hash p)),
     (''capabilities'', capabilities_json (pl_capabilities p)), (''estimate'', estimate_json (pl_estimate p)),
     (''omitted_scope'', JArr (map omission_json (pl_omitted_scope p))), (''plan_hash'', JStr (pl_plan_hash p)),
     (''requested_scope'', JArr (map selection_json (pl_requested_scope p))),
     (''schema_version'', json_nat (pl_schema_version p)),
     (''selected_scope'', scope_json (pl_selected_scope p)), (''stage'', JStr (pl_stage p))]"

definition refresh_actual_plan_hash :: "(string \<Rightarrow> string) \<Rightarrow> (json \<Rightarrow> string) \<Rightarrow> context_plan \<Rightarrow> context_plan" where
  "refresh_actual_plan_hash H to_vec p = p\<lparr>pl_actual_plan_hash := Some (H (to_vec (JObj (
     [(''capabilities'', capabilities_json (pl_capabilities p)), (''estimate'', estimate_json (pl_estimate p)),
      (''omitted_scope'', JArr (map omission_json (pl_omitted_scope p))),
      (''preflight_plan_hash'', JStr (pl_plan_hash p))]
     @ (if 2 \<le> pl_schema_version p
        then [(''requested_scope'', JArr (map selection_json (pl_requested_scope p)))] else [])
     @ [(''schema_version'', json_nat (pl_schema_version p)),
        (''selected_scope'', scope_json (pl_selected_scope p)), (''stage'', JStr (pl_stage p))]))))\<rparr>"

section \<open>Estimates\<close>

definition USIZE_MAX :: nat where "USIZE_MAX = 2 ^ 64 - 1"

definition sat_add :: "nat \<Rightarrow> nat \<Rightarrow> nat" where
  "sat_add a b = min (a + b) USIZE_MAX"

definition estimate_text_tokens :: "string \<Rightarrow> nat" where
  "estimate_text_tokens t = length t"

definition estimate_image_tokens :: "nat \<Rightarrow> nat" where
  "estimate_image_tokens image_bytes = max 1024 (sat_add image_bytes (64 - 1) div 64)"

section \<open>The ledger\<close>

type_synonym range_key = "string \<times> string \<times> string option \<times> string"

record ledger =
  lg_input_limit :: nat
  lg_used :: nat
  lg_pending :: "(string, nat) omap"
  lg_ranges :: "(range_key, nat) omap"

text \<open>A reservation that is alive; its key is taken when it commits.\<close>

record reservation =
  rs_key :: string
  rs_range :: range_key

definition new_ledger :: "nat \<Rightarrow> ledger" where
  "new_ledger input_limit = \<lparr>lg_input_limit = input_limit, lg_used = 0, lg_pending = [], lg_ranges = []\<rparr>"

definition budget_exceeded :: error where
  "budget_exceeded = error_new ''context_budget_exceeded''"

definition reservation_gone :: error where
  "reservation_gone = error_new ''context_budget_reservation_invalid''"

definition pending_tokens :: "ledger \<Rightarrow> nat" where
  "pending_tokens s = sum_list (om_values (lg_pending s))"

text \<open>\<open>shown\<close> is the \<open>Debug\<close> form of the optional variant in the key.\<close>

definition pending_key :: "(string option \<Rightarrow> string) \<Rightarrow> range_key \<Rightarrow> nat \<Rightarrow> string" where
  "pending_key shown r n = (case r of (source_kind, source_id, variant, locator) \<Rightarrow>
     source_kind @ '':'' @ source_id @ '':'' @ shown variant @ '':'' @ locator @ '':'' @ decimal n)"

definition reserve_tokens :: "(string option \<Rightarrow> string) \<Rightarrow> range_key \<Rightarrow> nat \<Rightarrow> ledger
    \<Rightarrow> (error + reservation) \<times> ledger" where
  "reserve_tokens shown r tokens s =
     (if lg_input_limit s < sat_add (sat_add (lg_used s) (pending_tokens s)) tokens then (Inl budget_exceeded, s)
      else let key = pending_key shown r (length (lg_pending s)) in
        (Inr \<lparr>rs_key = key, rs_range = r\<rparr>, s\<lparr>lg_pending := om_put key tokens (lg_pending s)\<rparr>))"

definition reserve_ocr_page :: "(string option \<Rightarrow> string) \<Rightarrow> range_key \<Rightarrow> nat \<Rightarrow> nat \<Rightarrow> ledger
    \<Rightarrow> (error + reservation) \<times> ledger" where
  "reserve_ocr_page shown r estimated_tokens image_bytes =
     reserve_tokens shown r (max estimated_tokens (estimate_image_tokens image_bytes))"

definition reserve_text_segment :: "(string option \<Rightarrow> string) \<Rightarrow> range_key \<Rightarrow> string \<Rightarrow> ledger
    \<Rightarrow> (error + reservation) \<times> ledger" where
  "reserve_text_segment shown r t = reserve_tokens shown r (estimate_text_tokens t)"

definition charge_fixed :: "nat \<Rightarrow> ledger \<Rightarrow> (error + unit) \<times> ledger" where
  "charge_fixed tokens s =
     (if lg_input_limit s < sat_add (sat_add (lg_used s) (pending_tokens s)) tokens then (Inl budget_exceeded, s)
      else (Inr (), s\<lparr>lg_used := sat_add (lg_used s) tokens\<rparr>))"

definition remaining_tokens :: "ledger \<Rightarrow> nat" where
  "remaining_tokens s = lg_input_limit s - lg_used s"

text \<open>The reservation is consumed, whatever the result; its key has left the table by then.\<close>

definition commit_tokens :: "reservation \<Rightarrow> nat \<Rightarrow> ledger \<Rightarrow> (error + unit) \<times> ledger" where
  "commit_tokens v actual_tokens s = (case om_get (lg_pending s) (rs_key v) of
     None \<Rightarrow> (Inl reservation_gone, s)
   | Some reserved \<Rightarrow>
       let s = s\<lparr>lg_pending := om_remove (rs_key v) (lg_pending s)\<rparr>; actual = max actual_tokens reserved in
       if lg_input_limit s < sat_add (lg_used s) actual then (Inl budget_exceeded, s)
       else (Inr (), s\<lparr>lg_used := sat_add (lg_used s) actual,
         lg_ranges := om_put (rs_range v) (case om_get (lg_ranges s) (rs_range v) of
           None \<Rightarrow> actual | Some prior \<Rightarrow> sat_add prior actual) (lg_ranges s)\<rparr>))"

definition drop_reservation :: "reservation \<Rightarrow> ledger \<Rightarrow> ledger" where
  "drop_reservation v s = s\<lparr>lg_pending := om_remove (rs_key v) (lg_pending s)\<rparr>"

text \<open>The table is iterated in key order, which is the order the code sorts the ranges by.\<close>

definition selected_ranges :: "ledger \<Rightarrow> context_range list" where
  "selected_ranges s = map (\<lambda>((source_kind, source_id, variant, locator), tokens).
     \<lparr>xr_source_kind = source_kind, xr_source_id = source_id, xr_source = variant, xr_format = None,
      xr_locators = [locator], xr_estimated_tokens = min tokens (2 ^ 32 - 1)\<rparr>) (lg_ranges s)"

section \<open>The system of reservations\<close>

datatype ledger_action =
    ReservePage range_key nat nat | ReserveText range_key string | Charge nat
  | Commit reservation nat | Release reservation

record ledger_world =
  lw_ledger :: ledger
  lw_alive :: "reservation list"
  lw_fixed :: nat

fun reserved :: "(error + reservation) \<times> ledger \<Rightarrow> ledger_world \<Rightarrow> ledger_world" where
  "reserved (Inl e, s) w = w\<lparr>lw_ledger := s\<rparr>"
| "reserved (Inr v, s) w = w\<lparr>lw_ledger := s, lw_alive := v # lw_alive w\<rparr>"

inductive ledger_step :: "(string option \<Rightarrow> string) \<Rightarrow> ledger_world \<Rightarrow> ledger_action \<Rightarrow> ledger_world \<Rightarrow> bool"
  for shown where
  page: "ledger_step shown w (ReservePage r tokens bytes)
    (reserved (reserve_ocr_page shown r tokens bytes (lw_ledger w)) w)"
| segment: "ledger_step shown w (ReserveText r t) (reserved (reserve_text_segment shown r t (lw_ledger w)) w)"
| charge_ok: "charge_fixed tokens (lw_ledger w) = (Inr (), s) \<Longrightarrow>
    ledger_step shown w (Charge tokens) (w\<lparr>lw_ledger := s, lw_fixed := lw_fixed w + tokens\<rparr>)"
| charge_err: "charge_fixed tokens (lw_ledger w) = (Inl e, s) \<Longrightarrow>
    ledger_step shown w (Charge tokens) (w\<lparr>lw_ledger := s\<rparr>)"
| commit: "v \<in> set (lw_alive w) \<Longrightarrow> ledger_step shown w (Commit v actual)
    (w\<lparr>lw_ledger := snd (commit_tokens v actual (lw_ledger w)), lw_alive := remove1 v (lw_alive w)\<rparr>)"
| release: "v \<in> set (lw_alive w) \<Longrightarrow> ledger_step shown w (Release v)
    (w\<lparr>lw_ledger := drop_reservation v (lw_ledger w), lw_alive := remove1 v (lw_alive w)\<rparr>)"

inductive_cases ledger_stepE: "ledger_step shown w a w'"

definition ledger_init :: "ledger_world \<Rightarrow> bool" where
  "ledger_init w \<longleftrightarrow> (\<exists>limit < USIZE_MAX. w = \<lparr>lw_ledger = new_ledger limit, lw_alive = [], lw_fixed = 0\<rparr>)"

definition ledger_inv :: "ledger_world \<Rightarrow> bool" where
  "ledger_inv w \<longleftrightarrow> (let s = lw_ledger w in
     lg_used s \<le> lg_input_limit s \<and> lg_input_limit s < USIZE_MAX \<and> pending_tokens s \<le> lg_input_limit s
     \<and> om_wf (lg_pending s) \<and> om_wf (lg_ranges s)
     \<and> lg_used s = lw_fixed w + sum_list (om_values (lg_ranges s)))"

lemma om_wf_Cons: "om_wf (e # m) \<longleftrightarrow> (\<forall>k \<in> fst ` set m. fst e < k) \<and> om_wf m"
  by (auto simp: om_wf_def)

lemma om_put_total:
  fixes v :: nat
  assumes "om_wf m"
  shows "sum_list (om_values (om_put k v m)) + (case om_get m k of None \<Rightarrow> 0 | Some u \<Rightarrow> u)
    = sum_list (om_values m) + v"
  using assms
proof (induction m)
  case (Cons e m)
  have "om_get m k = None" if "\<not> fst e < k"
    using Cons.prems that by (force simp: om_wf_Cons map_of_eq_None_iff)
  with Cons show ?case by (auto simp: om_wf_Cons)
qed simp

lemma om_remove_total: "sum_list (om_values (om_remove k m)) \<le> sum_list (om_values m)" for m :: "('k, nat) omap"
  by (induction m) (auto simp: om_remove_def)

lemma sat_add_over: "limit < USIZE_MAX \<Longrightarrow> limit < sat_add a b \<longleftrightarrow> limit < a + b"
  by (auto simp: sat_add_def)

lemma sat_add_within: "a + b \<le> limit \<Longrightarrow> limit < USIZE_MAX \<Longrightarrow> sat_add a b = a + b"
  by (simp add: sat_add_def)

lemma sat_add_refused:
  "limit < USIZE_MAX \<Longrightarrow> limit < sat_add (sat_add a b) c \<longleftrightarrow> limit < a + b + c"
  by (auto simp: sat_add_def)

definition ledger_ok :: "nat \<Rightarrow> ledger \<Rightarrow> bool" where
  "ledger_ok fixed s \<longleftrightarrow> lg_used s \<le> lg_input_limit s \<and> lg_input_limit s < USIZE_MAX
     \<and> pending_tokens s \<le> lg_input_limit s \<and> om_wf (lg_pending s) \<and> om_wf (lg_ranges s)
     \<and> lg_used s = fixed + sum_list (om_values (lg_ranges s))"

lemma ledger_inv_ok: "ledger_inv w \<longleftrightarrow> ledger_ok (lw_fixed w) (lw_ledger w)"
  by (simp add: ledger_inv_def ledger_ok_def Let_def)

lemma reserve_tokens_ok:
  assumes "ledger_ok fixed s"
  shows "ledger_ok fixed (snd (reserve_tokens shown r tokens s))"
proof -
  define key where "key = pending_key shown r (length (lg_pending s))"
  have "sum_list (om_values (om_put key tokens (lg_pending s))) \<le> pending_tokens s + tokens"
    using om_put_total[of "lg_pending s" key tokens] assms by (simp add: ledger_ok_def pending_tokens_def)
  then show ?thesis using assms
    by (auto simp: reserve_tokens_def ledger_ok_def sat_add_refused key_def[symmetric] pending_tokens_def Let_def)
qed

lemma charge_fixed_ok:
  assumes "ledger_ok fixed s"
  shows "charge_fixed tokens s = (Inr (), t) \<Longrightarrow> ledger_ok (fixed + tokens) t"
    and "charge_fixed tokens s = (Inl e, t) \<Longrightarrow> t = s"
proof -
  assume "charge_fixed tokens s = (Inr (), t)"
  then have "\<not> lg_input_limit s < sat_add (sat_add (lg_used s) (pending_tokens s)) tokens"
    and t: "t = s\<lparr>lg_used := sat_add (lg_used s) tokens\<rparr>"
    by (auto simp: charge_fixed_def split: if_splits)
  with assms have fits: "lg_used s + tokens \<le> lg_input_limit s" by (simp add: ledger_ok_def sat_add_refused)
  with assms t have "t = s\<lparr>lg_used := lg_used s + tokens\<rparr>" by (simp add: ledger_ok_def sat_add_within)
  then show "ledger_ok (fixed + tokens) t" using assms fits by (simp add: ledger_ok_def pending_tokens_def)
qed (auto simp: charge_fixed_def split: if_splits)

lemma drop_ok: "ledger_ok fixed s \<Longrightarrow> ledger_ok fixed (s\<lparr>lg_pending := om_remove k (lg_pending s)\<rparr>)"
  using om_remove_total[of k "lg_pending s"] by (simp add: ledger_ok_def pending_tokens_def)

lemma commit_tokens_ok:
  assumes "ledger_ok fixed s"
  shows "ledger_ok fixed (snd (commit_tokens v actual s))"
proof (cases "om_get (lg_pending s) (rs_key v)")
  case None
  then show ?thesis using assms by (simp add: commit_tokens_def)
next
  case (Some reserved)
  define t where "t = s\<lparr>lg_pending := om_remove (rs_key v) (lg_pending s)\<rparr>"
  define n where "n = max actual reserved"
  have ok: "ledger_ok fixed t" using drop_ok[OF assms] by (simp add: t_def)
  show ?thesis
  proof (cases "lg_input_limit t < sat_add (lg_used t) n")
    case True
    then show ?thesis using ok Some by (simp add: commit_tokens_def Let_def t_def[symmetric] n_def[symmetric])
  next
    case False
    then have fits: "lg_used t + n \<le> lg_input_limit t" using ok by (simp add: ledger_ok_def sat_add_over)
    define prior where "prior = (case om_get (lg_ranges t) (rs_range v) of None \<Rightarrow> 0 | Some u \<Rightarrow> u)"
    define new where "new = (case om_get (lg_ranges t) (rs_range v) of None \<Rightarrow> n | Some u \<Rightarrow> sat_add u n)"
    have sum: "sum_list (om_values (om_put (rs_range v) x (lg_ranges t))) + prior
        = sum_list (om_values (lg_ranges t)) + x" for x
      using om_put_total[of "lg_ranges t" "rs_range v" x] ok by (simp add: prior_def ledger_ok_def)
    have "prior \<le> lg_used t" using sum[of 0] ok by (simp add: ledger_ok_def)
    then have "new = prior + n" using fits ok
      by (auto simp: new_def prior_def ledger_ok_def sat_add_def split: option.splits)
    with sum[of new] have "sum_list (om_values (om_put (rs_range v) new (lg_ranges t)))
        = sum_list (om_values (lg_ranges t)) + n" by simp
    then show ?thesis using False fits ok Some
      by (simp add: commit_tokens_def Let_def t_def[symmetric] n_def[symmetric] new_def[symmetric])
        (simp add: ledger_ok_def sat_add_within pending_tokens_def new_def)
  qed
qed

lemma ledger_step_inv: "ledger_step shown w a w' \<Longrightarrow> ledger_inv w \<Longrightarrow> ledger_inv w'"
proof (induction rule: ledger_step.induct)
  case (page w r tokens bytes)
  have "ledger_ok (lw_fixed w) (snd (reserve_ocr_page shown r tokens bytes (lw_ledger w)))"
    unfolding reserve_ocr_page_def by (rule reserve_tokens_ok) (use page in \<open>simp add: ledger_inv_ok\<close>)
  then show ?case by (cases "reserve_ocr_page shown r tokens bytes (lw_ledger w)"; cases "fst (reserve_ocr_page shown r tokens bytes (lw_ledger w))")
    (auto simp: ledger_inv_ok)
next
  case (segment w r t)
  have "ledger_ok (lw_fixed w) (snd (reserve_text_segment shown r t (lw_ledger w)))"
    unfolding reserve_text_segment_def by (rule reserve_tokens_ok) (use segment in \<open>simp add: ledger_inv_ok\<close>)
  then show ?case by (cases "reserve_text_segment shown r t (lw_ledger w)"; cases "fst (reserve_text_segment shown r t (lw_ledger w))")
    (auto simp: ledger_inv_ok)
qed (auto simp: ledger_inv_ok charge_fixed_ok commit_tokens_ok drop_ok drop_reservation_def dest: charge_fixed_ok)

interpretation budget: transition_system ledger_init "ledger_step shown" ledger_inv for shown
proof
  show "ledger_init w \<Longrightarrow> ledger_inv w" for w
    by (auto simp: ledger_init_def ledger_inv_def new_ledger_def pending_tokens_def)
  show "ledger_inv w \<Longrightarrow> ledger_step shown w a w' \<Longrightarrow> ledger_inv w'" for w a w'
    by (rule ledger_step_inv)
qed

section \<open>Properties\<close>

lemma selected_total:
  fixes m :: "('k, nat) omap"
  assumes "sum_list (om_values m) < 2 ^ 32"
  shows "sum_list (map (\<lambda>(k, n). min n (2 ^ 32 - 1)) m) = sum_list (om_values m)"
  using assms by (induction m) auto

lemma selected_ranges_total:
  assumes "sum_list (om_values (lg_ranges s)) < 2 ^ 32"
  shows "sum_list (map xr_estimated_tokens (selected_ranges s)) = sum_list (om_values (lg_ranges s))"
proof -
  have "map xr_estimated_tokens (selected_ranges s) = map (\<lambda>(k, n). min n (2 ^ 32 - 1)) (lg_ranges s)"
    by (auto simp: selected_ranges_def split: prod.splits)
  then show ?thesis using selected_total[OF assms] by simp
qed

text \<open>
  C30: The context budget holds in every reachable state of the ledger, whatever reservations are
  made, committed with other sizes, dropped or charged in any order: what is used never exceeds
  the input limit; it is exactly the fixed charges and the recorded ranges, which are what the
  plan shows; and a reservation is refused exactly when it would not fit beside what is used and
  pending, with nothing reserved then.
\<close>

theorem context_budget_holds:
  assumes "budget.reach shown w"
  defines "L \<equiv> lw_ledger w"
  shows "lg_used L \<le> lg_input_limit L
    \<and> lg_used L = lw_fixed w + sum_list (om_values (lg_ranges L))
    \<and> (lg_input_limit L < 2 ^ 32 \<longrightarrow>
        lg_used L = lw_fixed w + sum_list (map xr_estimated_tokens (selected_ranges L)))
    \<and> (\<forall>r tokens. reserve_tokens shown r tokens L = (Inl budget_exceeded, L)
        \<longleftrightarrow> lg_input_limit L < lg_used L + pending_tokens L + tokens)"
proof -
  have ok: "ledger_ok (lw_fixed w) L"
    using budget.reach_inv[OF assms(1)] by (simp add: ledger_inv_ok L_def)
  have "reserve_tokens shown r tokens L = (Inl budget_exceeded, L)
      \<longleftrightarrow> lg_input_limit L < lg_used L + pending_tokens L + tokens" for r tokens
    using ok by (simp add: reserve_tokens_def ledger_ok_def sat_add_refused Let_def)
  then show ?thesis using ok selected_ranges_total[of L] by (auto simp: ledger_ok_def)
qed

text \<open>A ledger of 100 tokens with a charge of 40 and a reservation of 50 that is alive.\<close>

definition sample_page :: range_key where
  "sample_page = (''attachment'', ''a'', None, ''page:1'')"

definition sample_world :: ledger_world where
  "sample_world =
     (let w = \<lparr>lw_ledger = new_ledger 100, lw_alive = [], lw_fixed = 0\<rparr>;
          w = w\<lparr>lw_ledger := snd (charge_fixed 40 (lw_ledger w)), lw_fixed := lw_fixed w + 40\<rparr> in
      reserved (reserve_text_segment (\<lambda>_. ''None'') sample_page (replicate 50 (CHR ''x'')) (lw_ledger w)) w)"

lemma sample_world_reach: "budget.reach (\<lambda>_. ''None'') sample_world"
proof -
  let ?w = "\<lparr>lw_ledger = new_ledger 100, lw_alive = [], lw_fixed = 0\<rparr>"
  have start: "budget.reach (\<lambda>_. ''None'') ?w"
    by (rule budget.reach_init) (auto simp: ledger_init_def USIZE_MAX_def intro!: exI[of _ 100])
  have charged: "charge_fixed 40 (lw_ledger ?w) = (Inr (), snd (charge_fixed 40 (lw_ledger ?w)))"
    by (simp add: charge_fixed_def new_ledger_def pending_tokens_def sat_add_def USIZE_MAX_def)
  show ?thesis
    unfolding sample_world_def Let_def
    by (rule budget.reach_step[OF budget.reach_step[OF start charge_ok[OF charged]] segment])
qed

lemma sample_ledger:
  "lg_used (lw_ledger sample_world) = 40" "pending_tokens (lw_ledger sample_world) = 50"
  "lg_input_limit (lw_ledger sample_world) = 100"
  by (simp_all add: sample_world_def charge_fixed_def new_ledger_def pending_tokens_def sat_add_def USIZE_MAX_def
    reserve_text_segment_def reserve_tokens_def estimate_text_tokens_def Let_def)

theorem context_budget_holds_witness:
  "reserve_tokens (\<lambda>_. ''None'') (''attachment'', ''a'', None, ''page:2'') 11 (lw_ledger sample_world)
     = (Inl budget_exceeded, lw_ledger sample_world)
   \<and> lg_used (lw_ledger sample_world) \<le> 100"
  using context_budget_holds[OF sample_world_reach] by (simp add: sample_ledger)

text \<open>
  The number in a key is the number of pending reservations, so a key can be issued again while a
  reservation that holds it is alive: of three reservations of one range, the third takes the key
  of the second when the first was dropped before, and only one of the two can commit.
\<close>

lemma keys_are_reissued:
  defines "r \<equiv> (''attachment'', ''a'', None, ''page:1'')"
  shows "let shown = (\<lambda>_. ''None'');
             (a, s) = reserve_tokens shown r 1 (new_ledger 100); (b, s) = reserve_tokens shown r 2 s;
             s = drop_reservation (case a of Inr v \<Rightarrow> v) s; (c, s) = reserve_tokens shown r 3 s;
             (x, s) = commit_tokens (case b of Inr v \<Rightarrow> v) 2 s; (y, s) = commit_tokens (case c of Inr v \<Rightarrow> v) 3 s
         in x = Inr () \<and> y = Inl reservation_gone"
  unfolding r_def
  by (simp add: reserve_tokens_def new_ledger_def pending_tokens_def sat_add_def USIZE_MAX_def pending_key_def
    drop_reservation_def om_remove_def commit_tokens_def decimal.simps Let_def)

end
