(* ===== verification/Stream_Parser.thy ===== *)
theory Stream_Parser imports Service Json_Value begin

text \<open>
  Streamed replies of a provider (\<open>providers/src/stream.rs\<close>) and what may be logged of them
  (\<open>redaction.rs\<close>, the errors of \<open>types.rs\<close>). Bytes arrive in chunks of any size; the parser keeps
  the bytes of an unfinished event. The JSON parser is a parameter; the text of an error that
  quotes a library's own message is not modelled.
\<close>

section \<open>What may be logged\<close>

definition REDACTION :: string where "REDACTION = ''<redacted>''"

definition ascii_lower :: "string \<Rightarrow> string" where
  "ascii_lower s = map (\<lambda>c. if is_ascii_upper c then char_of (byte c + 32) else c) s"

text \<open>\<open>str::lines\<close>: the ending of a line is a line feed, with a carriage return before it if there is one.\<close>

definition drop_cr :: "string \<Rightarrow> string" where
  "drop_cr l = (case strip_suffix l [CHR 0x0D] of Some w \<Rightarrow> w | None \<Rightarrow> l)"

definition str_lines :: "string \<Rightarrow> string list" where
  "str_lines s = (let parts = str_split (CHR 0x0A) s in
     map drop_cr (butlast parts) @ (if last parts = [] then [] else [last parts]))"

definition redact_key_value_line :: "string \<Rightarrow> string" where
  "redact_key_value_line l = (case split_once (CHR '':'') l of
     Some (name, _) \<Rightarrow> name @ '': '' @ REDACTION
   | None \<Rightarrow> (case split_once (CHR ''='') l of
       Some (name, _) \<Rightarrow> name @ ''='' @ REDACTION
     | None \<Rightarrow> REDACTION))"

definition str_find :: "string \<Rightarrow> string \<Rightarrow> nat option" where
  "str_find s p = find (\<lambda>i. prefix p (drop i s)) [0..<Suc (length s)]"

text \<open>The offset of the first white space character, or the length.\<close>

definition token_length :: "string \<Rightarrow> nat" where
  "token_length s = (case find (\<lambda>(i, c). is_whitespace c) (char_indices s) of
     Some (i, _) \<Rightarrow> i | None \<Rightarrow> length s)"

lemma str_find_bound:
  assumes "str_find s p = Some i" and "length s = length t"
  shows "i + length p \<le> length t"
proof -
  from assms have "i \<le> length s" "prefix p (drop i s)" by (auto simp: str_find_def find_Some_iff simp del: upt_Suc)
  then have "length p \<le> length s - i" by (metis length_drop prefix_length_le)
  then show ?thesis using assms(2) \<open>i \<le> length s\<close> by simp
qed

lemma ascii_lower_length [simp]: "length (ascii_lower s) = length s"
  by (simp add: ascii_lower_def)

function redact_bearer_tokens :: "string \<Rightarrow> string" where
  "redact_bearer_tokens remaining = (case str_find (ascii_lower remaining) ''bearer '' of
     None \<Rightarrow> remaining
   | Some i \<Rightarrow> let rest = drop (i + length ''Bearer '') remaining in
       take i remaining @ ''Bearer '' @ REDACTION @ redact_bearer_tokens (drop (token_length rest) rest))"
  by auto
termination
  by (relation "measure length") (auto dest!: str_find_bound[where t = "ascii_lower _"])

definition sensitive_line :: "string \<Rightarrow> bool" where
  "sensitive_line l \<longleftrightarrow> list_ex (contains_str (ascii_lower l))
     [''authorization:'', ''api-key'', ''api_key'', ''apikey'', ''x-api-key'']"

definition redact_sensitive :: "string \<Rightarrow> string" where
  "redact_sensitive input = str_join [CHR 0x0A]
     (map (\<lambda>l. if sensitive_line l then redact_key_value_line l else redact_bearer_tokens l) (str_lines input))"

definition truncate_for_log :: "string \<Rightarrow> nat \<Rightarrow> string" where
  "truncate_for_log input limit = (let sanitized = redact_sensitive input in
     if length (chars sanitized) \<le> limit then sanitized
     else utf8 (take limit (chars sanitized)) @ ''...'')"

section \<open>Errors and events\<close>

datatype provider_error_kind =
    MissingCredential | InvalidProfile | InvalidRequest | Network | Timeout | Cancelled
  | ResponseTooLarge | Http | Parse | Credential

record provider_error =
  pe_kind :: provider_error_kind
  pe_http_status :: "nat option"

definition new_provider_error :: "provider_error_kind \<Rightarrow> provider_error" where
  "new_provider_error k = \<lparr>pe_kind = k, pe_http_status = None\<rparr>"

definition provider_error_with_status :: "provider_error_kind \<Rightarrow> nat \<Rightarrow> provider_error" where
  "provider_error_with_status k status = \<lparr>pe_kind = k, pe_http_status = Some status\<rparr>"

record chat_usage =
  cu_prompt_tokens :: "nat option"
  cu_completion_tokens :: "nat option"
  cu_total_tokens :: "nat option"

datatype stream_event =
    Delta string "string option"
  | Usage chat_usage
  | ErrorEvent string string
  | Done

section \<open>Parsing an event\<close>

definition parse_error_value :: "json \<Rightarrow> stream_event" where
  "parse_error_value v = ErrorEvent
     (case Option.bind (json_get v ''type'') as_str of Some t \<Rightarrow> t
      | None \<Rightarrow> (case Option.bind (json_get v ''code'') as_str of Some t \<Rightarrow> t | None \<Rightarrow> ''provider_error''))
     (truncate_for_log (case Option.bind (json_get v ''message'') as_str of Some t \<Rightarrow> t
      | None \<Rightarrow> ''provider stream returned an error'') 240)"

definition parse_error_event :: "(string \<Rightarrow> json option) \<Rightarrow> string \<Rightarrow> provider_error + stream_event" where
  "parse_error_event P body =
     (if str_trim body = [] then Inr (ErrorEvent ''provider_error'' ''provider stream returned an error event'')
      else and_then (ok_or (P body) (new_provider_error Parse)) (\<lambda>v.
        Inr (parse_error_value (case json_get v ''error'' of Some e \<Rightarrow> e | None \<Rightarrow> v))))"

definition token_count :: "json \<Rightarrow> string \<Rightarrow> nat option" where
  "token_count usage k = Option.bind (Option.bind (json_get usage k) as_u64)
     (\<lambda>n. if n < 2 ^ 32 then Some n else None)"

definition usage_of :: "json \<Rightarrow> chat_usage" where
  "usage_of usage = \<lparr>cu_prompt_tokens = token_count usage ''prompt_tokens'',
     cu_completion_tokens = token_count usage ''completion_tokens'',
     cu_total_tokens = token_count usage ''total_tokens''\<rparr>"

text \<open>The events of a data field, and whether it carried a hidden reasoning token.\<close>

definition data_events :: "json \<Rightarrow> stream_event list \<times> bool" where
  "data_events v =
     (let usage = Option.bind (json_get v ''usage'') (\<lambda>u. if is_object u then Some (usage_of u) else None);
          delta = Option.bind (Option.bind (Option.bind (json_get v ''choices'') as_array)
            (\<lambda>cs. case cs of [] \<Rightarrow> None | c # _ \<Rightarrow> Some c)) (\<lambda>c. json_get c ''delta'');
          content = (case Option.bind (Option.bind delta (\<lambda>d. json_get d ''content'')) as_str of
            Some c \<Rightarrow> c | None \<Rightarrow> []);
          reasoning = (case Option.bind (Option.bind delta (\<lambda>d. json_get d ''reasoning_content'')) as_str of
            Some c \<Rightarrow> c \<noteq> [] | None \<Rightarrow> False);
          model = Option.bind (json_get v ''model'') as_str;
          events = (if delta \<noteq> None \<or> model \<noteq> None then [Delta content model] else [])
            @ (case usage of Some u \<Rightarrow> [Usage u] | None \<Rightarrow> []) in
      (if events = [] then [Delta [] None] else events, reasoning))"

definition parse_data_events :: "(string \<Rightarrow> json option) \<Rightarrow> string \<Rightarrow> provider_error + stream_event list \<times> bool" where
  "parse_data_events P body =
     (if str_trim body = [] then Inl (new_provider_error Parse)
      else and_then (ok_or (P body) (new_provider_error Parse)) (\<lambda>v. case json_get v ''error'' of
        Some e \<Rightarrow> Inr ([parse_error_value e], False)
      | None \<Rightarrow> Inr (data_events v)))"

text \<open>\<open>split(['\r', '\n'])\<close>.\<close>

fun split_lines :: "string \<Rightarrow> string list" where
  "split_lines [] = [[]]"
| "split_lines (b # bs) =
     (if b = CHR 0x0D \<or> b = CHR 0x0A then [] # split_lines bs
      else (case split_lines bs of [] \<Rightarrow> [[b]] | w # ws \<Rightarrow> (b # w) # ws))"

fun read_fields :: "string option \<times> string list \<Rightarrow> string list \<Rightarrow> string option \<times> string list" where
  "read_fields acc [] = acc"
| "read_fields (name, body) (line # ls) = read_fields
     (case strip_prefix line ''event:'' of
        Some v \<Rightarrow> (Some (str_trim v), body)
      | None \<Rightarrow> (case strip_prefix line ''data:'' of
          Some v \<Rightarrow> (name, body @ [case strip_prefix v '' '' of Some w \<Rightarrow> w | None \<Rightarrow> v])
        | None \<Rightarrow> (if line = ''data'' then (name, body @ [[]]) else (name, body)))) ls"

definition parse_event_bytes :: "(string \<Rightarrow> json option) \<Rightarrow> string \<Rightarrow> provider_error + stream_event list \<times> bool" where
  "parse_event_bytes P bytes =
     (if \<not> valid_utf8 bytes then Inl (new_provider_error Parse)
      else let t = (case strip_prefix bytes (utf8 [0xFEFF]) of Some w \<Rightarrow> w | None \<Rightarrow> bytes);
               (name, lines) = read_fields (None, []) (split_lines t);
               body = str_join [CHR 0x0A] lines in
        if lines = [] then Inr ([], False)
        else if str_trim body = ''[DONE]'' then Inr ([Done], False)
        else if name = Some ''error'' then and_then (parse_error_event P body) (\<lambda>e. Inr ([e], False))
        else if body = [] then Inr ([], False)
        else parse_data_events P body)"

section \<open>The parser\<close>

definition MAX_PENDING_SSE_EVENT_BYTES :: nat where "MAX_PENDING_SSE_EVENT_BYTES = 1024 * 1024"

record stream_parser =
  sp_buffer :: string
  sp_saw_reasoning_content :: bool

definition new_parser :: stream_parser where
  "new_parser = \<lparr>sp_buffer = [], sp_saw_reasoning_content = False\<rparr>"

definition line_ending_len :: "string \<Rightarrow> nat \<Rightarrow> nat option" where
  "line_ending_len b i =
     (if i < length b then
        if b ! i = CHR 0x0A then Some 1
        else if b ! i = CHR 0x0D then Some (if i + 1 < length b \<and> b ! (i + 1) = CHR 0x0A then 2 else 1)
        else None
      else None)"

function separator_from :: "string \<Rightarrow> nat \<Rightarrow> (nat \<times> nat) option" where
  "separator_from b i =
     (if i < length b then case line_ending_len b i of
        None \<Rightarrow> separator_from b (i + 1)
      | Some first_len \<Rightarrow> (case line_ending_len b (i + first_len) of
          Some second_len \<Rightarrow> Some (i, first_len + second_len)
        | None \<Rightarrow> separator_from b (i + first_len))
      else None)"
  by auto
termination
  by (relation "measure (\<lambda>(b, i). length b - i)") (auto simp: line_ending_len_def split: if_splits)

declare separator_from.simps [simp del]

definition find_event_separator :: "string \<Rightarrow> (nat \<times> nat) option" where
  "find_event_separator b = separator_from b 0"

definition ascii_blank :: "string \<Rightarrow> bool" where
  "ascii_blank = list_all (\<lambda>c. byte c \<in> {0x09, 0x0A, 0x0C, 0x0D, 0x20})"

type_synonym parsed = "(provider_error + stream_event) list"

definition append_parsed_event :: "(string \<Rightarrow> json option) \<Rightarrow> string \<Rightarrow> parsed \<times> bool \<Rightarrow> parsed \<times> bool" where
  "append_parsed_event P bytes acc = (case acc of (events, saw) \<Rightarrow> (case parse_event_bytes P bytes of
     Inr (es, r) \<Rightarrow> (events @ map Inr es, saw \<or> r)
   | Inl e \<Rightarrow> (events @ [Inl e], saw)))"

definition append_event :: "(string \<Rightarrow> json option) \<Rightarrow> string \<Rightarrow> parsed \<times> bool \<Rightarrow> parsed \<times> bool" where
  "append_event P bytes acc = (if ascii_blank bytes then acc else append_parsed_event P bytes acc)"

lemma line_ending_bound: "line_ending_len b i = Some f \<Longrightarrow> i < length b \<and> 0 < f \<and> i + f \<le> length b"
  by (auto simp: line_ending_len_def split: if_splits)

lemma separator_from_cases:
  obtains (stop) "length b \<le> i" "separator_from b i = None"
    | (skip) d where "i < length b" "0 < d" "i + d \<le> length b" "separator_from b i = separator_from b (i + d)"
        "line_ending_len b i = None \<and> d = 1 \<or> line_ending_len b i = Some d \<and> line_ending_len b (i + d) = None"
    | (found) f g where "line_ending_len b i = Some f" "line_ending_len b (i + f) = Some g"
        "separator_from b i = Some (i, f + g)"
proof (cases "i < length b")
  case True
  show ?thesis
  proof (cases "line_ending_len b i")
    case None
    then show ?thesis using True by (intro skip[of 1]) (simp_all add: separator_from.simps[of b i])
  next
    case (Some f)
    note f = line_ending_bound[OF this]
    show ?thesis
    proof (cases "line_ending_len b (i + f)")
      case None
      then show ?thesis using True Some f by (intro skip[of f]) (simp_all add: separator_from.simps[of b i])
    next
      case (Some g)
      then show ?thesis using True \<open>line_ending_len b i = Some f\<close>
        by (intro found[of f g]) (simp_all add: separator_from.simps[of b i])
    qed
  qed
qed (simp add: stop separator_from.simps[of b i])

lemma separator_from_bound:
  "separator_from b i = Some (j, l) \<Longrightarrow> i \<le> j \<and> 0 < l \<and> j + l \<le> length b"
proof (induction "length b - i" arbitrary: i rule: less_induct)
  case less
  show ?case
  proof (cases b i rule: separator_from_cases)
    case (skip d)
    then have "i + d \<le> j \<and> 0 < l \<and> j + l \<le> length b"
      using less.hyps[of "i + d"] less.prems by simp
    then show ?thesis by simp
  next
    case (found f g)
    then show ?thesis using less.prems line_ending_bound[of b i f] line_ending_bound[of b "i + f" g] by auto
  qed (use less.prems in simp)
qed

text \<open>The loop of \<open>push\<close>: every finished event is taken from the buffer.\<close>

function drain :: "(string \<Rightarrow> json option) \<Rightarrow> string \<Rightarrow> parsed \<times> bool \<Rightarrow> (parsed \<times> bool) \<times> string" where
  "drain P b acc = (case find_event_separator b of
     None \<Rightarrow> (acc, b)
   | Some (i, l) \<Rightarrow> drain P (drop (i + l) b) (append_event P (take i b) acc))"
  by auto
termination
  by (relation "measure (\<lambda>(P, b, acc). length b)") (auto simp: find_event_separator_def dest!: separator_from_bound)

declare drain.simps [simp del]

definition push :: "(string \<Rightarrow> json option) \<Rightarrow> string \<Rightarrow> stream_parser \<Rightarrow> parsed \<times> stream_parser" where
  "push P chunk sp =
     (if chunk = [] then ([], sp)
      else let ((events, saw), rest) = drain P (sp_buffer sp @ chunk) ([], sp_saw_reasoning_content sp) in
        if MAX_PENDING_SSE_EVENT_BYTES < length rest
        then (events @ [Inl (new_provider_error ResponseTooLarge)],
              \<lparr>sp_buffer = [], sp_saw_reasoning_content = saw\<rparr>)
        else (events, \<lparr>sp_buffer = rest, sp_saw_reasoning_content = saw\<rparr>))"

definition finish_stream :: "(string \<Rightarrow> json option) \<Rightarrow> stream_parser \<Rightarrow> parsed \<times> stream_parser" where
  "finish_stream P sp =
     (if ascii_blank (sp_buffer sp) then ([], sp\<lparr>sp_buffer := []\<rparr>)
      else let (events, saw) = append_parsed_event P (sp_buffer sp) ([], sp_saw_reasoning_content sp) in
        (events, \<lparr>sp_buffer = [], sp_saw_reasoning_content = saw\<rparr>))"

text \<open>What a caller sees of a whole reply: the events of every chunk, then those of the end.\<close>

fun push_all :: "(string \<Rightarrow> json option) \<Rightarrow> string list \<Rightarrow> stream_parser \<Rightarrow> parsed \<times> stream_parser" where
  "push_all P [] sp = ([], sp)"
| "push_all P (c # cs) sp =
     (let (es, sp) = push P c sp; (fs, sp) = push_all P cs sp in (es @ fs, sp))"

definition read_stream :: "(string \<Rightarrow> json option) \<Rightarrow> string list \<Rightarrow> parsed \<times> stream_parser" where
  "read_stream P chunks =
     (let (es, sp) = push_all P chunks new_parser; (fs, sp) = finish_stream P sp in (es @ fs, sp))"

section \<open>The cut into chunks does not matter\<close>

definition open_ended :: "string \<Rightarrow> bool" where
  "open_ended b \<longleftrightarrow> b \<noteq> [] \<and> last b = CHR 0x0D"

lemma line_ending_append:
  assumes "\<not> open_ended b" and "i < length b"
  shows "line_ending_len (b @ c) i = line_ending_len b i"
proof (cases "i + 1 < length b")
  case False
  then have "i = length b - 1" using assms(2) by simp
  then have "b ! i = last b" using assms(2) by (metis last_conv_nth list.size(3) not_less_zero)
  with assms have "b ! i \<noteq> CHR 0x0D" by (auto simp: open_ended_def)
  with assms show ?thesis by (simp add: line_ending_len_def nth_append_left)
qed (simp add: line_ending_len_def nth_append_left)

lemma separator_append:
  assumes "\<not> open_ended b"
  shows "separator_from b i = Some (j, l) \<Longrightarrow> separator_from (b @ c) i = Some (j, l)"
proof (induction "length b - i" arbitrary: i rule: less_induct)
  case less
  show ?case
  proof (cases b i rule: separator_from_cases)
    case (skip d)
    then have "i + d < length b" using less.prems by (metis le_neq_implies_less option.distinct(1) order_refl
          separator_from_bound not_less add.commute less.prems linorder_not_le separator_from.simps)
    moreover have "separator_from (b @ c) (i + d) = Some (j, l)"
      using less.hyps[of "i + d"] skip less.prems by simp
    ultimately show ?thesis using skip assms
      by (auto simp: separator_from.simps[of "b @ c" i] line_ending_append)
  next
    case (found f g)
    then have "i < length b" "i + f < length b" using line_ending_bound by blast+
    with found assms less.prems show ?thesis
      by (simp add: separator_from.simps[of "b @ c" i] line_ending_append)
  qed (use less.prems in simp)
qed

lemma drain_append:
  assumes "\<not> open_ended b" and "drain P b acc = (acc', rest)"
  shows "drain P (b @ c) acc = drain P (rest @ c) acc' \<and> \<not> open_ended rest \<and> length rest \<le> length b
    \<and> find_event_separator rest = None"
  using assms
proof (induction P b acc rule: drain.induct)
  case (1 P b acc)
  show ?case
  proof (cases "find_event_separator b")
    case None
    with 1 show ?thesis by (simp add: drain.simps[of P b])
  next
    case (Some s)
    then obtain i l where s: "find_event_separator b = Some (i, l)" by (cases s) auto
    then have bound: "i + l \<le> length b" "find_event_separator (b @ c) = Some (i, l)"
      using separator_from_bound[of b 0 i l] separator_append[OF 1(2)] by (auto simp: find_event_separator_def)
    have "\<not> open_ended (drop (i + l) b)" using 1(2) by (auto simp: open_ended_def)
    moreover have "drain P (drop (i + l) b) (append_event P (take i b) acc) = (acc', rest)"
      using 1(3) s by (simp add: drain.simps[of P b])
    ultimately have "drain P (drop (i + l) b @ c) (append_event P (take i b) acc) = drain P (rest @ c) acc'
        \<and> \<not> open_ended rest \<and> length rest \<le> length (drop (i + l) b) \<and> find_event_separator rest = None"
      using 1(1)[OF s refl] by blast
    then show ?thesis using bound by (auto simp: drain.simps[of P "b @ c"])
  qed
qed

lemma append_event_acc:
  "append_event P x (es, saw) = (es @ fst (append_event P x ([], saw)), snd (append_event P x ([], saw)))"
  by (simp add: append_event_def append_parsed_event_def split: sum.split prod.split)

lemma drain_acc:
  "drain P b (es, saw) = ((es @ fst (fst (drain P b ([], saw))), snd (fst (drain P b ([], saw)))), snd (drain P b ([], saw)))"
proof (induction "length b" arbitrary: b es saw rule: less_induct)
  case less
  show ?case
  proof (cases "find_event_separator b")
    case None
    then show ?thesis by (simp add: drain.simps[of P b])
  next
    case (Some s)
    then obtain i l where s: "find_event_separator b = Some (i, l)" by (cases s) auto
    let ?b = "drop (i + l) b" and ?e = "append_event P (take i b) ([], saw)"
    have shorter: "length ?b < length b"
      using separator_from_bound[of b 0 i l] s by (auto simp: find_event_separator_def)
    have "drain P b (es, saw) = drain P ?b (es @ fst ?e, snd ?e)"
      using s append_event_acc[of P "take i b" es saw] by (simp add: drain.simps[of P b])
    moreover have "drain P b ([], saw) = drain P ?b (fst ?e, snd ?e)"
      using s by (simp add: drain.simps[of P b])
    ultimately show ?thesis
      using less.hyps[OF shorter, of "es @ fst ?e" "snd ?e"] less.hyps[OF shorter, of "fst ?e" "snd ?e"] by simp
  qed
qed

text \<open>\<open>push\<close> of bytes that stay below the limit, from a parser with a drained buffer.\<close>

definition drained :: "stream_parser \<Rightarrow> bool" where
  "drained sp \<longleftrightarrow> find_event_separator (sp_buffer sp) = None \<and> \<not> open_ended (sp_buffer sp)"

lemma push_within:
  assumes "drained sp" and "length (sp_buffer sp) + length c \<le> MAX_PENDING_SSE_EVENT_BYTES"
    and rest: "length (snd (drain P (sp_buffer sp @ c) ([], sp_saw_reasoning_content sp))) \<le> MAX_PENDING_SSE_EVENT_BYTES"
  shows "push P c sp = (let ((es, saw), rest) = drain P (sp_buffer sp @ c) ([], sp_saw_reasoning_content sp) in
    (es, \<lparr>sp_buffer = rest, sp_saw_reasoning_content = saw\<rparr>))"
proof (cases "c = []")
  case True
  then show ?thesis using assms(1) by (simp add: push_def drained_def drain.simps[of P "sp_buffer sp"])
next
  case False
  then show ?thesis using rest by (auto simp: push_def split: prod.splits)
qed

lemma drain_length: "length (snd (drain P b acc)) \<le> length b"
proof (induction P b acc rule: drain.induct)
  case (1 P b acc)
  show ?case
  proof (cases "find_event_separator b")
    case None
    then show ?thesis by (simp add: drain.simps[of P b])
  next
    case (Some s)
    then obtain i l where s: "find_event_separator b = Some (i, l)" by (cases s) auto
    from 1[OF s refl] show ?thesis by (simp add: drain.simps[of P b] s)
  qed
qed

lemma push_all_whole:
  assumes "drained sp" and "\<forall>c \<in> set (butlast cs). \<not> open_ended c"
    and "length (sp_buffer sp) + length (concat cs) \<le> MAX_PENDING_SSE_EVENT_BYTES"
  shows "push_all P cs sp = push P (concat cs) sp"
  using assms
proof (induction cs arbitrary: sp)
  case Nil
  then show ?case by (simp add: push_def)
next
  case (Cons c cs)
  have all_rest: "length (snd (drain P (sp_buffer sp @ x) ([], saw))) \<le> MAX_PENDING_SSE_EVENT_BYTES"
    if "length x \<le> length (concat (c # cs))" for x saw
    using drain_length[of P "sp_buffer sp @ x" "([], saw)"] that Cons.prems(3) by simp
  show ?case
  proof (cases "cs = []")
    case True
    then show ?thesis by (simp add: split_beta Let_def)
  next
    case False
    obtain es saw rest where d: "drain P (sp_buffer sp @ c) ([], sp_saw_reasoning_content sp) = ((es, saw), rest)"
      by (metis prod.exhaust)
    have closed: "\<not> open_ended (sp_buffer sp @ c)"
      using Cons.prems False by (cases "c = []") (auto simp: open_ended_def drained_def)
    note whole = drain_append[OF closed d]
    define sp' where "sp' = \<lparr>sp_buffer = rest, sp_saw_reasoning_content = saw\<rparr>"
    have push1: "push P c sp = (es, sp')"
      using push_within[of sp c P] Cons.prems all_rest[of c "sp_saw_reasoning_content sp"] d by (simp add: sp'_def)
    have ready: "drained sp'" using whole by (simp add: drained_def sp'_def)
    have small: "length (sp_buffer sp') + length (concat cs) \<le> MAX_PENDING_SSE_EVENT_BYTES"
      using whole[of "[]"] Cons.prems(3) by (simp add: sp'_def)
    have "push_all P cs sp' = push P (concat cs) sp'"
      using Cons.IH[OF ready _ small] Cons.prems(2) False by simp
    also have "\<dots> = (let ((fs, saw), rest) = drain P (rest @ concat cs) ([], saw) in
        (fs, \<lparr>sp_buffer = rest, sp_saw_reasoning_content = saw\<rparr>))"
      using push_within[OF ready small] drain_length[of P "rest @ concat cs" "([], saw)"] small
      by (simp add: sp'_def)
    finally have tail: "push_all P cs sp' = \<dots>" .
    have "drain P (sp_buffer sp @ concat (c # cs)) ([], sp_saw_reasoning_content sp) = drain P (rest @ concat cs) (es, saw)"
      using whole[of "concat cs"] by simp
    then have "push P (concat (c # cs)) sp = (let ((fs, saw), rest) = drain P (rest @ concat cs) (es, saw) in
        (fs, \<lparr>sp_buffer = rest, sp_saw_reasoning_content = saw\<rparr>))"
      using push_within[of sp "concat (c # cs)" P] Cons.prems
        all_rest[of "concat (c # cs)" "sp_saw_reasoning_content sp"] by simp
    then show ?thesis using push1 tail drain_acc[of P "rest @ concat cs" es saw]
      by (simp add: split_beta Let_def)
  qed
qed

section \<open>Properties\<close>

text \<open>
  C29: for a reply of at most 1 MiB of which no chunk but the last ends in a carriage return, it does
  not matter how it is cut into chunks: the events, their order, the errors, the hidden-reasoning
  flag and the final state are those of the reply read in one piece, wherever else the cuts fall,
  inside a line, a blank line or a character. Outside these conditions it can matter: after a
  cut inside a CRLF that ends an event, the line feed is left at the head of the next event, where a
  byte order mark is then no longer the first character; and the limit of 1 MiB is on what is
  pending, so a longer reply may pass in pieces and fail as a whole.
\<close>

theorem chunking_does_not_matter:
  assumes "\<forall>c \<in> set (butlast chunks). \<not> open_ended c"
    and "length (concat chunks) \<le> MAX_PENDING_SSE_EVENT_BYTES"
  shows "read_stream P chunks = read_stream P [concat chunks]"
proof -
  have "drained new_parser"
    by (simp add: drained_def new_parser_def find_event_separator_def separator_from.simps open_ended_def)
  moreover have "length (sp_buffer new_parser) + length (concat chunks) \<le> MAX_PENDING_SSE_EVENT_BYTES"
    using assms(2) by (simp add: new_parser_def)
  ultimately have "push_all P chunks new_parser = push P (concat chunks) new_parser"
    using push_all_whole assms(1) by blast
  then show ?thesis by (simp add: read_stream_def split_beta Let_def)
qed

text \<open>A reply with two events, cut inside a line, inside a blank line and before the end.\<close>

theorem chunking_does_not_matter_witness:
  "read_stream (\<lambda>_. None) [''data: [DO'', ''NE]'' @ [CHR 0x0A], [CHR 0x0A] @ ''data: x'', [CHR 0x0A]]
     = read_stream (\<lambda>_. None) [''data: [DONE]'' @ [CHR 0x0A, CHR 0x0A] @ ''data: x'' @ [CHR 0x0A]]
   \<and> fst (read_stream (\<lambda>_. None) [''data: [DONE]'' @ [CHR 0x0A, CHR 0x0A]]) = [Inr Done]"
proof
  show "read_stream (\<lambda>_. None) [''data: [DO'', ''NE]'' @ [CHR 0x0A], [CHR 0x0A] @ ''data: x'', [CHR 0x0A]]
     = read_stream (\<lambda>_. None) [''data: [DONE]'' @ [CHR 0x0A, CHR 0x0A] @ ''data: x'' @ [CHR 0x0A]]"
    using chunking_does_not_matter[of "[''data: [DO'', ''NE]'' @ [CHR 0x0A], [CHR 0x0A] @ ''data: x'', [CHR 0x0A]]"]
    by (simp add: open_ended_def MAX_PENDING_SSE_EVENT_BYTES_def)
  have v: "valid_utf8 ''data: [DONE]''" by (rule valid_utf8_ascii) simp
  have t: "str_trim ''[DONE]'' = ''[DONE]''" by (rule str_trim_plain) (simp_all add: is_whitespace_def)
  have bom: "char_of (239 :: nat) \<noteq> CHR ''d''"
  proof
    assume "char_of (239 :: nat) = CHR ''d''"
    then have "of_char (char_of (239 :: nat)) = (of_char CHR ''d'' :: nat)" by simp
    then show False by simp
  qed
  have p: "parse_event_bytes (\<lambda>_. None) ''data: [DONE]'' = Inr ([Done], False)"
    by (simp add: parse_event_bytes_def v t strip_prefix_def str_join_def utf8_def encode_scalar_def bom)
  show "fst (read_stream (\<lambda>_. None) [''data: [DONE]'' @ [CHR 0x0A, CHR 0x0A]]) = [Inr Done]"
    by (simp add: read_stream_def push_def new_parser_def drain.simps find_event_separator_def separator_from.simps
      line_ending_len_def append_event_def append_parsed_event_def ascii_blank_def p finish_stream_def
      MAX_PENDING_SSE_EVENT_BYTES_def)
qed

end
