(* ===== verification/Ai_Config.thy ===== *)
theory Ai_Config imports Worker Context Stream_Parser begin

text \<open>
  The configuration of AI providers (\<open>workspace-service/src/ai\_provider.rs\<close>): presets, what a user
  declares a model to support, how declarations are merged and marked for review when the
  configuration they were made for changes, and what is resolved from them for a request.
\<close>

section \<open>Records\<close>

record model_capabilities =
  cap_context_window_tokens :: "nat option"
  cap_max_output_tokens :: "nat option"
  cap_supports_tools :: "bool option"
  cap_supports_structured_output :: "bool option"
  cap_supports_vision :: "bool option"

record capability_declaration =
  cd_declaration_source :: string
  cd_declared_at :: nat
  cd_config_binding :: string
  cd_declaration_hash :: string
  cd_verification_state :: string
  cd_needs_review :: bool
  cd_fields_needing_review :: "string list"
  cd_provider_revision :: nat
  cd_current_config_binding :: "string option"

record capability_presence =
  cp_context_window_tokens :: bool
  cp_max_output_tokens :: bool
  cp_supports_tools :: bool
  cp_supports_structured_output :: bool
  cp_supports_vision :: bool

record ai_metadata =
  md_preset :: string
  md_enabled_models :: "string list"
  md_trust_raw :: bool
  md_base_url :: string
  md_model_capabilities :: "(string, model_capabilities) omap"

record ai_provider_request =
  ar_id :: "string option"
  ar_provider_id :: "string option"
  ar_name :: string
  ar_preset :: string
  ar_base_url :: string
  ar_model :: string
  ar_enabled_models :: "string list"
  ar_model_capabilities :: "(string, model_capabilities) omap"
  ar_presence :: "(string, capability_presence) omap"
  ar_api_key :: "string option"
  ar_trust_raw :: "bool option"
  ar_allow_private_network :: bool

definition default_capabilities :: model_capabilities where
  "default_capabilities = \<lparr>cap_context_window_tokens = None, cap_max_output_tokens = None,
     cap_supports_tools = None, cap_supports_structured_output = None, cap_supports_vision = None\<rparr>"

section \<open>Presets and endpoints\<close>

definition ai_presets :: "(string \<times> string) list" where
  "ai_presets =
     [(''glm'', ''https://open.bigmodel.cn/api/paas/v4''), (''deepseek'', ''https://api.deepseek.com''),
      (''qwen'', ''https://dashscope.aliyuncs.com/compatible-mode/v1''),
      (''siliconflow'', ''https://api.siliconflow.cn/v1''),
      (''volcengine'', ''https://ark.cn-beijing.volces.com/api/v3''), (''kimi'', ''https://api.moonshot.cn/v1''),
      (''custom'', [])]"

function trim_end_matches :: "string \<Rightarrow> string \<Rightarrow> string" where
  "trim_end_matches p s = (if p \<noteq> [] \<and> suffix p s then trim_end_matches p (take (length s - length p) s) else s)"
  by auto
termination
  by (relation "measure (\<lambda>(p, s). length s)") (auto simp: suffix_def)

declare trim_end_matches.simps [simp del]

definition normalized_base :: "string \<Rightarrow> string" where
  "normalized_base v = trim_end_matches ''/responses''
     (trim_end_matches ''/chat/completions'' (trim_end_matches ''/'' (str_trim v)))"

definition recognized_preset :: "string \<Rightarrow> string option" where
  "recognized_preset base =
     map_option fst (find (\<lambda>(i, url). url \<noteq> [] \<and> normalized_base url = normalized_base base) ai_presets)"

definition preset_base :: "string \<Rightarrow> string" where
  "preset_base preset = (case find (\<lambda>(i, url). i = preset) ai_presets of Some (_, url) \<Rightarrow> url | None \<Rightarrow> [])"

section \<open>Declarations\<close>

text \<open>The five fields with their names: declared in a record, and present in a request.\<close>

definition capability_fields :: "(string \<times> (model_capabilities \<Rightarrow> bool) \<times> (capability_presence \<Rightarrow> bool)) list" where
  "capability_fields =
     [(''context_window_tokens'', \<lambda>c. cap_context_window_tokens c \<noteq> None, cp_context_window_tokens),
      (''max_output_tokens'', \<lambda>c. cap_max_output_tokens c \<noteq> None, cp_max_output_tokens),
      (''supports_tools'', \<lambda>c. cap_supports_tools c \<noteq> None, cp_supports_tools),
      (''supports_structured_output'', \<lambda>c. cap_supports_structured_output c \<noteq> None, cp_supports_structured_output),
      (''supports_vision'', \<lambda>c. cap_supports_vision c \<noteq> None, cp_supports_vision)]"

definition present :: "capability_presence option \<Rightarrow> (capability_presence \<Rightarrow> bool) \<Rightarrow> bool" where
  "present p field = (case p of None \<Rightarrow> False | Some v \<Rightarrow> field v)"

definition capability_field_is_explicit :: "bool \<Rightarrow> capability_presence option \<Rightarrow> (capability_presence \<Rightarrow> bool) \<Rightarrow> bool" where
  "capability_field_is_explicit value_is_some p field \<longleftrightarrow> value_is_some \<or> present p field"

definition capability_update_has_explicit_fields :: "model_capabilities \<Rightarrow> capability_presence option \<Rightarrow> bool" where
  "capability_update_has_explicit_fields c p \<longleftrightarrow>
     list_ex (\<lambda>(_, declared, _). declared c) capability_fields
     \<or> present p (\<lambda>v. list_ex (\<lambda>(_, _, field). field v) capability_fields)"

definition all_capability_fields_explicit :: "model_capabilities \<Rightarrow> capability_presence option \<Rightarrow> bool" where
  "all_capability_fields_explicit c p \<longleftrightarrow>
     list_all (\<lambda>(_, declared, field). capability_field_is_explicit (declared c) p field) capability_fields"

definition capability_config_binding :: "service \<Rightarrow> provider_config \<Rightarrow> string \<Rightarrow> string" where
  "capability_config_binding S config model = content_hash S
     (''provider_id='' @ pc_id config @ [CHR 0x0A] @ ''base_url='' @ normalized_base (pc_base_url config)
      @ [CHR 0x0A] @ ''model='' @ model)"

definition capability_json :: "model_capabilities \<Rightarrow> json" where
  "capability_json c = JObj (json_present ''context_window_tokens'' json_nat (cap_context_window_tokens c)
     @ json_present ''max_output_tokens'' json_nat (cap_max_output_tokens c)
     @ [(''supports_structured_output'', json_opt JBool (cap_supports_structured_output c)),
        (''supports_tools'', json_opt JBool (cap_supports_tools c)),
        (''supports_vision'', json_opt JBool (cap_supports_vision c))])"

definition capability_declaration_hash :: "service \<Rightarrow> string \<Rightarrow> model_capabilities \<Rightarrow> string \<Rightarrow> string" where
  "capability_declaration_hash S model c binding = content_hash S (sv_to_vec S
     (JObj [(''capability'', capability_json c), (''config_binding'', JStr binding), (''model'', JStr model)]))"

definition unknown_capability_declaration :: "service \<Rightarrow> provider_config \<Rightarrow> string \<Rightarrow> capability_declaration" where
  "unknown_capability_declaration S config model =
     (let binding = capability_config_binding S config model in
      \<lparr>cd_declaration_source = ''unknown'', cd_declared_at = 0, cd_config_binding = binding,
       cd_declaration_hash = capability_declaration_hash S model default_capabilities binding,
       cd_verification_state = ''unknown'', cd_needs_review = True, cd_fields_needing_review = [],
       cd_provider_revision = pc_revision config, cd_current_config_binding = None\<rparr>)"

definition legacy_capability_declaration :: "service \<Rightarrow> provider_config \<Rightarrow> string \<Rightarrow> model_capabilities
    \<Rightarrow> capability_declaration" where
  "legacy_capability_declaration S config model c =
     (let binding = capability_config_binding S config model in
      \<lparr>cd_declaration_source = ''legacy_migrated'', cd_declared_at = 0, cd_config_binding = binding,
       cd_declaration_hash = capability_declaration_hash S model c binding,
       cd_verification_state = ''legacy'', cd_needs_review = True,
       cd_fields_needing_review = map fst (filter (\<lambda>(_, declared, _). declared c) capability_fields),
       cd_provider_revision = pc_revision config, cd_current_config_binding = None\<rparr>)"

text \<open>\<open>capability\<close> is the merged declaration, \<open>named\<close> what the request named.\<close>

definition fields_to_review :: "model_capabilities \<Rightarrow> capability_presence option \<Rightarrow> bool \<Rightarrow> string list \<Rightarrow> string list" where
  "fields_to_review c named stale_binding before =
     (let explicit = (\<lambda>(_, declared, field). present named field \<or> declared c);
          kept = filter (\<lambda>n. n \<notin> fst ` set (filter (\<lambda>f. fst (snd f) c \<or> explicit f) capability_fields)) before;
          inherited = (if stale_binding \<and> \<not> all_capability_fields_explicit c named
            then map fst (filter (\<lambda>f. fst (snd f) c \<and> \<not> explicit f \<and> fst f \<notin> set kept) capability_fields)
            else []) in
      remdups_adj (sort (kept @ inherited)))"

definition declared_capability_metadata :: "service \<Rightarrow> nat \<Rightarrow> provider_config \<Rightarrow> string \<Rightarrow> model_capabilities
    \<Rightarrow> capability_declaration option \<Rightarrow> capability_presence option \<Rightarrow> capability_declaration" where
  "declared_capability_metadata S time config model c previous named =
     (let binding = capability_config_binding S config model;
          stale_binding = (case previous of None \<Rightarrow> False | Some old \<Rightarrow> cd_config_binding old \<noteq> binding);
          review = fields_to_review c named stale_binding
            (case previous of None \<Rightarrow> [] | Some old \<Rightarrow> cd_fields_needing_review old) in
      \<lparr>cd_declaration_source = ''user_configuration'', cd_declared_at = time, cd_config_binding = binding,
       cd_declaration_hash = capability_declaration_hash S model c binding,
       cd_verification_state = ''declared'', cd_needs_review = (stale_binding \<or> review \<noteq> []),
       cd_fields_needing_review = review, cd_provider_revision = pc_revision config,
       cd_current_config_binding = None\<rparr>)"

definition reconcile_legacy_declaration :: "service \<Rightarrow> provider_config \<Rightarrow> string \<Rightarrow> capability_declaration
    \<Rightarrow> capability_declaration" where
  "reconcile_legacy_declaration S config model d =
     (let current_binding = capability_config_binding S config model in
      if cd_config_binding d \<noteq> current_binding
      then d\<lparr>cd_current_config_binding := Some current_binding, cd_needs_review := True\<rparr> else d)"

definition merge_capability_fields :: "model_capabilities option \<Rightarrow> model_capabilities \<Rightarrow> capability_presence option
    \<Rightarrow> model_capabilities" where
  "merge_capability_fields previous incoming p =
     (let old = (case previous of Some c \<Rightarrow> c | None \<Rightarrow> default_capabilities) in
      \<lparr>cap_context_window_tokens =
         (if present p cp_context_window_tokens \<or> cap_context_window_tokens incoming \<noteq> None
          then cap_context_window_tokens incoming else cap_context_window_tokens old),
       cap_max_output_tokens =
         (if present p cp_max_output_tokens \<or> cap_max_output_tokens incoming \<noteq> None
          then cap_max_output_tokens incoming else cap_max_output_tokens old),
       cap_supports_tools =
         (if present p cp_supports_tools \<or> cap_supports_tools incoming \<noteq> None
          then cap_supports_tools incoming else cap_supports_tools old),
       cap_supports_structured_output =
         (if present p cp_supports_structured_output \<or> cap_supports_structured_output incoming \<noteq> None
          then cap_supports_structured_output incoming else cap_supports_structured_output old),
       cap_supports_vision =
         (if present p cp_supports_vision \<or> cap_supports_vision incoming \<noteq> None
          then cap_supports_vision incoming else cap_supports_vision old)\<rparr>)"

text \<open>A capability the table has no declaration for, from what an older version stored.\<close>

definition inherited_declaration :: "service \<Rightarrow> provider_config \<Rightarrow> string \<Rightarrow> string \<Rightarrow> model_capabilities
    \<Rightarrow> capability_declaration" where
  "inherited_declaration S config old_base model c = reconcile_legacy_declaration S config model
     (legacy_capability_declaration S (config\<lparr>pc_base_url := old_base\<rparr>) model c)"

definition declaration_for :: "service \<Rightarrow> provider_config \<Rightarrow> ai_metadata
    \<Rightarrow> (string, capability_declaration) omap \<Rightarrow> string \<Rightarrow> capability_declaration" where
  "declaration_for S config md known model = (case om_get known model of
     Some d \<Rightarrow> reconcile_legacy_declaration S config model d
   | None \<Rightarrow> (case om_get (md_model_capabilities md) model of
       Some c \<Rightarrow> inherited_declaration S config (md_base_url md) model c
     | None \<Rightarrow> unknown_capability_declaration S config model))"

definition capability_declarations_for :: "service \<Rightarrow> provider_config \<Rightarrow> ai_metadata
    \<Rightarrow> (string, capability_declaration) omap option \<Rightarrow> (string, capability_declaration) omap" where
  "capability_declarations_for S config md existing =
     fold (\<lambda>model known. om_put model (declaration_for S config md known model) known)
       (md_enabled_models md) (case existing of Some d \<Rightarrow> d | None \<Rightarrow> [])"

section \<open>What a request may ask of a model\<close>

definition validate_capability :: "model_capabilities \<Rightarrow> error + unit" where
  "validate_capability c =
     (if (case cap_context_window_tokens c of Some n \<Rightarrow> \<not> (1024 \<le> n \<and> n \<le> 10000000) | None \<Rightarrow> False)
         \<or> (case cap_max_output_tokens c of Some n \<Rightarrow> \<not> (1 \<le> n \<and> n \<le> 1000000) | None \<Rightarrow> False)
      then Inl (error_new ''invalid_model_capabilities'')
      else case (cap_context_window_tokens c, cap_max_output_tokens c) of
        (Some window, Some out) \<Rightarrow> ensure (out < window) (error_new ''invalid_model_capabilities'')
      | _ \<Rightarrow> Inr ())"

definition validate_capabilities :: "string list \<Rightarrow> (string, model_capabilities) omap \<Rightarrow> error + unit" where
  "validate_capabilities enabled_models capabilities =
     and_then (ensure (list_all (\<lambda>m. m \<in> set enabled_models) (om_keys capabilities))
       (error_new ''model_capability_not_enabled'')) (\<lambda>_.
     try_each validate_capability (om_values capabilities))"

definition resolved_model_capabilities :: "ai_metadata \<Rightarrow> string \<Rightarrow> error + context_capabilities" where
  "resolved_model_capabilities md model =
     (let c = (case om_get (md_model_capabilities md) model of Some c \<Rightarrow> c | None \<Rightarrow> default_capabilities);
          window = (case cap_context_window_tokens c of Some n \<Rightarrow> n | None \<Rightarrow> UNKNOWN_CONTEXT_WINDOW_TOKENS);
          out = (case cap_max_output_tokens c of Some n \<Rightarrow> n | None \<Rightarrow> UNKNOWN_MAX_OUTPUT_TOKENS) in
      if window \<le> out then Inl (error_new ''invalid_model_capabilities'')
      else Inr \<lparr>xc_verified = (cap_context_window_tokens c \<noteq> None \<and> cap_max_output_tokens c \<noteq> None),
        xc_context_window_tokens = window,
        xc_max_input_tokens = (if cap_context_window_tokens c = None \<and> cap_max_output_tokens c = None
          then UNKNOWN_INPUT_TOKENS else window - out),
        xc_max_output_tokens = out, xc_supports_tools = cap_supports_tools c,
        xc_supports_structured_output = cap_supports_structured_output c,
        xc_supports_vision = cap_supports_vision c\<rparr>)"

definition validate_requested_features :: "context_capabilities \<Rightarrow> bool \<Rightarrow> bool \<Rightarrow> bool \<Rightarrow> error + unit" where
  "validate_requested_features c tools structured_output vision =
     and_then (ensure (\<not> (tools \<and> xc_supports_tools c = Some False)) (error_new ''model_tools_unsupported'')) (\<lambda>_.
     and_then (ensure (\<not> (structured_output \<and> xc_supports_structured_output c = Some False))
       (error_new ''model_structured_output_unsupported'')) (\<lambda>_.
     ensure (\<not> (vision \<and> xc_supports_vision c = Some False)) (error_new ''model_vision_unsupported'')))"

fun contains_image_input :: "json \<Rightarrow> bool" where
  "contains_image_input (JObj ms) \<longleftrightarrow>
     Option.bind (om_get ms ''type'') as_str = Some ''image_url'' \<or> list_ex (\<lambda>m. contains_image_input (snd m)) ms"
| "contains_image_input (JArr vs) \<longleftrightarrow> list_ex contains_image_input vs"
| "contains_image_input _ \<longleftrightarrow> False"

text \<open>What the user is told of a failing request.\<close>

definition provider_error :: "provider_error \<Rightarrow> error" where
  "provider_error e =
     (if pe_http_status e = Some 401 \<or> pe_http_status e = Some 403 then error_new ''provider_auth_failed''
      else if pe_http_status e = Some 429 then error_retry ''provider_rate_limited''
      else if pe_http_status e = Some 400 \<or> pe_http_status e = Some 404
      then error_new ''provider_model_or_request_invalid''
      else (case pe_kind e of
        Network \<Rightarrow> error_retry ''provider_network_failed''
      | Timeout \<Rightarrow> error_retry ''provider_timeout''
      | Parse \<Rightarrow> error_new ''provider_response_invalid''
      | InvalidRequest \<Rightarrow> error_new ''provider_authorization_invalid''
      | ResponseTooLarge \<Rightarrow> error_new ''provider_response_too_large''
      | _ \<Rightarrow> error_retry ''provider_request_failed''))"

section \<open>Decoding a request\<close>

text \<open>The derived reader of a capability record; it has no aliases and refuses unknown members.\<close>

definition read_u32 :: "json \<Rightarrow> nat option option" where
  "read_u32 v = (case v of JNull \<Rightarrow> Some None
   | _ \<Rightarrow> (case as_u64 v of Some n \<Rightarrow> if n < 2 ^ 32 then Some (Some n) else None | None \<Rightarrow> None))"

definition read_flag :: "json \<Rightarrow> bool option option" where
  "read_flag v = (case v of JNull \<Rightarrow> Some None | JBool b \<Rightarrow> Some (Some b) | _ \<Rightarrow> None)"

definition read_member :: "(json \<Rightarrow> 'a option option) \<Rightarrow> (string, json) omap \<Rightarrow> string \<Rightarrow> 'a option option" where
  "read_member f ms k = (case om_get ms k of None \<Rightarrow> Some None | Some v \<Rightarrow> f v)"

definition read_capabilities :: "(string, json) omap \<Rightarrow> model_capabilities option" where
  "read_capabilities ms =
     (if \<not> list_all (\<lambda>k. k \<in> set (map fst capability_fields)) (om_keys ms) then None
      else case (read_member read_u32 ms ''context_window_tokens'', read_member read_u32 ms ''max_output_tokens'',
          read_member read_flag ms ''supports_tools'', read_member read_flag ms ''supports_structured_output'',
          read_member read_flag ms ''supports_vision'') of
        (Some w, Some x, Some t, Some s, Some v) \<Rightarrow> Some \<lparr>cap_context_window_tokens = w,
          cap_max_output_tokens = x, cap_supports_tools = t, cap_supports_structured_output = s,
          cap_supports_vision = v\<rparr>
      | _ \<Rightarrow> None)"

definition read_presence :: "(string, json) omap \<Rightarrow> capability_presence" where
  "read_presence ms =
     \<lparr>cp_context_window_tokens = (om_get ms ''context_window_tokens'' \<noteq> None \<or> om_get ms ''contextWindowTokens'' \<noteq> None),
      cp_max_output_tokens = (om_get ms ''max_output_tokens'' \<noteq> None \<or> om_get ms ''maxOutputTokens'' \<noteq> None),
      cp_supports_tools = (om_get ms ''supports_tools'' \<noteq> None \<or> om_get ms ''supportsTools'' \<noteq> None),
      cp_supports_structured_output = (om_get ms ''supports_structured_output'' \<noteq> None
        \<or> om_get ms ''supportsStructuredOutput'' \<noteq> None),
      cp_supports_vision = (om_get ms ''supports_vision'' \<noteq> None \<or> om_get ms ''supportsVision'' \<noteq> None)\<rparr>"

definition decode_entry :: "string \<times> json \<Rightarrow> string + string \<times> model_capabilities \<times> capability_presence" where
  "decode_entry e = (case e of (model, raw) \<Rightarrow>
     and_then (ok_or (as_object raw) ''model_capabilities_entry_invalid'') (\<lambda>ms.
     and_then (ok_or (read_capabilities ms) ''invalid_model_capabilities'') (\<lambda>c.
       Inr (model, c, read_presence ms))))"

definition decode_capabilities :: "(string, json) omap option
    \<Rightarrow> string + (string, model_capabilities) omap \<times> (string, capability_presence) omap" where
  "decode_capabilities wire = and_then (try_map decode_entry (case wire of Some es \<Rightarrow> es | None \<Rightarrow> [])) (\<lambda>xs.
     Inr (map (\<lambda>(model, c, p). (model, c)) xs, map (\<lambda>(model, c, p). (model, p)) xs))"

section \<open>Fields that wait for a review\<close>

text \<open>
  A field that the merged record declares never waits for a review, whether this request named it
  or it was inherited from a declaration made for another configuration.
\<close>

lemma declared_fields_lose_their_review:
  assumes "(n, declared, field) \<in> set capability_fields" "declared c"
  shows "n \<notin> set (fields_to_review c p stale before)"
proof -
  have "n \<in> fst ` set (filter (\<lambda>f. fst (snd f) c \<or> present p (snd (snd f)) \<or> fst (snd f) c) capability_fields)"
    using assms by force
  then show ?thesis by (auto simp: fields_to_review_def Let_def split_beta)
qed

lemma resolved_tokens_fit:
  assumes "resolved_model_capabilities md model = Inr c"
  shows "xc_max_input_tokens c + xc_max_output_tokens c \<le> xc_context_window_tokens c"
  using assms
  by (auto simp: resolved_model_capabilities_def UNKNOWN_INPUT_TOKENS_def UNKNOWN_CONTEXT_WINDOW_TOKENS_def
      UNKNOWN_MAX_OUTPUT_TOKENS_def Let_def split: if_splits)

end
