(* ===== verification/Endpoint.thy ===== *)
theory Endpoint imports Stream_Parser begin

text \<open>
  Where a request to a provider may go (\<open>providers/src/adapter.rs\<close>, the profiles of \<open>types.rs\<close>): the
  base URL of a profile, the opt-in to private networks, and the addresses a name may resolve to.
  The parsers of URLs and of IP literals are parameters; a segment of an address keeps its width.
\<close>

section \<open>Profiles\<close>

datatype provider_kind = DeepSeek | Qwen | SiliconFlow | VolcengineArk | CustomProvider

datatype reasoning_effort = EffortLow | EffortMedium | EffortHigh | EffortMax

record provider_capabilities =
  pcap_chat :: bool
  pcap_streaming :: bool
  pcap_custom_model_id :: bool
  pcap_custom_base_url :: bool
  pcap_reasoning :: bool

record provider_options =
  po_thinking :: "bool option"
  po_enable_thinking :: "bool option"
  po_thinking_budget :: "nat option"
  po_reasoning_effort :: "reasoning_effort option"
  po_endpoint_id :: "string option"
  po_workspace_id :: "string option"
  po_allow_private_network :: "bool option"

record provider_profile =
  pf_id :: string
  pf_display_name :: string
  pf_kind :: provider_kind
  pf_model_id :: string
  pf_base_url :: string
  pf_credential_account_id :: string
  pf_capabilities :: provider_capabilities
  pf_options :: provider_options

fun kind_name :: "provider_kind \<Rightarrow> string" where
  "kind_name DeepSeek = ''DeepSeek''"
| "kind_name Qwen = ''Qwen''"
| "kind_name SiliconFlow = ''SiliconFlow''"
| "kind_name VolcengineArk = ''VolcengineArk''"
| "kind_name CustomProvider = ''Custom''"

fun default_base_url :: "provider_kind \<Rightarrow> string" where
  "default_base_url DeepSeek = ''https://api.deepseek.com''"
| "default_base_url Qwen = ''https://dashscope.aliyuncs.com/compatible-mode/v1''"
| "default_base_url SiliconFlow = ''https://api.siliconflow.cn/v1''"
| "default_base_url VolcengineArk = ''https://ark.cn-beijing.volces.com/api/v3''"
| "default_base_url CustomProvider = []"

fun default_model_id :: "provider_kind \<Rightarrow> string" where
  "default_model_id DeepSeek = ''deepseek-v4-flash''"
| "default_model_id Qwen = ''qwen-plus''"
| "default_model_id SiliconFlow = ''deepseek-ai/DeepSeek-V3.2''"
| "default_model_id VolcengineArk = ''doubao-seed-2-0-lite-260215''"
| "default_model_id CustomProvider = []"

definition no_options :: provider_options where
  "no_options = \<lparr>po_thinking = None, po_enable_thinking = None, po_thinking_budget = None,
     po_reasoning_effort = None, po_endpoint_id = None, po_workspace_id = None,
     po_allow_private_network = None\<rparr>"

fun default_options :: "provider_kind \<Rightarrow> provider_options" where
  "default_options DeepSeek = no_options\<lparr>po_thinking := Some False\<rparr>"
| "default_options VolcengineArk = no_options\<lparr>po_thinking := Some False\<rparr>"
| "default_options Qwen = no_options\<lparr>po_enable_thinking := Some False\<rparr>"
| "default_options SiliconFlow = no_options\<lparr>po_enable_thinking := Some False\<rparr>"
| "default_options CustomProvider = no_options"

definition or_else :: "'a option \<Rightarrow> 'a option \<Rightarrow> 'a option" where
  "or_else x y = (case x of Some a \<Rightarrow> Some a | None \<Rightarrow> y)"

definition options_with_defaults :: "provider_kind \<Rightarrow> provider_options \<Rightarrow> provider_options" where
  "options_with_defaults k opts = opts\<lparr>po_thinking := or_else (po_thinking opts) (po_thinking (default_options k)),
     po_enable_thinking := or_else (po_enable_thinking opts) (po_enable_thinking (default_options k))\<rparr>"

definition chat_defaults :: provider_capabilities where
  "chat_defaults = \<lparr>pcap_chat = True, pcap_streaming = True, pcap_custom_model_id = True,
     pcap_custom_base_url = True, pcap_reasoning = True\<rparr>"

definition new_default :: "string \<Rightarrow> provider_kind \<Rightarrow> provider_profile" where
  "new_default i k = \<lparr>pf_id = i, pf_display_name = kind_name k, pf_kind = k, pf_model_id = default_model_id k,
     pf_base_url = default_base_url k, pf_credential_account_id = ''default'',
     pf_capabilities = (if k = CustomProvider then chat_defaults\<lparr>pcap_reasoning := False\<rparr> else chat_defaults),
     pf_options = default_options k\<rparr>"

definition non_empty :: "string option \<Rightarrow> string option" where
  "non_empty x = (case x of Some v \<Rightarrow> if str_trim v \<noteq> [] then Some (str_trim v) else None | None \<Rightarrow> None)"

definition effective_model_id :: "provider_profile \<Rightarrow> string" where
  "effective_model_id p =
     (if pf_kind p = VolcengineArk
      then (case non_empty (po_endpoint_id (pf_options p)) of Some e \<Rightarrow> e | None \<Rightarrow> pf_model_id p)
      else pf_model_id p)"

section \<open>Addresses\<close>

datatype ip =
    V4 "8 word" "8 word" "8 word" "8 word"
  | V6 "16 word" "16 word" "16 word" "16 word" "16 word" "16 word" "16 word" "16 word"

text \<open>The tests of the standard library that \<open>is\_private\_ipv4\<close> calls.\<close>

definition std_is_private :: "8 word \<Rightarrow> 8 word \<Rightarrow> bool" where
  "std_is_private a b \<longleftrightarrow> a = 10 \<or> (a = 172 \<and> 16 \<le> b \<and> b \<le> 31) \<or> (a = 192 \<and> b = 168)"

definition is_private_ipv4 :: "8 word \<Rightarrow> 8 word \<Rightarrow> 8 word \<Rightarrow> 8 word \<Rightarrow> bool" where
  "is_private_ipv4 a b c d \<longleftrightarrow>
     std_is_private a b
     \<or> a = 127
     \<or> (a = 169 \<and> b = 254)
     \<or> (a = 0 \<and> b = 0 \<and> c = 0 \<and> d = 0)
     \<or> (a = 255 \<and> b = 255 \<and> c = 255 \<and> d = 255)
     \<or> a = 0
     \<or> (a = 100 \<and> 64 \<le> b \<and> b \<le> 127)
     \<or> (a = 192 \<and> b = 0)
     \<or> (a = 192 \<and> b = 88 \<and> c = 99)
     \<or> (a = 198 \<and> (b = 18 \<or> b = 19))
     \<or> (a = 198 \<and> b = 51 \<and> c = 100)
     \<or> (a = 203 \<and> b = 0 \<and> c = 113)
     \<or> 224 \<le> a"

unbundle bit_operations_syntax

definition is_private_ipv6 :: "16 word \<Rightarrow> 16 word \<Rightarrow> bool" where
  "is_private_ipv6 s0 s1 \<longleftrightarrow>
     (let outside_global_unicast = (s0 AND 0xE000 \<noteq> 0x2000) in
      outside_global_unicast
      \<or> (s0 = 0x2001 \<and> s1 \<le> 0x01FF)
      \<or> (s0 = 0x2001 \<and> s1 = 0x0DB8)
      \<or> s0 = 0x2002
      \<or> (s0 = 0x3FFF \<and> s1 AND 0xF000 = 0))"

fun is_private_ip :: "ip \<Rightarrow> bool" where
  "is_private_ip (V4 a b c d) = is_private_ipv4 a b c d"
| "is_private_ip (V6 s0 s1 s2 s3 s4 s5 s6 s7) = is_private_ipv6 s0 s1"

definition strip_brackets :: "string \<Rightarrow> string" where
  "strip_brackets host = (case Option.bind (strip_prefix host ''['') (\<lambda>v. strip_suffix v '']'') of
     Some v \<Rightarrow> v | None \<Rightarrow> host)"

definition trim_end_char :: "char \<Rightarrow> string \<Rightarrow> string" where
  "trim_end_char c s = rev (dropWhile (\<lambda>x. x = c) (rev s))"

definition is_private_provider_host :: "(string \<Rightarrow> ip option) \<Rightarrow> string \<Rightarrow> bool" where
  "is_private_provider_host parse_ip host =
     (let host = trim_end_char (CHR ''.'') (strip_brackets host) in
      if host = ''localhost'' \<or> suffix ''.localhost'' host then True
      else case parse_ip host of Some a \<Rightarrow> is_private_ip a | None \<Rightarrow> False)"

text \<open>\<open>true\<close> stands for the rejection with \<open>PermissionDenied\<close>, an empty answer is \<open>NotFound\<close>.\<close>

definition validate_resolved_addresses :: "ip list \<Rightarrow> bool \<Rightarrow> bool + unit" where
  "validate_resolved_addresses addresses allow_private_network =
     (if addresses = [] then Inl False
      else if \<not> allow_private_network \<and> list_ex is_private_ip addresses then Inl True
      else Inr ())"

section \<open>The base URL of a profile\<close>

record url =
  u_scheme :: string
  u_username :: string
  u_password :: "string option"
  u_query :: "string option"
  u_fragment :: "string option"
  u_host :: "string option"
  u_origin :: string

definition private_network_is_explicitly_allowed :: "provider_profile \<Rightarrow> bool" where
  "private_network_is_explicitly_allowed p \<longleftrightarrow>
     pf_kind p = CustomProvider \<and> po_allow_private_network (pf_options p) = Some True"

definition literal_loopback_http_is_explicitly_allowed :: "(string \<Rightarrow> ip option) \<Rightarrow> provider_profile \<Rightarrow> url \<Rightarrow> bool" where
  "literal_loopback_http_is_explicitly_allowed parse_ip p u \<longleftrightarrow>
     pf_kind p = CustomProvider \<and> private_network_is_explicitly_allowed p
     \<and> (case u_host u of None \<Rightarrow> False
        | Some host \<Rightarrow> (case parse_ip (strip_brackets host) of
            None \<Rightarrow> False
          | Some (V4 a b c d) \<Rightarrow> a = 127 \<and> b = 0 \<and> c = 0 \<and> d = 1
          | Some (V6 s0 s1 s2 s3 s4 s5 s6 s7) \<Rightarrow>
              s0 = 0 \<and> s1 = 0 \<and> s2 = 0 \<and> s3 = 0 \<and> s4 = 0 \<and> s5 = 0 \<and> s6 = 0 \<and> s7 = 1))"

fun replace_all :: "nat \<Rightarrow> string \<Rightarrow> string \<Rightarrow> string \<Rightarrow> string" where
  "replace_all k p w [] = []"
| "replace_all k p w (c # t) =
     (if k > 0 then replace_all (k - 1) p w t
      else if prefix p (c # t) then w @ replace_all (length p - 1) p w t
      else c # replace_all 0 p w t)"

definition str_replace :: "string \<Rightarrow> string \<Rightarrow> string \<Rightarrow> string" where
  "str_replace s p w = replace_all 0 p w s"

definition resolve_base_url :: "provider_profile \<Rightarrow> provider_error + string" where
  "resolve_base_url p = (case non_empty (po_workspace_id (pf_options p)) of
     None \<Rightarrow> Inr (pf_base_url p)
   | Some workspace_id \<Rightarrow>
       if pf_kind p \<noteq> Qwen \<or> (\<not> contains_str (pf_base_url p) ''{workspace_id}''
           \<and> \<not> contains_str (pf_base_url p) ''{workspaceId}'' \<and> \<not> contains_str (pf_base_url p) ''{WorkspaceId}'')
       then Inr (pf_base_url p)
       else if \<not> list_all (\<lambda>c. is_ascii_alnum c \<or> c = CHR ''-'' \<or> c = CHR ''_'') workspace_id
       then Inl (new_provider_error InvalidProfile)
       else Inr (str_replace (str_replace (str_replace (pf_base_url p) ''{workspace_id}'' workspace_id)
         ''{workspaceId}'' workspace_id) ''{WorkspaceId}'' workspace_id))"

definition parsed_provider_base_url :: "(string \<Rightarrow> url option) \<Rightarrow> (string \<Rightarrow> ip option) \<Rightarrow> provider_profile
    \<Rightarrow> provider_error + string \<times> url" where
  "parsed_provider_base_url parse_url parse_ip p =
     and_then (resolve_base_url p) (\<lambda>base.
     let trimmed = trim_end_char (CHR ''/'') (str_trim base); bad = new_provider_error InvalidProfile in
     and_then (ok_or (parse_url trimmed) bad) (\<lambda>u.
     and_then (ensure (u_username u = [] \<and> u_password u = None \<and> u_query u = None \<and> u_fragment u = None) bad) (\<lambda>_.
     and_then (ensure (u_scheme u = ''https''
       \<or> (u_scheme u = ''http'' \<and> literal_loopback_http_is_explicitly_allowed parse_ip p u)) bad) (\<lambda>_.
     and_then (ensure (\<not> ((case u_host u of None \<Rightarrow> False
         | Some h \<Rightarrow> is_private_provider_host parse_ip (ascii_lower h))
       \<and> \<not> private_network_is_explicitly_allowed p)) bad) (\<lambda>_.
       Inr (trimmed, u))))))"

definition chat_completions_url :: "(string \<Rightarrow> url option) \<Rightarrow> (string \<Rightarrow> ip option) \<Rightarrow> provider_profile
    \<Rightarrow> provider_error + string" where
  "chat_completions_url parse_url parse_ip p = and_then (parsed_provider_base_url parse_url parse_ip p) (\<lambda>(trimmed, _).
     Inr (if suffix ''/chat/completions'' trimmed then trimmed else trimmed @ ''/chat/completions''))"

definition provider_endpoint_origin :: "(string \<Rightarrow> url option) \<Rightarrow> (string \<Rightarrow> ip option) \<Rightarrow> provider_profile
    \<Rightarrow> provider_error + string" where
  "provider_endpoint_origin parse_url parse_ip p =
     and_then (parsed_provider_base_url parse_url parse_ip p) (\<lambda>(_, u). Inr (u_origin u))"

section \<open>Private addresses are the special blocks\<close>

text \<open>
  The reference: the blocks of the special-purpose registries as prefixes. An IPv6 address is
  public inside \<open>2000::/3\<close> and outside the blocks reserved there, all of which its first 32 bits
  decide.
\<close>

definition in_block :: "nat \<Rightarrow> nat \<times> nat \<Rightarrow> bool" where
  "in_block n block = (case block of (base, len) \<Rightarrow> n div 2 ^ (32 - len) = base div 2 ^ (32 - len))"

definition quad :: "nat \<Rightarrow> nat \<Rightarrow> nat \<Rightarrow> nat \<Rightarrow> nat" where
  "quad a b c d = ((a * 256 + b) * 256 + c) * 256 + d"

definition special_v4 :: "(nat \<times> nat) list" where
  "special_v4 = [(quad 0 0 0 0, 8), (quad 10 0 0 0, 8), (quad 100 64 0 0, 10), (quad 127 0 0 0, 8),
     (quad 169 254 0 0, 16), (quad 172 16 0 0, 12), (quad 192 0 0 0, 16), (quad 192 88 99 0, 24),
     (quad 192 168 0 0, 16), (quad 198 18 0 0, 15), (quad 198 51 100 0, 24), (quad 203 0 113 0, 24),
     (quad 224 0 0 0, 3)]"

definition special_v6 :: "(nat \<times> nat) list" where
  "special_v6 = [(0x20010000, 23), (0x20010DB8, 32), (0x20020000, 16), (0x3FFF0000, 20)]"

fun public_address :: "ip \<Rightarrow> bool" where
  "public_address (V4 a b c d) \<longleftrightarrow>
     \<not> list_ex (in_block (quad (unat a) (unat b) (unat c) (unat d))) special_v4"
| "public_address (V6 s0 s1 s2 s3 s4 s5 s6 s7) \<longleftrightarrow>
     in_block (unat s0 * 65536 + unat s1) (0x20000000, 3)
     \<and> \<not> list_ex (in_block (unat s0 * 65536 + unat s1)) special_v6"

lemma octet: "unat (a :: 8 word) < 256"
  using unsigned_less[of a, where 'a = nat] by simp

lemma quad_prefix:
  assumes "b < 256" "c < 256" "d < 256"
  shows "quad a b c d div 2 ^ 8 = (a * 256 + b) * 256 + c" "quad a b c d div 2 ^ 16 = a * 256 + b"
    "quad a b c d div 2 ^ 17 = a * 128 + b div 2" "quad a b c d div 2 ^ 20 = a * 16 + b div 16"
    "quad a b c d div 2 ^ 22 = a * 4 + b div 64" "quad a b c d div 2 ^ 24 = a"
    "quad a b c d div 2 ^ 29 = a div 32"
proof -
  show q8: "quad a b c d div 2 ^ 8 = (a * 256 + b) * 256 + c" using assms(3) by (simp add: quad_def)
  have inner: "((a * 256 + b) * 256 + c) div 2 ^ 8 = a * 256 + b" using assms(2) by simp
  have split2: "quad a b c d div 2 ^ (16 + k) = (a * 256 + b) div 2 ^ k" for k
  proof -
    have "(2 :: nat) ^ (16 + k) = 2 ^ 8 * 2 ^ 8 * 2 ^ k" by (simp add: power_add)
    then show ?thesis by (simp only: div_mult2_eq q8 inner)
  qed
  show "quad a b c d div 2 ^ 16 = a * 256 + b" using split2[of 0] by simp
  show "quad a b c d div 2 ^ 17 = a * 128 + b div 2" using split2[of 1] by simp
  show "quad a b c d div 2 ^ 20 = a * 16 + b div 16" using split2[of 4] by simp
  show "quad a b c d div 2 ^ 22 = a * 4 + b div 64" using split2[of 6] by simp
  show "quad a b c d div 2 ^ 24 = a" using split2[of 8] assms(1) by simp
  show "quad a b c d div 2 ^ 29 = a div 32" using split2[of 13] assms(1) by simp
qed

lemma pair_eq:
  fixes a b x y k :: nat
  assumes "b < k" and "y < k"
  shows "a * k + b = x * k + y \<longleftrightarrow> a = x \<and> b = y"
  using assms by (metis add.commute add_diff_cancel_left' div_mult_self3 div_less add_0 not_less0)

lemma private_v4_nat:
  fixes a b c d :: nat
  assumes "a < 256" "b < 256" "c < 256" "d < 256"
  shows "list_ex (in_block (quad a b c d)) special_v4 \<longleftrightarrow>
    a = 0 \<or> a = 10 \<or> (a = 100 \<and> 64 \<le> b \<and> b \<le> 127) \<or> a = 127 \<or> (a = 169 \<and> b = 254)
    \<or> (a = 172 \<and> 16 \<le> b \<and> b \<le> 31) \<or> (a = 192 \<and> b = 0) \<or> (a = 192 \<and> b = 88 \<and> c = 99)
    \<or> (a = 192 \<and> b = 168) \<or> (a = 198 \<and> (b = 18 \<or> b = 19)) \<or> (a = 198 \<and> b = 51 \<and> c = 100)
    \<or> (a = 203 \<and> b = 0 \<and> c = 113) \<or> 224 \<le> a"
proof -
  note q = quad_prefix[OF assms(2-4)]
  have "in_block (quad a b c d) (quad 100 64 0 0, 10) \<longleftrightarrow> a * 4 + b div 64 = 100 * 4 + 1"
    using q(5) quad_prefix(5)[of 64 0 0 100] by (simp add: in_block_def)
  moreover have "b div 64 < 4" "b div 64 = 1 \<longleftrightarrow> 64 \<le> b \<and> b \<le> 127" using assms(2) by linarith+
  ultimately have b10: "in_block (quad a b c d) (quad 100 64 0 0, 10) \<longleftrightarrow> a = 100 \<and> 64 \<le> b \<and> b \<le> 127"
    using pair_eq[of "b div 64" 4 1 a 100] by simp
  have "in_block (quad a b c d) (quad 172 16 0 0, 12) \<longleftrightarrow> a * 16 + b div 16 = 172 * 16 + 1"
    using q(4) quad_prefix(4)[of 16 0 0 172] by (simp add: in_block_def)
  moreover have "b div 16 < 16" "b div 16 = 1 \<longleftrightarrow> 16 \<le> b \<and> b \<le> 31" using assms(2) by linarith+
  ultimately have b12: "in_block (quad a b c d) (quad 172 16 0 0, 12) \<longleftrightarrow> a = 172 \<and> 16 \<le> b \<and> b \<le> 31"
    using pair_eq[of "b div 16" 16 1 a 172] by simp
  have "in_block (quad a b c d) (quad 198 18 0 0, 15) \<longleftrightarrow> a * 128 + b div 2 = 198 * 128 + 9"
    using q(3) quad_prefix(3)[of 18 0 0 198] by (simp add: in_block_def)
  moreover have "b div 2 < 128" "b div 2 = 9 \<longleftrightarrow> b = 18 \<or> b = 19" using assms(2) by linarith+
  ultimately have b15: "in_block (quad a b c d) (quad 198 18 0 0, 15) \<longleftrightarrow> a = 198 \<and> (b = 18 \<or> b = 19)"
    using pair_eq[of "b div 2" 128 9 a 198] by simp
  have "in_block (quad a b c d) (quad 224 0 0 0, 3) \<longleftrightarrow> a div 32 = 7"
    using q(7) quad_prefix(7)[of 0 0 0 224] by (simp add: in_block_def)
  moreover have "a div 32 = 7 \<longleftrightarrow> 224 \<le> a" using assms(1) by linarith
  ultimately have b3: "in_block (quad a b c d) (quad 224 0 0 0, 3) \<longleftrightarrow> 224 \<le> a" by simp
  have b8: "in_block (quad a b c d) (quad x 0 0 0, 8) \<longleftrightarrow> a = x" for x
    using q(6) quad_prefix(6)[of 0 0 0 x] by (simp add: in_block_def)
  have b16: "in_block (quad a b c d) (quad x y 0 0, 16) \<longleftrightarrow> a = x \<and> b = y" if "y < 256" for x y
    using q(2) quad_prefix(2)[of y 0 0 x] that assms pair_eq[of b 256 y a x] by (simp add: in_block_def)
  have b24: "in_block (quad a b c d) (quad x y z 0, 24) \<longleftrightarrow> a = x \<and> b = y \<and> c = z" if "y < 256" "z < 256" for x y z
    using q(1) that assms pair_eq[of c 256 z "a * 256 + b" "x * 256 + y"] pair_eq[of b 256 y a x]
    quad_prefix(1)[of y z 0 x] by (simp add: in_block_def)
  show ?thesis unfolding special_v4_def by (simp add: b10 b12 b15 b3 b8 b16 b24)
qed

lemma private_v4: "is_private_ipv4 a b c d \<longleftrightarrow> \<not> public_address (V4 a b c d)"
  unfolding public_address.simps private_v4_nat[OF octet octet octet octet] is_private_ipv4_def std_is_private_def
  by (simp add: word_le_nat_alt word_unat_eq_iff) (rule iffI; elim disjE conjE; simp)

lemma segment: "unat (s :: 16 word) < 65536"
  using unsigned_less[of s, where 'a = nat] by simp

lemma segment_prefix:
  fixes s0 s1 :: nat
  assumes "s1 < 65536"
  shows "(s0 * 65536 + s1) div 2 ^ 29 = s0 div 2 ^ 13" "(s0 * 65536 + s1) div 2 ^ 16 = s0"
    "(s0 * 65536 + s1) div 2 ^ 12 = s0 * 16 + s1 div 2 ^ 12" "(s0 * 65536 + s1) div 2 ^ 9 = s0 * 128 + s1 div 2 ^ 9"
proof -
  have inner: "(s0 * 65536 + s1) div 2 ^ 16 = s0" using assms by simp
  have "(2 :: nat) ^ 29 = 2 ^ 16 * 2 ^ 13" by simp
  then show "(s0 * 65536 + s1) div 2 ^ 29 = s0 div 2 ^ 13" by (simp only: div_mult2_eq inner)
  show "(s0 * 65536 + s1) div 2 ^ 16 = s0" by (rule inner)
qed simp_all

lemma high_part: "s AND NOT (mask n) = push_bit n (drop_bit n s)" for s :: "16 word"
  by (rule bit_word_eqI) (auto simp: bit_simps)
lemma high_drop: "drop_bit n (s AND NOT (mask n)) = drop_bit n s" for s :: "16 word"
  by (rule bit_word_eqI) (auto simp: bit_simps dest: bit_imp_le_length)
lemma unat_drop_segment: "unat (drop_bit n s) = unat s div 2 ^ n" for s :: "16 word"
  using unat_drop_bit_eq[of n s] by (simp only: drop_bit_eq_div[of n "unat s"])
lemma segment_masks: "(0xE000 :: 16 word) = NOT (mask 13)" "(0xF000 :: 16 word) = NOT (mask 12)"
  by (simp_all add: mask_eq_exp_minus_1)
lemma top_three: "s AND 0xE000 = 0x2000 \<longleftrightarrow> unat s div 2 ^ 13 = 1" for s :: "16 word"
proof
  assume "s AND 0xE000 = 0x2000"
  then have "drop_bit 13 s = drop_bit 13 0x2000" using high_drop[of 13 s] by (simp only: segment_masks)
  then have "drop_bit 13 s = 1" by simp
  then show "unat s div 2 ^ 13 = 1" using unat_drop_segment[of 13 s] by simp
next
  assume "unat s div 2 ^ 13 = 1"
  then have "unat (drop_bit 13 s) = 1" using unat_drop_segment[of 13 s] by simp
  then have "drop_bit 13 s = 1" by (simp add: word_unat_eq_iff)
  then show "s AND 0xE000 = 0x2000" using high_part[of s 13] by (simp add: segment_masks)
qed
lemma top_four: "s AND 0xF000 = 0 \<longleftrightarrow> unat s div 2 ^ 12 = 0" for s :: "16 word"
proof
  assume "s AND 0xF000 = 0"
  then have "drop_bit 12 s = 0" using high_drop[of 12 s] by (simp only: segment_masks drop_bit_of_0)
  then show "unat s div 2 ^ 12 = 0" using unat_drop_segment[of 12 s] by simp
next
  assume "unat s div 2 ^ 12 = 0"
  then have "unat (drop_bit 12 s) = 0" using unat_drop_segment[of 12 s] by simp
  then have "drop_bit 12 s = 0" by (simp add: unat_eq_0)
  then show "s AND 0xF000 = 0" using high_part[of s 12] by (simp add: segment_masks)
qed

lemma private_v6: "is_private_ipv6 s0 s1 \<longleftrightarrow> \<not> public_address (V6 s0 s1 s2 s3 s4 s5 s6 s7)"
proof -
  note p = segment_prefix[OF segment[of s1], of "unat s0"]
  let ?n = "unat s0 * 65536 + unat s1"
  have global: "in_block ?n (0x20000000, 3) \<longleftrightarrow> s0 AND 0xE000 = 0x2000"
    using p(1) by (simp add: in_block_def top_three)
  have b23: "in_block ?n (0x20010000, 23) \<longleftrightarrow> s0 = 0x2001 \<and> s1 \<le> 0x01FF"
  proof -
    have "in_block ?n (0x20010000, 23) \<longleftrightarrow> unat s0 * 128 + unat s1 div 512 = 0x2001 * 128 + 0"
      using p(4) by (simp add: in_block_def)
    also have "\<dots> \<longleftrightarrow> unat s0 = 0x2001 \<and> unat s1 div 512 = 0"
      by (rule pair_eq) (use segment[of s1] in linarith)+
    finally show ?thesis by (simp add: word_unat_eq_iff word_le_nat_alt) linarith
  qed
  have b32: "in_block ?n (0x20010DB8, 32) \<longleftrightarrow> s0 = 0x2001 \<and> s1 = 0x0DB8"
    using pair_eq[of "unat s1" 65536 "0x0DB8" "unat s0" "0x2001"] segment[of s1]
    by (simp add: in_block_def word_unat_eq_iff)
  have b16: "in_block ?n (0x20020000, 16) \<longleftrightarrow> s0 = 0x2002"
    using p(2) by (simp add: in_block_def word_unat_eq_iff)
  have b20: "in_block ?n (0x3FFF0000, 20) \<longleftrightarrow> s0 = 0x3FFF \<and> s1 AND 0xF000 = 0"
  proof -
    have "in_block ?n (0x3FFF0000, 20) \<longleftrightarrow> unat s0 * 16 + unat s1 div 2 ^ 12 = 0x3FFF * 16 + 0"
      using p(3) by (simp add: in_block_def)
    also have "\<dots> \<longleftrightarrow> unat s0 = 0x3FFF \<and> unat s1 div 2 ^ 12 = 0"
      by (rule pair_eq) (use segment[of s1] in simp_all)
    finally show ?thesis by (simp only: top_four) (simp add: word_unat_eq_iff)
  qed
  show ?thesis unfolding public_address.simps special_v6_def is_private_ipv6_def
    by (simp add: global b23 b32 b16 b20)
qed

lemma private_is_not_public: "is_private_ip a \<longleftrightarrow> \<not> public_address a"
proof (cases a)
  case (V4 a b c d)
  then show ?thesis by (simp only: is_private_ip.simps private_v4)
next
  case (V6 s0 s1 s2 s3 s4 s5 s6 s7)
  then show ?thesis using private_v6[of s0 s1 s2 s3 s4 s5 s6 s7] by (simp only: is_private_ip.simps)
qed

section \<open>Properties\<close>

text \<open>
  C28: A provider that is not explicitly allowed into private networks is reached on the public
  internet only. If its base URL is accepted, it is an HTTPS URL without credentials, query or
  fragment, its host is no local name, an address literal there is public, and every address its
  name resolves to when the request is sent is public, where public means outside every block of
  the special-purpose registries.
\<close>

theorem requests_stay_on_the_public_internet:
  assumes "parsed_provider_base_url parse_url parse_ip p = Inr (base, u)"
    and "\<not> private_network_is_explicitly_allowed p"
  shows "u_scheme u = ''https'' \<and> u_username u = [] \<and> u_password u = None \<and> u_query u = None \<and> u_fragment u = None
    \<and> (\<forall>h. u_host u = Some h \<longrightarrow>
        (let host = trim_end_char (CHR ''.'') (strip_brackets (ascii_lower h)) in
         host \<noteq> ''localhost'' \<and> \<not> suffix ''.localhost'' host
         \<and> (\<forall>a. parse_ip host = Some a \<longrightarrow> public_address a)))
    \<and> (\<forall>addresses. validate_resolved_addresses addresses False = Inr () \<longrightarrow>
        addresses \<noteq> [] \<and> list_all public_address addresses)"
proof -
  have u: "u_username u = [] \<and> u_password u = None \<and> u_query u = None \<and> u_fragment u = None"
    and scheme: "u_scheme u = ''https'' \<or> literal_loopback_http_is_explicitly_allowed parse_ip p u"
    and host: "\<not> (case u_host u of None \<Rightarrow> False | Some h \<Rightarrow> is_private_provider_host parse_ip (ascii_lower h))"
    using assms by (auto simp: parsed_provider_base_url_def Let_def split: option.splits)
  have "u_scheme u = ''https''"
    using scheme assms(2) by (simp add: literal_loopback_http_is_explicitly_allowed_def)
  moreover have "let host = trim_end_char (CHR ''.'') (strip_brackets (ascii_lower h)) in
      host \<noteq> ''localhost'' \<and> \<not> suffix ''.localhost'' host \<and> (\<forall>a. parse_ip host = Some a \<longrightarrow> public_address a)"
    if "u_host u = Some h" for h
    using host that by (auto simp: is_private_provider_host_def Let_def private_is_not_public split: if_splits option.splits)
  moreover have "addresses \<noteq> [] \<and> list_all public_address addresses"
    if "validate_resolved_addresses addresses False = Inr ()" for addresses
    using that by (auto simp: validate_resolved_addresses_def list_ex_iff list_all_iff private_is_not_public split: if_splits)
  ultimately show ?thesis using u by blast
qed

definition sample_url :: url where
  "sample_url = \<lparr>u_scheme = ''https'', u_username = [], u_password = None, u_query = None, u_fragment = None,
     u_host = Some ''example.com'', u_origin = ''https://example.com''\<rparr>"

definition sample_profile :: provider_profile where
  "sample_profile = (new_default ''p'' CustomProvider)\<lparr>pf_base_url := ''https://example.com/v1''\<rparr>"

theorem requests_stay_on_the_public_internet_witness:
  "(\<exists>base. parsed_provider_base_url (\<lambda>_. Some sample_url) (\<lambda>_. None) sample_profile = Inr (base, sample_url))
   \<and> u_scheme sample_url = ''https''
   \<and> public_address (V4 93 184 216 34)
   \<and> validate_resolved_addresses [V4 93 184 216 34] False = Inr ()
   \<and> validate_resolved_addresses [V4 10 0 0 1] False = Inl True"
proof -
  have parsed: "parsed_provider_base_url (\<lambda>_. Some sample_url) (\<lambda>_. None) sample_profile
      = Inr (trim_end_char (CHR ''/'') (str_trim ''https://example.com/v1''), sample_url)"
    by (simp add: parsed_provider_base_url_def resolve_base_url_def non_empty_def sample_profile_def new_default_def
      no_options_def sample_url_def is_private_provider_host_def trim_end_char_def strip_brackets_def strip_prefix_def
      strip_suffix_def ascii_lower_def is_ascii_upper_def suffix_def Let_def private_network_is_explicitly_allowed_def)
  have closed: "\<not> private_network_is_explicitly_allowed sample_profile"
    by (simp add: sample_profile_def new_default_def no_options_def private_network_is_explicitly_allowed_def)
  have dns: "validate_resolved_addresses [V4 93 184 216 34] False = Inr ()"
    "validate_resolved_addresses [V4 10 0 0 1] False = Inl True"
    by (simp_all add: validate_resolved_addresses_def is_private_ipv4_def std_is_private_def word_le_nat_alt)
  show ?thesis using requests_stay_on_the_public_internet[OF parsed closed] parsed dns by auto
qed

end
