(* ===== verification/Ai_Provider.thy ===== *)
theory Ai_Provider imports Ai_Config Endpoint begin

text \<open>
  AI providers as the service keeps them (\<open>workspace-service/src/provider.rs\<close>, \<open>ai\_provider.rs\<close>):
  their configuration and declarations in the store, their keys in the credential store of the
  platform, and a request that goes out with both. The two stores share no transaction; a durable
  block of the provider stands between them. The state is the decoded content of both with the
  clock, the cancellation tokens and the outcomes of the environment: every access to a store
  takes one, and an access to the credential store may also take effect and still report a failure.
\<close>

section \<open>State\<close>

record dispatch =
  dp_id :: string
  dp_purpose :: string
  dp_binding :: string
  dp_provider_id :: string
  dp_model :: string
  dp_provider_revision :: nat
  dp_status :: string
  dp_created_at :: nat
  dp_usage :: "json option"
  dp_finished_at :: "nat option"
  dp_error_code :: "string option"

record ai_chunk =
  ch_source_binding :: string
  ch_phase :: string
  ch_pass :: string
  ch_start :: nat
  ch_end :: nat
  ch_prompt_fingerprint :: string
  ch_provider_id :: string
  ch_model :: string
  ch_provider_revision :: nat
  ch_findings :: "ai_finding list"
  ch_completed_at :: nat

text \<open>
  What left the machine: the body under a key, with what the store said of the provider at that
  moment and whether the caller's token had fired.
\<close>

record sent =
  se_provider_id :: string
  se_secret :: string
  se_body :: json
  se_purpose :: string
  se_trusted :: bool
  se_cancelled :: bool

datatype outcome = Passes | Fails error | Applied error | Alters "string option"

record ai_ws =
  v_configs :: "(string, provider_config) omap"
  v_metadata :: "(string, ai_metadata) omap"
  v_declarations :: "(string, (string, capability_declaration) omap) omap"
  v_defaults :: "(string, ai_selection) omap option"
  v_blocked :: "(string, bool) omap"
  v_dispatches :: "(string, dispatch) omap"
  v_chunks :: "(string, ai_chunk) omap"
  v_vault :: "(string, string) omap"
  v_now :: nat
  v_issued :: nat
  v_tokens :: "nat list"
  v_fired :: "nat list"
  v_poisoned :: bool
  v_outcomes :: "outcome list"
  v_sent :: "sent list"

type_synonym 'a vop = "(ai_ws, error, 'a) op"

text \<open>The service with the parsers and the peer of a request.\<close>

record ai_env =
  ae_service :: service
  ae_parse_url :: "string \<Rightarrow> url option"
  ae_parse_ip :: "string \<Rightarrow> ip option"
  ae_parse_json :: "string \<Rightarrow> json option"
  ae_transport :: "provider_error + unit"
  ae_reply :: "nat \<Rightarrow> provider_error + json"
  ae_gap :: "nat \<Rightarrow> ai_ws \<Rightarrow> ai_ws"

definition ai_outcome :: "outcome vop" where
  "ai_outcome w = (case v_outcomes w of
     [] \<Rightarrow> (Inr Passes, w) | x # xs \<Rightarrow> (Inr x, w\<lparr>v_outcomes := xs\<rparr>))"

definition ai_io :: "unit vop" where
  "ai_io = op_bind ai_outcome (\<lambda>x. case x of Fails e \<Rightarrow> op_fail e | Applied e \<Rightarrow> op_fail e | _ \<Rightarrow> op_return ())"

definition ai_fetch_maybe :: "(ai_ws \<Rightarrow> (string, 'a) omap) \<Rightarrow> string \<Rightarrow> 'a option vop" where
  "ai_fetch_maybe table i = op_bind ai_io (\<lambda>_. op_get (\<lambda>w. om_get (table w) i))"

definition ai_fetch :: "(ai_ws \<Rightarrow> (string, 'a) omap) \<Rightarrow> string \<Rightarrow> 'a vop" where
  "ai_fetch table i = op_bind (ai_fetch_maybe table i) (\<lambda>x. op_lift (ok_or x (error_new ''not_found'')))"

definition ai_require :: "bool \<Rightarrow> error \<Rightarrow> unit vop" where
  "ai_require b e = op_lift (ensure b e)"

datatype ai_row =
    AConfig string provider_config | AMetadata string ai_metadata
  | ADeclarations string "(string, capability_declaration) omap" | ADefaults "(string, ai_selection) omap"
  | ABlocked string bool | ADispatch string dispatch | AChunk string ai_chunk

fun apply_ai_row :: "ai_row \<Rightarrow> ai_ws \<Rightarrow> ai_ws" where
  "apply_ai_row (AConfig i x) w = w\<lparr>v_configs := om_put i x (v_configs w)\<rparr>"
| "apply_ai_row (AMetadata i x) w = w\<lparr>v_metadata := om_put i x (v_metadata w)\<rparr>"
| "apply_ai_row (ADeclarations i x) w = w\<lparr>v_declarations := om_put i x (v_declarations w)\<rparr>"
| "apply_ai_row (ADefaults x) w = w\<lparr>v_defaults := Some x\<rparr>"
| "apply_ai_row (ABlocked i x) w = w\<lparr>v_blocked := om_put i x (v_blocked w)\<rparr>"
| "apply_ai_row (ADispatch i x) w = w\<lparr>v_dispatches := om_put i x (v_dispatches w)\<rparr>"
| "apply_ai_row (AChunk i x) w = w\<lparr>v_chunks := om_put i x (v_chunks w)\<rparr>"

definition ai_encode :: "ai_row \<Rightarrow> ai_row vop" where
  "ai_encode r = op_bind ai_io (\<lambda>_. op_return r)"

definition ai_put_rows :: "ai_row list \<Rightarrow> unit vop" where
  "ai_put_rows rows = op_bind ai_io (\<lambda>_. op_modify (fold apply_ai_row rows))"

definition ai_save :: "ai_row \<Rightarrow> unit vop" where
  "ai_save r = op_bind (ai_encode r) (\<lambda>x. ai_put_rows [x])"

definition ai_lock :: "unit vop" where
  "ai_lock = ai_io"

definition ai_now :: "nat vop" where
  "ai_now = op_get v_now"

definition ai_new_id :: "ai_env \<Rightarrow> string \<Rightarrow> string vop" where
  "ai_new_id E p = op_bind (op_get v_issued) (\<lambda>n. op_bind (op_modify (\<lambda>w. w\<lparr>v_issued := Suc n\<rparr>)) (\<lambda>_.
     op_return (p @ ''_'' @ sv_uuid (ae_service E) n)))"

definition ai_gap :: "ai_env \<Rightarrow> nat \<Rightarrow> unit vop" where
  "ai_gap E k = op_modify (ae_gap E k)"

definition fired :: "nat \<Rightarrow> bool vop" where
  "fired token = op_get (\<lambda>w. token \<in> set (v_fired w))"

section \<open>The credential store\<close>

definition vault_read :: "string \<Rightarrow> string option vop" where
  "vault_read i = op_bind ai_io (\<lambda>_. op_get (\<lambda>w. om_get (v_vault w) i))"

definition vault_store :: "string \<Rightarrow> string option \<Rightarrow> ai_ws \<Rightarrow> ai_ws" where
  "vault_store i key w = (case key of
     Some k \<Rightarrow> w\<lparr>v_vault := om_put i k (v_vault w)\<rparr> | None \<Rightarrow> w\<lparr>v_vault := om_remove i (v_vault w)\<rparr>)"

text \<open>A call of the vault may also report success and leave another value than it was given.\<close>

definition vault_set :: "string \<Rightarrow> string option \<Rightarrow> unit vop" where
  "vault_set i key = op_bind ai_outcome (\<lambda>x. case x of
     Passes \<Rightarrow> op_modify (vault_store i key)
   | Fails e \<Rightarrow> op_fail e
   | Applied e \<Rightarrow> op_bind (op_modify (vault_store i key)) (\<lambda>_. op_fail e)
   | Alters other \<Rightarrow> op_modify (vault_store i other))"

definition write_failed :: error where
  "write_failed = error_new ''credential_write_failed''"

text \<open>Write or delete, then read back: the body of \<open>apply\_\<close> and of \<open>restore\_provider\_credential\<close>.\<close>

definition settle_key :: "string \<Rightarrow> string option \<Rightarrow> unit vop" where
  "settle_key i key =
     op_bind (op_map_err (\<lambda>_. write_failed) (vault_set i key)) (\<lambda>_.
     op_bind (op_map_err (\<lambda>_. write_failed) (vault_read i)) (\<lambda>persisted.
     ai_require (persisted = key) write_failed))"

definition provider_credential_dispatch_blocked :: "string \<Rightarrow> bool vop" where
  "provider_credential_dispatch_blocked i = op_bind (ai_fetch_maybe v_blocked i) (\<lambda>b. op_return (b = Some True))"

definition set_provider_credential_dispatch_blocked :: "string \<Rightarrow> bool \<Rightarrow> unit vop" where
  "set_provider_credential_dispatch_blocked i b = ai_save (ABlocked i b)"

definition api_key :: "string \<Rightarrow> string vop" where
  "api_key i = op_bind (provider_credential_dispatch_blocked i) (\<lambda>blocked.
     op_bind (ai_require (\<not> blocked) write_failed) (\<lambda>_.
     op_bind (op_map_err (\<lambda>_. error_new ''credential_read_failed'') (vault_read i)) (\<lambda>key.
     op_lift (ok_or key (error_new ''api_key_required'')))))"

section \<open>Saving a provider\<close>

record save_provider_request =
  sp_id :: "string option"
  sp_name :: string
  sp_base_url :: string
  sp_model :: string
  sp_api_key :: "string option"
  sp_allow_private_network :: bool

definition profile_of :: "provider_config \<Rightarrow> provider_profile" where
  "profile_of p = (new_default (pc_id p) CustomProvider)\<lparr>pf_display_name := pc_name p, pf_base_url := pc_base_url p,
     pf_model_id := pc_model p, pf_credential_account_id := ''web-v1'',
     pf_options := no_options\<lparr>po_allow_private_network := Some (pc_allow_private_network p)\<rparr>\<rparr>"

definition valid_key :: "string \<Rightarrow> bool" where
  "valid_key key \<longleftrightarrow> length key \<le> 4000 \<and> CHR 0x0D \<notin> set key \<and> CHR 0x0A \<notin> set key"

definition prepare_provider_save :: "ai_env \<Rightarrow> save_provider_request \<Rightarrow> (provider_config \<times> string option) vop" where
  "prepare_provider_save E r =
     op_bind (op_lift (bounded (sp_name r) 120)) (\<lambda>_. op_bind (op_lift (bounded (sp_base_url r) 1000)) (\<lambda>_.
     op_bind (op_lift (bounded (sp_model r) 200)) (\<lambda>_.
     op_bind (case sp_id r of Some i \<Rightarrow> op_return i | None \<Rightarrow> ai_new_id E ''provider'') (\<lambda>i.
     op_bind (op_lift (valid_id i)) (\<lambda>_.
     op_bind (ai_fetch_maybe v_configs i) (\<lambda>previous.
     let config = \<lparr>pc_id = i, pc_name = sp_name r, pc_base_url = sp_base_url r, pc_model = sp_model r,
           pc_allow_private_network = sp_allow_private_network r,
           pc_revision = (case previous of None \<Rightarrow> 1 | Some p \<Rightarrow> pc_revision p + 1)\<rparr> in
     op_bind (op_lift (map_err (\<lambda>_. error_new ''provider_configuration_invalid'')
       (provider_endpoint_origin (ae_parse_url E) (ae_parse_ip E) (profile_of config)))) (\<lambda>_.
     op_bind (ai_require (case sp_api_key r of None \<Rightarrow> True | Some key \<Rightarrow> valid_key key)
       (error_new ''invalid_api_key'')) (\<lambda>_.
     op_return (config, sp_api_key r)))))))))"

text \<open>What the key is to become: an empty key deletes it.\<close>

definition expected_key :: "string \<Rightarrow> string option" where
  "expected_key key = (if key = [] then None else Some key)"

definition cancel_in_flight :: "unit vop" where
  "cancel_in_flight = op_bind (op_get v_poisoned) (\<lambda>p. if p then op_fail (error_new ''workspace_unavailable'')
     else op_modify (\<lambda>w. w\<lparr>v_fired := v_tokens w @ v_fired w\<rparr>))"

text \<open>Compensation after a failure; \<open>e\<close> is what the caller is told when it succeeds.\<close>

definition compensate :: "string \<Rightarrow> string option \<Rightarrow> error \<Rightarrow> unit vop" where
  "compensate i before e =
     op_bind (op_attempt (op_bind (settle_key i before) (\<lambda>_. set_provider_credential_dispatch_blocked i False)))
       (\<lambda>r :: error + unit. op_fail (case r of Inr _ \<Rightarrow> e | Inl _ \<Rightarrow> write_failed))"

definition commit_rows :: "provider_config \<Rightarrow> string option \<Rightarrow> ai_row list \<Rightarrow> unit vop" where
  "commit_rows config requested rows =
     (let i = pc_id config in
      op_bind (ai_encode (AConfig i config)) (\<lambda>first. case requested of
        None \<Rightarrow> ai_put_rows (first # rows)
      | Some key \<Rightarrow>
          op_bind (op_map_err (\<lambda>_. write_failed) (vault_read i)) (\<lambda>before.
          op_bind (ai_encode (ABlocked i False)) (\<lambda>unblock.
          op_bind (set_provider_credential_dispatch_blocked i True) (\<lambda>_.
          op_bind (op_attempt (settle_key i (expected_key key))) (\<lambda>applied. case applied of
            Inl (_ :: error) \<Rightarrow> compensate i before write_failed
          | Inr _ \<Rightarrow> op_bind (op_attempt (ai_put_rows (first # rows @ [unblock]))) (\<lambda>stored. case stored of
              Inl e \<Rightarrow> compensate i before e
            | Inr _ \<Rightarrow> op_return ())))))))"

definition commit_prepared_provider_save :: "provider_config \<times> string option \<Rightarrow> ai_row list \<Rightarrow> unit vop" where
  "commit_prepared_provider_save prepared rows = (case prepared of (config, requested) \<Rightarrow>
     op_bind (commit_rows config requested rows) (\<lambda>_. cancel_in_flight))"

definition save_provider :: "ai_env \<Rightarrow> save_provider_request \<Rightarrow> string vop" where
  "save_provider E r = op_bind ai_lock (\<lambda>_. op_bind (prepare_provider_save E r) (\<lambda>prepared.
     op_bind (commit_prepared_provider_save prepared []) (\<lambda>_. op_return (pc_id (fst prepared)))))"

section \<open>Reading the configuration\<close>

definition unstored_metadata :: "provider_config \<Rightarrow> ai_metadata" where
  "unstored_metadata config =
     \<lparr>md_preset = (case recognized_preset (pc_base_url config) of Some p \<Rightarrow> p | None \<Rightarrow> ''custom''),
      md_enabled_models = [pc_model config], md_trust_raw = (recognized_preset (pc_base_url config) \<noteq> None),
      md_base_url = pc_base_url config, md_model_capabilities = []\<rparr>"

definition metadata_of :: "ai_ws \<Rightarrow> provider_config \<Rightarrow> ai_metadata" where
  "metadata_of w config = (case om_get (v_metadata w) (pc_id config) of
     Some md \<Rightarrow> md | None \<Rightarrow> unstored_metadata config)\<lparr>md_base_url := pc_base_url config\<rparr>"

definition ai_metadata :: "provider_config \<Rightarrow> ai_metadata vop" where
  "ai_metadata config = op_bind ai_io (\<lambda>_. op_get (\<lambda>w. metadata_of w config))"

definition ai_config :: "ai_selection \<Rightarrow> (provider_config \<times> ai_metadata) vop" where
  "ai_config sel = op_bind (ai_fetch v_configs (sel_provider_id sel)) (\<lambda>config.
     op_bind (ai_metadata config) (\<lambda>md.
     op_bind (ai_require (sel_model sel \<in> set (md_enabled_models md)) (error_new ''model_not_enabled'')) (\<lambda>_.
     op_return (config, md))))"

definition ai_provider_is_trusted :: "ai_selection \<Rightarrow> bool vop" where
  "ai_provider_is_trusted sel = op_bind (ai_config sel) (\<lambda>c. op_return (md_trust_raw (snd c)))"

definition ai_model_capabilities :: "ai_selection \<Rightarrow> context_capabilities vop" where
  "ai_model_capabilities sel = op_bind (ai_config sel) (\<lambda>c. op_lift (resolved_model_capabilities (snd c) (sel_model sel)))"

definition ai_defaults :: "(string, ai_selection) omap vop" where
  "ai_defaults = op_bind ai_io (\<lambda>_. op_get (\<lambda>w. case v_defaults w of Some d \<Rightarrow> d | None \<Rightarrow> []))"

definition purposes :: "string list" where
  "purposes = [''chat'', ''redaction'', ''writing'', ''ocr'']"

definition save_ai_defaults :: "(string, ai_selection) omap \<Rightarrow> unit vop" where
  "save_ai_defaults defaults = op_bind ai_lock (\<lambda>_.
     op_bind (op_each (\<lambda>(purpose, sel). op_bind (ai_require (purpose \<in> set purposes) (error_new ''invalid_model_purpose''))
       (\<lambda>_. op_bind (ai_config sel) (\<lambda>_. op_return ()))) defaults) (\<lambda>_.
     ai_save (ADefaults defaults)))"

definition selected_ai_model :: "string \<Rightarrow> ai_selection vop" where
  "selected_ai_model purpose = op_bind ai_defaults (\<lambda>defaults.
     op_bind (op_lift (ok_or (or_else (om_get defaults purpose) (om_get defaults ''chat''))
       (error_new ''ai_model_required''))) (\<lambda>sel.
     op_bind (ai_config sel) (\<lambda>_. op_return sel)))"

definition provider_dispatch_snapshot_locked :: "ai_env \<Rightarrow> provider_config
    \<Rightarrow> (provider_config \<times> provider_profile \<times> string) vop" where
  "provider_dispatch_snapshot_locked E expected =
     op_bind (ai_fetch v_configs (pc_id expected)) (\<lambda>actual.
     op_bind (ai_require (profile_hash (ae_service E) actual = profile_hash (ae_service E) expected)
       (error_new ''provider_changed'')) (\<lambda>_.
     op_bind (api_key (pc_id actual)) (\<lambda>secret. op_return (actual, profile_of actual, secret))))"

section \<open>Saving the AI settings of a provider\<close>

definition enabled_of :: "ai_provider_request \<Rightarrow> string list" where
  "enabled_of r = remdups_adj (sort
     (if ar_enabled_models r = [] \<and> ar_model r \<noteq> [] then [ar_model r] else ar_enabled_models r))"

definition base_of :: "ai_provider_request \<Rightarrow> string" where
  "base_of r = normalized_base
     (if str_trim (ar_base_url r) = [] then preset_base (ar_preset r) else ar_base_url r)"

definition merge_all :: "ai_provider_request \<Rightarrow> (string, model_capabilities) omap \<Rightarrow> (string, model_capabilities) omap" where
  "merge_all r known = fold (\<lambda>(model, incoming) caps.
     om_put model (merge_capability_fields (om_get caps model) incoming (om_get (ar_presence r) model)) caps)
     (ar_model_capabilities r) known"

text \<open>One turn of the loop over the declared models; \<open>caps\<close> are the merged capabilities.\<close>

definition saved_declaration :: "service \<Rightarrow> nat \<Rightarrow> provider_config \<Rightarrow> ai_provider_request \<Rightarrow> ai_metadata option
    \<Rightarrow> (string, model_capabilities) omap \<Rightarrow> (string, capability_declaration) omap \<Rightarrow> string
    \<Rightarrow> capability_declaration" where
  "saved_declaration S time config r previous caps known model =
     (let presence = om_get (ar_presence r) model;
          merged = (case om_get caps model of Some c \<Rightarrow> c | None \<Rightarrow> default_capabilities) in
      if (case om_get (ar_model_capabilities r) model of None \<Rightarrow> False
          | Some c \<Rightarrow> capability_update_has_explicit_fields c presence)
      then declared_capability_metadata S time config model merged (om_get known model) presence
      else case om_get known model of
        Some old \<Rightarrow> reconcile_legacy_declaration S config model old
      | None \<Rightarrow> (case Option.bind previous (\<lambda>md. map_option (Pair md) (om_get (md_model_capabilities md) model)) of
          Some (md, c) \<Rightarrow> inherited_declaration S config (md_base_url md) model c
        | None \<Rightarrow> unknown_capability_declaration S config model))"

definition save_ai_provider :: "ai_env \<Rightarrow> ai_provider_request \<Rightarrow> (string \<times> (string, ai_selection) omap) vop" where
  "save_ai_provider E r =
     op_bind ai_lock (\<lambda>_.
     let requested = or_else (ar_id r) (ar_provider_id r) in
     op_bind (case requested of Some i \<Rightarrow> ai_fetch_maybe v_metadata i | None \<Rightarrow> op_return None) (\<lambda>previous.
     op_bind (case requested of Some i \<Rightarrow> ai_fetch_maybe v_declarations i | None \<Rightarrow> op_return None) (\<lambda>declared.
     let base = base_of r; enabled = enabled_of r in
     op_bind (ai_require (enabled \<noteq> [] \<and> length enabled \<le> 200
       \<and> list_all (\<lambda>m. m \<noteq> [] \<and> length m \<le> 200 \<and> \<not> has_control m) enabled) (error_new ''enabled_models_required'')) (\<lambda>_.
     op_bind (op_lift (validate_capabilities enabled (ar_model_capabilities r))) (\<lambda>_.
     let caps = merge_all r (case previous of Some md \<Rightarrow> md_model_capabilities md | None \<Rightarrow> []) in
     op_bind (op_lift (validate_capabilities enabled (filter (\<lambda>c. fst c \<in> set enabled) caps))) (\<lambda>_.
     let model = (if ar_model r \<in> set enabled then ar_model r else hd enabled);
         preset = (case recognized_preset base of Some p \<Rightarrow> p | None \<Rightarrow> ''custom'');
         trust_raw = (case ar_trust_raw r of Some t \<Rightarrow> t | None \<Rightarrow> preset \<noteq> ''custom'') in
     op_bind (prepare_provider_save E \<lparr>sp_id = requested, sp_name = (if ar_name r = [] then preset else ar_name r),
       sp_base_url = base, sp_model = model,
       sp_api_key = (case ar_api_key r of Some k \<Rightarrow> if k = [] then None else Some k | None \<Rightarrow> None),
       sp_allow_private_network = ar_allow_private_network r\<rparr>) (\<lambda>prepared.
     op_bind ai_now (\<lambda>time.
     let config = fst prepared; i = pc_id config;
         known = fold (\<lambda>m known. om_put m (saved_declaration (ae_service E) time config r previous caps known m) known)
           (btree_set (om_keys caps @ enabled)) (case declared of Some d \<Rightarrow> d | None \<Rightarrow> []);
         md = \<lparr>md_preset = preset, md_enabled_models = enabled, md_trust_raw = trust_raw, md_base_url = base,
           md_model_capabilities = caps\<rparr> in
     op_bind ai_defaults (\<lambda>defaults.
     let defaults = fold (\<lambda>purpose d. if om_get d purpose = None
           then om_put purpose \<lparr>sel_provider_id = i, sel_model = model\<rparr> d else d) purposes defaults in
     op_bind (ai_encode (AMetadata i md)) (\<lambda>row1. op_bind (ai_encode (ADeclarations i known)) (\<lambda>row2.
     op_bind (ai_encode (ADefaults defaults)) (\<lambda>row3.
     op_bind (commit_prepared_provider_save prepared [row1, row2, row3]) (\<lambda>_.
     op_return (i, defaults))))))))))))))"

section \<open>Settings of an older version\<close>

definition migrate_provider :: "ai_env \<Rightarrow> provider_config \<Rightarrow> unit vop" where
  "migrate_provider E config =
     op_bind (ai_fetch_maybe v_metadata (pc_id config)) (\<lambda>stored.
     let md = (case stored of Some md \<Rightarrow> md | None \<Rightarrow> unstored_metadata config) in
     op_bind (if stored = None then ai_save (AMetadata (pc_id config) md) else op_return ()) (\<lambda>_.
     op_bind (ai_fetch_maybe v_declarations (pc_id config)) (\<lambda>existing.
     let known = capability_declarations_for (ae_service E) config md existing in
     if existing \<noteq> Some known then ai_save (ADeclarations (pc_id config) known) else op_return ())))"

definition migrate_ai_settings :: "ai_env \<Rightarrow> unit vop" where
  "migrate_ai_settings E =
     op_bind ai_io (\<lambda>_. op_bind (op_get (\<lambda>w. om_values (v_configs w))) (\<lambda>configs.
     op_bind (op_each (migrate_provider E) configs) (\<lambda>_.
     op_bind ai_io (\<lambda>_. op_bind (op_get v_defaults) (\<lambda>defaults.
     case (defaults, configs) of
       (None, config # _) \<Rightarrow> ai_save (ADefaults (fold (\<lambda>purpose d.
         om_put purpose \<lparr>sel_provider_id = pc_id config, sel_model = pc_model config\<rparr> d) purposes []))
     | _ \<Rightarrow> op_return ())))))"

end
