(* ===== verification/Ai_Dispatch.thy ===== *)
theory Ai_Dispatch imports Ai_Provider begin

text \<open>
  One request to a provider: its one-use authorisation (\<open>providers/src/adapter/workspace\_json.rs\<close>)
  and its dispatch (\<open>ai\_complete\_budgeted\<close> of \<open>ai\_provider.rs\<close>). The workspace gate is held only in
  the critical sections; at the points between them, \<open>ae\_gap\<close> stands for what the other handlers did.
\<close>

section \<open>The authorised request\<close>

text \<open>A profile as its derived serialiser writes it, members in declaration order.\<close>

definition options_json :: "provider_options \<Rightarrow> json" where
  "options_json x = JObj ([(''thinking'', json_opt JBool (po_thinking x)),
     (''enableThinking'', json_opt JBool (po_enable_thinking x)),
     (''thinkingBudget'', json_opt json_nat (po_thinking_budget x)),
     (''reasoningEffort'', json_opt (\<lambda>e. JStr (case e of EffortLow \<Rightarrow> ''low'' | EffortMedium \<Rightarrow> ''medium''
        | EffortHigh \<Rightarrow> ''high'' | EffortMax \<Rightarrow> ''max'')) (po_reasoning_effort x)),
     (''endpointId'', json_opt JStr (po_endpoint_id x)), (''workspaceId'', json_opt JStr (po_workspace_id x))]
     @ json_present ''allowPrivateNetwork'' JBool (po_allow_private_network x))"

definition profile_json :: "provider_profile \<Rightarrow> json" where
  "profile_json p = JObj [(''id'', JStr (pf_id p)), (''displayName'', JStr (pf_display_name p)),
     (''kind'', JStr (case pf_kind p of DeepSeek \<Rightarrow> ''deep_seek'' | Qwen \<Rightarrow> ''qwen'' | SiliconFlow \<Rightarrow> ''silicon_flow''
        | VolcengineArk \<Rightarrow> ''volcengine_ark'' | CustomProvider \<Rightarrow> ''custom'')),
     (''modelId'', JStr (pf_model_id p)), (''baseUrl'', JStr (pf_base_url p)),
     (''credentialAccountId'', JStr (pf_credential_account_id p)),
     (''capabilities'', JObj [(''chat'', JBool (pcap_chat (pf_capabilities p))),
        (''streaming'', JBool (pcap_streaming (pf_capabilities p))),
        (''customModelId'', JBool (pcap_custom_model_id (pf_capabilities p))),
        (''customBaseUrl'', JBool (pcap_custom_base_url (pf_capabilities p))),
        (''reasoning'', JBool (pcap_reasoning (pf_capabilities p)))]),
     (''options'', options_json (pf_options p))]"

definition workspace_profile_sha256 :: "ai_env \<Rightarrow> provider_profile \<Rightarrow> string" where
  "workspace_profile_sha256 E p = content_hash (ae_service E) (sv_to_vec (ae_service E) (profile_json p))"

record authorized_json =
  aj_body :: json
  aj_profile_hash :: string
  aj_body_hash :: string
  aj_expires :: nat

definition invalid_request :: provider_error where
  "invalid_request = new_provider_error InvalidRequest"

definition validate_provider_binding_text :: "string \<Rightarrow> provider_error + unit" where
  "validate_provider_binding_text v = ensure (v \<noteq> [] \<and> length v \<le> 128 \<and> \<not> has_control v) invalid_request"

definition valid_lower_sha256 :: "string \<Rightarrow> bool" where
  "valid_lower_sha256 v \<longleftrightarrow> length v = 64 \<and> list_all is_lower_hex v"

definition authorize_workspace_json :: "ai_env \<Rightarrow> nat \<Rightarrow> provider_profile \<Rightarrow> json \<Rightarrow> string \<Rightarrow> string \<Rightarrow> nat
    \<Rightarrow> provider_error + authorized_json" where
  "authorize_workspace_json E time p body purpose binding expires =
     and_then (validate_provider_binding_text purpose) (\<lambda>_.
     and_then (ensure (valid_lower_sha256 binding \<and> time < expires) invalid_request) (\<lambda>_.
     and_then (provider_endpoint_origin (ae_parse_url E) (ae_parse_ip E) p) (\<lambda>_.
     and_then (ok_or (Option.bind (json_get body ''messages'') as_array) invalid_request) (\<lambda>messages.
     and_then (ensure (messages \<noteq> [] \<and> length messages \<le> 256
       \<and> as_str (json_index body ''model'') = Some (effective_model_id p)
       \<and> json_index body ''stream'' = JBool False) invalid_request) (\<lambda>_.
     and_then (ensure (list_all (\<lambda>m. as_str (json_index m ''role'')
         \<in> {Some ''system'', Some ''user'', Some ''assistant'', Some ''tool''}) messages) invalid_request) (\<lambda>_.
     let bytes = sv_to_vec (ae_service E) body in
     and_then (ensure (length bytes \<le> 32 * 1024 * 1024) invalid_request) (\<lambda>_.
       Inr \<lparr>aj_body = body, aj_profile_hash = workspace_profile_sha256 E p,
         aj_body_hash = content_hash (ae_service E) bytes, aj_expires = expires\<rparr>)))))))"

text \<open>What is checked when it is sent; the flag of its one use is fresh, since it is sent once.\<close>

definition still_authorized :: "ai_env \<Rightarrow> nat \<Rightarrow> provider_profile \<Rightarrow> authorized_json \<Rightarrow> provider_error + string" where
  "still_authorized E time p q =
     and_then (ensure (time < aj_expires q \<and> aj_profile_hash q = workspace_profile_sha256 E p
       \<and> aj_body_hash q = content_hash (ae_service E) (sv_to_vec (ae_service E) (aj_body q))) invalid_request) (\<lambda>_.
     chat_completions_url (ae_parse_url E) (ae_parse_ip E) p)"

section \<open>The request\<close>

definition dispatch_body :: "ai_selection \<Rightarrow> ai_metadata \<Rightarrow> json \<Rightarrow> json option \<Rightarrow> json option \<Rightarrow> nat \<Rightarrow> json" where
  "dispatch_body sel md messages tools response_format max_output_tokens =
     (let body = [(''max_tokens'', json_nat max_output_tokens), (''messages'', messages),
            (''model'', JStr (sel_model sel)), (''stream'', JBool False)];
          body = (if md_preset md = ''glm'' \<or> contains_str (ascii_lower (sel_model sel)) ''glm-5.3''
              then om_put ''reasoning_effort'' (JStr ''low'') body
            else if md_preset md \<in> {''deepseek'', ''volcengine''}
              then om_put ''thinking'' (JObj [(''type'', JStr ''disabled'')]) body
            else if md_preset md \<in> {''qwen'', ''siliconflow''} then om_put ''enable_thinking'' (JBool False) body
            else body);
          body = (case tools of None \<Rightarrow> body | Some t \<Rightarrow> om_put ''tool_choice'' (JStr ''auto'') (om_put ''tools'' t body));
          body = (case response_format of None \<Rightarrow> body | Some f \<Rightarrow> om_put ''response_format'' f body) in
      JObj body)"

record completion =
  co_message :: json
  co_usage :: json
  co_model :: string

text \<open>\<open>["choices"][0]\<close>, null where the value has another shape.\<close>

definition first_choice :: "json \<Rightarrow> json" where
  "first_choice v = (case as_array (json_index v ''choices'') of Some (c # _) \<Rightarrow> c | _ \<Rightarrow> JNull)"

definition without_reasoning :: "json \<Rightarrow> json" where
  "without_reasoning m = (case m of
     JObj ms \<Rightarrow> JObj (om_remove ''reasoning'' (om_remove ''reasoning_content'' ms)) | _ \<Rightarrow> m)"

definition read_completion :: "string \<Rightarrow> json \<Rightarrow> error + completion" where
  "read_completion model v =
     and_then (ensure (as_str (json_index (first_choice v) ''finish_reason'') \<in> {Some ''stop'', Some ''tool_calls''})
       (error_new ''provider_response_incomplete'')) (\<lambda>_.
     let message = without_reasoning (json_index (first_choice v) ''message'') in
     and_then (ensure (is_string (json_index message ''content'') \<or> is_array (json_index message ''tool_calls''))
       (error_new ''provider_response_invalid'')) (\<lambda>_.
     Inr \<lparr>co_message = message, co_usage = json_index v ''usage'', co_model = model\<rparr>))"

definition started_dispatch :: "string \<Rightarrow> string \<Rightarrow> string \<Rightarrow> ai_selection \<Rightarrow> nat \<Rightarrow> nat \<Rightarrow> dispatch" where
  "started_dispatch i purpose binding sel revision time = \<lparr>dp_id = i, dp_purpose = purpose, dp_binding = binding,
     dp_provider_id = sel_provider_id sel, dp_model = sel_model sel, dp_provider_revision = revision,
     dp_status = ''started'', dp_created_at = time, dp_usage = None, dp_finished_at = None, dp_error_code = None\<rparr>"

definition finished_dispatch :: "dispatch \<Rightarrow> nat \<Rightarrow> error + json \<Rightarrow> error + completion \<Rightarrow> dispatch" where
  "finished_dispatch d time response result =
     (let billed = (case response of
            Inr v \<Rightarrow> if is_object (json_index v ''usage'') then Some (json_index v ''usage'') else None
          | Inl _ \<Rightarrow> None);
          d = d\<lparr>dp_usage := billed, dp_finished_at := Some time\<rparr> in
      case result of
        Inr c \<Rightarrow> d\<lparr>dp_status := ''completed'', dp_usage := Some (co_usage c)\<rparr>
      | Inl e \<Rightarrow> d\<lparr>dp_status := ''failed'', dp_error_code := Some (e_code e)\<rparr>)"

text \<open>What the store says of the provider at this moment, as \<open>ai\_provider\_is\_trusted\<close> would read it.\<close>

definition trusted_now :: "ai_ws \<Rightarrow> string \<Rightarrow> bool" where
  "trusted_now w i = (case om_get (v_configs w) i of None \<Rightarrow> False | Some config \<Rightarrow> md_trust_raw (metadata_of w config))"

definition log_sent :: "ai_selection \<Rightarrow> string \<Rightarrow> json \<Rightarrow> string \<Rightarrow> nat \<Rightarrow> unit vop" where
  "log_sent sel secret body purpose token = op_modify (\<lambda>w. w\<lparr>v_sent := v_sent w @
     [\<lparr>se_provider_id = sel_provider_id sel, se_secret = secret, se_body = body, se_purpose = purpose,
       se_trusted = trusted_now w (sel_provider_id sel), se_cancelled = (token \<in> set (v_fired w))\<rparr>]\<rparr>)"

text \<open>The biased \<open>select!\<close>: a fired token wins, before the request is polled and when a reply is there.\<close>

definition send_request :: "ai_env \<Rightarrow> ai_selection \<Rightarrow> provider_profile \<Rightarrow> string \<Rightarrow> authorized_json \<Rightarrow> string \<Rightarrow> nat
    \<Rightarrow> json vop" where
  "send_request E sel p secret q purpose token =
     op_bind (ai_gap E 2) (\<lambda>_. op_bind (fired token) (\<lambda>stop.
     if stop then op_fail (error_new ''cancelled'')
     else op_bind ai_now (\<lambda>time. case still_authorized E time p q of
       Inl e \<Rightarrow> op_fail (provider_error e)
     | Inr _ \<Rightarrow> op_bind (op_get (\<lambda>w. length (v_sent w))) (\<lambda>n.
         op_bind (log_sent sel secret (aj_body q) purpose token) (\<lambda>_.
         op_bind (ai_gap E 3) (\<lambda>_. op_bind (fired token) (\<lambda>stop.
         if stop then op_fail (error_new ''cancelled'')
         else op_lift (map_err provider_error (ae_reply E n)))))))))"

definition ai_complete_budgeted :: "ai_env \<Rightarrow> ai_selection \<Rightarrow> json \<Rightarrow> json option \<Rightarrow> json option \<Rightarrow> string \<Rightarrow> string
    \<Rightarrow> nat \<Rightarrow> nat \<Rightarrow> completion vop" where
  "ai_complete_budgeted E sel messages tools response_format purpose binding ceiling token =
     op_bind (ai_gap E 0) (\<lambda>_.
     op_bind (fired token) (\<lambda>stop. op_bind (ai_require (\<not> stop) (error_new ''cancelled'')) (\<lambda>_.
     op_bind ai_lock (\<lambda>_. op_bind (ai_config sel) (\<lambda>(config, md).
     op_bind (provider_dispatch_snapshot_locked E config) (\<lambda>(config, profile, secret).
     let profile = profile\<lparr>pf_model_id := sel_model sel\<rparr> in
     op_bind (op_lift (resolved_model_capabilities md (sel_model sel))) (\<lambda>capabilities.
     op_bind (op_lift (validate_requested_features capabilities (tools \<noteq> None) (response_format \<noteq> None)
       (contains_image_input messages))) (\<lambda>_.
     let max_output_tokens = min ceiling (xc_max_output_tokens capabilities) in
     op_bind (ai_require (max_output_tokens \<noteq> 0) budget_exceeded) (\<lambda>_.
     op_bind ai_now (\<lambda>time.
     op_bind (op_lift (map_err provider_error (authorize_workspace_json E time profile
       (dispatch_body sel md messages tools response_format max_output_tokens) purpose binding (time + 900)))) (\<lambda>q.
     op_bind (ai_new_id E ''dispatch'') (\<lambda>i.
     let d = started_dispatch i purpose binding sel (pc_revision config) time in
     op_bind (ai_gap E 1) (\<lambda>_.
     op_bind ai_lock (\<lambda>_. op_bind (fired token) (\<lambda>stop. op_bind (ai_require (\<not> stop) (error_new ''cancelled'')) (\<lambda>_.
     op_bind (ai_config sel) (\<lambda>(actual, _).
     op_bind (ai_require (pc_revision actual = pc_revision config) (error_new ''provider_changed'')) (\<lambda>_.
     op_bind (ai_save (ADispatch i d)) (\<lambda>_.
     op_bind (op_lift (map_err provider_error (ae_transport E))) (\<lambda>_.
     op_bind (op_attempt (send_request E sel profile secret q purpose token)) (\<lambda>response.
     op_bind (op_attempt (op_bind (op_lift response) (\<lambda>v. op_bind (ai_config sel) (\<lambda>(actual, _).
       op_bind (ai_require (pc_revision actual = pc_revision config) (error_new ''provider_changed'')) (\<lambda>_.
       op_lift (read_completion (sel_model sel) v)))))) (\<lambda>result.
     op_bind ai_now (\<lambda>time.
     op_bind (ai_save (ADispatch i (finished_dispatch d time response result))) (\<lambda>_.
     op_lift result))))))))))))))))))))))))"

definition U32_MAX :: nat where "U32_MAX = 2 ^ 32 - 1"

definition ai_complete :: "ai_env \<Rightarrow> ai_selection \<Rightarrow> json \<Rightarrow> json option \<Rightarrow> json option \<Rightarrow> string \<Rightarrow> string
    \<Rightarrow> nat \<Rightarrow> completion vop" where
  "ai_complete E sel messages tools response_format purpose binding token =
     ai_complete_budgeted E sel messages tools response_format purpose binding U32_MAX token"

end
