(* ===== verification/Redaction.thy ===== *)
theory Redaction imports Ai_Dispatch Locator Sample_Run begin

text \<open>
  The model-led redaction of one text (\<open>workspace-service/src/redaction\_ai.rs\<close>): two passes over the
  chunks of the text, each chunk asked of a provider that the user trusts with raw text, its reply
  checked and stored so that a later attempt does not ask again. The service gate is not held
  between the operations, so other handlers act at the points named by \<open>ae\_gap\<close>: 0 to 3 inside
  a request, 4 at the start of a chunk, 5 before its findings are stored, 6 and 7 between the passes.
\<close>

section \<open>Guards\<close>

definition REDACTION_PURPOSE :: string where "REDACTION_PURPOSE = ''redaction_assistance''"
definition MAX_PARSE_RETRIES :: nat where "MAX_PARSE_RETRIES = 3"

definition unless_cancelled :: "nat \<Rightarrow> unit vop" where
  "unless_cancelled token = op_bind (fired token) (\<lambda>stop. ai_require (\<not> stop) (error_new ''cancelled''))"

definition require_trusted :: "ai_selection \<Rightarrow> unit vop" where
  "require_trusted sel = op_bind (ai_provider_is_trusted sel) (\<lambda>trusted.
     ai_require trusted (error_new ''redaction_requires_trusted_provider''))"

section \<open>The stored chunks\<close>

record chunk_key =
  ck_source_binding :: string
  ck_phase :: string
  ck_pass :: string
  ck_start :: nat
  ck_end :: nat
  ck_prompt_fingerprint :: string
  ck_selection :: ai_selection
  ck_provider_revision :: nat

definition redaction_chunk_cache_id :: "service \<Rightarrow> chunk_key \<Rightarrow> string" where
  "redaction_chunk_cache_id S k = content_hash S (
     ''redaction-chunk:v2-text-binding:'' @ ck_source_binding k @ '':'' @ ck_phase k @ '':'' @ ck_pass k @ '':''
     @ decimal (ck_start k) @ '':'' @ decimal (ck_end k) @ '':'' @ ck_prompt_fingerprint k @ '':''
     @ sel_provider_id (ck_selection k) @ '':'' @ sel_model (ck_selection k) @ '':'' @ decimal (ck_provider_revision k))"

definition chunk_record :: "chunk_key \<Rightarrow> ai_finding list \<Rightarrow> nat \<Rightarrow> ai_chunk" where
  "chunk_record k fs time = \<lparr>ch_source_binding = ck_source_binding k, ch_phase = ck_phase k, ch_pass = ck_pass k,
     ch_start = ck_start k, ch_end = ck_end k, ch_prompt_fingerprint = ck_prompt_fingerprint k,
     ch_provider_id = sel_provider_id (ck_selection k), ch_model = sel_model (ck_selection k),
     ch_provider_revision = ck_provider_revision k, ch_findings = fs, ch_completed_at = time\<rparr>"

definition chunk_matches :: "chunk_key \<Rightarrow> ai_chunk \<Rightarrow> bool" where
  "chunk_matches k c \<longleftrightarrow> ch_source_binding c = ck_source_binding k \<and> ch_phase c = ck_phase k \<and> ch_pass c = ck_pass k
     \<and> ch_start c = ck_start k \<and> ch_end c = ck_end k \<and> ch_prompt_fingerprint c = ck_prompt_fingerprint k
     \<and> ch_provider_id c = sel_provider_id (ck_selection k) \<and> ch_model c = sel_model (ck_selection k)
     \<and> ch_provider_revision c = ck_provider_revision k"

definition load_ai_chunk :: "string \<Rightarrow> chunk_key \<Rightarrow> ai_finding list option vop" where
  "load_ai_chunk cache_id k = op_bind (ai_fetch_maybe v_chunks cache_id) (\<lambda>found. case found of
     None \<Rightarrow> op_return None
   | Some c \<Rightarrow> op_bind (ai_require (chunk_matches k c) (error_new ''ai_cache_invalid'')) (\<lambda>_.
       op_return (Some (ch_findings c))))"

definition save_ai_chunk :: "string \<Rightarrow> ai_chunk \<Rightarrow> unit vop" where
  "save_ai_chunk cache_id c = op_bind ai_lock (\<lambda>_. ai_save (AChunk cache_id c))"

section \<open>Asking for the findings of a chunk\<close>

definition json_object_format :: json where
  "json_object_format = JObj [(''type'', JStr ''json_object'')]"

text \<open>
  The attempts that are left, after \<open>attempt\<close> of them; \<open>previous\<close> and \<open>last\<close> are the reply of the
  last one and its error.
\<close>

fun findings_attempts :: "ai_env \<Rightarrow> ai_selection \<Rightarrow> json \<Rightarrow> string \<Rightarrow> string \<Rightarrow> nat \<Rightarrow> nat \<Rightarrow> nat
    \<Rightarrow> json option \<Rightarrow> error option \<Rightarrow> ai_finding list vop" where
  "findings_attempts E sel messages chunk binding token 0 attempt previous last_invalid =
     op_fail (case last_invalid of Some e \<Rightarrow> e | None \<Rightarrow> response_invalid)"
| "findings_attempts E sel messages chunk binding token (Suc left) attempt previous last_invalid =
     op_bind (unless_cancelled token) (\<lambda>_. op_bind (require_trusted sel) (\<lambda>_.
     let request = (if 0 < attempt
       then append_findings_retry_feedback (ae_parse_json E) messages previous chunk else messages) in
     op_bind (ai_complete E sel request None (Some json_object_format) REDACTION_PURPOSE binding token) (\<lambda>completion.
     case parse_findings_response (ae_parse_json E) (co_message completion) chunk of
       Inr fs \<Rightarrow> op_return fs
     | Inl e \<Rightarrow> if e_code e = ''ai_response_invalid''
         then findings_attempts E sel messages chunk binding token left (Suc attempt)
           (Some (co_message completion)) (Some e)
         else op_fail e)))"

definition complete_findings_with_retry :: "ai_env \<Rightarrow> ai_selection \<Rightarrow> json \<Rightarrow> string \<Rightarrow> string \<Rightarrow> nat
    \<Rightarrow> ai_finding list vop" where
  "complete_findings_with_retry E sel messages chunk binding token =
     findings_attempts E sel messages chunk binding token MAX_PARSE_RETRIES 0 None None"

text \<open>The findings of one chunk: what is stored of an earlier attempt, or what the provider answers.\<close>

definition findings_of_chunk :: "ai_env \<Rightarrow> ai_selection \<Rightarrow> chunk_key \<Rightarrow> json \<Rightarrow> string \<Rightarrow> string \<Rightarrow> nat
    \<Rightarrow> ai_finding list vop" where
  "findings_of_chunk E sel k messages chunk chunk_binding token =
     (let cache_id = redaction_chunk_cache_id (ae_service E) k in
      op_bind (load_ai_chunk cache_id k) (\<lambda>stored. case stored of
        Some fs \<Rightarrow> op_return fs
      | None \<Rightarrow> op_bind (complete_findings_with_retry E sel messages chunk chunk_binding token) (\<lambda>fs.
          op_bind (ai_gap E 5) (\<lambda>_. op_bind ai_now (\<lambda>time.
          op_bind (save_ai_chunk cache_id (chunk_record k fs time)) (\<lambda>_. op_return fs))))))"

text \<open>
  The loop of both passes, with what they differ in as \<open>key\<close>, \<open>ask\<close> and \<open>binding\<close> of a chunk; the
  revision of the provider is read for every chunk.
\<close>

fun each_chunk :: "ai_env \<Rightarrow> ai_selection \<Rightarrow> string \<Rightarrow> nat \<Rightarrow> (nat \<Rightarrow> nat \<Rightarrow> string \<Rightarrow> nat \<Rightarrow> chunk_key)
    \<Rightarrow> (nat \<Rightarrow> nat \<Rightarrow> string \<Rightarrow> json) \<Rightarrow> (nat \<Rightarrow> nat \<Rightarrow> string) \<Rightarrow> (nat \<times> nat) list \<Rightarrow> ai_finding list
    \<Rightarrow> ai_finding list vop" where
  "each_chunk E sel text token key ask binding [] findings = op_return findings"
| "each_chunk E sel text token key ask binding ((a, b) # ranges) findings =
     op_bind (ai_gap E 4) (\<lambda>_. op_bind (unless_cancelled token) (\<lambda>_. op_bind (require_trusted sel) (\<lambda>_.
     op_bind (op_lift (ok_or (str_get text a b) response_invalid)) (\<lambda>chunk.
     op_bind (ai_config sel) (\<lambda>c.
     op_bind (findings_of_chunk E sel (key a b chunk (pc_revision (fst c))) (ask a b chunk) chunk (binding a b) token) (\<lambda>fs.
     op_bind (op_lift (adjust_findings fs a text)) (\<lambda>adjusted.
     op_bind (ai_require (length (findings @ adjusted) \<le> MAX_LOCATED) response_invalid) (\<lambda>_.
       each_chunk E sel text token key ask binding ranges (findings @ adjusted)))))))))"

text \<open>
  The ranges of a text: the loop of \<open>chunk\_ranges\<close> ends for every valid text, and a \<open>&str\<close> is valid.
\<close>

definition ranges_of :: "string \<Rightarrow> (nat \<times> nat) list" where
  "ranges_of text = (case chunk_ranges text of Some rs \<Rightarrow> rs | None \<Rightarrow> [])"

definition locate_entities :: "ai_env \<Rightarrow> string \<Rightarrow> ai_selection \<Rightarrow> string \<Rightarrow> string \<Rightarrow> nat \<Rightarrow> nat
    \<Rightarrow> ai_finding list vop" where
  "locate_entities E text sel binding pass local_hint_count token =
     each_chunk E sel text token
       (\<lambda>a b chunk revision. \<lparr>ck_source_binding = binding, ck_phase = ''locate'', ck_pass = pass, ck_start = a,
          ck_end = b, ck_prompt_fingerprint = ''local-hints:'' @ decimal local_hint_count, ck_selection = sel,
          ck_provider_revision = revision\<rparr>)
       (\<lambda>a b chunk. entity_messages pass chunk a b local_hint_count)
       (\<lambda>a b. content_hash (ae_service E) (''redaction-locate:v2:'' @ binding @ '':'' @ pass @ '':''
          @ decimal a @ '':'' @ decimal b))
       (ranges_of text) []"

definition check_omissions :: "ai_env \<Rightarrow> string \<Rightarrow> analysis \<Rightarrow> ai_selection \<Rightarrow> string \<Rightarrow> nat
    \<Rightarrow> ai_finding list vop" where
  "check_omissions E text first sel binding token =
     each_chunk E sel text token
       (\<lambda>a b chunk revision. \<lparr>ck_source_binding = binding, ck_phase = ''omission'', ck_pass = ''check'', ck_start = a,
          ck_end = b, ck_prompt_fingerprint = content_hash (ae_service E)
            (sv_to_vec (ae_service E) (JArr (findings_for_chunk first chunk a b))), ck_selection = sel,
          ck_provider_revision = revision\<rparr>)
       (\<lambda>a b chunk. omission_messages (sv_to_vec (ae_service E)) chunk a b (findings_for_chunk first chunk a b))
       (\<lambda>a b. content_hash (ae_service E) (''redaction-omission:v2:'' @ binding @ '':'' @ decimal a @ '':'' @ decimal b))
       (ranges_of text) []"

section \<open>The redaction\<close>

definition redact_with_ai :: "ai_env \<Rightarrow> string \<Rightarrow> ws_group \<Rightarrow> ai_selection \<Rightarrow> string \<Rightarrow> string list \<Rightarrow> nat
    \<Rightarrow> analysis vop" where
  "redact_with_ai E text g sel source_binding dismissed token =
     (let S = ae_service E;
          with_ai = (\<lambda>fs. text_failed (analyze_with_ai (sv_engine S) (sv_detectors S) text (wg_namespace g)
            (wg_entries g) fs dismissed)) in
      op_bind (unless_cancelled token) (\<lambda>_. op_bind (require_trusted sel) (\<lambda>_.
      op_bind (op_lift (text_failed (analyze (sv_engine S) (sv_detectors S) text (wg_namespace g) (wg_entries g) []
        dismissed))) (\<lambda>local_pre_scan.
      op_bind (locate_entities E text sel source_binding ''primary'' (length (a_findings local_pre_scan)) token) (\<lambda>located.
      op_bind (ai_gap E 6) (\<lambda>_. op_bind (require_trusted sel) (\<lambda>_.
      let primary = merge_findings located [] in
      op_bind (op_lift (with_ai primary)) (\<lambda>first.
      op_bind (ai_gap E 7) (\<lambda>_. op_bind (unless_cancelled token) (\<lambda>_. op_bind (require_trusted sel) (\<lambda>_.
      op_bind (check_omissions E text first sel (content_hash S (''redaction-check:v1:'' @ source_binding)) token) (\<lambda>omissions.
      op_bind (op_lift (with_ai (merge_findings primary omissions))) (\<lambda>a.
      op_bind (op_lift (text_failed (verify_analysis_source (en_digest (sv_engine S)) text a))) (\<lambda>_.
      op_bind (if a_needs_review a then op_return ()
        else op_lift (text_failed (validate_analysis (sv_engine S) a))) (\<lambda>_.
      op_return a)))))))))))))))"

end
