(* ===== verification/Ai_Save.thy ===== *)
theory Ai_Save imports Ai_Provider Sample_Run begin

text \<open>
  Saving a provider across the two stores. Whatever fails on the way, and wherever the service
  stops, a provider that can be used has the key it was saved with: its configuration and its
  key are both the old ones or both the new ones, or the durable block keeps it from being used.
\<close>

section \<open>What is stored of one provider\<close>

type_synonym stored_provider =
  "provider_config option \<times> ai_metadata option \<times> (string, capability_declaration) omap option"

definition stored_provider :: "ai_ws \<Rightarrow> string \<Rightarrow> stored_provider" where
  "stored_provider w i = (om_get (v_configs w) i, om_get (v_metadata w) i, om_get (v_declarations w) i)"

definition blocked_provider :: "ai_ws \<Rightarrow> string \<Rightarrow> bool" where
  "blocked_provider w i \<longleftrightarrow> om_get (v_blocked w) i = Some True"

definition provider_at :: "string \<Rightarrow> stored_provider \<Rightarrow> string option \<Rightarrow> bool \<Rightarrow> ai_ws \<Rightarrow> bool" where
  "provider_at i p k b w \<longleftrightarrow> stored_provider w i = p \<and> om_get (v_vault w) i = k \<and> blocked_provider w i = b"

lemma provider_at_frame [simp]:
  "provider_at i p k b (w\<lparr>v_outcomes := xs\<rparr>) = provider_at i p k b w"
  "provider_at i p k b (w\<lparr>v_fired := ts\<rparr>) = provider_at i p k b w"
  "provider_at i p k b (w\<lparr>v_issued := n\<rparr>) = provider_at i p k b w"
  by (simp_all add: provider_at_def stored_provider_def blocked_provider_def)

lemma provider_at_rows:
  "provider_at i p k b w \<Longrightarrow> provider_at i p k c (w\<lparr>v_blocked := om_put i c (v_blocked w)\<rparr>)"
  "provider_at i p k b w \<Longrightarrow> provider_at i p k' b (vault_store i k' w)"
  by (auto simp: provider_at_def stored_provider_def blocked_provider_def vault_store_def split: option.split)

section \<open>Rules for the operations\<close>

lemma hoare_then:
  assumes "preserves I m" "\<And>a. hoare I (f a) Q (\<lambda>_. E)" "\<And>s. I s \<Longrightarrow> E s"
  shows "hoare I (op_bind m f) Q (\<lambda>_. E)"
  by (rule hoare_bind[where R = "\<lambda>_. I"]) (use assms in \<open>auto simp: preserves_iff_hoare hoare_def split: prod.split sum.split\<close>)

lemma hoare_weaken:
  assumes "hoare P m Q E" "\<And>a s. Q a s \<Longrightarrow> Q' a s" "\<And>e s. E e s \<Longrightarrow> E' e s"
  shows "hoare P m Q' E'"
  using assms by (auto simp: hoare_def split: prod.splits sum.splits)

lemma hoare_attempt:
  assumes "hoare P m Q E"
  shows "hoare P (op_attempt m) (\<lambda>r s. case r of Inl e \<Rightarrow> E e s | Inr a \<Rightarrow> Q a s) (\<lambda>_ _. False)"
  using assms by (auto simp: hoare_def op_attempt_def split: prod.splits sum.splits)

lemma hoare_map_err:
  assumes "hoare P m Q (\<lambda>_. E)"
  shows "hoare P (op_map_err g m) Q (\<lambda>_. E)"
proof (rule hoareI)
  fix s e t assume "P s" "op_map_err g m s = (Inl e, t)"
  moreover obtain r u where m: "m s = (r, u)" by force
  ultimately obtain e' where "m s = (Inl e', t)" by (cases r) (auto simp: op_map_err_def)
  with \<open>P s\<close> assms show "E t" by (auto dest: hoare_err)
next
  fix s a t assume "P s" "op_map_err g m s = (Inr a, t)"
  with assms show "Q a t" by (auto simp: op_map_err_def split: prod.splits dest: hoare_ok)
qed

lemma hoare_attempt_bind:
  assumes "hoare P m Q E" "\<And>e. hoare (E e) (f (Inl e)) Q' E'" "\<And>a. hoare (Q a) (f (Inr a)) Q' E'"
  shows "hoare P (op_bind (op_attempt m) f) Q' E'"
proof (rule hoare_bind[where R = "\<lambda>r w. case r of Inl e \<Rightarrow> E e w | Inr a \<Rightarrow> Q a w"])
  show "hoare P (op_attempt m) (\<lambda>r w. case r of Inl e \<Rightarrow> E e w | Inr a \<Rightarrow> Q a w) E'"
    by (rule hoare_weaken[OF hoare_attempt[OF assms(1)]]) auto
  show "hoare (\<lambda>w. case r of Inl e \<Rightarrow> E e w | Inr a \<Rightarrow> Q a w) (f r) Q' E'" for r
    using assms(2,3) by (cases r) auto
qed

lemma hoare_ex:
  assumes "\<And>x. hoare (P x) m Q E"
  shows "hoare (\<lambda>w. \<exists>x. P x w) m Q E"
  unfolding hoare_def
proof (intro allI impI, elim exE)
  fix s x assume "P x s"
  with assms[of x] show "case m s of (Inl e, t) \<Rightarrow> E e t | (Inr a, t) \<Rightarrow> Q a t" by (simp add: hoare_def)
qed

lemma hoare_conj: "(b \<Longrightarrow> hoare P m Q E) \<Longrightarrow> hoare (\<lambda>w. b \<and> P w) m Q E"
  by (auto simp: hoare_def)

lemma hoare_false [simp]: "hoare (\<lambda>_. False) m Q E"
  by (simp add: hoare_def)

lemma preserves_ai_io:
  assumes "\<And>w xs. I w \<Longrightarrow> I (w\<lparr>v_outcomes := xs\<rparr>)"
  shows "preserves I ai_outcome" "preserves I ai_io"
proof -
  show "preserves I ai_outcome"
    using assms by (auto simp: preserves_def ai_outcome_def split: list.split)
  then show "preserves I ai_io"
    unfolding ai_io_def by (intro preserves_bind) (auto split: outcome.split)
qed

lemma preserves_ai_reads:
  assumes "\<And>w xs. I w \<Longrightarrow> I (w\<lparr>v_outcomes := xs\<rparr>)"
  shows "preserves I (ai_fetch_maybe t i)" "preserves I (ai_fetch t i)" "preserves I (vault_read i)"
    "preserves I (ai_encode r)" "preserves I ai_lock" "preserves I (ai_require c e)" "preserves I ai_now"
    "preserves I ai_defaults" "preserves I (ai_metadata config)" "preserves I (ai_config sel)"
    "preserves I (api_key i)"
  unfolding ai_fetch_def ai_fetch_maybe_def vault_read_def ai_encode_def ai_lock_def ai_require_def ai_now_def
    ai_defaults_def ai_metadata_def ai_config_def api_key_def provider_credential_dispatch_blocked_def
  by (intro preserves_bind preserves_map_err preserves_basic preserves_ai_io assms; assumption)+

lemma provider_reads:
  fixes i p k b
  defines "I \<equiv> provider_at i p k b"
  shows "preserves I (ai_fetch_maybe t j)" "preserves I (ai_fetch t j)" "preserves I (vault_read j)"
    "preserves I (ai_encode r)" "preserves I ai_lock" "preserves I (ai_require c e)" "preserves I ai_now"
    "preserves I ai_defaults" "preserves I ai_outcome" "preserves I ai_io"
  by (simp_all add: preserves_ai_reads preserves_ai_io I_def)

lemma vault_set_at:
  "hoare (provider_at i p k b) (vault_set i k') (\<lambda>_ w. \<exists>x. provider_at i p x b w) (\<lambda>_ w. \<exists>x. provider_at i p x b w)"
  unfolding vault_set_def
  by (rule hoare_bind[where R = "\<lambda>_. provider_at i p k b"])
    (auto simp: op_bind_run hoare_def ai_outcome_def split: outcome.split list.split intro: provider_at_rows(2))

text \<open>Whatever the vault did, the key that is read back is the one that was meant.\<close>

lemma settle_key_at:
  "hoare (provider_at i p k b) (settle_key i k') (\<lambda>_. provider_at i p k' b) (\<lambda>_ w. \<exists>x. provider_at i p x b w)"
  unfolding settle_key_def
proof (rule hoare_bind[where R = "\<lambda>_ w. \<exists>x. provider_at i p x b w"])
  show "hoare (provider_at i p k b) (op_map_err (\<lambda>_. write_failed) (vault_set i k'))
      (\<lambda>_ w. \<exists>x. provider_at i p x b w) (\<lambda>_ w. \<exists>x. provider_at i p x b w)"
    by (rule hoare_map_err) (rule vault_set_at)
  show "hoare (\<lambda>w. \<exists>x. provider_at i p x b w) (op_bind (op_map_err (\<lambda>_. write_failed) (vault_read i))
      (\<lambda>persisted. ai_require (persisted = k') write_failed)) (\<lambda>_. provider_at i p k' b)
     (\<lambda>_ w. \<exists>x. provider_at i p x b w)" for a :: unit
  proof (intro hoare_ex hoare_bind[where R = "\<lambda>persisted w. \<exists>x. persisted = x \<and> provider_at i p x b w"])
    fix x
    show "hoare (provider_at i p x b) (op_map_err (\<lambda>_. write_failed) (vault_read i))
        (\<lambda>persisted w. \<exists>x. persisted = x \<and> provider_at i p x b w) (\<lambda>_ w. \<exists>x. provider_at i p x b w)"
      by (rule hoare_map_err, unfold vault_read_def, rule hoare_then)
        (auto intro!: provider_reads simp: hoare_def provider_at_def)
  qed (auto simp: hoare_def ai_require_def ensure_def)
qed

lemma put_rows_at:
  assumes "\<And>w. provider_at i p k b w \<Longrightarrow> provider_at i p' k c (fold apply_ai_row rows w)"
  shows "hoare (provider_at i p k b) (ai_put_rows rows) (\<lambda>_. provider_at i p' k c) (\<lambda>_. provider_at i p k b)"
  unfolding ai_put_rows_def by (intro hoare_then provider_reads) (auto simp: hoare_def assms)

lemma encode_at:
  assumes "hoare (provider_at i p k b) (f r) Q (\<lambda>_. E)" "\<And>w. provider_at i p k b w \<Longrightarrow> E w"
  shows "hoare (provider_at i p k b) (op_bind (ai_encode r) f) Q (\<lambda>_. E)"
proof (rule hoare_bind[where R = "\<lambda>x w. x = r \<and> provider_at i p k b w"])
  show "hoare (provider_at i p k b) (ai_encode r) (\<lambda>x w. x = r \<and> provider_at i p k b w) (\<lambda>_. E)"
    unfolding ai_encode_def by (rule hoare_then) (use assms in \<open>auto intro!: provider_reads simp: hoare_def\<close>)
qed (use assms in \<open>auto simp: hoare_def\<close>)

lemma set_blocked_at:
  "hoare (provider_at i p k b) (set_provider_credential_dispatch_blocked i c)
     (\<lambda>_. provider_at i p k c) (\<lambda>_. provider_at i p k b)"
  unfolding set_provider_credential_dispatch_blocked_def ai_save_def
  by (intro encode_at put_rows_at) (simp_all add: provider_at_rows)

lemma compensate_at:
  "hoare (provider_at i p k True) (compensate i before e) (\<lambda>_ _. False)
     (\<lambda>_ w. provider_at i p before False w \<or> blocked_provider w i)"
proof -
  have "hoare (provider_at i p k True) (op_bind (settle_key i before)
      (\<lambda>_. set_provider_credential_dispatch_blocked i False)) (\<lambda>_. provider_at i p before False)
      (\<lambda>_ w. blocked_provider w i)"
  proof (rule hoare_bind[where R = "\<lambda>_. provider_at i p before True"])
    show "hoare (provider_at i p k True) (settle_key i before) (\<lambda>_. provider_at i p before True)
        (\<lambda>_ w. blocked_provider w i)"
      by (rule hoare_weaken[OF settle_key_at]) (auto simp: provider_at_def)
    show "hoare (provider_at i p before True) (set_provider_credential_dispatch_blocked i False)
        (\<lambda>_. provider_at i p before False) (\<lambda>_ w. blocked_provider w i)" for a :: unit
      by (rule hoare_weaken[OF set_blocked_at]) (auto simp: provider_at_def)
  qed
  then show ?thesis
    unfolding compensate_def by (rule hoare_attempt_bind) (auto simp: hoare_def)
qed

section \<open>The commit\<close>

definition new_key :: "string option \<Rightarrow> string option \<Rightarrow> string option" where
  "new_key requested before = (case requested of None \<Rightarrow> before | Some key \<Rightarrow> expected_key key)"

text \<open>The part after the block is set, whatever key the first write left.\<close>

lemma commit_blocked_at:
  assumes rows: "\<And>k b w. provider_at i p k b w \<Longrightarrow> provider_at i p' k b (fold apply_ai_row rows w)"
  shows "hoare (provider_at i p k True)
    (op_bind (op_attempt (settle_key i key)) (\<lambda>applied. case applied of
       Inl (_ :: error) \<Rightarrow> compensate i before write_failed
     | Inr _ \<Rightarrow> op_bind (op_attempt (ai_put_rows (rows @ [ABlocked i False]))) (\<lambda>stored. case stored of
         Inl e \<Rightarrow> compensate i before e | Inr _ \<Rightarrow> op_return ())))
    (\<lambda>_. provider_at i p' key False) (\<lambda>_ w. provider_at i p before False w \<or> blocked_provider w i)"
    (is "hoare _ _ ?Q ?E")
proof (rule hoare_attempt_bind[OF settle_key_at])
  have undo: "hoare (provider_at i p k True) (compensate i before e) ?Q ?E" for k e
    by (auto intro: hoare_weaken[OF compensate_at])
  have put: "hoare (provider_at i p key True) (ai_put_rows (rows @ [ABlocked i False]))
      (\<lambda>_. provider_at i p' key False) (\<lambda>_. provider_at i p key True)"
  proof (rule put_rows_at)
    fix w assume "provider_at i p key True w"
    from provider_at_rows(1)[OF rows[OF this]]
    show "provider_at i p' key False (fold apply_ai_row (rows @ [ABlocked i False]) w)" by simp
  qed
  show "hoare (\<lambda>w. \<exists>x. provider_at i p x True w)
      (case Inl e of Inl (_ :: error) \<Rightarrow> compensate i before write_failed
       | Inr _ \<Rightarrow> op_bind (op_attempt (ai_put_rows (rows @ [ABlocked i False]))) (\<lambda>stored. case stored of
           Inl e \<Rightarrow> compensate i before e | Inr _ \<Rightarrow> op_return ())) ?Q ?E" for e
    by (auto intro: hoare_ex undo)
  have "hoare (provider_at i p key True)
      (op_bind (op_attempt (ai_put_rows (rows @ [ABlocked i False]))) (\<lambda>stored. case stored of
         Inl e \<Rightarrow> compensate i before e | Inr _ \<Rightarrow> op_return ())) ?Q ?E"
  proof (rule hoare_attempt_bind[OF put])
    show "hoare (provider_at i p key True) (case Inl e of Inl e \<Rightarrow> compensate i before e | Inr _ \<Rightarrow> op_return ())
        ?Q ?E" for e
      by (simp add: undo)
    show "hoare (provider_at i p' key False) (case Inr a of Inl e \<Rightarrow> compensate i before e | Inr _ \<Rightarrow> op_return ())
        ?Q ?E" for a
      by (simp add: hoare_def)
  qed
  then show "hoare (provider_at i p key True)
      (case Inr a of Inl (_ :: error) \<Rightarrow> compensate i before write_failed
       | Inr _ \<Rightarrow> op_bind (op_attempt (ai_put_rows (rows @ [ABlocked i False]))) (\<lambda>stored. case stored of
           Inl e \<Rightarrow> compensate i before e | Inr _ \<Rightarrow> op_return ())) ?Q ?E" for a
    by (simp only: sum.case)
qed

lemma commit_rows_at:
  assumes rows: "\<And>k b w. provider_at (pc_id config) p k b w \<Longrightarrow>
      provider_at (pc_id config) p' k b (fold apply_ai_row (AConfig (pc_id config) config # rows) w)"
  shows "hoare (provider_at (pc_id config) p k False) (commit_rows config requested rows)
    (\<lambda>_. provider_at (pc_id config) p' (new_key requested k) False)
    (\<lambda>_ w. provider_at (pc_id config) p k False w \<or> blocked_provider w (pc_id config))"
proof (cases requested)
  case None
  then show ?thesis unfolding commit_rows_def Let_def
    by (auto simp: new_key_def intro!: encode_at hoare_weaken[OF put_rows_at[where p' = p']] rows)
next
  case (Some key)
  let ?E = "\<lambda>w. provider_at (pc_id config) p k False w \<or> blocked_provider w (pc_id config)"
  note settled = commit_blocked_at[where rows = "AConfig (pc_id config) config # rows", OF rows, unfolded append_Cons]
  have blocked: "hoare (provider_at (pc_id config) p k False)
      (op_bind (set_provider_credential_dispatch_blocked (pc_id config) True) (\<lambda>_. f))
      Q (\<lambda>_. ?E)" if "hoare (provider_at (pc_id config) p k True) f Q (\<lambda>_. ?E)" for f Q
    by (rule hoare_bind[OF hoare_weaken[OF set_blocked_at]]) (use that in auto)
  show ?thesis unfolding commit_rows_def Let_def Some option.case
  proof (rule encode_at)
    show "hoare (provider_at (pc_id config) p k False) (op_bind (op_map_err (\<lambda>_. write_failed) (vault_read (pc_id config)))
        (\<lambda>before. op_bind (ai_encode (ABlocked (pc_id config) False)) (\<lambda>unblock.
          op_bind (set_provider_credential_dispatch_blocked (pc_id config) True) (\<lambda>_.
          op_bind (op_attempt (settle_key (pc_id config) (expected_key key))) (\<lambda>applied. case applied of
            Inl (_ :: error) \<Rightarrow> compensate (pc_id config) before write_failed
          | Inr _ \<Rightarrow> op_bind (op_attempt (ai_put_rows (AConfig (pc_id config) config # rows @ [unblock]))) (\<lambda>stored. case stored of
              Inl e \<Rightarrow> compensate (pc_id config) before e
            | Inr _ \<Rightarrow> op_return ()))))))
        (\<lambda>_. provider_at (pc_id config) p' (new_key (Some key) k) False) (\<lambda>_. ?E)"
    proof (rule hoare_bind[where R = "\<lambda>before w. before = k \<and> provider_at (pc_id config) p k False w"])
      show "hoare (provider_at (pc_id config) p k False) (op_map_err (\<lambda>_. write_failed) (vault_read (pc_id config)))
        (\<lambda>before w. before = k \<and> provider_at (pc_id config) p k False w) (\<lambda>_. ?E)"
        by (rule hoare_map_err, unfold vault_read_def, rule hoare_then)
          (auto intro!: provider_reads simp: hoare_def provider_at_def)
    next
      fix before
      show "hoare (\<lambda>w. before = k \<and> provider_at (pc_id config) p k False w)
          (op_bind (ai_encode (ABlocked (pc_id config) False)) (\<lambda>unblock.
            op_bind (set_provider_credential_dispatch_blocked (pc_id config) True) (\<lambda>_.
            op_bind (op_attempt (settle_key (pc_id config) (expected_key key))) (\<lambda>applied. case applied of
              Inl (_ :: error) \<Rightarrow> compensate (pc_id config) before write_failed
            | Inr _ \<Rightarrow> op_bind (op_attempt (ai_put_rows (AConfig (pc_id config) config # rows @ [unblock]))) (\<lambda>stored. case stored of
                Inl e \<Rightarrow> compensate (pc_id config) before e
              | Inr _ \<Rightarrow> op_return ()))))) (\<lambda>_. provider_at (pc_id config) p' (new_key (Some key) k) False) (\<lambda>_. ?E)"
        by (rule hoare_conj, simp only: new_key_def option.case, rule encode_at, rule blocked, rule settled,
            assumption, rule disjI1)
    qed
  qed auto
qed

text \<open>The save of one provider says nothing of another.\<close>

lemma commit_rows_frame:
  assumes "pc_id config \<noteq> i" "\<And>w. provider_at i p k b w \<Longrightarrow> provider_at i p k b (fold apply_ai_row rows w)"
  shows "preserves (provider_at i p k b) (commit_rows config requested rows)"
proof -
  let ?I = "provider_at i p k b"
  have vault: "preserves ?I (vault_set (pc_id config) x)" for x
    unfolding vault_set_def vault_store_def using assms(1)
    by (intro preserves_bind provider_reads)
      (auto split: outcome.split option.split intro!: preserves_bind preserves_modify
        simp: provider_at_def stored_provider_def blocked_provider_def)
  have settle: "preserves ?I (settle_key (pc_id config) x)" for x
    unfolding settle_key_def by (intro preserves_bind preserves_map_err provider_reads vault)
  have encode: "preserves ?I (f x) \<Longrightarrow> preserves ?I (op_bind (ai_encode x) f)" for x f
    unfolding preserves_iff_hoare by (rule encode_at)
  have one: "?I w \<Longrightarrow> ?I (apply_ai_row (ABlocked (pc_id config) c) w)"
    "?I w \<Longrightarrow> ?I (apply_ai_row (AConfig (pc_id config) config) w)" for c w
    using assms(1) by (auto simp: provider_at_def stored_provider_def blocked_provider_def)
  have put: "(\<And>w. ?I w \<Longrightarrow> ?I (fold apply_ai_row xs w)) \<Longrightarrow> preserves ?I (ai_put_rows xs)" for xs
    unfolding ai_put_rows_def by (intro preserves_bind provider_reads preserves_modify)
  have block: "preserves ?I (set_provider_credential_dispatch_blocked (pc_id config) c)" for c
    unfolding set_provider_credential_dispatch_blocked_def ai_save_def
    by (intro encode put) (use one in auto)
  have undo: "preserves ?I (compensate (pc_id config) before e)" for before e
    unfolding compensate_def by (intro preserves_bind preserves_attempt settle block preserves_basic)
  show ?thesis
    unfolding commit_rows_def Let_def
    by (rule encode, intro preserves_option put preserves_bind[of _ "op_map_err g m" for g m] preserves_map_err provider_reads)
      (use assms one in \<open>auto intro!: encode preserves_sum settle block undo preserves_attempt put preserves_bind[of _ "op_attempt m" for m]
         preserves_bind[of _ "set_provider_credential_dispatch_blocked j c" for j c]\<close>)
qed

section \<open>The handler\<close>

definition requested_key :: "ai_provider_request \<Rightarrow> string option" where
  "requested_key r = (case ar_api_key r of Some k \<Rightarrow> if k = [] then None else Some k | None \<Rightarrow> None)"

text \<open>What a save makes of a provider that had \<open>p\<close> stored.\<close>

definition saved_provider :: "ai_provider_request \<Rightarrow> string \<Rightarrow> stored_provider \<Rightarrow> stored_provider \<Rightarrow> bool" where
  "saved_provider r i p p' \<longleftrightarrow> (\<exists>config md ds. p' = (Some config, Some md, Some ds) \<and> pc_id config = i
     \<and> pc_base_url config = base_of r \<and> md_base_url md = base_of r
     \<and> md_enabled_models md = enabled_of r \<and> pc_model config \<in> set (enabled_of r)
     \<and> pc_revision config = (case fst p of None \<Rightarrow> 1 | Some old \<Rightarrow> pc_revision old + 1))"

lemma hoare_require:
  assumes "c \<Longrightarrow> hoare I (f ()) Q (\<lambda>_. E)" "\<And>w. I w \<Longrightarrow> E w"
  shows "hoare I (op_bind (ai_require c e) f) Q (\<lambda>_. E)"
  using assms by (cases c) (auto simp: hoare_def op_bind_run ai_require_def ensure_def)

lemma prepare_at:
  "hoare (provider_at i p k b) (prepare_provider_save E q)
     (\<lambda>x w. (pc_base_url (fst x) = sp_base_url q \<and> pc_model (fst x) = sp_model q \<and> snd x = sp_api_key q
        \<and> (pc_id (fst x) = i \<longrightarrow> pc_revision (fst x) = (case fst p of None \<Rightarrow> 1 | Some old \<Rightarrow> pc_revision old + 1)))
        \<and> provider_at i p k b w)
     (\<lambda>_. provider_at i p k b)"
proof -
  have fetch: "hoare (provider_at i p k b) (ai_fetch_maybe v_configs j)
      (\<lambda>x w. provider_at i p k b w \<and> (j = i \<longrightarrow> x = fst p)) (\<lambda>_. provider_at i p k b)" for j
    unfolding ai_fetch_maybe_def
    by (rule hoare_then) (auto intro!: provider_reads simp: hoare_def provider_at_def stored_provider_def)
  have name: "preserves (provider_at i p k b) (case sp_id q of Some i \<Rightarrow> op_return i | None \<Rightarrow> ai_new_id E ''provider'')"
    by (auto simp: ai_new_id_def preserves_def op_bind_run split: option.split)
  show ?thesis
    unfolding prepare_provider_save_def
    by ((rule hoare_then[OF preserves_basic(3)])+, rule hoare_then[OF name], rule hoare_then[OF preserves_basic(3)],
        rule hoare_bind[OF fetch])
      (auto simp: hoare_def op_bind_run ai_require_def ensure_def Let_def split: sum.split)
qed

lemma prepare_then:
  assumes "\<And>config. \<lbrakk>pc_base_url config = sp_base_url q; pc_model config = sp_model q;
        pc_id config = i \<longrightarrow> pc_revision config = (case fst p of None \<Rightarrow> 1 | Some old \<Rightarrow> pc_revision old + 1)\<rbrakk>
      \<Longrightarrow> hoare (provider_at i p k b) (f (config, sp_api_key q)) Q (\<lambda>_. E)"
    and "\<And>w. provider_at i p k b w \<Longrightarrow> E w"
  shows "hoare (provider_at i p k b) (op_bind (prepare_provider_save EE q) f) Q (\<lambda>_. E)"
proof (rule hoare_bind)
  show "hoare (provider_at i p k b) (prepare_provider_save EE q)
     (\<lambda>x w. (pc_base_url (fst x) = sp_base_url q \<and> pc_model (fst x) = sp_model q \<and> snd x = sp_api_key q
        \<and> (pc_id (fst x) = i \<longrightarrow> pc_revision (fst x) = (case fst p of None \<Rightarrow> 1 | Some old \<Rightarrow> pc_revision old + 1)))
        \<and> provider_at i p k b w) (\<lambda>_. E)"
    by (rule hoare_weaken[OF prepare_at]) (use assms(2) in auto)
  show "hoare (\<lambda>w. (pc_base_url (fst x) = sp_base_url q \<and> pc_model (fst x) = sp_model q \<and> snd x = sp_api_key q
        \<and> (pc_id (fst x) = i \<longrightarrow> pc_revision (fst x) = (case fst p of None \<Rightarrow> 1 | Some old \<Rightarrow> pc_revision old + 1)))
        \<and> provider_at i p k b w) (f x) Q (\<lambda>_. E)" for x
    by (cases x, rule hoare_conj) (use assms(1)[of "fst x"] in simp)
qed

lemma saved_rows_at:
  assumes "pc_id config = i" "provider_at i p k b w"
  shows "provider_at i (Some config, Some md, Some ds) k b
    (fold apply_ai_row (AConfig (pc_id config) config # [AMetadata i md, ADeclarations i ds, ADefaults d]) w)"
  using assms by (simp add: provider_at_def stored_provider_def blocked_provider_def)

lemma other_rows_at:
  assumes "j \<noteq> i" "provider_at i p k b w"
  shows "provider_at i p k b (fold apply_ai_row [AMetadata j md, ADeclarations j ds, ADefaults d] w)"
  using assms by (simp add: provider_at_def stored_provider_def blocked_provider_def)

lemma commit_save_at:
  fixes i r p k
  defines "E \<equiv> \<lambda>w. provider_at i p k False w \<or> blocked_provider w i
    \<or> (\<exists>p'. saved_provider r i p p' \<and> provider_at i p' (new_key (requested_key r) k) False w)"
  assumes config: "pc_base_url config = base_of r" "pc_model config \<in> set (enabled_of r)"
      "pc_id config = i \<longrightarrow> pc_revision config = (case fst p of None \<Rightarrow> 1 | Some old \<Rightarrow> pc_revision old + 1)"
    and md: "md_base_url md = base_of r" "md_enabled_models md = enabled_of r"
  shows "hoare (provider_at i p k False) (commit_prepared_provider_save (config, requested_key r)
      [AMetadata (pc_id config) md, ADeclarations (pc_id config) ds, ADefaults d])
    (\<lambda>_ w. if pc_id config = i then \<exists>p'. saved_provider r i p p' \<and> provider_at i p' (new_key (requested_key r) k) False w
       else provider_at i p k False w) (\<lambda>_. E)"
proof (cases "pc_id config = i")
  case True
  let ?p = "(Some config, Some md, Some ds)"
  have saved: "saved_provider r i p ?p"
    using config md True by (auto simp: saved_provider_def)
  have "hoare (provider_at i p k False) (commit_prepared_provider_save (config, requested_key r)
      [AMetadata (pc_id config) md, ADeclarations (pc_id config) ds, ADefaults d])
    (\<lambda>_. provider_at i ?p (new_key (requested_key r) k) False) (\<lambda>_. E)"
    unfolding commit_prepared_provider_save_def prod.case
  proof (rule hoare_bind[where R = "\<lambda>_. provider_at i ?p (new_key (requested_key r) k) False"])
    show "hoare (provider_at i p k False) (commit_rows config (requested_key r)
        [AMetadata (pc_id config) md, ADeclarations (pc_id config) ds, ADefaults d])
      (\<lambda>_. provider_at i ?p (new_key (requested_key r) k) False) (\<lambda>_. E)"
      unfolding E_def True[symmetric]
      by (rule hoare_weaken[OF commit_rows_at[OF saved_rows_at[OF refl]]]) auto
    show "hoare (provider_at i ?p (new_key (requested_key r) k) False) cancel_in_flight
      (\<lambda>_. provider_at i ?p (new_key (requested_key r) k) False) (\<lambda>_. E)" for a :: unit
      using saved by (auto simp: cancel_in_flight_def hoare_def op_bind_run E_def)
  qed
  then show ?thesis by (rule hoare_weaken) (use True saved in auto)
next
  case False
  have "preserves (provider_at i p k False) (commit_prepared_provider_save (config, requested_key r)
      [AMetadata (pc_id config) md, ADeclarations (pc_id config) ds, ADefaults d])"
    unfolding commit_prepared_provider_save_def prod.case cancel_in_flight_def
    by (intro preserves_bind commit_rows_frame preserves_basic False other_rows_at)
      (auto split: if_split intro!: preserves_modify)
  then have "hoare (provider_at i p k False) (commit_prepared_provider_save (config, requested_key r)
      [AMetadata (pc_id config) md, ADeclarations (pc_id config) ds, ADefaults d])
    (\<lambda>_. provider_at i p k False) (\<lambda>_. provider_at i p k False)"
    by (simp add: preserves_iff_hoare)
  then show ?thesis by (rule hoare_weaken) (use False in \<open>auto simp: E_def\<close>)
qed

lemma save_ai_provider_at:
  fixes i r p k
  defines "E \<equiv> \<lambda>w. provider_at i p k False w \<or> blocked_provider w i
    \<or> (\<exists>p'. saved_provider r i p p' \<and> provider_at i p' (new_key (requested_key r) k) False w)"
  shows "hoare (provider_at i p k False) (save_ai_provider EE r)
    (\<lambda>x w. if fst x = i then \<exists>p'. saved_provider r i p p' \<and> provider_at i p' (new_key (requested_key r) k) False w
       else provider_at i p k False w) (\<lambda>_. E)"
  unfolding save_ai_provider_def Let_def E_def
  apply (rule hoare_then[OF provider_reads(5)])
  apply (rule hoare_then)
  apply (auto split: option.split intro: provider_reads)[1]
  apply (rule hoare_then)
  apply (auto split: option.split intro: provider_reads)[1]
  apply (rule hoare_require)
  apply (rule hoare_then[OF preserves_basic(3)])
  apply (rule hoare_then[OF preserves_basic(3)])
  apply (rule prepare_then)
  apply (unfold save_provider_request.simps fst_conv requested_key_def[symmetric])
  apply (rule hoare_then[OF provider_reads(7)])
  apply (rule hoare_then[OF provider_reads(8)])
  apply (rule encode_at)
  apply (rule encode_at)
  apply (rule encode_at)
  apply (rule hoare_bind)
  apply (rule commit_save_at)
  apply assumption
  apply simp
  apply assumption
  apply simp
  apply simp
  apply (auto simp: hoare_def)
  done

text \<open>
  C9: saving the AI settings of a provider is atomic for its use across the store and the
  credential store, which share no transaction: whatever the outcomes of their operations, and
  wherever the service stops (every later outcome a failure), a provider that was usable is
  afterwards blocked, or has the configuration and the key it had, or has the requested
  configuration with the requested key; a successful save ends in the last case, unblocked.
\<close>

theorem provider_save_is_atomic:
  assumes "\<not> blocked_provider w i" "save_ai_provider E r w = (res, v)"
  shows "(blocked_provider v i
    \<or> stored_provider v i = stored_provider w i \<and> om_get (v_vault v) i = om_get (v_vault w) i
    \<or> saved_provider r i (stored_provider w i) (stored_provider v i)
      \<and> om_get (v_vault v) i = new_key (requested_key r) (om_get (v_vault w) i))
   \<and> (\<forall>defaults. res = Inr (i, defaults) \<longrightarrow> \<not> blocked_provider v i
      \<and> saved_provider r i (stored_provider w i) (stored_provider v i)
      \<and> om_get (v_vault v) i = new_key (requested_key r) (om_get (v_vault w) i))"
proof -
  have start: "provider_at i (stored_provider w i) (om_get (v_vault w) i) False w"
    using assms(1) by (simp add: provider_at_def)
  show ?thesis
  proof (cases res)
    case (Inl e)
    from hoare_err[OF save_ai_provider_at start assms(2)[unfolded Inl]] Inl show ?thesis
      by (auto simp: provider_at_def)
  next
    case (Inr x)
    from hoare_ok[OF save_ai_provider_at start assms(2)[unfolded Inr]] Inr show ?thesis
      by (cases "fst x = i") (auto simp: provider_at_def)
  qed
qed

text \<open>A first save, in an empty workspace.\<close>

definition sample_ai_env :: ai_env where
  "sample_ai_env = \<lparr>ae_service = sample_service, ae_parse_url = (\<lambda>_. Some sample_url), ae_parse_ip = (\<lambda>_. None),
     ae_parse_json = (\<lambda>_. None), ae_transport = Inr (), ae_reply = (\<lambda>_. Inr JNull), ae_gap = (\<lambda>_ w. w)\<rparr>"

definition empty_ai_ws :: ai_ws where
  "empty_ai_ws = \<lparr>v_configs = [], v_metadata = [], v_declarations = [], v_defaults = None, v_blocked = [],
     v_dispatches = [], v_chunks = [], v_vault = [], v_now = 100, v_issued = 0, v_tokens = [], v_fired = [],
     v_poisoned = False, v_outcomes = [], v_sent = []\<rparr>"

definition sample_save :: ai_provider_request where
  "sample_save = \<lparr>ar_id = Some ''p'', ar_provider_id = None, ar_name = ''n'', ar_preset = ''custom'',
     ar_base_url = ''https://example.com'', ar_model = ''m'', ar_enabled_models = [''m''], ar_model_capabilities = [],
     ar_presence = [], ar_api_key = Some ''k'', ar_trust_raw = Some True, ar_allow_private_network = False\<rparr>"

lemma sample_base: "normalized_base ''https://example.com'' = ''https://example.com''" "base_of sample_save = ''https://example.com''"
  "recognized_preset ''https://example.com'' = None"
  by (simp_all add: normalized_base_def trim_end_matches.simps suffix_to_prefix str_trim_plain is_whitespace_def base_of_def sample_save_def recognized_preset_def ai_presets_def)

lemma sample_enabled: "enabled_of sample_save = [''m'']" by (simp add: enabled_of_def sample_save_def)

lemma sample_origin: "pc_base_url config = ''https://example.com'' \<Longrightarrow> \<not> pc_allow_private_network config \<Longrightarrow>
    \<exists>x. provider_endpoint_origin (\<lambda>_. Some sample_url) (\<lambda>_. None) (profile_of config) = Inr x"
  by (simp add: provider_endpoint_origin_def parsed_provider_base_url_def resolve_base_url_def non_empty_def profile_of_def new_default_def
      no_options_def sample_url_def is_private_provider_host_def trim_end_char_def strip_brackets_def strip_prefix_def
      strip_suffix_def ascii_lower_def is_ascii_upper_def suffix_def Let_def private_network_is_explicitly_allowed_def)

lemma sample_bounded: "bounded ''https://example.com'' 1000 = Inr ()" "bounded ''m'' 200 = Inr ()" "bounded ''n'' 120 = Inr ()"
  by (simp_all add: bounded_def str_trim_plain is_whitespace_def)
lemma sample_valid_id: "valid_id ''p'' = Inr ()" by (simp add: valid_id_def is_ascii_alnum_def is_ascii_lower_def)

lemma sample_save_runs: "\<exists>v d. save_ai_provider sample_ai_env sample_save empty_ai_ws = (Inr (''p'', d), v)"
proof -
  note steps = op_bind_run ai_lock_def ai_io_def ai_outcome_def ai_require_def ai_fetch_maybe_def
  define q where "q = \<lparr>sp_id = Some ''p'', sp_name = ''n'', sp_base_url = ''https://example.com'', sp_model = ''m'',
    sp_api_key = Some ''k'', sp_allow_private_network = False\<rparr>"
  define config where "config = \<lparr>pc_id = ''p'', pc_name = ''n'', pc_base_url = ''https://example.com'', pc_model = ''m'',
     pc_allow_private_network = False, pc_revision = 1\<rparr>"
  have prep: "prepare_provider_save sample_ai_env q empty_ai_ws = (Inr (config, Some ''k''), empty_ai_ws)"
    using sample_origin[of config]
    by (auto simp add: prepare_provider_save_def q_def config_def steps sample_bounded sample_valid_id sample_ai_env_def empty_ai_ws_def valid_key_def map_err_def Let_def)
  have commit: "fst (commit_prepared_provider_save (config, Some ''k'')
      [AMetadata ''p'' md, ADeclarations ''p'' ds, ADefaults d] empty_ai_ws) = Inr ()" for md ds d
    by (simp add: commit_prepared_provider_save_def commit_rows_def steps config_def empty_ai_ws_def
      ai_encode_def vault_read_def op_map_err_def set_provider_credential_dispatch_blocked_def ai_save_def ai_put_rows_def
      op_attempt_def settle_key_def vault_set_def vault_store_def ensure_def Let_def expected_key_def cancel_in_flight_def)
  have idle: "v_outcomes empty_ai_ws = []" "v_metadata empty_ai_ws = []" "v_declarations empty_ai_ws = []"
    by (simp_all add: empty_ai_ws_def)
  have ctl: "\<not> has_control ''m''" by (simp add: chars_plain is_control_def)
  show ?thesis
    using commit
    by (simp add: save_ai_provider_def steps idle sample_base sample_base(2)[unfolded sample_save_def] sample_enabled[unfolded sample_save_def] merge_all_def Let_def or_else_def
       sample_save_def prep[unfolded q_def] validate_capabilities_def ctl ai_now_def ai_defaults_def ai_encode_def
       config_def split_beta)
qed

theorem provider_save_is_atomic_witness:
  "\<exists>v d. save_ai_provider sample_ai_env sample_save empty_ai_ws = (Inr (''p'', d), v)
    \<and> \<not> blocked_provider v ''p'' \<and> om_get (v_vault v) ''p'' = Some ''k''
    \<and> saved_provider sample_save ''p'' (None, None, None) (stored_provider v ''p'')"
proof -
  obtain v d where run: "save_ai_provider sample_ai_env sample_save empty_ai_ws = (Inr (''p'', d), v)"
    using sample_save_runs by blast
  have before: "\<not> blocked_provider empty_ai_ws ''p''" "stored_provider empty_ai_ws ''p'' = (None, None, None)"
    by (simp_all add: blocked_provider_def stored_provider_def empty_ai_ws_def)
  have key: "new_key (requested_key sample_save) k = Some ''k''" for k
    by (simp add: new_key_def requested_key_def sample_save_def expected_key_def)
  from provider_save_is_atomic[OF before(1) run] run before(2) key show ?thesis by auto
qed

section \<open>A later save lifts the block\<close>

text \<open>
  The theorem asks that the provider was not blocked, and needs it: a save of a blocked provider
  that fails at the key restores the key it found, which no completed save chose, and then lifts
  the block.
\<close>

lemma later_failure_lifts_the_block:
  assumes "v_outcomes w = [Passes, Passes, Passes, Passes, Passes, Fails e]" "om_get (v_vault w) (pc_id config) = Some found"
  shows "\<exists>v. commit_rows config (Some k) rows w = (Inl write_failed, v)
    \<and> \<not> blocked_provider v (pc_id config) \<and> om_get (v_vault v) (pc_id config) = Some found
    \<and> stored_provider v (pc_id config) = stored_provider w (pc_id config)"
  using assms
  by (simp add: commit_rows_def op_bind_run ai_encode_def ai_io_def ai_outcome_def vault_read_def op_map_err_def
      set_provider_credential_dispatch_blocked_def ai_save_def ai_put_rows_def op_attempt_def settle_key_def
      vault_set_def vault_store_def compensate_def ai_require_def ensure_def Let_def
      blocked_provider_def stored_provider_def)

section \<open>The older form of a save keeps the trust\<close>

text \<open>
  The older handler writes only the configuration: the trust that was given for the endpoint of
  before goes on for whatever endpoint the configuration now names.
\<close>

lemma preserves_encode:
  assumes "\<And>w xs. I w \<Longrightarrow> I (w\<lparr>v_outcomes := xs\<rparr>)" "preserves I (f r)"
  shows "preserves I (op_bind (ai_encode r) f)"
proof (rule preservesI)
  fix w x v
  assume w: "I w" and run: "op_bind (ai_encode r) f w = (x, v)"
  have io: "preserves I ai_io" by (rule preserves_ai_io) (rule assms(1))
  from run show "I v"
    unfolding ai_encode_def
    by (elim op_bind_cases) (use w assms(2) io in \<open>auto dest: preservesD\<close>)
qed

lemma older_save_keeps_metadata: "preserves (\<lambda>w. v_metadata w = m) (save_provider E r)"
proof -
  let ?I = "\<lambda>w. v_metadata w = m"
  have io: "?I w \<Longrightarrow> ?I (w\<lparr>v_outcomes := xs\<rparr>)" for w :: ai_ws and xs by simp
  have reads: "preserves ?I (ai_fetch_maybe t j)" "preserves ?I (vault_read j)" "preserves ?I ai_lock"
    "preserves ?I (ai_require c e)" "preserves ?I ai_outcome" "preserves ?I ai_io" "preserves ?I (ai_new_id E p)" for t j c e p
    by (rule preserves_ai_reads preserves_ai_io, rule io, assumption)+
      (auto simp: ai_new_id_def preserves_def op_bind_run)
  have put: "(\<And>w. ?I w \<Longrightarrow> ?I (fold apply_ai_row rows w)) \<Longrightarrow> preserves ?I (ai_put_rows rows)" for rows
    unfolding ai_put_rows_def by (intro preserves_bind reads preserves_modify)
  have settle: "preserves ?I (settle_key i k)" for i k
    unfolding settle_key_def vault_set_def vault_store_def
    by (intro preserves_bind preserves_map_err reads)
      (auto split: outcome.split option.split intro!: preserves_bind preserves_modify)
  have block: "preserves ?I (set_provider_credential_dispatch_blocked i b)" for i b
    unfolding set_provider_credential_dispatch_blocked_def ai_save_def
    by (intro preserves_encode put) simp_all
  have undo: "preserves ?I (compensate i before e)" for i before e
    unfolding compensate_def by (intro preserves_bind preserves_attempt settle block preserves_basic)
  have commit: "preserves ?I (commit_rows config requested [])" for config requested
    unfolding commit_rows_def Let_def
    by (rule preserves_encode, rule io, assumption, cases requested; simp only: option.case)
      (intro put preserves_bind preserves_encode preserves_map_err preserves_attempt preserves_sum reads settle block undo
        preserves_basic; simp)+
  show ?thesis
    unfolding save_provider_def prepare_provider_save_def commit_prepared_provider_save_def cancel_in_flight_def Let_def split_beta
    by (intro preserves_bind reads commit preserves_option preserves_if preserves_basic preserves_modify) simp
qed

lemma trust_survives_the_endpoint:
  assumes "save_provider E r w = (Inr i, v)" "om_get (v_metadata w) i = Some md"
    and "om_get (v_configs v) i = Some config" "pc_id config = i"
  shows "md_trust_raw (metadata_of v config) = md_trust_raw md"
proof -
  have "v_metadata v = v_metadata w" using preservesD[OF older_save_keeps_metadata _ assms(1)] by simp
  with assms show ?thesis by (simp add: metadata_of_def)
qed

end
