(* ===== verification/Redaction_Run.thy ===== *)
theory Redaction_Run imports Redaction Ai_Save begin

text \<open>
  Concrete runs of the redaction, on which its properties are instantiated: a text of two letters,
  a provider that the user trusts, and a peer that fails, or chunks that are already stored.
\<close>

section \<open>The analysis of a text without findings\<close>

definition sample_group_ai :: ws_group where
  "sample_group_ai = \<lparr>wg_id = ''grp'', wg_name = ''g'', wg_dictionary_revision = 1, wg_namespace = ''ns'', wg_entries = []\<rparr>"

lemma quiet_analysis:
  "analyze_internal sample_engine silent_detectors ''ok'' ''ns'' [] [] [] []
     = Inr (sample_analysis\<lparr>a_ai_findings := None\<rparr>)"
proof -
  have inputs: "validate_inputs ''ok'' ''ns'' [] [] [] = Inr ()" "validate_ai_inputs ''ok'' [] = Inr ()"
    by (simp_all add: validate_inputs_def MAX_TEXT_BYTES_def MAX_NAMESPACE_BYTES_def MAX_DICTIONARY_ENTRIES_def
      MAX_CLOUD_FINDINGS_def MAX_DISMISSED_FINDINGS_def str_trim_plain is_whitespace_def has_control_def
      chars_def is_control_def validate_ai_inputs_def)
  have collect: "collect_candidates sample_engine silent_detectors ''ok'' ''ns'' [] [] [] = Inr []"
    by (simp add: collect_candidates_def silent_detectors_def credential_assignment_matches_def
      structured_opaque_identifier_matches_def no_match_def)
  have aliases: "apply_explicit_organization_aliases sample_engine ''ok'' ''ns'' [] = Inr ([], [])"
    by (simp add: apply_explicit_organization_aliases_def declarations_def)
  have valid: "validate_analysis sample_engine (sample_analysis\<lparr>a_ai_findings := None\<rparr>) = Inr ()"
    using sample_analysis_valid by (simp add: validate_analysis_def sample_analysis_def)
  then have checked: "validate_result sample_engine ''ok'' [] = Inr ()"
    by (simp add: validate_analysis_def sample_analysis_def)
  have "build_analysis sample_engine ''ok'' ''ns'' [] [] [] = Inr (sample_analysis\<lparr>a_ai_findings := None\<rparr>)"
    using valid sample_analysis_source checked
    by (simp add: build_analysis_def group_by_key_def suppress_redundant_local_ner_def mark_conflicting_repeated_people_def
      person_occurrences_def apply_replacements_def sample_analysis_def verify_analysis_source_def Let_def str_get_def is_char_boundary_def)
  with inputs collect aliases show ?thesis by (simp add: analyze_internal_def)
qed

lemma quiet_verify: "verify_analysis_source sample_digest ''ok'' sample_analysis = Inr ()"
  "validate_analysis sample_engine sample_analysis = Inr ()"
  by (rule sample_analysis_source sample_analysis_valid)+

lemma quiet_ranges: "ranges_of ''ok'' = [(0, 2)]" "str_get ''ok'' 0 2 = Some ''ok''"
  by (simp_all add: ranges_of_def chunk_ranges_def MAX_ENTITY_CHUNK_BYTES_def str_get_def is_char_boundary_def)

definition locate_key :: chunk_key where
  "locate_key = \<lparr>ck_source_binding = ''b'', ck_phase = ''locate'', ck_pass = ''primary'', ck_start = 0, ck_end = 2,
     ck_prompt_fingerprint = ''local-hints:'' @ decimal 0, ck_selection = sample_selection, ck_provider_revision = 1\<rparr>"

definition omission_key :: chunk_key where
  "omission_key = \<lparr>ck_source_binding = sample_hash (''redaction-check:v1:'' @ ''b''), ck_phase = ''omission'',
     ck_pass = ''check'', ck_start = 0, ck_end = 2, ck_prompt_fingerprint = sample_hash [],
     ck_selection = sample_selection, ck_provider_revision = 1\<rparr>"

definition cached :: "chunk_key \<Rightarrow> (string, ai_chunk) omap" where
  "cached k = [(redaction_chunk_cache_id sample_service k, chunk_record k [] 0)]"

definition trusted_ws :: ai_ws where
  "trusted_ws = empty_ai_ws\<lparr>v_configs := [(''p'', \<lparr>pc_id = ''p'', pc_name = ''n'', pc_base_url = ''https://example.com'',
      pc_model = ''m'', pc_allow_private_network = False, pc_revision = 1\<rparr>)],
    v_metadata := [(''p'', \<lparr>md_preset = ''custom'', md_enabled_models = [''m''], md_trust_raw = True,
      md_base_url = ''https://example.com'', md_model_capabilities = []\<rparr>)],
    v_vault := [(''p'', ''k'')], v_tokens := [7]\<rparr>"

text \<open>Both passes find their chunk stored: other work left the second one there between them.\<close>

definition cached_env :: ai_env where
  "cached_env = sample_ai_env\<lparr>ae_gap := \<lambda>k w. if k = 7 then w\<lparr>v_chunks := cached omission_key\<rparr> else w\<rparr>"

definition cached_ws :: ai_ws where
  "cached_ws = trusted_ws\<lparr>v_chunks := cached locate_key\<rparr>"

lemma trust_runs:
  assumes "v_outcomes w = []" "v_configs w = v_configs trusted_ws" "v_metadata w = v_metadata trusted_ws"
  shows "require_trusted sample_selection w = (Inr (), w)"
    "ai_config sample_selection w = (Inr (snd (hd (v_configs trusted_ws)), snd (hd (v_metadata trusted_ws))), w)"
  using assms
  by (simp_all add: require_trusted_def ai_provider_is_trusted_def ai_config_def ai_fetch_def ai_fetch_maybe_def ai_io_def
    ai_outcome_def ai_metadata_def metadata_of_def ai_require_def op_bind_run sample_selection_def trusted_ws_def ensure_def
    empty_ai_ws_def)

lemma cached_findings:
  assumes "v_outcomes w = []" "v_chunks w = cached k" "ae_service E = sample_service"
  shows "findings_of_chunk E sel k messages chunk binding token w = (Inr [], w)"
  using assms by (simp add: findings_of_chunk_def load_ai_chunk_def op_bind_run ai_fetch_maybe_def ai_io_def ai_outcome_def
      cached_def ai_require_def ensure_def chunk_matches_def chunk_record_def Let_def)

section \<open>A request that fails\<close>

definition failing_env :: ai_env where
  "failing_env = sample_ai_env\<lparr>ae_reply := \<lambda>_. Inl (new_provider_error Network)\<rparr>"

definition two_messages :: "string \<Rightarrow> string \<Rightarrow> json" where
  "two_messages a b = JArr [chat_message ''system'' a, chat_message ''user'' b]"

lemma entity_messages_two: "\<exists>a b. entity_messages pass chunk x y n = two_messages a b"
  unfolding entity_messages_def two_messages_def by (intro exI) (rule refl)

definition trusted_config :: provider_config where "trusted_config = snd (hd (v_configs trusted_ws))"
definition trusted_metadata :: ai_metadata where "trusted_metadata = snd (hd (v_metadata trusted_ws))"

lemma trusted_capabilities: "resolved_model_capabilities trusted_metadata ''m'' = Inr \<lparr>xc_verified = False,
   xc_context_window_tokens = UNKNOWN_CONTEXT_WINDOW_TOKENS,
   xc_max_input_tokens = UNKNOWN_INPUT_TOKENS, xc_max_output_tokens = UNKNOWN_MAX_OUTPUT_TOKENS, xc_supports_tools = None,
                xc_supports_structured_output = None, xc_supports_vision = None\<rparr>"
  by (simp add: resolved_model_capabilities_def trusted_metadata_def trusted_ws_def default_capabilities_def
   UNKNOWN_CONTEXT_WINDOW_TOKENS_def UNKNOWN_MAX_OUTPUT_TOKENS_def)

lemma two_messages_no_image: "\<not> contains_image_input (two_messages a b)"
  by (simp add: two_messages_def chat_message_def)

lemma trusted_endpoint: "provider_endpoint_origin (\<lambda>_. Some sample_url) (\<lambda>_. None) ((profile_of trusted_config)\<lparr>pf_model_id := ''m''\<rparr>) = Inr ''https://example.com''"
  "\<exists>u. chat_completions_url (\<lambda>_. Some sample_url) (\<lambda>_. None) ((profile_of trusted_config)\<lparr>pf_model_id := ''m''\<rparr>) = Inr u"
  by (simp_all add: chat_completions_url_def provider_endpoint_origin_def parsed_provider_base_url_def resolve_base_url_def non_empty_def profile_of_def new_default_def
      no_options_def sample_url_def is_private_provider_host_def trim_end_char_def strip_brackets_def strip_prefix_def
      strip_suffix_def ascii_lower_def is_ascii_upper_def suffix_def Let_def private_network_is_explicitly_allowed_def
      trusted_config_def trusted_ws_def split_beta)

lemma purpose_text: "validate_provider_binding_text REDACTION_PURPOSE = Inr ()"
  by (simp add: validate_provider_binding_text_def REDACTION_PURPOSE_def chars_plain is_control_def ensure_def)

lemma hash_text: "valid_lower_sha256 (sample_hash x)"
  using sample_hash_simps(3)[of x] by (simp add: valid_lower_sha256_def valid_sha256_def)

lemma dispatch_body_members: "\<exists>ms. dispatch_body sample_selection trusted_metadata msgs tools f n = JObj ms
   \<and> om_get ms ''messages'' = Some msgs \<and> om_get ms ''model'' = Some (JStr ''m'') \<and> om_get ms ''stream'' = Some (JBool False)"
  by (simp add: dispatch_body_def trusted_metadata_def trusted_ws_def sample_selection_def ascii_lower_def is_ascii_upper_def
     Let_def del: om_put.simps split: option.split)

text \<open>Messages that a request may carry.\<close>

definition plain_messages :: "json list \<Rightarrow> bool" where
  "plain_messages ms \<longleftrightarrow> ms \<noteq> [] \<and> length ms \<le> 256 \<and> \<not> contains_image_input (JArr ms)
     \<and> list_all (\<lambda>m. as_str (json_index m ''role'') \<in> {Some ''system'', Some ''user'', Some ''assistant'', Some ''tool''}) ms"

lemma trusted_authorized:
  assumes "plain_messages msgs" "validate_provider_binding_text purpose = Inr ()"
  shows "\<exists>q. authorize_workspace_json failing_env 100 ((profile_of trusted_config)\<lparr>pf_model_id := ''m''\<rparr>)
    (dispatch_body sample_selection trusted_metadata (JArr msgs) tools f n) purpose (sample_hash x) 1000 = Inr q
  \<and> aj_expires q = 1000 \<and> aj_profile_hash q = workspace_profile_sha256 failing_env ((profile_of trusted_config)\<lparr>pf_model_id := ''m''\<rparr>)
  \<and> aj_body_hash q = content_hash (ae_service failing_env) (sv_to_vec (ae_service failing_env) (aj_body q))"
proof -
  obtain ms where ms: "dispatch_body sample_selection trusted_metadata (JArr msgs) tools f n = JObj ms"
   "map_of ms ''messages'' = Some (JArr msgs)" "map_of ms ''model'' = Some (JStr ''m'')" "map_of ms ''stream'' = Some (JBool False)"
    using dispatch_body_members by blast
  show ?thesis unfolding ms(1)
    using ms(2-4) trusted_endpoint assms hash_text
    by (simp add: authorize_workspace_json_def failing_env_def sample_ai_env_def json_get_def as_array_def json_index_def
      as_str_def effective_model_id_def ok_or_def ensure_def profile_of_def new_default_def plain_messages_def)
qed

definition calm :: "ai_ws \<Rightarrow> bool" where
  "calm w \<longleftrightarrow> v_outcomes w = [] \<and> v_configs w = v_configs trusted_ws \<and> v_metadata w = v_metadata trusted_ws \<and> v_fired w = []
     \<and> v_blocked w = [] \<and> v_vault w = [(''p'', ''k'')] \<and> v_now w = 100"

lemma calm_runs:
  assumes "calm w"
  shows "ai_lock w = (Inr (), w)" "fired t w = (Inr False, w)" "ai_gap failing_env k w = (Inr (), w)"
    "ai_config sample_selection w = (Inr (trusted_config, trusted_metadata), w)"
    "ai_now w = (Inr 100, w)" "ai_save r w = (Inr (), apply_ai_row r w)"
    "require_trusted sample_selection w = (Inr (), w)" "unless_cancelled t w = (Inr (), w)"
    "provider_dispatch_snapshot_locked failing_env trusted_config w = (Inr (trusted_config, profile_of trusted_config, ''k''), w)"
proof -
  note quiet = assms[unfolded calm_def]
  have trust: "require_trusted sample_selection w = (Inr (), w)"
    "ai_config sample_selection w = (Inr (trusted_config, trusted_metadata), w)"
    using quiet trust_runs[of w] by (simp_all add: trusted_config_def trusted_metadata_def)
  then show "require_trusted sample_selection w = (Inr (), w)"
    "ai_config sample_selection w = (Inr (trusted_config, trusted_metadata), w)" .
  show "ai_lock w = (Inr (), w)" "fired t w = (Inr False, w)" "ai_gap failing_env k w = (Inr (), w)"
    "ai_now w = (Inr 100, w)" "ai_save r w = (Inr (), apply_ai_row r w)" "unless_cancelled t w = (Inr (), w)"
    using quiet by (simp_all add: ai_lock_def ai_io_def ai_outcome_def op_bind_run fired_def ai_gap_def failing_env_def
      sample_ai_env_def ai_now_def ai_save_def ai_encode_def ai_put_rows_def unless_cancelled_def ai_require_def ensure_def)
  show "provider_dispatch_snapshot_locked failing_env trusted_config w = (Inr (trusted_config, profile_of trusted_config, ''k''), w)"
    using quiet
    by (simp add: provider_dispatch_snapshot_locked_def op_bind_run ai_fetch_def ai_fetch_maybe_def ai_io_def ai_outcome_def
      api_key_def provider_credential_dispatch_blocked_def vault_read_def ai_require_def ensure_def op_map_err_def ok_or_def
      trusted_config_def trusted_ws_def map_err_def)
qed

lemma request_fails:
  assumes msgs: "plain_messages msgs" and purpose: "validate_provider_binding_text purpose = Inr ()" and ceiling: "ceiling \<noteq> 0"
  shows "\<exists>v s. ai_complete_budgeted failing_env sample_selection (JArr msgs) tools f purpose (sample_hash x) ceiling 7 trusted_ws
      = (Inl (provider_error (new_provider_error Network)), v) \<and> v_sent v = [s]"
proof -
  let ?p = "(profile_of trusted_config)\<lparr>pf_model_id := ''m''\<rparr>"
  obtain q where q: "authorize_workspace_json failing_env 100 ?p
      (dispatch_body sample_selection trusted_metadata (JArr msgs) tools f (min ceiling UNKNOWN_MAX_OUTPUT_TOKENS))
      purpose (sample_hash x) 1000 = Inr q" "aj_expires q = 1000"
    "aj_profile_hash q = workspace_profile_sha256 failing_env ?p"
    "aj_body_hash q = content_hash (ae_service failing_env) (sv_to_vec (ae_service failing_env) (aj_body q))"
    using trusted_authorized[OF msgs purpose] by blast
  have calm0: "calm trusted_ws" by (simp add: calm_def trusted_ws_def empty_ai_ws_def)
  obtain url where url: "still_authorized failing_env 100 ?p q = Inr url"
    using trusted_endpoint(2) q by (auto simp: still_authorized_def ensure_def failing_env_def sample_ai_env_def)
  have env: "ae_transport failing_env = Inr ()" "ae_reply failing_env n = Inl (new_provider_error Network)" for n
    by (simp_all add: failing_env_def sample_ai_env_def)
  have sent: "\<exists>s. send_request failing_env sample_selection ?p ''k'' q purpose 7 w
      = (Inl (provider_error (new_provider_error Network)), w\<lparr>v_sent := v_sent w @ [s]\<rparr>)" if "calm w" for w
  proof -
    have "calm (w\<lparr>v_sent := ss\<rparr>)" for ss using that by (simp add: calm_def)
    then show ?thesis
      using url that by (simp add: send_request_def op_bind_run calm_runs log_sent_def env) (rule exI, rule refl)
  qed
  define w1 where "w1 = trusted_ws\<lparr>v_issued := Suc (v_issued trusted_ws)\<rparr>"
  have calmw: "calm w1" using calm0 by (simp add: calm_def w1_def)
  have calm1: "calm (apply_ai_row (ADispatch i d) w)" "calm (w\<lparr>v_sent := ss\<rparr>)" if "calm w" for i d w ss
    using that by (simp_all add: calm_def)
  have new: "ai_new_id failing_env ''dispatch'' trusted_ws = (Inr (''dispatch'' @ ''_'' @ sample_uuid 0), w1)"
    by (simp add: ai_new_id_def op_bind_run failing_env_def sample_ai_env_def w1_def trusted_ws_def empty_ai_ws_def)
  have none: "v_sent w1 = []" by (simp add: w1_def trusted_ws_def empty_ai_ws_def)
  have max: "min ceiling UNKNOWN_MAX_OUTPUT_TOKENS \<noteq> 0" "ceiling \<noteq> 0" "UNKNOWN_MAX_OUTPUT_TOKENS \<noteq> 0"
    using ceiling by (simp_all add: UNKNOWN_MAX_OUTPUT_TOKENS_def min_def)
  have features: "validate_requested_features c b b' b'' = Inr ()"
    if "xc_supports_tools c = None" "xc_supports_structured_output c = None" "xc_supports_vision c = None" for c b b' b''
    using that by (simp add: validate_requested_features_def ensure_def)
  have model: "sel_model sample_selection = ''m''" by (simp add: sample_selection_def)
  define d where "d = started_dispatch (''dispatch'' @ ''_'' @ sample_uuid 0) purpose (sample_hash x) sample_selection
    (pc_revision trusted_config) 100"
  define w2 where "w2 = apply_ai_row (ADispatch (''dispatch'' @ ''_'' @ sample_uuid 0) d) w1"
  have calm2: "calm w2" using calm1(1)[OF calmw] by (simp add: w2_def)
  obtain s where s: "send_request failing_env sample_selection ?p ''k'' q purpose 7 w2
      = (Inl (provider_error (new_provider_error Network)), w2\<lparr>v_sent := v_sent w2 @ [s]\<rparr>)"
    using sent[OF calm2] by blast
  have saved: "ai_save (ADispatch (''dispatch'' @ ''_'' @ sample_uuid 0) d) w1 = (Inr (), w2)"
    using calm_runs(6)[OF calmw] by (simp only: w2_def)
  have none2: "v_sent w2 = []" using none by (simp add: w2_def)
  show ?thesis
    using none2
    by (simp add: ai_complete_budgeted_def op_bind_run calm_runs(1-5,7-9) calm_runs(6)[OF calm1(2)[OF calm2]]
        calm0 calmw calm1 calm2 model Let_def trusted_capabilities
      features max q(1) new env saved[unfolded d_def, simplified] s ai_require_def ensure_def op_attempt_def
      del: contains_image_input.simps)
qed

lemma ask_fails:
  "\<exists>v s. ai_complete failing_env sample_selection (two_messages a b) None (Some json_object_format) REDACTION_PURPOSE
      (sample_hash x) 7 trusted_ws = (Inl (provider_error (new_provider_error Network)), v) \<and> v_sent v = [s]"
proof -
  have "plain_messages [chat_message ''system'' a, chat_message ''user'' b]"
    using two_messages_no_image[of a b]
    by (simp add: plain_messages_def two_messages_def chat_message_def json_index_def json_get_def as_str_def)
  from request_fails[OF this purpose_text] show ?thesis
    by (simp add: ai_complete_def two_messages_def U32_MAX_def)
qed

end
