(* ===== verification/Redaction_Trust.thy ===== *)
theory Redaction_Trust imports Redaction_Run begin

text \<open>
  What the model-led redaction guarantees: it sends text only while the provider is trusted with
  raw text and the task is not cancelled, whatever the settings handlers do meanwhile; and what it
  returns is the local analysis of exact slices of the text, whatever the provider answers.
\<close>

section \<open>What the other handlers do meanwhile\<close>

datatype ai_request =
    SaveProvider save_provider_request
  | SaveAiProvider ai_provider_request
  | SaveDefaults "(string, ai_selection) omap"
  | FireTokens "nat list"
  | PassTime nat
  | Outcomes "outcome list"

fun ai_serve :: "ai_env \<Rightarrow> ai_request \<Rightarrow> ai_ws \<Rightarrow> ai_ws" where
  "ai_serve E (SaveProvider r) w = snd (save_provider E r w)"
| "ai_serve E (SaveAiProvider r) w = snd (save_ai_provider E r w)"
| "ai_serve E (SaveDefaults d) w = snd (save_ai_defaults d w)"
| "ai_serve E (FireTokens ts) w = w\<lparr>v_fired := ts @ v_fired w\<rparr>"
| "ai_serve E (PassTime n) w = w\<lparr>v_now := v_now w + n\<rparr>"
| "ai_serve E (Outcomes xs) w = w\<lparr>v_outcomes := xs\<rparr>"

definition ai_interference :: "ai_env \<Rightarrow> bool" where
  "ai_interference E \<longleftrightarrow> (\<forall>k w. \<exists>qs. ae_gap E k w = fold (ai_serve E) qs w)"

section \<open>A change of the settings fires every registered token\<close>

type_synonym settings_view =
  "(string, provider_config) omap \<times> (string, ai_metadata) omap \<times> nat list \<times> nat list \<times> sent list \<times> bool"

definition settings_view :: "ai_ws \<Rightarrow> settings_view" where
  "settings_view w = (v_configs w, v_metadata w, v_tokens w, v_fired w, v_sent w, v_poisoned w)"

lemma settings_view_frame [simp]:
  "settings_view (w\<lparr>v_outcomes := xs\<rparr>) = settings_view w"
  "settings_view (w\<lparr>v_vault := m\<rparr>) = settings_view w"
  "settings_view (w\<lparr>v_blocked := b\<rparr>) = settings_view w"
  "settings_view (w\<lparr>v_issued := n\<rparr>) = settings_view w"
  "settings_view (w\<lparr>v_now := n\<rparr>) = settings_view w"
  "settings_view (w\<lparr>v_defaults := d\<rparr>) = settings_view w"
  "settings_view (w\<lparr>v_declarations := ds\<rparr>) = settings_view w"
  "settings_view (w\<lparr>v_dispatches := m'\<rparr>) = settings_view w"
  "settings_view (w\<lparr>v_chunks := m''\<rparr>) = settings_view w"
  by (simp_all add: settings_view_def)

definition view_is :: "settings_view \<Rightarrow> ai_ws \<Rightarrow> bool" where
  "view_is x w \<longleftrightarrow> settings_view w = x"

text \<open>After a save: as before but for what the settings are.\<close>

definition view_resaved :: "settings_view \<Rightarrow> ai_ws \<Rightarrow> bool" where
  "view_resaved x w \<longleftrightarrow> snd (snd (settings_view w)) = snd (snd x)"

definition tokens_fired :: "settings_view \<Rightarrow> ai_ws \<Rightarrow> bool" where
  "tokens_fired x w \<longleftrightarrow> (case x of (_, _, ts, fs, ss, p) \<Rightarrow>
     v_tokens w = ts \<and> v_fired w = ts @ fs \<and> v_sent w = ss \<and> v_poisoned w = p)"

lemma view_is_io: "view_is x w \<Longrightarrow> view_is x (w\<lparr>v_outcomes := xs\<rparr>)"
  by (simp add: view_is_def)

lemma preserves_view_io:
  fixes x defines "I \<equiv> view_is x"
  shows "preserves I (ai_fetch_maybe t j)" "preserves I (ai_fetch t j)" "preserves I (vault_read j)"
    "preserves I (ai_encode r)" "preserves I ai_lock" "preserves I (ai_require c e)" "preserves I ai_now"
    "preserves I ai_defaults" "preserves I (ai_config sel)" "preserves I ai_outcome" "preserves I ai_io"
    "preserves I (ai_metadata config)" "preserves I (ai_new_id E p)"
  unfolding I_def
  by (rule preserves_ai_reads preserves_ai_io, erule view_is_io)+
    (auto simp: ai_new_id_def preserves_def op_bind_run view_is_def)

lemma preserves_view_vault:
  "preserves (view_is x) (vault_set i key)" "preserves (view_is x) (settle_key i key)"
proof -
  show "preserves (view_is x) (vault_set i key)"
    unfolding vault_set_def vault_store_def
    by (intro preserves_bind preserves_view_io)
      (auto split: outcome.split option.split intro!: preserves_bind preserves_modify simp: view_is_def)
  then show "preserves (view_is x) (settle_key i key)"
    unfolding settle_key_def by (intro preserves_bind preserves_map_err preserves_view_io)
qed

text \<open>A row that is not a setting.\<close>

fun quiet_row :: "ai_row \<Rightarrow> bool" where
  "quiet_row (AConfig _ _) = False"
| "quiet_row (AMetadata _ _) = False"
| "quiet_row _ = True"

lemma quiet_row_view: "quiet_row r \<Longrightarrow> settings_view (apply_ai_row r w) = settings_view w"
  by (cases r) auto

lemma preserves_view_save: "quiet_row r \<Longrightarrow> preserves (view_is x) (ai_save r)"
  by (auto simp: ai_save_def ai_encode_def ai_put_rows_def quiet_row_view view_is_def preserves_def op_bind_run ai_io_def
      ai_outcome_def split: list.split outcome.split)

lemmas view_intros = preserves_bind preserves_map_err preserves_attempt preserves_basic preserves_if preserves_option
  preserves_sum preserves_view_io preserves_view_vault preserves_view_save

lemma preserves_view_compensate: "preserves (view_is x) (compensate i before e)"
  unfolding compensate_def set_provider_credential_dispatch_blocked_def
  by (intro view_intros) simp

lemma rows_view: "snd (snd (settings_view (fold apply_ai_row rows w))) = snd (snd (settings_view w))"
proof -
  have "snd (snd (settings_view (apply_ai_row r w))) = snd (snd (settings_view w))" for r w
    by (cases r) (simp_all add: settings_view_def)
  then show ?thesis by (induction rows arbitrary: w) simp_all
qed

lemma put_rows_view: "hoare (view_is x) (ai_put_rows rows) (\<lambda>_. view_resaved x) (\<lambda>_. view_is x)"
  unfolding ai_put_rows_def
  by (rule hoare_then[OF preserves_view_io(11)])
    (auto simp: hoare_def view_is_def view_resaved_def rows_view)

lemma hoare_reads:
  assumes "preserves (view_is x) m" "\<And>a. hoare (view_is x) (f a) Q (\<lambda>_. view_is x)"
  shows "hoare (view_is x) (op_bind m f) Q (\<lambda>_. view_is x)"
  using assms by (rule hoare_then) simp

lemma preserves_fails:
  assumes "preserves I (compensate i before e)"
  shows "hoare I (compensate i before e) Q (\<lambda>_. I)"
proof (rule hoareI)
  fix s e' t assume "I s" "compensate i before e s = (Inl e', t)"
  with assms show "I t" by (auto dest: preservesD)
next
  fix s a t assume "compensate i before e s = (Inr a, t)"
  then show "Q a t" by (auto simp: compensate_def op_bind_run op_attempt_def split: prod.splits)
qed

lemma commit_rows_view:
  "hoare (view_is x) (commit_rows config requested rows) (\<lambda>_. view_resaved x) (\<lambda>_. view_is x)"
proof -
  have settle: "hoare (view_is x) (op_bind (op_attempt (settle_key i k)) (\<lambda>applied. case applied of
      Inl (_ :: error) \<Rightarrow> compensate i before write_failed
    | Inr _ \<Rightarrow> op_bind (op_attempt (ai_put_rows rs)) (\<lambda>stored. case stored of
        Inl e \<Rightarrow> compensate i before e | Inr _ \<Rightarrow> op_return ()))) (\<lambda>_. view_resaved x) (\<lambda>_. view_is x)" for i k before rs
  proof (rule hoare_attempt_bind[where E = "\<lambda>_. view_is x" and Q = "\<lambda>_. view_is x"])
    have undo: "hoare (view_is x) (compensate i before e) (\<lambda>_. view_resaved x) (\<lambda>_. view_is x)" for e
      by (intro preserves_fails preserves_view_compensate)
    have "hoare (view_is x) (op_bind (op_attempt (ai_put_rows rs)) (\<lambda>stored. case stored of
        Inl e \<Rightarrow> compensate i before e | Inr _ \<Rightarrow> op_return ())) (\<lambda>_. view_resaved x) (\<lambda>_. view_is x)"
      by (rule hoare_attempt_bind[OF put_rows_view]; simp only: sum.case undo; simp add: hoare_def)
    with undo show "hoare (view_is x) (case Inl e of Inl (_ :: error) \<Rightarrow> compensate i before write_failed
      | Inr _ \<Rightarrow> op_bind (op_attempt (ai_put_rows rs)) (\<lambda>stored. case stored of
        Inl e \<Rightarrow> compensate i before e | Inr _ \<Rightarrow> op_return ())) (\<lambda>_. view_resaved x) (\<lambda>_. view_is x)"
      "hoare (view_is x) (case Inr a of Inl (_ :: error) \<Rightarrow> compensate i before write_failed
      | Inr _ \<Rightarrow> op_bind (op_attempt (ai_put_rows rs)) (\<lambda>stored. case stored of
        Inl e \<Rightarrow> compensate i before e | Inr _ \<Rightarrow> op_return ())) (\<lambda>_. view_resaved x) (\<lambda>_. view_is x)" for e a
      by (simp_all only: sum.case)
    show "hoare (view_is x) (settle_key i k) (\<lambda>_. view_is x) (\<lambda>_. view_is x)"
      using preserves_view_vault(2) by (simp add: preserves_iff_hoare)
  qed
  show ?thesis
    unfolding commit_rows_def Let_def set_provider_credential_dispatch_blocked_def
    by (rule hoare_reads[OF preserves_view_io(4)], cases requested; simp only: option.case)
      (intro put_rows_view hoare_reads preserves_map_err preserves_view_io preserves_view_save settle; simp)+
qed

lemma commit_fires:
  assumes "\<not> snd (snd (snd (snd (snd x))))"
  shows "hoare (view_is x) (commit_prepared_provider_save prepared rows) (\<lambda>_. tokens_fired x) (\<lambda>_. view_is x)"
proof -
  have "hoare (view_resaved x) cancel_in_flight (\<lambda>_. tokens_fired x) (\<lambda>_. view_is x)"
    using assms by (cases x) (auto simp: hoare_def cancel_in_flight_def op_bind_run view_resaved_def tokens_fired_def settings_view_def)
  then show ?thesis
    unfolding commit_prepared_provider_save_def
    by (cases prepared) (auto intro: hoare_bind[OF commit_rows_view])
qed

lemma preserves_view_prepare: "preserves (view_is x) (prepare_provider_save E r)"
  unfolding prepare_provider_save_def Let_def by (intro view_intros)

lemma save_provider_fires:
  assumes "\<not> snd (snd (snd (snd (snd x))))"
  shows "hoare (view_is x) (save_provider E r) (\<lambda>_. tokens_fired x) (\<lambda>_. view_is x)"
  unfolding save_provider_def
  by (intro hoare_reads preserves_view_io preserves_view_prepare hoare_bind[OF commit_fires[OF assms]])
    (simp add: hoare_def)

lemma save_ai_provider_fires:
  assumes "\<not> snd (snd (snd (snd (snd x))))"
  shows "hoare (view_is x) (save_ai_provider E r) (\<lambda>_. tokens_fired x) (\<lambda>_. view_is x)"
  unfolding save_ai_provider_def Let_def
  by (intro hoare_reads view_intros preserves_view_prepare hoare_bind[OF commit_fires[OF assms]])
    (simp_all add: hoare_def)

lemma preserves_view_defaults: "preserves (view_is x) (save_ai_defaults d)"
  unfolding save_ai_defaults_def
  by (intro view_intros preserves_each) (auto intro!: view_intros split: prod.split)

section \<open>What a request relies on\<close>

text \<open>The task's token is registered, so a change of the settings fires it.\<close>

definition registered :: "nat \<Rightarrow> ai_ws \<Rightarrow> bool" where
  "registered token w \<longleftrightarrow> token \<in> set (v_tokens w) \<and> \<not> v_poisoned w"

definition holds_trust :: "nat \<Rightarrow> string \<Rightarrow> ai_ws \<Rightarrow> ai_ws \<Rightarrow> bool" where
  "holds_trust token i w v \<longleftrightarrow> registered token v \<and> v_sent v = v_sent w \<and> set (v_fired w) \<subseteq> set (v_fired v)
     \<and> (token \<in> set (v_fired v) \<or> trusted_now v i = trusted_now w i)"

lemma trusted_now_cong:
  "v_configs v = v_configs w \<Longrightarrow> v_metadata v = v_metadata w \<Longrightarrow> trusted_now v i = trusted_now w i"
  by (simp add: trusted_now_def metadata_of_def split: option.split)

lemma trusted_now_view: "settings_view v = settings_view w \<Longrightarrow> trusted_now v i = trusted_now w i"
  by (rule trusted_now_cong) (simp_all add: settings_view_def)

lemma holds_trust_view:
  assumes "settings_view v = settings_view w" "registered token w"
  shows "holds_trust token i w v"
  using assms trusted_now_view[OF assms(1)] by (simp add: holds_trust_def settings_view_def registered_def)

lemma holds_trust_fires:
  assumes "hoare (view_is (settings_view w)) m (\<lambda>_. tokens_fired (settings_view w)) (\<lambda>_. view_is (settings_view w))"
    and "registered token w"
  shows "holds_trust token i w (snd (m w))"
proof -
  have w: "view_is (settings_view w) w" by (simp add: view_is_def)
  obtain r v where m: "m w = (r, v)" by force
  show ?thesis
  proof (cases r)
    case (Inl e)
    with hoare_err[OF assms(1) w] m assms(2) show ?thesis by (auto simp: view_is_def intro: holds_trust_view)
  next
    case (Inr a)
    with hoare_ok[OF assms(1) w] m assms(2) show ?thesis
      by (auto simp: tokens_fired_def settings_view_def holds_trust_def registered_def)
  qed
qed

lemma ai_serve_holds_trust:
  assumes "registered token w"
  shows "holds_trust token i w (ai_serve E q w)"
proof -
  have up: "\<not> snd (snd (snd (snd (snd (settings_view w)))))"
    using assms by (simp add: registered_def settings_view_def)
  have same: "settings_view v = settings_view w \<Longrightarrow> holds_trust token i w v" for v
    using assms by (simp add: holds_trust_view)
  show ?thesis
  proof (cases q)
    case (SaveProvider r)
    then show ?thesis using holds_trust_fires[OF save_provider_fires[OF up] assms] by simp
  next
    case (SaveAiProvider r)
    then show ?thesis using holds_trust_fires[OF save_ai_provider_fires[OF up] assms] by simp
  next
    case (SaveDefaults d)
    have "view_is (settings_view w) (snd (save_ai_defaults d w))"
      using preserves_view_defaults by (simp add: preserves_def view_is_def)
    then show ?thesis using SaveDefaults same by (simp add: view_is_def)
  next
    case (FireTokens ts)
    moreover have "trusted_now (w\<lparr>v_fired := ts @ v_fired w\<rparr>) i = trusted_now w i" by (rule trusted_now_cong) simp_all
    ultimately show ?thesis using assms by (simp add: holds_trust_def registered_def)
  qed (simp_all add: same)
qed

lemma holds_trust_refl: "registered token w \<Longrightarrow> holds_trust token i w w"
  by (simp add: holds_trust_def)

lemma holds_trust_trans: "holds_trust token i u w \<Longrightarrow> holds_trust token i w v \<Longrightarrow> holds_trust token i u v"
  by (auto simp: holds_trust_def)

lemma interference_holds_trust:
  assumes "registered token w"
  shows "holds_trust token i w (fold (ai_serve E) qs w)"
  using assms
proof (induction qs arbitrary: w)
  case (Cons q qs)
  then have step: "holds_trust token i w (ai_serve E q w)" by (simp add: ai_serve_holds_trust)
  then have "registered token (ai_serve E q w)" by (simp add: holds_trust_def)
  from holds_trust_trans[OF step Cons.IH[OF this]] show ?case by simp
qed (simp add: holds_trust_refl)

section \<open>What a request guarantees\<close>

definition well_sent :: "string \<Rightarrow> string \<Rightarrow> sent \<Rightarrow> bool" where
  "well_sent i purpose s \<longleftrightarrow> se_trusted s \<and> \<not> se_cancelled s \<and> se_provider_id s = i \<and> se_purpose s = purpose"

definition only_well_sent :: "sent list \<Rightarrow> nat \<Rightarrow> string \<Rightarrow> string \<Rightarrow> ai_ws \<Rightarrow> bool" where
  "only_well_sent old token i purpose w \<longleftrightarrow>
     registered token w \<and> (\<exists>new. v_sent w = old @ new \<and> list_all (well_sent i purpose) new)"

definition trusted_or_fired :: "sent list \<Rightarrow> nat \<Rightarrow> string \<Rightarrow> string \<Rightarrow> ai_ws \<Rightarrow> bool" where
  "trusted_or_fired old token i purpose w \<longleftrightarrow>
     only_well_sent old token i purpose w \<and> (token \<in> set (v_fired w) \<or> trusted_now w i)"

lemma gap_keeps:
  assumes "ai_interference E"
  shows "preserves (only_well_sent old token i purpose) (ai_gap E k)"
    "preserves (trusted_or_fired old token i purpose) (ai_gap E k)"
proof -
  have "holds_trust token i w (ae_gap E k w)" if "registered token w" for w
    using assms interference_holds_trust[OF that] unfolding ai_interference_def by metis
  then show "preserves (only_well_sent old token i purpose) (ai_gap E k)"
    "preserves (trusted_or_fired old token i purpose) (ai_gap E k)"
    by (auto simp: ai_gap_def preserves_def only_well_sent_def trusted_or_fired_def holds_trust_def)
qed

lemma quiet_keeps:
  assumes "\<And>x. preserves (view_is x) m"
  shows "preserves (only_well_sent old token i purpose) m" "preserves (trusted_or_fired old token i purpose) m"
proof -
  have same: "settings_view (snd (m w)) = settings_view w" for w
    using assms by (simp add: preserves_def view_is_def)
  then have parts: "v_sent (snd (m w)) = v_sent w" "v_fired (snd (m w)) = v_fired w"
    "registered token (snd (m w)) = registered token w" "trusted_now (snd (m w)) i = trusted_now w i" for w
    using same[of w] trusted_now_view[OF same] by (simp_all add: settings_view_def registered_def)
  show "preserves (only_well_sent old token i purpose) m" "preserves (trusted_or_fired old token i purpose) m"
    by (simp_all add: preserves_def only_well_sent_def trusted_or_fired_def parts)
qed

lemma preserves_view_dispatch:
  "preserves (view_is x) (provider_dispatch_snapshot_locked E config)" "preserves (view_is x) (fired token)"
  "preserves (view_is x) (ai_provider_is_trusted sel)" "preserves (view_is x) (require_trusted sel)"
  "preserves (view_is x) (unless_cancelled token)" "preserves (view_is x) (load_ai_chunk c k)"
  "preserves (view_is x) (save_ai_chunk c h)"
  unfolding provider_dispatch_snapshot_locked_def api_key_def provider_credential_dispatch_blocked_def fired_def
    ai_provider_is_trusted_def require_trusted_def unless_cancelled_def load_ai_chunk_def save_ai_chunk_def
  by (intro view_intros; simp)+

lemmas quiet_ops = quiet_keeps[OF preserves_view_io(1)] quiet_keeps[OF preserves_view_io(5)]
  quiet_keeps[OF preserves_view_io(6)] quiet_keeps[OF preserves_view_io(7)] quiet_keeps[OF preserves_view_io(9)]
  quiet_keeps[OF preserves_view_io(13)] quiet_keeps[OF preserves_view_dispatch(1)] quiet_keeps[OF preserves_view_dispatch(2)]
  quiet_keeps[OF preserves_view_dispatch(3)] quiet_keeps[OF preserves_view_dispatch(4)]
  quiet_keeps[OF preserves_view_dispatch(5)] quiet_keeps[OF preserves_view_dispatch(6)]
  quiet_keeps[OF preserves_view_dispatch(7)] quiet_keeps[OF preserves_view_save[of "ADispatch j d" for j d, simplified]]

lemma hoare_get: "(\<And>a. hoare P (f a) Q E) \<Longrightarrow> hoare P (op_bind (op_get g) f) Q E"
  by (simp add: hoare_def op_bind_run)

lemma hoare_sum: "(\<And>a. hoare P (f a) Q E) \<Longrightarrow> (\<And>b. hoare P (g b) Q E) \<Longrightarrow>
    hoare P (case x of Inl a \<Rightarrow> f a | Inr b \<Rightarrow> g b) Q E"
  by (cases x) auto

lemma send_request_keeps:
  assumes "ai_interference E"
  shows "preserves (trusted_or_fired old token (sel_provider_id sel) purpose) (send_request E sel p secret q purpose token)"
proof -
  let ?I = "trusted_or_fired old token (sel_provider_id sel) purpose"
  let ?K = "\<lambda>w. ?I w \<and> token \<notin> set (v_fired w)"
  have logged: "hoare ?K (log_sent sel secret body purpose token) (\<lambda>_. ?I) (\<lambda>_. ?I)" for body
  proof (rule hoareI)
    fix w a v
    assume w: "?K w" and "log_sent sel secret body purpose token w = (Inr a, v)"
    then have v: "v = w\<lparr>v_sent := v_sent w @ [\<lparr>se_provider_id = sel_provider_id sel, se_secret = secret, se_body = body,
        se_purpose = purpose, se_trusted = True, se_cancelled = False\<rparr>]\<rparr>"
      by (auto simp: log_sent_def trusted_or_fired_def)
    have "trusted_now v (sel_provider_id sel) = trusted_now w (sel_provider_id sel)"
      by (rule trusted_now_cong) (simp_all add: v)
    then show "?I v"
      using w by (auto simp: v trusted_or_fired_def only_well_sent_def registered_def well_sent_def)
  qed (simp add: log_sent_def)
  have rest: "hoare ?I (op_bind (ai_gap E 3) (\<lambda>_. op_bind (fired token) (\<lambda>stop. if stop then op_fail e else op_lift r)))
      (\<lambda>_. ?I) (\<lambda>_. ?I)" for e and r :: "error + json"
    unfolding preserves_iff_hoare[symmetric] by (intro preserves_bind gap_keeps assms quiet_ops preserves_if preserves_basic)
  have send: "hoare ?K (op_bind ai_now (\<lambda>time. case still_authorized E time p q of Inl e \<Rightarrow> op_fail (provider_error e)
      | Inr _ \<Rightarrow> op_bind (op_get (\<lambda>w. length (v_sent w))) (\<lambda>n.
         op_bind (log_sent sel secret (aj_body q) purpose token) (\<lambda>_.
         op_bind (ai_gap E 3) (\<lambda>_. op_bind (fired token) (\<lambda>stop.
         if stop then op_fail (error_new ''cancelled'')
         else op_lift (map_err provider_error (ae_reply E n)))))))) (\<lambda>_. ?I) (\<lambda>_. ?I)"
    unfolding ai_now_def
    by (intro hoare_get hoare_sum hoare_bind[OF logged rest]) (simp add: hoare_def)
  have after: "hoare ?I (op_bind (fired token) (\<lambda>stop. if stop then op_fail e else m)) (\<lambda>_. ?I) (\<lambda>_. ?I)"
    if "hoare ?K m (\<lambda>_. ?I) (\<lambda>_. ?I)" for e and m :: "json vop"
    using that by (auto simp: hoare_def fired_def op_bind_run)
  show ?thesis
    unfolding send_request_def preserves_iff_hoare
    by (rule hoare_bind[OF _ after[OF send]]) (use gap_keeps[OF assms] in \<open>simp add: preserves_iff_hoare\<close>)
qed

lemma ai_complete_budgeted_keeps:
  assumes "ai_interference E"
  shows "preserves (trusted_or_fired old token (sel_provider_id sel) purpose)
    (ai_complete_budgeted E sel messages tools response_format purpose binding ceiling token)"
  unfolding ai_complete_budgeted_def Let_def split_beta
  by (intro preserves_bind gap_keeps assms quiet_ops send_request_keeps preserves_attempt preserves_basic)

lemma ai_complete_keeps:
  assumes "ai_interference E"
  shows "preserves (trusted_or_fired old token (sel_provider_id sel) purpose)
    (ai_complete E sel messages tools response_format purpose binding token)"
  unfolding ai_complete_def by (rule ai_complete_budgeted_keeps[OF assms])

lemma ai_io_view: "ai_io w = (r, v) \<Longrightarrow> v_configs v = v_configs w \<and> v_metadata v = v_metadata w"
  using preservesD[OF preserves_view_io(11), of "settings_view w" w] by (simp add: view_is_def settings_view_def)

lemma ai_config_trust:
  assumes "ai_config sel w = (Inr c, v)"
  shows "md_trust_raw (snd c) = trusted_now w (sel_provider_id sel)"
proof -
  from assms obtain config md u where config: "ai_fetch v_configs (sel_provider_id sel) w = (Inr config, u)"
    and md: "ai_metadata config u = (Inr md, v)" and c: "c = (config, md)"
    unfolding ai_config_def ai_require_def by (elim op_bind_cases) (simp_all add: ensure_def split: if_splits)
  from config have one: "om_get (v_configs u) (sel_provider_id sel) = Some config \<and> v_configs u = v_configs w
      \<and> v_metadata u = v_metadata w"
    unfolding ai_fetch_def ai_fetch_maybe_def
    by (elim op_bind_cases) (auto simp: ok_or_def dest: ai_io_view split: option.splits)
  from md have "md = metadata_of w config"
    unfolding ai_metadata_def by (elim op_bind_cases) (use one in \<open>auto simp: metadata_of_def dest: ai_io_view\<close>)
  with one show ?thesis by (auto simp: c trusted_now_def)
qed

lemma require_trusted_trust: "require_trusted sel w = (Inr u, v) \<Longrightarrow> trusted_now w (sel_provider_id sel)"
  unfolding require_trusted_def ai_provider_is_trusted_def ai_require_def
  by (auto elim!: op_bind_cases simp: ensure_def dest!: ai_config_trust split: if_splits)

lemma trusted_then:
  assumes "hoare (trusted_or_fired old token (sel_provider_id sel) purpose) m
      (\<lambda>_. only_well_sent old token (sel_provider_id sel) purpose)
      (\<lambda>_. only_well_sent old token (sel_provider_id sel) purpose)"
  shows "preserves (only_well_sent old token (sel_provider_id sel) purpose) (op_bind (require_trusted sel) (\<lambda>_. m))"
proof -
  note keeps = quiet_keeps(1)[OF preserves_view_dispatch(4)[of _ sel], of old token "sel_provider_id sel" purpose]
  have "hoare (only_well_sent old token (sel_provider_id sel) purpose) (require_trusted sel)
      (\<lambda>_. trusted_or_fired old token (sel_provider_id sel) purpose)
      (\<lambda>_. only_well_sent old token (sel_provider_id sel) purpose)"
  proof (rule hoareI)
    fix w v a
    assume w: "only_well_sent old token (sel_provider_id sel) purpose w" and run: "require_trusted sel w = (Inr a, v)"
    have kept: "only_well_sent old token (sel_provider_id sel) purpose v"
      by (rule preservesD[OF keeps w run])
    have "settings_view v = settings_view w"
      using preservesD[OF preserves_view_dispatch(4), of "settings_view w" w] run by (simp add: view_is_def)
    moreover have "trusted_now w (sel_provider_id sel)"
      by (rule require_trusted_trust[OF run])
    ultimately show "trusted_or_fired old token (sel_provider_id sel) purpose v"
      using kept trusted_now_view[of v w] by (simp add: trusted_or_fired_def)
  next
    fix w v e
    assume "only_well_sent old token (sel_provider_id sel) purpose w" "require_trusted sel w = (Inl e, v)"
    then show "only_well_sent old token (sel_provider_id sel) purpose v"
      by (rule preservesD[OF keeps])
  qed
  then show ?thesis using assms unfolding preserves_iff_hoare by (rule hoare_bind)
qed

lemma hoare_into:
  "preserves J m \<Longrightarrow> (\<And>w. J w \<Longrightarrow> I w) \<Longrightarrow> hoare J m (\<lambda>_. I) (\<lambda>_. I)"
  by (auto simp: preserves_iff_hoare elim!: hoare_weaken)

lemma findings_attempts_keep:
  assumes "ai_interference E"
  shows "preserves (only_well_sent old token (sel_provider_id sel) REDACTION_PURPOSE)
    (findings_attempts E sel messages chunk binding token left attempt previous last_invalid)"
proof (induction left arbitrary: attempt previous last_invalid)
  case (Suc n)
  have ask: "hoare (trusted_or_fired old token (sel_provider_id sel) REDACTION_PURPOSE)
      (ai_complete E sel request None (Some json_object_format) REDACTION_PURPOSE binding token)
      (\<lambda>_. only_well_sent old token (sel_provider_id sel) REDACTION_PURPOSE)
      (\<lambda>_. only_well_sent old token (sel_provider_id sel) REDACTION_PURPOSE)" for request
    by (rule hoare_into[OF ai_complete_keeps[OF assms]]) (simp add: trusted_or_fired_def)
  show ?case
    unfolding findings_attempts.simps Let_def
    by (intro preserves_bind[OF quiet_ops(21)] trusted_then hoare_bind[OF ask], fold preserves_iff_hoare)
      (intro preserves_sum preserves_if Suc.IH preserves_basic)
qed simp

lemma findings_of_chunk_keep:
  assumes "ai_interference E"
  shows "preserves (only_well_sent old token (sel_provider_id sel) REDACTION_PURPOSE)
    (findings_of_chunk E sel k messages chunk binding token)"
  unfolding findings_of_chunk_def complete_findings_with_retry_def Let_def
  by (intro preserves_bind preserves_option preserves_basic quiet_ops gap_keeps assms findings_attempts_keep)

lemma each_chunk_keep:
  assumes "ai_interference E"
  shows "preserves (only_well_sent old token (sel_provider_id sel) REDACTION_PURPOSE)
    (each_chunk E sel text token key ask binding ranges findings)"
proof (induction ranges arbitrary: findings)
  case (Cons r ranges)
  then show ?case
    by (cases r) (auto intro!: preserves_bind preserves_basic quiet_ops gap_keeps assms findings_of_chunk_keep)
qed simp

lemma redact_keeps:
  assumes "ai_interference E"
  shows "preserves (only_well_sent old token (sel_provider_id sel) REDACTION_PURPOSE)
    (redact_with_ai E text g sel source_binding dismissed token)"
  unfolding redact_with_ai_def locate_entities_def check_omissions_def Let_def
  by (intro preserves_bind preserves_if preserves_basic quiet_ops gap_keeps assms each_chunk_keep)

section \<open>What the redaction returns\<close>

lemma each_chunk_exact:
  assumes "each_chunk E sel text token key ask binding ranges findings w = (Inr fs, v)"
    and "list_all (exact_finding text) findings"
  shows "list_all (exact_finding text) fs"
  using assms
proof (induction ranges arbitrary: findings w)
  case (Cons r ranges)
  obtain a b where r: "r = (a, b)" by force
  from Cons.prems(1) obtain gs adjusted u where "adjust_findings gs a text = Inr adjusted"
    "each_chunk E sel text token key ask binding ranges (findings @ adjusted) u = (Inr fs, v)"
    unfolding r each_chunk.simps by (elim op_bind_cases) (auto simp: split_beta)
  with Cons.IH Cons.prems(2) adjust_findings_exact(1) show ?case by simp
qed simp

lemma merge_exact:
  "list_all (exact_finding text) ps \<Longrightarrow> list_all (exact_finding text) os \<Longrightarrow>
    list_all (exact_finding text) (merge_findings ps os)"
  using keep_new_set[of "[]" "ps @ os"] by (auto simp: merge_findings_def list_all_iff)

text \<open>
  C7: the redaction sends the text only to a provider that the store holds as trusted with raw
  text at the moment of sending, for the selected provider and this purpose, and never once the
  task's token has fired: whatever sequences of settings handlers run at the unlocked points,
  whatever fails, and whatever the provider answers, as long as no lock is poisoned (a handler
  that panics while it holds the token table could no longer fire the token).
\<close>

theorem redaction_sends_only_while_trusted:
  assumes "ai_interference E" "token \<in> set (v_tokens w)" "\<not> v_poisoned w"
    and "redact_with_ai E text g sel source_binding dismissed token w = (res, v)"
  shows "\<exists>new. v_sent v = v_sent w @ new \<and> list_all (well_sent (sel_provider_id sel) REDACTION_PURPOSE) new"
proof -
  have "only_well_sent (v_sent w) token (sel_provider_id sel) REDACTION_PURPOSE w"
    using assms(2,3) by (auto simp: only_well_sent_def registered_def)
  from preservesD[OF redact_keeps[OF assms(1)] this assms(4)] show ?thesis by (simp add: only_well_sent_def)
qed

theorem redaction_sends_only_while_trusted_witness:
  "\<exists>e v s. redact_with_ai failing_env ''ok'' sample_group_ai sample_selection ''b'' [] 7 trusted_ws = (Inl e, v)
    \<and> v_sent v = [s] \<and> well_sent ''p'' REDACTION_PURPOSE s"
proof -
  have calm: "calm trusted_ws" by (simp add: calm_def trusted_ws_def empty_ai_ws_def)
  have E: "ae_service failing_env = sample_service" by (simp add: failing_env_def sample_ai_env_def)
  obtain a b where m: "entity_messages ''primary'' ''ok'' 0 2 0 = two_messages a b" using entity_messages_two by blast
  obtain v s where ask: "ai_complete failing_env sample_selection (two_messages a b) None (Some json_object_format)
      REDACTION_PURPOSE (sample_hash (''redaction-locate:v2:'' @ ''b'' @ '':'' @ ''primary'' @ '':'' @ decimal 0 @ '':'' @ decimal 2))
      7 trusted_ws = (Inl (provider_error (new_provider_error Network)), v)" "v_sent v = [s]"
    using ask_fails by blast
  have empty: "load_ai_chunk c k trusted_ws = (Inr None, trusted_ws)" for c k
    by (simp add: load_ai_chunk_def op_bind_run ai_fetch_maybe_def ai_io_def ai_outcome_def trusted_ws_def empty_ai_ws_def)
  have local: "analyze sample_engine silent_detectors ''ok'' ''ns'' [] [] [] = Inr (sample_analysis\<lparr>a_ai_findings := None\<rparr>)"
    by (simp add: analyze_def quiet_analysis)
  have count: "a_findings (sample_analysis\<lparr>a_ai_findings := None\<rparr>) = []" by (simp add: sample_analysis_def)
  have retry: "complete_findings_with_retry failing_env sample_selection (two_messages a b) ''ok''
      (sample_hash (''redaction-locate:v2:'' @ ''b'' @ '':'' @ ''primary'' @ '':'' @ decimal 0 @ '':'' @ decimal 2)) 7 trusted_ws
      = (Inl (provider_error (new_provider_error Network)), v)"
    unfolding complete_findings_with_retry_def MAX_PARSE_RETRIES_def numeral_3_eq_3 findings_attempts.simps
    by (simp only: op_bind_run calm_runs[OF calm] ask(1) Let_def prod.case sum.case less_irrefl if_False)
  have run: "redact_with_ai failing_env ''ok'' sample_group_ai sample_selection ''b'' [] 7 trusted_ws
      = (Inl (provider_error (new_provider_error Network)), v)"
    using retry by (simp add: redact_with_ai_def locate_entities_def quiet_ranges op_bind_run E calm_runs calm local
      sample_group_ai_def text_failed_def count findings_of_chunk_def empty m
      ok_or_def Let_def)
  have "ai_interference failing_env"
    by (auto simp: ai_interference_def failing_env_def sample_ai_env_def intro: exI[of _ "[]"])
  from redaction_sends_only_while_trusted[OF this _ _ run] ask(2) run show ?thesis
    by (auto simp: trusted_ws_def empty_ai_ws_def sample_selection_def)
qed

text \<open>
  C11: what the redaction returns is the local analysis of the text. The provider contributes only
  exact slices of the text: no rewritten text and no replacement of its own reaches the result,
  whatever it answers and whatever the cache of chunks holds; the result is verified against the
  source, and without a review it has passed the publication check.
\<close>

theorem redaction_returns_the_local_analysis:
  assumes "redact_with_ai E text g sel source_binding dismissed token w = (Inr a, v)"
  shows "\<exists>fs. list_all (exact_finding text) fs
    \<and> analyze_with_ai (sv_engine (ae_service E)) (sv_detectors (ae_service E)) text (wg_namespace g) (wg_entries g)
        fs dismissed = Inr a
    \<and> verify_analysis_source (en_digest (sv_engine (ae_service E))) text a = Inr ()
    \<and> (a_needs_review a \<or> validate_analysis (sv_engine (ae_service E)) a = Inr ())"
proof -
  from assms obtain located omissions first u u' u'' u''' n where
    located: "locate_entities E text sel source_binding ''primary'' n token u = (Inr located, u')"
    and omissions: "check_omissions E text first sel (content_hash (ae_service E)
        (''redaction-check:v1:'' @ source_binding)) token u'' = (Inr omissions, u''')"
    and a: "text_failed (analyze_with_ai (sv_engine (ae_service E)) (sv_detectors (ae_service E)) text (wg_namespace g)
        (wg_entries g) (merge_findings (merge_findings located []) omissions) dismissed) = Inr a"
    and checked: "text_failed (verify_analysis_source (en_digest (sv_engine (ae_service E))) text a) = Inr ()"
      "\<not> a_needs_review a \<Longrightarrow> text_failed (validate_analysis (sv_engine (ae_service E)) a) = Inr ()"
    unfolding redact_with_ai_def Let_def by (elim op_bind_cases) (auto split: if_splits)
  have "list_all (exact_finding text) located" "list_all (exact_finding text) omissions"
    using each_chunk_exact[OF located[unfolded locate_entities_def]]
      each_chunk_exact[OF omissions[unfolded check_omissions_def]] by simp_all
  then have "list_all (exact_finding text) (merge_findings (merge_findings located []) omissions)"
    by (intro merge_exact) simp_all
  with a checked show ?thesis by (intro exI[of _ "merge_findings (merge_findings located []) omissions"])
    (auto simp: text_failed_def)
qed

theorem redaction_returns_the_local_analysis_witness:
  "\<exists>v. redact_with_ai cached_env ''ok'' sample_group_ai sample_selection ''b'' [] 7 cached_ws = (Inr sample_analysis, v)
    \<and> validate_analysis sample_engine sample_analysis = Inr ()"
proof -
  define next_ws where "next_ws = cached_ws\<lparr>v_chunks := cached omission_key\<rparr>"
  have E: "ae_service cached_env = sample_service" by (simp add: cached_env_def sample_ai_env_def)
  have quiet: "v_outcomes w = [] \<and> v_configs w = v_configs trusted_ws \<and> v_metadata w = v_metadata trusted_ws \<and> v_fired w = []"
    if "w \<in> {cached_ws, next_ws}" for w
    using that by (auto simp: cached_ws_def next_ws_def trusted_ws_def empty_ai_ws_def)
  have runs: "require_trusted sample_selection w = (Inr (), w)" "unless_cancelled 7 w = (Inr (), w)"
    "ai_gap cached_env 4 w = (Inr (), w)" "ai_gap cached_env 6 w = (Inr (), w)"
    "ai_config sample_selection w = (Inr (snd (hd (v_configs trusted_ws)), snd (hd (v_metadata trusted_ws))), w)"
    if "w \<in> {cached_ws, next_ws}" for w
    using quiet[OF that] trust_runs[of w]
    by (simp_all add: unless_cancelled_def fired_def ai_require_def op_bind_run ensure_def ai_gap_def cached_env_def)
  have gap: "ai_gap cached_env 7 cached_ws = (Inr (), next_ws)"
    by (simp add: ai_gap_def cached_env_def next_ws_def)
  have revision: "pc_revision (snd (hd (v_configs trusted_ws))) = 1" by (simp add: trusted_ws_def)
  have stored: "findings_of_chunk cached_env sel locate_key m c b t cached_ws = (Inr [], cached_ws)"
    "findings_of_chunk cached_env sel omission_key m c b t next_ws = (Inr [], next_ws)" for sel m c b t
    by (intro cached_findings; simp add: E cached_ws_def next_ws_def trusted_ws_def empty_ai_ws_def)+
  note steps = adjust_findings_def ai_require_def ensure_def ok_or_def revision op_bind_run quiet_ranges runs
  have one: "locate_entities cached_env ''ok'' sample_selection ''b'' ''primary'' 0 7 cached_ws = (Inr [], cached_ws)"
    using stored(1) by (simp add: locate_entities_def locate_key_def steps)
  have listed: "findings_for_chunk sample_analysis ''ok'' 0 2 = []"
    by (simp add: findings_for_chunk_def sample_analysis_def)
  have two: "check_omissions cached_env ''ok'' sample_analysis sample_selection
      (sample_hash (''redaction-check:v1:'' @ ''b'')) 7 next_ws = (Inr [], next_ws)"
    using stored(2) by (simp add: check_omissions_def omission_key_def E listed steps)
  have ai: "analyze_with_ai sample_engine silent_detectors ''ok'' ''ns'' [] [] [] = Inr sample_analysis"
    by (simp add: analyze_with_ai_def quiet_analysis sample_analysis_def)
  have local: "analyze sample_engine silent_detectors ''ok'' ''ns'' [] [] [] = Inr (sample_analysis\<lparr>a_ai_findings := None\<rparr>)"
    by (simp add: analyze_def quiet_analysis)
  have counts: "a_findings (sample_analysis\<lparr>a_ai_findings := None\<rparr>) = []" "a_needs_review sample_analysis = False"
    by (simp_all add: sample_analysis_def)
  have run: "redact_with_ai cached_env ''ok'' sample_group_ai sample_selection ''b'' [] 7 cached_ws = (Inr sample_analysis, next_ws)"
    using quiet_verify one two
    by (simp add: redact_with_ai_def op_bind_run E runs gap ai local merge_findings_def text_failed_def sample_group_ai_def Let_def
      counts)
  from redaction_returns_the_local_analysis[OF run] quiet_verify(2) run show ?thesis by blast
qed

end
