(* ===== verification/Run_Scope.thy ===== *)
theory Run_Scope imports Context Json_Value begin

text \<open>
  The scope of an AI run (\<open>workspace-service/src/ai\_runs.rs\<close>): the paragraphs a text is offered in, the
  ranges of a source a user selects, when one context covers another, and which turns of a
  conversation may be sent again. A unit of a source is a page or a paragraph, counted from one.
\<close>

section \<open>The paragraphs of a text\<close>

definition context_format :: "string \<Rightarrow> string" where
  "context_format name = (case split_once (CHR ''.'') (rev name) of
     None \<Rightarrow> ''unknown''
   | Some (ext, _) \<Rightarrow>
       let e = map (\<lambda>c. if is_ascii_upper c then char_of (byte c + 32) else c) (rev ext) in
       if e \<in> {''txt'', ''md'', ''markdown'', ''docx'', ''pdf'', ''png'', ''jpg'', ''jpeg'', ''webp''} then e else ''unknown'')"

definition is_visual_context_format :: "string \<Rightarrow> bool" where
  "is_visual_context_format f \<longleftrightarrow> f \<in> {''pdf'', ''png'', ''jpg'', ''jpeg'', ''webp''}"

text \<open>\<open>split("\\n\\n")\<close>: separators are matched from the left and do not overlap.\<close>

fun split_blank_lines :: "string \<Rightarrow> string list" where
  "split_blank_lines [] = [[]]"
| "split_blank_lines [c] = [[c]]"
| "split_blank_lines (c # d # s) =
     (if c = CHR 0x0A \<and> d = CHR 0x0A then [] # split_blank_lines s
      else case split_blank_lines (d # s) of w # ws \<Rightarrow> (c # w) # ws | [] \<Rightarrow> [[c]])"

definition SEGMENT_BYTES :: nat where "SEGMENT_BYTES = 1024"

fun segment_loop :: "nat list \<Rightarrow> string \<Rightarrow> string list \<Rightarrow> string list" where
  "segment_loop [] segment segments = (if segment = [] then segments else segments @ [segment])"
| "segment_loop (c # cs) segment segments =
     (if segment \<noteq> [] \<and> SEGMENT_BYTES < sat_add (length segment) (length (encode_scalar c))
      then segment_loop cs (utf8 [c]) (segments @ [segment])
      else segment_loop cs (segment @ utf8 [c]) segments)"

definition context_text_segments :: "string \<Rightarrow> string list" where
  "context_text_segments text =
     concat (map (\<lambda>p. segment_loop (chars p) [] []) (filter (\<lambda>p. p \<noteq> []) (map str_trim (split_blank_lines text))))"

section \<open>Selected ranges\<close>

record material_ref =
  mr_id :: string
  mr_source :: string

record context_manifest =
  cm_revision :: nat
  cm_materials :: "material_ref list"
  cm_attachment_ids :: "string list"
  cm_context_ranges :: "range_selection list"
  cm_updated_at :: nat

type_synonym source_key = "string \<times> string \<times> string option"

definition source_key :: "range_selection \<Rightarrow> source_key" where
  "source_key s = (xs_source_kind s, xs_source_id s, xs_source s)"

definition U32_LIMIT :: nat where "U32_LIMIT = 2 ^ 32 - 1"

definition scope_invalid :: error where "scope_invalid = error_new ''context_scope_invalid''"
definition prepare_required :: error where "prepare_required = error_new ''context_prepare_required''"

definition implicit_context_ranges :: "material_ref list \<Rightarrow> string list \<Rightarrow> range_selection list" where
  "implicit_context_ranges materials attachment_ids = sort_key source_key
     (map (\<lambda>m. \<lparr>xs_source_kind = ''material'', xs_source_id = mr_id m, xs_source = Some (mr_source m),
        xs_mode = ''all'', xs_ranges = [], xs_inspection_hash = None\<rparr>) materials
      @ map (\<lambda>a. \<lparr>xs_source_kind = ''attachment'', xs_source_id = a, xs_source = None,
        xs_mode = ''all'', xs_ranges = [], xs_inspection_hash = None\<rparr>) attachment_ids)"

definition manifest_context_ranges :: "context_manifest \<Rightarrow> range_selection list" where
  "manifest_context_ranges m = (if cm_context_ranges m = []
     then implicit_context_ranges (cm_materials m) (cm_attachment_ids m) else cm_context_ranges m)"

definition interval_set_contains :: "(nat \<times> nat) list \<Rightarrow> (nat \<times> nat) list \<Rightarrow> bool" where
  "interval_set_contains current required \<longleftrightarrow>
     list_all (\<lambda>needed. list_ex (\<lambda>available. fst available \<le> fst needed \<and> snd needed \<le> snd available) current) required"

definition range_selection_contains :: "range_selection \<Rightarrow> range_selection \<Rightarrow> bool" where
  "range_selection_contains current required \<longleftrightarrow>
     source_key current = source_key required
     \<and> (xs_mode current = ''all''
        \<or> xs_mode current = xs_mode required \<and> xs_mode required \<noteq> ''all''
          \<and> interval_set_contains (xs_ranges current) (xs_ranges required))"

definition context_contains_manifest :: "context_manifest \<Rightarrow> context_manifest \<Rightarrow> bool" where
  "context_contains_manifest current required \<longleftrightarrow>
     list_all (\<lambda>m. (mr_id m, mr_source m) \<in> set (map (\<lambda>c. (mr_id c, mr_source c)) (cm_materials current))) (cm_materials required)
     \<and> list_all (\<lambda>a. a \<in> set (cm_attachment_ids current)) (cm_attachment_ids required)
     \<and> list_all (\<lambda>r. list_ex (\<lambda>c. range_selection_contains c r) (manifest_context_ranges current))
         (manifest_context_ranges required)"

text \<open>The turns of a conversation, each with: a question, an answer, and only contexts that are covered.\<close>

definition turn_of :: "(json \<Rightarrow> context_manifest option) \<Rightarrow> context_manifest \<Rightarrow> json
    \<Rightarrow> bool \<times> bool \<times> bool \<Rightarrow> bool \<times> bool \<times> bool" where
  "turn_of read_manifest current message t = (case t of (user, assistant, matches) \<Rightarrow>
     let role = Option.bind (json_get message ''role'') as_str;
         contained = (case Option.bind (json_get message ''context_manifest'') read_manifest of
           None \<Rightarrow> False | Some stored \<Rightarrow> context_contains_manifest current stored) in
     if role = Some ''user'' then (True, assistant, matches \<and> contained)
     else if role = Some ''assistant'' then (user, True, matches \<and> contained)
     else (user, assistant, False))"

definition history_turns :: "(json \<Rightarrow> context_manifest option) \<Rightarrow> context_manifest \<Rightarrow> json list
    \<Rightarrow> (string, bool \<times> bool \<times> bool) omap" where
  "history_turns read_manifest current messages = fold (\<lambda>message turns.
     case Option.bind (json_get message ''run_id'') as_str of
       None \<Rightarrow> turns
     | Some i \<Rightarrow> om_put i (turn_of read_manifest current message
         (case om_get turns i of None \<Rightarrow> (False, False, True) | Some t \<Rightarrow> t)) turns) messages []"

definition history_turn_ids_for_context :: "(json \<Rightarrow> context_manifest option) \<Rightarrow> json list \<Rightarrow> context_manifest \<Rightarrow> string list" where
  "history_turn_ids_for_context read_manifest messages current =
     map fst (filter (\<lambda>(_, user, assistant, matches). user \<and> assistant \<and> matches)
       (history_turns read_manifest current messages))"

section \<open>Canonical ranges\<close>

definition push_interval :: "nat \<times> nat \<Rightarrow> (nat \<times> nat) list \<Rightarrow> (nat \<times> nat) list" where
  "push_interval r canonical =
     (if canonical \<noteq> [] \<and> fst r \<le> min (snd (last canonical) + 1) U32_LIMIT
      then butlast canonical @ [(fst (last canonical), max (snd (last canonical)) (snd r))]
      else canonical @ [r])"

definition normalize_context_intervals :: "(nat \<times> nat) list \<Rightarrow> error + (nat \<times> nat) list" where
  "normalize_context_intervals ranges =
     (if list_ex (\<lambda>r. fst r = 0 \<or> snd r < fst r) ranges then Inl scope_invalid
      else Inr (fold push_interval (sort ranges) []))"

text \<open>The selections grouped by their source; every source must be one of those selected.\<close>

definition group_range :: "source_key list \<Rightarrow> range_selection \<Rightarrow> (source_key, range_selection) omap
    \<Rightarrow> error + (source_key, range_selection) omap" where
  "group_range expected r grouped =
     and_then (ensure (source_key r \<in> set expected \<and> xs_source_id r \<noteq> [] \<and> length (xs_source_id r) \<le> 200
       \<and> xs_mode r \<in> {''all'', ''pages'', ''paragraphs''}) scope_invalid) (\<lambda>_.
     case om_get grouped (source_key r) of
       Some existing \<Rightarrow>
         and_then (ensure (xs_mode existing = xs_mode r \<and> xs_inspection_hash existing = xs_inspection_hash r) scope_invalid) (\<lambda>_.
         Inr (om_put (source_key r) (existing\<lparr>xs_ranges := xs_ranges existing @ xs_ranges r\<rparr>) grouped))
     | None \<Rightarrow> Inr (om_put (source_key r) r grouped))"

fun group_ranges :: "source_key list \<Rightarrow> range_selection list \<Rightarrow> (source_key, range_selection) omap
    \<Rightarrow> error + (source_key, range_selection) omap" where
  "group_ranges expected [] grouped = Inr grouped"
| "group_ranges expected (r # rs) grouped = and_then (group_range expected r grouped) (group_ranges expected rs)"

definition requested_range :: "range_selection list \<Rightarrow> source_key \<Rightarrow> error + range_selection" where
  "requested_range scope key = ok_or (find (\<lambda>r. source_key r = key) scope) prepare_required"

section \<open>The selected text\<close>

definition wanted :: "range_selection \<Rightarrow> nat \<Rightarrow> bool" where
  "wanted s index \<longleftrightarrow> xs_mode s = ''all''
     \<or> list_ex (\<lambda>r. fst r \<le> min (index + 1) U32_LIMIT \<and> min (index + 1) U32_LIMIT \<le> snd r) (xs_ranges s)"

definition charge_segment :: "(string option \<Rightarrow> string) \<Rightarrow> source_key \<Rightarrow> nat \<times> string \<Rightarrow> (ledger, error, unit) op" where
  "charge_segment shown key seg = (case (key, seg) of ((kind, i, source), (index, candidate)) \<Rightarrow>
     op_bind (reserve_text_segment shown (kind, i, source, ''paragraph:'' @ decimal (index + 1)) candidate) (\<lambda>v.
     commit_tokens v (estimate_text_tokens candidate)))"

definition candidates_of :: "range_selection \<Rightarrow> string \<Rightarrow> (nat \<times> string) list" where
  "candidates_of requested text = filter (\<lambda>(index, _). wanted requested index) (enumerate 0 (context_text_segments text))"

definition select_context_text :: "(string option \<Rightarrow> string) \<Rightarrow> source_key \<Rightarrow> string \<Rightarrow> range_selection list
    \<Rightarrow> (ledger, error, string) op" where
  "select_context_text shown key text scope =
     op_bind (op_lift (requested_range scope key)) (\<lambda>requested.
     op_bind (op_lift (ensure (xs_mode requested \<in> {''all'', ''paragraphs''}) scope_invalid)) (\<lambda>_.
     op_bind (op_each (charge_segment shown key) (candidates_of requested text)) (\<lambda>_.
     op_return (str_join [CHR 0x0A, CHR 0x0A] (map snd (candidates_of requested text))))))"

section \<open>What a context selects\<close>

definition units :: "(nat \<times> nat) list \<Rightarrow> nat set" where
  "units rs = {n. \<exists>r \<in> set rs. fst r \<le> n \<and> n \<le> snd r}"

definition canonical_intervals :: "(nat \<times> nat) list \<Rightarrow> bool" where
  "canonical_intervals rs \<longleftrightarrow> sorted_wrt (\<lambda>p q. snd p + 1 < fst q) rs \<and> (\<forall>r \<in> set rs. 1 \<le> fst r \<and> fst r \<le> snd r)"

definition canonical_manifest :: "context_manifest \<Rightarrow> bool" where
  "canonical_manifest m \<longleftrightarrow> distinct (map source_key (manifest_context_ranges m))
     \<and> (\<forall>s \<in> set (manifest_context_ranges m). xs_mode s = ''all'' \<or> xs_ranges s \<noteq> [] \<and> canonical_intervals (xs_ranges s))"

definition selects :: "context_manifest \<Rightarrow> source_key \<Rightarrow> string \<Rightarrow> nat \<Rightarrow> bool" where
  "selects m key mode n \<longleftrightarrow> (\<exists>s \<in> set (manifest_context_ranges m). source_key s = key
     \<and> (xs_mode s = ''all'' \<or> xs_mode s = mode \<and> n \<in> units (xs_ranges s)))"

definition selects_whole :: "context_manifest \<Rightarrow> source_key \<Rightarrow> bool" where
  "selects_whole m key \<longleftrightarrow> (\<exists>s \<in> set (manifest_context_ranges m). source_key s = key \<and> xs_mode s = ''all'')"

definition still_selected :: "context_manifest \<Rightarrow> context_manifest \<Rightarrow> bool" where
  "still_selected old current \<longleftrightarrow>
     (\<lambda>m. (mr_id m, mr_source m)) ` set (cm_materials old) \<subseteq> (\<lambda>m. (mr_id m, mr_source m)) ` set (cm_materials current)
     \<and> set (cm_attachment_ids old) \<subseteq> set (cm_attachment_ids current)
     \<and> (\<forall>key. selects_whole old key \<longrightarrow> selects_whole current key)
     \<and> (\<forall>key mode n. selects old key mode n \<longrightarrow> selects current key mode n)"

lemma units_simps [simp]: "units [] = {}" "units (r # rs) = {fst r..snd r} \<union> units rs" "units (rs @ qs) = units rs \<union> units qs"
  by (auto simp: units_def)

lemma push_interval_canonical:
  assumes "canonical_intervals acc" "1 \<le> fst r" "fst r \<le> snd r" "snd r \<le> U32_LIMIT" "acc \<noteq> [] \<longrightarrow> fst (last acc) \<le> fst r"
  shows "canonical_intervals (push_interval r acc) \<and> units (push_interval r acc) = units acc \<union> units [r]
    \<and> push_interval r acc \<noteq> [] \<and> fst (last (push_interval r acc)) \<le> fst r"
proof (cases acc rule: rev_cases)
  case Nil
  with assms show ?thesis by (simp add: push_interval_def canonical_intervals_def)
next
  case (snoc bs x)
  show ?thesis
  proof (cases "fst r \<le> min (snd x + 1) U32_LIMIT")
    case True
    have "{fst x..max (snd x) (snd r)} = {fst x..snd x} \<union> {fst r..snd r}"
      using True assms snoc by auto
    then show ?thesis using True assms snoc
      by (auto simp: push_interval_def canonical_intervals_def sorted_wrt_append)
  next
    case False
    then have "snd x + 1 < fst r" using assms by auto
    then show ?thesis using False assms snoc
      by (auto simp: push_interval_def canonical_intervals_def sorted_wrt_append less_trans)
  qed
qed

lemma fold_push_canonical:
  assumes "canonical_intervals acc" "sorted rs" "\<forall>r \<in> set rs. 1 \<le> fst r \<and> fst r \<le> snd r \<and> snd r \<le> U32_LIMIT"
    and "acc \<noteq> [] \<longrightarrow> (\<forall>r \<in> set rs. fst (last acc) \<le> fst r)"
  shows "canonical_intervals (fold push_interval rs acc) \<and> units (fold push_interval rs acc) = units acc \<union> units rs
    \<and> (rs \<noteq> [] \<longrightarrow> fold push_interval rs acc \<noteq> [])"
  using assms
proof (induction rs arbitrary: acc)
  case (Cons r rs)
  have first: "\<forall>q \<in> set rs. fst r \<le> fst q" using Cons.prems(2) by (auto simp: less_eq_prod_def)
  have one: "canonical_intervals (push_interval r acc) \<and> units (push_interval r acc) = units acc \<union> units [r]
      \<and> push_interval r acc \<noteq> [] \<and> fst (last (push_interval r acc)) \<le> fst r"
    by (rule push_interval_canonical) (use Cons.prems in auto)
  have later: "\<forall>q \<in> set rs. fst (last (push_interval r acc)) \<le> fst q"
    using first one by (meson le_trans)
  have "fold push_interval rs (push_interval r acc) \<noteq> []" if "rs = []" using that one by simp
  with Cons.IH[of "push_interval r acc"] one later Cons.prems show ?case by (cases "rs = []") auto
qed simp

lemma normalize_canonical:
  assumes "normalize_context_intervals rs = Inr cs" "\<forall>r \<in> set rs. snd r \<le> U32_LIMIT"
  shows "canonical_intervals cs" "units cs = units rs" "rs \<noteq> [] \<Longrightarrow> cs \<noteq> []"
proof -
  have bounds: "\<forall>r \<in> set (sort rs). 1 \<le> fst r \<and> fst r \<le> snd r \<and> snd r \<le> U32_LIMIT"
    using assms by (force simp: normalize_context_intervals_def list_ex_iff split: if_splits)
  have cs: "cs = fold push_interval (sort rs) []"
    using assms(1) by (simp add: normalize_context_intervals_def split: if_splits)
  have "units (sort rs) = units rs" by (simp add: units_def)
  moreover have "sort rs \<noteq> []" if "rs \<noteq> []" using that by (metis set_sort set_empty)
  ultimately show "canonical_intervals cs" "units cs = units rs" "rs \<noteq> [] \<Longrightarrow> cs \<noteq> []"
    using fold_push_canonical[of "[]" "sort rs"] bounds by (auto simp: cs canonical_intervals_def)
qed

lemma canonical_apart:
  assumes "canonical_intervals rs" "p \<in> set rs" "q \<in> set rs" "p \<noteq> q"
  shows "snd p + 1 < fst q \<or> snd q + 1 < fst p"
proof -
  obtain i j where "i < length rs" "j < length rs" "rs ! i = p" "rs ! j = q"
    using assms(2,3) by (auto simp: in_set_conv_nth)
  moreover from this assms(4) have "i < j \<or> j < i" by (metis linorder_neqE_nat)
  ultimately show ?thesis
    using assms(1) sorted_wrt_nth_less[of "\<lambda>p q. snd p + 1 < fst q" rs] by (auto simp: canonical_intervals_def)
qed

lemma interval_contains_iff:
  assumes "canonical_intervals current" "\<forall>r \<in> set required. fst r \<le> snd r"
  shows "interval_set_contains current required \<longleftrightarrow> units required \<subseteq> units current"
proof
  assume "interval_set_contains current required"
  then show "units required \<subseteq> units current"
    by (force simp: interval_set_contains_def list_all_iff list_ex_iff units_def)
next
  assume sub: "units required \<subseteq> units current"
  have "\<exists>c \<in> set current. fst c \<le> fst r \<and> snd r \<le> snd c" if r: "r \<in> set required" for r
  proof -
    have le: "fst r \<le> snd r" using assms(2) r by blast
    have all: "n \<in> units current" if "fst r \<le> n" "n \<le> snd r" for n
      using that r sub by (auto simp: units_def)
    obtain c where c: "c \<in> set current" "fst c \<le> fst r" "fst r \<le> snd c"
      using all[of "fst r"] le by (auto simp: units_def)
    have "snd r \<le> snd c"
    proof (rule ccontr)
      assume "\<not> snd r \<le> snd c"
      then obtain d where d: "d \<in> set current" "fst d \<le> snd c + 1" "snd c + 1 \<le> snd d"
        using all[of "snd c + 1"] c by (auto simp: units_def)
      then have "c \<noteq> d" by auto
      from canonical_apart[OF assms(1) c(1) d(1) this] d c show False by auto
    qed
    with c show ?thesis by blast
  qed
  then show "interval_set_contains current required"
    by (auto simp: interval_set_contains_def list_all_iff list_ex_iff)
qed

lemma one_selection:
  assumes "canonical_manifest m" "s \<in> set (manifest_context_ranges m)" "t \<in> set (manifest_context_ranges m)"
    and "source_key s = source_key t"
  shows "s = t"
  using assms by (auto simp: canonical_manifest_def distinct_map dest: inj_onD)

lemma contains_iff:
  assumes "canonical_manifest current" "canonical_manifest old"
  shows "context_contains_manifest current old \<longleftrightarrow> still_selected old current"
proof
  assume con: "context_contains_manifest current old"
  have pick: "\<exists>c \<in> set (manifest_context_ranges current). range_selection_contains c s"
    if "s \<in> set (manifest_context_ranges old)" for s
    using con that by (auto simp: context_contains_manifest_def list_all_iff list_ex_iff)
  have "selects_whole current key" if "selects_whole old key" for key
    using that pick unfolding selects_whole_def range_selection_contains_def by metis
  moreover have "selects current key mode n" if "selects old key mode n" for key mode n
  proof -
    from that obtain s where s: "s \<in> set (manifest_context_ranges old)" "source_key s = key"
      "xs_mode s = ''all'' \<or> xs_mode s = mode \<and> n \<in> units (xs_ranges s)" by (auto simp: selects_def)
    from pick[OF s(1)] obtain c where c: "c \<in> set (manifest_context_ranges current)" "range_selection_contains c s" by blast
    have "units (xs_ranges s) \<subseteq> units (xs_ranges c)" if "interval_set_contains (xs_ranges c) (xs_ranges s)"
      using that by (force simp: interval_set_contains_def list_all_iff list_ex_iff units_def)
    with s c show ?thesis by (auto simp: selects_def range_selection_contains_def)
  qed
  ultimately show "still_selected old current"
    using con by (auto simp: still_selected_def context_contains_manifest_def list_all_iff)
next
  assume sel: "still_selected old current"
  have "\<exists>c \<in> set (manifest_context_ranges current). range_selection_contains c s"
    if s: "s \<in> set (manifest_context_ranges old)" for s
  proof (cases "xs_mode s = ''all''")
    case True
    with s have "selects_whole old (source_key s)" by (auto simp: selects_whole_def)
    with sel have "selects_whole current (source_key s)" by (simp add: still_selected_def del: split_paired_All)
    then show ?thesis by (auto simp: selects_whole_def range_selection_contains_def)
  next
    case False
    with s assms(2) have ranges: "xs_ranges s \<noteq> []" "canonical_intervals (xs_ranges s)" by (auto simp: canonical_manifest_def)
    have each: "\<exists>c \<in> set (manifest_context_ranges current). source_key c = source_key s
        \<and> (xs_mode c = ''all'' \<or> xs_mode c = xs_mode s \<and> n \<in> units (xs_ranges c))" if "n \<in> units (xs_ranges s)" for n
    proof -
      have "selects old (source_key s) (xs_mode s) n" using s that by (auto simp: selects_def)
      with sel have "selects current (source_key s) (xs_mode s) n" by (simp add: still_selected_def del: split_paired_All)
      then show ?thesis by (auto simp: selects_def)
    qed
    from ranges have some: "fst (hd (xs_ranges s)) \<in> units (xs_ranges s)"
      by (cases "xs_ranges s") (auto simp: canonical_intervals_def)
    from each[OF some] obtain c where c: "c \<in> set (manifest_context_ranges current)" "source_key c = source_key s"
      "xs_mode c = ''all'' \<or> xs_mode c = xs_mode s" by blast
    show ?thesis
    proof (cases "xs_mode c = ''all''")
      case True
      with c show ?thesis by (auto simp: range_selection_contains_def)
    next
      case mode: False
      have "units (xs_ranges s) \<subseteq> units (xs_ranges c)"
      proof
        fix n assume "n \<in> units (xs_ranges s)"
        from each[OF this] obtain d where d: "d \<in> set (manifest_context_ranges current)" "source_key d = source_key s"
          "xs_mode d = ''all'' \<or> xs_mode d = xs_mode s \<and> n \<in> units (xs_ranges d)" by blast
        with one_selection[OF assms(1) d(1) c(1)] c mode show "n \<in> units (xs_ranges c)" by auto
      qed
      moreover have "canonical_intervals (xs_ranges c)" using assms(1) c(1) mode by (auto simp: canonical_manifest_def)
      moreover have "\<forall>r \<in> set (xs_ranges s). fst r \<le> snd r" using ranges(2) by (auto simp: canonical_intervals_def)
      ultimately have "interval_set_contains (xs_ranges c) (xs_ranges s)" by (simp add: interval_contains_iff)
      with c mode False show ?thesis by (auto simp: range_selection_contains_def)
    qed
  qed
  then show "context_contains_manifest current old"
    using sel by (auto simp: context_contains_manifest_def still_selected_def list_all_iff list_ex_iff)
qed

section \<open>The turns that may be sent again\<close>

definition in_turn :: "string \<Rightarrow> json \<Rightarrow> bool" where
  "in_turn i message \<longleftrightarrow> Option.bind (json_get message ''run_id'') as_str = Some i"

definition role_is :: "string \<Rightarrow> json \<Rightarrow> bool" where
  "role_is r message \<longleftrightarrow> Option.bind (json_get message ''role'') as_str = Some r"

lemma history_turns_get:
  "om_get (fold (\<lambda>message turns. case Option.bind (json_get message ''run_id'') as_str of
       None \<Rightarrow> turns
     | Some i \<Rightarrow> om_put i (turn_of R current message
         (case om_get turns i of None \<Rightarrow> (False, False, True) | Some t \<Rightarrow> t)) turns) messages turns) i
   = (case filter (in_turn i) messages of [] \<Rightarrow> om_get turns i
      | ms \<Rightarrow> Some (fold (turn_of R current) ms (case om_get turns i of None \<Rightarrow> (False, False, True) | Some t \<Rightarrow> t)))"
proof (induction messages arbitrary: turns)
  case (Cons message messages)
  have head: "in_turn i message \<longleftrightarrow> Option.bind (json_get message ''run_id'') as_str = Some i"
    by (simp add: in_turn_def)
  show ?case
    by (cases "Option.bind (json_get message ''run_id'') as_str"; cases "filter (in_turn i) messages")
      (auto simp: head Cons.IH)
qed simp

lemma history_turns_wf: "om_wf (history_turns R current messages)"
proof -
  have "om_wf turns \<Longrightarrow> om_wf (fold (\<lambda>message turns. case Option.bind (json_get message ''run_id'') as_str of
       None \<Rightarrow> turns
     | Some i \<Rightarrow> om_put i (turn_of R current message
         (case om_get turns i of None \<Rightarrow> (False, False, True) | Some t \<Rightarrow> t)) turns) messages turns)" for turns
    by (induction messages arbitrary: turns) (auto split: option.split)
  then show ?thesis by (simp add: history_turns_def)
qed

lemma turn_of_fold:
  "fold (turn_of R current) ms (u, a, k) =
    (u \<or> list_ex (role_is ''user'') ms, a \<or> list_ex (role_is ''assistant'') ms,
     k \<and> list_all (\<lambda>m. (role_is ''user'' m \<or> role_is ''assistant'' m)
        \<and> (\<exists>stored. Option.bind (json_get m ''context_manifest'') R = Some stored \<and> context_contains_manifest current stored)) ms)"
proof (induction ms arbitrary: u a k)
  case (Cons m ms)
  have step: "turn_of R current m (u, a, k) = (u \<or> role_is ''user'' m, a \<or> role_is ''assistant'' m,
      k \<and> (role_is ''user'' m \<or> role_is ''assistant'' m)
        \<and> (\<exists>stored. Option.bind (json_get m ''context_manifest'') R = Some stored \<and> context_contains_manifest current stored))"
    by (auto simp: turn_of_def role_is_def Let_def split: option.split)
  show ?case unfolding fold_simps comp_def step Cons.IH by auto
qed simp

lemma history_turn_ids_iff:
  "i \<in> set (history_turn_ids_for_context R messages current) \<longleftrightarrow>
    (let turn = filter (in_turn i) messages in
     list_ex (role_is ''user'') turn \<and> list_ex (role_is ''assistant'') turn
     \<and> list_all (\<lambda>m. (role_is ''user'' m \<or> role_is ''assistant'' m)
        \<and> (\<exists>stored. Option.bind (json_get m ''context_manifest'') R = Some stored \<and> context_contains_manifest current stored)) turn)"
proof -
  have get: "om_get (history_turns R current messages) i = (case filter (in_turn i) messages of [] \<Rightarrow> None
      | ms \<Rightarrow> Some (fold (turn_of R current) ms (False, False, True)))"
    using history_turns_get[of R current messages "[]" i] by (simp add: history_turns_def split: list.split)
  have "i \<in> set (history_turn_ids_for_context R messages current) \<longleftrightarrow>
      (\<exists>u a k. om_get (history_turns R current messages) i = Some (u, a, k) \<and> u \<and> a \<and> k)"
    by (force simp: history_turn_ids_for_context_def om_wf_get_iff[OF history_turns_wf])
  note mem = this
  show ?thesis
  proof (cases "filter (in_turn i) messages")
    case Nil
    with mem get show ?thesis by (simp add: Let_def)
  next
    case (Cons m ms)
    with get have "om_get (history_turns R current messages) i
        = Some (fold (turn_of R current) (filter (in_turn i) messages) (False, False, True))" by simp
    then show ?thesis unfolding mem turn_of_fold Let_def by (simp only: option.inject prod.inject simp_thms) blast
  qed
qed

text \<open>
  A turn of a conversation is sent again exactly when everything it was made from is still selected. It has a question and an answer and nothing else, and the context stored with each of
  its messages selects no material, no attachment, no whole source and no page or paragraph that
  the current context does not select.
\<close>

theorem history_is_still_selected:
  assumes "canonical_manifest current"
    and "\<And>m stored. m \<in> set messages \<Longrightarrow> Option.bind (json_get m ''context_manifest'') read_manifest = Some stored \<Longrightarrow>
      canonical_manifest stored"
  shows "i \<in> set (history_turn_ids_for_context read_manifest messages current) \<longleftrightarrow>
    (let turn = filter (in_turn i) messages in
     list_ex (role_is ''user'') turn \<and> list_ex (role_is ''assistant'') turn
     \<and> list_all (\<lambda>m. (role_is ''user'' m \<or> role_is ''assistant'' m)
        \<and> (\<exists>stored. Option.bind (json_get m ''context_manifest'') read_manifest = Some stored
            \<and> still_selected stored current)) turn)"
proof -
  have "(\<exists>stored. Option.bind (json_get m ''context_manifest'') read_manifest = Some stored \<and> context_contains_manifest current stored)
      \<longleftrightarrow> (\<exists>stored. Option.bind (json_get m ''context_manifest'') read_manifest = Some stored \<and> still_selected stored current)"
    if "m \<in> set messages" for m
    using contains_iff[OF assms(1) assms(2)[OF that]] by blast
  then have "list_all (\<lambda>m. (role_is ''user'' m \<or> role_is ''assistant'' m)
        \<and> (\<exists>stored. Option.bind (json_get m ''context_manifest'') read_manifest = Some stored \<and> context_contains_manifest current stored))
        (filter (in_turn i) messages)
      \<longleftrightarrow> list_all (\<lambda>m. (role_is ''user'' m \<or> role_is ''assistant'' m)
        \<and> (\<exists>stored. Option.bind (json_get m ''context_manifest'') read_manifest = Some stored \<and> still_selected stored current))
        (filter (in_turn i) messages)"
    unfolding list_all_iff by auto
  then show ?thesis unfolding history_turn_ids_iff Let_def by blast
qed

theorem history_is_still_selected_witness:
  "history_turn_ids_for_context (\<lambda>_. Some \<lparr>cm_revision = 1, cm_materials = [], cm_attachment_ids = [], cm_context_ranges = [],
      cm_updated_at = 0\<rparr>)
    [JObj [(''context_manifest'', JNull), (''role'', JStr ''user''), (''run_id'', JStr ''r'')],
     JObj [(''context_manifest'', JNull), (''role'', JStr ''assistant''), (''run_id'', JStr ''r'')]]
    \<lparr>cm_revision = 2, cm_materials = [], cm_attachment_ids = [], cm_context_ranges = [], cm_updated_at = 0\<rparr> \<noteq> []"
proof -
  have empty: "canonical_manifest \<lparr>cm_revision = n, cm_materials = [], cm_attachment_ids = [], cm_context_ranges = [], cm_updated_at = 0\<rparr>"
    "still_selected \<lparr>cm_revision = n, cm_materials = [], cm_attachment_ids = [], cm_context_ranges = [], cm_updated_at = 0\<rparr>
       \<lparr>cm_revision = k, cm_materials = [], cm_attachment_ids = [], cm_context_ranges = [], cm_updated_at = 0\<rparr>" for n k
    by (simp_all add: canonical_manifest_def still_selected_def selects_whole_def selects_def manifest_context_ranges_def
        implicit_context_ranges_def)
  have "''r'' \<in> set (history_turn_ids_for_context (\<lambda>_. Some \<lparr>cm_revision = 1, cm_materials = [], cm_attachment_ids = [],
      cm_context_ranges = [], cm_updated_at = 0\<rparr>)
    [JObj [(''context_manifest'', JNull), (''role'', JStr ''user''), (''run_id'', JStr ''r'')],
     JObj [(''context_manifest'', JNull), (''role'', JStr ''assistant''), (''run_id'', JStr ''r'')]]
    \<lparr>cm_revision = 2, cm_materials = [], cm_attachment_ids = [], cm_context_ranges = [], cm_updated_at = 0\<rparr>)"
    by (subst history_is_still_selected)
      (auto simp: empty Let_def in_turn_def role_is_def json_get_def as_str_def)
  then show ?thesis by force
qed

end
