(* ===== verification/Run_Store.thy ===== *)
theory Run_Store imports Run_Scope Ai_Dispatch begin

text \<open>
  The state of the AI runs (\<open>workspace-service/src/ai\_runs.rs\<close>) and the rules under which a run may
  use its sources. The state puts the provider settings and the decoded workspace side by side with
  the tables of runs, conversations and attachments; an operation of either part is lifted. Every
  access to these tables takes one outcome of the environment, as in the other parts.
\<close>

section \<open>Records\<close>

record run_request =
  rq_kind :: string
  rq_prompt :: string
  rq_provider_id :: "string option"
  rq_model :: "string option"
  rq_materials :: "material_ref list"
  rq_attachment_ids :: "string list"
  rq_context_ranges :: "range_selection list"
  rq_case_date :: "string option"
  rq_match_mode :: "string option"
  rq_version_scope :: "string option"
  rq_version_status :: "string option"
  rq_document_type :: "string option"
  rq_requirements :: "string option"
  rq_conversation_id :: "string option"
  rq_context_revision :: "nat option"
  rq_context_preparation_hash :: "string option"
  rq_context_plan_hash :: "string option"
  rq_parent_id :: "string option"

record citation_verification =
  cv_state :: string
  cv_reasons :: "string list"
  cv_body_sha256 :: string
  cv_run_revision :: nat
  cv_case_date :: "string option"
  cv_verified_at :: "nat option"
  cv_sources :: "json list"

record ai_run =
  ru_id :: string
  ru_document_id :: "string option"
  ru_kind :: string
  ru_status :: string
  ru_stage :: string
  ru_prompt :: string
  ru_title :: string
  ru_content :: string
  ru_html :: string
  ru_citations :: "json list"
  ru_citation_verification :: "citation_verification option"
  ru_tool_steps :: "json list"
  ru_error_code :: "string option"
  ru_usage :: json
  ru_created_at :: nat
  ru_updated_at :: nat
  ru_provider_id :: string
  ru_model :: string
  ru_request :: run_request
  ru_messages :: "json list"
  ru_allowed_sources :: "(string, json) omap"
  ru_bindings :: "(string \<times> string \<times> string) list"
  ru_provider_revision :: nat
  ru_provider_profile_hash :: string
  ru_original_material_revisions :: "(string, nat) omap"
  ru_context_manifest :: "context_manifest option"
  ru_context_plan :: "context_plan option"
  ru_revision :: nat

record conversation =
  cn_id :: string
  cn_title :: string
  cn_title_manual :: bool
  cn_messages :: "json list"
  cn_materials :: "material_ref list"
  cn_attachment_ids :: "string list"
  cn_context_ranges :: "range_selection list"
  cn_context_revision :: nat
  cn_context_known :: bool
  cn_updated_at :: nat

record attachment =
  at_id :: string
  at_name :: string
  at_sha256 :: string
  at_source_byte_len :: nat
  at_format :: string
  at_created_at :: nat

record inspection =
  ip_id :: string
  ip_source_kind :: string
  ip_source_id :: string
  ip_source :: "string option"
  ip_format :: string
  ip_unit_kind :: string
  ip_unit_count :: nat
  ip_unit_version :: string
  ip_estimated_input_tokens :: nat
  ip_estimate_basis :: string
  ip_source_binding :: json
  ip_created_at :: nat

record ocr_page =
  op_source_sha256 :: string
  op_locator :: string
  op_asset_sha256 :: string
  op_provider_id :: string
  op_model :: string
  op_provider_revision :: nat
  op_text :: string
  op_completed_at :: nat

section \<open>State\<close>

record run_ws =
  rx_ai :: ai_ws
  rx_ws :: ws
  rx_runs :: "(string, ai_run) omap"
  rx_conversations :: "(string, conversation) omap"
  rx_attachments :: "(string, attachment) omap"
  rx_attachment_bytes :: "(string, string) omap"
  rx_inspections :: "(string, inspection) omap"
  rx_pages :: "(string, ocr_page) omap"
  rx_cancellations :: "(string, nat) omap"
  rx_ledger :: ledger
  rx_outcomes :: "error option list"

type_synonym 'a rop = "(run_ws, error, 'a) op"

definition in_ai :: "'a vop \<Rightarrow> 'a rop" where
  "in_ai m s = (case m (rx_ai s) of (r, w) \<Rightarrow> (r, s\<lparr>rx_ai := w\<rparr>))"

definition in_ws :: "'a wop \<Rightarrow> 'a rop" where
  "in_ws m s = (case m (rx_ws s) of (r, w) \<Rightarrow> (r, s\<lparr>rx_ws := w\<rparr>))"

definition in_ledger :: "(ledger, error, 'a) op \<Rightarrow> 'a rop" where
  "in_ledger m s = (case m (rx_ledger s) of (r, l) \<Rightarrow> (r, s\<lparr>rx_ledger := l\<rparr>))"

definition rx_io :: "unit rop" where
  "rx_io s = (case rx_outcomes s of
     [] \<Rightarrow> (Inr (), s)
   | x # xs \<Rightarrow> (case x of None \<Rightarrow> Inr () | Some e \<Rightarrow> Inl e, s\<lparr>rx_outcomes := xs\<rparr>))"

definition rx_fetch_maybe :: "(run_ws \<Rightarrow> (string, 'a) omap) \<Rightarrow> string \<Rightarrow> 'a option rop" where
  "rx_fetch_maybe table i = op_bind rx_io (\<lambda>_. op_get (\<lambda>s. om_get (table s) i))"

definition rx_fetch :: "(run_ws \<Rightarrow> (string, 'a) omap) \<Rightarrow> string \<Rightarrow> 'a rop" where
  "rx_fetch table i = op_bind (rx_fetch_maybe table i) (\<lambda>x. op_lift (ok_or x (error_new ''not_found'')))"

datatype run_row =
    XRun string ai_run | XConversation string conversation | XAttachment string attachment | XPage string ocr_page

fun apply_run_row :: "run_row \<Rightarrow> run_ws \<Rightarrow> run_ws" where
  "apply_run_row (XRun i x) s = s\<lparr>rx_runs := om_put i x (rx_runs s)\<rparr>"
| "apply_run_row (XConversation i x) s = s\<lparr>rx_conversations := om_put i x (rx_conversations s)\<rparr>"
| "apply_run_row (XAttachment i x) s = s\<lparr>rx_attachments := om_put i x (rx_attachments s)\<rparr>"
| "apply_run_row (XPage i x) s = s\<lparr>rx_pages := om_put i x (rx_pages s)\<rparr>"

definition rx_encode :: "run_row \<Rightarrow> run_row rop" where
  "rx_encode r = op_bind rx_io (\<lambda>_. op_return r)"

definition rx_put_rows :: "run_row list \<Rightarrow> unit rop" where
  "rx_put_rows rows = op_bind rx_io (\<lambda>_. op_modify (fold apply_run_row rows))"

definition rx_save :: "run_row \<Rightarrow> unit rop" where
  "rx_save r = op_bind (rx_encode r) (\<lambda>x. rx_put_rows [x])"

definition rx_lock :: "unit rop" where
  "rx_lock = rx_io"

definition rx_require :: "bool \<Rightarrow> error \<Rightarrow> unit rop" where
  "rx_require b e = op_lift (ensure b e)"

text \<open>The table of cancellation tokens is behind a mutex of its own.\<close>

definition rx_tokens :: "unit rop" where
  "rx_tokens = op_bind (op_get (\<lambda>s. v_poisoned (rx_ai s))) (\<lambda>p. rx_require (\<not> p) (error_new ''workspace_unavailable''))"

definition rx_now :: "nat rop" where
  "rx_now = in_ai ai_now"

record pdf_page =
  pg_locator :: string
  pg_text :: string
  pg_asset :: "(string \<times> string \<times> string) option"

text \<open>
  What the runs rely on beside the workspace: the other handlers at the unlocked points, the
  document extractors and the page worker, the legal tools, the check of citations and the rendering
  of an answer, the fixed texts of the system message and of the tool list, the reader of stored
  manifests, and the \<open>Debug\<close> form of an optional text.
\<close>

record run_env =
  re_ai :: ai_env
  re_gap :: "nat \<Rightarrow> run_ws \<Rightarrow> run_ws"
  re_format :: "string \<Rightarrow> error + string"
  re_text :: "string \<Rightarrow> string \<Rightarrow> error + string"
  re_media :: "string \<Rightarrow> string \<Rightarrow> error + string \<times> (string \<times> string \<times> string) list"
  re_image :: "string \<Rightarrow> string \<Rightarrow> error + string \<times> string \<times> string"
  re_pages :: "string \<Rightarrow> (nat \<times> nat) list option \<Rightarrow> error + (error + pdf_page) list"
  re_marker :: "string \<Rightarrow> string option"
  re_base64 :: "string \<Rightarrow> string"
  re_tool :: "string \<Rightarrow> json \<Rightarrow> run_request \<Rightarrow> error + json"
  re_citations :: "ai_run \<Rightarrow> json list \<Rightarrow> error + json list \<times> citation_verification"
  re_system :: string
  re_tools :: json
  re_html :: "string \<Rightarrow> string"
  re_read_manifest :: "json \<Rightarrow> context_manifest option"
  re_shown :: "string option \<Rightarrow> string"

definition run_gap :: "run_env \<Rightarrow> nat \<Rightarrow> unit rop" where
  "run_gap R k = op_modify (re_gap R k)"

definition run_service :: "run_env \<Rightarrow> service" where
  "run_service R = ae_service (re_ai R)"

section \<open>What a run may use\<close>

definition selection_of :: "ai_run \<Rightarrow> ai_selection" where
  "selection_of r = \<lparr>sel_provider_id = ru_provider_id r, sel_model = ru_model r\<rparr>"

definition raw_context_requested :: "run_request \<Rightarrow> bool" where
  "raw_context_requested q \<longleftrightarrow>
     rq_attachment_ids q \<noteq> [] \<or> list_ex (\<lambda>m. mr_source m = ''original'') (rq_materials q)"

text \<open>The tuple is serialised as it is declared, not through a \<open>Value\<close>.\<close>

definition capability_record_json :: "model_capabilities \<Rightarrow> json" where
  "capability_record_json c = JObj (json_present ''context_window_tokens'' json_nat (cap_context_window_tokens c)
     @ json_present ''max_output_tokens'' json_nat (cap_max_output_tokens c)
     @ [(''supports_tools'', json_opt JBool (cap_supports_tools c)),
        (''supports_structured_output'', json_opt JBool (cap_supports_structured_output c)),
        (''supports_vision'', json_opt JBool (cap_supports_vision c))])"

definition ai_metadata_json :: "ai_metadata \<Rightarrow> json" where
  "ai_metadata_json md = JObj [(''preset'', JStr (md_preset md)),
     (''enabled_models'', JArr (map JStr (md_enabled_models md))), (''trust_raw'', JBool (md_trust_raw md)),
     (''base_url'', JStr (md_base_url md)),
     (''model_capabilities'', JObj (map (\<lambda>(m, c). (m, capability_record_json c)) (md_model_capabilities md)))]"

definition provider_profile_binding :: "run_env \<Rightarrow> ai_selection \<Rightarrow> (nat \<times> string) rop" where
  "provider_profile_binding R sel = op_bind (in_ai (ai_config sel)) (\<lambda>(config, md).
     op_return (pc_revision config, content_hash (run_service R) (sv_to_vec (run_service R) (JArr
       [JObj [(''provider_id'', JStr (sel_provider_id sel)), (''model'', JStr (sel_model sel))],
        provider_config_json config, ai_metadata_json md]))))"

definition require_trust :: "ai_selection \<Rightarrow> string \<Rightarrow> unit rop" where
  "require_trust sel code = op_bind (in_ai (ai_provider_is_trusted sel)) (\<lambda>t. rx_require t (error_new code))"

definition check_material :: "run_env \<Rightarrow> ai_selection \<Rightarrow> material_ref \<Rightarrow> unit rop" where
  "check_material R sel reference =
     op_bind (in_ws (material (mr_id reference))) (\<lambda>m.
     if mr_source reference = ''original''
     then op_bind (rx_require (m_status m \<noteq> ''revoked'') (error_new ''material_revoked'')) (\<lambda>_.
       require_trust sel ''original_material_requires_trusted_provider'')
     else if mr_source reference = ''redacted''
     then op_bind (op_lift (ok_or (m_result_id m) (error_new ''redacted_material_not_ready''))) (\<lambda>i.
       op_bind (in_ws (read_result_locked (run_service R) i)) (\<lambda>_. op_return ()))
     else op_fail (error_new ''invalid_material_source''))"

definition check_material_policy :: "run_env \<Rightarrow> material_ref list \<Rightarrow> string list \<Rightarrow> ai_selection \<Rightarrow> unit rop" where
  "check_material_policy R refs attachments sel =
     op_bind (op_each (check_material R sel) refs) (\<lambda>_.
     if attachments \<noteq> [] then require_trust sel ''attachment_requires_trusted_provider'' else op_return ())"

definition check_original :: "ai_run \<Rightarrow> material_ref \<Rightarrow> unit rop" where
  "check_original r reference =
     op_bind (in_ws (material (mr_id reference))) (\<lambda>m.
     op_bind (op_lift (ok_or (om_get (ru_original_material_revisions r) (mr_id reference))
       (error_new ''ai_run_reauthorization_required''))) (\<lambda>expected.
     op_bind (rx_require (m_status m \<noteq> ''revoked'') (error_new ''material_revoked'')) (\<lambda>_.
     rx_require (m_revision m = expected) (error_new ''source_changed''))))"

definition check_binding :: "run_env \<Rightarrow> string \<times> string \<times> string \<Rightarrow> unit rop" where
  "check_binding R b = (case b of (kind, i, expected) \<Rightarrow>
     op_bind (if kind = ''result'' then op_bind (in_ws (read_result_locked (run_service R) i)) (\<lambda>x. op_return (rr_output_sha256 x))
       else if kind = ''material'' then op_bind (in_ws (material i)) (\<lambda>m. op_return (m_source_sha256 m))
       else if kind = ''attachment'' then op_bind (rx_fetch rx_attachments i) (\<lambda>a. op_return (at_sha256 a))
       else op_fail (error_new ''invalid_binding'')) (\<lambda>actual.
     rx_require (actual = expected) (error_new ''source_changed'')))"

definition check_profile :: "run_env \<Rightarrow> ai_run \<Rightarrow> unit rop" where
  "check_profile R r = (if ru_provider_revision r \<noteq> 0 \<or> ru_provider_profile_hash r \<noteq> []
     then op_bind (provider_profile_binding R (selection_of r)) (\<lambda>b.
       rx_require (b = (ru_provider_revision r, ru_provider_profile_hash r)) (error_new ''provider_changed''))
     else op_return ())"

definition validate_run_bindings_locked :: "run_env \<Rightarrow> ai_run \<Rightarrow> unit rop" where
  "validate_run_bindings_locked R r =
     op_bind (rx_require (\<not> (raw_context_requested (ru_request r)
         \<and> (ru_provider_revision r = 0 \<or> ru_provider_profile_hash r = []))) (error_new ''ai_run_reauthorization_required'')) (\<lambda>_.
     op_bind (check_profile R r) (\<lambda>_.
     op_bind (check_material_policy R (rq_materials (ru_request r)) (rq_attachment_ids (ru_request r)) (selection_of r)) (\<lambda>_.
     op_bind (op_each (check_original r) (filter (\<lambda>m. mr_source m = ''original'') (rq_materials (ru_request r)))) (\<lambda>_.
     op_each (check_binding R) (ru_bindings r)))))"

section \<open>The row of a run\<close>

definition active :: "ai_run \<Rightarrow> bool" where
  "active r \<longleftrightarrow> ru_status r \<in> {''queued'', ''running''}"

definition manifest_of :: "conversation \<Rightarrow> context_manifest" where
  "manifest_of c = \<lparr>cm_revision = cn_context_revision c, cm_materials = cn_materials c,
     cm_attachment_ids = cn_attachment_ids c, cm_context_ranges = cn_context_ranges c, cm_updated_at = cn_updated_at c\<rparr>"

definition ensure_run_active_locked :: "ai_run \<Rightarrow> unit rop" where
  "ensure_run_active_locked r =
     op_bind (rx_fetch rx_runs (ru_id r)) (\<lambda>persisted.
     op_bind (rx_require (ru_revision persisted = ru_revision r \<and> active persisted)
       (error_new (case ru_error_code persisted of Some c \<Rightarrow> c | None \<Rightarrow> ''cancelled''))) (\<lambda>_.
     case ru_context_manifest r of
       None \<Rightarrow> op_return ()
     | Some expected \<Rightarrow>
         op_bind (op_lift (ok_or (rq_conversation_id (ru_request r)) prepare_required)) (\<lambda>cid.
         op_bind (rx_fetch rx_conversations cid) (\<lambda>c.
         rx_require (cn_context_known c \<and> context_contains_manifest (manifest_of c) expected)
           (error_new ''context_source_removed'')))))"

definition save_run_progress :: "ai_run \<Rightarrow> string \<Rightarrow> ai_run rop" where
  "save_run_progress r stage =
     op_bind rx_lock (\<lambda>_. op_bind (ensure_run_active_locked r) (\<lambda>_. op_bind rx_now (\<lambda>time.
     let r' = r\<lparr>ru_stage := stage, ru_updated_at := time\<rparr> in
     op_bind (rx_save (XRun (ru_id r) r')) (\<lambda>_. op_return r'))))"

definition validate_run_bindings :: "run_env \<Rightarrow> ai_run \<Rightarrow> unit rop" where
  "validate_run_bindings R r =
     op_bind rx_lock (\<lambda>_. op_bind (ensure_run_active_locked r) (\<lambda>_. validate_run_bindings_locked R r))"

text \<open>\<open>checked\_add\<close> on a revision of 64 bits.\<close>

definition next_revision :: "nat \<Rightarrow> error + nat" where
  "next_revision n = ok_or (if n + 1 < 2 ^ 64 then Some (n + 1) else None) (error_new ''invalid_ai_request'')"

definition finish_ai_run_error_if_active :: "string \<Rightarrow> error \<Rightarrow> unit rop" where
  "finish_ai_run_error_if_active i e =
     op_bind rx_lock (\<lambda>_. op_bind (rx_fetch rx_runs i) (\<lambda>r.
     if \<not> active r then op_return ()
     else op_bind rx_now (\<lambda>time. op_bind (op_lift (next_revision (ru_revision r))) (\<lambda>n.
       rx_save (XRun i (r\<lparr>ru_status := (if e_code e = ''cancelled'' then ''cancelled'' else ''failed''),
         ru_error_code := Some (e_code e), ru_stage := (utf8 [0x5904, 0x7406, 0x672A, 0x5B8C, 0x6210, 0xFF0C, 0x53EF, 0x91CD, 0x8BD5]),
         ru_updated_at := time, ru_revision := n\<rparr>))))))"

definition fire_run :: "string \<Rightarrow> run_ws \<Rightarrow> run_ws" where
  "fire_run i s = (case om_get (rx_cancellations s) i of None \<Rightarrow> s
   | Some t \<Rightarrow> s\<lparr>rx_ai := (rx_ai s)\<lparr>v_fired := t # v_fired (rx_ai s)\<rparr>\<rparr>)"

definition cancel_ai_run :: "string \<Rightarrow> ai_run rop" where
  "cancel_ai_run i =
     op_bind rx_lock (\<lambda>_. op_bind (rx_fetch rx_runs i) (\<lambda>r.
     if \<not> active r then op_return r
     else op_bind rx_tokens (\<lambda>_. op_bind (op_modify (fire_run i)) (\<lambda>_. op_bind rx_now (\<lambda>time.
       op_bind (op_lift (next_revision (ru_revision r))) (\<lambda>n.
       let r' = r\<lparr>ru_status := ''cancelled'', ru_stage := (utf8 [0x5DF2, 0x53D6, 0x6D88]), ru_error_code := Some ''cancelled'',
             ru_updated_at := time, ru_revision := n\<rparr> in
       op_bind (rx_save (XRun i r')) (\<lambda>_. op_return r')))))))"

definition delete_ai_run :: "string \<Rightarrow> unit rop" where
  "delete_ai_run i = op_bind (rx_fetch rx_runs i) (\<lambda>r.
     op_bind (rx_require (\<not> active r) (error_new ''task_busy'')) (\<lambda>_.
     op_bind rx_io (\<lambda>_. op_modify (\<lambda>s. s\<lparr>rx_runs := om_remove i (rx_runs s)\<rparr>))))"

text \<open>The runs that an index says are active, oldest first; each is marked as interrupted.\<close>

definition recover_ai_runs :: "unit rop" where
  "recover_ai_runs = op_bind rx_io (\<lambda>_.
     op_bind (op_get (\<lambda>s. map fst (sort_key (\<lambda>(i, r). (ru_updated_at r, i)) (filter (active \<circ> snd) (rx_runs s))))) (\<lambda>ids.
     op_each (\<lambda>i. op_bind (rx_fetch rx_runs i) (\<lambda>r.
       rx_save (XRun (ru_id r) (r\<lparr>ru_status := ''interrupted'',
         ru_stage := (utf8 [0x4EFB, 0x52A1, 0x4E2D, 0x65AD, 0xFF0C, 0x53EF, 0x7EE7, 0x7EED]),
         ru_error_code := Some ''ai_run_interrupted''\<rparr>)))) ids))"

end
