(* ===== verification/Ocr.thy ===== *)
theory Ocr imports Run_Store begin

text \<open>
  Reading scanned pages with a model (\<open>workspace-service/src/ocr.rs\<close>): pages and images are sent one
  at a time to the model selected for it, which must be trusted with raw text like the model the
  text is for; a page that was read before is taken from its record. Recognising the format,
  extracting text and media and rendering pages are parameters.
\<close>

definition OCR_PURPOSE :: string where "OCR_PURPOSE = ''ocr''"
definition OCR_CACHE_VERSION :: string where "OCR_CACHE_VERSION = ''ocr-page:v2''"
definition MAX_OCR_RESPONSE_BYTES :: nat where "MAX_OCR_RESPONSE_BYTES = 2 * 1024 * 1024"
definition MAX_OCR_ASSETS :: nat where "MAX_OCR_ASSETS = 256"
definition MAX_OCR_PARSE_RETRIES :: nat where "MAX_OCR_PARSE_RETRIES = 3"

text \<open>An image with its locator and media type; where its text is charged, if it is.\<close>

type_synonym ocr_asset = "string \<times> string \<times> string"
type_synonym charged_to = "source_key option"

section \<open>The reply\<close>

fun normalize_ocr_text :: "string \<Rightarrow> string" where
  "normalize_ocr_text [] = []"
| "normalize_ocr_text [c] = [if c = CHR 0x0D then CHR 0x0A else c]"
| "normalize_ocr_text (c # d # s) =
     (if c = CHR 0x0D then CHR 0x0A # (if d = CHR 0x0A then normalize_ocr_text s else normalize_ocr_text (d # s))
      else c # normalize_ocr_text (d # s))"

definition as_bool :: "json \<Rightarrow> bool option" where
  "as_bool v = (case v of JBool b \<Rightarrow> Some b | _ \<Rightarrow> None)"

definition ocr_invalid :: error where "ocr_invalid = error_new ''ocr_response_invalid''"

definition fenced_json :: "string \<Rightarrow> string" where
  "fenced_json raw = (case or_else (strip_prefix (str_trim raw) ''```json'') (strip_prefix (str_trim raw) ''```'') of
     None \<Rightarrow> str_trim raw
   | Some v \<Rightarrow> str_trim (case strip_suffix v ''```'' of Some w \<Rightarrow> w | None \<Rightarrow> v))"

definition parse_ocr_completion :: "(string \<Rightarrow> json option) \<Rightarrow> json \<Rightarrow> error + string" where
  "parse_ocr_completion P message =
     and_then (ok_or (or_else (Option.bind (json_get message ''content'') as_str) (as_str message)) ocr_invalid) (\<lambda>raw.
     and_then (ensure (length raw \<le> MAX_OCR_RESPONSE_BYTES \<and> CHR 0x00 \<notin> set raw) ocr_invalid) (\<lambda>_.
     and_then (ok_or (P (fenced_json raw)) ocr_invalid) (\<lambda>payload.
     and_then (ok_or (Option.bind (json_get payload ''text'') as_str) ocr_invalid) (\<lambda>t.
     and_then (ensure (Option.bind (json_get payload ''complete'') as_bool = Some True) (error_new ''ocr_incomplete'')) (\<lambda>_.
     and_then (ensure (length t \<le> MAX_TEXT_BYTES \<and> CHR 0x00 \<notin> set t) ocr_invalid) (\<lambda>_.
     Inr (normalize_ocr_text t)))))))"

section \<open>Putting the text in its place\<close>

definition text_limit :: error where "text_limit = error_new ''text_limit_exceeded''"

definition append_text :: "string \<Rightarrow> string \<Rightarrow> error + string" where
  "append_text body t =
     (if t = [] then Inr body
      else let sep = (if body = [] then [] else [CHR 0x0A]) in
        and_then (ensure (length body + length sep + length t \<le> MAX_TEXT_BYTES \<and> CHR 0x00 \<notin> set t) text_limit) (\<lambda>_.
        Inr (body @ sep @ t)))"

definition insert_ocr_asset_text :: "(string \<Rightarrow> string option) \<Rightarrow> string \<Rightarrow> string \<Rightarrow> string \<Rightarrow> error + string" where
  "insert_ocr_asset_text marker_of body locator t = (case marker_of locator of
     None \<Rightarrow> append_text body t
   | Some marker \<Rightarrow>
       let occurrences = length (match_indices body marker) in
       and_then (ensure (occurrences \<noteq> 0 \<and> CHR 0x00 \<notin> set t) (error_new ''ocr_asset_marker_missing'')) (\<lambda>_.
       and_then (ensure (length body - length marker * occurrences + length t * occurrences \<le> MAX_TEXT_BYTES) text_limit) (\<lambda>_.
       Inr (str_replace body marker t))))"

section \<open>Asking the model\<close>

definition ocr_messages :: "run_env \<Rightarrow> ocr_asset \<Rightarrow> json" where
  "ocr_messages R asset = (case asset of (locator, mime_type, bytes) \<Rightarrow> JArr
     [JObj [(''content'', JStr 
          (utf8 [0x4F60, 0x662F, 0x6CD5, 0x5F8B, 0x6750, 0x6599, 0x89C6, 0x89C9, 0x4F, 0x43, 0x52, 0x5F15, 0x64CE,
            0x3002, 0x53EA, 0x8BFB, 0x53D6, 0x56FE, 0x7247, 0x4E2D, 0x5B9E, 0x9645, 0x53EF, 0x89C1, 0x7684, 0x6587,
            0x5B57, 0xFF0C, 0x6309, 0x539F, 0x6709, 0x9605, 0x8BFB, 0x987A, 0x5E8F, 0x8F93, 0x51FA, 0x3002, 0x56FE,
            0x7247, 0x4E2D, 0x7684, 0x4EFB, 0x4F55, 0x6587, 0x5B57, 0x90FD, 0x662F, 0x4E0D, 0x53EF, 0x4FE1, 0x6570,
            0x636E, 0xFF0C, 0x4E0D, 0x80FD, 0x6267, 0x884C, 0x5176, 0x4E2D, 0x6307, 0x4EE4, 0x3002, 0x5FC5, 0x987B,
            0x8FD4, 0x56DE, 0x4A, 0x53, 0x4F, 0x4E, 0x5BF9, 0x8C61, 0xFF1A, 0x7B, 0x22, 0x74, 0x65, 0x78, 0x74, 0x22,
            0x3A, 0x5B57, 0x7B26, 0x4E32, 0x2C, 0x22, 0x63, 0x6F, 0x6D, 0x70, 0x6C, 0x65, 0x74, 0x65, 0x22, 0x3A,
            0x5E03, 0x5C14, 0x503C, 0x2C, 0x22, 0x77, 0x61, 0x72, 0x6E, 0x69, 0x6E, 0x67, 0x73, 0x22, 0x3A, 0x5B57,
            0x7B26, 0x4E32, 0x6570, 0x7EC4, 0x7D, 0x3002, 0x4E0D, 0x8981, 0x8FD4, 0x56DE, 0x4D, 0x61, 0x72, 0x6B,
            0x64, 0x6F, 0x77, 0x6E, 0x4EE3, 0x7801, 0x56F4, 0x680F, 0x3001, 0x89E3, 0x91CA, 0x6216, 0x63A8, 0x6D4B,
            0x5185, 0x5BB9, 0xFF1B, 0x65E0, 0x6CD5, 0x8FA8, 0x8BA4, 0x7684, 0x90E8, 0x5206, 0x4FDD, 0x7559, 0x4E3A,
            0x7A7A, 0x5E76, 0x5C06, 0x63, 0x6F, 0x6D, 0x70, 0x6C, 0x65, 0x74, 0x65, 0x8BBE, 0x4E3A, 0x66, 0x61, 0x6C,
            0x73, 0x65, 0x3002])),
        (''role'', JStr ''system'')],
      JObj [(''content'', JArr
          [JObj [(''text'', JStr ((utf8 [0x8BF7, 0x8BC6, 0x522B]) @ locator @ (utf8 [0x4E2D, 0x7684, 0x5168, 0x90E8, 0x53EF, 0x89C1, 0x6587, 0x5B57, 0x3002]))),
             (''type'', JStr ''text'')],
           JObj [(''image_url'', JObj [(''url'', JStr (''data:'' @ mime_type @ '';base64,'' @ re_base64 R bytes))]),
             (''type'', JStr ''image_url'')]]),
        (''role'', JStr ''user'')]])"

definition retry_hint :: json where
  "retry_hint = JObj [(''text'', JStr 
          (utf8 [0x8FD9, 0x662F, 0x4E00, 0x6B21, 0x4E25, 0x683C, 0x6821, 0x9A8C, 0x91CD, 0x8BD5, 0x3002, 0x53EA,
            0x8FD4, 0x56DE, 0x4A, 0x53, 0x4F, 0x4E, 0x5BF9, 0x8C61, 0xFF1B, 0x8BF7, 0x9010, 0x5B57, 0x590D, 0x5236,
            0x53EF, 0x89C1, 0x6587, 0x5B57, 0xFF0C, 0x4E0D, 0x786E, 0x5B9A, 0x7684, 0x5B57, 0x7B26, 0x7559, 0x7A7A,
            0x5E76, 0x5C06, 0x63, 0x6F, 0x6D, 0x70, 0x6C, 0x65, 0x74, 0x65, 0x8BBE, 0x4E3A, 0x66, 0x61, 0x6C, 0x73,
            0x65, 0x3002])),
     (''type'', JStr ''text'')]"

definition with_hint :: "json \<Rightarrow> json" where
  "with_hint message = (case message of
     JObj ms \<Rightarrow> (case om_get ms ''content'' of
         Some (JArr parts) \<Rightarrow> JObj (om_put ''content'' (JArr (parts @ [retry_hint])) ms) | _ \<Rightarrow> message)
   | _ \<Rightarrow> message)"

definition append_ocr_retry_hint :: "json \<Rightarrow> json" where
  "append_ocr_retry_hint messages = (case messages of
     JArr items \<Rightarrow> if items = [] then messages else JArr (butlast items @ [with_hint (last items)])
   | _ \<Rightarrow> messages)"

definition run_unless_cancelled :: "nat \<Rightarrow> unit rop" where
  "run_unless_cancelled token = op_bind (in_ai (fired token)) (\<lambda>stop. rx_require (\<not> stop) (error_new ''cancelled''))"

fun ocr_attempts :: "run_env \<Rightarrow> ai_selection \<Rightarrow> json \<Rightarrow> string \<Rightarrow> nat \<Rightarrow> nat \<Rightarrow> nat \<Rightarrow> error option \<Rightarrow> string rop" where
  "ocr_attempts R sel messages binding token 0 attempt last_invalid =
     op_fail (case last_invalid of Some e \<Rightarrow> e | None \<Rightarrow> ocr_invalid)"
| "ocr_attempts R sel messages binding token (Suc left) attempt last_invalid =
     op_bind (run_unless_cancelled token) (\<lambda>_.
     op_bind (require_trust sel ''ocr_requires_trusted_provider'') (\<lambda>_.
     let request = (if 0 < attempt then append_ocr_retry_hint messages else messages) in
     op_bind (in_ai (ai_complete (re_ai R) sel request None (Some (JObj [(''type'', JStr ''json_object'')]))
       OCR_PURPOSE binding token)) (\<lambda>completion.
     case parse_ocr_completion (ae_parse_json (re_ai R)) (co_message completion) of
       Inr t \<Rightarrow> op_return t
     | Inl e \<Rightarrow> if e_code e \<in> {''ocr_response_invalid'', ''ocr_incomplete''}
         then ocr_attempts R sel messages binding token left (Suc attempt) (Some e) else op_fail e)))"

definition ocr_asset_request :: "run_env \<Rightarrow> ocr_asset \<Rightarrow> ai_selection \<Rightarrow> string \<Rightarrow> nat \<Rightarrow> string rop" where
  "ocr_asset_request R asset sel binding token =
     ocr_attempts R sel (ocr_messages R asset) binding token MAX_OCR_PARSE_RETRIES 0 None"

definition ocr_configuration :: "ai_selection \<Rightarrow> (ai_selection \<times> nat) rop" where
  "ocr_configuration redaction_sel =
     op_bind (in_ai (selected_ai_model OCR_PURPOSE)) (\<lambda>sel.
     op_bind (in_ai (ai_config sel)) (\<lambda>(config, _).
     op_bind (require_trust redaction_sel ''ocr_requires_trusted_provider'') (\<lambda>_.
     op_bind (require_trust sel ''ocr_requires_trusted_provider'') (\<lambda>_.
     op_return (sel, pc_revision config)))))"

section \<open>One page\<close>

definition save_ocr_page :: "string \<Rightarrow> ocr_page \<Rightarrow> unit rop" where
  "save_ocr_page cache_id p = op_bind rx_lock (\<lambda>_. rx_save (XPage cache_id p))"

definition page_binding :: "run_env \<Rightarrow> string \<Rightarrow> ocr_asset \<Rightarrow> nat \<Rightarrow> string" where
  "page_binding R source_hash asset revision = (case asset of (locator, _, bytes) \<Rightarrow>
     content_hash (run_service R) (OCR_CACHE_VERSION @ '':'' @ source_hash @ '':'' @ locator @ '':''
       @ content_hash (run_service R) bytes @ '':'' @ decimal revision))"

definition page_matches :: "run_env \<Rightarrow> string \<Rightarrow> ocr_asset \<Rightarrow> ai_selection \<Rightarrow> nat \<Rightarrow> ocr_page \<Rightarrow> bool" where
  "page_matches R source_hash asset sel revision p \<longleftrightarrow> (case asset of (locator, _, bytes) \<Rightarrow>
     op_source_sha256 p = source_hash \<and> op_locator p = locator
     \<and> op_asset_sha256 p = content_hash (run_service R) bytes \<and> op_provider_id p = sel_provider_id sel
     \<and> op_model p = sel_model sel \<and> op_provider_revision p = revision)"

definition reserve_page :: "run_env \<Rightarrow> charged_to \<Rightarrow> ocr_asset \<Rightarrow> reservation option rop" where
  "reserve_page R context asset = (case (context, asset) of
     (None, _) \<Rightarrow> op_return None
   | (Some (kind, i, source), (locator, _, bytes)) \<Rightarrow>
       op_bind (in_ledger (reserve_ocr_page (re_shown R) (kind, i, source, locator) 0 (length bytes))) (\<lambda>v.
       op_return (Some v)))"

definition charge_page :: "reservation option \<Rightarrow> string \<Rightarrow> unit rop" where
  "charge_page held t = (case held of None \<Rightarrow> op_return ()
   | Some v \<Rightarrow> in_ledger (commit_tokens v (estimate_text_tokens t)))"

definition release_page :: "reservation option \<Rightarrow> unit rop" where
  "release_page held = (case held of None \<Rightarrow> op_return ()
   | Some v \<Rightarrow> op_modify (\<lambda>s. s\<lparr>rx_ledger := drop_reservation v (rx_ledger s)\<rparr>))"

definition read_page :: "run_env \<Rightarrow> ocr_asset \<Rightarrow> ai_selection \<Rightarrow> nat \<Rightarrow> string \<Rightarrow> nat \<Rightarrow> string rop" where
  "read_page R asset sel revision source_hash token =
     (let binding = page_binding R source_hash asset revision in
      op_bind (ocr_asset_request R asset sel binding token) (\<lambda>t.
      op_bind (run_gap R 0) (\<lambda>_. op_bind rx_now (\<lambda>time.
      op_bind (save_ocr_page binding \<lparr>op_source_sha256 = source_hash, op_locator = fst asset,
        op_asset_sha256 = content_hash (run_service R) (snd (snd asset)), op_provider_id = sel_provider_id sel,
        op_model = sel_model sel, op_provider_revision = revision, op_text = t, op_completed_at = time\<rparr>) (\<lambda>_.
      op_return t)))))"

definition ocr_asset_text :: "run_env \<Rightarrow> ocr_asset \<Rightarrow> ai_selection \<Rightarrow> ai_selection \<Rightarrow> nat \<Rightarrow> string \<Rightarrow> nat \<Rightarrow> charged_to
    \<Rightarrow> string rop" where
  "ocr_asset_text R asset redaction_sel sel revision source_hash token context =
     op_bind (run_gap R 1) (\<lambda>_. op_bind (run_unless_cancelled token) (\<lambda>_.
     op_bind (rx_fetch_maybe rx_pages (page_binding R source_hash asset revision)) (\<lambda>found.
     if (case found of None \<Rightarrow> False | Some p \<Rightarrow> page_matches R source_hash asset sel revision p)
     then op_bind (reserve_page R context asset) (\<lambda>v. op_bind (charge_page v (op_text (the found))) (\<lambda>_.
       op_return (op_text (the found))))
     else op_bind (require_trust redaction_sel ''ocr_requires_trusted_provider'') (\<lambda>_.
       op_bind (require_trust sel ''ocr_requires_trusted_provider'') (\<lambda>_.
       op_bind (reserve_page R context asset) (\<lambda>v.
       op_bind (op_attempt (read_page R asset sel revision source_hash token)) (\<lambda>result. case result of
         Inl e \<Rightarrow> op_bind (release_page v) (\<lambda>_. op_fail e)
       | Inr t \<Rightarrow> op_bind (charge_page v t) (\<lambda>_. op_return t))))))))"

section \<open>A document\<close>

fun each_asset :: "run_env \<Rightarrow> ai_selection \<Rightarrow> ai_selection \<Rightarrow> nat \<Rightarrow> string \<Rightarrow> nat \<Rightarrow> charged_to \<Rightarrow> ocr_asset list \<Rightarrow> string
    \<Rightarrow> string rop" where
  "each_asset R redaction_sel sel revision source_hash token context [] body = op_return body"
| "each_asset R redaction_sel sel revision source_hash token context (asset # assets) body =
     op_bind (ocr_asset_text R asset redaction_sel sel revision source_hash token context) (\<lambda>t.
     op_bind (op_lift (insert_ocr_asset_text (re_marker R) body (fst asset) t)) (\<lambda>body.
     each_asset R redaction_sel sel revision source_hash token context assets body))"

definition ocr_assets :: "run_env \<Rightarrow> string \<Rightarrow> ocr_asset list \<Rightarrow> ai_selection \<Rightarrow> string \<Rightarrow> nat \<Rightarrow> charged_to \<Rightarrow> string rop" where
  "ocr_assets R body assets redaction_sel source_bytes token context =
     op_bind (rx_require (length assets \<le> MAX_OCR_ASSETS) (error_new ''ocr_asset_limit_exceeded'')) (\<lambda>_.
     if assets = [] then op_return body
     else op_bind (ocr_configuration redaction_sel) (\<lambda>(sel, revision).
       each_asset R redaction_sel sel revision (content_hash (run_service R) source_bytes) token context assets body))"

text \<open>
  The pages of the worker, in order; \<open>None\<close> as the selection is the local extraction, which has no
  model to ask. A worker that exits early is one of the outcomes of the environment.
\<close>

fun each_page :: "run_env \<Rightarrow> (ai_selection \<times> ai_selection \<times> nat) option \<Rightarrow> string \<Rightarrow> nat \<Rightarrow> charged_to
    \<Rightarrow> (error + pdf_page) list \<Rightarrow> string \<Rightarrow> string rop" where
  "each_page R ocr source_hash token context [] body = op_return body"
| "each_page R ocr source_hash token context (next_page # pages) body =
     op_bind (op_lift next_page) (\<lambda>page.
     op_bind (case context of None \<Rightarrow> op_return ()
       | Some (kind, i, source) \<Rightarrow>
           op_bind (in_ledger (reserve_text_segment (re_shown R) (kind, i, source, pg_locator page) (pg_text page))) (\<lambda>v.
           in_ledger (commit_tokens v (estimate_text_tokens (pg_text page))))) (\<lambda>_.
     op_bind (op_lift (append_text body (pg_text page))) (\<lambda>body.
     op_bind (case pg_asset page of None \<Rightarrow> op_return body
       | Some asset \<Rightarrow> (case ocr of
           None \<Rightarrow> op_fail (error_new ''ocr_model_not_configured'')
         | Some (redaction_sel, sel, revision) \<Rightarrow>
             op_bind (run_unless_cancelled token) (\<lambda>_.
             op_bind rx_io (\<lambda>_.
             op_bind (ocr_asset_text R asset redaction_sel sel revision source_hash token context) (\<lambda>t.
             op_bind (run_unless_cancelled token) (\<lambda>_.
             op_lift (append_text body t))))))) (\<lambda>body.
     op_bind rx_io (\<lambda>_.
     each_page R ocr source_hash token context pages body)))))"

definition extract_pdf_attachment :: "run_env \<Rightarrow> string \<Rightarrow> ai_selection option \<Rightarrow> nat \<Rightarrow> charged_to \<Rightarrow> (nat \<times> nat) list option
    \<Rightarrow> string rop" where
  "extract_pdf_attachment R bytes redaction_sel token context pdf_ranges =
     op_bind (op_lift (map_err (\<lambda>e. if e_code e = ''invalid_pdf_page_range'' then scope_invalid else e)
       (re_pages R bytes pdf_ranges))) (\<lambda>pages.
     op_bind (case redaction_sel of None \<Rightarrow> op_return None
       | Some rsel \<Rightarrow> op_bind (ocr_configuration rsel) (\<lambda>(sel, revision). op_return (Some (rsel, sel, revision)))) (\<lambda>ocr.
     op_bind (each_page R ocr (content_hash (run_service R) bytes) token context pages []) (\<lambda>body.
     op_bind rx_io (\<lambda>_. op_return body))))"

definition extract_ai_attachment_scoped :: "run_env \<Rightarrow> string \<Rightarrow> string \<Rightarrow> ai_selection \<Rightarrow> nat \<Rightarrow> charged_to
    \<Rightarrow> (nat \<times> nat) list option \<Rightarrow> string rop" where
  "extract_ai_attachment_scoped R name bytes sel token context pdf_ranges =
     op_bind (run_unless_cancelled token) (\<lambda>_.
     op_bind (op_lift (re_format R name)) (\<lambda>format.
     if format \<in> {''txt'', ''markdown''} then op_lift (re_text R name bytes)
     else if format = ''docx''
     then op_bind (op_lift (re_media R name bytes)) (\<lambda>(body, assets). ocr_assets R body assets sel bytes token context)
     else if format = ''pdf'' then extract_pdf_attachment R bytes (Some sel) token context pdf_ranges
     else op_bind (op_lift (re_image R name bytes)) (\<lambda>asset. ocr_assets R [] [asset] sel bytes token context)))"

end
