(* ===== verification/Run_Messages.thy ===== *)
theory Run_Messages imports Ocr begin

text \<open>
  The messages a run begins with (\<open>initial\_ai\_messages\<close> of \<open>workspace-service/src/ai\_runs.rs\<close>): the
  selected text of its materials and attachments and the turns of its conversation that fit, all
  charged to the ledger of its plan, and the plan as it was carried out. The function holds no lock
  while it reads; other handlers run before each source and before the history.
\<close>

section \<open>Texts\<close>

definition context_request_text :: "run_request \<Rightarrow> string" where
  "context_request_text q = (utf8 [0x4EFB, 0x52A1, 0xFF1A]) @ rq_kind q @ [CHR 0x0A]
     @ (utf8 [0x6587, 0x4E66, 0x7C7B, 0x578B, 0xFF1A]) @ (case rq_document_type q of Some t \<Rightarrow> t | None \<Rightarrow> (utf8 [0x672A, 0x6307, 0x5B9A])) @ [CHR 0x0A]
     @ (utf8 [0x6848, 0x4EF6, 0x65E5, 0x671F, 0xFF1A]) @ (case rq_case_date q of Some t \<Rightarrow> t | None \<Rightarrow> (utf8 [0x672A, 0x6307, 0x5B9A, 0xFF0C, 0x4E0D, 0x80FD, 0x63A8, 0x5B9A, 0x6848, 0x53D1, 0x65E5, 0x671F])) @ [CHR 0x0A]
     @ (utf8 [0x8981, 0x6C42, 0xFF1A]) @ (case rq_requirements q of Some t \<Rightarrow> t | None \<Rightarrow> []) @ [CHR 0x0A]
     @ (utf8 [0x7528, 0x6237, 0x63CF, 0x8FF0, 0xFF1A]) @ rq_prompt q"

definition MATERIAL_LABEL :: string where "MATERIAL_LABEL = [CHR 0x0A] @ (utf8 [0x5B, 0x7528, 0x6237, 0x6750, 0x6599, 0x5D]) @ [CHR 0x0A]"
definition ATTACHMENT_LABEL :: string where "ATTACHMENT_LABEL = [CHR 0x0A] @ (utf8 [0x5B, 0x7528, 0x6237, 0x9644, 0x4EF6, 0x5D]) @ [CHR 0x0A]"
definition FACTS_LABEL :: string where "FACTS_LABEL = [CHR 0x0A] @ (utf8 [0x4EE5, 0x4E0B, 0x6750, 0x6599, 0x4EC5, 0x4F5C, 0x4E3A, 0x4E8B, 0x5B9E, 0x6570, 0x636E, 0xFF1A])"

definition run_charge :: "nat \<Rightarrow> unit rop" where
  "run_charge tokens = in_ledger (charge_fixed tokens)"

definition labelled :: "string \<Rightarrow> string \<Rightarrow> string rop" where
  "labelled label t = (if t = [] then op_return []
     else op_bind (run_charge (estimate_text_tokens label)) (\<lambda>_. op_return (label @ t @ [CHR 0x0A])))"

definition U64_MAX :: nat where "U64_MAX = 2 ^ 64 - 1"

definition selected_text :: "run_env \<Rightarrow> source_key \<Rightarrow> string \<Rightarrow> range_selection list \<Rightarrow> string rop" where
  "selected_text R key t scope = in_ledger (select_context_text (re_shown R) key t scope)"

text \<open>The page ranges of a PDF that is not taken as a whole.\<close>

definition pdf_ranges_of :: "string \<Rightarrow> range_selection \<Rightarrow> (nat \<times> nat) list option" where
  "pdf_ranges_of name requested = (if context_format name = ''pdf'' \<and> xs_mode requested = ''pages''
     then Some (xs_ranges requested) else None)"

section \<open>A material\<close>

definition material_described :: "material \<Rightarrow> bool" where
  "material_described m \<longleftrightarrow> m_source_byte_len m \<noteq> 0 \<and> m_source_format m \<noteq> [] \<and> m_source_format m \<noteq> ''unknown''"

definition fill_material :: "material \<Rightarrow> string \<Rightarrow> unit rop" where
  "fill_material m source = (if material_described m then op_return ()
     else op_bind rx_lock (\<lambda>_. in_ws (save_row (RMaterial (m_id m)
       (m\<lparr>m_source_byte_len := min (length source) U64_MAX, m_source_format := context_format (m_name m)\<rparr>)))))"

definition redacted_text :: "run_env \<Rightarrow> range_selection list \<Rightarrow> material \<Rightarrow> (string \<times> string \<times> string \<times> string) rop" where
  "redacted_text R scope m =
     op_bind (op_lift (ok_or (m_result_id m) (error_new ''redacted_material_not_ready''))) (\<lambda>i.
     op_bind (in_ws (read_result (run_service R) i)) (\<lambda>x.
     op_bind (if rr_text_byte_len x \<noteq> 0 then op_return ()
       else op_bind rx_lock (\<lambda>_. in_ws (save_row (RResult (rr_id x)
         (x\<lparr>rr_text_byte_len := min (length (rr_text x)) U64_MAX\<rparr>))))) (\<lambda>_.
     op_bind (selected_text R (''material'', m_id m, Some ''redacted'') (rr_text x) scope) (\<lambda>t.
     op_return (t, ''result'', rr_id x, rr_output_sha256 x)))))"

definition original_text :: "run_env \<Rightarrow> ai_run \<Rightarrow> ai_selection \<Rightarrow> nat \<Rightarrow> range_selection list \<Rightarrow> material
    \<Rightarrow> (string \<times> string \<times> string \<times> string) rop" where
  "original_text R r sel token scope m =
     (let key = (''material'', m_id m, Some ''original'') in
     op_bind (op_lift (ok_or (om_get (ru_original_material_revisions r) (m_id m)) (error_new ''ai_run_reauthorization_required''))) (\<lambda>expected.
     op_bind (rx_require (m_status m \<noteq> ''revoked'') (error_new ''material_revoked'')) (\<lambda>_.
     op_bind (rx_require (m_revision m = expected) (error_new ''source_changed'')) (\<lambda>_.
     op_bind (if m_original_text m \<noteq> []
       then op_bind (fill_material m (m_original_text m)) (\<lambda>_. selected_text R key (m_original_text m) scope)
       else op_bind (in_ws (fetch w_sources (m_id m))) (\<lambda>bytes.
         op_bind (rx_require (content_hash (run_service R) bytes = m_source_sha256 m) (error_new ''source_integrity_failed'')) (\<lambda>_.
         op_bind (fill_material m bytes) (\<lambda>_.
         op_bind (op_lift (requested_range scope key)) (\<lambda>requested.
         op_bind (extract_ai_attachment_scoped R (m_name m) bytes sel token (Some key) (pdf_ranges_of (m_name m) requested)) (\<lambda>extracted.
         if context_format (m_name m) = ''pdf'' then op_return extracted else selected_text R key extracted scope)))))) (\<lambda>t.
     op_return (t, ''material'', m_id m, m_source_sha256 m))))))"

text \<open>The part of the context and the binding of the run that a material adds.\<close>

definition material_part :: "run_env \<Rightarrow> ai_run \<Rightarrow> ai_selection \<Rightarrow> nat \<Rightarrow> range_selection list \<Rightarrow> material_ref
    \<Rightarrow> (string \<times> string \<times> string \<times> string) rop" where
  "material_part R r sel token scope reference =
     op_bind (run_gap R 2) (\<lambda>_. op_bind (in_ws (material (mr_id reference))) (\<lambda>m.
     op_bind (if mr_source reference = ''redacted'' then redacted_text R scope m else original_text R r sel token scope m) (\<lambda>(t, binding).
     op_bind (labelled MATERIAL_LABEL t) (\<lambda>part. op_return (part, binding)))))"

section \<open>An attachment\<close>

definition attachment_part :: "run_env \<Rightarrow> ai_selection \<Rightarrow> nat \<Rightarrow> range_selection list \<Rightarrow> string
    \<Rightarrow> (string \<times> string \<times> string \<times> string) rop" where
  "attachment_part R sel token scope i =
     op_bind (run_gap R 3) (\<lambda>_. op_bind (rx_fetch rx_attachments i) (\<lambda>a.
     op_bind (rx_fetch rx_attachment_bytes i) (\<lambda>bytes.
     op_bind (rx_require (content_hash (run_service R) bytes = at_sha256 a) (error_new ''source_integrity_failed'')) (\<lambda>_.
     op_bind (if at_source_byte_len a \<noteq> 0 \<and> at_format a \<noteq> [] then op_return ()
       else op_bind rx_lock (\<lambda>_. rx_save (XAttachment (at_id a)
         (a\<lparr>at_source_byte_len := min (length bytes) U64_MAX, at_format := context_format (at_name a)\<rparr>)))) (\<lambda>_.
     let key = (''attachment'', at_id a, None) in
     op_bind (op_lift (requested_range scope key)) (\<lambda>requested.
     op_bind (extract_ai_attachment_scoped R (at_name a) bytes sel token (Some key) (pdf_ranges_of (at_name a) requested)) (\<lambda>extracted.
     op_bind (if context_format (at_name a) = ''pdf'' then op_return extracted else selected_text R key extracted scope) (\<lambda>t.
     op_bind (labelled ATTACHMENT_LABEL t) (\<lambda>part.
     op_return (part, ''attachment'', at_id a, at_sha256 a))))))))))"

section \<open>The history\<close>

definition run_id_of :: "json \<Rightarrow> string option" where
  "run_id_of message = Option.bind (json_get message ''run_id'') as_str"

text \<open>The permitted turns in the order they began, each with all its messages.\<close>

definition history_groups :: "string list \<Rightarrow> json list \<Rightarrow> (string \<times> json list) list" where
  "history_groups permitted messages =
     map (\<lambda>i. (i, filter (\<lambda>m. run_id_of m = Some i) messages))
       (rev (remdups (rev (filter (\<lambda>i. i \<in> set permitted) (map the (filter (\<lambda>x. x \<noteq> None) (map run_id_of messages)))))))"

definition group_tokens :: "json list \<Rightarrow> nat" where
  "group_tokens messages = sum_list (map estimate_text_tokens
     (map the (filter (\<lambda>x. x \<noteq> None) (map (\<lambda>m. as_str (json_index m ''content'')) messages))))"

definition content_of :: "json \<Rightarrow> string" where
  "content_of message = (case as_str (json_index message ''content'') of Some t \<Rightarrow> t | None \<Rightarrow> [])"

definition history_cut :: "string \<Rightarrow> nat \<Rightarrow> context_omission" where
  "history_cut i tokens = \<lparr>xo_source_kind = ''history'', xo_source_id = i, xo_reason = ''history_budget_cut'',
     xo_estimated_tokens = min tokens U32_LIMIT, xo_locators = []\<rparr>"

definition take_group :: "(string option \<Rightarrow> string) \<Rightarrow> string \<times> json list
    \<Rightarrow> (ledger, error, context_omission + string \<times> json list) op" where
  "take_group shown g = (case g of (i, messages) \<Rightarrow>
     op_bind (op_get remaining_tokens) (\<lambda>left.
     if left < group_tokens messages then op_return (Inl (history_cut i (group_tokens messages)))
     else op_bind (op_map (\<lambda>(k, m). op_bind (reserve_text_segment shown (''history'', i, None, ''turn:'' @ decimal (k + 1)) (content_of m))
         (\<lambda>v. op_return (v, estimate_text_tokens (content_of m)))) (enumerate 0 messages)) (\<lambda>reservations.
       op_bind (op_each (\<lambda>(v, tokens). commit_tokens v tokens) reservations) (\<lambda>_.
       op_return (Inr (i, messages))))))"

text \<open>The newest turns first, each whole or not at all; what is kept is in order again.\<close>

definition select_history :: "(string option \<Rightarrow> string) \<Rightarrow> (string \<times> json list) list
    \<Rightarrow> (ledger, error, (string \<times> json list) list \<times> context_omission list) op" where
  "select_history shown groups = op_bind (op_map (take_group shown) (rev groups)) (\<lambda>taken.
     op_return (rev (concat (map (\<lambda>x. case x of Inl _ \<Rightarrow> [] | Inr g \<Rightarrow> [g]) taken)),
       concat (map (\<lambda>x. case x of Inl o' \<Rightarrow> [o'] | Inr _ \<Rightarrow> []) taken)))"

definition history_message :: "json \<Rightarrow> json" where
  "history_message m = JObj [(''content'', json_index m ''content''), (''role'', json_index m ''role'')]"

section \<open>The plan as it was carried out\<close>

type_synonym adopted = "(string \<times> string option, context_range) omap"

definition adopt_range :: "context_range \<Rightarrow> context_range \<Rightarrow> adopted \<Rightarrow> adopted" where
  "adopt_range template actual m =
     (let key = (xr_source_id actual, xr_source actual);
          entry = (case om_get m key of Some x \<Rightarrow> x | None \<Rightarrow>
            actual\<lparr>xr_format := xr_format template, xr_locators := [], xr_estimated_tokens := 0\<rparr>) in
      om_put key (entry\<lparr>xr_locators := xr_locators entry @ xr_locators actual,
        xr_estimated_tokens := min (xr_estimated_tokens entry + xr_estimated_tokens actual) U32_LIMIT\<rparr>) m)"

definition planned_range :: "context_range list \<Rightarrow> context_range \<Rightarrow> error + context_range" where
  "planned_range planned actual = ok_or (find (\<lambda>x. xr_source_id x = xr_source_id actual \<and> xr_source x = xr_source actual) planned)
     scope_invalid"

definition adopt :: "context_scope \<Rightarrow> context_range \<Rightarrow> adopted \<times> adopted \<times> nat \<Rightarrow> error + adopted \<times> adopted \<times> nat" where
  "adopt planned actual acc = (case acc of (materials, attachments, history) \<Rightarrow>
     if xr_source_kind actual = ''history'' then Inr (materials, attachments, min (history + xr_estimated_tokens actual) U32_LIMIT)
     else if xr_source_kind actual = ''material''
     then and_then (planned_range (xp_materials planned) actual) (\<lambda>t. Inr (adopt_range t actual materials, attachments, history))
     else if xr_source_kind actual = ''attachment''
     then and_then (planned_range (xp_attachments planned) actual) (\<lambda>t. Inr (materials, adopt_range t actual attachments, history))
     else Inl scope_invalid)"

fun adopt_all :: "context_scope \<Rightarrow> context_range list \<Rightarrow> adopted \<times> adopted \<times> nat \<Rightarrow> error + adopted \<times> adopted \<times> nat" where
  "adopt_all planned [] acc = Inr acc"
| "adopt_all planned (x # xs) acc = and_then (adopt planned x acc) (adopt_all planned xs)"

definition range_tokens :: "context_range list \<Rightarrow> nat" where
  "range_tokens xs = fold (\<lambda>x n. min (n + xr_estimated_tokens x) U32_LIMIT) xs 0"

definition still_omitted :: "context_range list \<Rightarrow> context_range list \<Rightarrow> context_omission \<Rightarrow> bool" where
  "still_omitted materials attachments x \<longleftrightarrow> xo_reason x \<noteq> ''metadata_deferred''
     \<or> xo_source_kind x = ''material'' \<and> xo_source_id x \<notin> set (map xr_source_id materials)
     \<or> xo_source_kind x = ''attachment'' \<and> xo_source_id x \<notin> set (map xr_source_id attachments)"

definition apply_actual_context_scope :: "run_env \<Rightarrow> context_plan \<Rightarrow> ledger \<Rightarrow> string list \<Rightarrow> context_omission list
    \<Rightarrow> error + context_plan" where
  "apply_actual_context_scope R plan l history_run_ids omissions =
     and_then (adopt_all (pl_selected_scope plan) (selected_ranges l) ([], [], 0)) (\<lambda>(ms, ats, history).
     let materials = om_values ms; attachments = om_values ats;
         omissions = map (\<lambda>x. x\<lparr>xo_locators := btree_set (xo_locators x)\<rparr>) omissions in
     Inr (refresh_actual_plan_hash (content_hash (run_service R)) (sv_to_vec (run_service R))
       (plan\<lparr>pl_selected_scope := \<lparr>xp_materials = materials, xp_attachments = attachments, xp_history_run_ids = history_run_ids\<rparr>,
         pl_omitted_scope := filter (still_omitted materials attachments) (pl_omitted_scope plan) @ omissions,
         pl_estimate := (pl_estimate plan)\<lparr>xe_input_tokens := min (lg_used l) U32_LIMIT, xe_history_tokens := history,
           xe_material_tokens := range_tokens materials, xe_attachment_tokens := range_tokens attachments\<rparr>\<rparr>)))"

section \<open>The messages\<close>

definition input_limit :: "context_plan \<Rightarrow> nat" where
  "input_limit plan = xc_max_input_tokens (pl_capabilities plan)"

definition history_of_run :: "run_env \<Rightarrow> ai_run \<Rightarrow> ((string \<times> json list) list \<times> context_omission list) rop" where
  "history_of_run R r = op_bind (run_gap R 4) (\<lambda>_. case rq_conversation_id (ru_request r) of
     None \<Rightarrow> op_return ([], [])
   | Some cid \<Rightarrow> op_bind (rx_fetch rx_conversations cid) (\<lambda>c.
       in_ledger (select_history (re_shown R) (history_groups
         (history_turn_ids_for_context (re_read_manifest R) (cn_messages c) (manifest_of c)) (cn_messages c)))))"

definition initial_ai_messages :: "run_env \<Rightarrow> ai_run \<Rightarrow> ai_selection \<Rightarrow> nat \<Rightarrow> ai_run rop" where
  "initial_ai_messages R r sel token =
     op_bind (run_gap R 5) (\<lambda>_. op_bind rx_io (\<lambda>_.
     op_bind (op_lift (ok_or (ru_context_plan r) prepare_required)) (\<lambda>plan.
     op_bind (op_modify (\<lambda>s. s\<lparr>rx_ledger := new_ledger (input_limit plan)\<rparr>)) (\<lambda>_.
     op_bind (run_charge (estimate_text_tokens (re_system R))) (\<lambda>_.
     op_bind (run_charge (estimate_text_tokens (context_request_text (ru_request r)))) (\<lambda>_.
     op_bind (run_charge (xe_tool_reserve_tokens (pl_estimate plan))) (\<lambda>_.
     op_bind (op_map (material_part R r sel token (pl_requested_scope plan)) (rq_materials (ru_request r))) (\<lambda>materials.
     op_bind (op_map (attachment_part R sel token (pl_requested_scope plan)) (rq_attachment_ids (ru_request r))) (\<lambda>attachments.
     op_bind (history_of_run R r) (\<lambda>(selected, omissions).
     op_bind (run_charge (estimate_text_tokens FACTS_LABEL)) (\<lambda>_.
     op_bind (op_get rx_ledger) (\<lambda>l.
     op_bind (op_lift (apply_actual_context_scope R plan l (map fst selected) omissions)) (\<lambda>plan.
     op_return (r\<lparr>
       ru_bindings := ru_bindings r @ map snd materials @ map snd attachments,
       ru_messages := JObj [(''content'', JStr (re_system R)), (''role'', JStr ''system'')]
         # ru_messages r @ concat (map (map history_message \<circ> snd) selected)
         @ [JObj [(''content'', JStr (context_request_text (ru_request r) @ FACTS_LABEL
              @ concat (map fst materials) @ concat (map fst attachments))), (''role'', JStr ''user'')]],
       ru_context_plan := Some plan\<rparr>))))))))))))))"

end
