(* ===== verification/Run_Context.thy ===== *)
theory Run_Context imports Run_Store begin

text \<open>
  The context of a conversation (\<open>workspace-service/src/ai\_runs.rs\<close>): which sources and ranges may be
  selected, and the replacement of the selection, which cancels every unfinished run that still
  relies on something no longer selected.
\<close>

section \<open>The shape of a context\<close>

definition request_invalid :: error where "request_invalid = error_new ''invalid_ai_request''"

definition check_context_shape :: "material_ref list \<Rightarrow> string list \<Rightarrow> unit rop" where
  "check_context_shape materials attachment_ids =
     op_bind (rx_require (length materials \<le> 30 \<and> length attachment_ids \<le> 20) request_invalid) (\<lambda>_.
     op_bind (op_each (\<lambda>(k, m).
       op_bind (rx_require (mr_id m \<noteq> [] \<and> length (mr_id m) \<le> 200 \<and> mr_source m \<in> {''redacted'', ''original''}
         \<and> (mr_id m, mr_source m) \<notin> set (map (\<lambda>x. (mr_id x, mr_source x)) (take k materials))) request_invalid) (\<lambda>_.
       op_bind (in_ws (material (mr_id m))) (\<lambda>_. op_return ()))) (enumerate 0 materials)) (\<lambda>_.
     op_each (\<lambda>(k, a).
       op_bind (rx_require (a \<noteq> [] \<and> length a \<le> 200 \<and> a \<notin> set (take k attachment_ids)) request_invalid) (\<lambda>_.
       op_bind (rx_fetch rx_attachments a) (\<lambda>_. op_return ()))) (enumerate 0 attachment_ids)))"

text \<open>The same from the protected summaries; here they are fields of the rows.\<close>

definition check_context_shape_metadata :: "material_ref list \<Rightarrow> string list \<Rightarrow> unit rop" where
  "check_context_shape_metadata materials attachment_ids =
     op_bind (rx_require (length materials \<le> 30 \<and> length attachment_ids \<le> 20) request_invalid) (\<lambda>_.
     op_bind (op_each (\<lambda>(k, m).
       op_bind (rx_require (mr_id m \<noteq> [] \<and> length (mr_id m) \<le> 200 \<and> mr_source m \<in> {''redacted'', ''original''}
         \<and> (mr_id m, mr_source m) \<notin> set (map (\<lambda>x. (mr_id x, mr_source x)) (take k materials))) request_invalid) (\<lambda>_.
       op_bind (in_ws (fetch_maybe w_materials (mr_id m))) (\<lambda>found. rx_require (found \<noteq> None) request_invalid)))
       (enumerate 0 materials)) (\<lambda>_.
     op_each (\<lambda>(k, a).
       op_bind (rx_require (a \<noteq> [] \<and> length a \<le> 200 \<and> a \<notin> set (take k attachment_ids)) request_invalid) (\<lambda>_.
       op_bind (rx_fetch_maybe rx_attachments a) (\<lambda>found. rx_require (found \<noteq> None) request_invalid)))
       (enumerate 0 attachment_ids)))"

definition context_source_binding_metadata :: "source_key \<Rightarrow> (json \<times> string \<times> nat) rop" where
  "context_source_binding_metadata key = (case key of (kind, i, source) \<Rightarrow>
     if kind = ''material'' \<and> source = Some ''original''
     then op_bind (in_ws (fetch w_materials i)) (\<lambda>m. op_return
       (JObj [(''id'', JStr i), (''kind'', JStr ''material''), (''revision'', json_nat (m_revision m)),
          (''source'', JStr ''original''), (''source_sha256'', JStr (m_source_sha256 m))],
        m_source_format m, m_source_byte_len m))
     else if kind = ''material'' \<and> source = Some ''redacted''
     then op_bind (in_ws (fetch w_materials i)) (\<lambda>m.
       op_bind (op_lift (ok_or (m_result_id m) (error_new ''redacted_material_not_ready''))) (\<lambda>result_id.
       op_bind (in_ws (fetch w_results result_id)) (\<lambda>x. op_return
       (JObj [(''id'', JStr i), (''kind'', JStr ''material''), (''output_sha256'', JStr (rr_output_sha256 x)),
          (''result_id'', JStr result_id), (''revision'', json_nat (m_revision m)), (''source'', JStr ''redacted'')],
        ''text'', rr_text_byte_len x))))
     else if kind = ''attachment'' \<and> source = None
     then op_bind (rx_fetch rx_attachments i) (\<lambda>a. op_return
       (JObj [(''id'', JStr i), (''kind'', JStr ''attachment''), (''source_sha256'', JStr (at_sha256 a))],
        at_format a, at_source_byte_len a))
     else op_fail scope_invalid)"

section \<open>Selected ranges\<close>

text \<open>An inspection that is gone has to be prepared again.\<close>

definition inspection_of :: "string \<Rightarrow> inspection rop" where
  "inspection_of i = op_map_err (\<lambda>e. if e_code e = ''not_found'' then prepare_required else e) (rx_fetch rx_inspections i)"

definition canonical_range :: "range_selection \<Rightarrow> range_selection rop" where
  "canonical_range r =
     (if xs_mode r = ''all''
      then op_bind (rx_require (xs_ranges r = []) scope_invalid) (\<lambda>_. op_return (r\<lparr>xs_inspection_hash := None\<rparr>))
      else op_bind (rx_require (xs_ranges r \<noteq> [] \<and> xs_inspection_hash r \<notin> {None, Some []}) scope_invalid) (\<lambda>_.
        op_bind (op_lift (normalize_context_intervals (xs_ranges r))) (\<lambda>ranges.
        op_bind (inspection_of (the (xs_inspection_hash r))) (\<lambda>x.
        op_bind (context_source_binding_metadata (source_key r)) (\<lambda>(binding, _, _).
        op_bind (rx_require (Some (ip_id x) = xs_inspection_hash r
          \<and> (ip_source_kind x, ip_source_id x, ip_source x) = source_key r \<and> ip_source_binding x = binding)
          prepare_required) (\<lambda>_.
        op_bind (rx_require (ip_unit_kind x = (if xs_mode r = ''pages'' then ''page'' else ''paragraph'')
          \<and> list_all (\<lambda>q. snd q \<le> ip_unit_count x) ranges) scope_invalid) (\<lambda>_.
        op_return (r\<lparr>xs_ranges := ranges\<rparr>))))))))"

definition canonical_context_ranges_metadata :: "material_ref list \<Rightarrow> string list \<Rightarrow> range_selection list
    \<Rightarrow> range_selection list rop" where
  "canonical_context_ranges_metadata materials attachment_ids supplied =
     op_bind (check_context_shape_metadata materials attachment_ids) (\<lambda>_.
     if supplied = [] then op_return (implicit_context_ranges materials attachment_ids)
     else let expected = btree_set (map source_key (implicit_context_ranges materials attachment_ids)) in
       op_bind (op_lift (group_ranges expected supplied [])) (\<lambda>grouped.
       op_bind (rx_require (length grouped = length expected \<and> list_all (\<lambda>k. k \<in> set expected) (map fst grouped))
         scope_invalid) (\<lambda>_.
       op_bind (op_map (canonical_range \<circ> snd) grouped) (\<lambda>canonical.
       op_return (sort_key source_key canonical)))))"

definition requested_context_inspection :: "range_selection \<Rightarrow> inspection option rop" where
  "requested_context_inspection r =
     (if xs_mode r = ''all'' then op_return None
      else op_bind (op_lift (ok_or (xs_inspection_hash r) prepare_required)) (\<lambda>i.
        op_bind (inspection_of i) (\<lambda>x. op_return (Some x))))"

definition sat_u64 :: "nat \<Rightarrow> nat" where
  "sat_u64 n = min n (2 ^ 64 - 1)"

definition requested_range_estimate :: "range_selection \<Rightarrow> nat \<Rightarrow> nat rop" where
  "requested_range_estimate r all_source_tokens =
     (if xs_mode r = ''all'' then op_return all_source_tokens
      else op_bind (requested_context_inspection r) (\<lambda>found.
        op_bind (op_lift (ok_or found prepare_required)) (\<lambda>x.
        op_bind (rx_require (ip_unit_count x \<noteq> 0) prepare_required) (\<lambda>_.
        let units = fold (\<lambda>q total. sat_u64 (total + min (snd q - fst q + 1) U32_LIMIT)) (xs_ranges r) 0;
            per_unit = (ip_estimated_input_tokens x + (ip_unit_count x - 1)) div ip_unit_count x in
        op_return (sat_u64 (units * per_unit))))))"

definition check_material_policy_metadata :: "material_ref list \<Rightarrow> string list \<Rightarrow> ai_selection \<Rightarrow> unit rop" where
  "check_material_policy_metadata refs attachments sel =
     op_bind (op_each (\<lambda>reference. op_bind (in_ws (fetch w_materials (mr_id reference))) (\<lambda>m.
       if mr_source reference = ''original''
       then op_bind (rx_require (m_status m \<noteq> ''revoked'') (error_new ''material_revoked'')) (\<lambda>_.
         require_trust sel ''original_material_requires_trusted_provider'')
       else if mr_source reference = ''redacted''
       then rx_require (m_status m = ''ready'' \<and> m_result_id m \<notin> {None, Some []}) (error_new ''redacted_material_not_ready'')
       else op_fail (error_new ''invalid_material_source''))) refs) (\<lambda>_.
     if attachments \<noteq> [] then require_trust sel ''attachment_requires_trusted_provider'' else op_return ())"

definition original_material_revisions_from_metadata :: "material_ref list \<Rightarrow> (string, nat) omap rop" where
  "original_material_revisions_from_metadata refs =
     op_bind (op_map (\<lambda>reference. op_bind (in_ws (fetch w_materials (mr_id reference))) (\<lambda>m.
       op_bind (rx_require (m_status m \<noteq> ''revoked'') (error_new ''material_revoked'')) (\<lambda>_.
       op_return (mr_id reference, m_revision m)))) (filter (\<lambda>m. mr_source m = ''original'') refs)) (\<lambda>pairs.
     op_return (fold (\<lambda>(i, n) m. om_put i n m) pairs []))"

section \<open>Conversations\<close>

definition NEW_TITLE :: string where
  "NEW_TITLE = (utf8 [0x65B0, 0x4F1A, 0x8BDD])"

definition create_ai_conversation :: "run_env \<Rightarrow> string option \<Rightarrow> conversation rop" where
  "create_ai_conversation R title =
     (let title = (case title of None \<Rightarrow> [] | Some t \<Rightarrow> t) in
      op_bind (rx_require (length title \<le> 200) (error_new ''invalid_title'')) (\<lambda>_.
      op_bind (in_ai (ai_new_id (re_ai R) ''chat'')) (\<lambda>i.
      op_bind rx_now (\<lambda>time.
      let c = \<lparr>cn_id = i, cn_title = (if str_trim title = [] then NEW_TITLE else title),
            cn_title_manual = (str_trim title \<noteq> []), cn_messages = [], cn_materials = [], cn_attachment_ids = [],
            cn_context_ranges = [], cn_context_revision = 1, cn_context_known = True, cn_updated_at = time\<rparr> in
      op_bind (rx_save (XConversation i c)) (\<lambda>_. op_return c)))))"

definition rename_ai_conversation :: "string \<Rightarrow> string \<Rightarrow> conversation rop" where
  "rename_ai_conversation i title =
     op_bind (op_lift (bounded title 200)) (\<lambda>_. op_bind rx_lock (\<lambda>_.
     op_bind (rx_fetch rx_conversations i) (\<lambda>c. op_bind rx_now (\<lambda>time.
     let c = c\<lparr>cn_title := title, cn_title_manual := True, cn_updated_at := time\<rparr> in
     op_bind (rx_save (XConversation i c)) (\<lambda>_. op_return c)))))"

section \<open>Replacing the selection\<close>

text \<open>What a run relies on: the context it was reviewed with, else what its request names.\<close>

definition required_context :: "ai_run \<Rightarrow> context_manifest" where
  "required_context r = (case ru_context_manifest r of Some m \<Rightarrow> m
   | None \<Rightarrow> \<lparr>cm_revision = (case rq_context_revision (ru_request r) of None \<Rightarrow> 0 | Some n \<Rightarrow> n),
       cm_materials = rq_materials (ru_request r), cm_attachment_ids = rq_attachment_ids (ru_request r),
       cm_context_ranges = rq_context_ranges (ru_request r), cm_updated_at = 0\<rparr>)"

definition run_uses_deselected_context :: "ai_run \<Rightarrow> string \<Rightarrow> context_manifest \<Rightarrow> bool" where
  "run_uses_deselected_context r conversation_id current \<longleftrightarrow>
     rq_conversation_id (ru_request r) = Some conversation_id \<and> active r
     \<and> \<not> context_contains_manifest current (required_context r)"

text \<open>The relations of a run in the index of the store (\<open>relations\_for\_value\<close>), as far as they are asked for.\<close>

definition material_relation :: "material_ref \<Rightarrow> string \<times> string" where
  "material_relation m = (if mr_source m = [] then ''material'' else ''material_'' @ mr_source m, mr_id m)"

definition source_relations :: "ai_run \<Rightarrow> (string \<times> string) list" where
  "source_relations r = map material_relation (filter (\<lambda>m. mr_id m \<noteq> []) (rq_materials (ru_request r)))
     @ map (\<lambda>a. (''attachment'', a)) (filter (\<lambda>a. a \<noteq> []) (rq_attachment_ids (ru_request r)))"

definition related_active_runs :: "(string \<times> string) list \<Rightarrow> string list rop" where
  "related_active_runs relations =
     (if relations = [] then op_return []
      else op_bind rx_io (\<lambda>_. op_get (\<lambda>s. map fst (filter
        (\<lambda>(_, r). active r \<and> list_ex (\<lambda>x. x \<in> set relations) (source_relations r)) (rx_runs s)))))"

definition key_relation :: "source_key \<Rightarrow> string \<times> string" where
  "key_relation key = (case key of (kind, i, source) \<Rightarrow>
     (if kind = ''material'' then ''material_'' @ (case source of None \<Rightarrow> [] | Some s \<Rightarrow> s) else ''attachment'', i))"

definition find_range :: "range_selection list \<Rightarrow> source_key \<Rightarrow> range_selection option" where
  "find_range ranges key = find (\<lambda>r. source_key r = key) ranges"

definition changed_sources :: "range_selection list \<Rightarrow> range_selection list \<Rightarrow> source_key list" where
  "changed_sources previous current = btree_set (filter (\<lambda>key. find_range previous key \<noteq> find_range current key)
     (map source_key (previous @ current)))"

definition removed :: "'a::linorder list \<Rightarrow> 'a list \<Rightarrow> 'a list" where
  "removed previous current = filter (\<lambda>x. x \<notin> set current) (btree_set previous)"

definition changed_relations :: "context_manifest \<Rightarrow> context_manifest \<Rightarrow> (string \<times> string) list" where
  "changed_relations previous current = btree_set
     (map (\<lambda>(i, source). (''material_'' @ source, i))
        (removed (map (\<lambda>m. (mr_id m, mr_source m)) (cm_materials previous)) (map (\<lambda>m. (mr_id m, mr_source m)) (cm_materials current)))
      @ map (\<lambda>a. (''attachment'', a)) (removed (cm_attachment_ids previous) (cm_attachment_ids current))
      @ map key_relation (changed_sources (manifest_context_ranges previous) (manifest_context_ranges current)))"

definition mark_deselected :: "ai_run \<Rightarrow> nat \<Rightarrow> nat \<Rightarrow> ai_run" where
  "mark_deselected r time n = r\<lparr>ru_status := ''cancelled'',
     ru_stage := (utf8 [0x4F1A, 0x8BDD, 0x6750, 0x6599, 0x5DF2, 0x79FB, 0x9664, 0xFF0C, 0x4EFB, 0x52A1, 0x5DF2, 0x53D6, 0x6D88]),
     ru_error_code := Some ''context_source_removed'', ru_updated_at := time, ru_revision := n\<rparr>"

definition deselect_run :: "string \<Rightarrow> context_manifest \<Rightarrow> string \<Rightarrow> run_row option rop" where
  "deselect_run conversation_id current run_id =
     op_bind (rx_fetch rx_runs run_id) (\<lambda>r.
     if \<not> run_uses_deselected_context r conversation_id current then op_return None
     else op_bind rx_now (\<lambda>time. op_bind (op_lift (next_revision (ru_revision r))) (\<lambda>n.
       op_bind (rx_encode (XRun (ru_id r) (mark_deselected r time n))) (\<lambda>row.
       op_return (Some row)))))"

definition row_id :: "run_row \<Rightarrow> string" where
  "row_id row = (case row of XRun i _ \<Rightarrow> i | XConversation i _ \<Rightarrow> i | XAttachment i _ \<Rightarrow> i | XPage i _ \<Rightarrow> i)"

text \<open>A poisoned table of tokens is passed over: the rows are already there.\<close>

definition fire_runs :: "string list \<Rightarrow> unit rop" where
  "fire_runs run_ids = op_modify (\<lambda>s. if v_poisoned (rx_ai s) then s else fold fire_run run_ids s)"

definition run_rows :: "run_row option list \<Rightarrow> run_row list" where
  "run_rows xs = concat (map (\<lambda>x. case x of None \<Rightarrow> [] | Some r \<Rightarrow> [r]) xs)"

text \<open>One transaction for the conversation and the runs, and then the tokens.\<close>

definition store_context :: "conversation \<Rightarrow> run_row \<Rightarrow> run_row list \<Rightarrow> (conversation \<times> string list) rop" where
  "store_context c first rows = op_bind (rx_put_rows (first # rows)) (\<lambda>_.
     op_bind (fire_runs (map row_id rows)) (\<lambda>_. op_return (c, map row_id rows)))"

definition replace_ai_conversation_context :: "string \<Rightarrow> nat \<Rightarrow> material_ref list \<Rightarrow> string list \<Rightarrow> range_selection list
    \<Rightarrow> (conversation \<times> string list) rop" where
  "replace_ai_conversation_context i expected_revision materials attachment_ids supplied =
     op_bind (check_context_shape materials attachment_ids) (\<lambda>_.
     op_bind (canonical_context_ranges_metadata materials attachment_ids supplied) (\<lambda>ranges.
     op_bind rx_lock (\<lambda>_. op_bind (rx_fetch rx_conversations i) (\<lambda>c.
     op_bind (rx_require (cn_context_revision c = expected_revision) (error_new ''revision_conflict'')) (\<lambda>_.
     op_bind (op_lift (next_revision (cn_context_revision c))) (\<lambda>n.
     op_bind rx_now (\<lambda>time.
     let c' = c\<lparr>cn_materials := materials, cn_attachment_ids := attachment_ids, cn_context_ranges := ranges,
           cn_context_known := True, cn_context_revision := n, cn_updated_at := time\<rparr> in
     op_bind (rx_encode (XConversation i c')) (\<lambda>first.
     op_bind (related_active_runs (changed_relations (manifest_of c) (manifest_of c'))) (\<lambda>affected.
     op_bind (op_map (deselect_run i (manifest_of c')) affected) (\<lambda>cancelled.
     store_context c' first (run_rows cancelled)))))))))))"

section \<open>What relies on a changed source is found\<close>

lemma find_range_distinct:
  assumes "distinct (map source_key ranges)" "r \<in> set ranges"
  shows "find_range ranges (source_key r) = Some r"
  using assms by (induction ranges) (auto simp: find_range_def image_iff)

lemma find_range_mem: "find_range ranges key = Some r \<Longrightarrow> r \<in> set ranges"
  by (auto simp: find_range_def find_Some_iff)

definition manifest_relations :: "context_manifest \<Rightarrow> (string \<times> string) set" where
  "manifest_relations m = (\<lambda>x. (''material_'' @ mr_source x, mr_id x)) ` set (cm_materials m)
     \<union> (\<lambda>a. (''attachment'', a)) ` set (cm_attachment_ids m)
     \<union> (\<lambda>r. key_relation (source_key r)) ` set (manifest_context_ranges m)"

lemma deselection_changes_a_relation:
  assumes "context_contains_manifest previous m" "\<not> context_contains_manifest current m"
    and "distinct (map source_key (manifest_context_ranges previous))"
  shows "\<exists>x \<in> manifest_relations m. x \<in> set (changed_relations previous current)"
proof -
  from assms(2) consider
      (material) y where "y \<in> set (cm_materials m)" "(mr_id y, mr_source y) \<notin> (\<lambda>c. (mr_id c, mr_source c)) ` set (cm_materials current)"
    | (attachment) a where "a \<in> set (cm_attachment_ids m)" "a \<notin> set (cm_attachment_ids current)"
    | (range) r where "r \<in> set (manifest_context_ranges m)"
        "\<forall>c \<in> set (manifest_context_ranges current). \<not> range_selection_contains c r"
    by (auto simp: context_contains_manifest_def list_all_iff list_ex_iff)
  then show ?thesis
  proof cases
    case material
    then have "(mr_id y, mr_source y) \<in> (\<lambda>c. (mr_id c, mr_source c)) ` set (cm_materials previous)"
      using assms(1) by (auto simp: context_contains_manifest_def list_all_iff)
    with material have "(''material_'' @ mr_source y, mr_id y) \<in> set (changed_relations previous current)"
      by (force simp: changed_relations_def removed_def)
    with material(1) show ?thesis by (auto simp: manifest_relations_def)
  next
    case attachment
    then have "a \<in> set (cm_attachment_ids previous)"
      using assms(1) by (auto simp: context_contains_manifest_def list_all_iff)
    with attachment have "(''attachment'', a) \<in> set (changed_relations previous current)"
      by (force simp: changed_relations_def removed_def)
    with attachment(1) show ?thesis by (auto simp: manifest_relations_def)
  next
    case range
    from range(1) assms(1) obtain p where p: "p \<in> set (manifest_context_ranges previous)" "range_selection_contains p r"
      by (auto simp: context_contains_manifest_def list_all_iff list_ex_iff)
    then have key: "source_key p = source_key r" by (simp add: range_selection_contains_def)
    have "find_range (manifest_context_ranges previous) (source_key r) = Some p"
      using find_range_distinct[OF assms(3) p(1)] key by simp
    moreover have "find_range (manifest_context_ranges current) (source_key r) \<noteq> Some p"
      using range(2) p(2) by (auto dest: find_range_mem)
    moreover have "source_key r \<in> source_key ` set (manifest_context_ranges previous)"
      using p(1) key by (metis imageI)
    ultimately have "source_key r \<in> set (changed_sources (manifest_context_ranges previous) (manifest_context_ranges current))"
      by (simp add: changed_sources_def)
    then have "key_relation (source_key r) \<in> set (changed_relations previous current)"
      by (auto simp: changed_relations_def)
    with range(1) show ?thesis by (auto simp: manifest_relations_def)
  qed
qed

section \<open>What is left alone\<close>

type_synonym run_view = "(string, ai_run) omap \<times> (string, conversation) omap \<times> (string, nat) omap \<times> nat list \<times> bool"

definition run_view :: "run_ws \<Rightarrow> run_view" where
  "run_view s = (rx_runs s, rx_conversations s, rx_cancellations s, v_fired (rx_ai s), v_poisoned (rx_ai s))"

definition runs_are :: "run_view \<Rightarrow> run_ws \<Rightarrow> bool" where
  "runs_are x s \<longleftrightarrow> run_view s = x"

lemma runs_are_rx_io: "preserves (runs_are x) rx_io"
  by (auto simp: rx_io_def preserves_def runs_are_def run_view_def split: list.split option.split)

lemma runs_are_io:
  "preserves (runs_are x) rx_io" "preserves (runs_are x) rx_lock" "preserves (runs_are x) (rx_require b e)"
  "preserves (runs_are x) rx_now" "preserves (runs_are x) (rx_encode row)" "preserves (runs_are x) (in_ws m)"
  "preserves (runs_are x) (rx_fetch_maybe table i)" "preserves (runs_are x) (rx_fetch table i)"
proof -
  show "preserves (runs_are x) rx_io" "preserves (runs_are x) rx_lock" "preserves (runs_are x) (rx_require b e)"
      "preserves (runs_are x) (rx_encode row)" "preserves (runs_are x) (rx_fetch_maybe table i)"
      "preserves (runs_are x) (rx_fetch table i)"
    unfolding rx_lock_def rx_require_def rx_encode_def rx_fetch_maybe_def rx_fetch_def
    by (intro preserves_bind preserves_basic runs_are_rx_io)+
  show "preserves (runs_are x) rx_now" "preserves (runs_are x) (in_ws m)"
    by (auto simp: rx_now_def in_ai_def in_ws_def ai_now_def preserves_def runs_are_def run_view_def split: prod.split)
qed

lemmas runs_intros = preserves_bind preserves_each preserves_map preserves_map_err preserves_if preserves_option
  preserves_basic runs_are_io

lemma runs_are_shape:
  "preserves (runs_are x) (check_context_shape materials attachment_ids)"
  "preserves (runs_are x) (check_context_shape_metadata materials attachment_ids)"
  "preserves (runs_are x) (context_source_binding_metadata key)"
  "preserves (runs_are x) (inspection_of i)"
  unfolding check_context_shape_def check_context_shape_metadata_def context_source_binding_metadata_def inspection_of_def
  by (auto intro!: runs_intros split: prod.split)

lemma runs_are_canonical:
  "preserves (runs_are x) (canonical_range r)"
  "preserves (runs_are x) (canonical_context_ranges_metadata materials attachment_ids supplied)"
  unfolding canonical_range_def canonical_context_ranges_metadata_def Let_def
  by (auto intro!: runs_intros runs_are_shape simp: canonical_range_def split: prod.split)

lemma runs_are_affected:
  "preserves (runs_are x) (related_active_runs relations)" "preserves (runs_are x) (deselect_run i m j)"
  unfolding related_active_runs_def deselect_run_def by (auto intro!: runs_intros)

lemma op_map_all2:
  assumes "op_map f xs s = (Inr ys, t)" "I s" "\<And>x. preserves I (f x)"
    and "\<And>x u y v. I u \<Longrightarrow> f x u = (Inr y, v) \<Longrightarrow> Q x y"
  shows "list_all2 Q xs ys"
  using assms(1,2)
proof (induction xs arbitrary: s ys)
  case (Cons x xs)
  from Cons.prems(1) obtain y u zs where first: "f x s = (Inr y, u)" and rest: "op_map f xs u = (Inr zs, t)" and "ys = y # zs"
    by (auto elim!: op_bind_cases)
  with Cons.IH[OF rest preservesD[OF assms(3) Cons.prems(2) first]] assms(4)[OF Cons.prems(2) first] show ?case by simp
qed simp

section \<open>One selection per source\<close>

lemma op_each_all:
  assumes "op_each f xs s = (Inr a, t)" "x \<in> set xs"
  shows "\<exists>u v. f x u = (Inr (), v)"
  using assms
proof (induction xs arbitrary: s)
  case (Cons y ys)
  from Cons.prems(1) obtain u where "f y s = (Inr (), u)" "op_each f ys u = (Inr a, t)" by (auto elim!: op_bind_cases)
  with Cons show ?case by (cases "x = y") auto
qed simp

lemma fresh_distinct: "(\<And>k. k < length xs \<Longrightarrow> xs ! k \<notin> set (take k xs)) \<Longrightarrow> distinct xs"
  unfolding distinct_conv_nth
  by (metis in_set_conv_nth length_take linorder_neqE_nat min_less_iff_conj nth_take)

lemma distinct_sort_key: "distinct (map key xs) \<Longrightarrow> distinct (map key (sort_key key xs))"
  by (simp add: distinct_map)

lemma shape_distinct:
  assumes "check_context_shape materials attachment_ids s = (Inr a, t)"
  shows "distinct (map source_key (implicit_context_ranges materials attachment_ids))"
proof -
  from assms obtain u v w where
    ms: "op_each (\<lambda>(k, m).
       op_bind (rx_require (mr_id m \<noteq> [] \<and> length (mr_id m) \<le> 200 \<and> mr_source m \<in> {''redacted'', ''original''}
         \<and> (mr_id m, mr_source m) \<notin> set (map (\<lambda>x. (mr_id x, mr_source x)) (take k materials))) request_invalid) (\<lambda>_.
       op_bind (in_ws (material (mr_id m))) (\<lambda>_. op_return ()))) (enumerate 0 materials) u = (Inr (), v)"
    and ats: "op_each (\<lambda>(k, a).
       op_bind (rx_require (a \<noteq> [] \<and> length a \<le> 200 \<and> a \<notin> set (take k attachment_ids)) request_invalid) (\<lambda>_.
       op_bind (rx_fetch rx_attachments a) (\<lambda>_. op_return ()))) (enumerate 0 attachment_ids) v = (Inr (), w)"
    unfolding check_context_shape_def by (auto elim!: op_bind_cases)
  have "distinct (map (\<lambda>x. (mr_id x, mr_source x)) materials)"
  proof (rule fresh_distinct, goal_cases)
    case (1 k)
    then have "(k, materials ! k) \<in> set (enumerate 0 materials)" by (simp add: in_set_enumerate_eq)
    from op_each_all[OF ms this] 1 show ?case
      by (auto simp: rx_require_def ensure_def take_map elim!: op_bind_cases split: if_splits)
  qed
  moreover have "distinct attachment_ids"
  proof (rule fresh_distinct, goal_cases)
    case (1 k)
    then have "(k, attachment_ids ! k) \<in> set (enumerate 0 attachment_ids)" by (simp add: in_set_enumerate_eq)
    from op_each_all[OF ats this] show ?case
      by (auto simp: rx_require_def ensure_def elim!: op_bind_cases split: if_splits)
  qed
  ultimately have "distinct (map (\<lambda>m. (''material'', mr_id m, Some (mr_source m))) materials
      @ map (\<lambda>a. (''attachment'', a, None)) attachment_ids)"
    by (auto simp: distinct_map inj_on_def)
  then have keys: "distinct (map source_key (map (\<lambda>m. \<lparr>xs_source_kind = ''material'', xs_source_id = mr_id m, xs_source = Some (mr_source m),
        xs_mode = ''all'', xs_ranges = [], xs_inspection_hash = None\<rparr>) materials
      @ map (\<lambda>a. \<lparr>xs_source_kind = ''attachment'', xs_source_id = a, xs_source = None,
        xs_mode = ''all'', xs_ranges = [], xs_inspection_hash = None\<rparr>) attachment_ids))"
    unfolding map_append map_map comp_def source_key_def range_selection.simps .
  from distinct_sort_key[OF keys] show ?thesis unfolding implicit_context_ranges_def .
qed

lemma set_om_put: "set (om_put k x m) \<subseteq> insert (k, x) (set m)"
  by (induction m) auto

lemma group_ranges_keys:
  assumes "group_ranges expected rs grouped = Inr grouped'" "om_wf grouped" "\<forall>(k, r) \<in> set grouped. source_key r = k"
  shows "om_wf grouped' \<and> (\<forall>(k, r) \<in> set grouped'. source_key r = k)"
  using assms
proof (induction rs arbitrary: grouped)
  case (Cons r rs)
  from Cons.prems(1) obtain more where step: "group_range expected r grouped = Inr more"
    and rest: "group_ranges expected rs more = Inr grouped'" by auto
  have key: "source_key (x\<lparr>xs_ranges := y\<rparr>) = source_key x" for x y by (simp add: source_key_def)
  have old: "source_key x = source_key r" if "om_get grouped (source_key r) = Some x" for x
    using map_of_SomeD[OF that] Cons.prems(3) by fastforce
  obtain x where x: "source_key x = source_key r" and more: "more = om_put (source_key r) x grouped"
  proof (cases "om_get grouped (source_key r)")
    case None
    with step that[of r] show ?thesis by (simp add: group_range_def)
  next
    case (Some y)
    with step that[of "y\<lparr>xs_ranges := xs_ranges y @ xs_ranges r\<rparr>"] old show ?thesis by (simp add: group_range_def key)
  qed
  have "\<forall>(k, q) \<in> set more. source_key q = k"
    using x Cons.prems(3) set_om_put[of "source_key r" x grouped] unfolding more by blast
  with more Cons.prems(2) have "om_wf more \<and> (\<forall>(k, r) \<in> set more. source_key r = k)" by simp
  with Cons.IH[OF rest] show ?case by blast
qed simp

lemma canonical_range_key: "canonical_range r s = (Inr x, t) \<Longrightarrow> source_key x = source_key r"
  unfolding canonical_range_def
  by (auto elim!: op_bind_cases simp: source_key_def split: if_splits prod.splits)

lemma canonical_distinct:
  assumes "canonical_context_ranges_metadata materials attachment_ids supplied s = (Inr rs, t)"
    and "distinct (map source_key (implicit_context_ranges materials attachment_ids))"
  shows "distinct (map source_key rs)"
proof (cases "supplied = []")
  case True
  with assms show ?thesis by (auto simp: canonical_context_ranges_metadata_def elim!: op_bind_cases)
next
  case False
  with assms(1) obtain grouped canonical u v where
    grouped: "group_ranges (btree_set (map source_key (implicit_context_ranges materials attachment_ids))) supplied [] = Inr grouped"
    and mapped: "op_map (canonical_range \<circ> snd) grouped u = (Inr canonical, v)" and rs: "rs = sort_key source_key canonical"
    by (auto simp: canonical_context_ranges_metadata_def Let_def elim!: op_bind_cases)
  from group_ranges_keys[OF grouped] have wf: "om_wf grouped" "\<forall>(k, r) \<in> set grouped. source_key r = k" by simp_all
  have "list_all2 (\<lambda>e x. source_key x = source_key (snd e)) grouped canonical"
    by (rule op_map_all2[OF mapped, of "\<lambda>_. True"]) (auto simp: preserves_def dest: canonical_range_key)
  then have "map source_key canonical = map (source_key \<circ> snd) grouped"
    by (auto simp: list_all2_conv_all_nth intro: nth_equalityI)
  also have "\<dots> = map fst grouped" using wf(2) by auto
  finally have "distinct (map source_key canonical)" using om_wf_distinct[OF wf(1)] by simp
  then show ?thesis unfolding rs by (rule distinct_sort_key)
qed

end
