(* ===== verification/Law_Mention.thy ===== *)
theory Law_Mention imports Json_Value Service begin

text \<open>
  The statutes an answer of the model names (\<open>workspace-service/src/ai\_runs.rs\<close>): a title in
  book quotes opens a scope that ends with the sentence or at the next title; every article number
  in it, in digits or in Chinese numerals, must be that of a citation which was checked. The
  functions work on characters, so texts are lists of scalar values here.
\<close>

section \<open>Numbers\<close>

definition digit_of :: "nat \<Rightarrow> nat option" where
  "digit_of c = map_of [(0x96F6, 0), (0x3007, 0), (0x4E00, 1), (0x4E8C, 2), (0x4E24, 2), (0x4E09, 3), (0x56DB, 4), (0x4E94, 5),
     (0x516D, 6), (0x4E03, 7), (0x516B, 8), (0x4E5D, 9)] c"

definition unit_of :: "nat \<Rightarrow> nat option" where
  "unit_of c = map_of [(0x5341, 10), (0x767E, 100), (0x5343, 1000)] c"

definition checked_u32 :: "nat \<Rightarrow> nat option" where
  "checked_u32 n = (if n < 2 ^ 32 then Some n else None)"

fun numeral_loop :: "nat \<Rightarrow> nat \<Rightarrow> bool \<Rightarrow> nat list \<Rightarrow> nat option" where
  "numeral_loop whole part saw_digit [] = (if saw_digit then checked_u32 (whole + part) else None)"
| "numeral_loop whole part saw_digit (c # cs) = (case digit_of c of
     Some d \<Rightarrow> Option.bind (checked_u32 (part * 10)) (\<lambda>p. Option.bind (checked_u32 (p + d)) (\<lambda>p.
       numeral_loop whole p True cs))
   | None \<Rightarrow> (case unit_of c of None \<Rightarrow> None
     | Some u \<Rightarrow> Option.bind (checked_u32 ((if part = 0 then 1 else part) * u)) (\<lambda>v.
         Option.bind (checked_u32 (whole + v)) (\<lambda>t. numeral_loop t 0 True cs))))"

definition ascii_digit :: "nat \<Rightarrow> bool" where
  "ascii_digit c \<longleftrightarrow> 48 \<le> c \<and> c \<le> 57"

definition positive :: "nat \<Rightarrow> nat option" where
  "positive n = (if 0 < n then Some n else None)"

definition normalize_article_number :: "nat list \<Rightarrow> nat option" where
  "normalize_article_number raw =
     (let compact = filter (\<lambda>c. \<not> is_whitespace c) raw in
      if compact \<noteq> [] \<and> list_all ascii_digit compact
      then Option.bind (checked_u32 (fold (\<lambda>c n. n * 10 + (c - 48)) compact 0)) positive
      else Option.bind (numeral_loop 0 0 False compact) positive)"

section \<open>Mentions\<close>

definition trim_scalars :: "(nat \<Rightarrow> bool) \<Rightarrow> nat list \<Rightarrow> nat list" where
  "trim_scalars P cs = rev (dropWhile P (rev (dropWhile P cs)))"

text \<open>The text before the first \<open>c\<close>, and the text after it.\<close>

fun break_at :: "nat \<Rightarrow> nat list \<Rightarrow> (nat list \<times> nat list) option" where
  "break_at c [] = None"
| "break_at c (x # xs) = (if x = c then Some ([], xs)
     else case break_at c xs of None \<Rightarrow> None | Some (l, r) \<Rightarrow> Some (x # l, r))"

definition OPEN :: nat where "OPEN = 0x300A"
definition CLOSE :: nat where "CLOSE = 0x300B"
definition ORDINAL :: nat where "ORDINAL = 0x7B2C"
definition ARTICLE :: nat where "ARTICLE = 0x6761"

text \<open>What follows the ordinal sign: the number, and the text after the article sign.\<close>

definition article_marker :: "nat list \<Rightarrow> (nat \<times> nat list) option" where
  "article_marker after_marker = (case break_at ARTICLE after_marker of None \<Rightarrow> None
   | Some (l, r) \<Rightarrow>
       let raw_number = trim_scalars is_whitespace l in
       if raw_number = [] \<or> 16 < length raw_number then None
       else map_option (\<lambda>n. (n, r)) (normalize_article_number raw_number))"

lemma break_at_length: "break_at c xs = Some (l, r) \<Longrightarrow> length xs = length l + 1 + length r"
  by (induction xs arbitrary: l) (auto split: if_splits option.splits)

lemma article_marker_length: "article_marker xs = Some (n, r) \<Longrightarrow> length r < length xs"
  by (auto simp: article_marker_def Let_def dest!: break_at_length split: option.splits prod.splits if_splits)

function article_numbers :: "nat list \<Rightarrow> nat list" where
  "article_numbers scope = (case break_at ORDINAL scope of None \<Rightarrow> []
   | Some (_, rest) \<Rightarrow> (case article_marker rest of
       Some (n, after) \<Rightarrow> n # article_numbers after | None \<Rightarrow> article_numbers rest))"
  by auto
termination
  by (relation "measure length") (auto dest!: break_at_length article_marker_length)

declare article_numbers.simps [simp del]

definition is_law_title :: "nat list \<Rightarrow> bool" where
  "is_law_title name \<longleftrightarrow> list_ex (\<lambda>s. suffix s name)
     [[0x6CD5], [0x6761, 0x4F8B], [0x89C4, 0x5B9A], [0x529E, 0x6CD5], [0x89E3, 0x91CA], [0x6C11, 0x6CD5, 0x5178]]"

definition ends_scope :: "nat \<Rightarrow> bool" where
  "ends_scope c \<longleftrightarrow> c \<in> {OPEN, 0xA, 0xD, 0x3002, 0xFF01, 0xFF1F, 0xFF1B}"

definition law_article_scope :: "nat list \<Rightarrow> nat list" where
  "law_article_scope after_name = takeWhile (\<lambda>c. \<not> ends_scope c) after_name"

function law_article_mentions :: "nat list \<Rightarrow> (nat list \<times> nat) list" where
  "law_article_mentions content = (case break_at OPEN content of None \<Rightarrow> []
   | Some (_, rest) \<Rightarrow> (case break_at CLOSE rest of None \<Rightarrow> []
     | Some (name, after_name) \<Rightarrow>
         (if is_law_title name then map (Pair name) (article_numbers (law_article_scope after_name)) else [])
         @ law_article_mentions after_name))"
  by auto
termination
  by (relation "measure length") (auto dest!: break_at_length)

declare law_article_mentions.simps [simp del]

section \<open>Against the citations\<close>

definition COUNTRY :: "nat list" where
  "COUNTRY = [0x4E2D, 0x534E, 0x4EBA, 0x6C11, 0x5171, 0x548C, 0x56FD]"

definition normalize_title :: "nat list \<Rightarrow> nat list" where
  "normalize_title v =
     (let t = trim_scalars (\<lambda>c. c = OPEN \<or> c = CLOSE) (trim_scalars is_whitespace v);
          t = (if prefix COUNTRY t then drop (length COUNTRY) t else t) in
      filter (\<lambda>c. \<not> is_whitespace c) t)"

definition law_title_matches :: "json \<Rightarrow> nat list \<Rightarrow> bool" where
  "law_title_matches citation referenced_name = (case as_str (json_index citation ''title'') of None \<Rightarrow> False
   | Some t \<Rightarrow>
       let title = normalize_title (chars t); referenced = normalize_title referenced_name in
       title \<noteq> [] \<and> referenced \<noteq> [] \<and> (sublist referenced title \<or> sublist title referenced))"

definition citation_article_number :: "json \<Rightarrow> nat option" where
  "citation_article_number citation = Option.bind (as_str (json_index citation ''article_number'')) (\<lambda>v.
     Option.bind (break_at ORDINAL (chars v)) (\<lambda>(_, rest). map_option fst (article_marker rest)))"

definition verify_law_article_mentions :: "string \<Rightarrow> json list \<Rightarrow> error + unit" where
  "verify_law_article_mentions content citations = ensure
     (list_all (\<lambda>(name, n). list_ex (\<lambda>c. json_index c ''kind'' = JStr ''article'' \<and> law_title_matches c name
        \<and> citation_article_number c = Some n) citations) (law_article_mentions (chars content)))
     (error_new ''unverified_law_article_in_answer'')"

text \<open>Every part after an opening quote, as \<open>split\<close> cuts it, up to a closing quote.\<close>

fun split_at :: "nat \<Rightarrow> nat list \<Rightarrow> nat list list" where
  "split_at c [] = [[]]"
| "split_at c (x # xs) = (if x = c then [] # split_at c xs
     else case split_at c xs of w # ws \<Rightarrow> (x # w) # ws | [] \<Rightarrow> [[x]])"

definition verify_named_laws :: "string \<Rightarrow> json list \<Rightarrow> error + unit" where
  "verify_named_laws content citations = ensure
     (list_all (\<lambda>part. case break_at CLOSE part of None \<Rightarrow> True
        | Some (name, _) \<Rightarrow> is_law_title name \<longrightarrow> list_ex (\<lambda>c. law_title_matches c name) citations)
        (drop 1 (split_at OPEN (chars content))))
     (error_new ''unverified_law_in_answer'')"

section \<open>Chinese numerals\<close>

definition digit_sign :: "nat \<Rightarrow> nat" where
  "digit_sign d = [0x96F6, 0x4E00, 0x4E8C, 0x4E09, 0x56DB, 0x4E94, 0x516D, 0x4E03, 0x516B, 0x4E5D] ! d"

text \<open>The usual way to write a number below ten thousand.\<close>

definition chinese_numeral :: "nat \<Rightarrow> nat list" where
  "chinese_numeral n =
     (let d3 = n div 1000; d2 = n div 100 mod 10; d1 = n div 10 mod 10; d0 = n mod 10 in
      (if d3 \<noteq> 0 then [digit_sign d3, 0x5343] else [])
      @ (if d2 \<noteq> 0 then [digit_sign d2, 0x767E] else if d3 \<noteq> 0 \<and> (d1 \<noteq> 0 \<or> d0 \<noteq> 0) then [0x96F6] else [])
      @ (if d1 \<noteq> 0 then (if n < 20 then [0x5341] else [digit_sign d1, 0x5341]) else if d2 \<noteq> 0 \<and> d0 \<noteq> 0 then [0x96F6] else [])
      @ (if d0 \<noteq> 0 then [digit_sign d0] else []))"

lemma sign_facts:
  assumes "d < 10"
  shows "digit_of (digit_sign d) = Some d" "\<not> is_whitespace (digit_sign d)" "\<not> ascii_digit (digit_sign d)"
    "digit_sign d \<noteq> ARTICLE" "digit_sign d \<noteq> ORDINAL" "\<not> ends_scope (digit_sign d)"
proof -
  have "d = 0 \<or> d = 1 \<or> d = 2 \<or> d = 3 \<or> d = 4 \<or> d = 5 \<or> d = 6 \<or> d = 7 \<or> d = 8 \<or> d = 9" using assms by arith
  then show "digit_of (digit_sign d) = Some d" "\<not> is_whitespace (digit_sign d)" "\<not> ascii_digit (digit_sign d)"
    "digit_sign d \<noteq> ARTICLE" "digit_sign d \<noteq> ORDINAL" "\<not> ends_scope (digit_sign d)"
    by (elim disjE; simp add: digit_sign_def digit_of_def is_whitespace_def ascii_digit_def ARTICLE_def ORDINAL_def
        ends_scope_def OPEN_def)+
qed

lemma loop_unit:
  assumes "0 < d" "d < 10" "digit_of u = None" "unit_of u = Some v" "v \<le> 1000" "t \<le> 10000"
  shows "numeral_loop t 0 s (digit_sign d # u # cs) = numeral_loop (t + d * v) 0 True cs"
proof -
  have "d * v \<le> 10 * 1000" using assms by (intro mult_mono) auto
  with assms show ?thesis by (simp add: sign_facts checked_u32_def)
qed

lemma loop_steps:
  "numeral_loop t 0 s (0x96F6 # cs) = numeral_loop t 0 True cs"
  "t \<le> 10000 \<Longrightarrow> numeral_loop t 0 s (0x5341 # cs) = numeral_loop (t + 10) 0 True cs"
  "d < 10 \<Longrightarrow> t \<le> 10000 \<Longrightarrow> numeral_loop t 0 s [digit_sign d] = Some (t + d)"
  "t \<le> 10000 \<Longrightarrow> numeral_loop t 0 True [] = Some t"
proof -
  show "d < 10 \<Longrightarrow> t \<le> 10000 \<Longrightarrow> numeral_loop t 0 s [digit_sign d] = Some (t + d)"
    by (simp add: sign_facts checked_u32_def)
qed (simp_all add: digit_of_def unit_of_def checked_u32_def)

lemma unit_signs:
  "digit_of 0x5341 = None" "unit_of 0x5341 = Some 10" "digit_of 0x767E = None" "unit_of 0x767E = Some 100"
  "digit_of 0x5343 = None" "unit_of 0x5343 = Some 1000"
  by (simp_all add: digit_of_def unit_of_def)

lemma numeral_loop_chinese:
  assumes "0 < n" "n < 10000"
  shows "numeral_loop 0 0 False (chinese_numeral n) = Some n"
proof -
  define d3 d2 d1 d0 where d: "d3 = n div 1000" "d2 = n div 100 mod 10" "d1 = n div 10 mod 10" "d0 = n mod 10"
  have lt: "d3 < 10" "d2 < 10" "d1 < 10" "d0 < 10" using assms by (simp_all add: d)
  have n: "n = d3 * 1000 + d2 * 100 + d1 * 10 + d0" 
  proof -
    have "n div 100 = n div 10 div 10" "n div 1000 = n div 100 div 10" by (simp_all add: div_mult2_eq[symmetric])
    with div_mult_mod_eq[of n 10] div_mult_mod_eq[of "n div 10" 10] div_mult_mod_eq[of "n div 100" 10]
    show ?thesis unfolding d by linarith
  qed
  have small: "n < 20 \<longleftrightarrow> d3 = 0 \<and> d2 = 0 \<and> d1 < 2" using n lt by auto
  have "d3 * 1000 + (d2 * 100 + d1 * 10) \<le> 10000" using assms n by simp
  note bounds = this
  have thousands: "d3 \<noteq> 0 \<Longrightarrow> numeral_loop 0 0 s (digit_sign d3 # 0x5343 # cs) = numeral_loop (d3 * 1000) 0 True cs" for s cs
    using loop_unit[of d3 "0x5343" 1000 0] lt unit_signs by simp
  have hundreds: "d2 \<noteq> 0 \<Longrightarrow> numeral_loop (d3 * 1000) 0 s (digit_sign d2 # 0x767E # cs) = numeral_loop (d3 * 1000 + d2 * 100) 0 True cs" for s cs
    using loop_unit[of d2 "0x767E" 100 "d3 * 1000"] lt unit_signs bounds by simp
  have tens: "d1 \<noteq> 0 \<Longrightarrow> numeral_loop (d3 * 1000 + d2 * 100) 0 s (digit_sign d1 # 0x5341 # cs)
      = numeral_loop (d3 * 1000 + d2 * 100 + d1 * 10) 0 True cs" for s cs
    using loop_unit[of d1 "0x5341" 10 "d3 * 1000 + d2 * 100"] lt unit_signs bounds by simp
  have ones: "d0 \<noteq> 0 \<Longrightarrow> numeral_loop (d3 * 1000 + d2 * 100 + d1 * 10) 0 s [digit_sign d0] = Some n" for s
    using loop_steps(3)[OF lt(4)] bounds n by simp
  have "d1 \<noteq> 0 \<Longrightarrow> n < 20 \<longleftrightarrow> d3 = 0 \<and> d2 = 0 \<and> d1 = 1" using small by auto
  note teens = this
  have last: "d0 = 0 \<Longrightarrow> numeral_loop (d3 * 1000 + d2 * 100 + d1 * 10) 0 True [] = Some n"
    using loop_steps(4)[OF bounds] n by (simp add: add.assoc)
  have form: "chinese_numeral n = (if d3 \<noteq> 0 then [digit_sign d3, 0x5343] else [])
      @ (if d2 \<noteq> 0 then [digit_sign d2, 0x767E] else if d3 \<noteq> 0 \<and> (d1 \<noteq> 0 \<or> d0 \<noteq> 0) then [0x96F6] else [])
      @ (if d1 \<noteq> 0 then (if n < 20 then [0x5341] else [digit_sign d1, 0x5341]) else if d2 \<noteq> 0 \<and> d0 \<noteq> 0 then [0x96F6] else [])
      @ (if d0 \<noteq> 0 then [digit_sign d0] else [])"
    unfolding chinese_numeral_def Let_def d ..
  have "\<not> (d3 = 0 \<and> d2 = 0 \<and> d1 = 0 \<and> d0 = 0)" using n assms(1) by auto
  then show ?thesis
    unfolding form
    using thousands hundreds tens ones loop_steps(1,2) teens last
    by (cases "d3 = 0"; cases "d2 = 0"; cases "d1 = 0"; cases "d0 = 0") (auto simp del: numeral_loop.simps)
qed

lemma numeral_signs:
  assumes "n < 10000"
  shows "\<forall>c \<in> set (chinese_numeral n). \<not> is_whitespace c \<and> \<not> ascii_digit c \<and> c \<noteq> ARTICLE \<and> c \<noteq> ORDINAL \<and> \<not> ends_scope c"
    "length (chinese_numeral n) \<le> 16" "0 < n \<Longrightarrow> chinese_numeral n \<noteq> []"
proof -
  have lt: "n div 1000 < 10" "n div 100 mod 10 < 10" "n div 10 mod 10 < 10" "n mod 10 < 10" using assms by simp_all
  have units: "\<not> is_whitespace 0x96F6" "\<not> ascii_digit 0x96F6" "0x96F6 \<noteq> ARTICLE" "0x96F6 \<noteq> ORDINAL" "\<not> ends_scope 0x96F6"
    "\<not> is_whitespace 0x5341" "\<not> ascii_digit 0x5341" "0x5341 \<noteq> ARTICLE" "0x5341 \<noteq> ORDINAL" "\<not> ends_scope 0x5341"
    "\<not> is_whitespace 0x767E" "\<not> ascii_digit 0x767E" "0x767E \<noteq> ARTICLE" "0x767E \<noteq> ORDINAL" "\<not> ends_scope 0x767E"
    "\<not> is_whitespace 0x5343" "\<not> ascii_digit 0x5343" "0x5343 \<noteq> ARTICLE" "0x5343 \<noteq> ORDINAL" "\<not> ends_scope 0x5343"
    by (simp_all add: is_whitespace_def ascii_digit_def ARTICLE_def ORDINAL_def ends_scope_def OPEN_def)
  have "set (chinese_numeral n) \<subseteq> {digit_sign (n div 1000), digit_sign (n div 100 mod 10), digit_sign (n div 10 mod 10),
      digit_sign (n mod 10), 0x96F6, 0x5341, 0x767E, 0x5343}"
    by (auto simp: chinese_numeral_def Let_def)
  moreover have "\<forall>c \<in> {digit_sign (n div 1000), digit_sign (n div 100 mod 10), digit_sign (n div 10 mod 10),
      digit_sign (n mod 10), 0x96F6, 0x5341, 0x767E, 0x5343}. \<not> is_whitespace c \<and> \<not> ascii_digit c \<and> c \<noteq> ARTICLE \<and> c \<noteq> ORDINAL \<and> \<not> ends_scope c"
    using lt units sign_facts by simp
  ultimately show "\<forall>c \<in> set (chinese_numeral n). \<not> is_whitespace c \<and> \<not> ascii_digit c \<and> c \<noteq> ARTICLE \<and> c \<noteq> ORDINAL \<and> \<not> ends_scope c"
    by (meson subsetD)
  have "length (chinese_numeral n) \<le> 2 + (2 + (2 + 2))"
    unfolding chinese_numeral_def Let_def length_append by (intro add_le_mono) simp_all
  then show "length (chinese_numeral n) \<le> 16" by simp
  show "0 < n \<Longrightarrow> chinese_numeral n \<noteq> []"
    using numeral_loop_chinese[of n] assms by (cases "chinese_numeral n") auto
qed

lemma normalize_chinese:
  assumes "0 < n" "n < 10000"
  shows "normalize_article_number (chinese_numeral n) = Some n"
proof -
  have "filter (\<lambda>c. \<not> is_whitespace c) (chinese_numeral n) = chinese_numeral n"
    using numeral_signs(1)[OF assms(2)] by (auto simp: filter_id_conv)
  moreover have "\<not> list_all ascii_digit (chinese_numeral n)"
    using numeral_signs(1,3)[OF assms(2)] assms(1) by (cases "chinese_numeral n") auto
  ultimately show ?thesis
    using numeral_loop_chinese[OF assms] assms(1) by (simp add: normalize_article_number_def Let_def positive_def)
qed

section \<open>Every named article is found\<close>

lemma break_at_append: "c \<notin> set l \<Longrightarrow> break_at c (l @ c # r) = Some (l, r)"
  by (induction l) auto

lemma trim_scalars_keep: "c \<in> set (trim_scalars P cs) \<longleftrightarrow> c \<in> set cs" if "\<not> P c"
proof -
  have "c \<in> set (dropWhile P xs) \<longleftrightarrow> c \<in> set xs" for xs
    using that by (induction xs) auto
  then show ?thesis by (simp add: trim_scalars_def)
qed

lemma trim_scalars_plain: "\<forall>c \<in> set cs. \<not> P c \<Longrightarrow> trim_scalars P cs = cs"
proof -
  assume plain: "\<forall>c \<in> set cs. \<not> P c"
  have same: "dropWhile P xs = xs" if "\<forall>c \<in> set xs. \<not> P c" for xs using that by (cases xs) auto
  have "dropWhile P cs = cs" "dropWhile P (rev cs) = rev cs" by (rule same, use plain in simp)+
  then show "trim_scalars P cs = cs" by (simp only: trim_scalars_def rev_rev_ident)
qed

lemma ordinal_plain: "\<not> is_whitespace ORDINAL" "\<not> ascii_digit ORDINAL" "digit_of ORDINAL = None" "unit_of ORDINAL = None"
  by (simp_all add: ORDINAL_def is_whitespace_def ascii_digit_def digit_of_def unit_of_def)

lemma numeral_loop_ordinal: "ORDINAL \<in> set cs \<Longrightarrow> numeral_loop t p s cs = None"
proof (induction t p s cs rule: numeral_loop.induct)
  case (2 t p s c cs)
  show ?case
  proof (cases "c = ORDINAL")
    case True
    then show ?thesis by (simp add: ordinal_plain)
  next
    case False
    with 2 show ?thesis by (auto split: option.split bind_split)
  qed
qed simp

lemma article_marker_chinese:
  assumes "0 < n" "n < 10000"
  shows "article_marker (chinese_numeral n @ ARTICLE # after) = Some (n, after)"
proof -
  note signs = numeral_signs[OF assms(2)]
  have "trim_scalars is_whitespace (chinese_numeral n) = chinese_numeral n"
    by (rule trim_scalars_plain) (use signs in blast)
  moreover have "break_at ARTICLE (chinese_numeral n @ ARTICLE # after) = Some (chinese_numeral n, after)"
    by (rule break_at_append) (use signs in blast)
  ultimately show ?thesis
    using signs assms(1) normalize_chinese[OF assms] by (simp add: article_marker_def)
qed

lemma article_numbers_found:
  assumes "0 < n" "n < 10000"
  shows "n \<in> set (article_numbers (before @ ORDINAL # chinese_numeral n @ ARTICLE # after))"
proof (induction before rule: length_induct)
  case (1 before)
  show ?case
  proof (cases "ORDINAL \<in> set before")
    case False
    then show ?thesis
      using article_marker_chinese[OF assms, of after] by (subst article_numbers.simps) (simp add: break_at_append)
  next
    case True
    then obtain l r where l: "before = l @ ORDINAL # r" "ORDINAL \<notin> set l" by (metis split_list_first)
    define rest where "rest = r @ ORDINAL # chinese_numeral n @ ARTICLE # after"
    have numbers: "article_numbers (before @ ORDINAL # chinese_numeral n @ ARTICLE # after)
        = (case article_marker rest of Some (k, later) \<Rightarrow> k # article_numbers later | None \<Rightarrow> article_numbers rest)"
    proof -
      have whole: "before @ ORDINAL # chinese_numeral n @ ARTICLE # after = l @ ORDINAL # rest" by (simp add: l rest_def)
      show ?thesis unfolding whole by (subst article_numbers.simps) (simp add: l break_at_append)
    qed
    have skip: "n \<in> set (article_numbers rest)" using 1 l by (simp add: rest_def)
    show ?thesis
    proof (cases "ARTICLE \<in> set r")
      case True
      then obtain a b where a: "r = a @ ARTICLE # b" "ARTICLE \<notin> set a" by (metis split_list_first)
      have "break_at ARTICLE rest = Some (a, b @ ORDINAL # chinese_numeral n @ ARTICLE # after)"
        using a by (simp add: rest_def break_at_append)
      moreover have "n \<in> set (article_numbers (b @ ORDINAL # chinese_numeral n @ ARTICLE # after))" using 1 l a by simp
      ultimately show ?thesis
        unfolding numbers using skip by (auto simp: article_marker_def Let_def split: option.split)
    next
      case False
      then have "break_at ARTICLE rest = Some (r @ ORDINAL # chinese_numeral n, after)"
        using break_at_append[of ARTICLE "r @ ORDINAL # chinese_numeral n" after] numeral_signs(1)[OF assms(2)]
        by (auto simp: rest_def ORDINAL_def ARTICLE_def)
      moreover have "ORDINAL \<in> set (filter (\<lambda>c. \<not> is_whitespace c) (trim_scalars is_whitespace (r @ ORDINAL # chinese_numeral n)))"
        by (simp add: ordinal_plain trim_scalars_keep)
      then have "normalize_article_number (trim_scalars is_whitespace (r @ ORDINAL # chinese_numeral n)) = None"
        using ordinal_plain(2) by (auto simp: normalize_article_number_def Let_def numeral_loop_ordinal list_all_iff)
      ultimately have "article_marker rest = None" by (simp add: article_marker_def Let_def)
      with skip show ?thesis unfolding numbers by simp
    qed
  qed
qed

text \<open>Every title that is opened is closed again.\<close>

function quotes_closed :: "nat list \<Rightarrow> bool" where
  "quotes_closed cs = (case break_at OPEN cs of None \<Rightarrow> True
   | Some (_, rest) \<Rightarrow> (case break_at CLOSE rest of None \<Rightarrow> False | Some (_, after) \<Rightarrow> quotes_closed after))"
  by auto
termination
  by (relation "measure length") (auto dest!: break_at_length)

declare quotes_closed.simps [simp del]

lemma break_at_None: "break_at c xs = None \<longleftrightarrow> c \<notin> set xs"
  by (induction xs) (auto split: option.split)

lemma break_at_extend: "break_at c xs = Some (l, r) \<Longrightarrow> break_at c (xs @ ys) = Some (l, r @ ys)"
  by (induction xs arbitrary: l) (auto split: if_splits option.splits)

lemma mentions_append:
  "quotes_closed before \<Longrightarrow> set (law_article_mentions (OPEN # rest)) \<subseteq> set (law_article_mentions (before @ OPEN # rest))"
proof (induction before rule: length_induct)
  case (1 before)
  show ?case
  proof (cases "break_at OPEN before")
    case None
    then show ?thesis
      by (subst (1 2) law_article_mentions.simps) (simp add: break_at_append break_at_None)
  next
    case (Some p)
    then obtain l r where p: "break_at OPEN before = Some (l, r)" by (cases p) simp
    then obtain name later where q: "break_at CLOSE r = Some (name, later)" "quotes_closed later"
      using 1(2) by (subst (asm) quotes_closed.simps) (auto split: option.splits)
    then have "set (law_article_mentions (OPEN # rest)) \<subseteq> set (law_article_mentions (later @ OPEN # rest))"
      using 1(1) break_at_length[OF p] break_at_length[OF q(1)] by simp
    then show ?thesis
      using break_at_extend[OF p, of "OPEN # rest"] break_at_extend[OF q(1), of "OPEN # rest"]
      by (subst law_article_mentions.simps[of "before @ OPEN # rest"]) auto
  qed
qed

lemma named_article_mentioned:
  assumes "CLOSE \<notin> set name" "is_law_title name" "list_all (\<lambda>c. \<not> ends_scope c) mid" "0 < n" "n < 10000"
  shows "(name, n) \<in> set (law_article_mentions (OPEN # name @ CLOSE # mid @ ORDINAL # chinese_numeral n @ ARTICLE # after))"
proof -
  have plain: "takeWhile (\<lambda>c. \<not> ends_scope c) (xs @ ys) = xs @ takeWhile (\<lambda>c. \<not> ends_scope c) ys"
    if "list_all (\<lambda>c. \<not> ends_scope c) xs" for xs ys
    using that by (induction xs) auto
  have "\<not> ends_scope ORDINAL" "\<not> ends_scope ARTICLE" "list_all (\<lambda>c. \<not> ends_scope c) (chinese_numeral n)"
    using numeral_signs(1)[OF assms(5)] by (auto simp: ends_scope_def ORDINAL_def ARTICLE_def OPEN_def list_all_iff)
  then have "law_article_scope (mid @ ORDINAL # chinese_numeral n @ ARTICLE # after)
      = mid @ ORDINAL # chinese_numeral n @ ARTICLE # takeWhile (\<lambda>c. \<not> ends_scope c) after"
    using assms(3) by (simp add: law_article_scope_def plain)
  moreover have "break_at CLOSE (name @ CLOSE # ys) = Some (name, ys)" for ys
    using assms(1) by (simp add: break_at_append)
  ultimately show ?thesis
    using assms(2) article_numbers_found[OF assms(4,5)] by (subst law_article_mentions.simps) simp
qed

text \<open>
  C23: an article that an answer names is one whose citation was checked. Wherever an answer that
  passes the check writes the title of a statute in book quotes and, before the sentence ends or
  another title begins, the number of an article in Chinese numerals, there is an article citation
  of that number whose title matches.
\<close>

theorem named_articles_are_verified:
  assumes "verify_law_article_mentions content citations = Inr ()"
    and "chars content = before @ OPEN # name @ CLOSE # mid @ ORDINAL # chinese_numeral n @ ARTICLE # after"
    and "quotes_closed before" "CLOSE \<notin> set name" "is_law_title name" "list_all (\<lambda>c. \<not> ends_scope c) mid"
    and "0 < n" "n < 10000"
  shows "\<exists>c \<in> set citations. json_index c ''kind'' = JStr ''article'' \<and> law_title_matches c name
    \<and> citation_article_number c = Some n"
proof -
  have "(name, n) \<in> set (law_article_mentions (chars content))"
    using named_article_mentioned[OF assms(4-8)] mentions_append[OF assms(3)] unfolding assms(2) by blast
  with assms(1) show ?thesis
    by (auto simp: verify_law_article_mentions_def list_all_iff list_ex_iff)
qed

theorem named_articles_are_verified_witness:
  "\<exists>c. verify_law_article_mentions (utf8 [0x300A, 0x6C11, 0x6CD5, 0x5178, 0x300B, 0x7B2C, 0x5341, 0x6761]) [c] = Inr () \<and> citation_article_number c = Some 10"
proof -
  define answer article title where texts: "answer = (utf8 [0x300A, 0x6C11, 0x6CD5, 0x5178, 0x300B, 0x7B2C, 0x5341, 0x6761])" "article = (utf8 [0x7B2C, 0x5341, 0x6761])" "title = (utf8 [0x6C11, 0x6CD5, 0x5178])"
  define c where "c = JObj [(''article_number'', JStr article), (''kind'', JStr ''article''), (''title'', JStr title)]"
  have plain: "chars answer = OPEN # [0x6C11, 0x6CD5, 0x5178] @ CLOSE # [] @ ORDINAL # chinese_numeral 10 @ ARTICLE # []"
    "chars article = ORDINAL # chinese_numeral 10 @ ARTICLE # []" "chars title = [0x6C11, 0x6CD5, 0x5178]"
    unfolding texts by (subst chars_utf8; simp add: scalar_def OPEN_def CLOSE_def ORDINAL_def ARTICLE_def chinese_numeral_def)+
  have law: "is_law_title [0x6C11, 0x6CD5, 0x5178]" by (simp add: is_law_title_def suffix_def)
  have normal: "normalize_title [0x6C11, 0x6CD5, 0x5178] = [0x6C11, 0x6CD5, 0x5178]"
    by (simp add: normalize_title_def trim_scalars_def is_whitespace_def OPEN_def CLOSE_def COUNTRY_def)
  have matches: "law_title_matches c [0x6C11, 0x6CD5, 0x5178]" "json_index c ''kind'' = JStr ''article''" "citation_article_number c = Some 10"
    using article_marker_chinese[of 10 "[]"]
    by (simp_all add: c_def law_title_matches_def json_index_def json_get_def as_str_def plain normal citation_article_number_def)
  have rest: "break_at OPEN (ORDINAL # chinese_numeral 10 @ [ARTICLE]) = None"
    by (simp add: break_at_None OPEN_def ORDINAL_def ARTICLE_def chinese_numeral_def)
  have numbers: "article_numbers (law_article_scope (ORDINAL # chinese_numeral 10 @ [ARTICLE])) = [10]"

  proof -
    have "law_article_scope (ORDINAL # chinese_numeral 10 @ [ARTICLE]) = ORDINAL # chinese_numeral 10 @ [ARTICLE]"
      by (simp add: law_article_scope_def ends_scope_def chinese_numeral_def ORDINAL_def ARTICLE_def OPEN_def)
    moreover have "article_numbers [] = []" by (simp add: article_numbers.simps)
    ultimately show ?thesis
      using article_marker_chinese[of 10 "[]"] by (subst article_numbers.simps) simp
  qed
  have "law_article_mentions (chars answer) = [([0x6C11, 0x6CD5, 0x5178], 10)]"
    
  proof -
    have "chars answer = OPEN # [0x6C11, 0x6CD5, 0x5178] @ CLOSE # (ORDINAL # chinese_numeral 10 @ [ARTICLE])" using plain(1) by simp
    moreover have none: "law_article_mentions (ORDINAL # chinese_numeral 10 @ [ARTICLE]) = []"
      by (subst law_article_mentions.simps) (simp add: rest del: break_at.simps)
    ultimately show ?thesis
      by (subst law_article_mentions.simps) (simp add: law numbers CLOSE_def none)
  qed
  then have ok: "verify_law_article_mentions answer [c] = Inr ()"
    by (simp add: verify_law_article_mentions_def matches)
  have "\<exists>c' \<in> set [c]. json_index c' ''kind'' = JStr ''article'' \<and> law_title_matches c' [0x6C11, 0x6CD5, 0x5178] \<and> citation_article_number c' = Some 10"
    by (rule named_articles_are_verified[OF ok, where before = "[]" and mid = "[]" and after = "[]"])
      (simp_all only: plain append_Nil, simp_all add: law quotes_closed.simps CLOSE_def)
  with ok show ?thesis unfolding texts(1) by auto
qed

end
