(* ===== verification/Run_Loop.thy ===== *)
theory Run_Loop imports Run_Messages Run_Context Law_Mention begin

text \<open>
  The loop of an AI run (\<open>execute\_ai\_run\<close> of \<open>workspace-service/src/ai\_runs.rs\<close>): up to eight
  requests to the model, the legal tools it asks for in between, at most twenty-four calls, two
  repairs of an answer that does not pass its checks, and the answer of a conversation with its title.
\<close>

section \<open>Values\<close>

text \<open>\<open>value["key"] = x\<close>: null becomes an object, another shape is a panic.\<close>

definition json_put :: "string \<Rightarrow> json \<Rightarrow> json \<Rightarrow> error + json" where
  "json_put k x v = (case v of JObj ms \<Rightarrow> Inr (JObj (om_put k x ms)) | JNull \<Rightarrow> Inr (JObj [(k, x)])
     | _ \<Rightarrow> Inl (error_new ''task_panicked''))"

definition u64_at :: "json \<Rightarrow> string \<Rightarrow> nat" where
  "u64_at v k = (case as_u64 (json_index v k) of Some n \<Rightarrow> n | None \<Rightarrow> 0)"

text \<open>The sum is that of the release build, which wraps.\<close>

definition add_usage_key :: "json \<Rightarrow> string \<Rightarrow> json \<Rightarrow> error + json" where
  "add_usage_key new key whole = json_put key (json_nat ((u64_at whole key + u64_at new key) mod 2 ^ 64)) whole"

definition add_usage :: "json \<Rightarrow> json \<Rightarrow> error + json" where
  "add_usage whole new = and_then (add_usage_key new ''prompt_tokens'' whole) (\<lambda>v.
     and_then (add_usage_key new ''completion_tokens'' v) (add_usage_key new ''total_tokens''))"

definition strip_json_fence :: "string \<Rightarrow> string" where
  "strip_json_fence s = (case or_else (strip_prefix (str_trim s) ''```json'') (strip_prefix (str_trim s) ''```'') of
     None \<Rightarrow> str_trim s
   | Some t \<Rightarrow> str_trim (case strip_suffix (str_trim t) ''```'' of Some v \<Rightarrow> v | None \<Rightarrow> t))"

definition article_source :: "string \<Rightarrow> (string, json) omap \<Rightarrow> json" where
  "article_source i ms = JObj ([(''article_id'', JStr i)]
     @ json_present ''document_id'' JStr (Option.bind (or_else (om_get ms ''documentId'') (om_get ms ''document_id'')) as_str)
     @ [(''kind'', JStr ''article'')]
     @ json_present ''version_id'' JStr (Option.bind (or_else (om_get ms ''versionId'') (om_get ms ''version_id'')) as_str))"

definition found_sources :: "(string, json) omap \<Rightarrow> (string, json) omap \<Rightarrow> (string, json) omap" where
  "found_sources ms out =
     (let out = (case Option.bind (or_else (om_get ms ''articleId'') (om_get ms ''article_id'')) as_str of
            None \<Rightarrow> out | Some i \<Rightarrow> om_put (''article:'' @ i) (article_source i ms) out) in
      case Option.bind (or_else (om_get ms ''caseId'') (om_get ms ''case_id'')) as_str of
        None \<Rightarrow> out
      | Some i \<Rightarrow> om_put (''case:'' @ i) (JObj [(''case_id'', JStr i), (''kind'', JStr ''case'')]) out)"

fun collect_sources :: "json \<Rightarrow> (string, json) omap \<Rightarrow> (string, json) omap" where
  "collect_sources (JObj ms) out = fold (\<lambda>kv. collect_sources (snd kv)) ms (found_sources ms out)"
| "collect_sources (JArr vs) out = fold collect_sources vs out"
| "collect_sources v out = out"

section \<open>Tool calls without an answer\<close>

definition calls_of :: "json \<Rightarrow> json list option" where
  "calls_of m = (if as_str (json_index m ''role'') = Some ''assistant'' then as_array (json_index m ''tool_calls'') else None)"

definition answer_to :: "json \<Rightarrow> string option" where
  "answer_to m = as_str (json_index m ''tool_call_id'')"

definition call_ids :: "json list \<Rightarrow> string list" where
  "call_ids calls = map the (filter (\<lambda>x. x \<noteq> None) (map (\<lambda>c. as_str (json_index c ''id'')) calls))"

definition tool_message :: "json \<Rightarrow> string \<Rightarrow> json" where
  "tool_message i content = JObj [(''content'', JStr content), (''role'', JStr ''tool''), (''tool_call_id'', i)]"

definition INTERRUPTED :: string where
  "INTERRUPTED = ''{\"error\":\"interrupted_before_result; retry the read-only tool if still needed\"}''"

text \<open>The last message with calls, and what follows it.\<close>

fun last_calls :: "json list \<Rightarrow> (json list \<times> json list) option" where
  "last_calls [] = None"
| "last_calls (m # ms) = (case last_calls ms of Some x \<Rightarrow> Some x
     | None \<Rightarrow> map_option (\<lambda>calls. (calls, ms)) (calls_of m))"

definition repair_interrupted_tool_results :: "json list \<Rightarrow> json list" where
  "repair_interrupted_tool_results messages = (case last_calls messages of None \<Rightarrow> messages
   | Some (calls, later) \<Rightarrow> messages @ map (\<lambda>i. tool_message (JStr i) INTERRUPTED)
       (filter (\<lambda>i. Some i \<notin> set (map answer_to later)) (call_ids calls)))"

section \<open>A request\<close>

definition messages_text :: "run_env \<Rightarrow> ai_run \<Rightarrow> string" where
  "messages_text R r = sv_to_vec (run_service R) (JArr (ru_messages r))"

definition dispatch_budget_for_run :: "run_env \<Rightarrow> ai_run \<Rightarrow> error + nat" where
  "dispatch_budget_for_run R r =
     and_then (ok_or (ru_context_plan r) prepare_required) (\<lambda>plan.
     and_then (ensure (estimate_text_tokens (messages_text R r) \<le> input_limit plan) budget_exceeded) (\<lambda>_.
     let observed = max (u64_at (ru_usage r) ''context_output_tokens'') (u64_at (ru_usage r) ''completion_tokens'');
         remaining = xc_max_output_tokens (pl_capabilities plan) - observed in
     and_then (ensure (min remaining U32_LIMIT \<noteq> 0) budget_exceeded) (\<lambda>_. Inr (min remaining U32_LIMIT))))"

definition bindings_hash :: "run_env \<Rightarrow> ai_run \<Rightarrow> string" where
  "bindings_hash R r = content_hash (run_service R) (sv_to_vec (run_service R)
     (JArr (map (\<lambda>(kind, i, h). JArr [JStr kind, JStr i, JStr h]) (ru_bindings r))))"

definition take_completion :: "run_env \<Rightarrow> completion \<Rightarrow> ai_run \<Rightarrow> error + json \<times> ai_run" where
  "take_completion R c r =
     and_then (add_usage (ru_usage r) (co_usage c)) (\<lambda>usage.
     let output_tokens = estimate_text_tokens (sv_to_vec (run_service R) (co_message c)) in
     and_then (json_put ''context_output_tokens'' (json_nat (sat_u64 (u64_at usage ''context_output_tokens'' + output_tokens))) usage) (\<lambda>usage.
     and_then (json_put ''role'' (JStr ''assistant'') (co_message c)) (\<lambda>message.
     Inr (message, r\<lparr>ru_usage := usage, ru_messages := ru_messages r @ [message]\<rparr>))))"

definition ask_model :: "run_env \<Rightarrow> ai_run \<Rightarrow> ai_selection \<Rightarrow> nat \<Rightarrow> (json \<times> ai_run) rop" where
  "ask_model R r sel token =
     op_bind (op_lift (dispatch_budget_for_run R r)) (\<lambda>budget.
     op_bind (run_gap R 6) (\<lambda>_.
     op_bind (in_ai (ai_complete_budgeted (re_ai R) sel (JArr (ru_messages r)) (Some (re_tools R)) None (ru_kind r)
       (bindings_hash R r) budget token)) (\<lambda>completion.
     op_bind (run_gap R 7) (\<lambda>_.
     op_lift (take_completion R completion r)))))"

section \<open>The tools\<close>

definition call_part :: "json \<Rightarrow> string \<Rightarrow> string option" where
  "call_part call k = as_str (json_index (json_index call ''function'') k)"

definition call_name :: "json \<Rightarrow> string" where
  "call_name call = (case call_part call ''name'' of Some s \<Rightarrow> s | None \<Rightarrow> [])"

definition call_args :: "json \<Rightarrow> string" where
  "call_args call = (case call_part call ''arguments'' of Some s \<Rightarrow> s | None \<Rightarrow> ''{}'')"

definition error_value :: "string \<Rightarrow> json" where
  "error_value code = JObj [(''error'', JStr code)]"

definition run_tool :: "run_env \<Rightarrow> string \<Rightarrow> string \<Rightarrow> ai_run \<Rightarrow> (json \<times> ai_run) rop" where
  "run_tool R name args r = (case ae_parse_json (re_ai R) args of
     None \<Rightarrow> op_return (error_value ''invalid_tool_arguments'', r)
   | Some v \<Rightarrow> op_bind (run_gap R 8) (\<lambda>_. case re_tool R name v (ru_request r) of
       Inl e \<Rightarrow> op_return (error_value (e_code e), r)
     | Inr x \<Rightarrow> op_return (x, r\<lparr>ru_allowed_sources := collect_sources x (ru_allowed_sources r)\<rparr>)))"

definition tool_step :: "run_env \<Rightarrow> string \<Rightarrow> string \<Rightarrow> json \<Rightarrow> nat \<Rightarrow> json" where
  "tool_step R name args result time = JObj [(''created_at'', json_nat time),
     (''query'', json_opt JStr (Option.bind (ae_parse_json (re_ai R) args) (\<lambda>v. as_str (json_index v ''query'')))),
     (''status'', JStr (if json_get result ''error'' \<noteq> None then ''failed'' else ''completed'')),
     (''tool'', JStr name), (''total'', json_index result ''total'')]"

definition TOOL_STAGE :: string where "TOOL_STAGE = (utf8 [0x5DF2, 0x8BFB, 0x53D6, 0x6CD5, 0x5F8B, 0x68C0, 0x7D22, 0x7ED3, 0x679C])"

type_synonym tool_cache = "(string, json) omap"

definition run_call :: "run_env \<Rightarrow> nat \<Rightarrow> json \<Rightarrow> ai_run \<times> tool_cache \<Rightarrow> (ai_run \<times> tool_cache) rop" where
  "run_call R token call st = (case st of (r, cache) \<Rightarrow>
     op_bind (run_unless_cancelled token) (\<lambda>_.
     op_bind (validate_run_bindings R r) (\<lambda>_.
     let name = call_name call; args = call_args call; key = name @ ''/'' @ args in
     op_bind (case om_get cache key of
         Some v \<Rightarrow> op_return (v, r, cache)
       | None \<Rightarrow> op_bind (run_tool R name args r) (\<lambda>(v, r). op_return (v, r, om_put key v cache))) (\<lambda>(result, r, cache).
     op_bind rx_now (\<lambda>time.
     let r = r\<lparr>ru_tool_steps := ru_tool_steps r @ [tool_step R name args result time],
           ru_messages := ru_messages r @ [tool_message (json_index call ''id'') (sv_to_vec (run_service R) result)]\<rparr> in
     op_bind (save_run_progress r TOOL_STAGE) (\<lambda>r. op_return (r, cache)))))))"

fun run_calls :: "run_env \<Rightarrow> nat \<Rightarrow> json list \<Rightarrow> ai_run \<times> tool_cache \<Rightarrow> (ai_run \<times> tool_cache) rop" where
  "run_calls R token [] st = op_return st"
| "run_calls R token (c # cs) st = op_bind (run_call R token c st) (run_calls R token cs)"

section \<open>The answer\<close>

definition table_cell :: "json \<Rightarrow> string \<Rightarrow> string" where
  "table_cell c key = concat (map (\<lambda>b. if b = CHR ''|'' then (utf8 [0xFF0F]) else if b \<in> {CHR 0x0D, CHR 0x0A} then '' '' else [b])
     (case as_str (json_index c key) of Some s \<Rightarrow> s | None \<Rightarrow> (utf8 [0x2014])))"

definition table_row :: "nat \<times> json \<Rightarrow> string" where
  "table_row x = (case x of (index, c) \<Rightarrow> ''| '' @ decimal (index + 1) @ '' | '' @ table_cell c ''title'' @ '' | ''
     @ table_cell c ''article_number'' @ '' | ''
     @ table_cell c (if json_index c ''kind'' = JStr ''case'' then ''publication_date'' else ''effective_from'')
     @ '' |'' @ [CHR 0x0A])"

definition citation_table :: "json list \<Rightarrow> string" where
  "citation_table citations = [CHR 0x0A, CHR 0x0A] @ (utf8 [0x23, 0x23, 0x20, 0x5F15, 0x7528, 0x6838, 0x9A8C, 0x8868]) @ [CHR 0x0A, CHR 0x0A]
     @ (utf8 [0x7C, 0x20, 0x5E8F, 0x53F7, 0x20, 0x7C, 0x20, 0x6CD5, 0x5F8B, 0x6216, 0x6848, 0x4F8B, 0x20, 0x7C, 0x20, 0x6761, 0x6B3E, 0x20, 0x7C, 0x20, 0x7248, 0x672C, 0x65E5, 0x671F, 0x20, 0x7C]) @ [CHR 0x0A] @ ''| --- | --- | --- | --- |'' @ [CHR 0x0A]
     @ concat (map table_row (enumerate 0 citations))"

definition verified_now :: "run_env \<Rightarrow> ai_run \<Rightarrow> citation_verification \<Rightarrow> citation_verification" where
  "verified_now R r v = v\<lparr>cv_body_sha256 := content_hash (run_service R) (ru_content r), cv_run_revision := ru_revision r,
     cv_case_date := rq_case_date (ru_request r)\<rparr>"

definition finalize_ai_answer :: "run_env \<Rightarrow> ai_run \<Rightarrow> string \<Rightarrow> error + ai_run" where
  "finalize_ai_answer R r t =
     and_then (ok_or (ae_parse_json (re_ai R) (strip_json_fence t)) (error_new ''ai_answer_json_invalid'')) (\<lambda>answer.
     and_then (ok_or (or_else (as_str (json_index answer ''content'')) (as_str (json_index answer ''answer_markdown'')))
       (error_new ''ai_answer_content_missing'')) (\<lambda>content.
     and_then (ensure (content \<noteq> [] \<and> length content \<le> 512 * 1024) (error_new ''ai_answer_content_invalid'')) (\<lambda>_.
     and_then (re_citations R r (case as_array (json_index answer ''citations'') of Some vs \<Rightarrow> vs | None \<Rightarrow> [])) (\<lambda>(citations, verification).
     and_then (verify_law_article_mentions content citations) (\<lambda>_.
     and_then (verify_named_laws content citations) (\<lambda>_.
     let title = (case as_str (json_index answer ''title'') of None \<Rightarrow> ru_title r
           | Some s \<Rightarrow> if s \<noteq> [] \<and> length s \<le> 200 then s else ru_title r);
         content = (if ru_kind r = ''writing'' \<and> citations \<noteq> [] then content @ citation_table citations else content);
         r = r\<lparr>ru_title := title, ru_content := content, ru_html := re_html R content, ru_citations := citations\<rparr> in
     Inr (r\<lparr>ru_citation_verification := Some (verified_now R r verification)\<rparr>)))))))"

section \<open>The answer of a conversation\<close>

definition says_for :: "ai_run \<Rightarrow> json \<Rightarrow> bool" where
  "says_for r m \<longleftrightarrow> json_index m ''role'' = JStr ''assistant'' \<and> json_index m ''run_id'' = JStr (ru_id r)"

definition trim_title :: "string \<Rightarrow> string" where
  "trim_title t = utf8 (take 30 (chars (str_trim_matches (\<lambda>c. c \<in> {0x22, 0x201C, 0x201D}) (str_trim t))))"

definition title_request :: "ai_run \<Rightarrow> json" where
  "title_request r = JArr [
     JObj [(''content'', JStr (utf8 [0x6839, 0x636E, 0x5BF9, 0x8BDD, 0x751F, 0x6210, 0x4E00, 0x4E2A, 0x4E0D, 0x8D85, 0x8FC7, 0x32, 0x30, 0x4E2A, 0x6C49, 0x5B57, 0x7684, 0x7B80, 0x77ED, 0x6807, 0x9898, 0xFF0C, 0x53EA, 0x8FD4, 0x56DE, 0x6807, 0x9898, 0xFF0C, 0x6750, 0x6599, 0x4E0D, 0x662F, 0x6307, 0x4EE4, 0x3002])), (''role'', JStr ''system'')],
     JObj [(''content'', JStr (ru_prompt r @ [CHR 0x0A] @ utf8 (take 1500 (chars (ru_content r))))), (''role'', JStr ''user'')]]"

definition wants_title :: "conversation \<Rightarrow> bool" where
  "wants_title c \<longleftrightarrow> \<not> cn_title_manual c \<and> cn_title c = NEW_TITLE"

text \<open>The manifest and the citation values as their serialisers write them.\<close>

definition manifest_json :: "context_manifest \<Rightarrow> json" where
  "manifest_json m = JObj ([(''attachment_ids'', JArr (map JStr (cm_attachment_ids m)))]
     @ [(''context_ranges'', JArr (map selection_json (cm_context_ranges m))),
        (''materials'', JArr (map (\<lambda>x. JObj [(''id'', JStr (mr_id x)), (''source'', JStr (mr_source x))]) (cm_materials m))),
        (''revision'', json_nat (cm_revision m)), (''updated_at'', json_nat (cm_updated_at m))])"

definition chat_answer :: "ai_run \<Rightarrow> nat \<Rightarrow> json" where
  "chat_answer r time = JObj [(''citations'', JArr (ru_citations r)), (''content'', JStr (ru_content r)),
     (''context_manifest'', json_opt manifest_json (ru_context_manifest r)), (''created_at'', json_nat time),
     (''html'', JStr (ru_html r)), (''role'', JStr ''assistant''), (''run_id'', JStr (ru_id r))]"

definition store_title :: "string \<Rightarrow> string \<Rightarrow> unit rop" where
  "store_title cid title = (if title = [] then op_return ()
     else op_bind rx_lock (\<lambda>_. op_bind (rx_fetch rx_conversations cid) (\<lambda>c.
       if wants_title c then rx_save (XConversation cid (c\<lparr>cn_title := title\<rparr>)) else op_return ())))"

definition finish_ai_chat :: "run_env \<Rightarrow> ai_run \<Rightarrow> ai_selection \<Rightarrow> nat \<Rightarrow> unit rop" where
  "finish_ai_chat R r sel token =
     op_bind (op_lift (ok_or (rq_conversation_id (ru_request r)) (error_new ''conversation_required''))) (\<lambda>cid.
     op_bind rx_lock (\<lambda>_. op_bind (rx_fetch rx_conversations cid) (\<lambda>c. op_bind rx_now (\<lambda>time.
     let c = (if list_ex (says_for r) (cn_messages c) then c else c\<lparr>cn_messages := cn_messages c @ [chat_answer r time]\<rparr>);
         c = c\<lparr>cn_updated_at := time\<rparr> in
     op_bind (rx_save (XConversation cid c)) (\<lambda>_.
     if \<not> wants_title c then op_return ()
     else op_bind (run_gap R 9) (\<lambda>_.
       op_bind (op_attempt (in_ai (ai_complete_budgeted (re_ai R) sel (title_request r) None None ''title''
         (content_hash (run_service R) (ru_id r)) 128 token))) (\<lambda>result.
       op_bind (run_gap R 10) (\<lambda>_. case result of
         Inl e \<Rightarrow> op_return ()
       | Inr completion \<Rightarrow> (case as_str (json_index (co_message completion) ''content'') of
           None \<Rightarrow> op_return () | Some t \<Rightarrow> store_title cid (trim_title t))))))))))"

section \<open>The loop\<close>

definition repair_request :: "error \<Rightarrow> json" where
  "repair_request e = JObj [(''content'', JStr ((utf8 [0x8F93, 0x51FA, 0x6821, 0x9A8C, 0x5931, 0x8D25, 0xFF1A]) @ e_code e @ (utf8 [0x3002, 0x8BF7, 0x4FEE, 0x6B63, 0xFF0C, 0x6700, 0x7EC8, 0x53EA, 0x8FD4, 0x56DE, 0x4A, 0x53, 0x4F, 0x4E, 0x5BF9, 0x8C61, 0x74, 0x69, 0x74, 0x6C, 0x65, 0x2F, 0x63, 0x6F, 0x6E, 0x74, 0x65, 0x6E, 0x74, 0x2F, 0x63, 0x69, 0x74, 0x61, 0x74, 0x69, 0x6F, 0x6E, 0x73, 0x3002, 0x5F15, 0x7528, 0x53EA, 0x80FD, 0x4F7F, 0x7528, 0x521A, 0x624D, 0x5DE5, 0x5177, 0x8FD4, 0x56DE, 0x7684, 0x61, 0x72, 0x74, 0x69, 0x63, 0x6C, 0x65, 0x5F, 0x69, 0x64, 0x2F, 0x63, 0x61, 0x73, 0x65, 0x5F, 0x69, 0x64, 0xFF1B, 0x9700, 0x8981, 0x65F6, 0x5148, 0x8BFB, 0x53D6, 0x6B63, 0x6587, 0x3002, 0x4E0D, 0x5F97, 0x7F16, 0x9020, 0x6CD5, 0x5F8B, 0x3002]))),
     (''role'', JStr ''user'')]"

definition round_stage :: "nat \<Rightarrow> string" where
  "round_stage round = (utf8 [0x6B63, 0x5728, 0x5206, 0x6790, 0x4E0E, 0x68C0, 0x7D22, 0xFF08, 0x7B2C, 0x20]) @ decimal (round + 1) @ (utf8 [0x20, 0x8F6E, 0xFF09])"

definition pause_run :: "ai_run \<Rightarrow> unit rop" where
  "pause_run r = op_bind (save_run_progress (r\<lparr>ru_status := ''paused'', ru_error_code := None\<rparr>) (utf8 [0x5DF2, 0x8FBE, 0x5230, 0x672C, 0x8F6E, 0x68C0, 0x7D22, 0x4E0A, 0x9650, 0xFF0C, 0x53EF, 0x7EE7, 0x7EED]))
     (\<lambda>_. op_return ())"

definition complete_run :: "run_env \<Rightarrow> ai_run \<Rightarrow> ai_selection \<Rightarrow> nat \<Rightarrow> unit rop" where
  "complete_run R r sel token =
     op_bind (validate_run_bindings R r) (\<lambda>_. op_bind (run_unless_cancelled token) (\<lambda>_.
     let r = r\<lparr>ru_status := ''completed'', ru_error_code := None\<rparr>;
         r = r\<lparr>ru_citation_verification := map_option (verified_now R r) (ru_citation_verification r)\<rparr> in
     op_bind (save_run_progress r (utf8 [0x5DF2, 0x5B8C, 0x6210, 0x5E76, 0x4FDD, 0x5B58])) (\<lambda>r.
     if ru_kind r = ''chat'' then finish_ai_chat R r sel token else op_return ())))"

definition MAX_ROUNDS :: nat where "MAX_ROUNDS = 8"
definition MAX_CALLS :: nat where "MAX_CALLS = 24"

fun run_rounds :: "run_env \<Rightarrow> ai_selection \<Rightarrow> nat \<Rightarrow> nat \<Rightarrow> nat \<Rightarrow> nat \<Rightarrow> nat \<Rightarrow> ai_run \<times> tool_cache \<Rightarrow> unit rop" where
  "run_rounds R sel token 0 round calls repairs st = pause_run (fst st)"
| "run_rounds R sel token (Suc left) round calls repairs st =
     op_bind (validate_run_bindings R (fst st)) (\<lambda>_.
     op_bind (save_run_progress (fst st) (round_stage round)) (\<lambda>r.
     op_bind (ask_model R r sel token) (\<lambda>(message, r).
     case as_array (json_index message ''tool_calls'') of
       Some (c # cs) \<Rightarrow>
         (if MAX_CALLS < length (c # cs) \<or> MAX_CALLS < calls + length (c # cs)
          then pause_run (r\<lparr>ru_messages := repair_interrupted_tool_results (ru_messages r)\<rparr>)
          else op_bind (run_calls R token (c # cs) (r, snd st)) (\<lambda>st.
            run_rounds R sel token left (round + 1) (calls + length (c # cs)) repairs st))
     | _ \<Rightarrow> op_bind (run_gap R 11) (\<lambda>_.
         case finalize_ai_answer R r (content_of message) of
           Inr r \<Rightarrow> complete_run R r sel token
         | Inl e \<Rightarrow> if repairs < 2
             then run_rounds R sel token left (round + 1) calls (repairs + 1)
               (r\<lparr>ru_messages := ru_messages r @ [repair_request e]\<rparr>, snd st)
             else op_fail e))))"

definition execute_ai_run :: "run_env \<Rightarrow> ai_run \<Rightarrow> nat \<Rightarrow> unit rop" where
  "execute_ai_run R r token =
     op_bind (run_gap R 12) (\<lambda>_.
     op_bind (save_run_progress (r\<lparr>ru_status := ''running''\<rparr>) (utf8 [0x6B63, 0x5728, 0x8BFB, 0x53D6, 0x6750, 0x6599])) (\<lambda>r.
     let sel = selection_of r in
     op_bind (if ru_messages r \<noteq> [] then op_return r
       else op_bind (initial_ai_messages R r sel token) (\<lambda>r. save_run_progress r (utf8 [0x4E0A, 0x4E0B, 0x6587, 0x5DF2, 0x51C6, 0x5907]))) (\<lambda>r.
     run_rounds R sel token MAX_ROUNDS 0 0 0 (r\<lparr>ru_messages := repair_interrupted_tool_results (ru_messages r)\<rparr>, []))))"

text \<open>The task around it: the permit, the outcome of a run that failed, and the end of its token.\<close>

definition run_task :: "run_env \<Rightarrow> ai_run \<Rightarrow> nat \<Rightarrow> unit rop" where
  "run_task R r token =
     op_bind (op_attempt (op_bind rx_io (\<lambda>_. execute_ai_run R r token))) (\<lambda>result.
     op_bind (case result of Inr _ \<Rightarrow> op_return ()
       | Inl e \<Rightarrow> op_bind (op_attempt (finish_ai_run_error_if_active (ru_id r) e)) (\<lambda>(_ :: error + unit). op_return ())) (\<lambda>_.
     op_modify (\<lambda>s. if v_poisoned (rx_ai s) then s else s\<lparr>rx_cancellations := om_remove (ru_id r) (rx_cancellations s)\<rparr>)))"

end
