(* ===== verification/Run_Requests.thy ===== *)
theory Run_Requests imports Run_Loop Redaction_Trust begin

text \<open>
  What holds of the requests of a run. The loop is gone through once, in a locale that says what an
  invariant of a run must survive: operations that leave the settings alone, the other handlers,
  and a request that is permitted and whose transcript answers every call.
\<close>

section \<open>Transcripts\<close>

text \<open>Every call of a message is answered by a later one.\<close>

fun transcript_answered :: "json list \<Rightarrow> bool" where
  "transcript_answered [] \<longleftrightarrow> True"
| "transcript_answered (m # ms) \<longleftrightarrow> (case calls_of m of None \<Rightarrow> True
     | Some calls \<Rightarrow> list_all (\<lambda>i. Some i \<in> set (map answer_to ms)) (call_ids calls)) \<and> transcript_answered ms"

text \<open>The same but for the last message with calls.\<close>

fun resumable :: "json list \<Rightarrow> bool" where
  "resumable [] \<longleftrightarrow> True"
| "resumable (m # ms) \<longleftrightarrow> (case calls_of m of None \<Rightarrow> True
     | Some calls \<Rightarrow> last_calls ms \<noteq> None \<longrightarrow> list_all (\<lambda>i. Some i \<in> set (map answer_to ms)) (call_ids calls)) \<and> resumable ms"

definition no_calls :: "json list \<Rightarrow> bool" where
  "no_calls ms \<longleftrightarrow> list_all (\<lambda>m. calls_of m = None) ms"

lemma no_calls_simps [simp]: "no_calls []" "no_calls (m # ms) \<longleftrightarrow> calls_of m = None \<and> no_calls ms"
  "no_calls (ms @ ns) \<longleftrightarrow> no_calls ms \<and> no_calls ns"
  by (simp_all add: no_calls_def)

lemma no_calls_answered: "no_calls ms \<Longrightarrow> transcript_answered ms"
  by (induction ms) auto

lemma tool_message_facts [simp]: "calls_of (tool_message i x) = None" "answer_to (tool_message i x) = as_str i"
  by (simp_all add: calls_of_def answer_to_def tool_message_def json_index_def json_get_def as_str_def)

lemma answered_append: "transcript_answered ms \<Longrightarrow> no_calls ns \<Longrightarrow> transcript_answered (ms @ ns)"
  by (induction ms) (auto simp: no_calls_answered list_all_iff split: option.splits)

lemma answered_calls:
  assumes "transcript_answered ms" "no_calls ts"
    and "case calls_of m of None \<Rightarrow> True | Some calls \<Rightarrow> \<forall>i \<in> set (call_ids calls). Some i \<in> set (map answer_to ts)"
  shows "transcript_answered (ms @ m # ts)"
  using assms(1)
proof (induction ms)
  case Nil
  then show ?case using assms(2,3) by (auto simp: no_calls_answered list_all_iff split: option.splits)
next
  case (Cons n ms)
  then show ?case by (auto simp: list_all_iff split: option.splits)
qed

lemma last_calls_None: "last_calls ms = None \<longleftrightarrow> no_calls ms"
  by (induction ms) (auto split: option.splits)

lemma repair_answers: "resumable ms \<Longrightarrow> transcript_answered (repair_interrupted_tool_results ms)"
proof -
  have general: "resumable ms \<Longrightarrow> last_calls ms = Some (calls, later) \<Longrightarrow> no_calls ts \<Longrightarrow>
      \<forall>i \<in> set (call_ids calls). Some i \<in> set (map answer_to (later @ ts)) \<Longrightarrow> transcript_answered (ms @ ts)" for calls later ts
  proof (induction ms)
    case (Cons m ms)
    show ?case
    proof (cases "last_calls ms")
      case None
      with Cons.prems have "calls_of m = Some calls" "later = ms" "no_calls ms" by (auto simp: last_calls_None split: option.splits)
      with Cons.prems show ?thesis by (auto simp: list_all_iff no_calls_answered)
    next
      case (Some x)
      with Cons.prems have "last_calls ms = Some (calls, later)" by simp
      with Cons show ?thesis by (auto simp: list_all_iff split: option.splits)
    qed
  qed simp
  assume res: "resumable ms"
  show ?thesis
  proof (cases "last_calls ms")
    case None
    then have "no_calls ms" by (simp add: last_calls_None)
    then show ?thesis using None by (simp add: repair_interrupted_tool_results_def no_calls_answered)
  next
    case (Some x)
    obtain calls later where x: "x = (calls, later)" by force
    let ?ts = "map (\<lambda>i. tool_message (JStr i) INTERRUPTED) (filter (\<lambda>i. Some i \<notin> set (map answer_to later)) (call_ids calls))"
    have "no_calls ?ts" by (simp add: no_calls_def list_all_iff)
    moreover have "\<forall>i \<in> set (call_ids calls). Some i \<in> set (map answer_to (later @ ?ts))"
      by (force simp: as_str_def image_iff)
    ultimately have "transcript_answered (ms @ ?ts)" by (rule general[OF res Some[unfolded x]])
    then show ?thesis by (simp only: repair_interrupted_tool_results_def Some x option.case prod.case)
  qed
qed

text \<open>What a request needs: nothing where only the trust is followed, and otherwise that every call has its answer.\<close>

definition sendable :: "bool \<Rightarrow> json list \<Rightarrow> bool" where
  "sendable raw ms \<longleftrightarrow> raw \<or> transcript_answered ms"

lemma sendable_plain: "no_calls ms \<Longrightarrow> sendable raw ms"
  by (simp add: sendable_def no_calls_answered)

lemma sendable_calls:
  assumes "sendable raw ms" "no_calls ts"
    and "case calls_of m of None \<Rightarrow> True | Some calls \<Rightarrow> \<forall>i \<in> set (call_ids calls). Some i \<in> set (map answer_to ts)"
  shows "sendable raw (ms @ m # ts)"
  using assms answered_calls[of ms ts m] by (auto simp: sendable_def)

lemma sendable_repair: "raw \<or> resumable ms \<Longrightarrow> sendable raw (repair_interrupted_tool_results ms)"
  by (auto simp: sendable_def repair_answers)

section \<open>Operations that leave the settings alone\<close>

definition settings_are :: "settings_view \<Rightarrow> run_ws \<Rightarrow> bool" where
  "settings_are x s \<longleftrightarrow> view_is x (rx_ai s)"

definition quiet :: "'a rop \<Rightarrow> bool" where
  "quiet m \<longleftrightarrow> (\<forall>x. preserves (settings_are x) m)"

lemma quiet_bind: "quiet m \<Longrightarrow> (\<And>a. quiet (f a)) \<Longrightarrow> quiet (op_bind m f)"
  by (simp add: quiet_def preserves_bind)

lemma quiet_each: "(\<And>x. quiet (f x)) \<Longrightarrow> quiet (op_each f xs)"
  by (simp add: quiet_def preserves_each)

lemma quiet_op_map: "(\<And>x. quiet (f x)) \<Longrightarrow> quiet (op_map f xs)"
  by (simp add: quiet_def preserves_map)

lemma quiet_map_err: "quiet m \<Longrightarrow> quiet (op_map_err g m)"
  by (simp add: quiet_def preserves_map_err)

lemma quiet_attempt: "quiet m \<Longrightarrow> quiet (op_attempt m)"
  by (simp add: quiet_def preserves_attempt)

lemma quiet_if: "quiet m \<Longrightarrow> quiet n \<Longrightarrow> quiet (if b then m else n)"
  by simp

lemma quiet_option: "quiet m \<Longrightarrow> (\<And>a. quiet (f a)) \<Longrightarrow> quiet (case x of None \<Rightarrow> m | Some a \<Rightarrow> f a)"
  by (cases x) auto

lemma quiet_sum: "(\<And>a. quiet (f a)) \<Longrightarrow> (\<And>a. quiet (g a)) \<Longrightarrow> quiet (case x of Inl a \<Rightarrow> f a | Inr a \<Rightarrow> g a)"
  by (cases x) auto

lemma quiet_basic [simp]: "quiet (op_return a)" "quiet (op_fail e)" "quiet (op_lift r)" "quiet (op_get g)"
  by (simp_all add: quiet_def)

lemma quiet_in_ai: "(\<And>x. preserves (view_is x) m) \<Longrightarrow> quiet (in_ai m)"
  by (auto simp: quiet_def in_ai_def preserves_def settings_are_def split: prod.split) (metis snd_conv)

lemma quiet_lifts: "quiet (in_ws m)" "quiet (in_ledger l)" "quiet rx_io" "quiet rx_lock" "quiet (rx_require b e)"
  "quiet (rx_encode row)" "quiet (rx_fetch_maybe table i)" "quiet (rx_fetch table i)" "quiet rx_now"
proof -
  show io: "quiet rx_io" "quiet (in_ws m)" "quiet (in_ledger l)"
    by (auto simp: quiet_def preserves_def settings_are_def rx_io_def in_ws_def in_ledger_def split: list.split option.split prod.split)
  then show "quiet rx_lock" "quiet (rx_require b e)" "quiet (rx_encode row)" "quiet (rx_fetch_maybe table i)" "quiet (rx_fetch table i)"
    by (simp_all add: rx_lock_def rx_require_def rx_encode_def rx_fetch_maybe_def rx_fetch_def quiet_bind)
  show "quiet rx_now" unfolding rx_now_def by (intro quiet_in_ai preserves_view_io)
qed

lemma quiet_save: "quiet (rx_put_rows rows)" "quiet (rx_save row)"
proof -
  have "rx_ai (fold apply_run_row rows s) = rx_ai s" for rows s
  proof (induction rows arbitrary: s)
    case (Cons row rows)
    then show ?case by (cases row) simp_all
  qed simp
  then have "quiet (op_modify (fold apply_run_row rows))" for rows
    by (auto simp: quiet_def settings_are_def intro: preserves_modify)
  then show put: "quiet (rx_put_rows rows)" for rows
    unfolding rx_put_rows_def by (intro quiet_bind quiet_lifts)
  show "quiet (rx_save row)"
    unfolding rx_save_def by (intro quiet_bind quiet_lifts put)
qed

lemmas quiet_intros = quiet_bind quiet_each quiet_op_map quiet_map_err quiet_attempt quiet_if quiet_option quiet_sum quiet_basic
  quiet_lifts quiet_save

lemma quiet_checks:
  "quiet (require_trust sel code)" "quiet (run_unless_cancelled token)" "quiet (provider_profile_binding R sel)"
  "quiet (check_material_policy R refs ats sel)" "quiet (check_profile R r)" "quiet (validate_run_bindings_locked R r)" "quiet (ensure_run_active_locked r)"
  "quiet (validate_run_bindings R r)" "quiet (save_run_progress r stage)" "quiet (pause_run r)"
proof -
  show trust: "quiet (require_trust sel code)" for sel code
    unfolding require_trust_def by (intro quiet_intros quiet_in_ai preserves_view_dispatch)
  show "quiet (run_unless_cancelled token)"
    unfolding run_unless_cancelled_def by (intro quiet_intros quiet_in_ai preserves_view_dispatch)
  show binding: "quiet (provider_profile_binding R sel)" for R sel
    unfolding provider_profile_binding_def by (auto intro!: quiet_intros quiet_in_ai preserves_view_io)
  show profile: "quiet (check_profile R r)" for R r
    unfolding check_profile_def by (intro quiet_intros binding)
  show policy: "quiet (check_material_policy R refs ats sel)" for R refs ats sel
    unfolding check_material_policy_def check_material_def by (intro quiet_intros trust)
  show locked: "quiet (validate_run_bindings_locked R r)" for R r
    unfolding validate_run_bindings_locked_def check_original_def check_binding_def
    by (auto intro!: quiet_intros policy profile)
  show active: "quiet (ensure_run_active_locked r)" for r
    unfolding ensure_run_active_locked_def by (intro quiet_intros)
  show "quiet (validate_run_bindings R r)"
    unfolding validate_run_bindings_def by (intro quiet_intros active locked)
  show save: "quiet (save_run_progress r stage)" for r stage
    unfolding save_run_progress_def Let_def by (intro quiet_intros active)
  show "quiet (pause_run r)"
    unfolding pause_run_def by (intro quiet_intros save)
qed

section \<open>The loop, once\<close>

lemma hoare_values:
  assumes "hoare P m (\<lambda>a s. V a \<and> Q a s) E" "\<And>a. V a \<Longrightarrow> hoare (Q a) (f a) Q' E"
  shows "hoare P (op_bind m f) Q' E"
proof (rule hoareI)
  fix s e t assume P: "P s" and "op_bind m f s = (Inl e, t)"
  then show "E e t"
    by (elim op_bind_cases) (use hoare_err[OF assms(1) P] hoare_ok[OF assms(1) P] assms(2) hoare_err in \<open>metis Inl_Inr_False Inl_inject\<close>)+
next
  fix s a t assume P: "P s" and "op_bind m f s = (Inr a, t)"
  then show "Q' a t"
    by (elim op_bind_cases) (use hoare_ok[OF assms(1) P] assms(2) hoare_ok in \<open>metis Inl_Inr_False\<close>)+
qed

lemma hoare_if: "hoare P m Q E \<Longrightarrow> hoare P n Q E \<Longrightarrow> hoare P (if b then m else n) Q E"
  by simp

lemma require_trust_trust: "require_trust sel code s = (Inr u, t) \<Longrightarrow> trusted_now (rx_ai s) (sel_provider_id sel)"
  unfolding require_trust_def ai_provider_is_trusted_def rx_require_def in_ai_def
  by (auto elim!: op_bind_cases simp: ensure_def dest!: ai_config_trust split: if_splits prod.splits)

lemma quiet_view: "quiet m \<Longrightarrow> m s = (r, t) \<Longrightarrow> settings_view (rx_ai t) = settings_view (rx_ai s)"
  unfolding quiet_def by (metis preservesD settings_are_def view_is_def)

lemma policy_trust:
  assumes "check_material_policy R refs ats sel s = (Inr u, t)" "ats \<noteq> [] \<or> list_ex (\<lambda>m. mr_source m = ''original'') refs"
  shows "trusted_now (rx_ai s) (sel_provider_id sel)"
proof -
  have each: "trusted_now (rx_ai s) (sel_provider_id sel)"
    if "op_each (check_material R sel) refs s = (Inr (), v)" "list_ex (\<lambda>m. mr_source m = ''original'') refs" for v
    using that
  proof (induction refs arbitrary: s)
    case (Cons m ms)
    from Cons.prems(1) obtain w where first: "check_material R sel m s = (Inr (), w)" and rest: "op_each (check_material R sel) ms w = (Inr (), v)"
      by (auto elim!: op_bind_cases)
    have "quiet (check_material R sel m)"
      unfolding check_material_def by (intro quiet_intros quiet_checks)
    then have view: "settings_view (rx_ai w) = settings_view (rx_ai s)" using first by (rule quiet_view)
    show ?case
    proof (cases "mr_source m = ''original''")
      case True
      with first obtain x a b where one: "in_ws (material (mr_id m)) s = (Inr x, a)"
        and two: "rx_require (m_status x \<noteq> ''revoked'') (error_new ''material_revoked'') a = (Inr (), b)"
        and three: "require_trust sel ''original_material_requires_trusted_provider'' b = (Inr (), w)"
        unfolding check_material_def by (auto elim!: op_bind_cases)
      from quiet_view[OF quiet_lifts(1) one] quiet_view[OF quiet_lifts(5) two]
      have "settings_view (rx_ai b) = settings_view (rx_ai s)" by simp
      from trusted_now_view[OF this] require_trust_trust[OF three] show ?thesis by simp
    next
      case False
      with Cons.prems(2) Cons.IH[OF rest] trusted_now_view[OF view] show ?thesis by simp
    qed
  qed simp
  have quiet: "quiet (op_each (check_material R sel) refs)"
    unfolding check_material_def by (intro quiet_intros quiet_checks)
  from assms(1) obtain v where v: "op_each (check_material R sel) refs s = (Inr (), v)"
    and last: "(if ats \<noteq> [] then require_trust sel ''attachment_requires_trusted_provider'' else op_return ()) v = (Inr u, t)"
    unfolding check_material_policy_def by (auto elim!: op_bind_cases)
  show ?thesis
  proof (cases "ats = []")
    case True
    with each[OF v] assms(2) show ?thesis by simp
  next
    case False
    with last have "trusted_now (rx_ai v) (sel_provider_id sel)" using require_trust_trust by simp
    with trusted_now_view[OF quiet_view[OF quiet v]] show ?thesis by simp
  qed
qed

lemma validated_trust:
  assumes "validate_run_bindings R r s = (Inr u, t)" "raw_context_requested (ru_request r)"
  shows "trusted_now (rx_ai s) (ru_provider_id r)"
proof -
  from assms(1) obtain a b where policy: "check_material_policy R (rq_materials (ru_request r)) (rq_attachment_ids (ru_request r)) (selection_of r) a = (Inr (), b)"
    and view: "settings_view (rx_ai a) = settings_view (rx_ai s)"
  proof -
    from assms(1) obtain s1 s2 where one: "rx_lock s = (Inr (), s1)" and two: "ensure_run_active_locked r s1 = (Inr (), s2)"
      and locked: "validate_run_bindings_locked R r s2 = (Inr u, t)"
      unfolding validate_run_bindings_def by (auto elim!: op_bind_cases)
    from locked obtain s3 s4 s5 q where three: "rx_require q (error_new ''ai_run_reauthorization_required'') s2 = (Inr (), s3)"
      and four: "check_profile R r s3 = (Inr (), s4)"
      and policy: "check_material_policy R (rq_materials (ru_request r)) (rq_attachment_ids (ru_request r)) (selection_of r) s4 = (Inr (), s5)"
      unfolding validate_run_bindings_locked_def by (elim op_bind_cases) auto
    have "settings_view (rx_ai s4) = settings_view (rx_ai s)"
      using quiet_view[OF quiet_lifts(4) one] quiet_view[OF quiet_checks(7) two] quiet_view[OF quiet_lifts(5) three]
        quiet_view[OF quiet_checks(5) four] by simp
    with policy show thesis by (rule that)
  qed
  from policy_trust[OF policy] assms(2) trusted_now_view[OF view] show ?thesis
    by (auto simp: raw_context_requested_def selection_of_def)
qed

text \<open>\<open>raw\<close> is whether the run uses original text; then it may only send while the provider is trusted.\<close>

locale run_requests =
  fixes R :: run_env and token :: nat and raw :: bool
    and I :: "run_ws \<Rightarrow> bool" and T :: "string \<Rightarrow> run_ws \<Rightarrow> bool"
  assumes frame: "settings_view (rx_ai t) = settings_view (rx_ai s) \<Longrightarrow> I s \<Longrightarrow> I t"
    and frame_T: "settings_view (rx_ai t) = settings_view (rx_ai s) \<Longrightarrow> T i s \<Longrightarrow> T i t"
    and gap: "I s \<Longrightarrow> I (re_gap R k s)"
    and gap_T: "T i s \<Longrightarrow> T i (re_gap R k s)"
    and sender: "T i s \<Longrightarrow> I s"
    and may_send: "I s \<Longrightarrow> raw \<longrightarrow> trusted_now (rx_ai s) i \<Longrightarrow> T i s"
    and send: "sendable raw ms \<Longrightarrow> T (sel_provider_id sel) s \<Longrightarrow>
      in_ai (ai_complete_budgeted (re_ai R) sel (JArr ms) tools response_format purpose binding n token) s = (res, t) \<Longrightarrow>
      T (sel_provider_id sel) t"
begin

lemma quiet_I: "quiet m \<Longrightarrow> preserves I m"
  by (rule preservesI) (blast dest: quiet_view intro: frame)

lemma quiet_T: "quiet m \<Longrightarrow> preserves (T i) m"
  by (rule preservesI) (blast dest: quiet_view intro: frame_T)

lemma gap_I: "preserves I (run_gap R k)"
  by (auto simp: run_gap_def intro: preserves_modify gap)

lemma gap_keeps_T: "preserves (T i) (run_gap R k)"
  by (auto simp: run_gap_def intro: preserves_modify gap_T)

lemma send_T: "sendable raw ms \<Longrightarrow> preserves (T (sel_provider_id sel))
    (in_ai (ai_complete_budgeted (re_ai R) sel (JArr ms) tools response_format purpose binding n token))"
  by (rule preservesI) (rule send)

lemma weaken_T: "preserves (T i) m \<Longrightarrow> hoare (T i) m (\<lambda>_. I) (\<lambda>_. I)"
  by (auto simp: preserves_iff_hoare intro: sender elim!: hoare_weaken)

lemma trusted_first:
  assumes "hoare (T (sel_provider_id sel)) m (\<lambda>_. I) (\<lambda>_. I)"
  shows "preserves I (op_bind (require_trust sel code) (\<lambda>_. m))"
proof (rule preservesI)
  fix s r t assume s: "I s" and "op_bind (require_trust sel code) (\<lambda>_. m) s = (r, t)"
  then show "I t"
  proof (elim op_bind_cases)
    fix e assume "require_trust sel code s = (Inl e, t)"
    then show "I t" using preservesD[OF quiet_I[OF quiet_checks(1)] s] by blast
  next
    fix u v assume trust: "require_trust sel code s = (Inr u, v)" and m: "m v = (r, t)"
    have "T (sel_provider_id sel) s" using may_send[OF s] require_trust_trust[OF trust] by blast
    then have "T (sel_provider_id sel) v" using preservesD[OF quiet_T[OF quiet_checks(1)] _ trust] by blast
    then show "I t" using m by (cases r) (auto dest: hoare_ok[OF assms] hoare_err[OF assms])
  qed
qed

lemmas keeps = preserves_bind preserves_map preserves_each preserves_if preserves_option preserves_sum preserves_basic
  preserves_attempt gap_I

lemmas quiet_keeps_I = quiet_lifts[THEN quiet_I] quiet_save[THEN quiet_I] quiet_checks[THEN quiet_I]

subsection \<open>Reading pages\<close>

lemma ask_page:
  assumes "no_calls ms"
  shows "hoare (T (sel_provider_id sel)) (in_ai (ai_complete (re_ai R) sel (JArr ms) tools response_format purpose binding token))
    (\<lambda>_. I) (\<lambda>_. I)"
  unfolding ai_complete_def by (intro weaken_T send_T sendable_plain assms)

lemma ocr_attempts_I:
  assumes "messages = JArr ms" "no_calls ms"
  shows "preserves I (ocr_attempts R sel messages binding token left attempt last_invalid)"
  using assms(1)
proof (induction left arbitrary: attempt last_invalid)
  case (Suc left)
  have hint: "append_ocr_retry_hint (JArr ms) = JArr (if ms = [] then [] else butlast ms @ [with_hint (last ms)])"
    by (simp add: append_ocr_retry_hint_def)
  have same: "json_index (with_hint m) k = json_index m k" if "k \<noteq> ''content''" for m k
    using that by (auto simp: with_hint_def json_index_def json_get_def split: json.split option.split)
  have "calls_of (with_hint m) = calls_of m" for m
    by (simp add: calls_of_def same)
  then have hinted: "no_calls (if ms = [] then [] else butlast ms @ [with_hint (last ms)])"
    using assms(2) by (cases ms rule: rev_cases) simp_all
  have ask: "hoare (T (sel_provider_id sel)) (in_ai (ai_complete (re_ai R) sel (if 0 < attempt then append_ocr_retry_hint messages
      else messages) None format OCR_PURPOSE binding token)) (\<lambda>_. I) (\<lambda>_. I)" for format
  proof -
    obtain ns where ns: "(if 0 < attempt then append_ocr_retry_hint messages else messages) = JArr ns" "no_calls ns"
      using hinted assms(2) hint Suc.prems by (cases "0 < attempt") auto
    show ?thesis unfolding ns(1) by (rule ask_page[OF ns(2)])
  qed
  show ?case
    unfolding ocr_attempts.simps Let_def
    by (intro preserves_bind[OF quiet_keeps_I(13)] trusted_first hoare_bind[OF ask], fold preserves_iff_hoare)
      (intro keeps Suc)
qed simp

lemma ocr_messages_plain: "\<exists>ms. ocr_messages E asset = JArr ms \<and> no_calls ms"
  by (cases asset) (simp add: ocr_messages_def calls_of_def json_index_def json_get_def as_str_def)

lemma release_I: "preserves I (release_page v)"
  by (rule quiet_I) (auto simp: release_page_def quiet_def settings_are_def intro!: preserves_option preserves_modify)

lemma page_parts_I: "preserves I (reserve_page R context asset)" "preserves I (charge_page v t)"
proof -
  show "preserves I (reserve_page R context asset)"
    by (rule quiet_I) (auto simp: reserve_page_def intro!: quiet_intros split: option.split prod.split)
  show "preserves I (charge_page v t)"
    by (rule quiet_I) (auto simp: charge_page_def intro!: quiet_intros split: option.split)
qed

lemma read_page_I: "preserves I (read_page R asset sel revision source_hash token)"
proof -
  obtain ms where ms: "ocr_messages R asset = JArr ms" "no_calls ms" using ocr_messages_plain by blast
  show ?thesis
    unfolding read_page_def ocr_asset_request_def save_ocr_page_def Let_def
    by (intro keeps ocr_attempts_I[OF ms] quiet_keeps_I)
qed

lemma ocr_asset_text_I: "preserves I (ocr_asset_text R asset redaction_sel sel revision source_hash token context)"
  unfolding ocr_asset_text_def by (intro keeps quiet_keeps_I page_parts_I read_page_I release_I)

lemma ocr_configuration_I: "preserves I (ocr_configuration sel)"
  unfolding ocr_configuration_def selected_ai_model_def
  by (rule quiet_I) (auto intro!: quiet_intros quiet_checks quiet_in_ai view_intros)

lemma each_asset_I: "preserves I (each_asset R redaction_sel sel revision source_hash token context assets body)"
  by (induction assets arbitrary: body) (auto intro!: keeps ocr_asset_text_I)

lemma ocr_assets_I: "preserves I (ocr_assets R body assets redaction_sel source_bytes token context)"
  unfolding ocr_assets_def by (auto intro!: keeps quiet_keeps_I ocr_configuration_I each_asset_I split: prod.split)

lemma each_page_I: "preserves I (each_page R ocr source_hash token context pages body)"
proof (induction pages arbitrary: body)
  case (Cons page pages)
  show ?case
    unfolding each_page.simps
    by (intro keeps quiet_keeps_I) (auto intro!: keeps quiet_keeps_I ocr_asset_text_I Cons.IH split: prod.split)
qed simp

lemma extract_I: "preserves I (extract_ai_attachment_scoped R name bytes sel token context ranges)"
  unfolding extract_ai_attachment_scoped_def extract_pdf_attachment_def
  by (auto intro!: keeps quiet_keeps_I ocr_assets_I ocr_configuration_I each_page_I split: prod.split)

subsection \<open>The first messages\<close>

lemma selected_text_I: "preserves I (selected_text E key t scope)" "preserves I (labelled label t)" "preserves I (run_charge n)"
proof -
  have "quiet (run_charge n)" for n unfolding run_charge_def by (intro quiet_intros)
  then show "preserves I (selected_text E key t scope)" "preserves I (labelled label t)" "preserves I (run_charge n)"
    by (auto intro!: quiet_I quiet_intros simp: selected_text_def labelled_def)
qed

lemma fill_material_I: "preserves I (fill_material m bytes)"
  by (rule quiet_I) (auto simp: fill_material_def intro!: quiet_intros)

lemma material_part_I: "preserves I (material_part R r sel token scope reference)"
  unfolding material_part_def redacted_text_def original_text_def Let_def
  by (auto intro!: keeps quiet_keeps_I selected_text_I fill_material_I extract_I split: prod.split)

lemma attachment_part_I: "preserves I (attachment_part R sel token scope i)"
  unfolding attachment_part_def Let_def
  by (auto intro!: keeps quiet_keeps_I selected_text_I extract_I split: prod.split)

lemma initial_I: "preserves I (initial_ai_messages R r sel token)"
proof -
  have ledger: "preserves I (op_modify (\<lambda>s. s\<lparr>rx_ledger := l\<rparr>) :: unit rop)" for l
    by (rule quiet_I) (auto simp: quiet_def settings_are_def intro: preserves_modify)
  show ?thesis
    unfolding initial_ai_messages_def history_of_run_def
    by (auto intro!: keeps quiet_keeps_I selected_text_I material_part_I attachment_part_I ledger split: prod.split)
qed

end

section \<open>What the steps of a run do to it\<close>

definition same_run :: "ai_run \<Rightarrow> ai_run \<Rightarrow> bool" where
  "same_run r r' \<longleftrightarrow> ru_request r' = ru_request r \<and> selection_of r' = selection_of r"

lemma same_run_trans: "same_run r q \<Longrightarrow> same_run q p \<Longrightarrow> same_run r p"
  by (simp add: same_run_def)

lemma same_run_refl [simp]: "same_run r r"
  by (simp add: same_run_def)

lemma save_same: "save_run_progress r stage s = (Inr r', t) \<Longrightarrow> same_run r r' \<and> ru_messages r' = ru_messages r"
  unfolding save_run_progress_def Let_def by (auto elim!: op_bind_cases simp: same_run_def selection_of_def)

definition asked :: "ai_run \<Rightarrow> json \<times> ai_run \<Rightarrow> bool" where
  "asked r x \<longleftrightarrow> (case x of (m, r') \<Rightarrow> same_run r r' \<and> ru_messages r' = ru_messages r @ [m]
     \<and> as_str (json_index m ''role'') = Some ''assistant'')"

lemma json_put_role: "json_put ''role'' (JStr x) v = Inr m \<Longrightarrow> as_str (json_index m ''role'') = Some x"
  by (auto simp: json_put_def json_index_def json_get_def as_str_def split: json.splits)

lemma take_completion_asked: "take_completion E c r = Inr x \<Longrightarrow> asked r x"
  by (auto simp: take_completion_def Let_def asked_def same_run_def selection_of_def dest: json_put_role)

definition called :: "json list \<Rightarrow> ai_run \<Rightarrow> ai_run \<times> tool_cache \<Rightarrow> bool" where
  "called cs r x \<longleftrightarrow> same_run r (fst x) \<and> (\<exists>ts. ru_messages (fst x) = ru_messages r @ ts \<and> no_calls ts
     \<and> (\<forall>i \<in> set (call_ids cs). Some i \<in> set (map answer_to ts)))"

lemma run_tool_same: "run_tool E name args r s = (Inr x, t) \<Longrightarrow> same_run r (snd x) \<and> ru_messages (snd x) = ru_messages r"
  unfolding run_tool_def
  by (auto elim!: op_bind_cases simp: same_run_def selection_of_def split: option.splits sum.splits)

lemma run_call_called: "run_call E token c (r, cache) s = (Inr x, t) \<Longrightarrow> called [c] r x"
  unfolding run_call_def Let_def prod.case
  by (elim op_bind_cases; clarsimp split: option.splits elim!: op_bind_cases dest!: run_tool_same save_same
        simp: called_def same_run_def selection_of_def)
    (auto elim!: op_bind_cases dest!: run_tool_same save_same simp: same_run_def selection_of_def call_ids_def split: option.splits)

lemma run_calls_called: "run_calls E token cs st s = (Inr x, t) \<Longrightarrow> called cs (fst st) x"
proof (induction cs arbitrary: st s)
  case Nil
  then show ?case by (simp add: called_def call_ids_def)
next
  case (Cons c cs)
  from Cons.prems obtain q u where first: "run_call E token c st s = (Inr q, u)" and rest: "run_calls E token cs q u = (Inr x, t)"
    by (auto elim!: op_bind_cases)
  have ids: "set (call_ids (c # cs)) = set (call_ids [c]) \<union> set (call_ids cs)" by (auto simp: call_ids_def)
  from Cons.IH[OF rest] run_call_called[of E token c "fst st" "snd st" s q u] first show ?case
    unfolding called_def ids by (auto intro: same_run_trans simp: image_Un)
qed

definition run_ready :: "bool \<Rightarrow> ai_selection \<Rightarrow> ai_run \<Rightarrow> bool" where
  "run_ready raw sel r \<longleftrightarrow> selection_of r = sel \<and> (raw \<longrightarrow> raw_context_requested (ru_request r))"

lemma run_ready_same: "run_ready raw sel r \<Longrightarrow> same_run r r' \<Longrightarrow> run_ready raw sel r'"
  by (simp add: run_ready_def same_run_def)

lemma run_ready_provider: "run_ready raw sel r \<Longrightarrow> ru_provider_id r = sel_provider_id sel"
  by (auto simp: run_ready_def selection_of_def)

context run_requests begin

lemma validated_T:
  assumes "run_ready raw sel r"
  shows "hoare I (validate_run_bindings R r) (\<lambda>_. T (sel_provider_id sel)) (\<lambda>_. I)"
proof (rule hoareI)
  fix s e t assume "I s" "validate_run_bindings R r s = (Inl e, t)"
  then show "I t" using preservesD[OF quiet_I[OF quiet_checks(8)]] by blast
next
  fix s a t assume s: "I s" and run: "validate_run_bindings R r s = (Inr a, t)"
  have "T (sel_provider_id sel) s"
    using may_send[OF s] validated_trust[OF run] assms run_ready_provider[OF assms] by (simp add: run_ready_def)
  then show "T (sel_provider_id sel) t" using preservesD[OF quiet_T[OF quiet_checks(8)] _ run] by blast
qed

lemma values_T:
  assumes "quiet m" "\<And>s a t. m s = (Inr a, t) \<Longrightarrow> V a"
  shows "hoare (T i) m (\<lambda>a s. V a \<and> T i s) (\<lambda>_. I)"
  using assms(2) preservesD[OF quiet_T[OF assms(1)]] sender by (intro hoareI conjI) blast+

lemma values_I:
  assumes "preserves I m" "\<And>s a t. m s = (Inr a, t) \<Longrightarrow> V a"
  shows "hoare I m (\<lambda>a s. V a \<and> I s) (\<lambda>_. I)"
  using assms(2) preservesD[OF assms(1)] by (intro hoareI conjI) blast+

lemma ask_model_I:
  assumes "sendable raw (ru_messages r)"
  shows "hoare (T (sel_provider_id sel)) (ask_model R r sel token) (\<lambda>x s. asked r x \<and> I s) (\<lambda>_. I)"
proof -
  have "preserves (T (sel_provider_id sel)) (ask_model R r sel token)"
    unfolding ask_model_def
    by (intro preserves_bind preserves_basic gap_keeps_T send_T assms)
  moreover have "asked r x" if "ask_model R r sel token s = (Inr x, t)" for x s t
    using that unfolding ask_model_def by (auto elim!: op_bind_cases dest: take_completion_asked)
  ultimately show ?thesis
    using sender by (intro hoareI conjI) (blast dest: preservesD)+
qed

lemma run_call_I: "preserves I (run_call R token c st)"
  unfolding run_call_def run_tool_def Let_def
  by (auto intro!: keeps quiet_keeps_I split: prod.split)

lemma run_calls_I: "preserves I (run_calls R token cs st)"
  by (induction cs arbitrary: st) (auto intro!: keeps run_call_I)

lemma store_title_I: "preserves I (store_title cid title)"
  unfolding store_title_def by (intro keeps quiet_keeps_I)

lemma title_request_plain: "\<exists>ms. title_request r = JArr ms \<and> no_calls ms"
  by (simp add: title_request_def calls_of_def json_index_def json_get_def as_str_def)

lemma finish_chat_I: "hoare (T (sel_provider_id sel)) (finish_ai_chat R r sel token) (\<lambda>_. I) (\<lambda>_. I)"
proof -
  let ?T = "T (sel_provider_id sel)"
  obtain ms where ms: "title_request r = JArr ms" "no_calls ms" using title_request_plain by blast
  have tail: "preserves I (case result of Inl (e :: error) \<Rightarrow> op_return ()
       | Inr completion \<Rightarrow> (case as_str (json_index (co_message completion) ''content'') of
           None \<Rightarrow> op_return () | Some t \<Rightarrow> store_title cid (trim_title t)))" for result :: "error + completion" and cid
    by (intro keeps store_title_I)
  have ask: "preserves ?T (op_attempt (in_ai (ai_complete_budgeted (re_ai R) sel (title_request r) None None purpose binding n token)))"
    for purpose binding n
    unfolding ms(1) by (intro preserves_attempt send_T sendable_plain ms(2))
  have later: "hoare ?T (op_bind (op_attempt (in_ai (ai_complete_budgeted (re_ai R) sel (title_request r) None None ''title'' binding 128 token)))
      (\<lambda>result. op_bind (run_gap R 10) (\<lambda>_. case result of Inl (e :: error) \<Rightarrow> op_return ()
       | Inr completion \<Rightarrow> (case as_str (json_index (co_message completion) ''content'') of
           None \<Rightarrow> op_return () | Some t \<Rightarrow> store_title cid (trim_title t))))) (\<lambda>_. I) (\<lambda>_. I)" for binding cid
    by (rule hoare_bind[OF hoare_weaken[OF ask[unfolded preserves_iff_hoare] sender sender]])
      (auto simp: preserves_iff_hoare[symmetric] intro!: preserves_bind gap_I tail)
  have first: "preserves ?T (op_lift x)" "preserves ?T rx_lock" "preserves ?T (rx_fetch table i)" "preserves ?T rx_now"
      "preserves ?T (rx_save row)" for x table i row
    by (simp, (rule quiet_T, intro quiet_intros)+)
  note skip = hoare_then[OF first(1) _ sender] hoare_then[OF first(2) _ sender] hoare_then[OF first(3) _ sender]
    hoare_then[OF first(4) _ sender] hoare_then[OF first(5) _ sender] hoare_then[OF gap_keeps_T _ sender]
  have idle: "hoare ?T (op_return () :: unit rop) (\<lambda>_. I) (\<lambda>_. I)" by (rule weaken_T) simp
  show ?thesis
    unfolding finish_ai_chat_def Let_def
    by (intro skip hoare_if idle later)
qed

subsection \<open>The rounds\<close>

lemma complete_run_I:
  assumes "run_ready raw sel r"
  shows "preserves I (complete_run R r sel token)"
proof -
  have saved: "hoare (T (sel_provider_id sel)) (save_run_progress q stage) (\<lambda>q' s. True \<and> T (sel_provider_id sel) s) (\<lambda>_. I)" for q stage
    by (rule values_T[OF quiet_checks(9)]) simp
  have idle: "hoare (T (sel_provider_id sel)) (op_return () :: unit rop) (\<lambda>_. I) (\<lambda>_. I)" by (rule weaken_T) simp
  have unfired: "hoare (T (sel_provider_id sel)) (run_unless_cancelled token) (\<lambda>q' s. True \<and> T (sel_provider_id sel) s) (\<lambda>_. I)"
    by (rule values_T[OF quiet_checks(2)]) simp
  show ?thesis
    unfolding complete_run_def Let_def preserves_iff_hoare
    by (intro hoare_bind[OF validated_T[OF assms]] hoare_values[OF unfired] hoare_values[OF saved] hoare_if finish_chat_I idle)
qed

lemma pause_I: "preserves I (pause_run r)"
  by (rule quiet_keeps_I)

lemma run_rounds_I:
  assumes "run_ready raw sel (fst st)" "sendable raw (ru_messages (fst st))"
  shows "preserves I (run_rounds R sel token left round calls repairs st)"
  using assms
proof (induction left arbitrary: round calls repairs st)
  case 0
  then show ?case by (simp add: pause_I)
next
  case (Suc left)
  let ?i = "sel_provider_id sel"
  have saved: "hoare (T ?i) (save_run_progress (fst st) stage)
      (\<lambda>r s. (same_run (fst st) r \<and> ru_messages r = ru_messages (fst st)) \<and> T ?i s) (\<lambda>_. I)" for stage
    by (rule values_T[OF quiet_checks(9)]) (rule save_same)
  have rest: "preserves I (case as_array (json_index m ''tool_calls'') of
       Some (c # cs) \<Rightarrow>
         (if MAX_CALLS < length (c # cs) \<or> MAX_CALLS < calls + length (c # cs)
          then pause_run (r\<lparr>ru_messages := repair_interrupted_tool_results (ru_messages r)\<rparr>)
          else op_bind (run_calls R token (c # cs) (r, snd st)) (\<lambda>st.
            run_rounds R sel token left (round + 1) (calls + length (c # cs)) repairs st))
     | _ \<Rightarrow> op_bind (run_gap R 11) (\<lambda>_.
         case finalize_ai_answer R r (content_of m) of
           Inr r \<Rightarrow> complete_run R r sel token
         | Inl e \<Rightarrow> if repairs < 2
             then run_rounds R sel token left (round + 1) calls (repairs + 1)
               (r\<lparr>ru_messages := ru_messages r @ [repair_request e]\<rparr>, snd st)
             else op_fail e))"
    if asked: "asked q (m, r)" and q: "same_run (fst st) q" "ru_messages q = ru_messages (fst st)" for q m r
  proof -
    have r: "run_ready raw sel r" and messages: "ru_messages r = ru_messages (fst st) @ [m]"
      and role: "as_str (json_index m ''role'') = Some ''assistant''"
      using asked q run_ready_same[OF Suc.prems(1)] by (auto simp: asked_def intro: same_run_trans)
    have calls: "preserves I (op_bind (run_calls R token (c # cs) (r, snd st)) (\<lambda>st.
            run_rounds R sel token left (round + 1) (calls + length (c # cs)) repairs st))"
      if "as_array (json_index m ''tool_calls'') = Some (c # cs)" for c cs
    proof -
      have "hoare I (run_calls R token (c # cs) (r, snd st)) (\<lambda>x s. called (c # cs) r x \<and> I s) (\<lambda>_. I)"
        by (rule values_I[OF run_calls_I]) (use run_calls_called in fastforce)
      moreover have "preserves I (run_rounds R sel token left (round + 1) (calls + length (c # cs)) repairs x)"
        if "called (c # cs) r x" for x
      proof (rule Suc.IH)
        from that obtain ts where ts: "same_run r (fst x)" "ru_messages (fst x) = ru_messages (fst st) @ m # ts" "no_calls ts"
          "\<forall>i \<in> set (call_ids (c # cs)). Some i \<in> set (map answer_to ts)"
          by (auto simp: called_def messages)
        show "run_ready raw sel (fst x)" by (rule run_ready_same[OF r ts(1)])
        show "sendable raw (ru_messages (fst x))"
          unfolding ts(2) by (rule sendable_calls[OF Suc.prems(2) ts(3)])
            (use ts(4) that \<open>as_array (json_index m ''tool_calls'') = Some (c # cs)\<close> role in \<open>simp add: calls_of_def\<close>)
      qed
      ultimately show ?thesis
        unfolding preserves_iff_hoare by (rule hoare_values)
    qed
    have answer: "preserves I (op_bind (run_gap R 11) (\<lambda>_.
         case finalize_ai_answer R r (content_of m) of
           Inr r \<Rightarrow> complete_run R r sel token
         | Inl e \<Rightarrow> if repairs < 2
             then run_rounds R sel token left (round + 1) calls (repairs + 1)
               (r\<lparr>ru_messages := ru_messages r @ [repair_request e]\<rparr>, snd st)
             else op_fail e))"
      if none: "case as_array (json_index m ''tool_calls'') of Some (c # cs) \<Rightarrow> False | _ \<Rightarrow> True"
    proof -
      have ready: "run_ready raw sel r'" if "finalize_ai_answer R r t = Inr r'" for r' t
        by (rule run_ready_same[OF r])
          (use that in \<open>auto simp: finalize_ai_answer_def Let_def same_run_def selection_of_def split: prod.splits\<close>)
      have "call_ids [] = []" by (simp add: call_ids_def)
      then have "sendable raw (ru_messages (fst st) @ m # [repair_request e])" for e
        by (intro sendable_calls Suc.prems(2))
          (use none in \<open>auto simp: calls_of_def repair_request_def json_index_def json_get_def as_str_def as_array_def
            split: option.splits list.splits\<close>)
      then have "preserves I (run_rounds R sel token left (round + 1) calls (repairs + 1)
               (r\<lparr>ru_messages := ru_messages r @ [repair_request e]\<rparr>, snd st))" for e
        by (intro Suc.IH) (use r in \<open>simp_all add: messages run_ready_def selection_of_def\<close>)
      with ready show ?thesis
        by (intro keeps) (auto intro: complete_run_I)
    qed
    show ?thesis
      using calls answer pause_I by (auto split: option.split list.split intro: preserves_if simp del: run_calls.simps)
  qed
  have step: "hoare (T ?i) (op_bind (ask_model R q sel token) (\<lambda>(m, r). case as_array (json_index m ''tool_calls'') of
       Some (c # cs) \<Rightarrow>
         (if MAX_CALLS < length (c # cs) \<or> MAX_CALLS < calls + length (c # cs)
          then pause_run (r\<lparr>ru_messages := repair_interrupted_tool_results (ru_messages r)\<rparr>)
          else op_bind (run_calls R token (c # cs) (r, snd st)) (\<lambda>st.
            run_rounds R sel token left (round + 1) (calls + length (c # cs)) repairs st))
     | _ \<Rightarrow> op_bind (run_gap R 11) (\<lambda>_.
         case finalize_ai_answer R r (content_of m) of
           Inr r \<Rightarrow> complete_run R r sel token
         | Inl e \<Rightarrow> if repairs < 2
             then run_rounds R sel token left (round + 1) calls (repairs + 1)
               (r\<lparr>ru_messages := ru_messages r @ [repair_request e]\<rparr>, snd st)
             else op_fail e))) (\<lambda>_. I) (\<lambda>_. I)"
    if q: "same_run (fst st) q \<and> ru_messages q = ru_messages (fst st)" for q
  proof (rule hoare_values[OF ask_model_I], goal_cases)
    case 1
    with q Suc.prems(2) show ?case by simp
  next
    case (2 x)
    then show ?case
      using rest[of q "fst x" "snd x"] q unfolding preserves_iff_hoare by (simp add: split_beta)
  qed
  show ?case
    unfolding run_rounds.simps preserves_iff_hoare
    by (intro hoare_bind[OF validated_T[OF Suc.prems(1)]] hoare_values[OF saved] step)
qed

end

lemma history_plain: "no_calls (concat (map (map history_message \<circ> snd) groups))"
  by (auto simp: no_calls_def list_all_iff history_message_def calls_of_def json_index_def json_get_def as_array_def)

lemma initial_plain:
  assumes "initial_ai_messages E r sel token s = (Inr r', t)" "ru_messages r = []"
  shows "same_run r r' \<and> no_calls (ru_messages r')"
  using assms history_plain unfolding initial_ai_messages_def
  by (elim op_bind_cases) (auto elim!: op_bind_cases simp: same_run_def selection_of_def calls_of_def json_index_def json_get_def
      as_str_def as_array_def)

context run_requests begin

lemma execute_I:
  assumes "raw \<or> resumable (ru_messages r)" "raw \<longrightarrow> raw_context_requested (ru_request r)"
  shows "preserves I (execute_ai_run R r token)"
proof -
  have ready: "run_ready raw (selection_of r) r" using assms(2) by (simp add: run_ready_def)
  have saved: "hoare I (save_run_progress q stage) (\<lambda>r s. (same_run q r \<and> ru_messages r = ru_messages q) \<and> I s) (\<lambda>_. I)" for q stage
    by (rule values_I[OF quiet_I[OF quiet_checks(9)]]) (rule save_same)
  have begun: "hoare I (if ru_messages q \<noteq> [] then op_return q
       else op_bind (initial_ai_messages R q (selection_of q) token) (\<lambda>r. save_run_progress r stage))
       (\<lambda>p s. (same_run r p \<and> (raw \<or> resumable (ru_messages p))) \<and> I s) (\<lambda>_. I)"
    if q: "same_run (r\<lparr>ru_status := ''running''\<rparr>) q \<and> ru_messages q = ru_messages (r\<lparr>ru_status := ''running''\<rparr>)" for q stage
  proof (rule values_I)
    show "preserves I (if ru_messages q \<noteq> [] then op_return q
       else op_bind (initial_ai_messages R q (selection_of q) token) (\<lambda>r. save_run_progress r stage))"
      by (intro keeps initial_I quiet_keeps_I)
  next
    fix s p t
    have rq: "same_run r q" "ru_messages q = ru_messages r" using q by (auto simp: same_run_def selection_of_def)
    assume "(if ru_messages q \<noteq> [] then op_return q
       else op_bind (initial_ai_messages R q (selection_of q) token) (\<lambda>r. save_run_progress r stage)) s = (Inr p, t)"
    then consider "ru_messages q \<noteq> []" "p = q"
      | q' u v where "ru_messages q = []" "initial_ai_messages R q (selection_of q) token s = (Inr q', u)" "save_run_progress q' stage u = (Inr p, v)"
      by (auto split: if_splits elim!: op_bind_cases)
    then show "same_run r p \<and> (raw \<or> resumable (ru_messages p))"
    proof cases
      case 1
      with rq assms(1) show ?thesis by simp
    next
      case 2
      have plain: "resumable ms" if "no_calls ms" for ms using that by (induction ms) auto
      from initial_plain[OF 2(2,1)] save_same[OF 2(3)] rq plain show ?thesis by (auto intro: same_run_trans)
    qed
  qed
  have rounds: "preserves I (run_rounds R (selection_of q) token MAX_ROUNDS 0 0 0
      (p\<lparr>ru_messages := repair_interrupted_tool_results (ru_messages p)\<rparr>, []))"
    if "same_run r p" "raw \<or> resumable (ru_messages p)"
      and "same_run (r\<lparr>ru_status := ''running''\<rparr>) q \<and> ru_messages q = ru_messages (r\<lparr>ru_status := ''running''\<rparr>)" for p q
  proof (rule run_rounds_I)
    have "same_run q p" using that(1,3) by (simp add: same_run_def selection_of_def)
    moreover have "run_ready raw (selection_of q) q"
      using that(3) assms(2) by (simp add: run_ready_def same_run_def)
    ultimately have "run_ready raw (selection_of q) p" by (rule run_ready_same[rotated])
    then show "run_ready raw (selection_of q) (fst (p\<lparr>ru_messages := repair_interrupted_tool_results (ru_messages p)\<rparr>, []))"
      by (simp add: run_ready_def selection_of_def)
    show "sendable raw (ru_messages (fst (p\<lparr>ru_messages := repair_interrupted_tool_results (ru_messages p)\<rparr>, [])))"
      using sendable_repair[OF that(2)] by simp
  qed
  show ?thesis
    unfolding execute_ai_run_def Let_def
  proof (rule preserves_bind[OF gap_I], unfold preserves_iff_hoare, rule hoare_values[OF saved], goal_cases)
    case (1 g q)
    then show ?case
      by (rule hoare_values[OF begun]) (use rounds 1 in \<open>simp add: preserves_iff_hoare\<close>)
  qed
qed

end

end
