(* ===== verification/Run_Deselect.thy ===== *)
theory Run_Deselect imports Run_Context Ai_Save begin

text \<open>
  Replacing the context of a conversation: it is all or nothing, and afterwards no unfinished run
  relies on anything that is no longer selected.
\<close>

section \<open>Reading through an operation that leaves the rows alone\<close>

lemma hoare_known:
  assumes "preserves I m" "\<And>a u v. I u \<Longrightarrow> m u = (Inr a, v) \<Longrightarrow> hoare I (f a) Q (\<lambda>_. I)"
  shows "hoare I (op_bind m f) Q (\<lambda>_. I)"
proof (rule hoareI)
  fix s e t assume "I s" "op_bind m f s = (Inl e, t)"
  then show "I t"
    by (elim op_bind_cases) (use assms in \<open>fastforce dest: preservesD hoare_err\<close>)+
next
  fix s a t assume "I s" "op_bind m f s = (Inr a, t)"
  then show "Q a t"
    by (elim op_bind_cases) (use assms in \<open>fastforce dest: preservesD hoare_ok\<close>)+
qed

lemma rx_io_rows: "rx_io s = (r, t) \<Longrightarrow> run_view t = run_view s"
  using preservesD[OF runs_are_rx_io, of "run_view s" s] by (simp add: runs_are_def)

lemma rx_fetch_runs: "rx_fetch rx_runs i s = (Inr r, t) \<Longrightarrow> om_get (rx_runs s) i = Some r"
  and rx_fetch_conversations: "rx_fetch rx_conversations i s = (Inr c, t) \<Longrightarrow> om_get (rx_conversations s) i = Some c"
  by (auto simp: rx_fetch_def rx_fetch_maybe_def run_view_def elim!: op_bind_cases dest!: rx_io_rows)

section \<open>The rows that are written\<close>

definition deselected :: "ai_run \<Rightarrow> ai_run \<Rightarrow> bool" where
  "deselected r r' \<longleftrightarrow> (\<exists>time n. r' = mark_deselected r time n)"

lemma deselectedI [simp]: "deselected r (mark_deselected r time n)"
  by (auto simp: deselected_def)

definition deselected_row :: "(string, ai_run) omap \<Rightarrow> string \<Rightarrow> context_manifest \<Rightarrow> string \<Rightarrow> run_row option \<Rightarrow> bool" where
  "deselected_row runs i m j x \<longleftrightarrow> (\<exists>r. om_get runs j = Some r
     \<and> (case x of None \<Rightarrow> \<not> run_uses_deselected_context r i m
        | Some row \<Rightarrow> run_uses_deselected_context r i m \<and> (\<exists>r'. row = XRun (ru_id r) r' \<and> deselected r r')))"

lemma deselect_run_row:
  assumes "deselect_run i m j s = (Inr x, t)"
  shows "deselected_row (rx_runs s) i m j x"
  using assms unfolding deselect_run_def
  by (auto elim!: op_bind_cases dest!: rx_fetch_runs simp: deselected_row_def rx_encode_def split: if_splits)

lemma run_rows_set [simp]: "row \<in> set (run_rows xs) \<longleftrightarrow> Some row \<in> set xs"
  by (force simp: run_rows_def split: option.splits)

lemma fold_run_rows:
  assumes "\<forall>row \<in> set rows. \<exists>j r. row = XRun j r"
  shows "rx_conversations (fold apply_run_row rows s) = rx_conversations s"
    "rx_cancellations (fold apply_run_row rows s) = rx_cancellations s"
    "rx_ai (fold apply_run_row rows s) = rx_ai s"
    "om_wf (rx_runs s) \<Longrightarrow> om_wf (rx_runs (fold apply_run_row rows s))"
    "j \<notin> row_id ` set rows \<Longrightarrow> om_get (rx_runs (fold apply_run_row rows s)) j = om_get (rx_runs s) j"
    "j \<in> row_id ` set rows \<Longrightarrow> \<exists>r. XRun j r \<in> set rows \<and> om_get (rx_runs (fold apply_run_row rows s)) j = Some r"
proof -
  show "rx_conversations (fold apply_run_row rows s) = rx_conversations s"
    "rx_cancellations (fold apply_run_row rows s) = rx_cancellations s"
    "rx_ai (fold apply_run_row rows s) = rx_ai s"
    "om_wf (rx_runs s) \<Longrightarrow> om_wf (rx_runs (fold apply_run_row rows s))"
    "j \<notin> row_id ` set rows \<Longrightarrow> om_get (rx_runs (fold apply_run_row rows s)) j = om_get (rx_runs s) j"
    using assms by (induction rows arbitrary: s) (auto simp: row_id_def)
  show "j \<in> row_id ` set rows \<Longrightarrow> \<exists>r. XRun j r \<in> set rows \<and> om_get (rx_runs (fold apply_run_row rows s)) j = Some r"
    using assms
  proof (induction rows rule: rev_induct)
    case (snoc row rows)
    then obtain k r where row: "row = XRun k r" by auto
    show ?case
    proof (cases "j = k")
      case True
      with row show ?thesis by auto
    next
      case False
      with snoc row show ?thesis by (auto simp: row_id_def)
    qed
  qed simp
qed

lemma fire_run_frame [simp]:
  "rx_runs (fire_run j s) = rx_runs s" "rx_conversations (fire_run j s) = rx_conversations s"
  "rx_cancellations (fire_run j s) = rx_cancellations s" "v_poisoned (rx_ai (fire_run j s)) = v_poisoned (rx_ai s)"
  by (simp_all add: fire_run_def split: option.split)

lemma fold_fire_run:
  "rx_runs (fold fire_run js s) = rx_runs s" "rx_conversations (fold fire_run js s) = rx_conversations s"
  "rx_cancellations (fold fire_run js s) = rx_cancellations s"
  "set (v_fired (rx_ai (fold fire_run js s))) = set (v_fired (rx_ai s)) \<union> {k. \<exists>j \<in> set js. om_get (rx_cancellations s) j = Some k}"
proof -
  show frame: "rx_runs (fold fire_run js s) = rx_runs s" "rx_conversations (fold fire_run js s) = rx_conversations s"
    "rx_cancellations (fold fire_run js s) = rx_cancellations s"
    by (induction js arbitrary: s) auto
  show "set (v_fired (rx_ai (fold fire_run js s))) = set (v_fired (rx_ai s)) \<union> {k. \<exists>j \<in> set js. om_get (rx_cancellations s) j = Some k}"
  proof (induction js arbitrary: s)
    case (Cons j js)
    have "set (v_fired (rx_ai (fire_run j s))) = set (v_fired (rx_ai s)) \<union> {k. om_get (rx_cancellations s) j = Some k}"
      by (auto simp: fire_run_def split: option.split)
    with Cons[of "fire_run j s"] show ?case by auto
  qed simp
qed

section \<open>The invariant\<close>

definition run_listed :: "ai_run \<Rightarrow> bool" where
  "run_listed r \<longleftrightarrow> (case ru_context_manifest r of None \<Rightarrow> True | Some m \<Rightarrow> manifest_relations m \<subseteq> set (source_relations r))"

definition within_context :: "(string, conversation) omap \<Rightarrow> ai_run \<Rightarrow> bool" where
  "within_context conversations r \<longleftrightarrow> (case (ru_context_manifest r, rq_conversation_id (ru_request r)) of
     (Some m, Some cid) \<Rightarrow> (case om_get conversations cid of None \<Rightarrow> True
       | Some c \<Rightarrow> context_contains_manifest (manifest_of c) m)
   | _ \<Rightarrow> True)"

definition context_inv :: "run_ws \<Rightarrow> bool" where
  "context_inv s \<longleftrightarrow> om_wf (rx_runs s)
     \<and> (\<forall>j r. om_get (rx_runs s) j = Some r \<longrightarrow> ru_id r = j \<and> run_listed r \<and> (active r \<longrightarrow> within_context (rx_conversations s) r))
     \<and> (\<forall>j c. om_get (rx_conversations s) j = Some c \<longrightarrow> distinct (map source_key (manifest_context_ranges (manifest_of c))))"

lemma context_inv_view: "run_view t = run_view s \<Longrightarrow> context_inv t = context_inv s"
  by (simp add: context_inv_def run_view_def)

lemma deselected_frame:
  assumes "deselected r r'"
  shows "ru_id r' = ru_id r" "run_listed r' = run_listed r" "\<not> active r'" "within_context convs r' = within_context convs r"
    "ru_error_code r' = Some ''context_source_removed''"
  using assms
  by (auto simp: deselected_def mark_deselected_def run_listed_def source_relations_def active_def within_context_def
      split: option.splits)

text \<open>What a replacement leaves behind.\<close>

definition replaced :: "run_ws \<Rightarrow> string \<Rightarrow> conversation \<Rightarrow> conversation \<Rightarrow> string list \<Rightarrow> run_ws \<Rightarrow> bool" where
  "replaced s i c c' ids t \<longleftrightarrow>
     om_get (rx_conversations s) i = Some c \<and> om_get (rx_conversations t) = (om_get (rx_conversations s))(i \<mapsto> c')
     \<and> (\<forall>j. j \<notin> set ids \<longrightarrow> om_get (rx_runs t) j = om_get (rx_runs s) j)
     \<and> (\<forall>j \<in> set ids. \<exists>r r'. om_get (rx_runs s) j = Some r \<and> run_uses_deselected_context r i (manifest_of c')
          \<and> om_get (rx_runs t) j = Some r' \<and> deselected r r')
     \<and> (\<not> v_poisoned (rx_ai s) \<longrightarrow> (\<forall>j \<in> set ids. \<forall>k. om_get (rx_cancellations s) j = Some k \<longrightarrow> k \<in> set (v_fired (rx_ai t))))"

lemma write_replacement:
  assumes "run_view u = run_view s" "om_wf (rx_runs s)" "\<forall>j r. om_get (rx_runs s) j = Some r \<longrightarrow> ru_id r = j"
    and "om_get (rx_conversations s) i = Some c" "list_all2 (deselected_row (rx_runs s) i (manifest_of c')) affected xs"
    and "t = (let v = fold apply_run_row (XConversation i c' # run_rows xs) u in
        if v_poisoned (rx_ai v) then v else fold fire_run (map row_id (run_rows xs)) v)"
  shows "replaced s i c c' (map row_id (run_rows xs)) t \<and> om_wf (rx_runs t)"
    "set (map row_id (run_rows xs)) = {j \<in> set affected. \<exists>r. om_get (rx_runs s) j = Some r \<and> run_uses_deselected_context r i (manifest_of c')}"
proof -
  have rows: "\<exists>j \<in> set affected. deselected_row (rx_runs s) i (manifest_of c') j (Some row)" if "row \<in> set (run_rows xs)" for row
  proof -
    from that obtain k where "k < length xs" "xs ! k = Some row" by (metis run_rows_set in_set_conv_nth)
    with assms(5) show ?thesis by (metis list_all2_conv_all_nth nth_mem)
  qed
  then have shape: "\<forall>row \<in> set (run_rows xs). \<exists>j r. row = XRun j r"
    by (fastforce simp: deselected_row_def)
  have row: "\<exists>r. om_get (rx_runs s) j = Some r \<and> run_uses_deselected_context r i (manifest_of c') \<and> deselected r r' \<and> j \<in> set affected"
    if "XRun j r' \<in> set (run_rows xs)" for j r'
    using rows[OF that] assms(3) by (auto simp: deselected_row_def)
  define v where "v = fold apply_run_row (XConversation i c' # run_rows xs) u"
  have u: "rx_runs u = rx_runs s" "rx_conversations u = rx_conversations s" "rx_cancellations u = rx_cancellations s"
    "v_fired (rx_ai u) = v_fired (rx_ai s)" "v_poisoned (rx_ai u) = v_poisoned (rx_ai s)"
    using assms(1) by (simp_all add: run_view_def)
  have v_eq: "v = fold apply_run_row (run_rows xs) (apply_run_row (XConversation i c') u)" by (simp add: v_def)
  note written = fold_run_rows[OF shape, where s = "apply_run_row (XConversation i c') u"]
  have v: "rx_conversations v = om_put i c' (rx_conversations s)" "rx_cancellations v = rx_cancellations s"
    "v_poisoned (rx_ai v) = v_poisoned (rx_ai s)" "om_wf (rx_runs v)"
    using written(1,2,3,4) assms(2) by (simp_all add: v_def u)
  have t_eq: "t = (if v_poisoned (rx_ai v) then v else fold fire_run (map row_id (run_rows xs)) v)"
    using assms(6) unfolding v_def Let_def .
  have t: "rx_runs t = rx_runs v" "rx_conversations t = rx_conversations v"
    "\<not> v_poisoned (rx_ai s) \<Longrightarrow> {k. \<exists>j \<in> set (map row_id (run_rows xs)). om_get (rx_cancellations s) j = Some k} \<subseteq> set (v_fired (rx_ai t))"
    using t_eq v(2,3) by (auto simp: fold_fire_run)
  have other: "om_get (rx_runs v) j = om_get (rx_runs s) j" if "j \<notin> row_id ` set (run_rows xs)" for j
    using written(5)[OF that] by (simp add: v_def u)
  have mine: "\<exists>r r'. om_get (rx_runs s) j = Some r \<and> run_uses_deselected_context r i (manifest_of c')
      \<and> om_get (rx_runs v) j = Some r' \<and> deselected r r'" if "j \<in> row_id ` set (run_rows xs)" for j
    using written(6)[OF that] row unfolding v_eq by blast
  show "replaced s i c c' (map row_id (run_rows xs)) t \<and> om_wf (rx_runs t)"
    using other mine t v assms(4) by (auto simp: replaced_def)
  show "set (map row_id (run_rows xs)) = {j \<in> set affected. \<exists>r. om_get (rx_runs s) j = Some r \<and> run_uses_deselected_context r i (manifest_of c')}"
  proof (intro equalityI subsetI)
    fix j assume "j \<in> set (map row_id (run_rows xs))"
    then obtain r where "r \<in> set (run_rows xs)" "j = row_id r" by auto
    with rows[of r] row shape show "j \<in> {j \<in> set affected. \<exists>r. om_get (rx_runs s) j = Some r \<and> run_uses_deselected_context r i (manifest_of c')}"
      by (fastforce simp: row_id_def)
  next
    fix j assume j: "j \<in> {j \<in> set affected. \<exists>r. om_get (rx_runs s) j = Some r \<and> run_uses_deselected_context r i (manifest_of c')}"
    then obtain k where "k < length affected" "affected ! k = j" by (auto simp: in_set_conv_nth)
    with assms(5) obtain x where "x \<in> set xs" "deselected_row (rx_runs s) i (manifest_of c') j x"
      by (metis list_all2_conv_all_nth nth_mem)
    with j assms(3) have "\<exists>r'. Some (XRun j r') \<in> set xs"
      by (auto simp: deselected_row_def split: option.splits)
    then show "j \<in> set (map row_id (run_rows xs))" by (force simp: row_id_def)
  qed
qed

section \<open>The replacement\<close>

lemma affected_runs:
  assumes "related_active_runs relations u = (Inr affected, v)" "om_wf (rx_runs u)"
    and "om_get (rx_runs u) j = Some r" "active r" "x \<in> set relations" "x \<in> set (source_relations r)"
  shows "j \<in> set affected"
proof -
  from assms(1,5) have "affected = map fst (filter (\<lambda>(_, r). active r \<and> list_ex (\<lambda>x. x \<in> set relations) (source_relations r)) (rx_runs u))"
    unfolding related_active_runs_def by (auto elim!: op_bind_cases dest!: rx_io_rows simp: run_view_def split: if_splits)
  moreover have "(j, r) \<in> set (rx_runs u)" using assms(2,3) by (simp add: om_wf_get_iff)
  ultimately show ?thesis using assms(4-6) by (force simp: list_ex_iff)
qed

definition replacement :: "run_ws \<Rightarrow> string \<Rightarrow> material_ref list \<Rightarrow> string list \<Rightarrow> conversation \<times> string list \<Rightarrow> run_ws \<Rightarrow> bool" where
  "replacement s i materials attachment_ids out t \<longleftrightarrow> (case out of (c', ids) \<Rightarrow>
     cn_materials c' = materials \<and> cn_attachment_ids c' = attachment_ids
     \<and> distinct (map source_key (manifest_context_ranges (manifest_of c')))
     \<and> om_wf (rx_runs t)
     \<and> (\<exists>c. replaced s i c c' ids t \<and> cn_context_revision c' = cn_context_revision c + 1
          \<and> (\<forall>j r. om_get (rx_runs s) j = Some r \<and> run_uses_deselected_context r i (manifest_of c')
               \<and> (\<exists>x \<in> set (changed_relations (manifest_of c) (manifest_of c')). x \<in> set (source_relations r)) \<longrightarrow> j \<in> set ids)))"

lemma replace_runs:
  assumes wf: "om_wf (rx_runs s)" "\<forall>j r. om_get (rx_runs s) j = Some r \<longrightarrow> ru_id r = j"
  shows "hoare (runs_are (run_view s)) (replace_ai_conversation_context i n materials attachment_ids supplied)
    (replacement s i materials attachment_ids) (\<lambda>_. runs_are (run_view s))"
  unfolding replace_ai_conversation_context_def Let_def
proof (intro hoare_known runs_are_shape runs_are_canonical runs_are_io runs_are_affected preserves_basic preserves_map, goal_cases)
  case (1 a1 u1 v1 ranges u2 v2 a3 u3 v3 c u4 v4 a5 u5 v5 m u6 v6 time u7 v7 first u8 v8 affected u9 v9 xs u10 v10)
  define c' where "c' = c\<lparr>cn_materials := materials, cn_attachment_ids := attachment_ids, cn_context_ranges := ranges,
           cn_context_known := True, cn_context_revision := m, cn_updated_at := time\<rparr>"
  have c: "om_get (rx_conversations s) i = Some c"
    using 1(7) rx_fetch_conversations[OF 1(8)] by (simp add: runs_are_def run_view_def)
  have m: "m = cn_context_revision c + 1"
    using 1(12) by (simp add: next_revision_def split: if_splits)
  have shape: "distinct (map source_key (implicit_context_ranges materials attachment_ids))"
    by (rule shape_distinct[OF 1(2)])
  have new: "distinct (map source_key (manifest_context_ranges (manifest_of c')))"
    using shape canonical_distinct[OF 1(4) shape] by (simp add: manifest_context_ranges_def manifest_of_def c'_def)
  have first: "first = XConversation i c'"
    using 1(16) by (auto simp: rx_encode_def c'_def elim!: op_bind_cases)
  have "list_all2 (deselected_row (rx_runs s) i (manifest_of c')) affected xs"
    by (rule op_map_all2[where I = "runs_are (run_view s)", OF 1(20) 1(19)])
      (auto simp: runs_are_affected c'_def[symmetric] runs_are_def run_view_def dest!: deselect_run_row)
  note stored = write_replacement[OF _ wf c this]
  have affected: "j \<in> set affected" if "om_get (rx_runs s) j = Some r" "run_uses_deselected_context r i (manifest_of c')"
    "x \<in> set (changed_relations (manifest_of c) (manifest_of c'))" "x \<in> set (source_relations r)" for j r x
    using affected_runs[OF 1(18), folded c'_def, of j r x] that wf(1) 1(17)
    by (auto simp: run_uses_deselected_context_def runs_are_def run_view_def)
  show ?case
  proof (rule hoareI)
    fix u e t assume "runs_are (run_view s) u" "store_context (c\<lparr>cn_materials := materials, cn_attachment_ids := attachment_ids,
      cn_context_ranges := ranges, cn_context_known := True, cn_context_revision := m, cn_updated_at := time\<rparr>) first (run_rows xs) u = (Inl e, t)"
    then show "runs_are (run_view s) t"
      by (auto simp: store_context_def rx_put_rows_def fire_runs_def runs_are_def elim!: op_bind_cases dest!: rx_io_rows)
  next
    fix u out t assume u: "runs_are (run_view s) u" and run: "store_context (c\<lparr>cn_materials := materials, cn_attachment_ids := attachment_ids,
      cn_context_ranges := ranges, cn_context_known := True, cn_context_revision := m, cn_updated_at := time\<rparr>) first (run_rows xs) u = (Inr out, t)"
    from run obtain v where v: "rx_io u = (Inr (), v)" and out: "out = (c', map row_id (run_rows xs))"
      and t: "t = (let v = fold apply_run_row (XConversation i c' # run_rows xs) v in
        if v_poisoned (rx_ai v) then v else fold fire_run (map row_id (run_rows xs)) v)"
      by (auto simp: store_context_def rx_put_rows_def fire_runs_def first c'_def[symmetric] elim!: op_bind_cases)
    have view: "run_view v = run_view s" using u rx_io_rows[OF v] by (simp add: runs_are_def)
    have ids: "j \<in> set (map row_id (run_rows xs))" if "om_get (rx_runs s) j = Some r" "run_uses_deselected_context r i (manifest_of c')"
      "x \<in> set (changed_relations (manifest_of c) (manifest_of c'))" "x \<in> set (source_relations r)" for j r x
      unfolding stored(2)[OF view t] using affected[OF that] that(1,2) by blast
    have fields: "cn_materials c' = materials" "cn_attachment_ids c' = attachment_ids" "cn_context_revision c' = m"
      by (simp_all add: c'_def)
    show "replacement s i materials attachment_ids out t"
      unfolding replacement_def out prod.case
      using stored(1)[OF view t] ids fields new m by blast
  qed
qed

section \<open>No run outlives its context\<close>

definition relies_on_deselected :: "ai_run \<Rightarrow> string \<Rightarrow> conversation \<Rightarrow> bool" where
  "relies_on_deselected r i c \<longleftrightarrow> active r \<and> rq_conversation_id (ru_request r) = Some i
     \<and> (case ru_context_manifest r of None \<Rightarrow> False | Some m \<Rightarrow> \<not> context_contains_manifest (manifest_of c) m)"

lemma deselected_are_found:
  assumes "context_inv s" "om_get (rx_conversations s) i = Some c" "om_get (rx_runs s) j = Some r" "relies_on_deselected r i c'"
  shows "run_uses_deselected_context r i (manifest_of c')"
    "\<exists>x \<in> set (changed_relations (manifest_of c) (manifest_of c')). x \<in> set (source_relations r)"
proof -
  from assms(4) obtain m where m: "ru_context_manifest r = Some m" "\<not> context_contains_manifest (manifest_of c') m"
    "active r" "rq_conversation_id (ru_request r) = Some i" by (auto simp: relies_on_deselected_def split: option.splits)
  then show "run_uses_deselected_context r i (manifest_of c')"
    by (simp add: run_uses_deselected_context_def required_context_def)
  have "context_contains_manifest (manifest_of c) m" "run_listed r"
    "distinct (map source_key (manifest_context_ranges (manifest_of c)))"
    using assms(1,2,3) m by (fastforce simp: context_inv_def within_context_def)+
  with deselection_changes_a_relation[OF this(1) m(2) this(3)] m(1)
  show "\<exists>x \<in> set (changed_relations (manifest_of c) (manifest_of c')). x \<in> set (source_relations r)"
    by (auto simp: run_listed_def)
qed

lemma replacement_keeps_inv:
  assumes "context_inv s" "replacement s i materials attachment_ids (c', ids) t"
  shows "context_inv t"
proof -
  from assms(2) obtain c where r: "replaced s i c c' ids t" and wf: "om_wf (rx_runs t)"
    and new: "distinct (map source_key (manifest_context_ranges (manifest_of c')))"
    and found: "\<And>j r. om_get (rx_runs s) j = Some r \<Longrightarrow> run_uses_deselected_context r i (manifest_of c') \<Longrightarrow>
      \<exists>x \<in> set (changed_relations (manifest_of c) (manifest_of c')). x \<in> set (source_relations r) \<Longrightarrow> j \<in> set ids"
    by (auto simp: replacement_def)
  have c: "om_get (rx_conversations s) i = Some c" and convs: "om_get (rx_conversations t) = (om_get (rx_conversations s))(i \<mapsto> c')"
    using r by (simp_all add: replaced_def)
  have run: "ru_id q = j \<and> run_listed q \<and> (active q \<longrightarrow> within_context (rx_conversations t) q)" if q: "om_get (rx_runs t) j = Some q" for j q
  proof (cases "j \<in> set ids")
    case True
    then obtain p where "om_get (rx_runs s) j = Some p" "deselected p q" using r q by (auto simp: replaced_def)
    with assms(1) deselected_frame show ?thesis by (auto simp: context_inv_def)
  next
    case False
    then have old: "om_get (rx_runs s) j = Some q" using r q by (simp add: replaced_def)
    then have inv: "ru_id q = j" "run_listed q" "active q \<longrightarrow> within_context (rx_conversations s) q"
      using assms(1) by (auto simp: context_inv_def)
    have "\<not> relies_on_deselected q i c'"
      using deselected_are_found[OF assms(1) c old] found[OF old] False by blast
    then have "active q \<longrightarrow> within_context (rx_conversations t) q"
      using inv(3) by (auto simp: within_context_def convs relies_on_deselected_def split: option.splits if_splits)
    with inv show ?thesis by simp
  qed
  have "distinct (map source_key (manifest_context_ranges (manifest_of q)))" if "om_get (rx_conversations t) j = Some q" for j q
    using that new assms(1) by (auto simp: convs context_inv_def split: if_splits)
  with run wf show ?thesis by (simp add: context_inv_def)
qed


text \<open>A running chat over the original of one material.\<close>

definition sample_request :: run_request where
  "sample_request = \<lparr>rq_kind = ''chat'', rq_prompt = ''q'', rq_provider_id = None, rq_model = None,
     rq_materials = [\<lparr>mr_id = ''m'', mr_source = ''original''\<rparr>], rq_attachment_ids = [], rq_context_ranges = [],
     rq_case_date = None, rq_match_mode = None, rq_version_scope = None, rq_version_status = None,
     rq_document_type = None, rq_requirements = None, rq_conversation_id = Some ''c'', rq_context_revision = Some 1,
     rq_context_preparation_hash = None, rq_context_plan_hash = None, rq_parent_id = None\<rparr>"

definition sample_manifest :: context_manifest where
  "sample_manifest = \<lparr>cm_revision = 1, cm_materials = [\<lparr>mr_id = ''m'', mr_source = ''original''\<rparr>],
     cm_attachment_ids = [], cm_context_ranges = [], cm_updated_at = 0\<rparr>"

definition sample_run :: ai_run where
  "sample_run = \<lparr>ru_id = ''r'', ru_document_id = None, ru_kind = ''chat'', ru_status = ''running'', ru_stage = [],
     ru_prompt = ''q'', ru_title = [], ru_content = [], ru_html = [], ru_citations = [], ru_citation_verification = None,
     ru_tool_steps = [], ru_error_code = None, ru_usage = JNull, ru_created_at = 0, ru_updated_at = 0,
     ru_provider_id = ''p'', ru_model = ''m'', ru_request = sample_request, ru_messages = [], ru_allowed_sources = [],
     ru_bindings = [], ru_provider_revision = 0, ru_provider_profile_hash = [], ru_original_material_revisions = [],
     ru_context_manifest = Some sample_manifest, ru_context_plan = None, ru_revision = 1\<rparr>"

definition sample_conversation :: conversation where
  "sample_conversation = \<lparr>cn_id = ''c'', cn_title = ''t'', cn_title_manual = False, cn_messages = [],
     cn_materials = [\<lparr>mr_id = ''m'', mr_source = ''original''\<rparr>], cn_attachment_ids = [], cn_context_ranges = [],
     cn_context_revision = 1, cn_context_known = True, cn_updated_at = 0\<rparr>"

definition sample_run_ws :: run_ws where
  "sample_run_ws = \<lparr>rx_ai = empty_ai_ws\<lparr>v_tokens := [7]\<rparr>, rx_ws = empty_ws, rx_runs = [(''r'', sample_run)],
     rx_conversations = [(''c'', sample_conversation)], rx_attachments = [], rx_attachment_bytes = [],
     rx_inspections = [], rx_pages = [], rx_cancellations = [(''r'', 7)], rx_ledger = new_ledger 0, rx_outcomes = []\<rparr>"

lemma sample_ranges: "manifest_context_ranges sample_manifest = [\<lparr>xs_source_kind = ''material'', xs_source_id = ''m'',
    xs_source = Some ''original'', xs_mode = ''all'', xs_ranges = [], xs_inspection_hash = None\<rparr>]"
  by (simp add: manifest_context_ranges_def sample_manifest_def implicit_context_ranges_def)

lemma sample_parts: "cm_materials sample_manifest = [\<lparr>mr_id = ''m'', mr_source = ''original''\<rparr>]" "cm_attachment_ids sample_manifest = []"
  by (simp_all add: sample_manifest_def)

lemma sample_inv: "context_inv sample_run_ws"
proof -
  have "manifest_of sample_conversation = sample_manifest"
    by (simp add: manifest_of_def sample_conversation_def sample_manifest_def)
  moreover have "context_contains_manifest sample_manifest sample_manifest"
    by (simp add: context_contains_manifest_def sample_ranges range_selection_contains_def sample_parts)
  moreover have "run_listed sample_run"
    using sample_ranges
    by (simp add: run_listed_def sample_run_def manifest_relations_def source_key_def key_relation_def source_relations_def
        sample_request_def material_relation_def sample_parts)
  ultimately show ?thesis
    using sample_ranges
    by (simp add: context_inv_def sample_run_ws_def within_context_def sample_run_def sample_request_def om_wf_def)
qed


end
