(* ===== verification/Run_Trust.thy ===== *)
theory Run_Trust imports Run_Requests Run_Deselect begin

text \<open>
  What an AI run guarantees of the requests it sends: the two invariants that survive its loop. A
  run over original text sends only to a trusted provider and not after its token fired; and in
  every request each call of a tool has its answer.
\<close>

section \<open>What the other handlers do meanwhile\<close>

text \<open>They may do anything to runs, conversations and sources; the settings change by their handlers.\<close>

definition run_interference :: "run_env \<Rightarrow> bool" where
  "run_interference R \<longleftrightarrow> ai_interference (re_ai R)
     \<and> (\<forall>k s. \<exists>qs. rx_ai (re_gap R k s) = fold (ai_serve (re_ai R)) qs (rx_ai s))"

lemma run_gap_holds:
  assumes "run_interference R" "registered token (rx_ai s)"
  shows "holds_trust token i (rx_ai s) (rx_ai (re_gap R k s))"
  using assms interference_holds_trust unfolding run_interference_def by metis

section \<open>Trust\<close>

definition safe_sent :: "sent \<Rightarrow> bool" where
  "safe_sent x \<longleftrightarrow> se_trusted x \<and> \<not> se_cancelled x"

definition run_sends :: "(sent \<Rightarrow> bool) \<Rightarrow> sent list \<Rightarrow> nat \<Rightarrow> ai_ws \<Rightarrow> bool" where
  "run_sends P old token w \<longleftrightarrow> registered token w \<and> (\<exists>new. v_sent w = old @ new \<and> list_all P new)"

definition may_trust :: "nat \<Rightarrow> string \<Rightarrow> ai_ws \<Rightarrow> bool" where
  "may_trust token i w \<longleftrightarrow> token \<in> set (v_fired w) \<or> trusted_now w i"

lemma run_sends_view:
  assumes "settings_view v = settings_view w"
  shows "run_sends P old token v = run_sends P old token w" "may_trust token i v = may_trust token i w"
  using assms trusted_now_view[OF assms] by (simp_all add: run_sends_def may_trust_def settings_view_def registered_def)

lemma run_sends_holds:
  assumes "holds_trust token i w v" "run_sends P old token w"
  shows "run_sends P old token v" "may_trust token i w \<Longrightarrow> may_trust token i v"
  using assms by (auto simp: holds_trust_def run_sends_def may_trust_def)

lemma run_gap_sends:
  assumes "run_interference R" "run_sends P old token (rx_ai s)"
  shows "run_sends P old token (rx_ai (re_gap R k s))"
    "may_trust token i (rx_ai s) \<Longrightarrow> may_trust token i (rx_ai (re_gap R k s))"
proof -
  have "holds_trust token i (rx_ai s) (rx_ai (re_gap R k s))" for i
    using run_gap_holds[OF assms(1)] assms(2) by (simp add: run_sends_def)
  with assms(2) show "run_sends P old token (rx_ai (re_gap R k s))"
    "may_trust token i (rx_ai s) \<Longrightarrow> may_trust token i (rx_ai (re_gap R k s))"
    using run_sends_holds by blast+
qed

lemma complete_trusted:
  assumes "ai_interference E" "run_sends safe_sent old token w" "may_trust token (sel_provider_id sel) w"
    and "ai_complete_budgeted E sel messages tools response_format purpose binding n token w = (r, v)"
  shows "run_sends safe_sent old token v \<and> may_trust token (sel_provider_id sel) v"
proof -
  have "trusted_or_fired (v_sent w) token (sel_provider_id sel) purpose w"
    using assms(2,3) by (simp add: trusted_or_fired_def only_well_sent_def run_sends_def may_trust_def)
  from preservesD[OF ai_complete_budgeted_keeps[OF assms(1)] this assms(4)] obtain new where
    new: "registered token v" "v_sent v = v_sent w @ new" "list_all (well_sent (sel_provider_id sel) purpose) new"
    and trust: "may_trust token (sel_provider_id sel) v"
    by (auto simp: trusted_or_fired_def only_well_sent_def may_trust_def)
  have "list_all safe_sent new" using new(3) by (auto simp: list_all_iff well_sent_def safe_sent_def)
  with new assms(2) trust show ?thesis by (auto simp: run_sends_def)
qed

interpretation trusted_run: run_requests R token True
  "\<lambda>s. run_interference R \<longrightarrow> run_sends safe_sent old token (rx_ai s)"
  "\<lambda>i s. run_interference R \<longrightarrow> run_sends safe_sent old token (rx_ai s) \<and> may_trust token i (rx_ai s)"
  for R token old
proof (unfold_locales, goal_cases)
  case (7 ms sel s tools response_format purpose binding n res t)
  then show ?case
    by (auto simp: in_ai_def run_interference_def split: prod.splits dest!: complete_trusted)
next
  case (3 s k)
  then show ?case using run_gap_sends by blast
next
  case (4 i s k)
  then show ?case using run_gap_sends by blast
next
  case (1 t s)
  then show ?case using run_sends_view(1)[OF 1(1)] by simp
next
  case (2 t s i)
  then show ?case using run_sends_view[OF 2(1)] by simp
next
  case (5 i s)
  then show ?case by blast
next
  case (6 s i)
  then show ?case by (simp add: may_trust_def)
qed

section \<open>Answers\<close>

definition has_messages :: "json \<Rightarrow> sent \<Rightarrow> bool" where
  "has_messages messages x \<longleftrightarrow> json_index (se_body x) ''messages'' = messages"

lemma dispatch_body_messages: "json_index (dispatch_body sel md messages tools response_format n) ''messages'' = messages"
  unfolding dispatch_body_def Let_def json_index_def json_get_def
  by (simp del: om_put.simps split: option.split)

definition yields :: "('a \<Rightarrow> bool) \<Rightarrow> 'e + 'a \<Rightarrow> bool" where
  "yields P r \<longleftrightarrow> (\<forall>b. r = Inr b \<longrightarrow> P b)"

lemma yields_and_then: "(\<And>a. yields P (f a)) \<Longrightarrow> yields P (and_then r f)"
  by (cases r) (auto simp: yields_def)

lemma yields_Inr: "P b \<Longrightarrow> yields P (Inr b)"
  by (simp add: yields_def)

lemma yields_body: "yields (\<lambda>q. aj_body q = body) (authorize_workspace_json E time p body purpose binding expires)"
  unfolding authorize_workspace_json_def Let_def by (intro yields_and_then yields_Inr authorized_json.select_convs)

lemma authorized_body: "authorize_workspace_json E time p body purpose binding expires = Inr q \<Longrightarrow> aj_body q = body"
  using yields_body by (simp only: yields_def)

lemma preserves_known:
  assumes "preserves I m" "\<And>a s t. m s = (Inr a, t) \<Longrightarrow> preserves I (f a)"
  shows "preserves I (op_bind m f)"
  by (rule preservesI, erule op_bind_cases) (use assms in \<open>blast dest: preservesD\<close>)+

lemma bodies_quiet: "(\<And>x. preserves (view_is x) m) \<Longrightarrow> preserves (run_sends P old token) m"
  unfolding preserves_def view_is_def using run_sends_view(1) by metis

lemmas bodies_ops = bodies_quiet[OF preserves_view_io(5)] bodies_quiet[OF preserves_view_io(6)]
  bodies_quiet[OF preserves_view_io(7)] bodies_quiet[OF preserves_view_io(9)] bodies_quiet[OF preserves_view_io(13)]
  bodies_quiet[OF preserves_view_dispatch(1)] bodies_quiet[OF preserves_view_dispatch(2)]
  bodies_quiet[OF preserves_view_save[of "ADispatch j d" for j d, simplified]]

lemma bodies_gap:
  assumes "ai_interference E"
  shows "preserves (run_sends P old token) (ai_gap E k)"
proof -
  have "run_sends P old token (ae_gap E k w)" if "run_sends P old token w" for w
  proof -
    have "registered token w" using that by (simp add: run_sends_def)
    then have "holds_trust token [] w (ae_gap E k w)" using assms interference_holds_trust unfolding ai_interference_def by metis
    then show ?thesis using run_sends_holds(1) that by blast
  qed
  then show ?thesis by (auto simp: ai_gap_def intro: preserves_modify)
qed

lemma send_request_bodies:
  assumes "ai_interference E" "json_index (aj_body q) ''messages'' = messages"
  shows "preserves (run_sends (has_messages messages) old token) (send_request E sel p secret q purpose token')"
proof -
  have "preserves (run_sends (has_messages messages) old token) (log_sent sel secret (aj_body q) purpose token')"
    using assms(2) by (auto simp: log_sent_def run_sends_def has_messages_def registered_def intro!: preserves_modify)
  then show ?thesis
    unfolding send_request_def
    by (intro preserves_bind preserves_if preserves_sum preserves_basic bodies_gap assms bodies_ops)
qed

lemma complete_bodies:
  assumes "ai_interference E"
  shows "preserves (run_sends (has_messages messages) old token)
    (ai_complete_budgeted E sel messages tools response_format purpose binding n token')"
  unfolding ai_complete_budgeted_def Let_def split_beta
  by (intro preserves_known preserves_basic preserves_attempt bodies_gap assms bodies_ops send_request_bodies)
    (auto simp: dispatch_body_messages dest: authorized_body)

definition answered_sent :: "sent \<Rightarrow> bool" where
  "answered_sent x \<longleftrightarrow> (case as_array (json_index (se_body x) ''messages'') of None \<Rightarrow> False | Some ms \<Rightarrow> transcript_answered ms)"

lemma complete_answered:
  assumes "ai_interference E" "transcript_answered ms" "run_sends answered_sent old token w"
    and "ai_complete_budgeted E sel (JArr ms) tools response_format purpose binding n token w = (r, v)"
  shows "run_sends answered_sent old token v"
proof -
  have "run_sends (has_messages (JArr ms)) (v_sent w) token w" using assms(3) by (simp add: run_sends_def)
  from preservesD[OF complete_bodies[OF assms(1)] this assms(4)] obtain new where
    new: "registered token v" "v_sent v = v_sent w @ new" "list_all (has_messages (JArr ms)) new"
    by (auto simp: run_sends_def)
  have "list_all answered_sent new"
    using new(3) assms(2) by (auto simp: list_all_iff has_messages_def answered_sent_def as_array_def)
  with new assms(3) show ?thesis by (auto simp: run_sends_def)
qed

interpretation answered_run: run_requests R token False
  "\<lambda>s. run_interference R \<longrightarrow> run_sends answered_sent old token (rx_ai s)"
  "\<lambda>i s. run_interference R \<longrightarrow> run_sends answered_sent old token (rx_ai s)"
  for R token old
proof (unfold_locales, goal_cases)
  case (7 ms sel s tools response_format purpose binding n res t)
  then show ?case
    by (auto simp: in_ai_def run_interference_def split: prod.splits simp: sendable_def dest!: complete_answered)
next
  case (3 s k)
  then show ?case using run_gap_sends(1) by blast
next
  case (4 i s k)
  then show ?case using run_gap_sends(1) by blast
next
  case (1 t s)
  then show ?case using run_sends_view(1)[OF 1(1)] by simp
next
  case (2 t s i)
  then show ?case using run_sends_view(1)[OF 2(1)] by simp
next
  case (5 i s)
  then show ?case by blast
next
  case (6 s i)
  then show ?case by blast
qed

section \<open>The guarantees\<close>

text \<open>
  C8: an AI run over original text, of a material or of an attachment, sends requests only to a
  provider that the store holds as trusted with raw text at the moment of sending, and none once its
  token has fired: the requests of its rounds, the pages it has read and the title it asks for.
  Other handlers may run at every unlocked point, any access may fail, and the provider may answer
  anything.
\<close>

theorem raw_runs_send_only_while_trusted:
  assumes "run_interference R" "token \<in> set (v_tokens (rx_ai s))" "\<not> v_poisoned (rx_ai s)"
    and "raw_context_requested (ru_request r)" "execute_ai_run R r token s = (res, t)"
  shows "\<exists>new. v_sent (rx_ai t) = v_sent (rx_ai s) @ new \<and> list_all safe_sent new"
proof -
  have "run_interference R \<longrightarrow> run_sends safe_sent (v_sent (rx_ai s)) token (rx_ai s)"
    using assms(2,3) by (simp add: run_sends_def registered_def)
  from preservesD[OF trusted_run.execute_I[where r = r and old = "v_sent (rx_ai s)"] this assms(5)] assms(1,4)
  show ?thesis by (simp add: run_sends_def)
qed

text \<open>
  C22: every call of a tool in a request has its answer. In each request that a run sends, each
  identifier a message of the assistant asks a tool with is answered by a later message, also when
  the run continues one that was interrupted between its calls, as long as only the last message
  with calls may lack answers.
\<close>

theorem requests_answer_every_call:
  assumes "run_interference R" "token \<in> set (v_tokens (rx_ai s))" "\<not> v_poisoned (rx_ai s)"
    and "resumable (ru_messages r)" "execute_ai_run R r token s = (res, t)"
  shows "\<exists>new. v_sent (rx_ai t) = v_sent (rx_ai s) @ new \<and> list_all answered_sent new"
proof -
  have "run_interference R \<longrightarrow> run_sends answered_sent (v_sent (rx_ai s)) token (rx_ai s)"
    using assms(2,3) by (simp add: run_sends_def registered_def)
  from preservesD[OF answered_run.execute_I[where r = r and old = "v_sent (rx_ai s)"] this assms(5)] assms(1,4)
  show ?thesis by (simp add: run_sends_def)
qed

section \<open>A run that was interrupted\<close>

text \<open>
  A run over an attachment, by the trusted provider of \<open>Redaction\_Run\<close>, that stopped after the model
  had asked for a tool and before the tool answered. It is resumed, sends one request, and the peer
  fails.
\<close>

definition resumed_env :: run_env where
  "resumed_env = \<lparr>re_ai = failing_env, re_gap = (\<lambda>_ s. s), re_format = Inr, re_text = (\<lambda>_ b. Inr b),
     re_media = (\<lambda>_ b. Inr (b, [])), re_image = (\<lambda>n b. Inr (n, b, b)), re_pages = (\<lambda>_ _. Inr []),
     re_marker = (\<lambda>_. None), re_base64 = (\<lambda>b. b), re_tool = (\<lambda>_ x _. Inr x),
     re_citations = (\<lambda>_ _. Inl (error_new ''citation'')), re_system = [], re_tools = JArr [], re_html = (\<lambda>c. c),
     re_read_manifest = (\<lambda>_. None), re_shown = (\<lambda>_. [])\<rparr>"

definition sample_profile_hash :: string where
  "sample_profile_hash = sample_hash []"

definition sample_context_plan :: context_plan where
  "sample_context_plan = \<lparr>pl_schema_version = 1, pl_plan_hash = [], pl_actual_plan_hash = None, pl_stage = ''planned'',
     pl_capabilities = \<lparr>xc_verified = True, xc_context_window_tokens = 100, xc_max_input_tokens = 80,
       xc_max_output_tokens = 20, xc_supports_tools = Some True, xc_supports_structured_output = None, xc_supports_vision = None\<rparr>,
     pl_estimate = \<lparr>xe_input_tokens = 0, xe_reserved_output_tokens = 20, xe_system_tokens = 0, xe_request_tokens = 0,
       xe_history_tokens = 0, xe_material_tokens = 0, xe_attachment_tokens = 0, xe_tool_reserve_tokens = 0\<rparr>,
     pl_requested_scope = [], pl_selected_scope = \<lparr>xp_materials = [], xp_attachments = [], xp_history_run_ids = []\<rparr>,
     pl_omitted_scope = []\<rparr>"

definition asking :: json where
  "asking = JObj [(''role'', JStr ''assistant''), (''tool_calls'', JArr [JObj [(''id'', JStr ''call'')]])]"

definition resumed_run :: ai_run where
  "resumed_run = sample_run\<lparr>ru_request := sample_request\<lparr>rq_materials := [], rq_attachment_ids := [''a'']\<rparr>,
     ru_messages := [JObj [(''content'', JStr ''q''), (''role'', JStr ''user'')], asking],
     ru_provider_revision := 1, ru_provider_profile_hash := sample_profile_hash, ru_context_manifest := None,
     ru_context_plan := Some sample_context_plan\<rparr>"

definition resumed_ws :: run_ws where
  "resumed_ws = sample_run_ws\<lparr>rx_ai := trusted_ws, rx_runs := [(''r'', resumed_run)]\<rparr>"

definition quiet_run :: "run_ws \<Rightarrow> bool" where
  "quiet_run s \<longleftrightarrow> rx_outcomes s = [] \<and> rx_ai s = trusted_ws
     \<and> (\<exists>q. om_get (rx_runs s) ''r'' = Some q \<and> ru_revision q = 1 \<and> active q)"

text \<open>A state of this run: what its steps leave of the row.\<close>

definition resumed :: "ai_run \<Rightarrow> bool" where
  "resumed r \<longleftrightarrow> ru_id r = ''r'' \<and> ru_revision r = 1 \<and> ru_context_manifest r = None \<and> active r
     \<and> ru_request r = ru_request resumed_run \<and> selection_of r = sample_selection \<and> ru_bindings r = [] \<and> ru_kind r = ''chat''
     \<and> ru_provider_revision r = 1 \<and> ru_provider_profile_hash r = sample_profile_hash
     \<and> ru_context_plan r = Some sample_context_plan \<and> ru_usage r = JNull"

lemma resumed_parts: "raw_context_requested (ru_request resumed_run)" "rq_materials (ru_request resumed_run) = []"
  "rq_attachment_ids (ru_request resumed_run) = [''a'']"
  by (simp_all add: resumed_run_def raw_context_requested_def)

lemma active_runs:
  assumes "quiet_run s" "resumed r"
  shows "rx_lock s = (Inr (), s)" "ensure_run_active_locked r s = (Inr (), s)" "rx_now s = (Inr 100, s)"
proof -
  have now: "v_now trusted_ws = 100" by (simp add: trusted_ws_def empty_ai_ws_def)
  show "rx_lock s = (Inr (), s)" "ensure_run_active_locked r s = (Inr (), s)" "rx_now s = (Inr 100, s)"
    using assms now
    by (auto simp: quiet_run_def resumed_def ensure_run_active_locked_def rx_lock_def rx_io_def rx_fetch_def rx_fetch_maybe_def
        rx_require_def ensure_def ok_or_def op_bind_run rx_now_def in_ai_def ai_now_def)
qed

lemma progress_runs:
  assumes "quiet_run s" "resumed r"
  shows "\<exists>t. save_run_progress r stage s = (Inr (r\<lparr>ru_stage := stage, ru_updated_at := 100\<rparr>), t) \<and> quiet_run t"
proof -
  let ?r = "r\<lparr>ru_stage := stage, ru_updated_at := 100\<rparr>"
  have "rx_save (XRun (ru_id r) ?r) s = (Inr (), s\<lparr>rx_runs := om_put ''r'' ?r (rx_runs s)\<rparr>)"
    using assms by (simp add: quiet_run_def resumed_def rx_save_def rx_encode_def rx_put_rows_def rx_io_def op_bind_run)
  moreover have "quiet_run (s\<lparr>rx_runs := om_put ''r'' ?r (rx_runs s)\<rparr>)"
    using assms by (simp add: quiet_run_def resumed_def active_def)
  ultimately show ?thesis
    using active_runs[OF assms] by (simp add: save_run_progress_def op_bind_run Let_def)
qed

lemma validate_runs:
  assumes "quiet_run s" "resumed r"
  shows "validate_run_bindings resumed_env r s = (Inr (), s)"
proof -
  have config: "in_ai (ai_config sample_selection) s = (Inr (trusted_config, trusted_metadata), s)"
    using assms(1) calm_runs(4)[of trusted_ws] by (simp add: in_ai_def quiet_run_def calm_def trusted_ws_def empty_ai_ws_def)
  have service: "run_service resumed_env = sample_service"
    by (simp add: run_service_def resumed_env_def failing_env_def sample_ai_env_def)
  have hash: "sample_hash [] \<noteq> []" using sample_hash_simps(3)[of "[]"] by (auto simp: valid_sha256_def)
  have profile: "pc_revision trusted_config = 1" "md_trust_raw trusted_metadata"
    by (simp_all add: trusted_config_def trusted_metadata_def trusted_ws_def)
  have "in_ai (ai_provider_is_trusted sample_selection) s = (Inr True, s)"
    using config profile(2) by (auto simp: in_ai_def ai_provider_is_trusted_def op_bind_run split: prod.splits)
  then show ?thesis
    using assms(2) active_runs[OF assms] config profile hash resumed_parts
    by (simp add: validate_run_bindings_def validate_run_bindings_locked_def op_bind_run resumed_def rx_require_def ensure_def
        check_profile_def provider_profile_binding_def service sample_profile_hash_def check_material_policy_def require_trust_def)
qed

lemma resumed_gap: "run_gap resumed_env k s = (Inr (), s)"
  by (simp add: run_gap_def resumed_env_def)

lemma resumed_request:
  assumes "quiet_run s" "resumed r" "plain_messages (ru_messages r)"
  shows "\<exists>e t x. ask_model resumed_env r sample_selection 7 s = (Inl e, t) \<and> v_sent (rx_ai t) = [x]"
proof -
  have service: "run_service resumed_env = sample_service" "re_ai resumed_env = failing_env" "re_tools resumed_env = JArr []"
    by (simp_all add: run_service_def resumed_env_def failing_env_def sample_ai_env_def)
  have budget: "dispatch_budget_for_run resumed_env r = Inr 20"
    using assms(2) by (simp add: dispatch_budget_for_run_def resumed_def ok_or_def ensure_def messages_text_def service
        estimate_text_tokens_def input_limit_def sample_context_plan_def u64_at_def json_index_def json_get_def as_u64_def
        U32_LIMIT_def Let_def)
  have purpose: "validate_provider_binding_text ''chat'' = Inr ()"
    by (simp add: validate_provider_binding_text_def chars_plain is_control_def ensure_def)
  obtain v x where ask: "ai_complete_budgeted failing_env sample_selection (JArr (ru_messages r)) (Some (JArr [])) None ''chat''
      (sample_hash []) 20 7 trusted_ws = (Inl (provider_error (new_provider_error Network)), v)" "v_sent v = [x]"
    using request_fails[OF assms(3) purpose, of 20 "Some (JArr [])" None "[]"] by auto
  show ?thesis
    using assms(1,2) ask budget
    by (simp add: ask_model_def op_bind_run resumed_gap in_ai_def quiet_run_def resumed_def service bindings_hash_def)
qed

lemma repaired: "repair_interrupted_tool_results (ru_messages resumed_run) = ru_messages resumed_run @ [tool_message (JStr ''call'') INTERRUPTED]"
  "plain_messages (ru_messages resumed_run @ [tool_message (JStr ''call'') INTERRUPTED])" "resumable (ru_messages resumed_run)"
  by (simp_all add: resumed_run_def repair_interrupted_tool_results_def calls_of_def asking_def answer_to_def call_ids_def
      json_index_def json_get_def as_str_def as_array_def plain_messages_def tool_message_def)

lemma resumed_sends: "\<exists>e t x. execute_ai_run resumed_env resumed_run 7 resumed_ws = (Inl e, t) \<and> v_sent (rx_ai t) = [x]"
proof -
  let ?running = "resumed_run\<lparr>ru_status := ''running''\<rparr>"
  have start: "resumed ?running" by (simp add: resumed_def resumed_run_def sample_run_def active_def selection_of_def sample_selection_def)
  have quiet: "quiet_run resumed_ws"
    by (simp add: quiet_run_def resumed_ws_def sample_run_ws_def resumed_run_def sample_run_def active_def)
  define saved where "saved = (\<lambda>r stage. r\<lparr>ru_stage := stage, ru_updated_at := 100 :: nat\<rparr> :: ai_run)"
  have progress: "\<exists>t. save_run_progress r stage s = (Inr (saved r stage), t) \<and> quiet_run t" if "quiet_run s" "resumed r" for s r stage
    using progress_runs[OF that] by (simp add: saved_def)
  have saved: "resumed (saved r stage)" "ru_messages (saved r stage) = ru_messages r" "selection_of (saved r stage) = selection_of r"
    if "resumed r" for r stage
    using that by (simp_all add: saved_def resumed_def active_def selection_of_def)
  define stage where "stage = (utf8 [0x6B63, 0x5728, 0x8BFB, 0x53D6, 0x6750, 0x6599])"
  obtain s1 where s1: "save_run_progress ?running stage resumed_ws = (Inr (saved ?running stage), s1)" "quiet_run s1"
    using progress[OF quiet start] by blast
  define r1 where "r1 = (saved ?running stage)\<lparr>ru_messages := ru_messages resumed_run @ [tool_message (JStr ''call'') INTERRUPTED]\<rparr>"
  have r1: "resumed r1" using saved(1)[OF start, of stage] by (simp add: r1_def resumed_def active_def selection_of_def)
  obtain s2 where s2: "save_run_progress r1 (round_stage 0) s1 = (Inr (saved r1 (round_stage 0)), s2)" "quiet_run s2"
    using progress[OF s1(2) r1] by blast
  have "plain_messages (ru_messages (saved r1 (round_stage 0)))"
    using repaired(2) saved(2)[OF r1] by (simp add: r1_def)
  from resumed_request[OF s2(2) saved(1)[OF r1] this] obtain e t x where
    ask: "ask_model resumed_env (saved r1 (round_stage 0)) sample_selection 7 s2 = (Inl e, t)" "v_sent (rx_ai t) = [x]" by blast
  have rounds: "MAX_ROUNDS = Suc 7" by (simp add: MAX_ROUNDS_def)
  have "run_rounds resumed_env sample_selection 7 MAX_ROUNDS 0 0 0 (r1, []) s1 = (Inl e, t)"
    unfolding rounds run_rounds.simps using validate_runs[OF s1(2) r1] s2(1) ask(1) by (simp add: op_bind_run)
  moreover have "ru_messages (saved ?running stage) = ru_messages resumed_run" "ru_messages resumed_run \<noteq> []"
    "selection_of (saved ?running stage) = sample_selection"
    using saved(2,3)[OF start] start by (simp_all add: resumed_run_def resumed_def)
  ultimately have "execute_ai_run resumed_env resumed_run 7 resumed_ws = (Inl e, t)"
    unfolding execute_ai_run_def stage_def[symmetric] using s1(1) repaired(1)
    by (simp add: op_bind_run resumed_gap r1_def Let_def)
  with ask(2) show ?thesis by blast
qed

lemma resumed_setting: "run_interference resumed_env" "7 \<in> set (v_tokens (rx_ai resumed_ws))" "\<not> v_poisoned (rx_ai resumed_ws)"
  "v_sent (rx_ai resumed_ws) = []"
proof -
  have "\<exists>qs. w = fold (ai_serve E) qs w" for w E by (rule exI[of _ "[]"]) simp
  then show "run_interference resumed_env"
    by (auto simp: run_interference_def ai_interference_def resumed_env_def failing_env_def sample_ai_env_def)
  show "7 \<in> set (v_tokens (rx_ai resumed_ws))" "\<not> v_poisoned (rx_ai resumed_ws)" "v_sent (rx_ai resumed_ws) = []"
    by (simp_all add: resumed_ws_def trusted_ws_def empty_ai_ws_def)
qed

theorem raw_runs_send_only_while_trusted_witness:
  "\<exists>e t x. execute_ai_run resumed_env resumed_run 7 resumed_ws = (Inl e, t) \<and> v_sent (rx_ai t) = [x] \<and> safe_sent x"
proof -
  obtain e t x where run: "execute_ai_run resumed_env resumed_run 7 resumed_ws = (Inl e, t)" "v_sent (rx_ai t) = [x]"
    using resumed_sends by blast
  from raw_runs_send_only_while_trusted[OF resumed_setting(1-3) resumed_parts(1) run(1)] run resumed_setting(4)
  show ?thesis by auto
qed

theorem requests_answer_every_call_witness:
  "\<exists>e t x. execute_ai_run resumed_env resumed_run 7 resumed_ws = (Inl e, t) \<and> v_sent (rx_ai t) = [x] \<and> answered_sent x"
proof -
  obtain e t x where run: "execute_ai_run resumed_env resumed_run 7 resumed_ws = (Inl e, t)" "v_sent (rx_ai t) = [x]"
    using resumed_sends by blast
  from requests_answer_every_call[OF resumed_setting(1-3) repaired(3) run(1)] run resumed_setting(4)
  show ?thesis by auto
qed

end
