(* ===== verification/Spec2Isabelle.thy ===== *)
theory Spec2Isabelle imports Classification Admission Store_Query Worker_Guarantees Client_Guarantees Locator Context
  Redaction_Trust Run_Trust begin

text \<open>
  A verification development of the local redaction workspace of Lawyer Assistance. The program
  keeps the case material of a law firm on one machine, replaces what identifies people and
  organisations by aliases, and lets external clients and language models see only checked,
  replaced text. The development models the Rust crates that carry this promise: \<open>privacy-text\<close>,
  parts of \<open>privacy\<close> and of \<open>providers\<close>, and the \<open>workspace-service\<close> (paths below are under \<open>src/crates\<close>).

  How the parts interact. A client or the user submits files; each becomes a material of a task in
  a group, stored sealed and indexed. The worker claims a queued material, extracts its text and
  analyses it: locally, with cloud findings under a consent, or led by a model that points at exact
  ranges. The analysis collects candidates, decides which ranges rest on corroborated evidence,
  splices aliases into the text and leaves the rest for review. A result is published only when
  the validation finds nothing left, and is read only while it is current: a dictionary change, a
  replacement or a revocation withdraws it.

  \<^bold>\<open>Shared ground.\<close> \<open>Prelude\<close> (machine integers at their width, results as sums, stateful fallible
  operations with \<open>op\_bind\<close> and a small Hoare calculus, transition systems), \<open>Utf8\<close> (a \<open>str\<close> as
  its bytes, slices at character boundaries, searching), \<open>Ordered\_Map\<close> (B-tree maps and primary key
  tables as sorted association lists).

  \<^bold>\<open>The redaction engine.\<close>
  \<^item> \<open>Json\<close>: canonical serialisation and the strict reader (\<open>privacy/src/vnext.rs\<close>). Shown: equal
    bytes come from equal values; what is accepted has a canonical form.
  \<^item> \<open>Entity\<close>, \<open>Alias\<close>: kinds, aliases, identifiers (\<open>privacy-text/src/lib.rs\<close>).
  \<^item> \<open>Analysis\<close>, \<open>Classification\<close>: candidates and their classification (\<open>analyze\_internal\<close>,
    \<open>build\_analysis\<close> and what they call). Shown: the analysis succeeds, replaces only on corroborated
    evidence, does not replace one guessed name in two party contexts, is the splice of its recorded
    ranges, and one that needs no review is publishable.
  \<^item> \<open>Replacement\<close>, \<open>Publication\<close>, \<open>Residual\<close>: the splice with its evidence, the publication gate and
    the independent residual scan (\<open>privacy/src/residual\_scan.rs\<close>). Shown: a validated result has
    no unresolved finding and no residual; an export is the checked text; a pass has seen every page.
  \<^item> \<open>Locator\<close>: the pure part of the model-led redaction (\<open>workspace-service/src/redaction\_ai.rs\<close>).
    Shown: the chunks miss no entity, located findings are exact slices.

  \<^bold>\<open>Requests to a provider.\<close> The state \<open>ai\_ws\<close> holds the provider tables, the credential store, the
  cancellation tokens, the outcomes of the environment (an operation passes, fails, or is applied
  and fails; a crash is a run whose later outcomes are all failures) and a log of the requests that
  left the machine. A handler is atomic under the gate; at each point where a request runs without
  it, \<open>ae\_gap\<close> stands for whatever other handlers do there.
  \<^item> \<open>Endpoint\<close>: provider profiles and the check of an endpoint (\<open>providers/src/types.rs\<close>,
    \<open>adapter.rs\<close>). Shown: only public addresses are reached over HTTPS unless allowed.
  \<^item> \<open>Json\_Value\<close>, \<open>Stream\_Parser\<close>: access to JSON values; the parser of streamed replies (\<open>stream.rs\<close>,
    \<open>redaction.rs\<close>). Shown: for a reply of at most 1 MiB the cut into chunks does not
    matter, as long as no chunk but the last ends in a carriage return.
  \<^item> \<open>Context\<close>: the plan of a context and its token ledger (\<open>ai\_context.rs\<close>), a transition system.
    Shown: the budget holds in every reachable ledger.
  \<^item> \<open>Ai\_Config\<close>, \<open>Ai\_Provider\<close>, \<open>Ai\_Save\<close>: capabilities, declarations, defaults and the save of a
    provider with its key (\<open>ai\_provider.rs\<close>, \<open>provider.rs\<close>). Shown: a save is atomic for its use over two
    stores that share no transaction.
  \<^item> \<open>Ai\_Dispatch\<close>: one request with its authorisation, rechecks and record.
  \<^item> \<open>Redaction\<close>, \<open>Redaction\_Run\<close>, \<open>Redaction\_Trust\<close>: the two passes over the chunks of a text, runs of
    them, and the properties. Shown: text is sent only while the provider is trusted and the token has
    not fired, with settings handlers interleaved; the result is the local analysis of the text with
    exact slices the model pointed at. The commit of a settings save and the firing of the tokens it
    cancels are one step here; the code fires them right after the commit, under the gate, while the
    sender holds no gate.

  \<^bold>\<open>AI runs\<close> (\<open>ai\_runs.rs\<close>, \<open>ocr.rs\<close>). A run answers a question or writes a document over selected
  materials and attachments. The state \<open>run\_ws\<close> puts the provider settings (\<open>ai\_ws\<close>), the decoded
  workspace (\<open>ws\<close>) and the ledger beside the tables of runs, conversations, attachments and pages; the
  operations of the parts are lifted. \<open>run\_env\<close> holds what is a parameter and \<open>re\_gap\<close>, what other
  handlers do at an unlocked point.
  \<^item> \<open>Run\_Scope\<close>, \<open>Run\_Context\<close>, \<open>Run\_Deselect\<close>: segments, ranges, the selection of a conversation and
    its replacement. Shown: one context covers another exactly when it selects all the other selects;
    a turn is sent again exactly when all it was made from is still selected; no unfinished run outlives
    what it was reviewed with.
  \<^item> \<open>Run\_Store\<close>, \<open>Run\_Messages\<close>, \<open>Ocr\<close>: rows and bindings, the rechecks of a run, its first messages,
    and the pages read by a model.
  \<^item> \<open>Run\_Loop\<close>, \<open>Run\_Requests\<close>, \<open>Run\_Trust\<close>: the loop over requests and tools, runs of it, and the
    properties. Shown: a run over original text sends only to a provider trusted when it is sent, and
    each tool call in a request has its answer.
  \<^item> \<open>Law\_Mention\<close>: the statutes an answer names. Shown: a named article is one whose citation was
    checked.

  \<^bold>\<open>The workspace service.\<close>
  \<^item> \<open>Service\<close>, \<open>Types\<close>: errors, validators, records and their serialised form (\<open>error.rs\<close>, \<open>types.rs\<close>).
  \<^item> \<open>Admission\<close>: the bounded pools of \<open>admission.rs\<close> as a transition system. The
    semaphore hands a released permit to the first waiter of its queue, as Tokio does. Shown: limits
    hold and the snapshot is exact in every reachable world, and nothing leaks.
  \<^item> \<open>Sealed\<close>, \<open>Store\<close>, \<open>Store\_Query\<close>: sealed bodies, rows, transactions, quarantine, pages, the queue
    and the migration of \<open>store.rs\<close>. Shown: round trip and binding of sealed bodies, atomic batches,
    exclusive claims, exact enumeration by cursors, effective quarantine.
  \<^item> \<open>Workspace\<close>, \<open>Tasks\<close>, \<open>Worker\<close>, \<open>Mcp\<close>: the handlers of \<open>lib.rs\<close>, \<open>tasks.rs\<close> and \<open>filesystem.rs\<close>
    on the decoded store. The state is a record with a table per kind, the clock, the identifiers
    issued, the cancellation tokens and a list of outcomes of the environment; every access to the
    store or a lock takes one outcome, so every failure point is a branch.
  \<^item> \<open>Lifecycle\<close>, \<open>Operations\<close>, \<open>Interleaving\<close>, \<open>Handlers\<close>: the invariant of the decoded store
    (\<open>ws\_inv\<close>), the evolution between two states (\<open>evolves\<close>), one safety lemma per operation, and the
    worker with handlers interleaved at its unlocked points.
  \<^item> \<open>Deployment\<close>: the service as a transition system of requests, worker turns, submissions and
    restarts. \<open>Sample\_Run\<close> computes one run, on which the properties are instantiated.
  \<^item> \<open>Guarantees\<close>, \<open>Worker\_Guarantees\<close>, \<open>Client\_Guarantees\<close>: the properties of reachable
    configurations and of runs: withdrawal is final, exactly current results are read, consent is
    spent once, superseded claims write nothing but their stage, failures are recorded, restart
    settles interrupted work, clients are isolated, inbox reads stay inside while the file system
    changes, pages are the text.

  The runs of \<open>Deployment\<close> leave out two things. An AI run completes a legacy row by saving a material
  or result it read before, outside the gate, and can overwrite a change made in between; the model of
  AI runs has these writes (\<open>fill\_material\<close>, \<open>redacted\_text\<close>), the runs of \<open>Deployment\<close> do not, and the
  findings of the manifest name them. And \<open>Store::list\<close> skips rows that do not decode, which
  \<open>Store\<close> models, while the decoded store of the handlers has none.

  \<^bold>\<open>Locales.\<close> \<open>keyed\_table\<close> (Ordered\_Map) states the laws of lookup and update, interpreted on the ordered
  maps; \<open>row\_table\<close> (Lifecycle) those of one table of the workspace, interpreted on the seven tables;
  \<open>transition\_system\<close> (Prelude) gives invariants in every reachable state, interpreted on admission, the
  token ledger and the object store, and extended to \<open>evolving\_system\<close> (Deployment) for what two states
  of a run have in common, interpreted on the service. \<open>run\_requests\<close>
  (Run\_Requests) carries what every request of a run satisfies through its loop, interpreted in
  Run\_Trust for the trust in a provider and for the answers to calls.

  \<^bold>\<open>Bounds and fuel.\<close> \<open>chunk\_loop\<close> has the length of the text as fuel and is shown to end within it.
  \<open>settle\_material\_failure\<close> takes a number of attempts: one more than there are faults records the
  failure, and none is enough while the store keeps failing, as in the code. \<open>claim\_next\<close> makes the
  two attempts of the code; \<open>run\_rounds\<close> the eight rounds with at most twenty-four calls and two repairs; \<open>findings\_attempts\<close> the three of the code. Cursor loops are shown to end. Revisions and clocks are natural numbers:
  the code increments 64-bit counters by one per request.

  \<^bold>\<open>Parameters.\<close> SHA-256, the regular expression engine, the deterministic and local detectors, the
  generator of unique identifiers, the JSON tokeniser and serialiser, the platform protection of
  sealed bodies, the archive writer and the document extractors, the URL and address parsers, the
  transport to a provider, the legal tools, the check of citations, the rendering of an answer, the
  fixed texts of the system message, the page worker, and the file system, a state for each
  observation of it. What the proofs need of them is a named predicate (\<open>service\_ok\<close> and the like)
  that states documented behaviour.

  \<^bold>\<open>Not modelled.\<close> Listing pages, health, bookmarks and templates of the service (projections of
  rows to JSON); the supervisor and its diagnostics (reporting only); the Windows handle locks of
  \<open>filesystem.rs\<close> and of the credential vault (platform calls); document rendering and the document
  worker (external processes); starting, continuing, editing and exporting an AI run, its drafts and
  preflight plans; the older chat, citations and legal search; the
  chat requests and the approved transport of \<open>adapter.rs\<close>; the deterministic and local detectors of
  \<open>privacy\<close>; the desktop database crate, the document workspace of \<open>privacy\<close> and their migration
  sources (SQL text executed by SQLite). The manifest lists each with its reason.
\<close>

end
